(* ===== verification/Prelude.thy ===== *)
theory Prelude
  imports Complex_Main "HOL-Library.Char_ord" "HOL-Library.List_Lexorder" "HOL-Library.Sublist"
begin

text \<open>
  What the component theories share: the errors the TypeScript code throws, the JavaScript string and
  collection operations it uses, an effect type for operations that change durable state and may throw,
  with a small program logic for it, and two interfaces (tables of allowed transitions, partial maps
  kept as lists) that several components implement.

  Strings are lists of 8-bit characters (code units below 256); numbers that the code requires to be
  integers are \<open>int\<close>, a ratio such as a progress value is \<open>rat\<close>, computed exactly.
\<close>

named_theorems triple_intros \<open>rules of the program logic\<close>
named_theorems status_tables \<open>tables of allowed transitions\<close>

section \<open>Errors and results\<close>

text \<open>One constructor per error class of the modelled code, carrying the message.\<close>

datatype error =
    Error string
  | DurableStoreCorruptionError string
  | ExecutionStateTransitionError string
  | ExecutorRegistryError string
  | ExecutorManagerError string
  | ExecutorRoutingError string
  | DevelopmentSchedulerError string
  | PlanningValidationError string
  | DevelopmentSessionRuntimeError string
  | RemoteDeliveryPendingError string
  | RemoteTaskBlockedError string
  | RemoteTaskOutcomeUnknownError string
  | NoEntry  \<comment> \<open>the file system's ENOENT\<close>

type_synonym 'a res = "error + 'a"

fun error_message :: "error \<Rightarrow> string" where
  "error_message (Error m) = m"
| "error_message (DurableStoreCorruptionError m) = m"
| "error_message (ExecutionStateTransitionError m) = m"
| "error_message (ExecutorRegistryError m) = m"
| "error_message (ExecutorManagerError m) = m"
| "error_message (ExecutorRoutingError m) = m"
| "error_message (DevelopmentSchedulerError m) = m"
| "error_message (PlanningValidationError m) = m"
| "error_message (DevelopmentSessionRuntimeError m) = m"
| "error_message (RemoteDeliveryPendingError m) = m"
| "error_message (RemoteTaskBlockedError m) = m"
| "error_message (RemoteTaskOutcomeUnknownError m) = m"
| "error_message NoEntry = ''ENOENT: no such file or directory''"

text \<open>\<open>String(error)\<close>: no class of the runtimes that use it sets a name of its own. The text of an operating system error is cut short.\<close>

definition error_text :: "error \<Rightarrow> string" where
  "error_text e = ''Error: '' @ error_message e"

definition guard_res :: "bool \<Rightarrow> error \<Rightarrow> unit res" where
  "guard_res ok e = (if ok then Inr () else Inl e)"

lemma guard_res_simps [simp]:
  "guard_res True e = Inr ()"
  "guard_res False e = Inl e"
  "guard_res ok e = Inr u \<longleftrightarrow> ok"
  "guard_res ok e = Inl e' \<longleftrightarrow> \<not> ok \<and> e' = e"
  by (auto simp: guard_res_def)

section \<open>Strings and numbers of the source language\<close>

text \<open>\<open>String.prototype.trim\<close>: white space and line terminators among the 8-bit code units.\<close>

definition js_space :: "char \<Rightarrow> bool" where
  "js_space c \<longleftrightarrow> c \<in> set [CHR 0x20, CHR 0x09, CHR 0x0A, CHR 0x0B, CHR 0x0C, CHR 0x0D, CHR 0xA0]"

definition trim :: "string \<Rightarrow> string" where
  "trim s = rev (dropWhile js_space (rev (dropWhile js_space s)))"

text \<open>\<open>value.trim() || null\<close>, the idiom for optional text.\<close>

definition trim_opt :: "string option \<Rightarrow> string option" where
  "trim_opt v = (case v of None \<Rightarrow> None | Some s \<Rightarrow> if trim s = [] then None else Some (trim s))"

lemma trim_Nil [simp]: "trim [] = []"
  by (simp add: trim_def)

lemma rev_dropWhile_idem: "dropWhile P (rev (dropWhile P (rev (dropWhile P s)))) =
    rev (dropWhile P (rev (dropWhile P s)))"
proof (cases "rev (dropWhile P (rev (dropWhile P s)))")
  case (Cons c cs)
  then obtain d ds where t: "dropWhile P s = d # ds"
    by (cases "dropWhile P s") auto
  then have nd: "\<not> P d" by (metis hd_dropWhile list.sel(1) list.distinct(1))
  have "rev (dropWhile P (rev (d # ds))) = d # rev (dropWhile P (rev ds))"
    using nd by (simp add: dropWhile_append)
  then show ?thesis using nd t by simp
next
  case Nil
  show ?thesis unfolding Nil by simp
qed

lemma trim_idem [simp]: "trim (trim s) = trim s"
  by (simp add: trim_def rev_dropWhile_idem)

lemma trim_Nil_iff: "trim s = [] \<longleftrightarrow> (\<forall>c \<in> set s. js_space c)"
proof -
  have "trim s = [] \<longleftrightarrow> (\<forall>c \<in> set (dropWhile js_space s). js_space c)"
    by (simp add: trim_def)
  also have "\<dots> \<longleftrightarrow> (\<forall>c \<in> set s. js_space c)"
    by (metis dropWhile_eq_Nil_conv hd_dropWhile hd_in_set set_dropWhileD)
  finally show ?thesis .
qed

text \<open>Template literals print numbers in decimal.\<close>

definition digit :: "nat \<Rightarrow> char" where
  "digit n = ''0123456789'' ! n"

fun nat_text :: "nat \<Rightarrow> string" where
  "nat_text n = (if n < 10 then [digit n] else nat_text (n div 10) @ [digit (n mod 10)])"

declare nat_text.simps [simp del]

definition int_text :: "int \<Rightarrow> string" where
  "int_text i = (if i < 0 then ''-'' @ nat_text (nat (- i)) else nat_text (nat i))"

fun split_on :: "char \<Rightarrow> string \<Rightarrow> string list" where
  "split_on c [] = [[]]"
| "split_on c (x # xs) = (if x = c then [] # split_on c xs else (case split_on c xs of [] \<Rightarrow> [[x]] | p # ps \<Rightarrow> (x # p) # ps))"

definition js_join :: "string \<Rightarrow> string list \<Rightarrow> string" where
  "js_join sep xs = (case xs of [] \<Rightarrow> [] | y # ys \<Rightarrow> y @ concat (map (\<lambda>s. sep @ s) ys))"

text \<open>\<open>Number.isSafeInteger\<close> on an integer-valued number.\<close>

definition MAX_SAFE_INTEGER :: int where
  "MAX_SAFE_INTEGER = 9007199254740991"

definition safe_integer :: "int \<Rightarrow> bool" where
  "safe_integer i \<longleftrightarrow> - MAX_SAFE_INTEGER \<le> i \<and> i \<le> MAX_SAFE_INTEGER"

text \<open>\<open>[...new Set(errors)].sort()\<close>: sorted by code units, without repetition.\<close>

definition sorted_unique :: "string list \<Rightarrow> string list" where
  "sorted_unique xs = sort (remdups xs)"

lemma sorted_unique_Nil_iff [simp]: "sorted_unique xs = [] \<longleftrightarrow> xs = []"
  unfolding sorted_unique_def
  by (metis remdups_eq_nil_iff set_empty set_sort)

lemma set_sorted_unique [simp]: "set (sorted_unique xs) = set xs"
  by (simp add: sorted_unique_def)

text \<open>\<open>[...new Set(xs)]\<close>: each value where it first occurs.\<close>

definition first_occurrences :: "'a list \<Rightarrow> 'a list" where
  "first_occurrences xs = rev (remdups (rev xs))"

lemma set_first_occurrences [simp]: "set (first_occurrences xs) = set xs"
  by (simp add: first_occurrences_def)

lemma distinct_first_occurrences [simp]: "distinct (first_occurrences xs)"
  by (simp add: first_occurrences_def)

lemma distinct_sorted_unique [simp]: "distinct (sorted_unique xs)"
  by (simp add: sorted_unique_def)

lemma length_take_missing:
  assumes "x \<in> set xs" "x \<notin> set (take n xs)"
  shows "length (take n xs) = n"
  using assms by (cases "length xs \<le> n") auto

section \<open>Lists keyed by an identifier\<close>

text \<open>
  \<open>xs.find(x => key(x) === k)\<close> takes the first hit; \<open>new Map(xs.map(x => [key(x), x]))\<close> followed by
  \<open>get\<close> takes the last. On lists with distinct keys they agree.
\<close>

definition find_key :: "('a \<Rightarrow> 'k) \<Rightarrow> 'k \<Rightarrow> 'a list \<Rightarrow> 'a option" where
  "find_key key k xs = List.find (\<lambda>x. key x = k) xs"

definition map_get :: "('a \<Rightarrow> 'k) \<Rightarrow> 'a list \<Rightarrow> 'k \<Rightarrow> 'a option" where
  "map_get key xs k = find_key key k (rev xs)"

text \<open>\<open>xs.map(x => key(x) === k ? f(x) : x)\<close>, the update used for every immutable state change.\<close>

definition map_key :: "('a \<Rightarrow> 'k) \<Rightarrow> 'k \<Rightarrow> ('a \<Rightarrow> 'a) \<Rightarrow> 'a list \<Rightarrow> 'a list" where
  "map_key key k f xs = map (\<lambda>x. if key x = k then f x else x) xs"

lemma find_member: "List.find P xs = Some x \<Longrightarrow> x \<in> set xs \<and> P x"
  by (auto simp: find_Some_iff)

lemma find_key_Some: "find_key key k xs = Some x \<Longrightarrow> x \<in> set xs \<and> key x = k"
  by (auto simp: find_key_def find_Some_iff)

lemma find_key_None [simp]: "find_key key k xs = None \<longleftrightarrow> k \<notin> key ` set xs"
  by (auto simp: find_key_def find_None_iff)

lemma find_key_distinct:
  assumes "distinct (map key xs)" "x \<in> set xs"
  shows "find_key key (key x) xs = Some x"
proof -
  obtain y where y: "find_key key (key x) xs = Some y"
    using assms(2) by (metis find_key_None image_eqI not_None_eq)
  have "y = x"
    using find_key_Some [OF y] assms by (metis (no_types) distinct_map inj_onD)
  with y show ?thesis by simp
qed

lemma find_key_eq_iff:
  "distinct (map key xs) \<Longrightarrow> find_key key k xs = Some x \<longleftrightarrow> x \<in> set xs \<and> key x = k"
  using find_key_Some find_key_distinct by fastforce

lemma map_get_find_key:
  assumes "distinct (map key xs)"
  shows "map_get key xs k = find_key key k xs"
proof (cases "find_key key k xs")
  case None
  then have "find_key key k (rev xs) = None" by simp
  with None show ?thesis by (simp only: map_get_def)
next
  case (Some x)
  have "distinct (map key (rev xs))" using assms by (simp add: rev_map [symmetric])
  with find_key_Some [OF Some] have "find_key key k (rev xs) = Some x"
    by (subst find_key_eq_iff) auto
  with Some show ?thesis by (simp add: map_get_def)
qed

lemma map_get_None [simp]: "map_get key xs k = None \<longleftrightarrow> k \<notin> key ` set xs"
  by (simp add: map_get_def)

lemma map_get_Some: "map_get key xs k = Some x \<Longrightarrow> x \<in> set xs \<and> key x = k"
  unfolding map_get_def using find_key_Some by fastforce

lemma map_map_key:
  assumes "\<And>x. key x = k \<Longrightarrow> g (f x) = g x"
  shows "map g (map_key key k f xs) = map g xs"
  using assms by (simp add: map_key_def)

lemma length_map_key [simp]: "length (map_key key k f xs) = length xs"
  by (simp add: map_key_def)

lemma in_map_key:
  "y \<in> set (map_key key k f xs) \<longleftrightarrow>
     (\<exists>x \<in> set xs. (key x = k \<and> y = f x) \<or> (key x \<noteq> k \<and> y = x))"
  by (auto simp: map_key_def)

lemma find_key_map_key:
  assumes "\<And>x. key (f x) = key x"
  shows "find_key key k' (map_key key k f xs) =
    (if k' = k then map_option f (find_key key k xs) else find_key key k' xs)"
  using assms by (induction xs) (auto simp: find_key_def map_key_def)

lemma map_key_id: "k \<notin> key ` set xs \<Longrightarrow> map_key key k f xs = xs"
  by (induction xs) (auto simp: map_key_def)

lemma filter_map_key:
  assumes "distinct (map key xs)" "x \<in> set xs" "key x = k"
  shows "int (length (filter P (map_key key k f xs))) =
    int (length (filter P xs)) + of_bool (P (f x)) - of_bool (P x)"
  using assms
proof (induction xs)
  case (Cons y ys)
  show ?case
  proof (cases "key y = k")
    case True
    with Cons.prems have "y = x" "k \<notin> key ` set ys" by (auto simp: image_iff)
    with True map_key_id [of k key ys f] show ?thesis by (simp add: map_key_def)
  next
    case False
    with Cons have "int (length (filter P (map_key key k f ys))) =
        int (length (filter P ys)) + of_bool (P (f x)) - of_bool (P x)" by auto
    with False show ?thesis by (simp add: map_key_def)
  qed
qed simp

section \<open>Operations that change durable state and may throw\<close>

text \<open>
  An operation maps the state to a result and the new state. A throw keeps the changes made before it:
  the files already written stay written when an asynchronous operation rejects half-way.
\<close>

type_synonym ('s, 'a) eff = "'s \<Rightarrow> 'a res \<times> 's"

definition ret :: "'a \<Rightarrow> ('s, 'a) eff" where
  "ret x = (\<lambda>s. (Inr x, s))"

definition throw :: "error \<Rightarrow> ('s, 'a) eff" where
  "throw e = (\<lambda>s. (Inl e, s))"

definition bnd :: "('s, 'a) eff \<Rightarrow> ('a \<Rightarrow> ('s, 'b) eff) \<Rightarrow> ('s, 'b) eff" where
  "bnd m f = (\<lambda>s. case m s of (Inl e, t) \<Rightarrow> (Inl e, t) | (Inr x, t) \<Rightarrow> f x t)"

definition lift_res :: "'a res \<Rightarrow> ('s, 'a) eff" where
  "lift_res r = (\<lambda>s. (r, s))"

definition require_that :: "bool \<Rightarrow> error \<Rightarrow> ('s, unit) eff" where
  "require_that ok e = lift_res (guard_res ok e)"

definition gets :: "('s \<Rightarrow> 'a) \<Rightarrow> ('s, 'a) eff" where
  "gets f = (\<lambda>s. (Inr (f s), s))"

definition modify :: "('s \<Rightarrow> 's) \<Rightarrow> ('s, unit) eff" where
  "modify f = (\<lambda>s. (Inr (), f s))"

text \<open>\<open>try ... catch\<close>: the handler starts from what the failed operation left.\<close>

definition catch_with :: "('s, 'a) eff \<Rightarrow> (error \<Rightarrow> ('s, 'a) eff) \<Rightarrow> ('s, 'a) eff" where
  "catch_with m h = (\<lambda>s. case m s of (Inl e, t) \<Rightarrow> h e t | (Inr x, t) \<Rightarrow> (Inr x, t))"

text \<open>A \<open>for ... of\<close> loop with an accumulator; a throw leaves the loop.\<close>

fun for_each :: "'x list \<Rightarrow> ('x \<Rightarrow> 'a \<Rightarrow> ('s, 'a) eff) \<Rightarrow> 'a \<Rightarrow> ('s, 'a) eff" where
  "for_each [] body acc = ret acc"
| "for_each (x # xs) body acc = bnd (body x acc) (for_each xs body)"

lemmas eff_defs = ret_def throw_def bnd_def lift_res_def require_that_def gets_def modify_def

lemma bnd_ret [simp]: "bnd (ret x) f = f x"
  by (simp add: bnd_def ret_def)

lemma bnd_throw [simp]: "bnd (throw e) f = throw e"
  by (simp add: bnd_def throw_def)

lemma bnd_assoc: "bnd (bnd m f) g = bnd m (\<lambda>x. bnd (f x) g)"
  by (rule ext) (simp add: bnd_def split: prod.splits sum.splits)

lemma require_that_simps [simp]:
  "require_that True e = ret ()"
  "require_that False e = throw e"
  by (simp_all add: eff_defs)

lemma lift_res_simps [simp]:
  "lift_res (Inr x) = ret x"
  "lift_res (Inl e) = throw e"
  by (simp_all add: eff_defs)

lemma bnd_run:
  "bnd m f s = (case m s of (Inl e, t) \<Rightarrow> (Inl e, t) | (Inr x, t) \<Rightarrow> f x t)"
  by (simp add: bnd_def)

lemma bnd_Inr_E:
  assumes "bnd m f s = (Inr y, t)"
  obtains x u where "m s = (Inr x, u)" "f x u = (Inr y, t)"
  using assms by (auto simp: bnd_def split: prod.splits sum.splits)

subsection \<open>Triples\<close>

text \<open>
  \<open>triple P m Q E\<close>: from a state with \<open>P\<close> the operation ends in \<open>Q\<close> when it returns and in \<open>E\<close>
  when it throws. Operations are total, so this is total correctness.
\<close>

definition triple :: "('s \<Rightarrow> bool) \<Rightarrow> ('s, 'a) eff \<Rightarrow> ('a \<Rightarrow> 's \<Rightarrow> bool) \<Rightarrow> ('s \<Rightarrow> bool) \<Rightarrow> bool" where
  "triple P m Q E \<longleftrightarrow> (\<forall>s. P s \<longrightarrow> (case m s of (Inl e, t) \<Rightarrow> E t | (Inr x, t) \<Rightarrow> Q x t))"

lemma tripleD_ok: "triple P m Q E \<Longrightarrow> P s \<Longrightarrow> m s = (Inr x, t) \<Longrightarrow> Q x t"
  by (auto simp: triple_def split: prod.splits)

lemma tripleD_err: "triple P m Q E \<Longrightarrow> P s \<Longrightarrow> m s = (Inl e, t) \<Longrightarrow> E t"
  by (auto simp: triple_def split: prod.splits)

lemma tripleD_state:
  assumes "triple P m (\<lambda>_. I) I" "P s"
  shows "I (snd (m s))"
proof (cases "m s")
  case (Pair r t)
  with assms show ?thesis
    by (cases r) (auto dest: tripleD_ok tripleD_err)
qed

lemma triple_bnd [triple_intros]:
  assumes "triple P m R E" "\<And>x. triple (R x) (f x) Q E"
  shows "triple P (bnd m f) Q E"
  using assms unfolding triple_def bnd_def by (fastforce split: prod.splits sum.splits)

lemma triple_conseq:
  assumes "triple P' m Q' E'" "\<And>s. P s \<Longrightarrow> P' s" "\<And>x s. Q' x s \<Longrightarrow> Q x s" "\<And>s. E' s \<Longrightarrow> E s"
  shows "triple P m Q E"
  using assms unfolding triple_def by (fastforce split: prod.splits sum.splits)

lemma triple_pre: "triple P' m Q E \<Longrightarrow> (\<And>s. P s \<Longrightarrow> P' s) \<Longrightarrow> triple P m Q E"
  by (rule triple_conseq)

lemma triple_ret [triple_intros]: "(\<And>s. P s \<Longrightarrow> Q x s) \<Longrightarrow> triple P (ret x) Q E"
  by (simp add: triple_def ret_def)

lemma triple_throw [triple_intros]: "(\<And>s. P s \<Longrightarrow> E s) \<Longrightarrow> triple P (throw e) Q E"
  by (simp add: triple_def throw_def)

lemma triple_lift_res [triple_intros]:
  "(\<And>s x. P s \<Longrightarrow> r = Inr x \<Longrightarrow> Q x s) \<Longrightarrow> (\<And>s. P s \<Longrightarrow> E s) \<Longrightarrow> triple P (lift_res r) Q E"
  by (auto simp: triple_def lift_res_def split: sum.splits)

lemma triple_require [triple_intros]:
  "(\<And>s. P s \<Longrightarrow> ok \<Longrightarrow> Q () s) \<Longrightarrow> (\<And>s. P s \<Longrightarrow> E s) \<Longrightarrow> triple P (require_that ok e) Q E"
  unfolding require_that_def by (rule triple_lift_res) auto

lemma triple_gets [triple_intros]: "(\<And>s. P s \<Longrightarrow> Q (f s) s) \<Longrightarrow> triple P (gets f) Q E"
  by (simp add: triple_def gets_def)

lemma triple_modify [triple_intros]: "(\<And>s. P s \<Longrightarrow> Q () (f s)) \<Longrightarrow> triple P (modify f) Q E"
  by (simp add: triple_def modify_def)

lemma triple_if [triple_intros]:
  "(b \<Longrightarrow> triple P m Q E) \<Longrightarrow> (\<not> b \<Longrightarrow> triple P n Q E) \<Longrightarrow> triple P (if b then m else n) Q E"
  by simp

lemma triple_option [triple_intros]:
  "(x = None \<Longrightarrow> triple P m Q E) \<Longrightarrow> (\<And>y. x = Some y \<Longrightarrow> triple P (f y) Q E) \<Longrightarrow>
   triple P (case x of None \<Rightarrow> m | Some y \<Rightarrow> f y) Q E"
  by (cases x) auto

lemma triple_catch [triple_intros]:
  assumes "triple P m Q E'" "\<And>e. triple E' (h e) Q E"
  shows "triple P (catch_with m h) Q E"
  using assms unfolding triple_def catch_with_def by (fastforce split: prod.splits sum.splits)

lemma triple_for_each:
  assumes "\<And>x acc. x \<in> set xs \<Longrightarrow> triple (I acc) (body x acc) I E"
  shows "triple (I acc) (for_each xs body acc) I E"
  using assms
proof (induction xs arbitrary: acc)
  case Nil
  then show ?case by (simp add: triple_ret)
next
  case (Cons x xs)
  show ?case unfolding for_each.simps
  proof (rule triple_bnd)
    show "triple (I acc) (body x acc) I E" using Cons.prems by simp
    show "triple (I a) (for_each xs body a) I E" for a
      using Cons.prems by (intro Cons.IH) simp
  qed
qed

lemma triple_for_each_done:
  assumes "\<And>x acc D. x \<in> set xs \<Longrightarrow> triple (I D acc) (body x acc) (I (insert (k x) D)) E"
  shows "triple (I D acc) (for_each xs body acc) (I (k ` set xs \<union> D)) E"
  using assms
proof (induction xs arbitrary: acc D)
  case (Cons x xs)
  have "triple (I (insert (k x) D) a) (for_each xs body a) (I (k ` set (x # xs) \<union> D)) E" for a
    using Cons.IH [of "insert (k x) D" a] Cons.prems by simp
  then show ?case unfolding for_each.simps using Cons.prems by (intro triple_bnd [where R = "I (insert (k x) D)"]) auto
qed (simp add: triple_ret)

lemma triple_fixed:
  "(\<And>w. P w \<Longrightarrow> triple (\<lambda>v. v = w) m Q E) \<Longrightarrow> triple P m Q E"
  by (simp add: triple_def)

lemma triple_bnd_value: "triple P m (\<lambda>x c. x = a \<and> R c) E \<Longrightarrow> triple R (f a) Q E \<Longrightarrow> triple P (bnd m f) Q E"
  unfolding triple_def bnd_def by (fastforce split: prod.splits sum.splits)

section \<open>The interface of a table of allowed transitions\<close>

text \<open>
  Every status of the program moves along a constant table. The code offers the table row
  (\<open>allowed...Transitions\<close>) and the test (\<open>isValid...Transition\<close>), which also accepts staying put.
  Runs are the reflexive transitive closure of the test.
\<close>

locale transition_table =
  fixes allowed :: "'s \<Rightarrow> 's list"
    and valid :: "'s \<Rightarrow> 's \<Rightarrow> bool"
  assumes valid_iff: "valid a b \<longleftrightarrow> a = b \<or> b \<in> set (allowed a)"
begin

lemma valid_refl [simp]: "valid a a"
  by (simp add: valid_iff)

lemma run_closed:
  assumes "valid\<^sup>*\<^sup>* a b" "a \<in> S" "\<And>x y. x \<in> S \<Longrightarrow> y \<in> set (allowed x) \<Longrightarrow> y \<in> S"
  shows "b \<in> S"
  using assms by (induction rule: rtranclp_induct) (auto simp: valid_iff)

lemma terminal_stays:
  assumes "allowed a = []" "valid\<^sup>*\<^sup>* a b"
  shows "b = a"
  using run_closed [OF assms(2), of "{a}"] assms(1) by simp

text \<open>A run that leaves a region passes one of its gates.\<close>

lemma run_through_gate:
  assumes "(\<lambda>x y. valid x y \<and> y \<notin> G)\<^sup>*\<^sup>* a b" "a \<in> S"
    and "\<And>x y. x \<in> S \<Longrightarrow> y \<in> set (allowed x) \<Longrightarrow> y \<in> S \<union> G"
  shows "b \<in> S"
  using assms by (induction rule: rtranclp_induct) (auto simp: valid_iff)

end

end
