(* ===== verification/ExecutionStates.thy ===== *)
theory ExecutionStates
  imports Prelude
begin

text \<open>
  The status machines of \<open>execution-runtime\<close>: the status types of \<open>contracts.ts\<close>, the transition tables
  and assertions of \<open>state-machine.ts\<close>. Each table interprets \<open>transition_table\<close>, which gives closed
  regions, absorbing statuses and the statuses a run has to pass.
\<close>

section \<open>Task statuses\<close>

datatype task_status =
    TDraft | TReady | TRunning | TWaitingHuman | TBlocked | TOutcomeUnknown
  | TCompleted | TCancelled | TFailed

fun task_status_text :: "task_status \<Rightarrow> string" where
  "task_status_text TDraft = ''draft''"
| "task_status_text TReady = ''ready''"
| "task_status_text TRunning = ''running''"
| "task_status_text TWaitingHuman = ''waiting_human''"
| "task_status_text TBlocked = ''blocked''"
| "task_status_text TOutcomeUnknown = ''outcome_unknown''"
| "task_status_text TCompleted = ''completed''"
| "task_status_text TCancelled = ''cancelled''"
| "task_status_text TFailed = ''failed''"

fun TASK_TRANSITIONS :: "task_status \<Rightarrow> task_status list" where
  "TASK_TRANSITIONS TDraft = [TReady, TCancelled]"
| "TASK_TRANSITIONS TReady = [TRunning, TBlocked, TWaitingHuman, TCancelled, TFailed]"
| "TASK_TRANSITIONS TRunning =
     [TWaitingHuman, TBlocked, TOutcomeUnknown, TCompleted, TCancelled, TFailed]"
| "TASK_TRANSITIONS TWaitingHuman = [TReady, TRunning, TBlocked, TCancelled, TFailed]"
| "TASK_TRANSITIONS TBlocked = [TReady, TRunning, TWaitingHuman, TCancelled, TFailed]"
| "TASK_TRANSITIONS TOutcomeUnknown = [TWaitingHuman, TCancelled, TFailed]"
| "TASK_TRANSITIONS TCompleted = []"
| "TASK_TRANSITIONS TCancelled = []"
| "TASK_TRANSITIONS TFailed = [TReady, TCancelled]"

section \<open>Step statuses\<close>

datatype step_status =
    SPending | SWaitingDependency | SReady | SDispatching | SRunning | SWaitingReport | SVerifying
  | SFixRequired | SWaitingHuman | SBlocked | SFailed | SCompleted | SCancelled | SOutcomeUnknown

fun step_status_text :: "step_status \<Rightarrow> string" where
  "step_status_text SPending = ''pending''"
| "step_status_text SWaitingDependency = ''waiting_dependency''"
| "step_status_text SReady = ''ready''"
| "step_status_text SDispatching = ''dispatching''"
| "step_status_text SRunning = ''running''"
| "step_status_text SWaitingReport = ''waiting_report''"
| "step_status_text SVerifying = ''verifying''"
| "step_status_text SFixRequired = ''fix_required''"
| "step_status_text SWaitingHuman = ''waiting_human''"
| "step_status_text SBlocked = ''blocked''"
| "step_status_text SFailed = ''failed''"
| "step_status_text SCompleted = ''completed''"
| "step_status_text SCancelled = ''cancelled''"
| "step_status_text SOutcomeUnknown = ''outcome_unknown''"

fun STEP_TRANSITIONS :: "step_status \<Rightarrow> step_status list" where
  "STEP_TRANSITIONS SPending = [SWaitingDependency, SReady, SCancelled]"
| "STEP_TRANSITIONS SWaitingDependency = [SReady, SBlocked, SCancelled]"
| "STEP_TRANSITIONS SReady = [SDispatching, SBlocked, SWaitingHuman, SCancelled]"
| "STEP_TRANSITIONS SDispatching =
     [SRunning, SVerifying, SWaitingHuman, SBlocked, SOutcomeUnknown, SFailed, SCancelled]"
| "STEP_TRANSITIONS SRunning =
     [SWaitingReport, SVerifying, SFixRequired, SWaitingHuman, SBlocked, SOutcomeUnknown, SFailed, SCancelled]"
| "STEP_TRANSITIONS SWaitingReport =
     [SRunning, SVerifying, SFixRequired, SWaitingHuman, SBlocked, SOutcomeUnknown, SFailed, SCancelled]"
| "STEP_TRANSITIONS SVerifying =
     [SCompleted, SFixRequired, SWaitingHuman, SBlocked, SOutcomeUnknown, SFailed, SCancelled]"
| "STEP_TRANSITIONS SFixRequired =
     [SDispatching, SRunning, SVerifying, SWaitingHuman, SBlocked, SFailed, SCancelled]"
| "STEP_TRANSITIONS SWaitingHuman =
     [SReady, SDispatching, SRunning, SVerifying, SFixRequired, SBlocked, SFailed, SCancelled]"
| "STEP_TRANSITIONS SBlocked =
     [SReady, SDispatching, SRunning, SFixRequired, SWaitingHuman, SFailed, SCancelled]"
| "STEP_TRANSITIONS SFailed = [SReady, SCancelled]"
| "STEP_TRANSITIONS SCompleted = []"
| "STEP_TRANSITIONS SCancelled = []"
| "STEP_TRANSITIONS SOutcomeUnknown = [SWaitingHuman, SFailed, SCancelled]"

section \<open>Session binding states\<close>

datatype binding_state = BCreated | BActive | BSuspended | BClosed | BLost

fun binding_state_text :: "binding_state \<Rightarrow> string" where
  "binding_state_text BCreated = ''created''"
| "binding_state_text BActive = ''active''"
| "binding_state_text BSuspended = ''suspended''"
| "binding_state_text BClosed = ''closed''"
| "binding_state_text BLost = ''lost''"

fun SESSION_BINDING_TRANSITIONS :: "binding_state \<Rightarrow> binding_state list" where
  "SESSION_BINDING_TRANSITIONS BCreated = [BActive, BSuspended, BClosed, BLost]"
| "SESSION_BINDING_TRANSITIONS BActive = [BSuspended, BClosed, BLost]"
| "SESSION_BINDING_TRANSITIONS BSuspended = [BActive, BClosed, BLost]"
| "SESSION_BINDING_TRANSITIONS BLost = [BActive, BClosed]"
| "SESSION_BINDING_TRANSITIONS BClosed = []"

section \<open>Tests and assertions\<close>

definition isValidTaskTransition :: "task_status \<Rightarrow> task_status \<Rightarrow> bool" where
  "isValidTaskTransition from to \<longleftrightarrow> from = to \<or> to \<in> set (TASK_TRANSITIONS from)"

definition isValidStepTransition :: "step_status \<Rightarrow> step_status \<Rightarrow> bool" where
  "isValidStepTransition from to \<longleftrightarrow> from = to \<or> to \<in> set (STEP_TRANSITIONS from)"

definition isValidSessionBindingTransition :: "binding_state \<Rightarrow> binding_state \<Rightarrow> bool" where
  "isValidSessionBindingTransition from to \<longleftrightarrow> from = to \<or> to \<in> set (SESSION_BINDING_TRANSITIONS from)"

definition assertTaskTransition :: "task_status \<Rightarrow> task_status \<Rightarrow> unit res" where
  "assertTaskTransition from to = guard_res (isValidTaskTransition from to)
     (ExecutionStateTransitionError
       (''invalid task transition '' @ task_status_text from @ '' -> '' @ task_status_text to))"

definition assertStepTransition :: "step_status \<Rightarrow> step_status \<Rightarrow> unit res" where
  "assertStepTransition from to = guard_res (isValidStepTransition from to)
     (ExecutionStateTransitionError
       (''invalid step transition '' @ step_status_text from @ '' -> '' @ step_status_text to))"

definition assertSessionBindingTransition :: "binding_state \<Rightarrow> binding_state \<Rightarrow> unit res" where
  "assertSessionBindingTransition from to = guard_res (isValidSessionBindingTransition from to)
     (ExecutionStateTransitionError
       (''invalid session binding transition '' @ binding_state_text from @ '' -> '' @ binding_state_text to))"

interpretation task_table: transition_table TASK_TRANSITIONS isValidTaskTransition
  by unfold_locales (rule isValidTaskTransition_def)

interpretation step_table: transition_table STEP_TRANSITIONS isValidStepTransition
  by unfold_locales (rule isValidStepTransition_def)

interpretation binding_table: transition_table SESSION_BINDING_TRANSITIONS isValidSessionBindingTransition
  by unfold_locales (rule isValidSessionBindingTransition_def)

lemma assert_transition_Inr [simp]:
  "assertTaskTransition a b = Inr u \<longleftrightarrow> isValidTaskTransition a b"
  "assertStepTransition c d = Inr u \<longleftrightarrow> isValidStepTransition c d"
  "assertSessionBindingTransition e f = Inr u \<longleftrightarrow> isValidSessionBindingTransition e f"
  by (simp_all add: assertTaskTransition_def assertStepTransition_def assertSessionBindingTransition_def)

lemma status_text_inj:
  "inj task_status_text" "inj step_status_text" "inj binding_state_text"
proof -
  show "inj task_status_text"
  proof (rule injI)
    show "task_status_text a = task_status_text b \<Longrightarrow> a = b" for a b by (cases a; cases b) simp_all
  qed
  show "inj step_status_text"
  proof (rule injI)
    show "step_status_text a = step_status_text b \<Longrightarrow> a = b" for a b by (cases a; cases b) simp_all
  qed
  show "inj binding_state_text"
  proof (rule injI)
    show "binding_state_text a = binding_state_text b \<Longrightarrow> a = b" for a b by (cases a; cases b) simp_all
  qed
qed

section \<open>What the tables promise\<close>

text \<open>The statuses with an empty row are the absorbing ones.\<close>

lemma step_terminal_iff: "STEP_TRANSITIONS s = [] \<longleftrightarrow> s \<in> {SCompleted, SCancelled}"
  by (cases s) simp_all

lemma task_terminal_iff: "TASK_TRANSITIONS s = [] \<longleftrightarrow> s \<in> {TCompleted, TCancelled}"
  by (cases s) simp_all

text \<open>
  An unknown outcome is never resumed by itself: before a step that is in \<open>outcome_unknown\<close> can be
  dispatched, run or completed again, it has been put before a human or declared failed.
\<close>

lemma step_outcome_unknown_gate:
  assumes "(\<lambda>x y. isValidStepTransition x y \<and> y \<notin> {SWaitingHuman, SFailed})\<^sup>*\<^sup>* SOutcomeUnknown s"
  shows "s = SOutcomeUnknown \<or> s = SCancelled"
proof -
  have "s \<in> {SOutcomeUnknown, SCancelled}"
    by (rule step_table.run_through_gate [OF assms]) auto
  then show ?thesis by simp
qed

lemma task_outcome_unknown_gate:
  assumes "(\<lambda>x y. isValidTaskTransition x y \<and> y \<notin> {TWaitingHuman, TFailed})\<^sup>*\<^sup>* TOutcomeUnknown s"
  shows "s = TOutcomeUnknown \<or> s = TCancelled"
proof -
  have "s \<in> {TOutcomeUnknown, TCancelled}"
    by (rule task_table.run_through_gate [OF assms]) auto
  then show ?thesis by simp
qed

text \<open>A step is completed only out of \<open>verifying\<close>.\<close>

lemma step_completed_from_verifying:
  "isValidStepTransition s SCompleted \<longleftrightarrow> s = SVerifying \<or> s = SCompleted"
  by (cases s) (simp_all add: isValidStepTransition_def)

end
