(* ===== verification/DurableJson.thy ===== *)
theory DurableJson
  imports Prelude
begin

text \<open>
  JSON values, the canonical text \<open>stableJson\<close> and the checksummed envelope of
  \<open>group-runtime/store/atomic-file.ts\<close>, which every durable store of the desktop runtimes uses.

  A JSON object is a list of keys and values in insertion order. The text of a number and SHA-256 come
  from the platform; they are arguments of the definitions that use them.
\<close>

datatype json =
    JNull
  | JBool bool
  | JNum rat
  | JStr string
  | JArr "json list"
  | JObj "(string \<times> json) list"

section \<open>Objects\<close>

type_synonym json_object = "(string \<times> json) list"

text \<open>A field that is left out when its value is absent.\<close>

definition opt_field :: "string \<Rightarrow> ('a \<Rightarrow> json) \<Rightarrow> 'a option \<Rightarrow> json_object" where
  "opt_field k f v = (case v of None \<Rightarrow> [] | Some x \<Rightarrow> [(k, f x)])"

fun obj_set :: "string \<Rightarrow> json \<Rightarrow> (string \<times> json) list \<Rightarrow> (string \<times> json) list" where
  "obj_set k v [] = [(k, v)]"
| "obj_set k v ((k', v') # kvs) = (if k = k' then (k, v) # kvs else (k', v') # obj_set k v kvs)"

text \<open>\<open>{ ...base, ...extra }\<close>: a key of both keeps its place and takes the later value.\<close>

definition obj_spread :: "(string \<times> json) list \<Rightarrow> (string \<times> json) list \<Rightarrow> (string \<times> json) list" where
  "obj_spread base extra = fold (\<lambda>(k, v). obj_set k v) extra base"

fun json_get :: "string \<Rightarrow> json \<Rightarrow> json option" where
  "json_get k (JObj kvs) = map_of kvs k"
| "json_get k _ = None"

lemma map_of_obj_set [simp]: "map_of (obj_set k v kvs) = (map_of kvs)(k \<mapsto> v)"
  by (induction kvs) auto

lemma map_of_obj_spread: "map_of (obj_spread base extra) k =
  (case map_of (rev extra) k of None \<Rightarrow> map_of base k | Some v \<Rightarrow> Some v)"
  unfolding obj_spread_def
  by (induction extra arbitrary: base) (auto simp: map_add_def split: option.splits)

section \<open>Canonical values\<close>

text \<open>
  \<open>stableJson\<close> sorts the keys of every object and prints the result as JSON. \<open>canon\<close> is the value it
  prints, and two stable texts are compared by comparing the printed values (JSON text determines its
  value). Keys are ordered by their characters.
\<close>

primrec canon :: "json \<Rightarrow> json" where
  "canon JNull = JNull"
| "canon (JBool b) = JBool b"
| "canon (JNum q) = JNum q"
| "canon (JStr s) = JStr s"
| "canon (JArr xs) = JArr (map canon xs)"
| "canon (JObj kvs) = JObj (sort_key fst (map (map_prod id canon) kvs))"

definition stable_same :: "json \<Rightarrow> json \<Rightarrow> bool" where
  "stable_same a b \<longleftrightarrow> canon a = canon b"

lemma stable_same_refl [simp]: "stable_same a a"
  by (simp add: stable_same_def)

text \<open>Equal values need not be sorted to be compared; this speeds up evaluation.\<close>

lemma stable_same_code [code]: "stable_same a b = (if a = b then True else canon a = canon b)"
  by (simp add: stable_same_def)

text \<open>Objects with the same stable text have the same fields.\<close>

lemma canon_fields:
  assumes "canon (JObj xs) = canon (JObj ys)" "distinct (map fst xs)" "distinct (map fst ys)"
  shows "map_option canon (map_of xs k) = map_option canon (map_of ys k)"
proof -
  let ?c = "map (map_prod id canon)"
  have c: "map_prod id canon = (\<lambda>(k :: string, v). (k, canon v))" by auto
  have keys: "map fst (?c zs) = map fst zs" for zs :: "(string \<times> json) list"
    by (simp add: comp_def)
  from assms(1) have "set (sort_key fst (?c xs)) = set (sort_key fst (?c ys))" by simp
  then have "set (?c xs) = set (?c ys)" by simp
  moreover have "distinct (map fst (?c xs))" "distinct (map fst (?c ys))"
    using assms(2,3) by (simp_all only: keys)
  ultimately have "map_of (?c xs) = map_of (?c ys)" by (simp only: map_of_inject_set)
  then have "map_of (?c xs) k = map_of (?c ys) k" by simp
  then show ?thesis by (simp only: c map_of_map comp_apply)
qed

section \<open>The checksummed envelope\<close>

definition ZERO3_DURABLE_RECORD :: string where
  "ZERO3_DURABLE_RECORD = ''zero3.pilot.durable-record.v1''"

text \<open>
  What reading a file can give: text the JSON parser rejects (with its message), or a value of which
  the reader looks at \<open>schema\<close>, \<open>checksum\<close> (present when a string) and \<open>payload\<close> (present when a key).
\<close>

datatype 'a durable_text =
    BadJson string
  | DurableText "string option" "string option" "'a option"

text \<open>The envelope of a payload without undefined keys; what is written of a payload that has some is \<open>written_text\<close> below.\<close>

definition durable_envelope :: "('a \<Rightarrow> string) \<Rightarrow> 'a \<Rightarrow> 'a durable_text" where
  "durable_envelope checksum payload =
     DurableText (Some ZERO3_DURABLE_RECORD) (Some (checksum payload)) (Some payload)"

fun parse_durable_envelope :: "('a \<Rightarrow> string) \<Rightarrow> string \<Rightarrow> 'a durable_text \<Rightarrow> 'a res" where
  "parse_durable_envelope checksum source (BadJson msg) =
     Inl (DurableStoreCorruptionError (source @ '' is not valid JSON: '' @ msg))"
| "parse_durable_envelope checksum source (DurableText schema cks payload) =
     (case (cks, payload) of
        (Some c, Some p) \<Rightarrow>
          if schema \<noteq> Some ZERO3_DURABLE_RECORD
          then Inl (DurableStoreCorruptionError (source @ '' does not contain a supported durable envelope''))
          else if checksum p \<noteq> c
          then Inl (DurableStoreCorruptionError (source @ '' checksum mismatch''))
          else Inr p
      | _ \<Rightarrow> Inl (DurableStoreCorruptionError (source @ '' does not contain a supported durable envelope'')))"

text \<open>
  What a written file holds. \<open>stableJson\<close>, of which the checksum is taken, prints every own key of an object, also one
  whose value is \<open>undefined\<close> (as the text \<open>undefined\<close>); \<open>JSON.stringify\<close>, which writes the payload, leaves such a key
  out. So the checksum is that of the payload and what is read back is \<open>json p\<close>, the payload without these keys. A record that
  can have such keys lists them in a field of its own.
\<close>

definition written_text :: "('a \<Rightarrow> string) \<Rightarrow> ('a \<Rightarrow> 'a) \<Rightarrow> 'a \<Rightarrow> 'a durable_text" where
  "written_text checksum json p = DurableText (Some ZERO3_DURABLE_RECORD) (Some (checksum p)) (Some (json p))"

definition undefined_keys :: "(string \<times> string option) list \<Rightarrow> string list" where
  "undefined_keys kvs = map fst (filter (\<lambda>(k, v). v = None) kvs)"

lemma undefined_keys_simps [simp]:
  "undefined_keys [] = []" "undefined_keys ((k, None) # kvs) = k # undefined_keys kvs" "undefined_keys ((k, Some v) # kvs) = undefined_keys kvs"
  by (simp_all add: undefined_keys_def)

lemma undefined_keys_Nil_iff: "undefined_keys kvs = [] \<longleftrightarrow> (\<forall>kv \<in> set kvs. snd kv \<noteq> None)"
  by (auto simp: undefined_keys_def filter_empty_conv)

lemma written_same: "json p = p \<Longrightarrow> written_text checksum json p = durable_envelope checksum p"
  by (simp add: written_text_def durable_envelope_def)

text \<open>What is written is read back, without its undefined keys, exactly when they do not show in the checksum.\<close>

lemma parse_written:
  "parse_durable_envelope checksum source (written_text checksum json p) =
     (if checksum (json p) = checksum p then Inr (json p) else Inl (DurableStoreCorruptionError (source @ '' checksum mismatch'')))"
  by (simp add: written_text_def)

lemma written_reads: "written_text checksum json p = durable_envelope checksum q \<longleftrightarrow> q = json p \<and> checksum (json p) = checksum p"
  by (auto simp: written_text_def durable_envelope_def)

lemma parse_envelope_roundtrip [simp]:
  "parse_durable_envelope checksum source (durable_envelope checksum p) = Inr p"
  by (simp add: durable_envelope_def)

text \<open>Only a file whose checksum is that of its payload is read.\<close>

lemma parse_envelope_Inr_iff:
  "parse_durable_envelope checksum source t = Inr p \<longleftrightarrow> t = durable_envelope checksum p"
  by (cases t) (auto simp: durable_envelope_def split: option.splits)

section \<open>Interrupted writes\<close>

text \<open>
  A file is written through a temporary file beside it. \<open>recoverInterruptedWrite\<close> looks at the file and at the
  temporary files a crash left: an intact file makes them superfluous, a missing one is restored from the
  only one there is.
\<close>

datatype recovery = RecoveryNone | RecoveryCleaned | RecoveryRecovered

definition recover_write :: "('a \<Rightarrow> string) \<Rightarrow> string \<Rightarrow> 'a durable_text option \<Rightarrow> 'a durable_text list \<Rightarrow>
    recovery res \<times> 'a durable_text option \<times> 'a durable_text list" where
  "recover_write checksum target file temps =
     (let parse = parse_durable_envelope checksum target in
      if temps = [] then (Inr RecoveryNone, file, temps)
      else (case map_option parse file of
          Some (Inl e) \<Rightarrow> (Inl e, file, temps)
        | Some (Inr _) \<Rightarrow> (Inr RecoveryCleaned, file, [])
        | None \<Rightarrow> (case temps of
              [temp] \<Rightarrow> (case parse temp of Inl e \<Rightarrow> (Inl e, file, temps)
                | Inr _ \<Rightarrow> (Inr RecoveryRecovered, Some temp, []))
            | _ \<Rightarrow> (Inl (DurableStoreCorruptionError (''ambiguous interrupted write for '' @ target
                 @ '': '' @ nat_text (length temps) @ '' temp files'')), file, temps))))"

lemma recover_write_quiet [simp]: "recover_write checksum target file [] = (Inr RecoveryNone, file, [])"
  by (simp add: recover_write_def)

text \<open>Recovery never loses or invents a record, and on damage it leaves every file as it is.\<close>

lemma recover_write_cases:
  "case recover_write checksum target file temps of
     (Inl e, f, ts) \<Rightarrow> f = file \<and> ts = temps
   | (Inr RecoveryNone, f, ts) \<Rightarrow> f = file \<and> ts = temps \<and> temps = []
   | (Inr RecoveryCleaned, f, ts) \<Rightarrow> f = file \<and> ts = [] \<and> (\<exists>s. file = Some (durable_envelope checksum s))
   | (Inr RecoveryRecovered, f, ts) \<Rightarrow> (\<exists>s. file = None \<and> temps = [durable_envelope checksum s] \<and>
       f = Some (durable_envelope checksum s) \<and> ts = [])"
  by (auto simp: recover_write_def Let_def parse_envelope_Inr_iff split: option.splits sum.splits list.splits)

end
