(* ===== verification/ExecutionContracts.thy ===== *)
theory ExecutionContracts
  imports ExecutionStates DurableJson
begin

text \<open>
  The data of \<open>execution-runtime/contracts.ts\<close>. An optional or nullable field is an \<open>option\<close>; a
  \<open>Record<string, unknown>\<close> is the key list of a JSON object.
\<close>

section \<open>Contract identifiers\<close>

definition ZERO3_EXECUTION_TASK :: string where
  "ZERO3_EXECUTION_TASK = ''zero3.pilot.execution-task.v1''"

definition ZERO3_EXECUTION_STEP :: string where
  "ZERO3_EXECUTION_STEP = ''zero3.pilot.execution-step.v1''"

definition ZERO3_EXECUTION_ASSIGNMENT :: string where
  "ZERO3_EXECUTION_ASSIGNMENT = ''zero3.pilot.execution-assignment.v1''"

definition ZERO3_EXECUTION_SESSION_BINDING :: string where
  "ZERO3_EXECUTION_SESSION_BINDING = ''zero3.pilot.execution-session-binding.v1''"

definition ZERO3_EXECUTION_EVENT :: string where
  "ZERO3_EXECUTION_EVENT = ''zero3.pilot.execution-event.v1''"

definition ZERO3_EXECUTION_TASK_ARCHIVE :: string where
  "ZERO3_EXECUTION_TASK_ARCHIVE = ''zero3.pilot.execution-task-archive.v1''"

section \<open>Definitions\<close>

datatype executor_target =
    GPT_WEB | GEMINI_WEB | CODEX | CLAUDE | ANTIGRAVITY | ZERO3 | REMOTE_COMPUTE | HUMAN | AUTO

fun executor_text :: "executor_target \<Rightarrow> string" where
  "executor_text GPT_WEB = ''GPT_WEB''"
| "executor_text GEMINI_WEB = ''GEMINI_WEB''"
| "executor_text CODEX = ''CODEX''"
| "executor_text CLAUDE = ''CLAUDE''"
| "executor_text ANTIGRAVITY = ''ANTIGRAVITY''"
| "executor_text ZERO3 = ''ZERO3''"
| "executor_text REMOTE_COMPUTE = ''REMOTE_COMPUTE''"
| "executor_text HUMAN = ''HUMAN''"
| "executor_text AUTO = ''AUTO''"


record artifact_input =
  ai_artifactId :: "string option"
  ai_logicalName :: string
  ai_kind :: "string option"
  ai_required :: bool

record expected_output =
  eo_logicalName :: string
  eo_kind :: "string option"
  eo_mimeType :: "string option"
  eo_required :: bool
  eo_minCount :: "int option"
  eo_maxCount :: "int option"
  eo_metadata :: "json_object option"

record task_definition =
  td_contract :: string
  td_taskId :: string
  td_projectId :: "string option"
  td_workspace :: "string option"
  td_title :: string
  td_goal :: string
  td_workflowId :: "string option"
  td_maxParallelSteps :: int
  td_createdBySessionId :: "string option"
  td_metadata :: json_object
  td_createdAt :: string

record step_definition =
  sd_contract :: string
  sd_taskId :: string
  sd_stepId :: string
  sd_title :: string
  sd_objective :: string
  sd_executor :: executor_target
  sd_dependsOn :: "string list"
  sd_requiredSkills :: "string list option"
  sd_optionalSkills :: "string list option"
  sd_inputArtifacts :: "artifact_input list"
  sd_expectedOutputs :: "expected_output list"
  sd_completionGate :: "string list"
  sd_maxAttempts :: int
  sd_metadata :: json_object
  sd_createdAt :: string

record workflow_definition =
  wd_revision :: int
  wd_task :: task_definition
  wd_steps :: "step_definition list"

section \<open>Runtime state\<close>

datatype adapter_mode = AdapterNative | AdapterInstruction | AdapterWebMcp | AdapterUnsupported

fun adapter_mode_text :: "adapter_mode \<Rightarrow> string" where
  "adapter_mode_text AdapterNative = ''native''"
| "adapter_mode_text AdapterInstruction = ''instruction-adapter''"
| "adapter_mode_text AdapterWebMcp = ''web-mcp''"
| "adapter_mode_text AdapterUnsupported = ''unsupported''"

datatype preflight_state = PreflightNotRequired | PreflightReady | PreflightBlocked

fun preflight_state_text :: "preflight_state \<Rightarrow> string" where
  "preflight_state_text PreflightNotRequired = ''not_required''"
| "preflight_state_text PreflightReady = ''ready''"
| "preflight_state_text PreflightBlocked = ''blocked''"

record skill_preflight =
  sp_state :: preflight_state
  sp_executor :: "executor_target option"
  sp_adapterMode :: adapter_mode
  sp_requiredSkills :: "string list"
  sp_optionalSkills :: "string list"
  sp_availableRequiredSkills :: "string list"
  sp_availableOptionalSkills :: "string list"
  sp_missingRequiredSkills :: "string list"
  sp_missingOptionalSkills :: "string list"
  sp_checkedAt :: string

record task_runtime =
  tr_taskId :: string
  tr_status :: task_status
  tr_progress :: rat
  tr_activeStepIds :: "string list"
  tr_blockers :: "string list"
  tr_lastEventSequence :: int
  tr_updatedAt :: string

record step_runtime =
  sr_taskId :: string
  sr_stepId :: string
  sr_status :: step_status
  sr_skillPreflight :: "skill_preflight option"
  sr_attempt :: int
  sr_assignmentId :: "string option"
  sr_progress :: rat
  sr_currentActivity :: "string option"
  sr_blocker :: "string option"
  sr_lastEventSequence :: int
  sr_updatedAt :: string

record assignment =
  as_contract :: string
  as_assignmentId :: string
  as_taskId :: string
  as_stepId :: string
  as_attempt :: int
  as_executor :: executor_target
  as_executorId :: "string option"
  as_createdAt :: string

record session_binding =
  sb_contract :: string
  sb_bindingId :: string
  sb_taskId :: string
  sb_stepId :: string
  sb_assignmentId :: string
  sb_executor :: executor_target
  sb_logicalSessionId :: string
  sb_runtimeConversationId :: "string option"
  sb_conversationUrl :: "string option"
  sb_state :: binding_state
  sb_metadata :: json_object
  sb_createdAt :: string
  sb_updatedAt :: string

record runtime_state =
  rt_task :: task_runtime
  rt_steps :: "step_runtime list"
  rt_assignments :: "assignment list"
  rt_sessionBindings :: "session_binding list"

section \<open>Events, archive records and snapshots\<close>

datatype event_type =
    EvTaskCreated | EvTaskStateChanged | EvStepAdded | EvStepStateChanged | EvAssignmentCreated
  | EvSkillPreflight | EvSessionBound | EvSessionStateChanged | EvProgressUpdated | EvArtifactProduced
  | EvCompletionRequested | EvGatePassed | EvGateFailed | EvBlocked | EvWaitingHuman
  | EvOutcomeUnknown | EvTaskCompleted | EvTaskArchived | EvTaskUnarchived

record execution_event =
  ev_contract :: string
  ev_eventId :: string
  ev_sequence :: int
  ev_taskId :: string
  ev_stepId :: "string option"
  ev_assignmentId :: "string option"
  ev_type :: event_type
  ev_payload :: "json_object option"
  ev_at :: string

record archive_state =
  ar_contract :: string
  ar_archived :: bool
  ar_archivedAt :: "string option"
  ar_updatedAt :: string

record durable_snapshot =
  ds_definition :: workflow_definition
  ds_runtime :: runtime_state

record task_snapshot =
  ts_definition :: workflow_definition
  ts_runtime :: runtime_state
  ts_events :: "execution_event list"
  ts_archived :: bool

section \<open>JSON of the values that enter event payloads\<close>

definition str_opt_json :: "string option \<Rightarrow> json" where
  "str_opt_json v = (case v of None \<Rightarrow> JNull | Some s \<Rightarrow> JStr s)"

definition strs_json :: "string list \<Rightarrow> json" where
  "strs_json xs = JArr (map JStr xs)"

definition artifact_input_json :: "artifact_input \<Rightarrow> json" where
  "artifact_input_json a = JObj (opt_field ''artifactId'' JStr (ai_artifactId a)
     @ [(''logicalName'', JStr (ai_logicalName a))]
     @ opt_field ''kind'' JStr (ai_kind a) @ [(''required'', JBool (ai_required a))])"

definition expected_output_json :: "expected_output \<Rightarrow> json" where
  "expected_output_json e = JObj ([(''logicalName'', JStr (eo_logicalName e))]
     @ opt_field ''kind'' JStr (eo_kind e) @ opt_field ''mimeType'' JStr (eo_mimeType e)
     @ [(''required'', JBool (eo_required e))]
     @ opt_field ''minCount'' (JNum \<circ> of_int) (eo_minCount e)
     @ opt_field ''maxCount'' (JNum \<circ> of_int) (eo_maxCount e)
     @ opt_field ''metadata'' JObj (eo_metadata e))"

definition step_definition_json :: "step_definition \<Rightarrow> json" where
  "step_definition_json s = JObj ([(''contract'', JStr (sd_contract s)), (''taskId'', JStr (sd_taskId s)),
      (''stepId'', JStr (sd_stepId s)), (''title'', JStr (sd_title s)),
      (''objective'', JStr (sd_objective s)), (''executor'', JStr (executor_text (sd_executor s))),
      (''dependsOn'', strs_json (sd_dependsOn s))]
     @ opt_field ''requiredSkills'' strs_json (sd_requiredSkills s)
     @ opt_field ''optionalSkills'' strs_json (sd_optionalSkills s)
     @ [(''inputArtifacts'', JArr (map artifact_input_json (sd_inputArtifacts s))),
      (''expectedOutputs'', JArr (map expected_output_json (sd_expectedOutputs s))),
      (''completionGate'', strs_json (sd_completionGate s)),
      (''maxAttempts'', JNum (of_int (sd_maxAttempts s))), (''metadata'', JObj (sd_metadata s)),
      (''createdAt'', JStr (sd_createdAt s))])"

end
