(* ===== verification/ExecutionScheduler.thy ===== *)
theory ExecutionScheduler
  imports ExecutionContracts
begin

text \<open>
  \<open>execution-runtime/scheduler.ts\<close>: the dependency graph check \<open>validateExecutionDag\<close>, the readiness
  test, the dispatch plan and the task progress.
\<close>

section \<open>The dependency graph\<close>

definition step_by_id :: "step_definition list \<Rightarrow> string \<Rightarrow> step_definition option" where
  "step_by_id steps k = find_key sd_stepId k steps"

definition step_ids :: "step_definition list \<Rightarrow> string list" where
  "step_ids steps = map sd_stepId steps"

text \<open>First loop: a step id that is already in the map is a duplicate; the first step keeps the id.\<close>

fun duplicate_errors :: "string list \<Rightarrow> step_definition list \<Rightarrow> string list" where
  "duplicate_errors seen [] = []"
| "duplicate_errors seen (s # ss) =
     (if sd_stepId s \<in> set seen then (''duplicate step id '' @ sd_stepId s) # duplicate_errors seen ss
      else duplicate_errors (sd_stepId s # seen) ss)"

definition dependency_errors :: "step_definition list \<Rightarrow> step_definition \<Rightarrow> string list" where
  "dependency_errors steps s = concat (map (\<lambda>d.
      if d = sd_stepId s then [sd_stepId s @ '' cannot depend on itself'']
      else if step_by_id steps d = None then [sd_stepId s @ '' depends on unknown step '' @ d]
      else []) (sd_dependsOn s))"

text \<open>
  The depth-first search threads the visited set and the errors. The set \<open>visiting\<close> holds exactly the
  ids of the current path (each id is added before its dependencies are visited and removed after), so
  it is read off the path.
\<close>

definition cycle_error :: "string \<Rightarrow> string list \<Rightarrow> string" where
  "cycle_error s path = ''cycle detected: '' @ js_join '' -> '' (dropWhile (\<lambda>p. p \<noteq> s) path @ [s])"

function (sequential)
  visit :: "step_definition list \<Rightarrow> string \<Rightarrow> string list \<Rightarrow> string list \<times> string list \<Rightarrow> string list \<times> string list"
  and visit_all :: "step_definition list \<Rightarrow> string list \<Rightarrow> string list \<Rightarrow> string list \<times> string list \<Rightarrow> string list \<times> string list"
where
  "visit steps s path (visited, errs) =
     (if s \<in> set visited then (visited, errs)
      else if s \<in> set path then (visited, errs @ [cycle_error s path])
      else (let (visited', errs') =
              (case step_by_id steps s of
                 None \<Rightarrow> (visited, errs)
               | Some st \<Rightarrow> visit_all steps (sd_dependsOn st) (path @ [s]) (visited, errs))
            in (s # visited', errs')))"
| "visit_all steps [] path st = st"
| "visit_all steps (d # ds) path st =
     visit_all steps ds path (if step_by_id steps d = None then st else visit steps d path st)"
  by pat_completeness auto
termination
proof (relation "measures [
    (\<lambda>x. case x of Inl (steps, s, path, _) \<Rightarrow> card (set (step_ids steps) - set path)
                 | Inr (steps, ds, path, _) \<Rightarrow> card (set (step_ids steps) - set path)),
    (\<lambda>x. case x of Inl _ \<Rightarrow> 0 | Inr (steps, ds, path, _) \<Rightarrow> Suc (length ds))]", goal_cases)
  case (2 steps s path visited errs st)
  have "s \<in> set (step_ids steps)"
    using 2(3) by (auto simp: step_by_id_def step_ids_def dest: find_key_Some)
  with 2(2) have "set (step_ids steps) - set (path @ [s]) \<subset> set (step_ids steps) - set path" by auto
  then have "card (set (step_ids steps) - set (path @ [s])) < card (set (step_ids steps) - set path)"
    by (intro psubset_card_mono) auto
  then show ?case by simp
qed auto

text \<open>The last loop visits every step from an empty path.\<close>

definition validateExecutionDag :: "step_definition list \<Rightarrow> string list" where
  "validateExecutionDag steps = sorted_unique
     (duplicate_errors [] steps
      @ concat (map (dependency_errors steps) steps)
      @ snd (fold (\<lambda>s st. visit steps (sd_stepId s) [] st) steps ([], [])))"


subsection \<open>What the check decides\<close>

text \<open>
  The specification: ids are unique, every dependency is a step, and the dependency relation has no
  cycle. Edges go from a step to what it depends on.
\<close>

definition dep_edges :: "step_definition list \<Rightarrow> (string \<times> string) set" where
  "dep_edges steps = {(sd_stepId s, d) | s d. s \<in> set steps \<and> d \<in> set (sd_dependsOn s)}"

definition well_formed_dag :: "step_definition list \<Rightarrow> bool" where
  "well_formed_dag steps \<longleftrightarrow> distinct (step_ids steps) \<and>
     snd ` dep_edges steps \<subseteq> set (step_ids steps) \<and> acyclic (dep_edges steps)"

text \<open>The edges the search follows: from a known id to the known dependencies of its step.\<close>

definition search_edges :: "step_definition list \<Rightarrow> (string \<times> string) set" where
  "search_edges steps = {(s, d). \<exists>st. step_by_id steps s = Some st \<and> d \<in> set (sd_dependsOn st) \<and>
     step_by_id steps d \<noteq> None}"

lemma step_by_id_None: "step_by_id steps k = None \<longleftrightarrow> k \<notin> set (step_ids steps)"
  by (simp add: step_by_id_def step_ids_def)

lemma step_by_id_Some: "(\<exists>y. step_by_id steps k = Some y) \<longleftrightarrow> k \<in> set (step_ids steps)"
  using step_by_id_None by (metis not_None_eq)

lemma dep_edges_known:
  "snd ` dep_edges steps \<subseteq> S \<longleftrightarrow> (\<forall>s \<in> set steps. set (sd_dependsOn s) \<subseteq> S)"
  unfolding dep_edges_def image_subset_iff by auto

lemma duplicate_errors_Nil:
  "duplicate_errors seen steps = [] \<longleftrightarrow> distinct (step_ids steps) \<and> set seen \<inter> set (step_ids steps) = {}"
  by (induction steps arbitrary: seen) (auto simp: step_ids_def)

lemma dependency_errors_Nil:
  "dependency_errors steps s = [] \<longleftrightarrow>
     set (sd_dependsOn s) \<subseteq> set (step_ids steps) - {sd_stepId s}"
proof -
  have "dependency_errors steps s = [] \<longleftrightarrow>
      (\<forall>d \<in> set (sd_dependsOn s). d \<noteq> sd_stepId s \<and> d \<in> set (step_ids steps))"
    unfolding dependency_errors_def concat_eq_Nil_conv set_map ball_simps
    by (intro ball_cong refl) (simp add: step_by_id_None)
  then show ?thesis by auto
qed

lemma visit_errors_extend:
  "\<exists>es. snd (visit steps s path st) = snd st @ es"
  "\<exists>es. snd (visit_all steps ds path st) = snd st @ es"
proof (induction steps s path st and steps ds path st rule: visit_visit_all.induct)
  case (1 steps s path visited errs)
  show ?case
  proof (cases "step_by_id steps s")
    case (Some st)
    with 1 show ?thesis by (auto split: prod.splits)
  qed (simp split: prod.splits)
next
  case (3 steps d ds path st)
  let ?st = "if step_by_id steps d = None then st else visit steps d path st"
  obtain e2 where "snd (visit_all steps ds path ?st) = snd ?st @ e2"
    using 3(2) by blast
  moreover obtain e1 where "snd ?st = snd st @ e1"
    using 3(1) by (cases "step_by_id steps d") auto
  ultimately show ?case by simp
qed simp

lemma visit_fold_errors_extend:
  "\<exists>es. snd (fold (\<lambda>s st. visit steps (sd_stepId s) [] st) ss st) = snd st @ es"
proof (induction ss arbitrary: st)
  case (Cons s ss)
  obtain e1 where "snd (visit steps (sd_stepId s) [] st) = snd st @ e1"
    using visit_errors_extend(1) by blast
  with Cons [of "visit steps (sd_stepId s) [] st"] show ?case by auto
qed simp

text \<open>
  The visited list is in reverse order of completion. As long as no error is reported, it is a
  topological order: the search edges of every id lead into the part below it.
\<close>

fun topological :: "step_definition list \<Rightarrow> string list \<Rightarrow> bool" where
  "topological steps [] = True"
| "topological steps (s # V) \<longleftrightarrow> search_edges steps `` {s} \<subseteq> set V \<and> topological steps V"

lemma topological_closed:
  "topological steps V \<Longrightarrow> (s, d) \<in> search_edges steps \<Longrightarrow> s \<in> set V \<Longrightarrow> d \<in> set V"
  by (induction V) auto

lemma topological_no_cycle:
  assumes "topological steps V" "s \<in> set V"
  shows "(s, s) \<notin> (search_edges steps)\<^sup>+"
  using assms
proof (induction V)
  case (Cons x V)
  have closed: "(a, b) \<in> (search_edges steps)\<^sup>* \<Longrightarrow> a \<in> set V \<Longrightarrow> b \<in> set V" for a b
    by (induction rule: rtrancl_induct) (use Cons.prems topological_closed in auto)
  show ?case
  proof (cases "s \<in> set V")
    case True
    then show ?thesis using Cons by simp
  next
    case False
    show ?thesis
    proof
      assume "(s, s) \<in> (search_edges steps)\<^sup>+"
      then obtain d where "(s, d) \<in> search_edges steps" "(d, s) \<in> (search_edges steps)\<^sup>*"
        by (meson tranclD)
      with Cons.prems False closed show False by auto
    qed
  qed
qed simp

lemma visit_topological:
  "snd (visit steps s path st) = snd st \<Longrightarrow> topological steps (fst st) \<Longrightarrow>
     topological steps (fst (visit steps s path st)) \<and> s \<in> set (fst (visit steps s path st)) \<and>
     set (fst st) \<subseteq> set (fst (visit steps s path st))"
  "snd (visit_all steps ds path st) = snd st \<Longrightarrow> topological steps (fst st) \<Longrightarrow>
     topological steps (fst (visit_all steps ds path st)) \<and>
     set ds \<inter> set (step_ids steps) \<subseteq> set (fst (visit_all steps ds path st)) \<and>
     set (fst st) \<subseteq> set (fst (visit_all steps ds path st))"
proof (induction steps s path st and steps ds path st rule: visit_visit_all.induct)
  case (1 steps s path visited errs)
  show ?case
  proof (cases "s \<in> set visited \<or> s \<in> set path")
    case True
    with 1 show ?thesis by (auto split: if_splits)
  next
    case False
    show ?thesis
    proof (cases "step_by_id steps s")
      case None
      with False 1 show ?thesis by (auto simp: search_edges_def)
    next
      case (Some st)
      let ?r = "visit_all steps (sd_dependsOn st) (path @ [s]) (visited, errs)"
      from 1 False Some have "topological steps (fst ?r) \<and>
          set (sd_dependsOn st) \<inter> set (step_ids steps) \<subseteq> set (fst ?r) \<and> set visited \<subseteq> set (fst ?r)"
        by (auto split: prod.splits)
      with False Some show ?thesis
        by (auto simp: search_edges_def step_by_id_Some split: prod.splits)
    qed
  qed
next
  case (3 steps d ds path st)
  let ?st = "if step_by_id steps d = None then st else visit steps d path st"
  obtain e1 where e1: "snd ?st = snd st @ e1"
    using visit_errors_extend(1) [of steps d path st] by (cases "step_by_id steps d") auto
  obtain e2 where e2: "snd (visit_all steps ds path ?st) = snd ?st @ e2"
    using visit_errors_extend(2) by blast
  have same: "snd ?st = snd st" "snd (visit_all steps ds path ?st) = snd ?st"
    using e1 e2 3(3) by auto
  show ?case
  proof (cases "step_by_id steps d")
    case None
    with 3(2) [OF same(2)] 3(4) show ?thesis using step_by_id_None [of steps d] by auto
  next
    case (Some x)
    with 3(1) same(1) 3(4) have "topological steps (fst ?st) \<and> d \<in> set (fst ?st) \<and> set (fst st) \<subseteq> set (fst ?st)"
      by simp
    with 3(2) [OF same(2)] Some show ?thesis by auto
  qed
qed simp

text \<open>Conversely, the path is a chain of search edges, so a reported cycle is a cycle.\<close>

definition chain :: "step_definition list \<Rightarrow> string list \<Rightarrow> bool" where
  "chain steps path \<longleftrightarrow> successively (\<lambda>a b. (a, b) \<in> search_edges steps) path"

lemma chain_cycle:
  assumes "chain steps (path @ [s])" "s \<in> set path"
  shows "(s, s) \<in> (search_edges steps)\<^sup>+"
proof -
  have reach: "successively (\<lambda>a b. (a, b) \<in> r) (a # xs @ [b]) \<Longrightarrow> (a, b) \<in> r\<^sup>+" for a b xs and r :: "('x \<times> 'x) set"
  proof (induction xs arbitrary: a)
    case (Cons c xs)
    then have "(a, c) \<in> r" "(c, b) \<in> r\<^sup>+" by simp_all
    then show ?case by (rule trancl_into_trancl2)
  qed simp
  from assms(2) obtain xs ys where "path = xs @ s # ys" by (meson split_list)
  with assms(1) have "successively (\<lambda>a b. (a, b) \<in> search_edges steps) (s # ys @ [s])"
    by (auto simp: chain_def successively_append_iff)
  then show ?thesis by (rule reach)
qed

lemma visit_acyclic_no_error:
  "acyclic (search_edges steps) \<Longrightarrow> chain steps (path @ [s]) \<Longrightarrow> snd (visit steps s path st) = snd st"
  "acyclic (search_edges steps) \<Longrightarrow> \<forall>d \<in> set ds. step_by_id steps d \<noteq> None \<longrightarrow> chain steps (path @ [d]) \<Longrightarrow>
     snd (visit_all steps ds path st) = snd st"
proof (induction steps s path st and steps ds path st rule: visit_visit_all.induct)
  case (1 steps s path visited errs)
  have "s \<notin> set path"
    using chain_cycle 1(2,3) by (auto simp: acyclic_def)
  moreover have "chain steps ((path @ [s]) @ [d])"
    if "step_by_id steps s = Some st" "d \<in> set (sd_dependsOn st)" "step_by_id steps d \<noteq> None" for st d
    using 1(3) that by (auto simp: chain_def successively_append_iff search_edges_def)
  ultimately show ?case
    using 1(1,2) by (cases "step_by_id steps s") (auto split: prod.splits)
next
  case (3 steps d ds path st)
  then show ?case by (cases "step_by_id steps d") simp_all
qed simp

lemma visit_fold_Nil_iff:
  "snd (fold (\<lambda>s st. visit steps (sd_stepId s) [] st) steps ([], [])) = [] \<longleftrightarrow>
     acyclic (search_edges steps)"
proof
  let ?run = "\<lambda>ss st. fold (\<lambda>s st. visit steps (sd_stepId s) [] st) ss st"
  have run: "snd (?run ss st) = snd st \<Longrightarrow> topological steps (fst st) \<Longrightarrow>
      topological steps (fst (?run ss st)) \<and> sd_stepId ` set ss \<subseteq> set (fst (?run ss st)) \<and>
      set (fst st) \<subseteq> set (fst (?run ss st))" for ss st
  proof (induction ss arbitrary: st)
    case (Cons s ss)
    let ?st = "visit steps (sd_stepId s) [] st"
    obtain e1 e2 where "snd ?st = snd st @ e1" "snd (?run ss ?st) = snd ?st @ e2"
      using visit_errors_extend(1) visit_fold_errors_extend by metis
    with Cons.prems(1) have same: "snd ?st = snd st" "snd (?run ss ?st) = snd ?st" by auto
    from visit_topological(1) [OF same(1) Cons.prems(2)] Cons.IH [OF same(2)] show ?case by auto
  qed simp
  assume "snd (?run steps ([], [])) = []"
  with run [of steps "([], [])"] have V: "topological steps (fst (?run steps ([], [])))"
      "set (step_ids steps) \<subseteq> set (fst (?run steps ([], [])))"
    by (auto simp: step_ids_def)
  show "acyclic (search_edges steps)"
    unfolding acyclic_def
  proof (intro allI notI)
    fix x assume x: "(x, x) \<in> (search_edges steps)\<^sup>+"
    then have "x \<in> set (step_ids steps)"
      by (auto dest!: tranclD simp: search_edges_def) (metis step_by_id_None option.distinct(1))
    with V topological_no_cycle x show False by blast
  qed
next
  assume ac: "acyclic (search_edges steps)"
  have "snd (fold (\<lambda>s st. visit steps (sd_stepId s) [] st) ss st) = snd st" for ss st
  proof (induction ss arbitrary: st)
    case (Cons s ss)
    have "snd (visit steps (sd_stepId s) [] st) = snd st"
      by (rule visit_acyclic_no_error(1) [OF ac]) (simp add: chain_def)
    with Cons show ?case by simp
  qed simp
  from this [of steps "([], [])"]
  show "snd (fold (\<lambda>s st. visit steps (sd_stepId s) [] st) steps ([], [])) = []" by simp
qed

lemma search_edges_eq:
  assumes "distinct (step_ids steps)" "snd ` dep_edges steps \<subseteq> set (step_ids steps)"
  shows "search_edges steps = dep_edges steps"
proof -
  have by_id: "step_by_id steps k = Some s \<longleftrightarrow> s \<in> set steps \<and> sd_stepId s = k" for k s
    using assms(1) by (simp add: step_by_id_def find_key_eq_iff step_ids_def)
  have "(s, d) \<in> search_edges steps \<longleftrightarrow> (s, d) \<in> dep_edges steps \<and> d \<in> set (step_ids steps)" for s d
    unfolding search_edges_def dep_edges_def by (auto simp: by_id step_ids_def)
  with assms(2) show ?thesis by force
qed

lemma validateExecutionDag_Nil:
  "validateExecutionDag steps = [] \<longleftrightarrow> well_formed_dag steps"
proof -
  have deps: "(\<forall>s \<in> set steps. dependency_errors steps s = []) \<longleftrightarrow>
      snd ` dep_edges steps \<subseteq> set (step_ids steps) \<and> (\<forall>x. (x, x) \<notin> dep_edges steps)"
    unfolding dep_edges_known dependency_errors_Nil by (auto simp: dep_edges_def)
  have "validateExecutionDag steps = [] \<longleftrightarrow> distinct (step_ids steps) \<and>
      snd ` dep_edges steps \<subseteq> set (step_ids steps) \<and> (\<forall>x. (x, x) \<notin> dep_edges steps) \<and>
      acyclic (search_edges steps)"
    using deps by (auto simp: validateExecutionDag_def duplicate_errors_Nil visit_fold_Nil_iff)
  also have "\<dots> \<longleftrightarrow> well_formed_dag steps"
    unfolding well_formed_dag_def acyclic_def
    using search_edges_eq by (metis r_into_trancl')
  finally show ?thesis .
qed


section \<open>Readiness and the dispatch plan\<close>

definition ACTIVE_STATUSES :: "step_status list" where
  "ACTIVE_STATUSES = [SDispatching, SRunning, SWaitingReport, SVerifying]"

definition READINESS_STATUSES :: "step_status list" where
  "READINESS_STATUSES = [SPending, SWaitingDependency, SReady]"

definition dependencyReady :: "step_definition \<Rightarrow> (string \<Rightarrow> step_runtime option) \<Rightarrow> bool" where
  "dependencyReady step runtimes \<longleftrightarrow>
     list_all (\<lambda>d. map_option sr_status (runtimes d) = Some SCompleted) (sd_dependsOn step)"

record schedule_plan =
  pl_valid :: bool
  pl_errors :: "string list"
  pl_activeCount :: int
  pl_capacity :: int
  pl_dispatchableStepIds :: "string list"
  pl_dependencyReadyStepIds :: "string list"
  pl_waitingStepIds :: "string list"
  pl_capabilityBlockedStepIds :: "string list"
  pl_recommendedExecutorByStep :: "(string \<times> string) list"

definition plan_errors :: "step_definition list \<Rightarrow> step_runtime list \<Rightarrow> int \<Rightarrow> string list" where
  "plan_errors steps runtimes maxParallel =
     validateExecutionDag steps
     @ concat (map (\<lambda>s. case map_get sr_stepId runtimes (sd_stepId s) of
          None \<Rightarrow> [''runtime missing for step '' @ sd_stepId s]
        | Some r \<Rightarrow> if sr_taskId r \<noteq> sd_taskId s then [''runtime task mismatch for step '' @ sd_stepId s] else []) steps)
     @ concat (map (\<lambda>r. if \<not> list_ex (\<lambda>s. sd_stepId s = sr_stepId r) steps then [''orphan runtime '' @ sr_stepId r] else [])
         runtimes)
     @ (if maxParallel < 1 then [''maxParallelSteps must be a positive integer''] else [])"

definition skill_gate_closed :: "step_definition \<Rightarrow> step_runtime \<Rightarrow> bool" where
  "skill_gate_closed step r \<longleftrightarrow>
     (case sd_requiredSkills step of None \<Rightarrow> [] | Some ks \<Rightarrow> ks) \<noteq> [] \<and>
     (case sr_skillPreflight r of None \<Rightarrow> True
      | Some p \<Rightarrow> sp_state p \<noteq> PreflightReady \<or> sp_missingRequiredSkills p \<noteq> [])"

text \<open>
  One pass of the loop over the steps, with the four lists it pushes to: dependency-ready, waiting,
  capability-blocked and recommended executors.
\<close>

fun plan_loop :: "(string \<Rightarrow> step_runtime option) \<Rightarrow> step_definition list \<Rightarrow>
    string list \<times> string list \<times> string list \<times> (string \<times> string) list" where
  "plan_loop byId [] = ([], [], [], [])"
| "plan_loop byId (s # ss) =
     (let (ready, waiting, blocked, recommended) = plan_loop byId ss in
      case byId (sd_stepId s) of
        None \<Rightarrow> (ready, waiting, blocked, recommended)
      | Some r \<Rightarrow>
          if sr_status r \<notin> set READINESS_STATUSES then (ready, waiting, blocked, recommended)
          else if dependencyReady s byId
          then (sd_stepId s # ready, waiting,
                (if skill_gate_closed s r then sd_stepId s # blocked else blocked),
                (case Option.bind (sr_skillPreflight r) sp_executor of
                   None \<Rightarrow> recommended | Some e \<Rightarrow> (sd_stepId s, executor_text e) # recommended))
          else (ready, sd_stepId s # waiting, blocked, recommended))"

definition planExecutionSchedule :: "step_definition list \<Rightarrow> step_runtime list \<Rightarrow> int \<Rightarrow> schedule_plan" where
  "planExecutionSchedule steps runtimes maxParallel =
     (let errors = plan_errors steps runtimes maxParallel; byId = map_get sr_stepId runtimes in
      if errors \<noteq> []
      then \<lparr>pl_valid = False, pl_errors = sorted_unique errors, pl_activeCount = 0, pl_capacity = 0,
            pl_dispatchableStepIds = [], pl_dependencyReadyStepIds = [], pl_waitingStepIds = [],
            pl_capabilityBlockedStepIds = [], pl_recommendedExecutorByStep = []\<rparr>
      else (let
          activeCount = int (length (filter (\<lambda>r. sr_status r \<in> set ACTIVE_STATUSES) runtimes));
          capacity = max 0 (maxParallel - activeCount);
          (ready, waiting, blocked, recommended) = plan_loop byId steps;
          dispatchable = take (nat capacity)
            (filter (\<lambda>k. map_option sr_status (byId k) = Some SReady \<and> k \<notin> set blocked) ready)
        in \<lparr>pl_valid = True, pl_errors = [], pl_activeCount = activeCount, pl_capacity = capacity,
            pl_dispatchableStepIds = dispatchable, pl_dependencyReadyStepIds = ready,
            pl_waitingStepIds = waiting, pl_capabilityBlockedStepIds = blocked,
            pl_recommendedExecutorByStep = recommended\<rparr>))"

section \<open>Task progress\<close>

definition clamp01 :: "rat \<Rightarrow> rat" where
  "clamp01 q = max 0 (min 1 q)"

definition js_round :: "rat \<Rightarrow> int" where
  "js_round q = \<lfloor>q + 1 / 2\<rfloor>"

definition computeTaskProgress :: "step_runtime list \<Rightarrow> rat" where
  "computeTaskProgress runtimes =
     (if runtimes = [] then 0
      else (let total = sum_list (map (\<lambda>r. if sr_status r = SCompleted then 1 else clamp01 (sr_progress r)) runtimes)
            in of_int (js_round (total / of_nat (length runtimes) * 10000)) / 10000))"

section \<open>What the plan promises\<close>

lemma dependencyReady_iff:
  "dependencyReady s m \<longleftrightarrow> (\<forall>d \<in> set (sd_dependsOn s). \<exists>r. m d = Some r \<and> sr_status r = SCompleted)"
  by (auto simp: dependencyReady_def list_all_iff)

lemma plan_loop_ready:
  "k \<in> set (fst (plan_loop byId steps)) \<longleftrightarrow>
     (\<exists>s \<in> set steps. sd_stepId s = k \<and> dependencyReady s byId \<and>
        (\<exists>r. byId k = Some r \<and> sr_status r \<in> set READINESS_STATUSES))"
  by (induction steps) (auto split: option.splits prod.splits)

lemma plan_loop_blocked:
  "k \<in> set (fst (snd (snd (plan_loop byId steps)))) \<longleftrightarrow>
     (\<exists>s \<in> set steps. sd_stepId s = k \<and> dependencyReady s byId \<and>
        (\<exists>r. byId k = Some r \<and> sr_status r \<in> set READINESS_STATUSES \<and> skill_gate_closed s r))"
  by (induction steps) (auto split: option.splits prod.splits)

lemma plan_loop_partition:
  "k \<in> set (fst (plan_loop byId steps)) \<union> set (fst (snd (plan_loop byId steps))) \<longleftrightarrow>
     (\<exists>s \<in> set steps. sd_stepId s = k \<and> (\<exists>r. byId k = Some r \<and> sr_status r \<in> set READINESS_STATUSES))"
  by (induction steps) (auto split: option.splits prod.splits)

lemma plan_loop_distinct:
  "distinct (step_ids steps) \<Longrightarrow> distinct (fst (plan_loop byId steps))"
proof (induction steps)
  case (Cons s steps)
  have "sd_stepId s \<notin> set (fst (plan_loop byId steps))"
    unfolding plan_loop_ready using Cons.prems
    by (simp add: step_ids_def image_iff) (metis (no_types))
  with Cons show ?case by (auto simp: step_ids_def split: option.splits prod.splits)
qed (simp add: step_ids_def)

lemma plan_valid_iff:
  "pl_valid (planExecutionSchedule steps runtimes n) \<longleftrightarrow> plan_errors steps runtimes n = []"
  by (simp add: planExecutionSchedule_def Let_def split: prod.splits)

lemma plan_errors_Nil:
  "plan_errors steps runtimes n = [] \<Longrightarrow> well_formed_dag steps \<and> 1 \<le> n"
  by (auto simp: plan_errors_def validateExecutionDag_Nil split: if_splits)

lemma plan_dispatchable_mem:
  assumes "k \<in> set (pl_dispatchableStepIds (planExecutionSchedule steps runtimes n))"
  shows "\<exists>s r. s \<in> set steps \<and> sd_stepId s = k \<and> map_get sr_stepId runtimes k = Some r \<and>
    sr_status r = SReady \<and> dependencyReady s (map_get sr_stepId runtimes) \<and> \<not> skill_gate_closed s r"
proof (cases "plan_errors steps runtimes n = []")
  case True
  let ?m = "map_get sr_stepId runtimes"
  from True assms have k: "k \<in> set (fst (plan_loop ?m steps))"
      "k \<notin> set (fst (snd (snd (plan_loop ?m steps))))" "map_option sr_status (?m k) = Some SReady"
    by (auto simp: planExecutionSchedule_def Let_def split: prod.splits dest!: in_set_takeD)
  from k(1) obtain s r where sr: "s \<in> set steps" "sd_stepId s = k" "dependencyReady s ?m" "?m k = Some r"
      "sr_status r \<in> set READINESS_STATUSES"
    by (auto simp: plan_loop_ready)
  with k(2,3) show ?thesis by (auto simp: plan_loop_blocked)
next
  case False
  with assms show ?thesis by (simp add: planExecutionSchedule_def)
qed

lemma plan_dispatchable_capacity:
  "int (length (pl_dispatchableStepIds (planExecutionSchedule steps runtimes n))) \<le>
     max 0 (n - int (length (filter (\<lambda>r. sr_status r \<in> set ACTIVE_STATUSES) runtimes)))"
  by (auto simp: planExecutionSchedule_def Let_def split: prod.splits)

lemma plan_dispatchable_distinct:
  "distinct (pl_dispatchableStepIds (planExecutionSchedule steps runtimes n))"
proof (cases "plan_errors steps runtimes n = []")
  case True
  then have "distinct (fst (plan_loop (map_get sr_stepId runtimes) steps))"
    using plan_errors_Nil plan_loop_distinct well_formed_dag_def by blast
  with True show ?thesis
    by (auto simp: planExecutionSchedule_def Let_def split: prod.splits)
next
  case False
  then show ?thesis by (simp add: planExecutionSchedule_def)
qed

text \<open>The dispatchable list is as long as the free capacity and the eligible steps allow.\<close>

lemma plan_dispatchable_maximal:
  assumes "plan_errors steps runtimes n = []"
    and "s \<in> set steps" "map_get sr_stepId runtimes (sd_stepId s) = Some r" "sr_status r = SReady"
    and "dependencyReady s (map_get sr_stepId runtimes)" "\<not> skill_gate_closed s r"
    and "sd_stepId s \<notin> set (pl_dispatchableStepIds (planExecutionSchedule steps runtimes n))"
  shows "int (length (pl_dispatchableStepIds (planExecutionSchedule steps runtimes n))) =
     max 0 (n - int (length (filter (\<lambda>r. sr_status r \<in> set ACTIVE_STATUSES) runtimes)))"
proof -
  let ?m = "map_get sr_stepId runtimes"
  let ?cap = "max 0 (n - int (length (filter (\<lambda>r. sr_status r \<in> set ACTIVE_STATUSES) runtimes)))"
  let ?elig = "filter (\<lambda>k. map_option sr_status (?m k) = Some SReady \<and>
      k \<notin> set (fst (snd (snd (plan_loop ?m steps))))) (fst (plan_loop ?m steps))"
  have d: "pl_dispatchableStepIds (planExecutionSchedule steps runtimes n) = take (nat ?cap) ?elig"
    using assms(1) by (simp add: planExecutionSchedule_def Let_def split: prod.splits)
  have uniq: "s' = s" if "s' \<in> set steps" "sd_stepId s' = sd_stepId s" for s'
    using plan_errors_Nil [OF assms(1)] that assms(2)
    by (auto simp: well_formed_dag_def step_ids_def distinct_map inj_on_def)
  have "sd_stepId s \<notin> set (fst (snd (snd (plan_loop ?m steps))))"
  proof
    assume "sd_stepId s \<in> set (fst (snd (snd (plan_loop ?m steps))))"
    then obtain s' r' where "s' \<in> set steps" "sd_stepId s' = sd_stepId s" "?m (sd_stepId s) = Some r'"
        "skill_gate_closed s' r'"
      unfolding plan_loop_blocked by blast
    with uniq [of s'] assms(3,6) show False by simp
  qed
  moreover have "sd_stepId s \<in> set (fst (plan_loop ?m steps))"
    unfolding plan_loop_ready using assms(2-5) by (auto simp: READINESS_STATUSES_def)
  ultimately have "sd_stepId s \<in> set ?elig"
    using assms(3,4) by simp
  then have "length (take (nat ?cap) ?elig) = nat ?cap"
    by (rule length_take_missing) (rule assms(7) [unfolded d])
  then show ?thesis unfolding d by linarith
qed

lemma clamp01_bounds [simp]: "0 \<le> clamp01 q" "clamp01 q \<le> 1"
  by (simp_all add: clamp01_def)

lemma computeTaskProgress_bounds: "0 \<le> computeTaskProgress rs \<and> computeTaskProgress rs \<le> 1"
proof (cases "rs = []")
  case False
  let ?f = "\<lambda>r. if sr_status r = SCompleted then 1 else clamp01 (sr_progress r)"
  let ?t = "sum_list (map ?f rs)" and ?n = "of_nat (length rs) :: rat"
  have t: "0 \<le> ?t" "?t \<le> ?n"
    by (induction rs) (auto intro: add_mono simp: add_increasing)
  have n: "0 < ?n" using False by simp
  let ?q = "?t / ?n * 10000"
  have "0 \<le> ?q" "?q \<le> 10000" using t n by (simp_all add: field_simps)
  then have "0 \<le> js_round ?q" "js_round ?q \<le> 10000"
    unfolding js_round_def by linarith+
  then have "(of_int (js_round ?q) :: rat) \<ge> 0" "(of_int (js_round ?q) :: rat) \<le> 10000"
    by simp_all
  with False show ?thesis by (simp add: computeTaskProgress_def Let_def)
qed (simp add: computeTaskProgress_def)

end
