(* ===== verification/ExecutionValidators.thy ===== *)
theory ExecutionValidators
  imports ExecutionScheduler
begin

text \<open>
  \<open>execution-runtime/validators.ts\<close>: the checks a workflow definition passes before it is stored. A
  definition is accepted when the list of messages is empty.
\<close>

definition text_given :: "string \<Rightarrow> bool" where
  "text_given v \<longleftrightarrow> trim v \<noteq> []"

definition EXECUTORS :: "executor_target list" where
  "EXECUTORS = [GPT_WEB, GEMINI_WEB, CODEX, CLAUDE, ANTIGRAVITY, ZERO3, REMOTE_COMPUTE, HUMAN, AUTO]"

definition err_if :: "bool \<Rightarrow> string \<Rightarrow> string list" where
  "err_if bad msg = (if bad then [msg] else [])"

lemma err_if_Nil [simp]: "err_if bad msg = [] \<longleftrightarrow> \<not> bad"
  by (simp add: err_if_def)

definition skillSelectors :: "string list option \<Rightarrow> string \<Rightarrow> string list" where
  "skillSelectors value label =
     (case value of None \<Rightarrow> []
      | Some xs \<Rightarrow>
          if length xs > 32 then [label @ '' must contain at most 32 items'']
          else (let normalized = map trim xs in
            err_if (list_ex (\<lambda>i. i = [] \<or> length i > 256 \<or> CHR 0x00 \<in> set i) normalized)
              (label @ '' contains an invalid selector'')
            @ err_if (\<not> distinct normalized) (label @ '' contains duplicates'')))"

definition opt_list :: "'a list option \<Rightarrow> 'a list" where
  "opt_list v = (case v of None \<Rightarrow> [] | Some xs \<Rightarrow> xs)"

definition bad_count :: "int option \<Rightarrow> bool" where
  "bad_count v = (case v of None \<Rightarrow> False | Some n \<Rightarrow> \<not> safe_integer n \<or> n < 0)"

definition expected_output_errors :: "string \<Rightarrow> expected_output \<Rightarrow> string list" where
  "expected_output_errors sid out =
     err_if (\<not> text_given (eo_logicalName out)) (sid @ '' has an expected output without logicalName'')
     @ err_if (bad_count (eo_minCount out)) (sid @ ''/'' @ eo_logicalName out @ '' minCount is invalid'')
     @ err_if (bad_count (eo_maxCount out)) (sid @ ''/'' @ eo_logicalName out @ '' maxCount is invalid'')
     @ err_if (case (eo_minCount out, eo_maxCount out) of (Some a, Some b) \<Rightarrow> a > b | _ \<Rightarrow> False)
         (sid @ ''/'' @ eo_logicalName out @ '' count range is invalid'')"

definition step_errors :: "task_definition \<Rightarrow> step_definition \<Rightarrow> string list" where
  "step_errors task step =
     (let sid = sd_stepId step; shown = (if sid = [] then ''<unknown>'' else sid);
          required = map trim (opt_list (sd_requiredSkills step)) in
      err_if (sd_contract step \<noteq> ZERO3_EXECUTION_STEP) (shown @ '' step contract is invalid'')
      @ err_if (sd_taskId step \<noteq> td_taskId task) (shown @ '' belongs to a different task'')
      @ err_if (\<not> text_given sid) ''stepId is required''
      @ err_if (\<not> text_given (sd_title step)) (sid @ '' title is required'')
      @ err_if (\<not> text_given (sd_objective step)) (sid @ '' objective is required'')
      @ err_if (sd_executor step \<notin> set EXECUTORS) (sid @ '' executor is invalid'')
      @ skillSelectors (sd_requiredSkills step) (sid @ '' requiredSkills'')
      @ skillSelectors (sd_optionalSkills step) (sid @ '' optionalSkills'')
      @ concat (map (\<lambda>optional. err_if (trim optional \<in> set required)
            (sid @ '' Skill cannot be both required and optional: '' @ optional))
          (opt_list (sd_optionalSkills step)))
      @ err_if (\<not> safe_integer (sd_maxAttempts step) \<or> sd_maxAttempts step < 1 \<or> sd_maxAttempts step > 100)
          (sid @ '' maxAttempts must be between 1 and 100'')
      @ err_if (\<not> distinct (sd_dependsOn step)) (sid @ '' has duplicate dependencies'')
      @ concat (map (\<lambda>inp. err_if (\<not> text_given (ai_logicalName inp))
            (sid @ '' has an input artifact without logicalName'')) (sd_inputArtifacts step))
      @ concat (map (expected_output_errors sid) (sd_expectedOutputs step)))"

definition validateExecutionWorkflowDefinition :: "workflow_definition \<Rightarrow> string list" where
  "validateExecutionWorkflowDefinition def =
     (let task = wd_task def in sorted_unique (
      err_if (td_contract task \<noteq> ZERO3_EXECUTION_TASK) ''task contract is invalid''
      @ err_if (\<not> text_given (td_taskId task)) ''taskId is required''
      @ err_if (\<not> text_given (td_title task)) ''task title is required''
      @ err_if (\<not> text_given (td_goal task)) ''task goal is required''
      @ err_if (case td_workspace task of None \<Rightarrow> False | Some w \<Rightarrow> \<not> text_given w)
          ''task workspace must be null or non-empty''
      @ err_if (\<not> safe_integer (wd_revision def) \<or> wd_revision def < 1)
          ''workflow revision must be a positive integer''
      @ err_if (\<not> safe_integer (td_maxParallelSteps task) \<or> td_maxParallelSteps task < 1
            \<or> td_maxParallelSteps task > 256)
          ''maxParallelSteps must be an integer between 1 and 256''
      @ concat (map (step_errors task) (wd_steps def))
      @ validateExecutionDag (wd_steps def)))"

text \<open>What an accepted definition guarantees to the rest of the runtime.\<close>

definition definition_ok :: "workflow_definition \<Rightarrow> bool" where
  "definition_ok def \<longleftrightarrow> validateExecutionWorkflowDefinition def = []"

lemma definition_ok_dag: "definition_ok def \<Longrightarrow> well_formed_dag (wd_steps def)"
  by (simp add: definition_ok_def validateExecutionWorkflowDefinition_def Let_def validateExecutionDag_Nil)

lemma definition_ok_distinct: "definition_ok def \<Longrightarrow> distinct (map sd_stepId (wd_steps def))"
  using definition_ok_dag by (simp add: well_formed_dag_def step_ids_def)

lemma definition_ok_known:
  "definition_ok def \<Longrightarrow> s \<in> set (wd_steps def) \<Longrightarrow> d \<in> set (sd_dependsOn s) \<Longrightarrow>
     d \<in> sd_stepId ` set (wd_steps def)"
  using definition_ok_dag [of def] by (auto simp: well_formed_dag_def step_ids_def dep_edges_known)

lemma definition_ok_parallel:
  "definition_ok def \<Longrightarrow> 1 \<le> td_maxParallelSteps (wd_task def) \<and> td_maxParallelSteps (wd_task def) \<le> 256"
  by (simp add: definition_ok_def validateExecutionWorkflowDefinition_def Let_def)

lemma definition_ok_step:
  assumes "definition_ok def" "s \<in> set (wd_steps def)"
  shows "sd_taskId s = td_taskId (wd_task def)" "1 \<le> sd_maxAttempts s" "sd_maxAttempts s \<le> 100"
    "trim (sd_stepId s) \<noteq> []"
proof -
  have "step_errors (wd_task def) s = []"
    using assms by (simp add: definition_ok_def validateExecutionWorkflowDefinition_def Let_def)
  then show "sd_taskId s = td_taskId (wd_task def)" "1 \<le> sd_maxAttempts s" "sd_maxAttempts s \<le> 100"
    "trim (sd_stepId s) \<noteq> []"
    by (simp_all add: step_errors_def Let_def text_given_def)
qed

lemma EXECUTORS_all [simp]: "e \<in> set EXECUTORS"
  by (cases e) (simp_all add: EXECUTORS_def)

end
