(* ===== verification/AppendLog.thy ===== *)
theory AppendLog
  imports DurableJson
begin

text \<open>
  Append-only ledgers of durable events: what \<open>execution-runtime/event-ledger.ts\<close> and
  \<open>group-runtime/store/event-ledger.ts\<close> have in common. Both keep a JSON-lines file of checksummed records whose
  sequence numbers are 1, 2, 3, ... and whose event ids are unique, and both refuse to read anything
  else. \<open>append_log\<close> is the interface their clients rely on; both ledgers interpret it.

  A file is the list of its non-empty lines. Reading a line as JSON gives a parser message or a record
  of which the reader looks at the schema, the checksum (when a string) and the event (when truthy).
\<close>

section \<open>The interface\<close>

datatype append_outcome = Appended | Duplicate

locale append_log =
  fixes read :: "'f \<Rightarrow> 'e list res"
    and append :: "'f \<Rightarrow> 'e \<Rightarrow> append_outcome res \<times> 'f"
    and acceptable :: "'e \<Rightarrow> bool"
    and ident :: "'e \<Rightarrow> string"
    and seqno :: "'e \<Rightarrow> int"
  assumes read_numbered: "read f = Inr es \<Longrightarrow> map seqno es = map int [1..<Suc (length es)]"
    and read_distinct: "read f = Inr es \<Longrightarrow> distinct (map ident es)"
    and append_reads: "append f e = (Inr outcome, f') \<Longrightarrow> \<exists>es. read f = Inr es"
    and append_read: "append f e = (Inr Appended, f') \<Longrightarrow> acceptable e \<Longrightarrow> read f = Inr es \<Longrightarrow> read f' = Inr (es @ [e])"
    and append_frame: "append f e = (r, f') \<Longrightarrow> r \<noteq> Inr Appended \<Longrightarrow> f' = f"
    and append_ok: "read f = Inr es \<Longrightarrow> seqno e = int (length es) + 1 \<Longrightarrow> ident e \<notin> ident ` set es \<Longrightarrow>
          fst (append f e) = Inr Appended"
    and append_again: "read f = Inr es \<Longrightarrow> e \<in> set es \<Longrightarrow> append f e = (Inr Duplicate, f)"
begin

text \<open>Appending never loses an event: the old content is a prefix of the new one.\<close>

lemma append_prefix:
  assumes "read f = Inr es" "acceptable e"
  shows "\<exists>new. read (snd (append f e)) = Inr (es @ new) \<and> set new \<subseteq> {e}"
proof (cases "append f e")
  case (Pair r f')
  show ?thesis
  proof (cases "r = Inr Appended")
    case True
    with Pair append_read [of f e f' es] assms show ?thesis by auto
  next
    case False
    with Pair append_frame [of f e r f'] assms(1) show ?thesis by auto
  qed
qed

text \<open>A retry of an append that succeeded changes nothing.\<close>

lemma append_idempotent:
  assumes "append f e = (Inr Appended, f')" "acceptable e"
  shows "append f' e = (Inr Duplicate, f')"
proof -
  obtain es where "read f = Inr es" using append_reads assms(1) by blast
  with append_read assms have "read f' = Inr (es @ [e])" by blast
  then show ?thesis by (rule append_again) simp
qed

lemma seqno_nth:
  assumes "read f = Inr es" "i < length es"
  shows "seqno (es ! i) = int i + 1"
proof -
  have "map seqno es ! i = map int [1..<Suc (length es)] ! i"
    using read_numbered [OF assms(1)] by simp
  then show ?thesis using assms(2) by (simp del: upt_Suc)
qed

text \<open>Two events of one ledger with the same id are the same entry.\<close>

lemma ident_unique:
  assumes "read f = Inr es" "a \<in> set es" "b \<in> set es" "ident a = ident b"
  shows "a = b"
  using read_distinct [OF assms(1)] assms(2-4) by (auto simp: distinct_map inj_on_def)

end

section \<open>Reading a ledger\<close>

datatype 'e ledger_line =
    LineBadJson string
  | LineRecord "string option" "string option" "'e option"

fun parse_lines :: "(nat \<Rightarrow> 'l \<Rightarrow> 'e res) \<Rightarrow> nat \<Rightarrow> 'l list \<Rightarrow> 'e list res" where
  "parse_lines parse n [] = Inr []"
| "parse_lines parse n (l # ls) =
     (case parse n l of Inl err \<Rightarrow> Inl err
      | Inr e \<Rightarrow> (case parse_lines parse (Suc n) ls of Inl err \<Rightarrow> Inl err | Inr es \<Rightarrow> Inr (e # es)))"

text \<open>The loop over the parsed events: the expected number and the ids seen so far.\<close>

fun check_sequence :: "('e \<Rightarrow> int) \<Rightarrow> ('e \<Rightarrow> string) \<Rightarrow> (int \<Rightarrow> int \<Rightarrow> error) \<Rightarrow> (string \<Rightarrow> error) \<Rightarrow>
    int \<Rightarrow> string list \<Rightarrow> 'e list \<Rightarrow> unit res" where
  "check_sequence seqno ident gap dup expected ids [] = Inr ()"
| "check_sequence seqno ident gap dup expected ids (e # es) =
     (if seqno e \<noteq> expected then Inl (gap expected (seqno e))
      else if ident e \<in> set ids then Inl (dup (ident e))
      else check_sequence seqno ident gap dup (expected + 1) (ident e # ids) es)"

definition read_ledger :: "(nat \<Rightarrow> 'l \<Rightarrow> 'e res) \<Rightarrow> ('e \<Rightarrow> int) \<Rightarrow> ('e \<Rightarrow> string) \<Rightarrow> (int \<Rightarrow> int \<Rightarrow> error) \<Rightarrow>
    (string \<Rightarrow> error) \<Rightarrow> 'l list \<Rightarrow> 'e list res" where
  "read_ledger parse seqno ident gap dup ls =
     (case parse_lines parse 1 ls of Inl err \<Rightarrow> Inl err
      | Inr es \<Rightarrow> (case check_sequence seqno ident gap dup 1 [] es of Inl err \<Rightarrow> Inl err | Inr _ \<Rightarrow> Inr es))"

lemma check_sequence_Inr_iff:
  "check_sequence seqno ident gap dup n ids es = Inr u \<longleftrightarrow>
     (\<forall>i < length es. seqno (es ! i) = n + int i) \<and> distinct (map ident es) \<and>
     ident ` set es \<inter> set ids = {}"
proof (induction es arbitrary: n ids)
  case (Cons e es)
  have "(\<forall>i < Suc (length es). seqno ((e # es) ! i) = n + int i) \<longleftrightarrow>
      seqno e = n \<and> (\<forall>i < length es. seqno (es ! i) = n + 1 + int i)"
    by (auto simp: All_less_Suc2)
  then show ?case using Cons [of "n + 1" "ident e # ids"] by auto
qed simp

lemma parse_lines_append:
  "parse_lines parse n (ls @ [l]) =
     (case parse_lines parse n ls of Inl err \<Rightarrow> Inl err
      | Inr es \<Rightarrow> (case parse (n + length ls) l of Inl err \<Rightarrow> Inl err | Inr e \<Rightarrow> Inr (es @ [e])))"
  by (induction ls arbitrary: n) (auto split: sum.splits)

lemma read_ledger_Inr_iff:
  "read_ledger parse seqno ident gap dup ls = Inr es \<longleftrightarrow>
     parse_lines parse 1 ls = Inr es \<and> (\<forall>i < length es. seqno (es ! i) = 1 + int i) \<and> distinct (map ident es)"
  using check_sequence_Inr_iff [of seqno ident gap dup 1 "[]"]
  by (auto simp: read_ledger_def split: sum.splits) (metis Inr_not_Inl old.unit.exhaust)+

lemma read_ledger_snoc:
  assumes "read_ledger parse seqno ident gap dup ls = Inr es"
    and "parse (Suc (length ls)) l = Inr e" "seqno e = int (length es) + 1" "ident e \<notin> ident ` set es"
  shows "read_ledger parse seqno ident gap dup (ls @ [l]) = Inr (es @ [e])"
  using assms by (auto simp: read_ledger_Inr_iff parse_lines_append nth_append less_Suc_eq)

lemma read_ledger_numbered:
  assumes "read_ledger parse seqno ident gap dup ls = Inr es"
  shows "map seqno es = map int [1..<Suc (length es)]"
  using assms by (intro nth_equalityI) (auto simp: read_ledger_Inr_iff simp del: upt_Suc)

section \<open>Appending to a ledger\<close>

text \<open>
  Both appends read the ledger first, answer a repeated event, and refuse a reused id and a wrong number. \<open>same\<close>
  compares two events and \<open>line\<close> is the line that is written.
\<close>

definition append_ledger :: "('l list \<Rightarrow> 'e list res) \<Rightarrow> ('e \<Rightarrow> string) \<Rightarrow> ('e \<Rightarrow> int) \<Rightarrow> ('e \<Rightarrow> 'e \<Rightarrow> bool) \<Rightarrow> ('e \<Rightarrow> 'l) \<Rightarrow>
    'l list \<Rightarrow> 'e \<Rightarrow> append_outcome res \<times> 'l list" where
  "append_ledger read ident seqno same line lines event =
     (case read lines of
        Inl err \<Rightarrow> (Inl err, lines)
      | Inr events \<Rightarrow>
          (case find_key ident (ident event) events of
             Some existing \<Rightarrow>
               if same existing event then (Inr Duplicate, lines)
               else (Inl (DurableStoreCorruptionError (''event id '' @ ident event @ '' was reused with different content'')), lines)
           | None \<Rightarrow>
               (let expected = int (length events) + 1 in
                if seqno event \<noteq> expected
                then (Inl (DurableStoreCorruptionError (''event '' @ ident event @ '' sequence must be ''
                   @ int_text expected @ ''; got '' @ int_text (seqno event))), lines)
                else (Inr Appended, lines @ [line event]))))"

lemma parse_lines_records:
  assumes "\<And>n l e. parse n l = Inr e \<longleftrightarrow> l = line e \<and> ok e"
  shows "parse_lines parse n ls = Inr es \<longleftrightarrow> ls = map line es \<and> list_all ok es"
proof (induction ls arbitrary: n es)
  case (Cons l ls)
  show ?case
  proof (cases es)
    case Nil
    then show ?thesis by (auto split: sum.splits)
  next
    case (Cons e es')
    then show ?thesis using Cons.IH [of "Suc n" es'] assms [of n l e] by (auto split: sum.splits)
  qed
qed (auto split: sum.splits)

lemma read_ledger_records:
  assumes "\<And>n l e. parse n l = Inr e \<longleftrightarrow> l = line e \<and> ok e"
  shows "read_ledger parse seqno ident gap dup ls = Inr es \<longleftrightarrow>
    ls = map line es \<and> list_all ok es \<and> (\<forall>i < length es. seqno (es ! i) = 1 + int i) \<and> distinct (map ident es)"
  using parse_lines_records [of parse line ok 1 ls es, OF assms] by (simp add: read_ledger_Inr_iff)

lemma append_ledger_log:
  assumes "\<And>n e. ok e \<Longrightarrow> parse n (line e) = Inr e" "\<And>e. same e e"
    and read: "read = read_ledger parse seqno ident gap dup"
  shows "append_log read (append_ledger read ident seqno same line) ok ident seqno"
proof
  fix f es
  assume r: "read f = Inr es"
  show "map seqno es = map int [1..<Suc (length es)]"
    using r unfolding read by (rule read_ledger_numbered)
  show d: "distinct (map ident es)"
    using r unfolding read by (simp add: read_ledger_Inr_iff)
  show "fst (append_ledger read ident seqno same line f e) = Inr Appended"
    if "seqno e = int (length es) + 1" "ident e \<notin> ident ` set es" for e
    using r that by (auto simp: append_ledger_def split: option.splits)
  show "append_ledger read ident seqno same line f e = (Inr Duplicate, f)" if "e \<in> set es" for e
    using r find_key_distinct [OF d that] assms(2) by (simp add: append_ledger_def)
next
  fix f e f' outcome
  show "\<exists>es. read f = Inr es" if "append_ledger read ident seqno same line f e = (Inr outcome, f')"
    using that by (auto simp: append_ledger_def split: sum.splits)
  show "read f' = Inr (es @ [e])"
    if "append_ledger read ident seqno same line f e = (Inr Appended, f')" "ok e" "read f = Inr es" for es
  proof -
    from that have "f' = f @ [line e]" "seqno e = int (length es) + 1" "ident e \<notin> ident ` set es"
      by (auto simp: append_ledger_def Let_def split: option.splits if_splits)
    moreover have "parse (Suc (length f)) (line e) = Inr e" using assms(1) that(2) by blast
    ultimately show ?thesis using that(3) unfolding read by (simp add: read_ledger_snoc)
  qed
  show "f' = f" if "append_ledger read ident seqno same line f e = (r, f')" "r \<noteq> Inr Appended" for r
    using that by (auto simp: append_ledger_def Let_def split: sum.splits option.splits if_splits)
qed

end
