(* ===== verification/EventLedger.thy ===== *)
theory EventLedger
  imports ExecutionContracts AppendLog
begin

text \<open>The event ledger of an execution task, \<open>execution-runtime/event-ledger.ts\<close>.\<close>

section \<open>The execution event ledger\<close>

definition ZERO3_EXECUTION_EVENT_RECORD :: string where
  "ZERO3_EXECUTION_EVENT_RECORD = ''zero3.pilot.execution-event-record.v1''"

type_synonym execution_ledger = "execution_event ledger_line list"

fun event_type_text :: "event_type \<Rightarrow> string" where
  "event_type_text EvTaskCreated = ''task.created''"
| "event_type_text EvTaskStateChanged = ''task.state_changed''"
| "event_type_text EvStepAdded = ''step.added''"
| "event_type_text EvStepStateChanged = ''step.state_changed''"
| "event_type_text EvAssignmentCreated = ''assignment.created''"
| "event_type_text EvSkillPreflight = ''skill.preflight''"
| "event_type_text EvSessionBound = ''session.bound''"
| "event_type_text EvSessionStateChanged = ''session.state_changed''"
| "event_type_text EvProgressUpdated = ''progress.updated''"
| "event_type_text EvArtifactProduced = ''artifact.produced''"
| "event_type_text EvCompletionRequested = ''completion.requested''"
| "event_type_text EvGatePassed = ''gate.passed''"
| "event_type_text EvGateFailed = ''gate.failed''"
| "event_type_text EvBlocked = ''blocked''"
| "event_type_text EvWaitingHuman = ''waiting_human''"
| "event_type_text EvOutcomeUnknown = ''outcome_unknown''"
| "event_type_text EvTaskCompleted = ''task.completed''"
| "event_type_text EvTaskArchived = ''task.archived''"
| "event_type_text EvTaskUnarchived = ''task.unarchived''"

definition event_json :: "execution_event \<Rightarrow> json" where
  "event_json e = JObj ([(''contract'', JStr (ev_contract e)), (''eventId'', JStr (ev_eventId e)),
      (''sequence'', JNum (of_int (ev_sequence e))), (''taskId'', JStr (ev_taskId e))]
     @ opt_field ''stepId'' JStr (ev_stepId e) @ opt_field ''assignmentId'' JStr (ev_assignmentId e)
     @ [(''type'', JStr (event_type_text (ev_type e)))]
     @ opt_field ''payload'' JObj (ev_payload e) @ [(''at'', JStr (ev_at e))])"

definition recordFor :: "(execution_event \<Rightarrow> string) \<Rightarrow> execution_event \<Rightarrow> execution_event ledger_line" where
  "recordFor checksum e = LineRecord (Some ZERO3_EXECUTION_EVENT_RECORD) (Some (checksum e)) (Some e)"

fun parseEventLine :: "(execution_event \<Rightarrow> string) \<Rightarrow> string \<Rightarrow> nat \<Rightarrow> execution_event ledger_line \<Rightarrow>
    execution_event res" where
  "parseEventLine checksum source n (LineBadJson msg) =
     Inl (DurableStoreCorruptionError (source @ '':'' @ nat_text n @ '' is invalid JSON: '' @ msg))"
| "parseEventLine checksum source n (LineRecord schema cks event) =
     (case (cks, event) of
        (Some c, Some e) \<Rightarrow>
          if schema \<noteq> Some ZERO3_EXECUTION_EVENT_RECORD
          then Inl (DurableStoreCorruptionError (source @ '':'' @ nat_text n @ '' has an unsupported event envelope''))
          else if checksum e \<noteq> c
          then Inl (DurableStoreCorruptionError (source @ '':'' @ nat_text n @ '' event checksum mismatch''))
          else if ev_contract e \<noteq> ZERO3_EXECUTION_EVENT
          then Inl (DurableStoreCorruptionError (source @ '':'' @ nat_text n @ '' event contract mismatch''))
          else if \<not> safe_integer (ev_sequence e) \<or> ev_sequence e < 1 \<or> trim (ev_eventId e) = [] \<or> trim (ev_taskId e) = []
          then Inl (DurableStoreCorruptionError (source @ '':'' @ nat_text n @ '' event identity is invalid''))
          else Inr e
      | _ \<Rightarrow> Inl (DurableStoreCorruptionError (source @ '':'' @ nat_text n @ '' has an unsupported event envelope'')))"

definition readExecutionEventLedger :: "(execution_event \<Rightarrow> string) \<Rightarrow> string \<Rightarrow> execution_ledger \<Rightarrow>
    execution_event list res" where
  "readExecutionEventLedger checksum path = read_ledger (parseEventLine checksum path) ev_sequence ev_eventId
     (\<lambda>expected got. DurableStoreCorruptionError
        (path @ '' event sequence expected '' @ int_text expected @ '', got '' @ int_text got))
     (\<lambda>i. DurableStoreCorruptionError (path @ '' contains duplicate event id '' @ i))"

definition appendSerialized :: "(execution_event \<Rightarrow> string) \<Rightarrow> string \<Rightarrow> execution_ledger \<Rightarrow> execution_event \<Rightarrow>
    append_outcome res \<times> execution_ledger" where
  "appendSerialized checksum path lines event =
     (case readExecutionEventLedger checksum path lines of
        Inl err \<Rightarrow> (Inl err, lines)
      | Inr events \<Rightarrow>
          (case find_key ev_eventId (ev_eventId event) events of
             Some existing \<Rightarrow>
               if stable_same (event_json existing) (event_json event) then (Inr Duplicate, lines)
               else (Inl (DurableStoreCorruptionError
                 (''event id '' @ ev_eventId event @ '' was reused with different content'')), lines)
           | None \<Rightarrow>
               (let expected = int (length events) + 1 in
                if ev_sequence event \<noteq> expected
                then (Inl (DurableStoreCorruptionError (''event '' @ ev_eventId event @ '' sequence must be ''
                   @ int_text expected @ ''; got '' @ int_text (ev_sequence event))), lines)
                else (Inr Appended, lines @ [recordFor checksum event]))))"

text \<open>
  \<open>append_read\<close> needs an event that its own reader accepts: \<open>appendSerialized\<close> does not check the
  contract or the ids of what it writes, so an event with an empty task id would be written and make
  the ledger unreadable. The runtime only builds acceptable events.
\<close>

definition acceptable_event :: "execution_event \<Rightarrow> bool" where
  "acceptable_event e \<longleftrightarrow> ev_contract e = ZERO3_EXECUTION_EVENT \<and> safe_integer (ev_sequence e) \<and>
     1 \<le> ev_sequence e \<and> trim (ev_eventId e) \<noteq> [] \<and> trim (ev_taskId e) \<noteq> []"

lemma parseEventLine_Inr_iff:
  "parseEventLine checksum source n l = Inr e \<longleftrightarrow> l = recordFor checksum e \<and> acceptable_event e"
  by (cases l) (auto simp: recordFor_def acceptable_event_def split: option.splits)

text \<open>A ledger is readable iff it is the records of numbered, uniquely named, acceptable events.\<close>

lemma readExecutionEventLedger_iff:
  "readExecutionEventLedger checksum path ls = Inr es \<longleftrightarrow>
     ls = map (recordFor checksum) es \<and> list_all acceptable_event es \<and>
     (\<forall>i < length es. ev_sequence (es ! i) = 1 + int i) \<and> distinct (map ev_eventId es)"
  unfolding readExecutionEventLedger_def by (rule read_ledger_records) (rule parseEventLine_Inr_iff)

lemma appendSerialized_ledger:
  "appendSerialized checksum path = append_ledger (readExecutionEventLedger checksum path) ev_eventId ev_sequence
     (\<lambda>a b. stable_same (event_json a) (event_json b)) (recordFor checksum)"
  by (intro ext) (simp add: appendSerialized_def append_ledger_def)

interpretation execution_log: append_log "readExecutionEventLedger checksum path"
  "appendSerialized checksum path" acceptable_event ev_eventId ev_sequence
  for checksum path
  unfolding appendSerialized_ledger
  by (rule append_ledger_log [OF _ stable_same_refl readExecutionEventLedger_def]) (simp add: parseEventLine_Inr_iff)

end
