(* ===== verification/ExecutionStore.thy ===== *)
theory ExecutionStore
  imports ExecutionValidators EventLedger "HOL-Library.AList"
begin

text \<open>
  The durable execution store: class \<open>Zero3ExecutionStore\<close> of \<open>execution-runtime/store.ts\<close> on top of
  the envelope and the interrupted-write recovery of \<open>group-runtime/store/atomic-file.ts\<close>.

  The file system under the store root is a list of task directories, each with its snapshot file, the
  temporary files a crash left beside it, the event ledger and the archive side-car. Writing a file
  through \<open>writeDurableJson\<close> (temporary file, fsync, rename) is one step here. What the store
  takes from the platform (checksums, fresh ids, the clock, date parsing) is the record \<open>platform\<close>.
\<close>

section \<open>The world\<close>

record platform =
  pf_root :: string
  pf_rootResolved :: bool  \<comment> \<open>the root is an absolute, normalised path\<close>
  pf_snapshotSum :: "durable_snapshot \<Rightarrow> string"
  pf_archiveSum :: "archive_state \<Rightarrow> string"
  pf_eventSum :: "execution_event \<Rightarrow> string"
  pf_uuid :: "nat \<Rightarrow> string"  \<comment> \<open>the n-th value of randomUUID\<close>
  pf_clock :: "nat \<Rightarrow> string"  \<comment> \<open>the n-th reading of the clock\<close>
  pf_validDate :: "string \<Rightarrow> bool"

record task_files =
  tf_snapshot :: "durable_snapshot durable_text option"
  tf_temps :: "durable_snapshot durable_text list"
  tf_events :: execution_ledger
  tf_archive :: "archive_state durable_text option"

record world =
  ew_platform :: platform
  ew_tasks :: "(string \<times> task_files) list"
  ew_draws :: nat
  ew_ticks :: nat

type_synonym 'a store_eff = "(world, 'a) eff"

definition no_files :: task_files where
  "no_files = \<lparr>tf_snapshot = None, tf_temps = [], tf_events = [], tf_archive = None\<rparr>"

definition files_at :: "world \<Rightarrow> string \<Rightarrow> task_files" where
  "files_at w dir = (case map_of (ew_tasks w) dir of None \<Rightarrow> no_files | Some f \<Rightarrow> f)"

definition put_files :: "string \<Rightarrow> task_files \<Rightarrow> world \<Rightarrow> world" where
  "put_files dir f w = w\<lparr>ew_tasks := AList.update dir f (ew_tasks w)\<rparr>"

definition randomUUID :: "string store_eff" where
  "randomUUID = bnd (gets (\<lambda>w. pf_uuid (ew_platform w) (ew_draws w)))
     (\<lambda>u. bnd (modify (\<lambda>w. w\<lparr>ew_draws := Suc (ew_draws w)\<rparr>)) (\<lambda>_. ret u))"

definition now :: "string store_eff" where
  "now = bnd (gets (\<lambda>w. pf_clock (ew_platform w) (ew_ticks w)))
     (\<lambda>t. bnd (modify (\<lambda>w. w\<lparr>ew_ticks := Suc (ew_ticks w)\<rparr>)) (\<lambda>_. ret t))"

section \<open>Identity and snapshot checks\<close>

definition safeId :: "string \<Rightarrow> string \<Rightarrow> string res" where
  "safeId value label = (let normalized = trim value in
     if normalized = [] \<or> normalized = ''.'' \<or> normalized = ''..''
        \<or> list_ex (\<lambda>c. c = CHR ''/'' \<or> c = CHR 0x5C \<or> c = CHR 0x00) normalized
     then Inl (Error (label @ '' is not a safe path segment'')) else Inr normalized)"

definition path_text :: "platform \<Rightarrow> string \<Rightarrow> string \<Rightarrow> string" where
  "path_text pf dir relative = pf_root pf @ ''/'' @ dir @ ''/'' @ relative"

definition assertDefinition :: "workflow_definition \<Rightarrow> unit res" where
  "assertDefinition def = (let errors = validateExecutionWorkflowDefinition def in
     guard_res (errors = []) (Error (''invalid execution workflow: '' @ js_join ''; '' errors)))"

fun assert_assignments :: "string \<Rightarrow> string list \<Rightarrow> string list \<Rightarrow> assignment list \<Rightarrow> string list res" where
  "assert_assignments taskId stepIds seen [] = Inr seen"
| "assert_assignments taskId stepIds seen (a # as) =
     (if as_taskId a \<noteq> taskId \<or> as_stepId a \<notin> set stepIds then Inl (Error ''execution assignment identity mismatch'')
      else if as_assignmentId a \<in> set seen then Inl (Error ''duplicate execution assignment id'')
      else assert_assignments taskId stepIds (as_assignmentId a # seen) as)"

fun assert_bindings :: "string \<Rightarrow> string list \<Rightarrow> string list \<Rightarrow> string list \<Rightarrow> session_binding list \<Rightarrow> unit res" where
  "assert_bindings taskId stepIds assignmentIds seen [] = Inr ()"
| "assert_bindings taskId stepIds assignmentIds seen (b # bs) =
     (if sb_taskId b \<noteq> taskId \<or> sb_stepId b \<notin> set stepIds \<or> sb_assignmentId b \<notin> set assignmentIds
      then Inl (Error ''execution session binding identity mismatch'')
      else if sb_bindingId b \<in> set seen then Inl (Error ''duplicate execution session binding id'')
      else assert_bindings taskId stepIds assignmentIds (sb_bindingId b # seen) bs)"

definition assertRuntime :: "workflow_definition \<Rightarrow> runtime_state \<Rightarrow> unit res" where
  "assertRuntime def rt =
     (let taskId = td_taskId (wd_task def); stepIds = remdups (map sd_stepId (wd_steps def)) in
      if tr_taskId (rt_task rt) \<noteq> taskId then Inl (Error ''execution runtime task identity mismatch'')
      else if length (rt_steps rt) \<noteq> length stepIds then Inl (Error ''execution runtime step count mismatch'')
      else if list_ex (\<lambda>s. sr_taskId s \<noteq> taskId \<or> sr_stepId s \<notin> set stepIds) (rt_steps rt)
      then Inl (Error ''execution runtime contains unknown step'')
      else if \<not> distinct (map sr_stepId (rt_steps rt)) then Inl (Error ''execution runtime contains duplicate step state'')
      else (case assert_assignments taskId stepIds [] (rt_assignments rt) of
          Inl e \<Rightarrow> Inl e
        | Inr assignmentIds \<Rightarrow> assert_bindings taskId stepIds assignmentIds [] (rt_sessionBindings rt)))"

definition assertSnapshot :: "durable_snapshot \<Rightarrow> unit res" where
  "assertSnapshot snap = (case assertDefinition (ds_definition snap) of
     Inl e \<Rightarrow> Inl e | Inr _ \<Rightarrow> assertRuntime (ds_definition snap) (ds_runtime snap))"

section \<open>Reading and writing the files of a task\<close>

definition loadSnapshotRecord :: "string \<Rightarrow> durable_snapshot store_eff" where
  "loadSnapshotRecord taskId =
     bnd (lift_res (safeId taskId ''taskId'')) (\<lambda>dir.
     bnd (gets (\<lambda>w. case tf_snapshot (files_at w dir) of None \<Rightarrow> Inl NoEntry
        | Some t \<Rightarrow> parse_durable_envelope (pf_snapshotSum (ew_platform w)) (path_text (ew_platform w) dir ''snapshot.json'') t)) (\<lambda>r.
     bnd (lift_res r) (\<lambda>snap.
     bnd (lift_res (assertSnapshot snap)) (\<lambda>_.
     bnd (require_that (td_taskId (wd_task (ds_definition snap)) = taskId)
       (DurableStoreCorruptionError (''Execution Task '' @ taskId @ '' snapshot identity mismatch''))) (\<lambda>_.
     ret snap)))))"

definition loadDefinition :: "string \<Rightarrow> workflow_definition store_eff" where
  "loadDefinition taskId = bnd (loadSnapshotRecord taskId) (\<lambda>snap. ret (ds_definition snap))"

definition loadRuntime :: "string \<Rightarrow> runtime_state store_eff" where
  "loadRuntime taskId = bnd (loadSnapshotRecord taskId) (\<lambda>snap. ret (ds_runtime snap))"

definition write_snapshot_file :: "string \<Rightarrow> durable_snapshot \<Rightarrow> unit store_eff" where
  "write_snapshot_file dir snap = modify (\<lambda>w. put_files dir
     ((files_at w dir)\<lparr>tf_snapshot := Some (durable_envelope (pf_snapshotSum (ew_platform w)) snap)\<rparr>) w)"

definition initialize :: "workflow_definition \<Rightarrow> runtime_state \<Rightarrow> unit store_eff" where
  "initialize def rt =
     (let snap = \<lparr>ds_definition = def, ds_runtime = rt\<rparr>; taskId = td_taskId (wd_task def) in
      bnd (lift_res (assertSnapshot snap)) (\<lambda>_.
      bnd (lift_res (safeId taskId ''taskId'')) (\<lambda>dir.
      bnd (gets (\<lambda>w. map_of (ew_tasks w) dir = None)) (\<lambda>free.
      bnd (require_that free (Error (''Execution Task already exists: '' @ taskId))) (\<lambda>_.
      write_snapshot_file dir snap)))))"

text \<open>The JSON of a definition, whose stable text decides whether it changed.\<close>

definition task_definition_json :: "task_definition \<Rightarrow> json" where
  "task_definition_json t = JObj ([(''contract'', JStr (td_contract t)), (''taskId'', JStr (td_taskId t)),
      (''projectId'', str_opt_json (td_projectId t))]
     @ opt_field ''workspace'' JStr (td_workspace t)
     @ [(''title'', JStr (td_title t)), (''goal'', JStr (td_goal t)), (''workflowId'', str_opt_json (td_workflowId t)),
      (''maxParallelSteps'', JNum (of_int (td_maxParallelSteps t))),
      (''createdBySessionId'', str_opt_json (td_createdBySessionId t)), (''metadata'', JObj (td_metadata t)),
      (''createdAt'', JStr (td_createdAt t))])"

definition workflow_definition_json :: "workflow_definition \<Rightarrow> json" where
  "workflow_definition_json d = JObj [(''revision'', JNum (of_int (wd_revision d))),
     (''task'', task_definition_json (wd_task d)), (''steps'', JArr (map step_definition_json (wd_steps d)))]"

definition writeSnapshot :: "workflow_definition \<Rightarrow> runtime_state \<Rightarrow> unit store_eff" where
  "writeSnapshot def rt =
     (let snap = \<lparr>ds_definition = def, ds_runtime = rt\<rparr>; taskId = td_taskId (wd_task def) in
      bnd (lift_res (assertSnapshot snap)) (\<lambda>_.
      bnd (loadSnapshotRecord taskId) (\<lambda>current.
      bnd (require_that (\<not> wd_revision def < wd_revision (ds_definition current))
        (Error ''workflow revision cannot move backwards'')) (\<lambda>_.
      bnd (require_that (\<not> (wd_revision def = wd_revision (ds_definition current) \<and>
          \<not> stable_same (workflow_definition_json def) (workflow_definition_json (ds_definition current))))
        (Error ''workflow definition changed without revision increment'')) (\<lambda>_.
      bnd (lift_res (safeId taskId ''taskId'')) (\<lambda>dir.
      write_snapshot_file dir snap))))))"

definition writeDefinition :: "workflow_definition \<Rightarrow> unit store_eff" where
  "writeDefinition def =
     bnd (loadSnapshotRecord (td_taskId (wd_task def))) (\<lambda>current.
     bnd (require_that (\<not> wd_revision def \<le> wd_revision (ds_definition current))
       (Error ''workflow revision must increase'')) (\<lambda>_.
     writeSnapshot def (ds_runtime current)))"

definition writeRuntime :: "runtime_state \<Rightarrow> unit store_eff" where
  "writeRuntime rt =
     bnd (loadSnapshotRecord (tr_taskId (rt_task rt))) (\<lambda>current.
     writeSnapshot (ds_definition current) rt)"

definition appendEvent_store :: "execution_event \<Rightarrow> append_outcome store_eff" where
  "appendEvent_store event =
     bnd (lift_res (safeId (ev_taskId event) ''taskId'')) (\<lambda>dir w.
       let pf = ew_platform w; f = files_at w dir;
           (r, ledger) = appendSerialized (pf_eventSum pf) (path_text pf dir ''events.jsonl'') (tf_events f) event
       in (r, if r = Inr Appended then put_files dir (f\<lparr>tf_events := ledger\<rparr>) w else w))"

definition readEvents :: "string \<Rightarrow> execution_event list store_eff" where
  "readEvents taskId =
     bnd (lift_res (safeId taskId ''taskId'')) (\<lambda>dir.
     bnd (gets (\<lambda>w. readExecutionEventLedger (pf_eventSum (ew_platform w))
        (path_text (ew_platform w) dir ''events.jsonl'') (tf_events (files_at w dir)))) lift_res)"

definition listTaskIds :: "string list store_eff" where
  "listTaskIds = gets (\<lambda>w. sort (map fst (ew_tasks w)))"

section \<open>Archive, deletion, recovery\<close>

definition notArchived :: archive_state where
  "notArchived = \<lparr>ar_contract = ZERO3_EXECUTION_TASK_ARCHIVE, ar_archived = False, ar_archivedAt = None, ar_updatedAt = []\<rparr>"

definition readArchive :: "string \<Rightarrow> archive_state store_eff" where
  "readArchive taskId =
     bnd (lift_res (safeId taskId ''taskId'')) (\<lambda>dir.
     bnd (gets (\<lambda>w. case tf_archive (files_at w dir) of None \<Rightarrow> Inr notArchived
        | Some t \<Rightarrow> parse_durable_envelope (pf_archiveSum (ew_platform w)) (path_text (ew_platform w) dir ''archive.json'') t)) (\<lambda>r.
     bnd (lift_res r) (\<lambda>rec.
     bnd (require_that (ar_contract rec = ZERO3_EXECUTION_TASK_ARCHIVE)
       (DurableStoreCorruptionError (''Execution Task '' @ taskId @ '' archive record is invalid''))) (\<lambda>_.
     bnd (require_that (\<not> (ar_archived rec \<and> ar_archivedAt rec = None))
       (DurableStoreCorruptionError (''Execution Task '' @ taskId @ '' archive record has no archivedAt''))) (\<lambda>_.
     ret rec)))))"

definition writeArchive :: "string \<Rightarrow> bool \<Rightarrow> string \<Rightarrow> archive_state store_eff" where
  "writeArchive taskId archived at' =
     (let rec = \<lparr>ar_contract = ZERO3_EXECUTION_TASK_ARCHIVE, ar_archived = archived,
          ar_archivedAt = (if archived then Some at' else None), ar_updatedAt = at'\<rparr> in
      bnd (lift_res (safeId taskId ''taskId'')) (\<lambda>dir.
      bnd (modify (\<lambda>w. put_files dir ((files_at w dir)\<lparr>tf_archive :=
          Some (durable_envelope (pf_archiveSum (ew_platform w)) rec)\<rparr>) w)) (\<lambda>_.
      ret rec)))"

definition deleteTask_store :: "string \<Rightarrow> unit store_eff" where
  "deleteTask_store taskId =
     bnd (lift_res (safeId taskId ''taskId'')) (\<lambda>dir.
     bnd (gets (\<lambda>w. pf_rootResolved (ew_platform w))) (\<lambda>inside.
     bnd (require_that inside (Error ''refusing to delete outside the execution store root'')) (\<lambda>_.
     bnd (loadSnapshotRecord taskId) (\<lambda>_.
     modify (\<lambda>w. w\<lparr>ew_tasks := AList.delete dir (ew_tasks w)\<rparr>)))))"

text \<open>\<open>recoverInterruptedWrite\<close> on \<open>snapshot.json\<close>: what a crash between the two halves of a write leaves.\<close>

definition recoverInterruptedWrite :: "platform \<Rightarrow> string \<Rightarrow> task_files \<Rightarrow> recovery res \<times> task_files" where
  "recoverInterruptedWrite pf target f = (case recover_write (pf_snapshotSum pf) target (tf_snapshot f) (tf_temps f) of
     (r, file, temps) \<Rightarrow> (r, f\<lparr>tf_snapshot := file, tf_temps := temps\<rparr>))"

record reconcile_result =
  rr_taskId :: string
  rr_eventCount :: int
  rr_stateEventSequence :: int
  rr_needsSemanticReplay :: bool
  rr_recoveredFiles :: "string list"

definition reconcile :: "string \<Rightarrow> reconcile_result store_eff" where
  "reconcile taskId =
     bnd (lift_res (safeId taskId ''taskId'')) (\<lambda>dir.
     bnd (\<lambda>w. let (r, f) = recoverInterruptedWrite (ew_platform w) (path_text (ew_platform w) dir ''snapshot.json'') (files_at w dir)
        in (r, if map_of (ew_tasks w) dir = None then w else put_files dir f w)) (\<lambda>recovered.
     bnd (loadSnapshotRecord taskId) (\<lambda>snap.
     bnd (readEvents taskId) (\<lambda>events.
     let last = tr_lastEventSequence (rt_task (ds_runtime snap)); n = int (length events) in
     bnd (require_that (\<not> last > n) (DurableStoreCorruptionError
       (''runtime sequence '' @ int_text last @ '' is ahead of event ledger '' @ int_text n))) (\<lambda>_.
     ret \<lparr>rr_taskId = taskId, rr_eventCount = n, rr_stateEventSequence = last,
       rr_needsSemanticReplay = (last < n),
       rr_recoveredFiles = (if recovered = RecoveryRecovered then [''snapshot.json''] else [])\<rparr>)))))"

end
