(* ===== verification/ExecutionRuntime.thy ===== *)
theory ExecutionRuntime
  imports ExecutionStore
begin

text \<open>
  The execution runtime, class \<open>Zero3ExecutionRuntime\<close> of \<open>execution-runtime/runtime.ts\<close>: one definition
  per method, with its guards, its ledger appends and its snapshot write in the order of the code.

  \<open>mutate\<close> runs the operations of a task one after the other, so a method is one effect on the store;
  the effect keeps what was written before a throw.
\<close>

section \<open>Inputs\<close>

record step_draft =
  sf_stepId :: string
  sf_title :: string
  sf_objective :: string
  sf_executor :: executor_target
  sf_dependsOn :: "string list"
  sf_requiredSkills :: "string list option"
  sf_optionalSkills :: "string list option"
  sf_inputArtifacts :: "artifact_input list"
  sf_expectedOutputs :: "expected_output list"
  sf_completionGate :: "string list"
  sf_maxAttempts :: int
  sf_metadata :: json_object
  sf_createdAt :: "string option"

record task_draft =
  kf_taskId :: string
  kf_projectId :: "string option"
  kf_workspace :: "string option"
  kf_title :: string
  kf_goal :: string
  kf_workflowId :: "string option"
  kf_maxParallelSteps :: int
  kf_createdBySessionId :: "string option"
  kf_metadata :: json_object
  kf_createdAt :: "string option"

record bind_input =
  bi_logicalSessionId :: string
  bi_runtimeConversationId :: "string option"
  bi_conversationUrl :: "string option"
  bi_state :: "binding_state option"
  bi_metadata :: "json_object option"

record event_identity =
  id_eventId :: "string option"
  id_payload :: "json_object option"

record event_input =
  ei_taskId :: string
  ei_stepId :: "string option"
  ei_assignmentId :: "string option"
  ei_type :: event_type
  ei_payload :: "json_object option"
  ei_eventId :: "string option"
  ei_at :: "string option"

section \<open>Helpers\<close>

definition ACTIVE_STEPS :: "step_status list" where
  "ACTIVE_STEPS = [SDispatching, SRunning, SWaitingReport, SVerifying]"

definition eventPayload :: "json_object \<Rightarrow> event_identity option \<Rightarrow> json_object" where
  "eventPayload base identity = (case Option.bind identity id_payload of
     None \<Rightarrow> base | Some p \<Rightarrow> obj_spread base p)"

definition initialSkillPreflight :: "step_definition \<Rightarrow> skill_preflight option" where
  "initialSkillPreflight step =
     (let required = opt_list (sd_requiredSkills step); optional = opt_list (sd_optionalSkills step) in
      if required \<noteq> [] \<or> optional \<noteq> [] then None
      else Some \<lparr>sp_state = PreflightNotRequired,
        sp_executor = (if sd_executor step = AUTO then None else Some (sd_executor step)),
        sp_adapterMode = AdapterUnsupported, sp_requiredSkills = required, sp_optionalSkills = optional,
        sp_availableRequiredSkills = [], sp_availableOptionalSkills = [], sp_missingRequiredSkills = [],
        sp_missingOptionalSkills = [], sp_checkedAt = sd_createdAt step\<rparr>)"

definition initialStepRuntime :: "string list \<Rightarrow> step_definition \<Rightarrow> step_runtime" where
  "initialStepRuntime completed step =
     \<lparr>sr_taskId = sd_taskId step, sr_stepId = sd_stepId step,
      sr_status = (if list_all (\<lambda>d. d \<in> set completed) (sd_dependsOn step) then SReady else SWaitingDependency),
      sr_skillPreflight = initialSkillPreflight step, sr_attempt = 0, sr_assignmentId = None,
      sr_progress = 0, sr_currentActivity = None, sr_blocker = None, sr_lastEventSequence = 0,
      sr_updatedAt = sd_createdAt step\<rparr>"

definition refreshDerived :: "runtime_state \<Rightarrow> runtime_state" where
  "refreshDerived rt = rt\<lparr>rt_task := (rt_task rt)\<lparr>
     tr_progress := computeTaskProgress (rt_steps rt),
     tr_activeStepIds := map sr_stepId (filter (\<lambda>s. sr_status s \<in> set ACTIVE_STEPS) (rt_steps rt))\<rparr>\<rparr>"

definition stepMap :: "runtime_state \<Rightarrow> string \<Rightarrow> step_runtime option" where
  "stepMap rt = map_get sr_stepId (rt_steps rt)"

definition set_step :: "string \<Rightarrow> (step_runtime \<Rightarrow> step_runtime) \<Rightarrow> runtime_state \<Rightarrow> runtime_state" where
  "set_step k f rt = rt\<lparr>rt_steps := map_key sr_stepId k f (rt_steps rt)\<rparr>"

definition set_task_status :: "task_status \<Rightarrow> runtime_state \<Rightarrow> runtime_state" where
  "set_task_status st rt = rt\<lparr>rt_task := (rt_task rt)\<lparr>tr_status := st\<rparr>\<rparr>"

definition active_count :: "runtime_state \<Rightarrow> int" where
  "active_count rt = int (length (filter (\<lambda>s. sr_status s \<in> set ACTIVE_STEPS) (rt_steps rt)))"

definition reason_field :: "string option \<Rightarrow> json_object" where
  "reason_field reason = (case reason of None \<Rightarrow> [] | Some r \<Rightarrow> if r = [] then [] else [(''reason'', JStr r)])"

definition step_not_found :: "string \<Rightarrow> error" where
  "step_not_found k = Error (''execution step not found: '' @ k)"

section \<open>Recording an event\<close>

definition report_json :: "string \<Rightarrow> string option \<Rightarrow> string option \<Rightarrow> event_type \<Rightarrow> json_object option \<Rightarrow> json" where
  "report_json tid sid aid ty payload = JObj [(''taskId'', JStr tid), (''stepId'', str_opt_json sid),
     (''assignmentId'', str_opt_json aid), (''type'', JStr (event_type_text ty)),
     (''payload'', (case payload of None \<Rightarrow> JNull | Some p \<Rightarrow> JObj p))]"

definition touch_step :: "string option \<Rightarrow> (int \<Rightarrow> int) \<Rightarrow> string \<Rightarrow> step_runtime \<Rightarrow> step_runtime" where
  "touch_step sid bump at' s = (if Some (sr_stepId s) = sid
     then s\<lparr>sr_lastEventSequence := bump (sr_lastEventSequence s), sr_updatedAt := at'\<rparr> else s)"

definition touch :: "string option \<Rightarrow> (int \<Rightarrow> int) \<Rightarrow> string \<Rightarrow> runtime_state \<Rightarrow> runtime_state" where
  "touch sid bump at' rt = rt\<lparr>
     rt_task := (rt_task rt)\<lparr>tr_lastEventSequence := bump (tr_lastEventSequence (rt_task rt)), tr_updatedAt := at'\<rparr>,
     rt_steps := map (touch_step sid bump at') (rt_steps rt)\<rparr>"

definition drop_empty :: "string option \<Rightarrow> string option" where
  "drop_empty v = (if v = Some [] then None else v)"

definition append_fresh :: "runtime_state \<Rightarrow> event_input \<Rightarrow> execution_event list \<Rightarrow> string option \<Rightarrow>
    runtime_state store_eff" where
  "append_fresh rt inp events explicit =
     (let seqno = int (length events) + 1 in
      bnd (case ei_at inp of None \<Rightarrow> now | Some t \<Rightarrow> ret t) (\<lambda>at'.
      bnd (case explicit of None \<Rightarrow> bnd randomUUID (\<lambda>u. ret (''evt-'' @ u)) | Some i \<Rightarrow> ret i) (\<lambda>eventId.
      bnd (appendEvent_store \<lparr>ev_contract = ZERO3_EXECUTION_EVENT, ev_eventId = eventId, ev_sequence = seqno,
        ev_taskId = ei_taskId inp, ev_stepId = drop_empty (ei_stepId inp),
        ev_assignmentId = drop_empty (ei_assignmentId inp), ev_type = ei_type inp,
        ev_payload = ei_payload inp, ev_at = at'\<rparr>) (\<lambda>_.
      ret (touch (ei_stepId inp) (\<lambda>_. seqno) at' rt)))))"

definition appendEvent :: "runtime_state \<Rightarrow> event_input \<Rightarrow> runtime_state store_eff" where
  "appendEvent rt inp =
     bnd (readEvents (ei_taskId inp)) (\<lambda>events.
     let explicit = trim_opt (ei_eventId inp) in
     case Option.bind explicit (\<lambda>i. find_key ev_eventId i events) of
       Some existing \<Rightarrow>
         bnd (require_that (stable_same
             (report_json (ei_taskId inp) (ei_stepId inp) (ei_assignmentId inp) (ei_type inp) (ei_payload inp))
             (report_json (ev_taskId existing) (ev_stepId existing) (ev_assignmentId existing) (ev_type existing) (ev_payload existing)))
           (Error (''event id '' @ ev_eventId existing @ '' was reused with different execution report content''))) (\<lambda>_.
         ret (touch (ei_stepId inp) (\<lambda>n. max n (ev_sequence existing)) (ev_at existing) rt))
     | None \<Rightarrow> append_fresh rt inp events explicit)"

definition event_for :: "string \<Rightarrow> string option \<Rightarrow> string option \<Rightarrow> event_type \<Rightarrow> json_object \<Rightarrow>
    event_identity option \<Rightarrow> event_input" where
  "event_for tid sid aid ty payload identity = \<lparr>ei_taskId = tid, ei_stepId = sid, ei_assignmentId = aid,
     ei_type = ty, ei_payload = Some payload, ei_eventId = Option.bind identity id_eventId, ei_at = None\<rparr>"

definition snapshot :: "string \<Rightarrow> task_snapshot store_eff" where
  "snapshot taskId =
     bnd (loadSnapshotRecord taskId) (\<lambda>snap.
     bnd (readEvents taskId) (\<lambda>events.
     bnd (readArchive taskId) (\<lambda>archive.
     ret \<lparr>ts_definition = ds_definition snap, ts_runtime = ds_runtime snap, ts_events = events,
       ts_archived = ar_archived archive\<rparr>)))"

section \<open>Creating and extending a task\<close>

fun build_steps :: "(string \<Rightarrow> string) \<Rightarrow> string \<Rightarrow> string \<Rightarrow> string list \<Rightarrow> step_draft list \<Rightarrow> step_definition list res" where
  "build_steps msg tid createdAt seen [] = Inr []"
| "build_steps msg tid createdAt seen (d # ds) =
     (if sf_stepId d \<in> set seen then Inl (Error (msg (sf_stepId d)))
      else (case build_steps msg tid createdAt (sf_stepId d # seen) ds of
          Inl e \<Rightarrow> Inl e
        | Inr rest \<Rightarrow> Inr (\<lparr>sd_contract = ZERO3_EXECUTION_STEP, sd_taskId = tid, sd_stepId = sf_stepId d,
            sd_title = sf_title d, sd_objective = sf_objective d, sd_executor = sf_executor d,
            sd_dependsOn = sf_dependsOn d, sd_requiredSkills = sf_requiredSkills d,
            sd_optionalSkills = sf_optionalSkills d, sd_inputArtifacts = sf_inputArtifacts d,
            sd_expectedOutputs = sf_expectedOutputs d, sd_completionGate = sf_completionGate d,
            sd_maxAttempts = sf_maxAttempts d, sd_metadata = sf_metadata d,
            sd_createdAt = (case sf_createdAt d of None \<Rightarrow> createdAt | Some t \<Rightarrow> t)\<rparr> # rest)))"

definition createTask :: "task_draft \<Rightarrow> step_draft list \<Rightarrow> task_snapshot store_eff" where
  "createTask draft drafts =
     bnd (case kf_createdAt draft of None \<Rightarrow> now | Some t \<Rightarrow> ret t) (\<lambda>createdAt.
     let tid = kf_taskId draft;
         task = \<lparr>td_contract = ZERO3_EXECUTION_TASK, td_taskId = tid, td_projectId = kf_projectId draft,
           td_workspace = kf_workspace draft, td_title = kf_title draft, td_goal = kf_goal draft,
           td_workflowId = kf_workflowId draft, td_maxParallelSteps = kf_maxParallelSteps draft,
           td_createdBySessionId = kf_createdBySessionId draft, td_metadata = kf_metadata draft,
           td_createdAt = createdAt\<rparr> in
     bnd (require_that (1 \<le> td_maxParallelSteps task \<and> td_maxParallelSteps task \<le> 256)
       (Error ''maxParallelSteps must be an integer between 1 and 256'')) (\<lambda>_.
     bnd (lift_res (build_steps (\<lambda>k. ''duplicate step id '' @ k) tid createdAt [] drafts)) (\<lambda>steps.
     let def = \<lparr>wd_revision = 1, wd_task = task, wd_steps = steps\<rparr>;
         rt = refreshDerived \<lparr>rt_task = \<lparr>tr_taskId = tid, tr_status = TReady, tr_progress = 0, tr_activeStepIds = [],
             tr_blockers = [], tr_lastEventSequence = 0, tr_updatedAt = createdAt\<rparr>,
           rt_steps = map (initialStepRuntime []) steps, rt_assignments = [], rt_sessionBindings = []\<rparr> in
     bnd (initialize def rt) (\<lambda>_.
     bnd (appendEvent rt \<lparr>ei_taskId = tid, ei_stepId = None, ei_assignmentId = None, ei_type = EvTaskCreated,
         ei_payload = Some [(''title'', JStr (td_title task)), (''workflowId'', str_opt_json (td_workflowId task)),
           (''stepIds'', strs_json (map sd_stepId steps))],
         ei_eventId = None, ei_at = Some createdAt\<rparr>) (\<lambda>recorded.
     bnd (writeSnapshot def recorded) (\<lambda>_.
     snapshot tid))))))"

definition addSteps :: "string \<Rightarrow> step_draft list \<Rightarrow> task_snapshot store_eff" where
  "addSteps tid drafts =
     (if drafts = [] then snapshot tid
      else bnd (loadSnapshotRecord tid) (\<lambda>snap.
      let st = tr_status (rt_task (ds_runtime snap)) in
      bnd (require_that (st \<noteq> TCompleted \<and> st \<noteq> TCancelled)
        (Error (''cannot expand terminal task '' @ tid @ '' while '' @ task_status_text st))) (\<lambda>_.
      bnd now (\<lambda>createdAt.
      bnd (lift_res (build_steps (\<lambda>k. ''step id already exists: '' @ k) tid createdAt
          (map sd_stepId (wd_steps (ds_definition snap))) drafts)) (\<lambda>additions.
      let def = (ds_definition snap)\<lparr>wd_revision := wd_revision (ds_definition snap) + 1,
            wd_steps := wd_steps (ds_definition snap) @ additions\<rparr>;
          completed = map sr_stepId (filter (\<lambda>s. sr_status s = SCompleted) (rt_steps (ds_runtime snap)));
          rt = refreshDerived ((ds_runtime snap)\<lparr>rt_steps := rt_steps (ds_runtime snap)
            @ map (initialStepRuntime completed) additions\<rparr>) in
      bnd (for_each additions (\<lambda>step rt. appendEvent rt (event_for tid (Some (sd_stepId step)) None EvStepAdded
          [(''step'', step_definition_json step)] None)) rt) (\<lambda>rt.
      bnd (writeSnapshot def (refreshDerived rt)) (\<lambda>_.
      snapshot tid)))))))"

section \<open>Task transitions and readiness\<close>

definition transitionTask :: "string \<Rightarrow> task_status \<Rightarrow> string option \<Rightarrow> task_snapshot store_eff" where
  "transitionTask tid status reason =
     bnd (loadSnapshotRecord tid) (\<lambda>snap.
     let from = tr_status (rt_task (ds_runtime snap)) in
     bnd (lift_res (assertTaskTransition from status)) (\<lambda>_.
     let old = rt_task (ds_runtime snap);
         rt = (ds_runtime snap)\<lparr>rt_task := old\<lparr>tr_status := status,
           tr_blockers := (case drop_empty reason of Some r \<Rightarrow> if status = TBlocked then [r] else tr_blockers old
             | None \<Rightarrow> tr_blockers old)\<rparr>\<rparr> in
     bnd (appendEvent rt (event_for tid None None EvTaskStateChanged
       ([(''from'', JStr (task_status_text from)), (''to'', JStr (task_status_text status))] @ reason_field reason) None)) (\<lambda>rt.
     bnd (writeSnapshot (ds_definition snap) (refreshDerived rt)) (\<lambda>_.
     snapshot tid))))"

definition missing_runtime :: error where
  "missing_runtime = Error ''Cannot read properties of undefined (reading status)''"

text \<open>One iteration of the loop of \<open>reconcileReadiness\<close>.\<close>

definition reconcile_one :: "string \<Rightarrow> step_definition \<Rightarrow> runtime_state \<Rightarrow> runtime_state store_eff" where
  "reconcile_one tid step rt =
     (case stepMap rt (sd_stepId step) of
        None \<Rightarrow> throw missing_runtime
      | Some current \<Rightarrow>
          if sr_status current \<noteq> SPending \<and> sr_status current \<noteq> SWaitingDependency then ret rt
          else let next = (if dependencyReady step (stepMap rt) then SReady else SWaitingDependency) in
            if next = sr_status current then ret rt
            else bnd (lift_res (assertStepTransition (sr_status current) next)) (\<lambda>_.
              appendEvent (set_step (sr_stepId current) (\<lambda>s. s\<lparr>sr_status := next\<rparr>) rt)
                (event_for tid (Some (sr_stepId current)) None EvStepStateChanged
                  [(''from'', JStr (step_status_text (sr_status current))), (''to'', JStr (step_status_text next)),
                   (''reason'', JStr ''dependency_reconcile'')] None)))"

definition reconcileReadiness :: "string \<Rightarrow> schedule_plan store_eff" where
  "reconcileReadiness tid =
     bnd (loadSnapshotRecord tid) (\<lambda>snap.
     bnd (for_each (wd_steps (ds_definition snap)) (reconcile_one tid) (ds_runtime snap)) (\<lambda>rt.
     let rt = refreshDerived rt in
     bnd (writeSnapshot (ds_definition snap) rt) (\<lambda>_.
     ret (planExecutionSchedule (wd_steps (ds_definition snap)) (rt_steps rt)
       (td_maxParallelSteps (wd_task (ds_definition snap)))))))"


section \<open>Skill preflight and assignments\<close>

definition MISSING_SKILLS :: string where
  "MISSING_SKILLS = ''Missing required Skills:''"

definition with_step :: "durable_snapshot \<Rightarrow> string \<Rightarrow> (step_runtime \<Rightarrow> 'a store_eff) \<Rightarrow> 'a store_eff" where
  "with_step snap k body = (case find_key sr_stepId k (rt_steps (ds_runtime snap)) of
     None \<Rightarrow> throw (step_not_found k) | Some current \<Rightarrow> body current)"

definition with_definition :: "durable_snapshot \<Rightarrow> string \<Rightarrow> (step_definition \<Rightarrow> step_runtime \<Rightarrow> 'a store_eff) \<Rightarrow> 'a store_eff" where
  "with_definition snap k body =
     (case find_key sd_stepId k (wd_steps (ds_definition snap)) of
        None \<Rightarrow> throw (step_not_found k)
      | Some def \<Rightarrow> with_step snap k (body def))"

text \<open>Every single-event method ends the same way: record the event, refresh, write the snapshot.\<close>

definition commit :: "durable_snapshot \<Rightarrow> runtime_state \<Rightarrow> event_input \<Rightarrow> unit store_eff" where
  "commit snap rt inp =
     bnd (appendEvent rt inp) (\<lambda>recorded.
     writeSnapshot (ds_definition snap) (refreshDerived recorded))"

definition recordSkillPreflight :: "string \<Rightarrow> string \<Rightarrow> skill_preflight \<Rightarrow> task_snapshot store_eff" where
  "recordSkillPreflight tid k preflight =
     bnd (loadSnapshotRecord tid) (\<lambda>snap.
     with_definition snap k (\<lambda>def current.
     bnd (require_that (opt_list (sd_requiredSkills def) = sp_requiredSkills preflight \<and>
         opt_list (sd_optionalSkills def) = sp_optionalSkills preflight)
       (Error (''Skill preflight contract mismatch for step '' @ k))) (\<lambda>_.
     bnd (gets (\<lambda>w. pf_validDate (ew_platform w) (sp_checkedAt preflight))) (\<lambda>valid.
     bnd (require_that valid (Error ''Skill preflight checkedAt is invalid'')) (\<lambda>_.
     bnd (require_that (\<not> (sp_state preflight = PreflightReady \<and> sp_missingRequiredSkills preflight \<noteq> []))
       (Error ''ready Skill preflight cannot contain missing required Skills'')) (\<lambda>_.
     let missing = sp_missingRequiredSkills preflight;
         blocker = (if missing \<noteq> [] then Some (MISSING_SKILLS @ '' '' @ js_join '', '' missing)
           else (case sr_blocker current of None \<Rightarrow> None
             | Some b \<Rightarrow> if prefix MISSING_SKILLS b then None else Some b));
         rt = set_step k (\<lambda>s. s\<lparr>sr_skillPreflight := Some preflight, sr_blocker := blocker\<rparr>) (ds_runtime snap) in
     bnd (commit snap rt (event_for tid (Some k) (sr_assignmentId current) EvSkillPreflight
         [(''state'', JStr (preflight_state_text (sp_state preflight))),
          (''executor'', str_opt_json (map_option executor_text (sp_executor preflight))),
          (''adapterMode'', JStr (adapter_mode_text (sp_adapterMode preflight))),
          (''requiredSkills'', strs_json (sp_requiredSkills preflight)),
          (''optionalSkills'', strs_json (sp_optionalSkills preflight)),
          (''availableRequiredSkills'', strs_json (sp_availableRequiredSkills preflight)),
          (''missingRequiredSkills'', strs_json (sp_missingRequiredSkills preflight)),
          (''missingOptionalSkills'', strs_json (sp_missingOptionalSkills preflight))] None)) (\<lambda>_.
     snapshot tid)))))))"

definition assignable_executor :: "executor_target \<Rightarrow> bool" where
  "assignable_executor e \<longleftrightarrow>
     e \<in> set [GPT_WEB, GEMINI_WEB, CODEX, CLAUDE, ANTIGRAVITY, ZERO3, REMOTE_COMPUTE, HUMAN]"

definition skill_check :: "string \<Rightarrow> step_definition \<Rightarrow> step_runtime \<Rightarrow> executor_target \<Rightarrow> unit res" where
  "skill_check k def current executor =
     (if opt_list (sd_requiredSkills def) = [] then Inr ()
      else (case sr_skillPreflight current of
          None \<Rightarrow> Inl (Error (''step '' @ k @ '' required Skills have not passed preflight''))
        | Some p \<Rightarrow>
            if sp_state p \<noteq> PreflightReady \<or> sp_missingRequiredSkills p \<noteq> []
            then Inl (Error (''step '' @ k @ '' required Skills have not passed preflight''))
            else guard_res (sp_executor p = Some executor)
              (Error (''step '' @ k @ '' Skill preflight recommends ''
                @ (case sp_executor p of None \<Rightarrow> ''no executor'' | Some e \<Rightarrow> executor_text e)
                @ '', not '' @ executor_text executor))))"

definition createAssignment :: "string \<Rightarrow> string \<Rightarrow> executor_target \<Rightarrow> string option \<Rightarrow> assignment store_eff" where
  "createAssignment tid k executor executorId =
     bnd (loadSnapshotRecord tid) (\<lambda>snap.
     with_definition snap k (\<lambda>def current.
     let rt0 = ds_runtime snap; status = tr_status (rt_task rt0) in
     bnd (require_that (status \<notin> {TCompleted, TCancelled, TFailed}) (Error ''cannot assign a terminal task'')) (\<lambda>_.
     bnd (lift_res (skill_check k def current executor)) (\<lambda>_.
     bnd (require_that (sr_status current = SReady \<or> sr_status current = SFixRequired)
       (Error (''step '' @ k @ '' is not assignable while '' @ step_status_text (sr_status current)))) (\<lambda>_.
     bnd (require_that (\<not> sr_attempt current \<ge> sd_maxAttempts def)
       (Error (''step '' @ k @ '' attempt budget exhausted''))) (\<lambda>_.
     bnd (require_that (dependencyReady def (stepMap rt0)) (Error ''step dependencies are not completed'')) (\<lambda>_.
     bnd (require_that (\<not> active_count rt0 \<ge> td_maxParallelSteps (wd_task (ds_definition snap)))
       (Error ''task parallel step capacity exhausted'')) (\<lambda>_.
     bnd (require_that (assignable_executor executor) (Error ''invalid assignment executor'')) (\<lambda>_.
     bnd (require_that (sd_executor def = AUTO \<or> sd_executor def = executor)
       (Error ''assignment executor does not match step'')) (\<lambda>_.
     bnd randomUUID (\<lambda>u.
     bnd now (\<lambda>createdAt.
     let asg = \<lparr>as_contract = ZERO3_EXECUTION_ASSIGNMENT, as_assignmentId = ''asg-'' @ u, as_taskId = tid,
           as_stepId = k, as_attempt = sr_attempt current + 1, as_executor = executor,
           as_executorId = executorId, as_createdAt = createdAt\<rparr> in
     bnd (lift_res (assertStepTransition (sr_status current) SDispatching)) (\<lambda>_.
     let rt1 = set_step k (\<lambda>s. s\<lparr>sr_status := SDispatching, sr_attempt := as_attempt asg,
           sr_assignmentId := Some (as_assignmentId asg), sr_blocker := None\<rparr>)
           (if status = TReady then set_task_status TRunning rt0 else rt0);
         rt2 = rt1\<lparr>rt_assignments := rt_assignments rt1 @ [asg]\<rparr> in
     bnd (commit snap rt2 (event_for tid (Some k) (Some (as_assignmentId asg)) EvAssignmentCreated
         [(''executor'', JStr (executor_text executor)), (''executorId'', str_opt_json executorId),
          (''attempt'', JNum (of_int (as_attempt asg)))] None)) (\<lambda>_.
     ret asg))))))))))))))"

section \<open>Session bindings\<close>

fun task_with_assignment :: "string \<Rightarrow> string list \<Rightarrow> string store_eff" where
  "task_with_assignment aid [] = throw (Error (''assignment not found: '' @ aid))"
| "task_with_assignment aid (t # ts) =
     bnd (loadSnapshotRecord t) (\<lambda>snap.
     if list_ex (\<lambda>a. as_assignmentId a = aid) (rt_assignments (ds_runtime snap)) then ret t
     else task_with_assignment aid ts)"

definition taskIdForAssignment :: "string \<Rightarrow> string store_eff" where
  "taskIdForAssignment aid = bnd listTaskIds (task_with_assignment aid)"

definition bindSession :: "string \<Rightarrow> bind_input \<Rightarrow> session_binding store_eff" where
  "bindSession aid inp =
     bnd (taskIdForAssignment aid) (\<lambda>tid.
     bnd (loadSnapshotRecord tid) (\<lambda>snap.
     (case find_key as_assignmentId aid (rt_assignments (ds_runtime snap)) of
        None \<Rightarrow> throw (Error (''assignment not found: '' @ aid))
      | Some asg \<Rightarrow>
     bnd (require_that (\<not> list_ex (\<lambda>b. sb_assignmentId b = aid \<and> sb_state b \<noteq> BClosed) (rt_sessionBindings (ds_runtime snap)))
       (Error (''assignment '' @ aid @ '' already has an active session binding''))) (\<lambda>_.
     bnd now (\<lambda>timestamp.
     bnd randomUUID (\<lambda>u.
     let binding = \<lparr>sb_contract = ZERO3_EXECUTION_SESSION_BINDING, sb_bindingId = ''bind-'' @ u, sb_taskId = tid,
           sb_stepId = as_stepId asg, sb_assignmentId = aid, sb_executor = as_executor asg,
           sb_logicalSessionId = trim (bi_logicalSessionId inp),
           sb_runtimeConversationId = trim_opt (bi_runtimeConversationId inp),
           sb_conversationUrl = trim_opt (bi_conversationUrl inp),
           sb_state = (case bi_state inp of None \<Rightarrow> BActive | Some s \<Rightarrow> s),
           sb_metadata = (case bi_metadata inp of None \<Rightarrow> [] | Some m \<Rightarrow> m),
           sb_createdAt = timestamp, sb_updatedAt = timestamp\<rparr> in
     bnd (require_that (sb_logicalSessionId binding \<noteq> []) (Error ''logicalSessionId is required'')) (\<lambda>_.
     bnd (commit snap ((ds_runtime snap)\<lparr>rt_sessionBindings := rt_sessionBindings (ds_runtime snap) @ [binding]\<rparr>)
         (event_for tid (Some (as_stepId asg)) (Some aid) EvSessionBound
           [(''bindingId'', JStr (sb_bindingId binding)), (''logicalSessionId'', JStr (sb_logicalSessionId binding)),
            (''executor'', JStr (executor_text (sb_executor binding)))] None)) (\<lambda>_.
     ret binding))))))))"

definition updateSessionBindingState :: "string \<Rightarrow> string \<Rightarrow> binding_state \<Rightarrow> session_binding store_eff" where
  "updateSessionBindingState tid bid state =
     bnd (loadSnapshotRecord tid) (\<lambda>snap.
     (case find_key sb_bindingId bid (rt_sessionBindings (ds_runtime snap)) of
        None \<Rightarrow> throw (Error (''session binding not found: '' @ bid))
      | Some binding \<Rightarrow>
     bnd (lift_res (assertSessionBindingTransition (sb_state binding) state)) (\<lambda>_.
     bnd now (\<lambda>at'.
     let updated = binding\<lparr>sb_state := state, sb_updatedAt := at'\<rparr> in
     bnd (commit snap ((ds_runtime snap)\<lparr>rt_sessionBindings :=
           map_key sb_bindingId bid (\<lambda>_. updated) (rt_sessionBindings (ds_runtime snap))\<rparr>)
         (event_for tid (Some (sb_stepId binding)) (Some (sb_assignmentId binding)) EvSessionStateChanged
           [(''bindingId'', JStr bid), (''from'', JStr (binding_state_text (sb_state binding))),
            (''to'', JStr (binding_state_text state))] None)) (\<lambda>_.
     ret updated)))))"

section \<open>Step transitions, progress and artifacts\<close>

definition requestCompletion :: "string \<Rightarrow> string \<Rightarrow> event_identity option \<Rightarrow> task_snapshot store_eff" where
  "requestCompletion tid k identity =
     bnd (loadSnapshotRecord tid) (\<lambda>snap.
     with_step snap k (\<lambda>current.
     bnd (require_that (drop_empty (sr_assignmentId current) \<noteq> None) (Error ''completion request requires an assignment'')) (\<lambda>_.
     bnd (require_that (\<not> (sr_status current \<notin> set ACTIVE_STEPS \<and>
         active_count (ds_runtime snap) \<ge> td_maxParallelSteps (wd_task (ds_definition snap))))
       (Error ''task parallel step capacity exhausted'')) (\<lambda>_.
     bnd (lift_res (assertStepTransition (sr_status current) SVerifying)) (\<lambda>_.
     bnd (commit snap (set_step k (\<lambda>s. s\<lparr>sr_status := SVerifying, sr_progress := max (sr_progress s) (95 / 100)\<rparr>) (ds_runtime snap))
         (event_for tid (Some k) (sr_assignmentId current) EvCompletionRequested
           (eventPayload [(''from'', JStr (step_status_text (sr_status current))), (''to'', JStr ''verifying'')] identity) identity)) (\<lambda>_.
     snapshot tid))))))"

definition step_event_type :: "step_status \<Rightarrow> event_type" where
  "step_event_type status = (case status of SWaitingHuman \<Rightarrow> EvWaitingHuman | SBlocked \<Rightarrow> EvBlocked
     | SOutcomeUnknown \<Rightarrow> EvOutcomeUnknown | _ \<Rightarrow> EvStepStateChanged)"

text \<open>When every step is completed or cancelled and one is cancelled, the task is cancelled too.\<close>

definition cancel_if_settled :: "string \<Rightarrow> runtime_state \<Rightarrow> runtime_state store_eff" where
  "cancel_if_settled tid rt =
     bnd (lift_res (assertTaskTransition (tr_status (rt_task rt)) TCancelled)) (\<lambda>_.
     appendEvent (set_task_status TCancelled rt) (event_for tid None None EvTaskStateChanged
       [(''from'', JStr (task_status_text (tr_status (rt_task rt)))), (''to'', JStr ''cancelled''),
        (''reason'', JStr ''all_steps_terminal'')] None))"

definition transitionStep :: "string \<Rightarrow> string \<Rightarrow> step_status \<Rightarrow> string option \<Rightarrow> event_identity option \<Rightarrow>
    task_snapshot store_eff" where
  "transitionStep tid k status reason identity =
     (if status = SCompleted then throw (Error ''step completion requires gatePassed'')
      else if status = SVerifying then requestCompletion tid k (Some \<lparr>
          id_eventId = Option.bind identity id_eventId,
          id_payload = Some (obj_spread (case Option.bind identity id_payload of None \<Rightarrow> [] | Some p \<Rightarrow> p) (reason_field reason))\<rparr>)
      else bnd (loadSnapshotRecord tid) (\<lambda>snap.
      with_step snap k (\<lambda>current.
      bnd (lift_res (assertStepTransition (sr_status current) status)) (\<lambda>_.
      bnd (require_that (\<not> (status = SReady \<and>
          \<not> (case find_key sd_stepId k (wd_steps (ds_definition snap)) of None \<Rightarrow> False
             | Some def \<Rightarrow> dependencyReady def (stepMap (ds_runtime snap)))))
        (Error ''step dependencies are not completed'')) (\<lambda>_.
      bnd (if status \<in> set ACTIVE_STEPS \<and> sr_status current \<notin> set ACTIVE_STEPS
        then bnd (require_that (drop_empty (sr_assignmentId current) \<noteq> None) (Error ''active step requires an assignment'')) (\<lambda>_.
          require_that (\<not> active_count (ds_runtime snap) \<ge> td_maxParallelSteps (wd_task (ds_definition snap)))
            (Error ''task parallel step capacity exhausted''))
        else ret ()) (\<lambda>_.
      let rt = set_step k (\<lambda>s. s\<lparr>sr_status := status,
            sr_blocker := (if status \<in> {SBlocked, SOutcomeUnknown, SFailed, SWaitingHuman}
              then (case reason of None \<Rightarrow> sr_blocker s | Some r \<Rightarrow> Some r) else None)\<rparr>) (ds_runtime snap) in
      bnd (appendEvent rt (event_for tid (Some k) (sr_assignmentId current) (step_event_type status)
          (eventPayload ([(''from'', JStr (step_status_text (sr_status current))), (''to'', JStr (step_status_text status))]
            @ reason_field reason) identity) identity)) (\<lambda>rt.
      let rt = refreshDerived rt in
      bnd (if tr_status (rt_task rt) \<noteq> TCancelled \<and> list_ex (\<lambda>s. sr_status s = SCancelled) (rt_steps rt) \<and>
            list_all (\<lambda>s. sr_status s \<in> {SCompleted, SCancelled}) (rt_steps rt)
        then cancel_if_settled tid rt else ret rt) (\<lambda>rt.
      bnd (writeSnapshot (ds_definition snap) rt) (\<lambda>_.
      snapshot tid)))))))))"

text \<open>Numbers of the caller that need not be finite.\<close>

datatype js_number = Finite rat | NotFinite

definition boundedProgress :: "js_number \<Rightarrow> rat res" where
  "boundedProgress v = (case v of NotFinite \<Rightarrow> Inl (Error ''progress must be finite'')
     | Finite q \<Rightarrow> Inr (max 0 (min 1 q)))"

definition recordProgress :: "string \<Rightarrow> string \<Rightarrow> js_number \<Rightarrow> string option \<Rightarrow> event_identity option \<Rightarrow>
    task_snapshot store_eff" where
  "recordProgress tid k progress currentActivity identity =
     bnd (loadSnapshotRecord tid) (\<lambda>snap.
     with_step snap k (\<lambda>current.
     bnd (require_that (sr_status current \<in> {SDispatching, SRunning, SWaitingReport, SFixRequired})
       (Error (''step '' @ k @ '' cannot report progress while '' @ step_status_text (sr_status current)))) (\<lambda>_.
     bnd (lift_res (boundedProgress progress)) (\<lambda>normalized.
     bnd (if sr_status current \<noteq> SRunning then lift_res (assertStepTransition (sr_status current) SRunning) else ret ()) (\<lambda>_.
     bnd (commit snap (set_step k (\<lambda>s. s\<lparr>sr_status := SRunning, sr_progress := normalized,
           sr_currentActivity := trim_opt currentActivity, sr_blocker := None\<rparr>) (ds_runtime snap))
         (event_for tid (Some k) (sr_assignmentId current) EvProgressUpdated
           (eventPayload [(''progress'', JNum normalized), (''currentActivity'', str_opt_json (trim_opt currentActivity)),
             (''fromStatus'', JStr (step_status_text (sr_status current))), (''toStatus'', JStr ''running'')] identity) identity)) (\<lambda>_.
     snapshot tid))))))"

definition recordArtifact :: "string \<Rightarrow> string \<Rightarrow> json_object \<Rightarrow> event_identity option \<Rightarrow> task_snapshot store_eff" where
  "recordArtifact tid k artifact identity =
     bnd (loadSnapshotRecord tid) (\<lambda>snap.
     with_step snap k (\<lambda>current.
     bnd (commit snap (ds_runtime snap) (event_for tid (Some k) (sr_assignmentId current) EvArtifactProduced
         (eventPayload artifact identity) identity)) (\<lambda>_.
     snapshot tid)))"


section \<open>The completion gate\<close>

definition HUMAN_REVIEW :: json where
  "HUMAN_REVIEW = JStr ''human_task_review''"

definition review_check :: "json_object \<Rightarrow> step_runtime \<Rightarrow> unit res" where
  "review_check evidence current =
     (if map_of evidence ''source'' \<noteq> Some HUMAN_REVIEW then Inr ()
      else if map_of evidence ''assignmentId'' \<noteq> Some (str_opt_json (sr_assignmentId current))
      then Inl (Error ''review assignment is stale; refresh the task'')
      else (case map_of evidence ''note'' of
          Some (JStr note) \<Rightarrow> guard_res (trim note \<noteq> []) (Error ''human review requires evidence'')
        | _ \<Rightarrow> Inl (Error ''human review requires evidence'')))"

text \<open>
  The size of the set of artifact ids of an output. Strings and numbers count once per value; an id that
  is an array or object is a fresh object of its event, so each counts.
\<close>

definition is_primitive :: "json \<Rightarrow> bool" where
  "is_primitive v = (case v of JArr _ \<Rightarrow> False | JObj _ \<Rightarrow> False | _ \<Rightarrow> True)"

definition js_set_size :: "json list \<Rightarrow> nat" where
  "js_set_size vs = length (remdups (filter is_primitive vs)) + length (filter (\<lambda>v. \<not> is_primitive v) vs)"

definition event_artifact_id :: "execution_event \<Rightarrow> json" where
  "event_artifact_id e = (case Option.bind (ev_payload e) (\<lambda>p. map_of p ''artifactId'') of
     None \<Rightarrow> JStr (ev_eventId e) | Some JNull \<Rightarrow> JStr (ev_eventId e) | Some v \<Rightarrow> v)"

definition artifact_events :: "string \<Rightarrow> string option \<Rightarrow> execution_event list \<Rightarrow> execution_event list" where
  "artifact_events k aid events = filter (\<lambda>e. ev_type e = EvArtifactProduced \<and> ev_stepId e = Some k \<and>
     ev_assignmentId e = aid \<and> aid \<noteq> None) events"

definition output_ids :: "execution_event list \<Rightarrow> expected_output \<Rightarrow> json list" where
  "output_ids artifacts out = map event_artifact_id (filter (\<lambda>e.
     Option.bind (ev_payload e) (\<lambda>p. map_of p ''logicalName'') = Some (JStr (eo_logicalName out))) artifacts)"

definition output_missing :: "execution_event list \<Rightarrow> expected_output \<Rightarrow> bool" where
  "output_missing artifacts out \<longleftrightarrow> int (js_set_size (output_ids artifacts out)) <
     (case eo_minCount out of None \<Rightarrow> 1 | Some n \<Rightarrow> n)"

definition outputs_check :: "execution_event list \<Rightarrow> expected_output list \<Rightarrow> unit res" where
  "outputs_check artifacts outs =
     (case List.find (output_missing artifacts) (filter eo_required outs) of
        None \<Rightarrow> Inr ()
      | Some out \<Rightarrow> Inl (Error (''missing required output: '' @ eo_logicalName out)))"

text \<open>One iteration of the loop that readies the dependents of the completed step.\<close>

definition ready_dependent :: "string \<Rightarrow> step_definition \<Rightarrow> runtime_state \<Rightarrow> runtime_state store_eff" where
  "ready_dependent tid step rt =
     (case stepMap rt (sd_stepId step) of
        None \<Rightarrow> throw missing_runtime
      | Some waiter \<Rightarrow>
          if sr_status waiter \<noteq> SWaitingDependency \<or> \<not> dependencyReady step (stepMap rt) then ret rt
          else appendEvent (set_step (sr_stepId waiter) (\<lambda>s. s\<lparr>sr_status := SReady\<rparr>) rt)
            (event_for tid (Some (sr_stepId waiter)) None EvStepStateChanged
              [(''from'', JStr ''waiting_dependency''), (''to'', JStr ''ready''),
               (''reason'', JStr ''dependency_completed'')] None))"

definition settle_task :: "string \<Rightarrow> runtime_state \<Rightarrow> runtime_state store_eff" where
  "settle_task tid rt =
     (if rt_steps rt \<noteq> [] \<and> list_all (\<lambda>s. sr_status s = SCompleted) (rt_steps rt)
      then bnd (lift_res (assertTaskTransition (tr_status (rt_task rt)) TCompleted)) (\<lambda>_.
        appendEvent (set_task_status TCompleted rt) (event_for tid None None EvTaskCompleted
          [(''completedStepIds'', strs_json (map sr_stepId (rt_steps rt)))] None))
      else if list_all (\<lambda>s. sr_status s \<in> {SCompleted, SCancelled}) (rt_steps rt)
      then cancel_if_settled tid rt
      else ret rt)"

definition gatePassed :: "string \<Rightarrow> string \<Rightarrow> json_object \<Rightarrow> task_snapshot store_eff" where
  "gatePassed tid k evidence =
     bnd (loadSnapshotRecord tid) (\<lambda>snap.
     with_step snap k (\<lambda>current.
     bnd (require_that (sr_status current = SVerifying) (Error ''completion gate requires a verifying step'')) (\<lambda>_.
     (case find_key sd_stepId k (wd_steps (ds_definition snap)) of
        None \<Rightarrow> throw (Error ''Cannot read properties of undefined (reading completionGate)'')
      | Some def \<Rightarrow>
     bnd (lift_res (review_check evidence current)) (\<lambda>_.
     bnd (if ''required_outputs'' \<in> set (sd_completionGate def) \<or> map_of evidence ''source'' = Some HUMAN_REVIEW
       then bnd (readEvents tid) (\<lambda>events.
         lift_res (outputs_check (artifact_events k (sr_assignmentId current) events) (sd_expectedOutputs def)))
       else ret ()) (\<lambda>_.
     bnd (lift_res (assertStepTransition (sr_status current) SCompleted)) (\<lambda>_.
     bnd (appendEvent (set_step k (\<lambda>s. s\<lparr>sr_status := SCompleted, sr_progress := 1, sr_currentActivity := None,
           sr_blocker := None\<rparr>) (ds_runtime snap))
         (event_for tid (Some k) (sr_assignmentId current) EvGatePassed evidence None)) (\<lambda>rt.
     bnd (for_each (wd_steps (ds_definition snap)) (ready_dependent tid) rt) (\<lambda>rt.
     bnd (settle_task tid rt) (\<lambda>rt.
     bnd (writeSnapshot (ds_definition snap) (refreshDerived rt)) (\<lambda>_.
     snapshot tid)))))))))))"

definition gateFailed :: "string \<Rightarrow> string \<Rightarrow> string \<Rightarrow> task_snapshot store_eff" where
  "gateFailed tid k reason =
     (let text = (if trim reason = [] then ''completion gate failed'' else trim reason) in
     bnd (loadSnapshotRecord tid) (\<lambda>snap.
     with_step snap k (\<lambda>current.
     bnd (require_that (sr_status current = SVerifying) (Error ''completion gate requires a verifying step'')) (\<lambda>_.
     bnd (lift_res (assertStepTransition (sr_status current) SFixRequired)) (\<lambda>_.
     bnd (commit snap (set_step k (\<lambda>s. s\<lparr>sr_status := SFixRequired, sr_blocker := Some text\<rparr>) (ds_runtime snap))
         (event_for tid (Some k) (sr_assignmentId current) EvGateFailed [(''reason'', JStr text)] None)) (\<lambda>_.
     snapshot tid))))))"

section \<open>Archiving and deleting\<close>

definition setTaskArchived :: "string \<Rightarrow> bool \<Rightarrow> task_snapshot store_eff" where
  "setTaskArchived tid archived =
     bnd (loadSnapshotRecord tid) (\<lambda>snap.
     bnd (readArchive tid) (\<lambda>current.
     if ar_archived current = archived then snapshot tid
     else bnd now (\<lambda>at'.
     bnd (writeArchive tid archived at') (\<lambda>_.
     bnd (commit snap (ds_runtime snap) \<lparr>ei_taskId = tid, ei_stepId = None, ei_assignmentId = None,
         ei_type = (if archived then EvTaskArchived else EvTaskUnarchived),
         ei_payload = Some [(''title'', JStr (td_title (wd_task (ds_definition snap))))],
         ei_eventId = None, ei_at = Some at'\<rparr>) (\<lambda>_.
     snapshot tid)))))"

text \<open>The message of \<open>deleteTask\<close> is Chinese in the source; it is given in English here.\<close>

definition deleteTask :: "string \<Rightarrow> unit store_eff" where
  "deleteTask tid =
     bnd (loadSnapshotRecord tid) (\<lambda>snap.
     bnd (require_that (active_count (ds_runtime snap) = 0)
       (Error (''task still has '' @ int_text (active_count (ds_runtime snap)) @ '' active steps''))) (\<lambda>_.
     deleteTask_store tid))"

section \<open>The operations as one step\<close>

datatype exec_op =
    CreateTask task_draft "step_draft list"
  | AddSteps string "step_draft list"
  | TransitionTask string task_status "string option"
  | ReconcileReadiness string
  | RecordSkillPreflight string string skill_preflight
  | CreateAssignment string string executor_target "string option"
  | BindSession string bind_input
  | UpdateSessionBindingState string string binding_state
  | TransitionStep string string step_status "string option" "event_identity option"
  | RecordProgress string string js_number "string option" "event_identity option"
  | RecordArtifact string string json_object "event_identity option"
  | RequestCompletion string string "event_identity option"
  | GatePassed string string json_object
  | GateFailed string string string
  | SetTaskArchived string bool
  | DeleteTask string
  | Reconcile string

fun run_op :: "exec_op \<Rightarrow> unit store_eff" where
  "run_op (CreateTask d ds) = bnd (createTask d ds) (\<lambda>_. ret ())"
| "run_op (AddSteps t ds) = bnd (addSteps t ds) (\<lambda>_. ret ())"
| "run_op (TransitionTask t s r) = bnd (transitionTask t s r) (\<lambda>_. ret ())"
| "run_op (ReconcileReadiness t) = bnd (reconcileReadiness t) (\<lambda>_. ret ())"
| "run_op (RecordSkillPreflight t k p) = bnd (recordSkillPreflight t k p) (\<lambda>_. ret ())"
| "run_op (CreateAssignment t k e x) = bnd (createAssignment t k e x) (\<lambda>_. ret ())"
| "run_op (BindSession a i) = bnd (bindSession a i) (\<lambda>_. ret ())"
| "run_op (UpdateSessionBindingState t b s) = bnd (updateSessionBindingState t b s) (\<lambda>_. ret ())"
| "run_op (TransitionStep t k s r i) = bnd (transitionStep t k s r i) (\<lambda>_. ret ())"
| "run_op (RecordProgress t k p a i) = bnd (recordProgress t k p a i) (\<lambda>_. ret ())"
| "run_op (RecordArtifact t k a i) = bnd (recordArtifact t k a i) (\<lambda>_. ret ())"
| "run_op (RequestCompletion t k i) = bnd (requestCompletion t k i) (\<lambda>_. ret ())"
| "run_op (GatePassed t k e) = bnd (gatePassed t k e) (\<lambda>_. ret ())"
| "run_op (GateFailed t k r) = bnd (gateFailed t k r) (\<lambda>_. ret ())"
| "run_op (SetTaskArchived t a) = bnd (setTaskArchived t a) (\<lambda>_. ret ())"
| "run_op (DeleteTask t) = deleteTask t"
| "run_op (Reconcile t) = bnd (reconcile t) (\<lambda>_. ret ())"

definition apply_op :: "exec_op \<Rightarrow> world \<Rightarrow> world" where
  "apply_op op w = snd (run_op op w)"

end
