(* ===== verification/ExecutionMachine.thy ===== *)
theory ExecutionMachine
  imports ExecutionRuntime "HOL-Library.Multiset"
begin

text \<open>
  The specification of the execution runtime: what an operation may do to one task, with files, ids,
  clocks, progress values and messages abstracted away. A task is its step definitions, its parallel
  limit and, per step, the status, the current assignment and the number of attempts.

  \<open>a_move\<close> is the step relation, in two versions. The code lets \<open>recordProgress\<close> resume a step that
  waits for a fix without the checks every other way into an active status makes; the strict relation
  leaves this move out. The invariants below hold for both or for the strict one, as named.
\<close>

section \<open>Abstract tasks\<close>

record a_step =
  ax_id :: string
  ax_status :: step_status
  ax_assigned :: "string option"
  ax_attempt :: int

record a_task =
  at_defs :: "step_definition list"
  at_limit :: int
  at_status :: task_status
  at_steps :: "a_step list"
  at_asgs :: "string list"  \<comment> \<open>the step of every assignment made\<close>

definition abs_step :: "step_runtime \<Rightarrow> a_step" where
  "abs_step r = \<lparr>ax_id = sr_stepId r, ax_status = sr_status r, ax_assigned = sr_assignmentId r, ax_attempt = sr_attempt r\<rparr>"

definition abs_task :: "workflow_definition \<Rightarrow> runtime_state \<Rightarrow> a_task" where
  "abs_task def rt = \<lparr>at_defs = wd_steps def, at_limit = td_maxParallelSteps (wd_task def),
     at_status = tr_status (rt_task rt), at_steps = map abs_step (rt_steps rt),
     at_asgs = map as_stepId (rt_assignments rt)\<rparr>"

definition put_step :: "string \<Rightarrow> (a_step \<Rightarrow> a_step) \<Rightarrow> a_task \<Rightarrow> a_task" where
  "put_step k f t = t\<lparr>at_steps := map_key ax_id k f (at_steps t)\<rparr>"

definition done_in :: "a_task \<Rightarrow> string \<Rightarrow> bool" where
  "done_in t k \<longleftrightarrow> (\<exists>s \<in> set (at_steps t). ax_id s = k \<and> ax_status s = SCompleted)"

definition deps_done :: "a_task \<Rightarrow> step_definition \<Rightarrow> bool" where
  "deps_done t d \<longleftrightarrow> (\<forall>x \<in> set (sd_dependsOn d). done_in t x)"

definition running_steps :: "a_task \<Rightarrow> nat" where
  "running_steps t = length (filter (\<lambda>s. ax_status s \<in> set ACTIVE_STEPS) (at_steps t))"

definition outputs_met :: "execution_event list \<Rightarrow> step_definition \<Rightarrow> string option \<Rightarrow> bool" where
  "outputs_met es d aid \<longleftrightarrow> ''required_outputs'' \<in> set (sd_completionGate d) \<longrightarrow>
     (\<forall>out \<in> set (sd_expectedOutputs d). eo_required out \<longrightarrow>
        \<not> output_missing (artifact_events (sd_stepId d) aid es) out)"

definition fresh_step :: "string list \<Rightarrow> step_definition \<Rightarrow> a_step" where
  "fresh_step completed d = \<lparr>ax_id = sd_stepId d,
     ax_status = (if set (sd_dependsOn d) \<subseteq> set completed then SReady else SWaitingDependency),
     ax_assigned = None, ax_attempt = 0\<rparr>"

section \<open>Moves\<close>

inductive a_move :: "bool \<Rightarrow> execution_event list \<Rightarrow> a_task \<Rightarrow> a_task \<Rightarrow> bool" for strict es where
  task_move: "isValidTaskTransition (at_status t) st \<Longrightarrow> a_move strict es t (t\<lparr>at_status := st\<rparr>)"
| step_move: "\<lbrakk>s \<in> set (at_steps t); ax_id s = k; isValidStepTransition (ax_status s) st;
     st \<noteq> SCompleted; st \<noteq> SVerifying;
     st = SReady \<Longrightarrow> \<exists>d \<in> set (at_defs t). sd_stepId d = k \<and> deps_done t d;
     st \<in> set ACTIVE_STEPS \<Longrightarrow> ax_status s \<notin> set ACTIVE_STEPS \<Longrightarrow>
       ax_assigned s \<noteq> None \<and> int (running_steps t) < at_limit t\<rbrakk> \<Longrightarrow>
     a_move strict es t (put_step k (\<lambda>s. s\<lparr>ax_status := st\<rparr>) t)"
| assign: "\<lbrakk>s \<in> set (at_steps t); ax_id s = k; d \<in> set (at_defs t); sd_stepId d = k;
     at_status t \<notin> {TCompleted, TCancelled, TFailed}; ax_status s = SReady \<or> ax_status s = SFixRequired;
     ax_attempt s < sd_maxAttempts d; deps_done t d; int (running_steps t) < at_limit t\<rbrakk> \<Longrightarrow>
     a_move strict es t ((put_step k (\<lambda>s. s\<lparr>ax_status := SDispatching, ax_assigned := Some aid,
         ax_attempt := ax_attempt s + 1\<rparr>) t)\<lparr>at_asgs := at_asgs t @ [k],
       at_status := (if at_status t = TReady then TRunning else at_status t)\<rparr>)"
| progress: "\<lbrakk>s \<in> set (at_steps t); ax_id s = k;
     ax_status s \<in> {SDispatching, SRunning, SWaitingReport, SFixRequired};
     strict \<Longrightarrow> ax_status s \<noteq> SFixRequired\<rbrakk> \<Longrightarrow>
     a_move strict es t (put_step k (\<lambda>s. s\<lparr>ax_status := SRunning\<rparr>) t)"
| verify: "\<lbrakk>s \<in> set (at_steps t); ax_id s = k; isValidStepTransition (ax_status s) SVerifying;
     ax_assigned s \<noteq> None; ax_status s \<notin> set ACTIVE_STEPS \<Longrightarrow> int (running_steps t) < at_limit t\<rbrakk> \<Longrightarrow>
     a_move strict es t (put_step k (\<lambda>s. s\<lparr>ax_status := SVerifying\<rparr>) t)"
| complete: "\<lbrakk>s \<in> set (at_steps t); ax_id s = k; d \<in> set (at_defs t); sd_stepId d = k;
     ax_status s = SVerifying; outputs_met es d (ax_assigned s)\<rbrakk> \<Longrightarrow>
     a_move strict es t (put_step k (\<lambda>s. s\<lparr>ax_status := SCompleted\<rparr>) t)"
| extend: "\<lbrakk>distinct (map sd_stepId (at_defs t @ ds)); at_status t \<noteq> TCompleted; at_status t \<noteq> TCancelled;
     set completed = {x. done_in t x}\<rbrakk> \<Longrightarrow>
     a_move strict es t (t\<lparr>at_defs := at_defs t @ ds, at_steps := at_steps t @ map (fresh_step completed) ds\<rparr>)"

inductive a_runs :: "bool \<Rightarrow> execution_event list \<Rightarrow> a_task \<Rightarrow> a_task \<Rightarrow> bool" for strict es where
  stay: "a_runs strict es t t"
| move: "a_runs strict es t u \<Longrightarrow> a_move strict es u v \<Longrightarrow> a_runs strict es t v"

lemma a_runs_one: "a_move strict es t u \<Longrightarrow> a_runs strict es t u"
  by (rule a_runs.move [OF a_runs.stay])

lemma a_runs_trans: "a_runs strict es u v \<Longrightarrow> a_runs strict es t u \<Longrightarrow> a_runs strict es t v"
  by (induction rule: a_runs.induct) (auto intro: a_runs.move)

section \<open>Invariants\<close>

definition ids_inv :: "a_task \<Rightarrow> bool" where
  "ids_inv t \<longleftrightarrow> distinct (map ax_id (at_steps t)) \<and> distinct (map sd_stepId (at_defs t)) \<and>
     ax_id ` set (at_steps t) = sd_stepId ` set (at_defs t)"

text \<open>The statuses a step reaches only when it may run.\<close>

definition cleared_status :: "step_status list" where
  "cleared_status = [SReady, SDispatching, SVerifying, SCompleted]"

definition deps_inv :: "a_task \<Rightarrow> bool" where
  "deps_inv t \<longleftrightarrow> (\<forall>s \<in> set (at_steps t). \<forall>d \<in> set (at_defs t). sd_stepId d = ax_id s \<longrightarrow>
     ax_status s \<in> set cleared_status \<or> ax_assigned s \<noteq> None \<longrightarrow> deps_done t d)"

definition assigned_inv :: "a_task \<Rightarrow> bool" where
  "assigned_inv t \<longleftrightarrow> (\<forall>s \<in> set (at_steps t).
     ax_status s \<in> {SDispatching, SVerifying, SCompleted} \<longrightarrow> ax_assigned s \<noteq> None)"

definition attempts_inv :: "a_task \<Rightarrow> bool" where
  "attempts_inv t \<longleftrightarrow> set (at_asgs t) \<subseteq> sd_stepId ` set (at_defs t) \<and>
     (\<forall>s \<in> set (at_steps t). ax_attempt s = int (count_list (at_asgs t) (ax_id s)) \<and>
       (\<forall>d \<in> set (at_defs t). sd_stepId d = ax_id s \<longrightarrow>
         int (count_list (at_asgs t) (ax_id s)) \<le> max 0 (sd_maxAttempts d)))"

definition outputs_inv :: "execution_event list \<Rightarrow> a_task \<Rightarrow> bool" where
  "outputs_inv es t \<longleftrightarrow> (\<forall>s \<in> set (at_steps t). \<forall>d \<in> set (at_defs t). sd_stepId d = ax_id s \<longrightarrow>
     ax_status s = SCompleted \<longrightarrow> outputs_met es d (ax_assigned s))"

definition active_inv :: "a_task \<Rightarrow> bool" where
  "active_inv t \<longleftrightarrow> (\<forall>s \<in> set (at_steps t). ax_status s \<in> set ACTIVE_STEPS \<longrightarrow> ax_assigned s \<noteq> None)"

definition capacity_inv :: "a_task \<Rightarrow> bool" where
  "capacity_inv t \<longleftrightarrow> int (running_steps t) \<le> max 0 (at_limit t)"

definition common_inv :: "execution_event list \<Rightarrow> a_task \<Rightarrow> bool" where
  "common_inv es t \<longleftrightarrow> ids_inv t \<and> deps_inv t \<and> assigned_inv t \<and> attempts_inv t \<and> outputs_inv es t"

definition strict_inv :: "a_task \<Rightarrow> bool" where
  "strict_inv t \<longleftrightarrow> active_inv t \<and> capacity_inv t"


section \<open>Updating one step\<close>

lemma put_step_simps [simp]:
  "at_defs (put_step k f t) = at_defs t" "at_limit (put_step k f t) = at_limit t"
  "at_status (put_step k f t) = at_status t" "at_asgs (put_step k f t) = at_asgs t"
  "at_steps (put_step k f t) = map_key ax_id k f (at_steps t)"
  by (simp_all add: put_step_def)

lemma ids_invD:
  "ids_inv t \<Longrightarrow> s \<in> set (at_steps t) \<Longrightarrow> s' \<in> set (at_steps t) \<Longrightarrow> ax_id s = ax_id s' \<Longrightarrow> s = s'"
  by (auto simp: ids_inv_def distinct_map inj_on_def)

lemma ids_inv_def_unique:
  "ids_inv t \<Longrightarrow> d \<in> set (at_defs t) \<Longrightarrow> d' \<in> set (at_defs t) \<Longrightarrow> sd_stepId d = sd_stepId d' \<Longrightarrow> d = d'"
  by (auto simp: ids_inv_def distinct_map inj_on_def)

lemma new_ids:
  assumes "ids_inv t" "distinct (map sd_stepId (at_defs t @ ds))" "s \<in> set (at_steps t)" "d \<in> set ds"
  shows "sd_stepId d \<noteq> ax_id s"
proof -
  have "ax_id s \<in> sd_stepId ` set (at_defs t)" using assms(1,3) by (auto simp: ids_inv_def)
  moreover have "sd_stepId ` set (at_defs t) \<inter> sd_stepId ` set ds = {}" using assms(2) by auto
  ultimately show ?thesis using assms(4) by (metis IntI empty_iff imageI)
qed

lemma all_put_step:
  assumes "ids_inv t" "s \<in> set (at_steps t)" "ax_id s = k"
  shows "(\<forall>y \<in> set (map_key ax_id k f (at_steps t)). P y) \<longleftrightarrow>
    P (f s) \<and> (\<forall>y \<in> set (at_steps t). ax_id y \<noteq> k \<longrightarrow> P y)"
  using assms ids_invD [OF assms(1)] by (auto simp: map_key_def)

lemma ids_inv_put_step:
  assumes "ids_inv t" "\<And>s. ax_id (f s) = ax_id s"
  shows "ids_inv (put_step k f t)"
proof -
  have m: "map ax_id (map_key ax_id k f (at_steps t)) = map ax_id (at_steps t)"
    by (rule map_map_key) (rule assms(2))
  then have "ax_id ` set (map_key ax_id k f (at_steps t)) = ax_id ` set (at_steps t)"
    by (metis set_map)
  with m assms(1) show ?thesis by (simp add: ids_inv_def)
qed

lemma done_in_put_step:
  assumes "ids_inv t" "s \<in> set (at_steps t)" "ax_id s = k" "\<And>s. ax_id (f s) = ax_id s"
    and "ax_status s = SCompleted \<longrightarrow> ax_status (f s) = SCompleted" "done_in t x"
  shows "done_in (put_step k f t) x"
proof -
  obtain y where y: "y \<in> set (at_steps t)" "ax_id y = x" "ax_status y = SCompleted"
    using assms(6) by (auto simp: done_in_def)
  show ?thesis
  proof (cases "x = k")
    case True
    with y assms(2,3) ids_invD [OF assms(1)] have "y = s" by blast
    with y assms(3-5) True have "f s \<in> set (map_key ax_id k f (at_steps t))"
        "ax_id (f s) = x" "ax_status (f s) = SCompleted"
      by (auto simp: in_map_key)
    then show ?thesis by (auto simp: done_in_def)
  next
    case False
    with y have "y \<in> set (map_key ax_id k f (at_steps t))" by (auto simp: in_map_key)
    with y show ?thesis by (auto simp: done_in_def)
  qed
qed

lemma deps_done_mono: "(\<And>x. done_in t x \<Longrightarrow> done_in u x) \<Longrightarrow> deps_done t d \<Longrightarrow> deps_done u d"
  by (auto simp: deps_done_def)

lemma step_valid_from_completed:
  "isValidStepTransition SCompleted st \<longleftrightarrow> st = SCompleted"
  by (auto simp: isValidStepTransition_def)

text \<open>The new task of every move keeps the ids and what is completed.\<close>

lemma frame_simps [simp]:
  "ids_inv (t\<lparr>at_status := st\<rparr>) = ids_inv t" "ids_inv (t\<lparr>at_asgs := as\<rparr>) = ids_inv t"
  "done_in (t\<lparr>at_status := st\<rparr>) x = done_in t x" "done_in (t\<lparr>at_asgs := as\<rparr>) x = done_in t x"
  "deps_done (t\<lparr>at_status := st\<rparr>) d = deps_done t d" "deps_done (t\<lparr>at_asgs := as\<rparr>) d = deps_done t d"
  "deps_inv (t\<lparr>at_status := st\<rparr>) = deps_inv t" "deps_inv (t\<lparr>at_asgs := as\<rparr>) = deps_inv t"
  "assigned_inv (t\<lparr>at_status := st\<rparr>) = assigned_inv t" "assigned_inv (t\<lparr>at_asgs := as\<rparr>) = assigned_inv t"
  "outputs_inv es (t\<lparr>at_status := st\<rparr>) = outputs_inv es t" "outputs_inv es (t\<lparr>at_asgs := as\<rparr>) = outputs_inv es t"
  "active_inv (t\<lparr>at_status := st\<rparr>) = active_inv t" "active_inv (t\<lparr>at_asgs := as\<rparr>) = active_inv t"
  "capacity_inv (t\<lparr>at_status := st\<rparr>) = capacity_inv t" "capacity_inv (t\<lparr>at_asgs := as\<rparr>) = capacity_inv t"
  "attempts_inv (t\<lparr>at_status := st\<rparr>) = attempts_inv t"
  by (simp_all add: ids_inv_def done_in_def deps_done_def deps_inv_def assigned_inv_def outputs_inv_def
      active_inv_def capacity_inv_def running_steps_def attempts_inv_def)

lemma a_move_ids:
  assumes "a_move strict es t u" "ids_inv t"
  shows "ids_inv u"
  using assms
proof cases
  case (extend ds completed)
  have "map ax_id (map (fresh_step completed) ds) = map sd_stepId ds"
    by (simp add: fresh_step_def comp_def)
  then show ?thesis using extend assms(2)
    by (auto simp: ids_inv_def fresh_step_def comp_def image_Un image_image)
qed (auto intro!: ids_inv_put_step)

lemma a_move_done:
  assumes "a_move strict es t u" "ids_inv t" "done_in t x"
  shows "done_in u x"
  using assms
proof cases
  case (extend ds completed)
  then show ?thesis using assms(3) by (auto simp: done_in_def)
qed (auto intro!: done_in_put_step [OF assms(2)] simp: step_valid_from_completed)

lemma a_move_deps_done: "a_move strict es t u \<Longrightarrow> ids_inv t \<Longrightarrow> deps_done t d \<Longrightarrow> deps_done u d"
  by (rule deps_done_mono) (rule a_move_done)

section \<open>Preservation\<close>

text \<open>
  Every move but \<open>task_move\<close> and \<open>extend\<close> updates one step. For an invariant that is a property of each
  step, it is enough to look at the new step and to keep the property of the others.
\<close>

lemma deps_inv_put_step:
  assumes "ids_inv t" "s \<in> set (at_steps t)" "ax_id s = k" "ax_id (f s) = k" "deps_inv t"
    and "\<And>d. deps_done t d \<Longrightarrow> deps_done (put_step k f t) d"
    and "\<And>d. d \<in> set (at_defs t) \<Longrightarrow> sd_stepId d = k \<Longrightarrow>
      ax_status (f s) \<in> set cleared_status \<or> ax_assigned (f s) \<noteq> None \<Longrightarrow> deps_done t d"
  shows "deps_inv (put_step k f t)"
  unfolding deps_inv_def put_step_simps
  using assms(4-7) by (subst all_put_step [OF assms(1-3)]) (auto simp: deps_inv_def)

lemma a_move_deps_inv:
  assumes m: "a_move strict es t u" and inv: "ids_inv t" "deps_inv t" "assigned_inv t"
  shows "deps_inv u"
  using m
proof cases
  case (step_move s k st)
  show ?thesis unfolding step_move(1)
  proof (rule deps_inv_put_step [OF inv(1) step_move(2,3) _ inv(2)])
    show "deps_done (put_step k (ax_status_update (\<lambda>_. st)) t) d" if "deps_done t d" for d
      using a_move_deps_done [OF m inv(1) that] step_move(1) by simp
    show "deps_done t d"
      if d: "d \<in> set (at_defs t)" "sd_stepId d = k"
        and cl: "ax_status (s\<lparr>ax_status := st\<rparr>) \<in> set cleared_status \<or> ax_assigned (s\<lparr>ax_status := st\<rparr>) \<noteq> None" for d
    proof (cases "ax_assigned s = None")
      case True
      with cl step_move(5,6) have "st = SReady \<or> st = SDispatching" by (auto simp: cleared_status_def)
      then show ?thesis
      proof
        assume "st = SReady"
        with step_move(7) obtain d' where "d' \<in> set (at_defs t)" "sd_stepId d' = k" "deps_done t d'" by blast
        with d ids_inv_def_unique [OF inv(1)] show ?thesis by metis
      next
        assume st: "st = SDispatching"
        with True step_move(8) have "ax_status s \<in> set ACTIVE_STEPS" by (auto simp: ACTIVE_STEPS_def)
        with st step_move(4) True inv(3) step_move(2) show ?thesis
          by (auto simp: ACTIVE_STEPS_def isValidStepTransition_def assigned_inv_def)
      qed
    next
      case False
      with inv(2) step_move(2,3) d show ?thesis by (auto simp: deps_inv_def)
    qed
  qed (simp add: step_move(3))
next
  case (assign s k d aid)
  let ?f = "\<lambda>s. s\<lparr>ax_status := SDispatching, ax_assigned := Some aid, ax_attempt := ax_attempt s + 1\<rparr>"
  have "deps_inv (put_step k ?f t)"
  proof (rule deps_inv_put_step [OF inv(1) assign(2,3) _ inv(2)])
    show "deps_done (put_step k ?f t) d'" if "deps_done t d'" for d'
      using a_move_deps_done [OF m inv(1) that] assign(1) by simp
    show "deps_done t d'" if "d' \<in> set (at_defs t)" "sd_stepId d' = k" for d'
      using ids_inv_def_unique [OF inv(1) that(1) assign(4)] that assign(5,9) by simp
  qed (simp add: assign(3))
  with assign(1) show ?thesis by simp
next
  case (progress s k)
  show ?thesis unfolding progress(1)
  proof (rule deps_inv_put_step [OF inv(1) progress(2,3) _ inv(2)])
    show "deps_done (put_step k (ax_status_update (\<lambda>_. SRunning)) t) d" if "deps_done t d" for d
      using a_move_deps_done [OF m inv(1) that] progress(1) by simp
  qed (use inv(2) progress(2,3) in \<open>auto simp: deps_inv_def cleared_status_def\<close>)
next
  case (verify s k)
  show ?thesis unfolding verify(1)
  proof (rule deps_inv_put_step [OF inv(1) verify(2,3) _ inv(2)])
    show "deps_done (put_step k (ax_status_update (\<lambda>_. SVerifying)) t) d" if "deps_done t d" for d
      using a_move_deps_done [OF m inv(1) that] verify(1) by simp
  qed (use inv(2) verify(2,3,5) in \<open>auto simp: deps_inv_def\<close>)
next
  case (complete s k d)
  show ?thesis unfolding complete(1)
  proof (rule deps_inv_put_step [OF inv(1) complete(2,3) _ inv(2)])
    show "deps_done (put_step k (ax_status_update (\<lambda>_. SCompleted)) t) d'" if "deps_done t d'" for d'
      using a_move_deps_done [OF m inv(1) that] complete(1) by simp
  qed (use inv(2) complete(2,3,6) in \<open>auto simp: deps_inv_def cleared_status_def\<close>)
next
  case (extend ds completed)
  have old: "x \<notin> sd_stepId ` set (at_defs t)" if "x \<in> sd_stepId ` set ds" for x
    using extend(2) that by auto
  show ?thesis
    unfolding deps_inv_def
  proof (intro ballI impI)
    fix s d
    assume s: "s \<in> set (at_steps u)" and d: "d \<in> set (at_defs u)" "sd_stepId d = ax_id s"
      and cl: "ax_status s \<in> set cleared_status \<or> ax_assigned s \<noteq> None"
    have "deps_done t d"
    proof (cases "s \<in> set (at_steps t)")
      case True
      then have "ax_id s \<in> sd_stepId ` set (at_defs t)" using inv(1) by (auto simp: ids_inv_def)
      then have "d \<notin> set ds" using d(2) old by (metis image_eqI)
      with d(1) have "d \<in> set (at_defs t)" unfolding extend(1) by simp
      with True d(2) cl inv(2) show ?thesis by (auto simp: deps_inv_def)
    next
      case False
      with s extend(1) obtain d' where d': "d' \<in> set ds" "s = fresh_step completed d'" by auto
      then have "sd_stepId d = sd_stepId d'" using d(2) by (simp add: fresh_step_def)
      moreover have "d \<in> set (at_defs t @ ds)" "d' \<in> set (at_defs t @ ds)" using d(1) d'(1) extend(1) by simp_all
      ultimately have "d = d'" using extend(2) unfolding distinct_map inj_on_def by blast
      with d'(2) cl have "set (sd_dependsOn d) \<subseteq> set completed"
        by (auto simp: fresh_step_def cleared_status_def split: if_splits)
      with extend(5) show ?thesis by (auto simp: deps_done_def)
    qed
    then show "deps_done u d" by (rule a_move_deps_done [OF m inv(1)])
  qed
qed (simp add: inv)


lemma a_move_assigned_inv:
  assumes "a_move strict es t u" "ids_inv t" "assigned_inv t"
  shows "assigned_inv u"
  using assms
proof cases
  case (step_move s k st)
  have "ax_assigned s \<noteq> None" if "st = SDispatching"
    using step_move(2,4,8) assms(3) that
    by (cases "ax_status s") (auto simp: assigned_inv_def ACTIVE_STEPS_def isValidStepTransition_def)
  then show ?thesis
    unfolding step_move(1) assigned_inv_def put_step_simps
    using assms(3) step_move(5,6) by (subst all_put_step [OF assms(2) step_move(2,3)]) (auto simp: assigned_inv_def)
next
  case (extend ds completed)
  then show ?thesis using assms(3) by (auto simp: assigned_inv_def fresh_step_def split: if_splits)
next
  case (complete s k d)
  then show ?thesis
    unfolding complete(1) assigned_inv_def put_step_simps
    using assms(3) by (subst all_put_step [OF assms(2) complete(2,3)]) (auto simp: assigned_inv_def)
next
  case (progress s k)
  then show ?thesis
    unfolding progress(1) assigned_inv_def put_step_simps
    using assms(3) by (subst all_put_step [OF assms(2) progress(2,3)]) (auto simp: assigned_inv_def)
next
  case (verify s k)
  then show ?thesis
    unfolding verify(1) assigned_inv_def put_step_simps
    using assms(3) by (subst all_put_step [OF assms(2) verify(2,3)]) (auto simp: assigned_inv_def)
next
  case (assign s k d aid)
  have "assigned_inv (put_step k (\<lambda>s. s\<lparr>ax_status := SDispatching, ax_assigned := Some aid,
      ax_attempt := ax_attempt s + 1\<rparr>) t)"
    unfolding assigned_inv_def put_step_simps
    using assms(3) by (subst all_put_step [OF assms(2) assign(2,3)]) (auto simp: assigned_inv_def)
  with assign(1) show ?thesis by simp
qed simp

text \<open>Only \<open>assign\<close> changes an attempt counter, and it records the assignment it counts.\<close>

lemma attempts_inv_same:
  assumes "attempts_inv t" "\<And>s. ax_id (f s) = ax_id s" "\<And>s. ax_attempt (f s) = ax_attempt s"
  shows "attempts_inv (put_step k f t)"
  using assms unfolding attempts_inv_def by (auto simp: in_map_key)

lemma a_move_attempts_inv:
  assumes "a_move strict es t u" "ids_inv t" "attempts_inv t"
  shows "attempts_inv u"
  using assms
proof cases
  case (assign s k d aid)
  let ?f = "\<lambda>s. s\<lparr>ax_status := SDispatching, ax_assigned := Some aid, ax_attempt := ax_attempt s + 1\<rparr>"
  have bound: "ax_attempt s + 1 \<le> max 0 (sd_maxAttempts d')"
    if "d' \<in> set (at_defs t)" "sd_stepId d' = k" for d'
    using ids_inv_def_unique [OF assms(2) that(1) assign(4)] that assign(5,8) by simp
  have "\<forall>y \<in> set (map_key ax_id k ?f (at_steps t)).
      ax_attempt y = int (count_list (at_asgs t @ [k]) (ax_id y)) \<and>
      (\<forall>d \<in> set (at_defs t). sd_stepId d = ax_id y \<longrightarrow>
        int (count_list (at_asgs t @ [k]) (ax_id y)) \<le> max 0 (sd_maxAttempts d))"
    unfolding all_put_step [OF assms(2) assign(2,3)]
  proof (intro conjI ballI impI)
    show "ax_attempt (?f s) = int (count_list (at_asgs t @ [k]) (ax_id (?f s)))"
      using assms(3) assign(2,3) by (simp add: attempts_inv_def)
    show "int (count_list (at_asgs t @ [k]) (ax_id (?f s))) \<le> max 0 (sd_maxAttempts d')"
      if "d' \<in> set (at_defs t)" "sd_stepId d' = ax_id (?f s)" for d'
      using bound [OF that(1)] that(2) assms(3) assign(2,3) by (simp add: attempts_inv_def)
    show "ax_attempt y = int (count_list (at_asgs t @ [k]) (ax_id y))"
      if "y \<in> set (at_steps t)" "ax_id y \<noteq> k" for y
      using assms(3) that by (simp add: attempts_inv_def)
    show "int (count_list (at_asgs t @ [k]) (ax_id y)) \<le> max 0 (sd_maxAttempts d')"
      if "y \<in> set (at_steps t)" "ax_id y \<noteq> k" "d' \<in> set (at_defs t)" "sd_stepId d' = ax_id y" for y d'
      using assms(3) that by (simp add: attempts_inv_def)
  qed
  moreover have "set (at_asgs t @ [k]) \<subseteq> sd_stepId ` set (at_defs t)"
    using assms(3) assign(4,5) by (auto simp: attempts_inv_def)
  ultimately show ?thesis
    unfolding assign(1) attempts_inv_def by simp
next
  case (extend ds completed)
  have "count_list (at_asgs t) (sd_stepId d) = 0" if "d \<in> set ds" for d
    using assms(3) extend(2) that by (intro count_notin) (auto simp: attempts_inv_def)
  moreover have "\<forall>s \<in> set (at_steps t). \<forall>d \<in> set ds. sd_stepId d \<noteq> ax_id s"
    using new_ids [OF assms(2) extend(2)] by blast
  ultimately show ?thesis
    using assms(3) unfolding extend(1) attempts_inv_def
    by (auto simp: fresh_step_def)
qed (simp_all add: attempts_inv_same)

text \<open>Output evidence survives further events.\<close>

lemma js_set_size_mono:
  assumes "set xs \<subseteq> set ys"
    and "mset (filter (\<lambda>v. \<not> is_primitive v) xs) \<subseteq># mset (filter (\<lambda>v. \<not> is_primitive v) ys)"
  shows "js_set_size xs \<le> js_set_size ys"
proof -
  have "length (filter (\<lambda>v. \<not> is_primitive v) xs) \<le> length (filter (\<lambda>v. \<not> is_primitive v) ys)"
    using size_mset_mono [OF assms(2)] by (simp only: size_mset)
  moreover have "card (set (filter is_primitive xs)) \<le> card (set (filter is_primitive ys))"
    using assms(1) by (intro card_mono) auto
  ultimately show ?thesis unfolding js_set_size_def length_remdups_card_conv by simp
qed

lemma outputs_met_mono:
  assumes "outputs_met es d aid"
  shows "outputs_met (es @ new) d aid"
proof -
  have "js_set_size (output_ids (artifact_events k aid es) out) \<le>
      js_set_size (output_ids (artifact_events k aid (es @ new)) out)" for k out
    by (rule js_set_size_mono) (auto simp: output_ids_def artifact_events_def)
  then have "output_missing (artifact_events k aid (es @ new)) out \<Longrightarrow>
      output_missing (artifact_events k aid es) out" for k out
    unfolding output_missing_def by (meson dual_order.strict_trans1 of_nat_mono order_le_less_trans zle_int)
  with assms show ?thesis unfolding outputs_met_def by blast
qed

lemma a_move_outputs_inv:
  assumes "a_move strict es t u" "ids_inv t" "outputs_inv es t"
  shows "outputs_inv es u"
  using assms
proof cases
  case (step_move s k st)
  then show ?thesis
    unfolding step_move(1) outputs_inv_def put_step_simps
    using assms(3) by (subst all_put_step [OF assms(2) step_move(2,3)]) (auto simp: outputs_inv_def)
next
  case (extend ds completed)
  have "d \<notin> set ds" if "s \<in> set (at_steps t)" "sd_stepId d = ax_id s" for s d
    using new_ids [OF assms(2) extend(2) that(1)] that(2) by blast
  with assms(3) show ?thesis unfolding extend(1) outputs_inv_def
    by (auto simp: fresh_step_def split: if_splits)
next
  case (complete s k d)
  have "outputs_met es d' (ax_assigned s)" if "d' \<in> set (at_defs t)" "sd_stepId d' = k" for d'
    using ids_inv_def_unique [OF assms(2) that(1) complete(4)] that complete(5,7) by simp
  then show ?thesis
    unfolding complete(1) outputs_inv_def put_step_simps
    using assms(3) complete(3) by (subst all_put_step [OF assms(2) complete(2,3)]) (auto simp: outputs_inv_def)
next
  case (progress s k)
  then show ?thesis
    unfolding progress(1) outputs_inv_def put_step_simps
    using assms(3) by (subst all_put_step [OF assms(2) progress(2,3)]) (auto simp: outputs_inv_def)
next
  case (verify s k)
  then show ?thesis
    unfolding verify(1) outputs_inv_def put_step_simps
    using assms(3) by (subst all_put_step [OF assms(2) verify(2,3)]) (auto simp: outputs_inv_def)
next
  case (assign s k d aid)
  have "outputs_inv es (put_step k (\<lambda>s. s\<lparr>ax_status := SDispatching, ax_assigned := Some aid,
      ax_attempt := ax_attempt s + 1\<rparr>) t)"
    unfolding outputs_inv_def put_step_simps
    using assms(3) by (subst all_put_step [OF assms(2) assign(2,3)]) (auto simp: outputs_inv_def)
  with assign(1) show ?thesis by simp
qed simp

theorem a_move_common_inv:
  assumes "a_move strict es t u" "common_inv es t"
  shows "common_inv es u"
  using assms a_move_ids a_move_deps_inv a_move_assigned_inv a_move_attempts_inv a_move_outputs_inv
  unfolding common_inv_def by blast

section \<open>The strict relation\<close>

lemma running_put_step:
  assumes "ids_inv t" "s \<in> set (at_steps t)" "ax_id s = k"
  shows "int (running_steps (put_step k f t)) = int (running_steps t)
    + of_bool (ax_status (f s) \<in> set ACTIVE_STEPS) - of_bool (ax_status s \<in> set ACTIVE_STEPS)"
  unfolding running_steps_def put_step_simps
  using assms by (intro filter_map_key) (auto simp: ids_inv_def)

lemma a_move_strict_inv:
  assumes "a_move True es t u" "common_inv es t" "strict_inv t"
  shows "strict_inv u"
proof -
  have inv: "ids_inv t" "assigned_inv t" "active_inv t" "capacity_inv t"
    using assms(2,3) by (simp_all add: common_inv_def strict_inv_def)
  have put: "strict_inv (put_step k f t)"
    if s: "s \<in> set (at_steps t)" "ax_id s = k"
      and act: "ax_status (f s) \<in> set ACTIVE_STEPS \<Longrightarrow> ax_assigned (f s) \<noteq> None"
      and cap: "ax_status (f s) \<in> set ACTIVE_STEPS \<Longrightarrow> ax_status s \<notin> set ACTIVE_STEPS \<Longrightarrow>
        int (running_steps t) < at_limit t" for s k f
  proof -
    have "active_inv (put_step k f t)"
      unfolding active_inv_def put_step_simps
      using inv(3) act by (subst all_put_step [OF inv(1) s]) (auto simp: active_inv_def)
    moreover have "capacity_inv (put_step k f t)"
      using running_put_step [OF inv(1) s, of f] inv(4) cap
      by (auto simp: capacity_inv_def of_bool_def split: if_splits)
    ultimately show ?thesis by (simp add: strict_inv_def)
  qed
  have framed: "strict_inv (v\<lparr>at_asgs := as, at_status := st\<rparr>) = strict_inv v" for v as st
    by (simp add: strict_inv_def)
  from assms(1) show ?thesis
  proof cases
    case (task_move st)
    with inv show ?thesis by (simp add: strict_inv_def)
  next
    case (step_move s k st)
    show ?thesis unfolding step_move(1)
      using step_move(2,3) by (rule put) (use step_move(2,8) inv(3) in \<open>auto simp: active_inv_def\<close>)
  next
    case (assign s k d aid)
    show ?thesis unfolding assign(1) framed
      using assign(2,3) by (rule put) (use assign(10) in auto)
  next
    case (progress s k)
    then have "ax_status s \<in> set ACTIVE_STEPS" by (auto simp: ACTIVE_STEPS_def)
    with progress(2) inv(3) show ?thesis unfolding progress(1)
      by (intro put [OF progress(2,3)]) (auto simp: active_inv_def)
  next
    case (verify s k)
    show ?thesis unfolding verify(1)
      using verify(2,3) by (rule put) (use verify(5,6) in auto)
  next
    case (complete s k d)
    show ?thesis unfolding complete(1)
      using complete(2,3) by (rule put) (auto simp: ACTIVE_STEPS_def)
  next
    case (extend ds completed)
    have "running_steps u = running_steps t"
      unfolding extend(1) running_steps_def
      by (auto simp: filter_empty_conv fresh_step_def ACTIVE_STEPS_def)
    with inv extend(1) show ?thesis
      by (auto simp: strict_inv_def active_inv_def capacity_inv_def fresh_step_def ACTIVE_STEPS_def split: if_splits)
  qed
qed

lemma a_runs_common_inv: "a_runs strict es t u \<Longrightarrow> common_inv es t \<Longrightarrow> common_inv es u"
  by (induction rule: a_runs.induct) (auto intro: a_move_common_inv)

lemma a_runs_strict_inv:
  "a_runs True es t u \<Longrightarrow> common_inv es t \<Longrightarrow> strict_inv t \<Longrightarrow> strict_inv u"
  by (induction rule: a_runs.induct) (auto intro: a_move_strict_inv a_runs_common_inv)

lemma a_runs_ids: "a_runs strict es t u \<Longrightarrow> ids_inv t \<Longrightarrow> ids_inv u"
  by (induction rule: a_runs.induct) (auto intro: a_move_ids)

lemma a_runs_done: "a_runs strict es t u \<Longrightarrow> ids_inv t \<Longrightarrow> done_in t x \<Longrightarrow> done_in u x"
  by (induction rule: a_runs.induct) (auto intro: a_move_done a_runs_ids)

lemma common_inv_mono: "common_inv es t \<Longrightarrow> common_inv (es @ new) t"
  by (auto simp: common_inv_def outputs_inv_def intro: outputs_met_mono)

end
