(* ===== verification/StoreInvariant.thy ===== *)
theory StoreInvariant
  imports ExecutionMachine
begin

text \<open>
  What every operation of the execution runtime keeps of the store, and the rules its proofs use.

  \<open>store_ok\<close> says what the files of every task look like; \<open>evo\<close> relates the store before and after an
  operation: ledgers grow, and each task moves along \<open>a_runs\<close>, is created, or is deleted. \<open>carry\<close> is the
  state inside an operation: the runtime it holds in memory has moved on, the snapshot file has not.
\<close>

section \<open>Views of the files\<close>

fun line_event :: "execution_event ledger_line \<Rightarrow> execution_event option" where
  "line_event (LineRecord _ _ e) = e"
| "line_event (LineBadJson _) = None"

definition events_at :: "world \<Rightarrow> string \<Rightarrow> execution_event list" where
  "events_at w dir = List.map_filter line_event (tf_events (files_at w dir))"

definition snapshot_at :: "world \<Rightarrow> string \<Rightarrow> durable_snapshot option" where
  "snapshot_at w dir = (case tf_snapshot (files_at w dir) of
     Some (DurableText _ _ s) \<Rightarrow> s | _ \<Rightarrow> None)"

definition abs_snap :: "durable_snapshot \<Rightarrow> a_task" where
  "abs_snap s = abs_task (ds_definition s) (ds_runtime s)"

definition snap_id :: "durable_snapshot \<Rightarrow> string" where
  "snap_id s = td_taskId (wd_task (ds_definition s))"

definition last_seq :: "runtime_state \<Rightarrow> int" where
  "last_seq rt = tr_lastEventSequence (rt_task rt)"

definition named_event :: "execution_event \<Rightarrow> bool" where
  "named_event e \<longleftrightarrow> ev_contract e = ZERO3_EXECUTION_EVENT \<and> trim (ev_eventId e) \<noteq> [] \<and> trim (ev_taskId e) \<noteq> []"

definition log_ok :: "platform \<Rightarrow> execution_ledger \<Rightarrow> execution_event list \<Rightarrow> bool" where
  "log_ok pf ls es \<longleftrightarrow> ls = map (recordFor (pf_eventSum pf)) es \<and> list_all named_event es \<and>
     (\<forall>i < length es. ev_sequence (es ! i) = 1 + int i) \<and> distinct (map ev_eventId es)"

definition snapshot_ok :: "platform \<Rightarrow> string \<Rightarrow> execution_event list \<Rightarrow> durable_snapshot durable_text option \<Rightarrow> bool" where
  "snapshot_ok pf dir es t \<longleftrightarrow> (case t of None \<Rightarrow> True | Some txt \<Rightarrow>
     (\<exists>s. txt = durable_envelope (pf_snapshotSum pf) s \<and> assertSnapshot s = Inr () \<and>
        safeId (snap_id s) ''taskId'' = Inr dir \<and> last_seq (ds_runtime s) \<le> int (length es)))"

definition store_ok :: "world \<Rightarrow> bool" where
  "store_ok w \<longleftrightarrow> (\<forall>dir. tf_temps (files_at w dir) = [] \<and>
     log_ok (ew_platform w) (tf_events (files_at w dir)) (events_at w dir) \<and>
     snapshot_ok (ew_platform w) dir (events_at w dir) (tf_snapshot (files_at w dir)))"

definition first_state :: "a_task \<Rightarrow> bool" where
  "first_state t \<longleftrightarrow> ids_inv t \<and> at_steps t = map (fresh_step []) (at_defs t) \<and> at_asgs t = [] \<and> at_status t = TReady"

definition evo_at :: "bool \<Rightarrow> world \<Rightarrow> world \<Rightarrow> string \<Rightarrow> bool" where
  "evo_at strict w0 w dir \<longleftrightarrow> (case (snapshot_at w0 dir, snapshot_at w dir) of
       (None, None) \<Rightarrow> True
     | (None, Some s) \<Rightarrow> (\<exists>t. first_state t \<and> a_runs strict (events_at w dir) t (abs_snap s))
     | (Some s0, None) \<Rightarrow> files_at w dir = no_files
     | (Some s0, Some s) \<Rightarrow> prefix (events_at w0 dir) (events_at w dir) \<and>
         a_runs strict (events_at w dir) (abs_snap s0) (abs_snap s))"

definition evo :: "bool \<Rightarrow> world \<Rightarrow> world \<Rightarrow> bool" where
  "evo strict w0 w \<longleftrightarrow> store_ok w \<and> ew_platform w = ew_platform w0 \<and> (\<forall>dir. evo_at strict w0 w dir)"

section \<open>Files of the world\<close>

lemma put_files_simps [simp]:
  "files_at (put_files dir f w) = (files_at w)(dir := f)"
  "ew_platform (put_files dir f w) = ew_platform w"
  by (auto simp: files_at_def put_files_def update_conv')

lemma files_at_counters [simp]:
  "files_at (w\<lparr>ew_draws := n\<rparr>) = files_at w" "files_at (w\<lparr>ew_ticks := n\<rparr>) = files_at w"
  by (auto simp: files_at_def)

lemma files_at_delete [simp]:
  "files_at (w\<lparr>ew_tasks := AList.delete dir (ew_tasks w)\<rparr>) = (files_at w)(dir := no_files)"
  by (auto simp: files_at_def delete_conv')

lemma map_filter_records [simp]: "List.map_filter line_event (map (recordFor c) es) = es"
  by (induction es) (simp_all add: recordFor_def List.map_filter_def)

lemma log_ok_events: "log_ok pf ls es \<Longrightarrow> List.map_filter line_event ls = es"
  by (simp add: log_ok_def)

lemma log_ok_Nil [simp]: "log_ok pf [] []"
  by (simp add: log_ok_def)

lemma read_iff_log_ok:
  "readExecutionEventLedger (pf_eventSum pf) path ls = Inr es \<longleftrightarrow>
     log_ok pf ls es \<and> (\<forall>e \<in> set es. safe_integer (ev_sequence e))"
proof -
  have "1 \<le> ev_sequence e" if "\<forall>i < length es. ev_sequence (es ! i) = 1 + int i" "e \<in> set es" for e
    using that by (auto simp: in_set_conv_nth)
  then show ?thesis
    unfolding readExecutionEventLedger_iff log_ok_def list_all_iff acceptable_event_def named_event_def
    by blast
qed

lemma safeId_Inr: "safeId v l = Inr d \<Longrightarrow> d = trim v \<and> trim v \<noteq> []"
  by (auto simp: safeId_def Let_def split: if_splits)

lemma snapshot_at_envelope [simp]:
  "tf_snapshot (files_at w dir) = Some (durable_envelope c s) \<Longrightarrow> snapshot_at w dir = Some s"
  "tf_snapshot (files_at w dir) = None \<Longrightarrow> snapshot_at w dir = None"
  by (simp_all add: snapshot_at_def durable_envelope_def)

lemma store_ok_snapshot:
  assumes "store_ok w" "snapshot_at w dir = Some s"
  shows "tf_snapshot (files_at w dir) = Some (durable_envelope (pf_snapshotSum (ew_platform w)) s)"
    "assertSnapshot s = Inr ()" "safeId (snap_id s) ''taskId'' = Inr dir"
    "last_seq (ds_runtime s) \<le> int (length (events_at w dir))"
proof -
  have "snapshot_ok (ew_platform w) dir (events_at w dir) (tf_snapshot (files_at w dir))"
    using assms(1) by (simp add: store_ok_def)
  with assms(2) show "tf_snapshot (files_at w dir) = Some (durable_envelope (pf_snapshotSum (ew_platform w)) s)"
    "assertSnapshot s = Inr ()" "safeId (snap_id s) ''taskId'' = Inr dir"
    "last_seq (ds_runtime s) \<le> int (length (events_at w dir))"
    by (auto simp: snapshot_ok_def snapshot_at_def durable_envelope_def split: option.splits)
qed

lemma store_ok_none:
  assumes "store_ok w" "snapshot_at w dir = None"
  shows "tf_snapshot (files_at w dir) = None"
proof -
  have "snapshot_ok (ew_platform w) dir (events_at w dir) (tf_snapshot (files_at w dir))"
    using assms(1) by (simp add: store_ok_def)
  with assms(2) show ?thesis
    by (auto simp: snapshot_ok_def snapshot_at_def durable_envelope_def split: option.splits)
qed

lemma store_ok_log: "store_ok w \<Longrightarrow> log_ok (ew_platform w) (tf_events (files_at w dir)) (events_at w dir)"
  by (simp add: store_ok_def)

section \<open>What loading a snapshot guarantees\<close>

lemma assert_assignments_step:
  "assert_assignments tid ids seen as = Inr out \<Longrightarrow> \<forall>a \<in> set as. as_stepId a \<in> set ids"
  by (induction tid ids seen as rule: assert_assignments.induct) (auto split: if_splits)

lemma assertSnapshot_facts:
  assumes "assertSnapshot s = Inr ()"
  shows "definition_ok (ds_definition s)" "ids_inv (abs_snap s)"
    "tr_taskId (rt_task (ds_runtime s)) = snap_id s"
    "set (at_asgs (abs_snap s)) \<subseteq> sd_stepId ` set (at_defs (abs_snap s))"
proof -
  let ?d = "ds_definition s" and ?r = "ds_runtime s"
  show ok: "definition_ok ?d"
    using assms by (auto simp: assertSnapshot_def assertDefinition_def guard_res_def definition_ok_def Let_def split: if_splits)
  then have dd: "distinct (map sd_stepId (wd_steps ?d))" by (rule definition_ok_distinct)
  have "assertRuntime ?d ?r = Inr ()"
    using assms by (simp add: assertSnapshot_def split: sum.splits)
  then have r: "length (rt_steps ?r) = length (wd_steps ?d)"
      "\<forall>x \<in> set (rt_steps ?r). sr_stepId x \<in> sd_stepId ` set (wd_steps ?d)"
      "distinct (map sr_stepId (rt_steps ?r))" "tr_taskId (rt_task ?r) = td_taskId (wd_task ?d)"
      "\<forall>a \<in> set (rt_assignments ?r). as_stepId a \<in> sd_stepId ` set (wd_steps ?d)"
    using dd by (auto simp: assertRuntime_def Let_def list_ex_iff distinct_remdups_id
        dest!: assert_assignments_step split: if_splits sum.splits)
  show "tr_taskId (rt_task ?r) = snap_id s" using r(4) by (simp add: snap_id_def)
  have "set (map sr_stepId (rt_steps ?r)) \<subseteq> set (map sd_stepId (wd_steps ?d))" using r(2) by auto
  moreover have "card (set (map sd_stepId (wd_steps ?d))) = card (set (map sr_stepId (rt_steps ?r)))"
    using r(1,3) dd by (simp only: distinct_card length_map)
  ultimately have "set (map sr_stepId (rt_steps ?r)) = set (map sd_stepId (wd_steps ?d))"
    by (intro card_seteq) simp_all
  then show "ids_inv (abs_snap s)"
    using r(3) dd by (simp add: ids_inv_def abs_snap_def abs_task_def abs_step_def comp_def image_image)
  show "set (at_asgs (abs_snap s)) \<subseteq> sd_stepId ` set (at_defs (abs_snap s))"
    using r(5) by (auto simp: abs_snap_def abs_task_def)
qed


section \<open>Inside an operation\<close>

text \<open>
  From \<open>w0\<close> to \<open>w\<close> only the ledger of \<open>dir\<close> has grown (the archive side-car and the counters of the
  platform are free).
\<close>

definition mid :: "world \<Rightarrow> string \<Rightarrow> world \<Rightarrow> bool" where
  "mid w0 dir w \<longleftrightarrow> store_ok w0 \<and> ew_platform w = ew_platform w0 \<and>
     (\<forall>d. tf_temps (files_at w d) = [] \<and> tf_snapshot (files_at w d) = tf_snapshot (files_at w0 d) \<and>
       log_ok (ew_platform w) (tf_events (files_at w d)) (events_at w d) \<and>
       (\<exists>new. events_at w d = events_at w0 d @ new) \<and> (d \<noteq> dir \<longrightarrow> files_at w d = files_at w0 d))"

definition carry :: "bool \<Rightarrow> world \<Rightarrow> string \<Rightarrow> durable_snapshot \<Rightarrow> workflow_definition \<Rightarrow> runtime_state \<Rightarrow> world \<Rightarrow> bool" where
  "carry strict w0 tid s0 def rt w \<longleftrightarrow> mid w0 (trim tid) w \<and> snapshot_at w0 (trim tid) = Some s0 \<and>
     snap_id s0 = tid \<and> td_taskId (wd_task def) = tid \<and> safeId tid ''taskId'' = Inr (trim tid) \<and>
     a_runs strict (events_at w (trim tid)) (abs_snap s0) (abs_task def rt) \<and>
     last_seq rt \<le> int (length (events_at w (trim tid)))"

lemma mid_refl: "store_ok w \<Longrightarrow> mid w dir w"
  by (simp add: mid_def store_ok_def)

lemma mid_counters [simp]:
  "mid w0 dir (w\<lparr>ew_draws := n\<rparr>) = mid w0 dir w" "mid w0 dir (w\<lparr>ew_ticks := n\<rparr>) = mid w0 dir w"
  by (simp_all add: mid_def events_at_def)

lemma events_at_cong: "tf_events (files_at w d) = tf_events (files_at w' d) \<Longrightarrow> events_at w d = events_at w' d"
  by (simp add: events_at_def)

lemma carry_counters [simp]:
  "carry b w0 tid s0 def rt (w\<lparr>ew_draws := n\<rparr>) = carry b w0 tid s0 def rt w"
  "carry b w0 tid s0 def rt (w\<lparr>ew_ticks := n\<rparr>) = carry b w0 tid s0 def rt w"
  by (simp_all add: carry_def events_at_def)

lemma snapshot_ok_mono: "snapshot_ok pf dir es t \<Longrightarrow> snapshot_ok pf dir (es @ new) t"
  by (fastforce simp: snapshot_ok_def split: option.splits)

lemma mid_snapshot: "mid w0 dir w \<Longrightarrow> snapshot_at w d = snapshot_at w0 d"
  by (simp add: mid_def snapshot_at_def)

lemma mid_store_ok:
  assumes "mid w0 dir w"
  shows "store_ok w"
  unfolding store_ok_def
proof (intro allI conjI)
  fix d
  have m: "tf_temps (files_at w d) = []" "tf_snapshot (files_at w d) = tf_snapshot (files_at w0 d)"
      "log_ok (ew_platform w) (tf_events (files_at w d)) (events_at w d)" "ew_platform w = ew_platform w0"
    using assms by (auto simp: mid_def)
  obtain new where new: "events_at w d = events_at w0 d @ new"
    using assms by (auto simp: mid_def)
  show "tf_temps (files_at w d) = []" by (rule m(1))
  show "log_ok (ew_platform w) (tf_events (files_at w d)) (events_at w d)" by (rule m(3))
  have "store_ok w0" using assms by (simp add: mid_def)
  then have "snapshot_ok (ew_platform w0) d (events_at w0 d) (tf_snapshot (files_at w0 d))"
    by (simp add: store_ok_def)
  then show "snapshot_ok (ew_platform w) d (events_at w d) (tf_snapshot (files_at w d))"
    unfolding m(2,4) new by (rule snapshot_ok_mono)
qed

lemma mid_evo:
  assumes "mid w0 dir w"
  shows "evo strict w0 w"
  unfolding evo_def
proof (intro conjI allI)
  show "store_ok w" using assms by (rule mid_store_ok)
  show "ew_platform w = ew_platform w0" using assms by (simp add: mid_def)
  fix d
  obtain new where "events_at w d = events_at w0 d @ new" using assms by (auto simp: mid_def)
  with mid_snapshot [OF assms, of d] show "evo_at strict w0 w d"
    unfolding evo_at_def
    by (cases "snapshot_at w0 d") (auto intro: a_runs.stay)
qed

lemma carry_evo: "carry strict w0 tid s0 def rt w \<Longrightarrow> evo strict w0 w"
  by (auto simp: carry_def intro: mid_evo)

lemma a_move_mono: "a_move strict es t u \<Longrightarrow> a_move strict (es @ new) t u"
proof (induction rule: a_move.induct)
  case (complete s t k d)
  then show ?case by (intro a_move.complete) (auto intro: outputs_met_mono)
next
  case (assign s t k d aid)
  then show ?case by (rule a_move.assign)
qed (auto intro: a_move.intros)

lemma a_runs_mono: "a_runs strict es t u \<Longrightarrow> a_runs strict (es @ new) t u"
  by (induction rule: a_runs.induct) (auto intro: a_runs.intros a_move_mono)

lemma carry_move:
  "carry strict w0 tid s0 def rt w \<Longrightarrow> a_move strict (events_at w (trim tid)) (abs_task def rt) (abs_task def' rt') \<Longrightarrow>
     last_seq rt' = last_seq rt \<Longrightarrow> td_taskId (wd_task def') = tid \<Longrightarrow> carry strict w0 tid s0 def' rt' w"
  by (auto simp: carry_def intro: a_runs.move)

lemma carry_same:
  "carry strict w0 tid s0 def rt w \<Longrightarrow> abs_task def' rt' = abs_task def rt \<Longrightarrow> last_seq rt' = last_seq rt \<Longrightarrow>
     td_taskId (wd_task def') = tid \<Longrightarrow> carry strict w0 tid s0 def' rt' w"
  by (simp add: carry_def)

section \<open>The abstraction of runtime updates\<close>

lemma abs_step_simps [simp]:
  "ax_id (abs_step r) = sr_stepId r" "ax_status (abs_step r) = sr_status r"
  "ax_assigned (abs_step r) = sr_assignmentId r" "ax_attempt (abs_step r) = sr_attempt r"
  by (simp_all add: abs_step_def)

lemma abs_task_simps [simp]:
  "at_defs (abs_task def rt) = wd_steps def" "at_limit (abs_task def rt) = td_maxParallelSteps (wd_task def)"
  "at_status (abs_task def rt) = tr_status (rt_task rt)" "at_steps (abs_task def rt) = map abs_step (rt_steps rt)"
  "at_asgs (abs_task def rt) = map as_stepId (rt_assignments rt)"
  by (simp_all add: abs_task_def)

lemma abs_touch_step [simp]: "abs_step (touch_step sid bump at' s) = abs_step s"
  by (simp add: touch_step_def abs_step_def)

lemma abs_touch [simp]: "abs_task def (touch sid bump at' rt) = abs_task def rt"
  by (simp add: abs_task_def touch_def comp_def)

lemma last_seq_touch [simp]: "last_seq (touch sid bump at' rt) = bump (last_seq rt)"
  by (simp add: last_seq_def touch_def)

lemma abs_refresh [simp]: "abs_task def (refreshDerived rt) = abs_task def rt"
  by (simp add: abs_task_def refreshDerived_def)

lemma last_seq_simps [simp]:
  "last_seq (refreshDerived rt) = last_seq rt" "last_seq (set_step k f rt) = last_seq rt"
  "last_seq (set_task_status st rt) = last_seq rt" "last_seq (rt\<lparr>rt_assignments := as\<rparr>) = last_seq rt"
  "last_seq (rt\<lparr>rt_sessionBindings := bs\<rparr>) = last_seq rt" "last_seq (rt\<lparr>rt_steps := ss\<rparr>) = last_seq rt"
  by (simp_all add: last_seq_def refreshDerived_def set_step_def set_task_status_def)

lemma abs_set_step:
  assumes "\<And>s. abs_step (f s) = g (abs_step s)"
  shows "abs_task def (set_step k f rt) = put_step k g (abs_task def rt)"
proof -
  have "map abs_step (map_key sr_stepId k f xs) = map_key ax_id k g (map abs_step xs)" for xs
    using assms by (simp add: map_key_def)
  then show ?thesis by (simp add: abs_task_def set_step_def put_step_def)
qed

lemma abs_set_step_same:
  assumes "\<And>s. abs_step (f s) = abs_step s"
  shows "abs_task def (set_step k f rt) = abs_task def rt"
proof -
  have "map abs_step (map_key sr_stepId k f xs) = map abs_step xs" for xs
    using assms by (simp add: map_key_def)
  then show ?thesis by (simp add: abs_task_def set_step_def)
qed

lemma abs_status [simp]: "abs_task def (set_task_status st rt) = (abs_task def rt)\<lparr>at_status := st\<rparr>"
  by (simp add: abs_task_def set_task_status_def)

lemma abs_bindings [simp]: "abs_task def (rt\<lparr>rt_sessionBindings := bs\<rparr>) = abs_task def rt"
  by (simp add: abs_task_def)

lemma running_active: "int (running_steps (abs_task def rt)) = active_count rt"
  by (simp add: running_steps_def active_count_def filter_map comp_def)

lemma dependencyReady_done:
  assumes "dependencyReady d (stepMap rt)"
  shows "deps_done (abs_task def rt) d"
  unfolding deps_done_def
proof
  fix x
  assume "x \<in> set (sd_dependsOn d)"
  with assms have "map_option sr_status (stepMap rt x) = Some SCompleted"
    by (simp add: dependencyReady_def list_all_iff)
  then obtain s where "map_get sr_stepId (rt_steps rt) x = Some s" "sr_status s = SCompleted"
    by (auto simp: stepMap_def)
  with map_get_Some show "done_in (abs_task def rt) x"
    by (fastforce simp: done_in_def)
qed

end
