(* ===== verification/OperationRules.thy ===== *)
theory OperationRules
  imports StoreInvariant
begin

text \<open>
  Proof rules for the methods of the execution runtime, over the triples of \<open>Prelude\<close>: one rule for each
  way a method goes on (reading, guarding, drawing an id, appending an event, writing the snapshot),
  with \<open>carry\<close> as the assertion inside a method and \<open>evo\<close> at both exits.
\<close>

section \<open>Reading effects\<close>

named_theorems reads_intros

definition reads :: "('s, 'a) eff \<Rightarrow> bool" where
  "reads m \<longleftrightarrow> (\<forall>s. snd (m s) = s)"

lemma reads_basic [reads_intros]:
  "reads (ret x)" "reads (throw e)" "reads (lift_res r)" "reads (require_that ok e)" "reads (gets f)"
  by (simp_all add: reads_def eff_defs)

lemma readsD: "reads m \<Longrightarrow> \<exists>r. m s = (r, s)"
  unfolding reads_def by (metis prod.collapse)

lemma reads_bnd [reads_intros]:
  assumes "reads m" "\<And>x. reads (f x)"
  shows "reads (bnd m f)"
  unfolding reads_def
proof
  fix s
  obtain r where m: "m s = (r, s)" using readsD [OF assms(1)] by blast
  show "snd (bnd m f s) = s"
  proof (cases r)
    case (Inr x)
    obtain r' where "f x s = (r', s)" using readsD [OF assms(2)] by blast
    with m Inr show ?thesis by (simp add: bnd_def)
  qed (use m in \<open>simp add: bnd_def\<close>)
qed

lemma reads_if [reads_intros]: "reads m \<Longrightarrow> reads n \<Longrightarrow> reads (if b then m else n)"
  by simp

lemma reads_loadSnapshotRecord [reads_intros]: "reads (loadSnapshotRecord tid)"
  unfolding loadSnapshotRecord_def by (intro reads_intros)

lemma reads_readEvents [reads_intros]: "reads (readEvents tid)"
  unfolding readEvents_def by (intro reads_intros)

lemma reads_readArchive [reads_intros]: "reads (readArchive tid)"
  unfolding readArchive_def by (intro reads_intros)

lemma reads_snapshot [reads_intros]: "reads (snapshot tid)"
  unfolding snapshot_def by (intro reads_intros)

lemma reads_task_with_assignment: "reads (task_with_assignment aid ts)"
  by (induction ts) (auto intro!: reads_intros)

lemma reads_taskIdForAssignment [reads_intros]: "reads (taskIdForAssignment aid)"
  unfolding taskIdForAssignment_def listTaskIds_def by (intro reads_intros reads_task_with_assignment)

section \<open>Rules for one step of a method\<close>

lemma seq_read:
  assumes "reads m" "\<And>x. triple P (f x) Q E" "\<And>s. P s \<Longrightarrow> E s"
  shows "triple P (bnd m f) Q E"
  unfolding triple_def
proof (intro allI impI)
  fix s
  assume "P s"
  obtain r where m: "m s = (r, s)" using readsD [OF assms(1)] by blast
  show "case bnd m f s of (Inl e, t) \<Rightarrow> E t | (Inr x, t) \<Rightarrow> Q x t"
  proof (cases r)
    case (Inl e)
    with m \<open>P s\<close> assms(3) show ?thesis by (simp add: bnd_def)
  next
    case (Inr x)
    with m \<open>P s\<close> assms(2) [of x] show ?thesis by (simp add: bnd_def triple_def)
  qed
qed

lemma seq_lift:
  assumes "\<And>x. r = Inr x \<Longrightarrow> triple P (f x) Q E" "\<And>s. P s \<Longrightarrow> E s"
  shows "triple P (bnd (lift_res r) f) Q E"
  using assms by (cases r) (simp_all add: triple_throw)

lemma seq_require:
  assumes "ok \<Longrightarrow> triple P (f ()) Q E" "\<And>s. P s \<Longrightarrow> E s"
  shows "triple P (bnd (require_that ok e) f) Q E"
  using assms by (cases ok) (simp_all add: triple_throw)

lemma seq_now:
  assumes "\<And>x. triple P (f x) Q E" "\<And>s n. P s \<Longrightarrow> P (s\<lparr>ew_ticks := n\<rparr>)"
  shows "triple P (bnd now f) Q E"
  using assms by (auto simp: triple_def now_def eff_defs)

lemma seq_uuid:
  assumes "\<And>x. triple P (f x) Q E" "\<And>s n. P s \<Longrightarrow> P (s\<lparr>ew_draws := n\<rparr>)"
  shows "triple P (bnd randomUUID f) Q E"
  using assms by (auto simp: triple_def randomUUID_def eff_defs)

lemma end_read:
  assumes "reads m" "\<And>s. P s \<Longrightarrow> E s"
  shows "triple P m (\<lambda>_. E) E"
  unfolding triple_def
proof (intro allI impI)
  fix s
  assume "P s"
  moreover obtain r where "m s = (r, s)" using readsD [OF assms(1)] by blast
  ultimately show "case m s of (Inl e, t) \<Rightarrow> E t | (Inr x, t) \<Rightarrow> E t"
    using assms(2) by (simp split: sum.splits)
qed

lemma triple_ex:
  assumes "\<And>y. triple (P y) m Q E"
  shows "triple (\<lambda>s. \<exists>y. P y s) m Q E"
  unfolding triple_def
proof (intro allI impI, elim exE)
  fix s y
  assume "P y s"
  then show "case m s of (Inl e, t) \<Rightarrow> E t | (Inr x, t) \<Rightarrow> Q x t"
    using assms [of y] by (simp add: triple_def)
qed

section \<open>Appending an event\<close>

lemma trim_evt [simp]: "trim (''evt-'' @ u) \<noteq> []"
  by (simp add: trim_Nil_iff js_space_def)

lemma trim_opt_Some: "trim_opt v = Some i \<Longrightarrow> trim i \<noteq> []"
  by (auto simp: trim_opt_def split: option.splits if_splits)

lemma event_json_sequence:
  assumes "stable_same (event_json a) (event_json b)"
  shows "ev_sequence a = ev_sequence b"
proof -
  let ?f = "\<lambda>e. [(''contract'', JStr (ev_contract e)), (''eventId'', JStr (ev_eventId e)),
      (''sequence'', JNum (of_int (ev_sequence e))), (''taskId'', JStr (ev_taskId e))]
     @ opt_field ''stepId'' JStr (ev_stepId e) @ opt_field ''assignmentId'' JStr (ev_assignmentId e)
     @ [(''type'', JStr (event_type_text (ev_type e)))]
     @ opt_field ''payload'' JObj (ev_payload e) @ [(''at'', JStr (ev_at e))]"
  have d: "distinct (map fst (?f e))" for e
    by (auto simp: opt_field_def split: option.splits)
  have "map_option canon (map_of (?f a) ''sequence'') = map_option canon (map_of (?f b) ''sequence'')"
    using assms d by (intro canon_fields) (simp_all only: stable_same_def event_json_def)
  then show ?thesis by simp
qed

text \<open>The store writes the next event, or nothing.\<close>

lemma appendSerialized_next:
  assumes "log_ok pf ls es" "named_event e" "ev_sequence e = int (length es) + 1"
    and "appendSerialized (pf_eventSum pf) path ls e = (r, ls')"
  shows "r = Inr Appended \<and> log_ok pf ls' (es @ [e]) \<or> (\<exists>err. r = Inl err) \<and> ls' = ls"
proof (cases "readExecutionEventLedger (pf_eventSum pf) path ls")
  case (Inl err)
  with assms(4) show ?thesis by (auto simp: appendSerialized_def)
next
  case (Inr es')
  then have "ls = map (recordFor (pf_eventSum pf)) es'" by (simp add: readExecutionEventLedger_iff)
  with assms(1) have "es' = es" by (metis log_ok_def map_filter_records)
  with Inr have rd: "readExecutionEventLedger (pf_eventSum pf) path ls = Inr es" by simp
  show ?thesis
  proof (cases "find_key ev_eventId (ev_eventId e) es")
    case None
    then have "appendSerialized (pf_eventSum pf) path ls e = (Inr Appended, ls @ [recordFor (pf_eventSum pf) e])"
      using rd assms(3) by (simp add: appendSerialized_def del: find_key_None)
    moreover have "ev_eventId e \<notin> ev_eventId ` set es" using None by simp
    ultimately show ?thesis
      using assms by (auto simp: log_ok_def nth_append less_Suc_eq)
  next
    case (Some old)
    then have "old \<in> set es" by (blast dest: find_key_Some)
    with assms(1) obtain i where "i < length es" "ev_sequence old = 1 + int i"
      by (auto simp: in_set_conv_nth log_ok_def)
    with assms(3) have "ev_sequence old \<noteq> ev_sequence e" by simp
    then have "\<not> stable_same (event_json old) (event_json e)" using event_json_sequence by blast
    with Some rd assms(4) show ?thesis by (auto simp: appendSerialized_def)
  qed
qed

lemma carry_append:
  assumes c: "carry strict w0 tid s0 def rt w" and ls: "log_ok (ew_platform w) ls (events_at w (trim tid) @ [e])"
    and seq: "last_seq rt' = int (length (events_at w (trim tid))) + 1" and a: "abs_task def rt' = abs_task def rt"
  shows "carry strict w0 tid s0 def rt' (put_files (trim tid) ((files_at w (trim tid))\<lparr>tf_events := ls\<rparr>) w)"
proof -
  let ?w = "put_files (trim tid) ((files_at w (trim tid))\<lparr>tf_events := ls\<rparr>) w"
  have ev: "events_at ?w (trim tid) = events_at w (trim tid) @ [e]"
    using log_ok_events [OF ls] by (simp add: events_at_def)
  have other: "events_at ?w d = events_at w d" if "d \<noteq> trim tid" for d
    using that by (simp add: events_at_def)
  have "mid w0 (trim tid) ?w"
    unfolding mid_def
  proof (intro conjI allI impI)
    fix d
    have m: "mid w0 (trim tid) w" using c by (simp add: carry_def)
    show "store_ok w0" "ew_platform ?w = ew_platform w0" using m by (auto simp: mid_def)
    show "tf_temps (files_at ?w d) = []" "tf_snapshot (files_at ?w d) = tf_snapshot (files_at w0 d)"
      using m by (auto simp: mid_def)
    show "log_ok (ew_platform ?w) (tf_events (files_at ?w d)) (events_at ?w d)"
    proof (cases "d = trim tid")
      case True
      with ls ev show ?thesis by simp
    next
      case False
      have "log_ok (ew_platform w) (tf_events (files_at w d)) (events_at w d)" using m unfolding mid_def by blast
      with False other [OF False] show ?thesis by simp
    qed
    obtain new where "events_at w d = events_at w0 d @ new" using m by (auto simp: mid_def)
    then show "\<exists>new. events_at ?w d = events_at w0 d @ new"
      using ev other [of d] by (cases "d = trim tid") auto
    show "files_at ?w d = files_at w0 d" if "d \<noteq> trim tid" using m that by (simp add: mid_def)
  qed
  with c ev seq a show ?thesis by (auto simp: carry_def intro: a_runs_mono)
qed


lemma append_store_triple:
  assumes "ev_taskId e = tid" "named_event e" "ev_sequence e = int (length es) + 1"
    and "last_seq rt' = int (length es) + 1" "abs_task def rt' = abs_task def rt"
  shows "triple (\<lambda>w. carry strict w0 tid s0 def rt w \<and> events_at w (trim tid) = es) (appendEvent_store e)
    (\<lambda>_. carry strict w0 tid s0 def rt') (evo strict w0)"
  unfolding triple_def
proof (intro allI impI)
  fix w
  assume w: "carry strict w0 tid s0 def rt w \<and> events_at w (trim tid) = es"
  define f where "f = files_at w (trim tid)"
  obtain r ls where a: "appendSerialized (pf_eventSum (ew_platform w)) (path_text (ew_platform w) (trim tid) ''events.jsonl'')
      (tf_events f) e = (r, ls)" by force
  have "safeId tid ''taskId'' = Inr (trim tid)" using w by (simp add: carry_def)
  then have run: "appendEvent_store e w =
      (r, if r = Inr Appended then put_files (trim tid) (f\<lparr>tf_events := ls\<rparr>) w else w)"
    using a assms(1) by (simp add: appendEvent_store_def f_def)
  have "log_ok (ew_platform w) (tf_events f) es"
    using w by (auto simp: carry_def mid_def f_def)
  from appendSerialized_next [OF this assms(2,3) a]
  show "case appendEvent_store e w of (Inl err, t) \<Rightarrow> evo strict w0 t
    | (Inr x, t) \<Rightarrow> carry strict w0 tid s0 def rt' t"
  proof
    assume "r = Inr Appended \<and> log_ok (ew_platform w) ls (es @ [e])"
    with run w carry_append [of strict w0 tid s0 def rt w ls e rt'] assms(4,5) show ?thesis
      by (simp add: f_def)
  next
    assume "(\<exists>err. r = Inl err) \<and> ls = tf_events f"
    with run w show ?thesis by (auto intro: carry_evo)
  qed
qed

lemma seq_readEvents:
  assumes "\<And>es. triple (\<lambda>w. carry strict w0 tid s0 def rt w \<and> events_at w (trim tid) = es) (f es) Q (evo strict w0)"
  shows "triple (carry strict w0 tid s0 def rt) (bnd (readEvents tid) f) Q (evo strict w0)"
  unfolding triple_def
proof (intro allI impI)
  fix w
  assume w: "carry strict w0 tid s0 def rt w"
  then have "safeId tid ''taskId'' = Inr (trim tid)" by (simp add: carry_def)
  then have run: "readEvents tid w = (readExecutionEventLedger (pf_eventSum (ew_platform w))
      (path_text (ew_platform w) (trim tid) ''events.jsonl'') (tf_events (files_at w (trim tid))), w)"
    by (simp add: readEvents_def eff_defs)
  show "case bnd (readEvents tid) f w of (Inl e, t) \<Rightarrow> evo strict w0 t | (Inr x, t) \<Rightarrow> Q x t"
  proof (cases "fst (readEvents tid w)")
    case (Inl err)
    with run w show ?thesis by (simp add: bnd_def carry_evo)
  next
    case (Inr es)
    with run have "log_ok (ew_platform w) (tf_events (files_at w (trim tid))) es" by (simp add: read_iff_log_ok)
    then have "events_at w (trim tid) = es" unfolding events_at_def by (rule log_ok_events)
    with assms [of es] w run Inr show ?thesis by (simp add: triple_def bnd_def)
  qed
qed

lemma appendEvent_triple:
  assumes "ei_taskId inp = tid"
  shows "triple (carry strict w0 tid s0 def rt) (appendEvent rt inp)
    (\<lambda>rt'. carry strict w0 tid s0 def rt') (evo strict w0)"
  unfolding appendEvent_def assms Let_def
proof (rule seq_readEvents)
  fix es
  let ?explicit = "trim_opt (ei_eventId inp)"
  let ?P = "\<lambda>w. carry strict w0 tid s0 def rt w \<and> events_at w (trim tid) = es"
  have stable: "?P (s\<lparr>ew_ticks := n\<rparr>) = ?P s" "?P (s\<lparr>ew_draws := n\<rparr>) = ?P s" for s n
    by (simp_all add: events_at_def)
  have fresh: "triple ?P (append_fresh rt inp es ?explicit) (\<lambda>rt'. carry strict w0 tid s0 def rt') (evo strict w0)"
  proof (cases "trim tid = []")
    case True
    then have "\<not> ?P w" for w by (auto simp: carry_def dest: safeId_Inr)
    then show ?thesis unfolding triple_def by blast
  next
    case ne: False
    have store: "triple ?P (bnd (appendEvent_store \<lparr>ev_contract = ZERO3_EXECUTION_EVENT, ev_eventId = i,
        ev_sequence = int (length es) + 1, ev_taskId = ei_taskId inp, ev_stepId = drop_empty (ei_stepId inp),
        ev_assignmentId = drop_empty (ei_assignmentId inp), ev_type = ei_type inp,
        ev_payload = ei_payload inp, ev_at = at'\<rparr>) (\<lambda>_.
        ret (touch (ei_stepId inp) (\<lambda>_. int (length es) + 1) at' rt)))
        (\<lambda>rt'. carry strict w0 tid s0 def rt') (evo strict w0)" if "trim i \<noteq> []" for i at'
      using that ne assms by (intro triple_bnd [OF append_store_triple [of _ tid es
            "touch (ei_stepId inp) (\<lambda>_. int (length es) + 1) at' rt"]] triple_ret)
        (simp_all add: named_event_def)
    have ids: "triple ?P (bnd (case ?explicit of None \<Rightarrow> bnd randomUUID (\<lambda>u. ret (''evt-'' @ u)) | Some i \<Rightarrow> ret i) k)
        Q (evo strict w0)"
      if k: "\<And>i. trim i \<noteq> [] \<Longrightarrow> triple ?P (k i) Q (evo strict w0)" for k :: "string \<Rightarrow> runtime_state store_eff" and Q
    proof (cases ?explicit)
      case None
      show ?thesis unfolding None option.case bnd_assoc bnd_ret
        by (rule seq_uuid) (simp_all only: stable k trim_evt not_False_eq_True)
    next
      case (Some i)
      with trim_opt_Some [OF Some] show ?thesis by (simp add: k)
    qed
    show ?thesis
    proof (cases "ei_at inp")
      case None
      show ?thesis unfolding append_fresh_def Let_def None option.case
        by (rule seq_now) (use stable in \<open>auto intro!: ids store\<close>)
    next
      case (Some t)
      then show ?thesis unfolding append_fresh_def Let_def
        by (simp add: ids store)
    qed
  qed
  show "triple ?P (case Option.bind ?explicit (\<lambda>i. find_key ev_eventId i es) of
       None \<Rightarrow> append_fresh rt inp es ?explicit
     | Some existing \<Rightarrow>
         bnd (require_that (stable_same
             (report_json tid (ei_stepId inp) (ei_assignmentId inp) (ei_type inp) (ei_payload inp))
             (report_json (ev_taskId existing) (ev_stepId existing) (ev_assignmentId existing) (ev_type existing) (ev_payload existing)))
           (Error (''event id '' @ ev_eventId existing @ '' was reused with different execution report content''))) (\<lambda>_.
         ret (touch (ei_stepId inp) (\<lambda>n. max n (ev_sequence existing)) (ev_at existing) rt)))
    (\<lambda>rt'. carry strict w0 tid s0 def rt') (evo strict w0)"
  proof (rule triple_option)
    fix old
    assume "Option.bind ?explicit (\<lambda>i. find_key ev_eventId i es) = Some old"
    then obtain i where "find_key ev_eventId i es = Some old" by (auto simp: bind_eq_Some_conv)
    then have old: "old \<in> set es" by (blast dest: find_key_Some)
    have "carry strict w0 tid s0 def (touch (ei_stepId inp) (\<lambda>n. max n (ev_sequence old)) (ev_at old) rt) w"
      if w: "?P w" for w
    proof -
      have "log_ok (ew_platform w) (tf_events (files_at w (trim tid))) es"
        using w by (auto simp: carry_def mid_def)
      with old have "ev_sequence old \<le> int (length es)" by (auto simp: log_ok_def in_set_conv_nth)
      with w show ?thesis by (auto simp: carry_def)
    qed
    then show "triple ?P (bnd (require_that (stable_same
             (report_json tid (ei_stepId inp) (ei_assignmentId inp) (ei_type inp) (ei_payload inp))
             (report_json (ev_taskId old) (ev_stepId old) (ev_assignmentId old) (ev_type old) (ev_payload old)))
           (Error (''event id '' @ ev_eventId old @ '' was reused with different execution report content''))) (\<lambda>_.
         ret (touch (ei_stepId inp) (\<lambda>n. max n (ev_sequence old)) (ev_at old) rt)))
       (\<lambda>rt'. carry strict w0 tid s0 def rt') (evo strict w0)"
      by (intro seq_require triple_ret) (auto intro: carry_evo)
  qed (rule fresh)
qed


lemma seq_append:
  assumes "ei_taskId inp = tid" "\<And>rt'. triple (carry strict w0 tid s0 def rt') (f rt') Q (evo strict w0)"
  shows "triple (carry strict w0 tid s0 def rt) (bnd (appendEvent rt inp) f) Q (evo strict w0)"
  using appendEvent_triple [OF assms(1)] assms(2) by (rule triple_bnd)

section \<open>Writing the snapshot\<close>

lemma carry_write:
  assumes c: "carry strict w0 tid s0 def rt w" and ok: "assertSnapshot \<lparr>ds_definition = def, ds_runtime = rt\<rparr> = Inr ()"
  shows "evo strict w0 (put_files (trim tid) ((files_at w (trim tid))\<lparr>tf_snapshot :=
    Some (durable_envelope (pf_snapshotSum (ew_platform w)) \<lparr>ds_definition = def, ds_runtime = rt\<rparr>)\<rparr>) w)"
proof -
  let ?s = "\<lparr>ds_definition = def, ds_runtime = rt\<rparr>"
  let ?w = "put_files (trim tid) ((files_at w (trim tid))\<lparr>tf_snapshot :=
    Some (durable_envelope (pf_snapshotSum (ew_platform w)) ?s)\<rparr>) w"
  have m: "mid w0 (trim tid) w" and "store_ok w" using c by (auto simp: carry_def intro: mid_store_ok)
  have ev: "events_at ?w d = events_at w d" for d by (simp add: events_at_def)
  have other: "snapshot_at ?w d = snapshot_at w d" "files_at ?w d = files_at w d" if "d \<noteq> trim tid" for d
    using that by (simp_all add: snapshot_at_def)
  have at: "snapshot_at ?w (trim tid) = Some ?s" by (simp add: snapshot_at_def durable_envelope_def)
  have "snapshot_ok (ew_platform w) (trim tid) (events_at w (trim tid)) (tf_snapshot (files_at ?w (trim tid)))"
    using c ok by (auto simp: snapshot_ok_def carry_def snap_id_def)
  then have "store_ok ?w"
    using \<open>store_ok w\<close> unfolding store_ok_def ev by auto
  moreover have "ew_platform ?w = ew_platform w0" using m by (simp add: mid_def)
  moreover have "evo_at strict w0 ?w d" for d
  proof (cases "d = trim tid")
    case True
    obtain new where "events_at w (trim tid) = events_at w0 (trim tid) @ new" using m by (auto simp: mid_def)
    with True at ev c show ?thesis by (simp add: carry_def abs_snap_def evo_at_def)
  next
    case False
    have "evo_at strict w0 ?w d = evo_at strict w0 w d"
      unfolding evo_at_def ev other [OF False] by (rule refl)
    with mid_evo [OF m, of strict] show ?thesis by (simp add: evo_def)
  qed
  ultimately show ?thesis by (simp add: evo_def)
qed

lemma writeSnapshot_triple:
  "triple (carry strict w0 tid s0 def rt) (writeSnapshot def rt) (\<lambda>_. evo strict w0) (evo strict w0)"
proof (cases "td_taskId (wd_task def) = tid \<and> safeId tid ''taskId'' = Inr (trim tid)")
  case True
  let ?s = "\<lparr>ds_definition = def, ds_runtime = rt\<rparr>"
  have "triple (carry strict w0 tid s0 def rt) (write_snapshot_file (trim tid) ?s) (\<lambda>_. evo strict w0) (evo strict w0)"
    if "assertSnapshot ?s = Inr ()"
    unfolding write_snapshot_file_def by (rule triple_modify) (rule carry_write [OF _ that])
  then show ?thesis
    unfolding writeSnapshot_def Let_def using True
    by (intro seq_lift seq_read seq_require reads_intros) (auto intro: carry_evo)
next
  case False
  then have "\<not> carry strict w0 tid s0 def rt w" for w by (auto simp: carry_def)
  then show ?thesis by (simp add: triple_def)
qed

lemma commit_triple:
  assumes "ei_taskId inp = tid"
  shows "triple (carry strict w0 tid s0 (ds_definition snap) rt) (commit snap rt inp) (\<lambda>_. evo strict w0) (evo strict w0)"
  unfolding commit_def
proof (rule seq_append [OF assms])
  fix rt'
  have "carry strict w0 tid s0 d (refreshDerived rt') = carry strict w0 tid s0 d rt'" for d
    by (rule ext) (simp add: carry_def)
  then show "triple (carry strict w0 tid s0 (ds_definition snap) rt') (writeSnapshot (ds_definition snap) (refreshDerived rt'))
      (\<lambda>_. evo strict w0) (evo strict w0)"
    using writeSnapshot_triple [of strict w0 tid s0 "ds_definition snap" "refreshDerived rt'"] by simp
qed

lemma carry_refresh [simp]: "carry strict w0 tid s0 def (refreshDerived rt) = carry strict w0 tid s0 def rt"
  by (rule ext) (simp add: carry_def)

section \<open>Loading\<close>

text \<open>What a loaded snapshot guarantees to the method that loaded it.\<close>

definition loaded :: "world \<Rightarrow> string \<Rightarrow> durable_snapshot \<Rightarrow> bool" where
  "loaded w0 tid s \<longleftrightarrow> snapshot_at w0 (trim tid) = Some s \<and> snap_id s = tid \<and> assertSnapshot s = Inr () \<and>
     safeId tid ''taskId'' = Inr (trim tid)"

lemma loadSnapshotRecord_ok:
  assumes "store_ok w" "loadSnapshotRecord tid w = (Inr s, w')"
  shows "w' = w" "loaded w tid s"
proof -
  show "w' = w" using reads_loadSnapshotRecord [of tid] assms(2) by (auto simp: reads_def dest: spec [of _ w])
  from assms(2) obtain dir where dir: "safeId tid ''taskId'' = Inr dir"
    by (auto simp: loadSnapshotRecord_def eff_defs split: sum.splits)
  then have d: "dir = trim tid" using safeId_Inr by blast
  from dir assms(2) obtain t where t: "tf_snapshot (files_at w dir) = Some t"
      "parse_durable_envelope (pf_snapshotSum (ew_platform w)) (path_text (ew_platform w) dir ''snapshot.json'') t = Inr s"
      "assertSnapshot s = Inr ()" "snap_id s = tid"
    by (auto simp: loadSnapshotRecord_def eff_defs guard_res_def snap_id_def split: sum.splits option.splits if_splits)
  then have "snapshot_at w dir = Some s" by (auto simp: parse_envelope_Inr_iff)
  with t dir d show "loaded w tid s" by (simp add: loaded_def)
qed

lemma loaded_carry:
  assumes "store_ok w0" "loaded w0 tid s"
  shows "carry strict w0 tid s (ds_definition s) (ds_runtime s) w0"
  using assms store_ok_snapshot(4) [OF assms(1), of "trim tid" s] mid_refl [OF assms(1), of "trim tid"]
  by (auto simp: carry_def loaded_def snap_id_def abs_snap_def intro: a_runs.stay)

lemma evo_refl: "store_ok w \<Longrightarrow> evo strict w w"
  by (rule mid_evo [OF mid_refl])

lemma load_triple:
  assumes "\<And>s. loaded w0 tid s \<Longrightarrow>
    triple (carry strict w0 tid s (ds_definition s) (ds_runtime s)) (f s) (\<lambda>_. evo strict w0) (evo strict w0)"
  shows "triple (\<lambda>w. w = w0 \<and> store_ok w0) (bnd (loadSnapshotRecord tid) f) (\<lambda>_. evo strict w0) (evo strict w0)"
  unfolding triple_def
proof (intro allI impI)
  fix w
  assume w: "w = w0 \<and> store_ok w0"
  show "case bnd (loadSnapshotRecord tid) f w of (Inl e, t) \<Rightarrow> evo strict w0 t | (Inr x, t) \<Rightarrow> evo strict w0 t"
  proof (cases "loadSnapshotRecord tid w0")
    case (Pair r w')
    then have "w' = w0" using readsD [OF reads_loadSnapshotRecord [of tid], of w0] by auto
    show ?thesis
    proof (cases r)
      case (Inl e)
      with Pair w \<open>w' = w0\<close> show ?thesis by (simp add: bnd_def evo_refl)
    next
      case (Inr s)
      with Pair w have "loaded w0 tid s" by (auto intro: loadSnapshotRecord_ok)
      with assms [OF this] loaded_carry w Pair Inr \<open>w' = w0\<close> show ?thesis
        by (simp add: triple_def bnd_def)
    qed
  qed
qed

lemma loaded_facts:
  assumes "loaded w0 tid s"
  shows "ids_inv (abs_snap s)" "definition_ok (ds_definition s)" "td_taskId (wd_task (ds_definition s)) = tid"
    "distinct (map sr_stepId (rt_steps (ds_runtime s)))"
proof -
  have a: "assertSnapshot s = Inr ()" using assms by (simp add: loaded_def)
  show "ids_inv (abs_snap s)" "definition_ok (ds_definition s)" using assertSnapshot_facts [OF a] by auto
  then show "distinct (map sr_stepId (rt_steps (ds_runtime s)))"
    by (simp add: ids_inv_def abs_snap_def abs_task_def abs_step_def comp_def)
  show "td_taskId (wd_task (ds_definition s)) = tid" using assms by (simp add: loaded_def snap_id_def)
qed

end
