(* ===== verification/ExecutionRefinement.thy ===== *)
theory ExecutionRefinement
  imports OperationRules
begin

text \<open>
  The execution runtime implements its specification: whatever an operation of \<open>runtime.ts\<close> does to the
  store, including when it throws half way, every task moves along \<open>a_runs\<close> (\<open>run_op_evo\<close>). The
  invariants of \<open>ExecutionMachine\<close> then hold in every reachable store.
\<close>

section \<open>Methods and their moves\<close>

definition op_ok :: "bool \<Rightarrow> world \<Rightarrow> 'a store_eff \<Rightarrow> bool" where
  "op_ok strict w0 m \<longleftrightarrow> triple (\<lambda>w. w = w0 \<and> store_ok w0) m (\<lambda>_. evo strict w0) (evo strict w0)"

text \<open>The state of a method that has just loaded \<open>s\<close>.\<close>

abbreviation at_load :: "bool \<Rightarrow> world \<Rightarrow> string \<Rightarrow> durable_snapshot \<Rightarrow> world \<Rightarrow> bool" where
  "at_load strict w0 tid s \<equiv> carry strict w0 tid s (ds_definition s) (ds_runtime s)"

lemma op_ok_load:
  assumes "\<And>s. loaded w0 tid s \<Longrightarrow> triple (at_load strict w0 tid s) (f s) (\<lambda>_. evo strict w0) (evo strict w0)"
  shows "op_ok strict w0 (bnd (loadSnapshotRecord tid) f)"
  unfolding op_ok_def by (rule load_triple) (rule assms)

lemma op_ok_reads: "reads m \<Longrightarrow> op_ok strict w0 m"
  unfolding op_ok_def by (rule end_read) (auto intro: evo_refl)

lemma op_ok_bnd_read: "op_ok strict w0 m \<Longrightarrow> (\<And>x. reads (f x)) \<Longrightarrow> op_ok strict w0 (bnd m f)"
  unfolding op_ok_def by (rule triple_bnd) (auto intro: end_read)

lemma seq_with_step:
  assumes "\<And>cur. cur \<in> set (rt_steps (ds_runtime s)) \<Longrightarrow> sr_stepId cur = k \<Longrightarrow> triple P (body cur) Q E"
    and "\<And>w. P w \<Longrightarrow> E w"
  shows "triple P (with_step s k body) Q E"
  unfolding with_step_def by (rule triple_option) (use assms in \<open>auto intro: triple_throw dest!: find_key_Some\<close>)

lemma seq_with_definition:
  assumes "\<And>d cur. d \<in> set (wd_steps (ds_definition s)) \<Longrightarrow> sd_stepId d = k \<Longrightarrow>
      cur \<in> set (rt_steps (ds_runtime s)) \<Longrightarrow> sr_stepId cur = k \<Longrightarrow> triple P (body d cur) Q E"
    and "\<And>w. P w \<Longrightarrow> E w"
  shows "triple P (with_definition s k body) Q E"
  unfolding with_definition_def
  by (rule triple_option) (use assms in \<open>auto intro!: triple_throw seq_with_step dest!: find_key_Some\<close>)

lemma seq_commit:
  assumes "ei_taskId inp = tid" "\<And>w. P w \<Longrightarrow> carry strict w0 tid s (ds_definition s) rt w" "reads (f ())"
  shows "triple P (bnd (commit s rt inp) f) (\<lambda>_. evo strict w0) (evo strict w0)"
proof (rule triple_bnd)
  show "triple P (commit s rt inp) (\<lambda>_. evo strict w0) (evo strict w0)"
    by (rule triple_pre [OF commit_triple [OF assms(1)] assms(2)])
  show "triple (evo strict w0) (f x) (\<lambda>_. evo strict w0) (evo strict w0)" for x
    using assms(3) by (intro end_read) simp_all
qed

lemma event_for_task [simp]: "ei_taskId (event_for tid k a ty p i) = tid"
  by (simp add: event_for_def)

text \<open>The updates of the runtime and the moves they are.\<close>

lemma move_status:
  assumes "cur \<in> set (rt_steps rt)" "sr_stepId cur = k" "isValidStepTransition (sr_status cur) st"
    and "st \<noteq> SCompleted" "st \<noteq> SVerifying"
    and "st = SReady \<Longrightarrow> \<exists>d \<in> set (wd_steps def). sd_stepId d = k \<and> dependencyReady d (stepMap rt)"
    and "st \<in> set ACTIVE_STEPS \<Longrightarrow> sr_status cur \<notin> set ACTIVE_STEPS \<Longrightarrow>
      sr_assignmentId cur \<noteq> None \<and> active_count rt < td_maxParallelSteps (wd_task def)"
    and "\<And>r. abs_step (f r) = (abs_step r)\<lparr>ax_status := st\<rparr>"
  shows "a_move strict es (abs_task def rt) (abs_task def (set_step k f rt))"
proof -
  have "a_move strict es (abs_task def rt) (put_step k (\<lambda>r. r\<lparr>ax_status := st\<rparr>) (abs_task def rt))"
    by (rule a_move.step_move [of "abs_step cur"])
      (use assms(1-7) dependencyReady_done in \<open>auto simp: running_active\<close>)
  then show ?thesis by (simp add: abs_set_step [of f "\<lambda>r. r\<lparr>ax_status := st\<rparr>", OF assms(8)])
qed

lemma move_task: "isValidTaskTransition (tr_status (rt_task rt)) st \<Longrightarrow>
    a_move strict es (abs_task def rt) ((abs_task def rt)\<lparr>at_status := st\<rparr>)"
  by (rule a_move.task_move) simp

section \<open>Methods that leave the statuses alone\<close>

lemma carry_set_step_same:
  "carry strict w0 tid s def rt w \<Longrightarrow> (\<And>r. abs_step (f r) = abs_step r) \<Longrightarrow> carry strict w0 tid s def (set_step k f rt) w"
  by (rule carry_same) (auto simp: abs_set_step_same carry_def)

lemma carry_bindings [simp]:
  "carry strict w0 tid s def (rt\<lparr>rt_sessionBindings := bs\<rparr>) = carry strict w0 tid s def rt"
  by (rule ext) (simp add: carry_def)

lemma recordSkillPreflight_ok: "op_ok strict w0 (recordSkillPreflight tid k p)"
  unfolding recordSkillPreflight_def Let_def
  by (intro op_ok_load seq_with_definition seq_require seq_read [of "gets f" for f] seq_commit reads_intros carry_set_step_same)
    (auto intro: carry_evo simp: abs_step_def)

lemma recordArtifact_ok: "op_ok strict w0 (recordArtifact tid k a i)"
  unfolding recordArtifact_def
  by (intro op_ok_load seq_with_step seq_commit reads_intros) (auto intro: carry_evo)

lemma updateSessionBindingState_ok: "op_ok strict w0 (updateSessionBindingState tid b st)"
  unfolding updateSessionBindingState_def Let_def
  by (intro op_ok_load triple_option triple_throw seq_lift seq_now seq_commit reads_intros) (auto intro: carry_evo)

lemma bindSession_ok: "op_ok strict w0 (bindSession aid inp)"
  unfolding bindSession_def Let_def op_ok_def
  by (intro seq_read [OF reads_taskIdForAssignment] load_triple triple_option triple_throw seq_require seq_now
      seq_uuid seq_commit reads_intros) (auto intro: carry_evo evo_refl)


section \<open>Methods that move one step\<close>

text \<open>Which progress reports the strict relation leaves out.\<close>

definition resumes_fix :: "world \<Rightarrow> string \<Rightarrow> string \<Rightarrow> bool" where
  "resumes_fix w tid k \<longleftrightarrow> (case snapshot_at w (trim tid) of None \<Rightarrow> False
     | Some s \<Rightarrow> list_ex (\<lambda>r. sr_stepId r = k \<and> sr_status r = SFixRequired) (rt_steps (ds_runtime s)))"

lemma carry_step:
  assumes "carry strict w0 tid s def rt w"
    and "\<And>es. a_move strict es (abs_task def rt) (abs_task def (set_step k f rt))"
  shows "carry strict w0 tid s def (set_step k f rt) w"
  using assms by (intro carry_move [OF assms(1)]) (auto simp: carry_def)

lemma recordProgress_ok:
  assumes "strict \<longrightarrow> \<not> resumes_fix w0 tid k"
  shows "op_ok strict w0 (recordProgress tid k q act i)"
proof -
  have move: "a_move strict es (abs_task def (ds_runtime s)) (abs_task def (set_step k (\<lambda>r. r\<lparr>sr_status := SRunning,
      sr_progress := n, sr_currentActivity := a, sr_blocker := None\<rparr>) (ds_runtime s)))"
    if "loaded w0 tid s" "cur \<in> set (rt_steps (ds_runtime s))" "sr_stepId cur = k"
      "sr_status cur \<in> {SDispatching, SRunning, SWaitingReport, SFixRequired}"
      "strict \<longrightarrow> \<not> resumes_fix w0 tid k" for es def s cur n a k
  proof -
    have "strict \<Longrightarrow> sr_status cur \<noteq> SFixRequired"
      using that by (auto simp: resumes_fix_def loaded_def list_ex_iff)
    then have "a_move strict es (abs_task def (ds_runtime s))
        (put_step k (\<lambda>r. r\<lparr>ax_status := SRunning\<rparr>) (abs_task def (ds_runtime s)))"
      using that(2-4) by (intro a_move.progress [of "abs_step cur"]) auto
    then show ?thesis by (simp add: abs_set_step [of _ "\<lambda>r. r\<lparr>ax_status := SRunning\<rparr>"] abs_step_def)
  qed
  have skip: "triple P (bnd (if b then lift_res r else ret ()) f) Q E"
    if "triple P (f ()) Q E" "\<And>w. P w \<Longrightarrow> E w" for P E and Q :: "'a \<Rightarrow> world \<Rightarrow> bool" and b r and f :: "unit \<Rightarrow> 'a store_eff"
    using that by (cases b) (auto intro: seq_lift)
  show ?thesis
    unfolding recordProgress_def using assms
    by (intro op_ok_load seq_with_step seq_require seq_lift skip seq_commit reads_intros)
      (auto intro: carry_evo carry_step move)
qed

lemma requestCompletion_ok: "op_ok strict w0 (requestCompletion tid k i)"
proof -
  have move: "a_move strict es (abs_task def rt) (abs_task def (set_step k (\<lambda>r. r\<lparr>sr_status := SVerifying,
      sr_progress := max (sr_progress r) n\<rparr>) rt))"
    if "cur \<in> set (rt_steps rt)" "sr_stepId cur = k" "drop_empty (sr_assignmentId cur) \<noteq> None"
      "\<not> (sr_status cur \<notin> set ACTIVE_STEPS \<and> active_count rt \<ge> td_maxParallelSteps (wd_task def))"
      "isValidStepTransition (sr_status cur) SVerifying" for es def rt cur k n
  proof -
    have "a_move strict es (abs_task def rt) (put_step k (\<lambda>r. r\<lparr>ax_status := SVerifying\<rparr>) (abs_task def rt))"
      using that by (intro a_move.verify [of "abs_step cur"]) (auto simp: running_active drop_empty_def split: if_splits)
    then show ?thesis by (simp add: abs_set_step [of _ "\<lambda>r. r\<lparr>ax_status := SVerifying\<rparr>"] abs_step_def)
  qed
  show ?thesis
    unfolding requestCompletion_def
    by (intro op_ok_load seq_with_step seq_require seq_lift seq_commit reads_intros)
      (auto intro: carry_evo carry_step move simp: assertStepTransition_def guard_res_def split: if_splits)
qed

lemma gateFailed_ok: "op_ok strict w0 (gateFailed tid k reason)"
proof -
  have move: "a_move strict es (abs_task def rt) (abs_task def (set_step k (\<lambda>r. r\<lparr>sr_status := SFixRequired,
      sr_blocker := b\<rparr>) rt))"
    if "cur \<in> set (rt_steps rt)" "sr_stepId cur = k" "sr_status cur = SVerifying" for es def rt cur b k
    using that by (intro move_status [of cur]) (auto simp: isValidStepTransition_def ACTIVE_STEPS_def abs_step_def)
  show ?thesis
    unfolding gateFailed_def Let_def
    by (intro op_ok_load seq_with_step seq_require seq_lift seq_commit reads_intros)
      (auto intro: carry_evo carry_step move)
qed

lemma createAssignment_ok: "op_ok strict w0 (createAssignment tid k ex eid)"
proof -
  have move: "carry strict w0 tid s def (rt2\<lparr>rt_assignments := rt_assignments rt2 @ [asg]\<rparr>) w"
    if c: "carry strict w0 tid s def rt w" and cur: "cur \<in> set (rt_steps rt)" "sr_stepId cur = k"
      and d: "d \<in> set (wd_steps def)" "sd_stepId d = k"
      and g: "tr_status (rt_task rt) \<notin> {TCompleted, TCancelled, TFailed}"
        "sr_status cur = SReady \<or> sr_status cur = SFixRequired" "\<not> sr_attempt cur \<ge> sd_maxAttempts d"
        "dependencyReady d (stepMap rt)" "\<not> active_count rt \<ge> td_maxParallelSteps (wd_task def)"
      and asg: "as_stepId asg = k" "as_attempt asg = sr_attempt cur + 1"
      and rt2: "rt2 = set_step k (\<lambda>r. r\<lparr>sr_status := SDispatching, sr_attempt := as_attempt asg,
           sr_assignmentId := Some (as_assignmentId asg), sr_blocker := None\<rparr>)
           (if tr_status (rt_task rt) = TReady then set_task_status TRunning rt else rt)"
      and one: "distinct (map sr_stepId (rt_steps rt))"
    for s def rt w cur d asg rt2
  proof (rule carry_move [OF c])
    let ?t = "abs_task def rt" and ?aid = "as_assignmentId asg"
    let ?g = "\<lambda>s. s\<lparr>ax_status := SDispatching, ax_assigned := Some ?aid, ax_attempt := ax_attempt s + 1\<rparr>"
    have m: "a_move strict (events_at w (trim tid)) ?t ((put_step k ?g ?t)\<lparr>at_asgs := at_asgs ?t @ [k],
       at_status := (if at_status ?t = TReady then TRunning else at_status ?t)\<rparr>)"
      by (rule a_move.assign [of "abs_step cur" _ k d])
        (use cur d g dependencyReady_done in \<open>auto simp: running_active\<close>)
    have "r = cur" if "r \<in> set (rt_steps rt)" "sr_stepId r = k" for r
      using one cur that by (auto simp: distinct_map inj_on_def)
    then have "map abs_step (rt_steps rt2) = map_key ax_id k ?g (map abs_step (rt_steps rt))"
      using asg by (auto simp: rt2 set_step_def set_task_status_def map_key_def abs_step_def)
    then have "abs_task def (rt2\<lparr>rt_assignments := rt_assignments rt2 @ [asg]\<rparr>) =
        (put_step k ?g ?t)\<lparr>at_asgs := at_asgs ?t @ [k],
          at_status := (if at_status ?t = TReady then TRunning else at_status ?t)\<rparr>"
      using asg(1) by (simp add: abs_task_def put_step_def rt2 set_step_def set_task_status_def)
    with m show "a_move strict (events_at w (trim tid)) ?t (abs_task def (rt2\<lparr>rt_assignments := rt_assignments rt2 @ [asg]\<rparr>))"
      by simp
  qed (use c in \<open>simp_all add: rt2 carry_def\<close>)
  show ?thesis
    unfolding createAssignment_def Let_def
    by (intro op_ok_load seq_with_definition seq_require seq_lift seq_now seq_uuid seq_commit reads_intros)
      (erule carry_evo | rule event_for_task | simp only: carry_counters
        | erule move [OF _ _ _ _ _ _ _ _ _ _ _ _ refl], (assumption | erule loaded_facts | simp)+)+
qed


section \<open>Transitions of tasks and steps\<close>

lemma seq_append_pre:
  assumes "\<And>w. carry strict w0 tid s def rt0 w \<Longrightarrow> carry strict w0 tid s def rt w" "ei_taskId inp = tid"
    and "\<And>rt'. triple (carry strict w0 tid s def rt') (f rt') Q (evo strict w0)"
  shows "triple (carry strict w0 tid s def rt0) (bnd (appendEvent rt inp) f) Q (evo strict w0)"
  by (rule triple_pre [OF seq_append [OF assms(2,3)] assms(1)])

lemma append_pre:
  assumes "\<And>w. P w \<Longrightarrow> carry strict w0 tid s def rt w" "ei_taskId inp = tid"
  shows "triple P (appendEvent rt inp) (\<lambda>rt'. carry strict w0 tid s def rt') (evo strict w0)"
  by (rule triple_pre [OF appendEvent_triple [OF assms(2)] assms(1)])

lemma seq_write:
  assumes "reads (f ())"
  shows "triple (carry strict w0 tid s def rt) (bnd (writeSnapshot def (refreshDerived rt)) f) (\<lambda>_. evo strict w0) (evo strict w0)"
proof (rule triple_bnd)
  show "triple (carry strict w0 tid s def rt) (writeSnapshot def (refreshDerived rt)) (\<lambda>_. evo strict w0) (evo strict w0)"
    using writeSnapshot_triple [of strict w0 tid s def "refreshDerived rt"] by simp
qed (use assms in \<open>simp add: end_read\<close>)

lemma bnd_if: "bnd (if b then m else n) f = (if b then bnd m f else bnd n f)"
  by simp

lemma assertTaskTransition_Inr: "assertTaskTransition a b = Inr u \<longleftrightarrow> isValidTaskTransition a b"
  by (simp add: assertTaskTransition_def guard_res_def)

lemma assertStepTransition_Inr: "assertStepTransition a b = Inr u \<longleftrightarrow> isValidStepTransition a b"
  by (simp add: assertStepTransition_def guard_res_def)

lemma carry_task_status:
  assumes "carry strict w0 tid s def rt w" "isValidTaskTransition (tr_status (rt_task rt)) st"
    and "abs_task def rt' = (abs_task def rt)\<lparr>at_status := st\<rparr>" "last_seq rt' = last_seq rt"
  shows "carry strict w0 tid s def rt' w"
  using assms by (intro carry_move [OF assms(1)]) (auto simp: carry_def intro: move_task)

lemma transitionTask_ok: "op_ok strict w0 (transitionTask tid st reason)"
proof -
  have "carry strict w0 tid s def (rt\<lparr>rt_task := (rt_task rt)\<lparr>tr_status := st, tr_blockers := b\<rparr>\<rparr>) w"
    if "carry strict w0 tid s def rt w" "assertTaskTransition (tr_status (rt_task rt)) st = Inr u" for s def rt b w u
    using that by (intro carry_task_status [OF that(1)]) (auto simp: assertTaskTransition_Inr abs_task_def last_seq_def)
  then show ?thesis
    unfolding transitionTask_def Let_def
    by (intro op_ok_load seq_lift seq_append_pre seq_write reads_intros) (auto intro: carry_evo)
qed

lemma cancel_if_settled_triple:
  "triple (carry strict w0 tid s def rt) (cancel_if_settled tid rt) (\<lambda>rt'. carry strict w0 tid s def rt') (evo strict w0)"
  unfolding cancel_if_settled_def
  by (intro seq_lift append_pre) (auto intro: carry_evo carry_task_status simp: assertTaskTransition_Inr)

lemma step_from_ready:
  assumes "stepMap rt (sd_stepId d) = Some cur"
  shows "cur \<in> set (rt_steps rt)" "sr_stepId cur = sd_stepId d"
  using assms by (auto simp: stepMap_def dest: map_get_Some)

lemma carry_status:
  assumes c: "carry strict w0 tid s def rt w" and cur: "stepMap rt (sd_stepId d) = Some cur"
    and d: "d \<in> set (wd_steps def)" and v: "isValidStepTransition (sr_status cur) st"
    and st: "st \<in> {SReady, SWaitingDependency}" "st = SReady \<Longrightarrow> dependencyReady d (stepMap rt)"
  shows "carry strict w0 tid s def (set_step (sr_stepId cur) (\<lambda>s. s\<lparr>sr_status := st\<rparr>) rt) w"
  by (rule carry_step [OF c]) (rule move_status [of cur],
      use step_from_ready [OF cur] d v st in \<open>auto simp: abs_step_def ACTIVE_STEPS_def\<close>)

lemma reconcile_one_triple:
  assumes "d \<in> set (wd_steps def)"
  shows "triple (carry strict w0 tid s def rt) (reconcile_one tid d rt) (\<lambda>rt'. carry strict w0 tid s def rt') (evo strict w0)"
  unfolding reconcile_one_def Let_def
  by (intro triple_option triple_throw triple_if triple_ret seq_lift append_pre carry_status [OF _ _ assms])
    (auto intro: carry_evo simp: assertStepTransition_Inr split: if_splits)

lemma reconcileReadiness_ok: "op_ok strict w0 (reconcileReadiness tid)"
  unfolding reconcileReadiness_def Let_def
proof (intro op_ok_load triple_bnd [OF triple_for_each [of _ "carry strict w0 tid s (ds_definition s)" for s]])
  fix s :: durable_snapshot and d rt
  assume "d \<in> set (wd_steps (ds_definition s))"
  then show "triple (carry strict w0 tid s (ds_definition s) rt) (reconcile_one tid d rt)
      (carry strict w0 tid s (ds_definition s)) (evo strict w0)"
    using reconcile_one_triple [of d "ds_definition s" strict w0 tid s rt] by simp
next
  fix s :: durable_snapshot and rt
  show "triple (carry strict w0 tid s (ds_definition s) rt)
      (bnd (writeSnapshot (ds_definition s) (refreshDerived rt)) (\<lambda>_. ret (planExecutionSchedule (wd_steps (ds_definition s))
        (rt_steps (refreshDerived rt)) (td_maxParallelSteps (wd_task (ds_definition s))))))
      (\<lambda>_. evo strict w0) (evo strict w0)"
    by (intro seq_write reads_intros)
qed


lemma carry_transition:
  assumes c: "carry strict w0 tid s def rt w" and cur: "cur \<in> set (rt_steps rt)" "sr_stepId cur = k"
    and st: "st \<noteq> SCompleted" "st \<noteq> SVerifying" "isValidStepTransition (sr_status cur) st"
    and rdy: "\<not> (st = SReady \<and> \<not> (case find_key sd_stepId k (wd_steps def) of None \<Rightarrow> False
       | Some d \<Rightarrow> dependencyReady d (stepMap rt)))"
    and act: "st \<in> set ACTIVE_STEPS \<and> sr_status cur \<notin> set ACTIVE_STEPS \<Longrightarrow>
      drop_empty (sr_assignmentId cur) \<noteq> None \<and> \<not> active_count rt \<ge> td_maxParallelSteps (wd_task def)"
  shows "carry strict w0 tid s def (set_step k (\<lambda>r. r\<lparr>sr_status := st, sr_blocker := b r\<rparr>) rt) w"
proof (rule carry_step [OF c], rule move_status [of cur])
  assume "st = SReady"
  with rdy obtain d where "find_key sd_stepId k (wd_steps def) = Some d" "dependencyReady d (stepMap rt)"
    by (auto split: option.splits)
  then show "\<exists>d \<in> set (wd_steps def). sd_stepId d = k \<and> dependencyReady d (stepMap rt)"
    by (auto dest!: find_key_Some)
next
  assume "st \<in> set ACTIVE_STEPS" "sr_status cur \<notin> set ACTIVE_STEPS"
  with act show "sr_assignmentId cur \<noteq> None \<and> active_count rt < td_maxParallelSteps (wd_task def)"
    by (auto simp: drop_empty_def split: if_splits)
qed (use cur st in \<open>simp_all add: abs_step_def\<close>)

lemma transitionStep_ok: "op_ok strict w0 (transitionStep tid k st reason i)"
proof -
  have fin: "triple (carry strict w0 tid s def rt) (bnd (if b then cancel_if_settled tid (refreshDerived rt)
      else ret (refreshDerived rt)) (\<lambda>rt. bnd (writeSnapshot def rt) (\<lambda>_. snapshot tid))) (\<lambda>_. evo strict w0) (evo strict w0)"
    for s def rt b
  proof (rule triple_bnd)
    show "triple (carry strict w0 tid s def rt) (if b then cancel_if_settled tid (refreshDerived rt) else ret (refreshDerived rt))
        (\<lambda>rt'. carry strict w0 tid s def rt') (evo strict w0)"
      using cancel_if_settled_triple [of strict w0 tid s def "refreshDerived rt"] by (auto intro: triple_ret)
    show "triple (carry strict w0 tid s def rt') (bnd (writeSnapshot def rt') (\<lambda>_. snapshot tid)) (\<lambda>_. evo strict w0) (evo strict w0)"
      for rt'
      by (rule triple_bnd [OF writeSnapshot_triple]) (auto intro!: end_read reads_intros)
  qed
  have main: "op_ok strict w0 (bnd (loadSnapshotRecord tid) (\<lambda>snap.
      with_step snap k (\<lambda>current.
      bnd (lift_res (assertStepTransition (sr_status current) st)) (\<lambda>_.
      bnd (require_that (\<not> (st = SReady \<and>
          \<not> (case find_key sd_stepId k (wd_steps (ds_definition snap)) of None \<Rightarrow> False
             | Some def \<Rightarrow> dependencyReady def (stepMap (ds_runtime snap))))) e1) (\<lambda>_.
      bnd (if st \<in> set ACTIVE_STEPS \<and> sr_status current \<notin> set ACTIVE_STEPS
        then bnd (require_that (drop_empty (sr_assignmentId current) \<noteq> None) e2) (\<lambda>_.
          require_that (\<not> active_count (ds_runtime snap) \<ge> td_maxParallelSteps (wd_task (ds_definition snap))) e3)
        else ret ()) (\<lambda>_.
      bnd (appendEvent (set_step k (\<lambda>s. s\<lparr>sr_status := st, sr_blocker := b s\<rparr>) (ds_runtime snap)) (event_for tid (Some k) (sr_assignmentId current) ty
          (pl current) identity)) (\<lambda>rt.
      bnd (if B rt then cancel_if_settled tid (refreshDerived rt) else ret (refreshDerived rt)) (\<lambda>rt.
      bnd (writeSnapshot (ds_definition snap) rt) (\<lambda>_. snapshot tid)))))))))"
    if st: "st \<noteq> SCompleted" "st \<noteq> SVerifying" for e1 e2 e3 b ty pl identity B
    unfolding bnd_if bnd_assoc bnd_ret
    by (intro op_ok_load seq_with_step seq_lift seq_require triple_if seq_append_pre
          carry_transition [OF _ _ _ st] fin [unfolded bnd_if bnd_ret])
      (auto intro: carry_evo simp: assertStepTransition_Inr)
  show ?thesis
  proof (cases "st = SCompleted \<or> st = SVerifying")
    case True
    then show ?thesis
      unfolding transitionStep_def by (auto intro: op_ok_reads reads_intros requestCompletion_ok)
  next
    case False
    then have st: "st \<noteq> SCompleted" "st \<noteq> SVerifying" by auto
    show ?thesis
      unfolding transitionStep_def Let_def using st main [OF st] by simp
  qed
qed


section \<open>Passing the gate\<close>

lemma outputs_check_met:
  assumes "outputs_check (artifact_events (sd_stepId d) aid es) (sd_expectedOutputs d) = Inr u"
  shows "outputs_met es d aid"
proof -
  have "List.find (output_missing (artifact_events (sd_stepId d) aid es)) (filter eo_required (sd_expectedOutputs d)) = None"
    using assms by (simp add: outputs_check_def split: option.splits)
  then show ?thesis by (auto simp: outputs_met_def find_None_iff)
qed

lemma ready_dependent_triple:
  assumes "d \<in> set (wd_steps def)"
  shows "triple (carry strict w0 tid s def rt) (ready_dependent tid d rt) (\<lambda>rt'. carry strict w0 tid s def rt') (evo strict w0)"
  unfolding ready_dependent_def
  by (intro triple_option triple_throw triple_if triple_ret append_pre carry_status [OF _ _ assms])
    (auto intro: carry_evo simp: isValidStepTransition_def)

lemma settle_task_triple:
  "triple (carry strict w0 tid s def rt) (settle_task tid rt) (\<lambda>rt'. carry strict w0 tid s def rt') (evo strict w0)"
  unfolding settle_task_def
  by (intro triple_if triple_ret seq_lift append_pre cancel_if_settled_triple)
    (auto intro: carry_evo carry_task_status simp: assertTaskTransition_Inr)

lemma outputs_read_triple:
  assumes "sd_stepId d = k"
  shows "triple (carry strict w0 tid s def rt)
    (if ''required_outputs'' \<in> set (sd_completionGate d) \<or> human
     then bnd (readEvents tid) (\<lambda>events. lift_res (outputs_check (artifact_events k aid events) (sd_expectedOutputs d)))
     else ret ())
    (\<lambda>_ w. carry strict w0 tid s def rt w \<and> outputs_met (events_at w (trim tid)) d aid) (evo strict w0)"
  using assms by (intro triple_if seq_readEvents triple_lift_res triple_ret)
    (auto intro: carry_evo dest: outputs_check_met simp: outputs_met_def)

lemma gatePassed_ok: "op_ok strict w0 (gatePassed tid k ev)"
proof -
  have move: "carry strict w0 tid s def (set_step k (\<lambda>r. r\<lparr>sr_status := SCompleted, sr_progress := 1,
      sr_currentActivity := None, sr_blocker := None\<rparr>) rt) w"
    if c: "carry strict w0 tid s def rt w" and o: "outputs_met (events_at w (trim tid)) d (sr_assignmentId cur)"
      and cur: "cur \<in> set (rt_steps rt)" "sr_stepId cur = k" "sr_status cur = SVerifying"
      and d: "d \<in> set (wd_steps def)" "sd_stepId d = k" for s def rt w d cur
  proof -
    have "a_move strict (events_at w (trim tid)) (abs_task def rt)
        (put_step k (\<lambda>r. r\<lparr>ax_status := SCompleted\<rparr>) (abs_task def rt))"
      by (rule a_move.complete [of "abs_step cur" _ k d]) (use o cur d in auto)
    then show ?thesis
      using c by (intro carry_move [OF c])
        (auto simp: abs_set_step [of _ "\<lambda>r. r\<lparr>ax_status := SCompleted\<rparr>"] abs_step_def carry_def)
  qed
  have rest: "triple (carry strict w0 tid s (ds_definition s) rt)
      (bnd (for_each (wd_steps (ds_definition s)) (ready_dependent tid) rt) (\<lambda>rt.
       bnd (settle_task tid rt) (\<lambda>rt.
       bnd (writeSnapshot (ds_definition s) (refreshDerived rt)) (\<lambda>_. snapshot tid)))) (\<lambda>_. evo strict w0) (evo strict w0)"
    for s :: durable_snapshot and rt
    by (intro triple_bnd [OF triple_for_each [of _ "carry strict w0 tid s (ds_definition s)"]]
        triple_bnd [OF settle_task_triple] seq_write reads_intros ready_dependent_triple)
  show ?thesis
    unfolding gatePassed_def
  proof (intro op_ok_load seq_with_step seq_require triple_option triple_throw seq_lift)
    fix s :: durable_snapshot and cur d and u :: unit
    assume cur: "cur \<in> set (rt_steps (ds_runtime s))" "sr_stepId cur = k" "sr_status cur = SVerifying"
      and d: "find_key sd_stepId k (wd_steps (ds_definition s)) = Some d"
    from find_key_Some [OF d] have d: "d \<in> set (wd_steps (ds_definition s))" "sd_stepId d = k" by auto
    show "triple (at_load strict w0 tid s)
        (bnd (if ''required_outputs'' \<in> set (sd_completionGate d) \<or> map_of ev ''source'' = Some HUMAN_REVIEW
          then bnd (readEvents tid) (\<lambda>events.
            lift_res (outputs_check (artifact_events k (sr_assignmentId cur) events) (sd_expectedOutputs d)))
          else ret ()) (\<lambda>_.
        bnd (lift_res (assertStepTransition (sr_status cur) SCompleted)) (\<lambda>_.
        bnd (appendEvent (set_step k (\<lambda>s. s\<lparr>sr_status := SCompleted, sr_progress := 1, sr_currentActivity := None,
              sr_blocker := None\<rparr>) (ds_runtime s))
            (event_for tid (Some k) (sr_assignmentId cur) EvGatePassed ev None)) (\<lambda>rt.
        bnd (for_each (wd_steps (ds_definition s)) (ready_dependent tid) rt) (\<lambda>rt.
        bnd (settle_task tid rt) (\<lambda>rt.
        bnd (writeSnapshot (ds_definition s) (refreshDerived rt)) (\<lambda>_.
        snapshot tid))))))) (\<lambda>_. evo strict w0) (evo strict w0)"
      by (rule triple_bnd [OF outputs_read_triple [OF d(2)]], rule seq_lift,
          rule triple_bnd [OF append_pre [of _ strict w0 tid s "ds_definition s"]])
        (auto intro: move [OF _ _ cur d] rest carry_evo)
  qed (auto intro: carry_evo)
qed

section \<open>Adding steps\<close>

lemma build_steps_ids:
  "build_steps msg tid at' seen ds = Inr out \<Longrightarrow> map sd_stepId out = map sf_stepId ds \<and>
     distinct (map sf_stepId ds) \<and> sf_stepId ` set ds \<inter> set seen = {}"
  by (induction msg tid at' seen ds arbitrary: out rule: build_steps.induct) (auto split: if_splits sum.splits)

lemma abs_initialStep [simp]: "abs_step (initialStepRuntime completed d) = fresh_step completed d"
  by (auto simp: abs_step_def initialStepRuntime_def fresh_step_def list_all_iff)

lemma loaded_defs: "loaded w tid s \<Longrightarrow> distinct (map sd_stepId (wd_steps (ds_definition s)))"
  by (rule definition_ok_distinct) (rule loaded_facts)

lemma addSteps_ok: "op_ok strict w0 (addSteps tid drafts)"
proof -
  have extended: "carry strict w0 tid s (def\<lparr>wd_revision := n, wd_steps := wd_steps def @ ds\<rparr>)
      (refreshDerived (rt\<lparr>rt_steps := rt_steps rt @ map (initialStepRuntime completed) ds\<rparr>)) w"
    if c: "carry strict w0 tid s def rt w" and st: "tr_status (rt_task rt) \<noteq> TCompleted \<and> tr_status (rt_task rt) \<noteq> TCancelled"
      and bs: "build_steps msg tid at' (map sd_stepId (wd_steps def)) drafts = Inr ds"
      and ok: "distinct (map sd_stepId (wd_steps def))"
      and co: "completed = map sr_stepId (filter (\<lambda>s. sr_status s = SCompleted) (rt_steps rt))"
    for s def rt w n ds msg at' completed
  proof (rule carry_move [OF c])
    let ?t = "abs_task def rt"
    have "distinct (map sd_stepId (wd_steps def @ ds))"
      using build_steps_ids [OF bs] ok by (auto simp: image_iff simp flip: set_map)
    moreover have "set completed = {x. done_in ?t x}"
      by (auto simp: co done_in_def)
    ultimately have "a_move strict (events_at w (trim tid)) ?t
        (?t\<lparr>at_defs := at_defs ?t @ ds, at_steps := at_steps ?t @ map (fresh_step completed) ds\<rparr>)"
      using st by (intro a_move.extend) auto
    then show "a_move strict (events_at w (trim tid)) ?t (abs_task (def\<lparr>wd_revision := n, wd_steps := wd_steps def @ ds\<rparr>)
        (refreshDerived (rt\<lparr>rt_steps := rt_steps rt @ map (initialStepRuntime completed) ds\<rparr>)))"
      by (simp add: abs_task_def comp_def refreshDerived_def)
  qed (use c in \<open>simp_all add: carry_def\<close>)
  have rest: "triple (carry strict w0 tid s def rt)
      (bnd (for_each ds (\<lambda>d rt. appendEvent rt (event_for tid (Some (sd_stepId d)) None EvStepAdded (pl d) None)) rt)
        (\<lambda>rt. bnd (writeSnapshot def (refreshDerived rt)) (\<lambda>_. snapshot tid))) (\<lambda>_. evo strict w0) (evo strict w0)"
    for s def rt ds pl
    by (intro triple_bnd [OF triple_for_each [of _ "carry strict w0 tid s def"]] seq_write reads_intros append_pre) auto
  show ?thesis
  proof (cases "drafts = []")
    case True
    then show ?thesis by (simp add: addSteps_def op_ok_reads reads_intros)
  next
    case False
    then show ?thesis
      unfolding addSteps_def Let_def
      by (simp only: if_False) (intro op_ok_load seq_require seq_now seq_lift triple_pre [OF rest],
        (erule carry_evo | simp only: carry_counters | erule extended [OF _ _ _ _ refl],
          (assumption | erule loaded_defs)+)+)
  qed
qed

section \<open>Archiving and deleting\<close>

lemma carry_archive:
  assumes c: "carry strict w0 tid s def rt w"
  shows "carry strict w0 tid s def rt (put_files (trim tid) ((files_at w (trim tid))\<lparr>tf_archive := a\<rparr>) w)"
proof -
  let ?w = "put_files (trim tid) ((files_at w (trim tid))\<lparr>tf_archive := a\<rparr>) w"
  have same: "events_at ?w = events_at w" "tf_temps (files_at ?w d) = tf_temps (files_at w d)"
    "tf_snapshot (files_at ?w d) = tf_snapshot (files_at w d)" "tf_events (files_at ?w d) = tf_events (files_at w d)" for d
    by (auto simp: events_at_def)
  have "mid w0 (trim tid) w" using c by (simp add: carry_def)
  then have "mid w0 (trim tid) ?w"
    unfolding mid_def same by (auto simp del: fun_upd_apply) simp
  with c same(1) show ?thesis by (simp add: carry_def)
qed

lemma writeArchive_triple:
  "triple (carry strict w0 tid s def rt) (writeArchive tid archived at') (\<lambda>_. carry strict w0 tid s def rt) (evo strict w0)"
proof (cases "safeId tid ''taskId'' = Inr (trim tid)")
  case True
  show ?thesis
    unfolding writeArchive_def Let_def True lift_res_simps bnd_ret
    by (rule triple_bnd [OF triple_modify [where Q = "\<lambda>_. carry strict w0 tid s def rt"]])
      (auto intro: carry_archive triple_ret)
next
  case False
  then have "\<not> carry strict w0 tid s def rt w" for w by (auto simp: carry_def)
  then show ?thesis by (simp add: triple_def)
qed

lemma setTaskArchived_ok: "op_ok strict w0 (setTaskArchived tid archived)"
  unfolding setTaskArchived_def
  by (intro op_ok_load seq_read [OF reads_readArchive] triple_if end_read seq_now
      triple_bnd [OF writeArchive_triple] seq_commit reads_intros) (auto intro: carry_evo)

lemma delete_evo:
  assumes c: "carry strict w0 tid s def rt w"
  shows "evo strict w0 (w\<lparr>ew_tasks := AList.delete (trim tid) (ew_tasks w)\<rparr>)"
proof -
  let ?w = "w\<lparr>ew_tasks := AList.delete (trim tid) (ew_tasks w)\<rparr>"
  have m: "mid w0 (trim tid) w" and ok: "store_ok w" using c by (auto simp: carry_def intro: mid_store_ok)
  have gone: "events_at ?w (trim tid) = []" "snapshot_at ?w (trim tid) = None" "files_at ?w (trim tid) = no_files"
    by (simp_all add: events_at_def snapshot_at_def no_files_def List.map_filter_def)
  have other: "events_at ?w d = events_at w d" "snapshot_at ?w d = snapshot_at w d" "files_at ?w d = files_at w d"
    if "d \<noteq> trim tid" for d
    using that by (simp_all add: events_at_def snapshot_at_def)
  have "store_ok ?w"
    unfolding store_ok_def
  proof
    fix d
    show "tf_temps (files_at ?w d) = [] \<and> log_ok (ew_platform ?w) (tf_events (files_at ?w d)) (events_at ?w d) \<and>
        snapshot_ok (ew_platform ?w) d (events_at ?w d) (tf_snapshot (files_at ?w d))"
    proof (cases "d = trim tid")
      case True
      show ?thesis unfolding True gone by (simp add: no_files_def snapshot_ok_def)
    next
      case False
      show ?thesis unfolding other [OF False] using ok by (simp add: store_ok_def)
    qed
  qed
  moreover have "evo_at strict w0 ?w d" for d
  proof (cases "d = trim tid")
    case True
    show ?thesis unfolding True evo_at_def gone by (simp split: option.splits)
  next
    case False
    have "evo_at strict w0 ?w d = evo_at strict w0 w d" unfolding evo_at_def other [OF False] by (rule refl)
    with mid_evo [OF m, of strict] show ?thesis by (simp add: evo_def)
  qed
  ultimately show ?thesis using m by (simp add: evo_def mid_def)
qed

lemma deleteTask_ok: "op_ok strict w0 (deleteTask tid)"
proof -
  have "triple (carry strict w0 tid s def rt) (deleteTask_store tid) (\<lambda>_. evo strict w0) (evo strict w0)" for s def rt
  proof (cases "safeId tid ''taskId'' = Inr (trim tid)")
    case True
    show ?thesis
      unfolding deleteTask_store_def True lift_res_simps bnd_ret
      by (intro seq_read [of "gets f" for f] seq_read [OF reads_loadSnapshotRecord] seq_require triple_modify reads_intros)
        (auto intro: carry_evo delete_evo)
  next
    case False
    then have "\<not> carry strict w0 tid s def rt w" for w by (auto simp: carry_def)
    then show ?thesis by (simp add: triple_def)
  qed
  then show ?thesis
    unfolding deleteTask_def by (intro op_ok_load seq_require) (auto intro: carry_evo)
qed

section \<open>Reconciling\<close>

lemma same_files_evo:
  assumes "store_ok w0" "files_at w = files_at w0" "ew_platform w = ew_platform w0"
  shows "evo strict w0 w"
proof -
  have "events_at w = events_at w0" "snapshot_at w = snapshot_at w0"
    using assms(2) by (auto simp: events_at_def snapshot_at_def)
  then have "evo_at strict w0 w d = evo_at strict w0 w0 d" "store_ok w = store_ok w0" for d
    using assms(2,3) by (simp_all only: evo_at_def store_ok_def)
  with evo_refl [OF assms(1), of strict] assms show ?thesis by (simp add: evo_def)
qed

lemma same_start:
  assumes "files_at w1 = files_at w0" "ew_platform w1 = ew_platform w0" "evo strict w1 w"
  shows "evo strict w0 w"
proof -
  have "events_at w1 = events_at w0" "snapshot_at w1 = snapshot_at w0"
    using assms(1) by (auto simp: events_at_def snapshot_at_def)
  then have "evo_at strict w1 w d = evo_at strict w0 w d" for d by (simp only: evo_at_def)
  with assms(2,3) show ?thesis by (simp add: evo_def)
qed

lemma reconcile_ok: "op_ok strict w0 (reconcile tid)"
proof -
  let ?I = "\<lambda>w. store_ok w0 \<and> files_at w = files_at w0 \<and> ew_platform w = ew_platform w0"
  have rec: "triple ?I (\<lambda>w. let (r, f) = recoverInterruptedWrite (ew_platform w)
        (path_text (ew_platform w) dir ''snapshot.json'') (files_at w dir)
      in (r, if map_of (ew_tasks w) dir = None then w else put_files dir f w)) (\<lambda>_. ?I) (evo strict w0)" for dir
    by (auto simp: triple_def recoverInterruptedWrite_def store_ok_def)
  have "triple ?I (reconcile tid) (\<lambda>_. evo strict w0) (evo strict w0)"
    unfolding reconcile_def Let_def
    by (rule seq_lift, rule triple_bnd [OF rec [unfolded Let_def]], rule end_read)
      (auto intro!: reads_intros intro: same_files_evo)
  then show ?thesis unfolding op_ok_def by (rule triple_pre) simp
qed

section \<open>Creating a task\<close>

lemma triple_now:
  assumes "\<And>w1. P w1 \<Longrightarrow> triple (\<lambda>w. w = w1) m Q E"
  shows "triple P m Q E"
  using assms by (auto simp: triple_def)

lemma fresh_evo:
  assumes "ew_platform w1 = ew_platform w0" "\<And>d. d \<noteq> dir \<Longrightarrow> files_at w1 d = files_at w0 d"
    and "snapshot_at w0 dir = None" "snapshot_at w1 dir = Some s1" "first_state (abs_snap s1)" "evo strict w1 w"
  shows "evo strict w0 w"
proof -
  have "evo_at strict w0 w d" for d
  proof (cases "d = dir")
    case True
    have "evo_at strict w1 w dir" using assms(6) by (simp add: evo_def)
    with True assms(3-5) show ?thesis by (auto simp: evo_at_def split: option.splits)
  next
    case False
    then have "files_at w1 d = files_at w0 d" by (rule assms(2))
    then have "snapshot_at w1 d = snapshot_at w0 d" "events_at w1 d = events_at w0 d"
      by (simp_all add: snapshot_at_def events_at_def)
    then have "evo_at strict w1 w d = evo_at strict w0 w d" by (simp only: evo_at_def)
    with assms(6) show ?thesis by (simp add: evo_def)
  qed
  with assms(1,6) show ?thesis by (simp add: evo_def)
qed


lemma initialize_facts:
  assumes "store_ok w0" "initialize def rt w0 = (Inr u, w1)"
    and rt: "tr_status (rt_task rt) = TReady" "rt_steps rt = map (initialStepRuntime []) (wd_steps def)"
      "rt_assignments rt = []" "last_seq rt = 0"
  defines "s1 \<equiv> \<lparr>ds_definition = def, ds_runtime = rt\<rparr>" and "dir \<equiv> trim (td_taskId (wd_task def))"
  shows "loaded w1 (td_taskId (wd_task def)) s1" "store_ok w1" "ew_platform w1 = ew_platform w0"
    "\<And>d. d \<noteq> dir \<Longrightarrow> files_at w1 d = files_at w0 d" "snapshot_at w0 dir = None" "first_state (abs_snap s1)"
proof -
  from assms(2) have g: "assertSnapshot s1 = Inr ()" "safeId (td_taskId (wd_task def)) ''taskId'' = Inr dir"
      "map_of (ew_tasks w0) dir = None"
    and w1: "w1 = put_files dir ((files_at w0 dir)\<lparr>tf_snapshot := Some (durable_envelope (pf_snapshotSum (ew_platform w0)) s1)\<rparr>) w0"
    by (auto simp: initialize_def eff_defs guard_res_def write_snapshot_file_def s1_def dir_def Let_def
        dest: safeId_Inr split: sum.splits if_splits)
  have nof: "files_at w0 dir = no_files" using g(3) by (simp add: files_at_def)
  show "snapshot_at w0 dir = None" by (simp add: snapshot_at_def nof no_files_def)
  show "ew_platform w1 = ew_platform w0" "\<And>d. d \<noteq> dir \<Longrightarrow> files_at w1 d = files_at w0 d" by (simp_all add: w1)
  have at: "snapshot_at w1 dir = Some s1" by (simp add: w1 snapshot_at_def durable_envelope_def)
  with g show "loaded w1 (td_taskId (wd_task def)) s1" by (simp add: loaded_def snap_id_def s1_def dir_def)
  show "store_ok w1"
    unfolding store_ok_def
  proof
    fix d
    have "tf_temps (files_at w0 d) = [] \<and> log_ok (ew_platform w0) (tf_events (files_at w0 d)) (events_at w0 d) \<and>
        snapshot_ok (ew_platform w0) d (events_at w0 d) (tf_snapshot (files_at w0 d))"
      using assms(1) by (simp add: store_ok_def)
    then show "tf_temps (files_at w1 d) = [] \<and> log_ok (ew_platform w1) (tf_events (files_at w1 d)) (events_at w1 d) \<and>
        snapshot_ok (ew_platform w1) d (events_at w1 d) (tf_snapshot (files_at w1 d))"
      using g rt(4) by (auto simp: w1 snapshot_ok_def events_at_def s1_def snap_id_def)
  qed
  show "first_state (abs_snap s1)"
    using assertSnapshot_facts(2) [OF g(1)] rt
    by (simp add: first_state_def abs_snap_def abs_task_def s1_def comp_def)
qed

lemma write_end:
  "triple (carry strict w0 tid s def rt) (bnd (writeSnapshot def rt) (\<lambda>_. snapshot tid')) (\<lambda>_. evo strict w0) (evo strict w0)"
  by (rule triple_bnd [OF writeSnapshot_triple]) (auto intro!: end_read reads_intros)

lemma create_core:
  assumes "store_ok w0" "ei_taskId inp = td_taskId (wd_task def)"
    and rt: "tr_status (rt_task rt) = TReady" "rt_steps rt = map (initialStepRuntime []) (wd_steps def)"
      "rt_assignments rt = []" "last_seq rt = 0"
  shows "triple (\<lambda>w. w = w0) (bnd (initialize def rt) (\<lambda>_. bnd (appendEvent rt inp) (\<lambda>recorded.
      bnd (writeSnapshot def recorded) (\<lambda>_. snapshot tid)))) (\<lambda>_. evo strict w0) (evo strict w0)"
proof (rule triple_bnd)
  let ?ok = "\<lambda>w1. initialize def rt w0 = (Inr (), w1)"
  have "evo strict w0 (snd (initialize def rt w0))" if "initialize def rt w0 = (Inl e, w1)" for e w1
    using that evo_refl [OF assms(1), of strict]
    by (auto simp: initialize_def eff_defs guard_res_def write_snapshot_file_def Let_def split: sum.splits if_splits)
  then show "triple (\<lambda>w. w = w0) (initialize def rt) (\<lambda>_. ?ok) (evo strict w0)"
    by (auto simp: triple_def split: prod.splits sum.splits)
  show "triple ?ok (bnd (appendEvent rt inp) (\<lambda>recorded. bnd (writeSnapshot def recorded) (\<lambda>_. snapshot tid)))
      (\<lambda>_. evo strict w0) (evo strict w0)"
  proof (rule triple_now)
    fix w1
    assume "?ok w1"
    note f = initialize_facts [OF assms(1) this rt]
    let ?tid = "td_taskId (wd_task def)" and ?s = "\<lparr>ds_definition = def, ds_runtime = rt\<rparr>"
    have "carry strict w1 ?tid ?s def rt w1" using loaded_carry [OF f(2,1), of strict] by simp
    then have run: "triple (\<lambda>w. w = w1) (bnd (appendEvent rt inp) (\<lambda>recorded. bnd (writeSnapshot def recorded) (\<lambda>_. snapshot tid)))
        (\<lambda>_. evo strict w1) (evo strict w1)"
      by (intro triple_pre [OF seq_append [OF assms(2) write_end]]) auto
    have whole: "evo strict w1 w \<Longrightarrow> evo strict w0 w" for w
      using f(3-6) loaded_def [of w1 ?tid ?s] f(1) by (intro fresh_evo [of w1 w0 "trim ?tid" ?s]) auto
    from run show "triple (\<lambda>w. w = w1) (bnd (appendEvent rt inp) (\<lambda>recorded. bnd (writeSnapshot def recorded) (\<lambda>_. snapshot tid)))
        (\<lambda>_. evo strict w0) (evo strict w0)"
      by (rule triple_conseq) (use whole in auto)
  qed
qed

lemma createTask_ok: "op_ok strict w0 (createTask draft drafts)"
proof -
  let ?I = "\<lambda>w. store_ok w0 \<and> files_at w = files_at w0 \<and> ew_platform w = ew_platform w0"
  have start: "triple ?I m (\<lambda>_. evo strict w0) (evo strict w0)"
    if "\<And>w1. store_ok w1 \<Longrightarrow> triple (\<lambda>w. w = w1) m (\<lambda>_. evo strict w1) (evo strict w1)" for m :: "task_snapshot store_eff"
  proof (rule triple_now)
    fix w1
    assume i: "?I w1"
    have "store_ok w1" using same_files_evo [of w0 w1 True] i by (simp add: evo_def)
    from that [OF this] show "triple (\<lambda>w. w = w1) m (\<lambda>_. evo strict w0) (evo strict w0)"
      by (rule triple_conseq) (use i same_start in auto)
  qed
  have clock: "triple ?I (case c of None \<Rightarrow> now | Some t \<Rightarrow> ret t) (\<lambda>_. ?I) (evo strict w0)" for c
    by (cases c) (auto simp: triple_def now_def eff_defs)
  have "triple ?I (createTask draft drafts) (\<lambda>_. evo strict w0) (evo strict w0)"
    unfolding createTask_def Let_def
    by (intro triple_bnd [OF clock] seq_require seq_lift start create_core)
      (auto intro: same_files_evo simp: refreshDerived_def last_seq_def)
  then show ?thesis unfolding op_ok_def by (rule triple_pre) simp
qed


section \<open>Every operation\<close>

definition strict_step :: "world \<Rightarrow> exec_op \<Rightarrow> bool" where
  "strict_step w op = (case op of RecordProgress t k _ _ _ \<Rightarrow> \<not> resumes_fix w t k | _ \<Rightarrow> True)"

lemma run_op_ok: "(strict \<longrightarrow> strict_step w0 op) \<Longrightarrow> op_ok strict w0 (run_op op)"
  by (cases op) (auto simp: strict_step_def intro!: op_ok_bnd_read reads_intros createTask_ok addSteps_ok
      transitionTask_ok reconcileReadiness_ok recordSkillPreflight_ok createAssignment_ok bindSession_ok
      updateSessionBindingState_ok transitionStep_ok recordProgress_ok recordArtifact_ok requestCompletion_ok
      gatePassed_ok gateFailed_ok setTaskArchived_ok deleteTask_ok reconcile_ok)

lemma apply_op_evo:
  assumes "store_ok w" "strict \<longrightarrow> strict_step w op"
  shows "evo strict w (apply_op op w)"
  using tripleD_state [of "\<lambda>w'. w' = w \<and> store_ok w" "run_op op" "evo strict w" w] run_op_ok [OF assms(2)] assms(1)
  by (simp add: op_ok_def apply_op_def)

section \<open>Reachable stores\<close>

inductive reachable :: "bool \<Rightarrow> world \<Rightarrow> bool" for strict where
  init: "ew_tasks w = [] \<Longrightarrow> reachable strict w"
| step: "reachable strict w \<Longrightarrow> strict \<longrightarrow> strict_step w op \<Longrightarrow> reachable strict (apply_op op w)"

definition world_inv :: "bool \<Rightarrow> world \<Rightarrow> bool" where
  "world_inv strict w \<longleftrightarrow> store_ok w \<and> (\<forall>dir s. snapshot_at w dir = Some s \<longrightarrow>
     common_inv (events_at w dir) (abs_snap s) \<and> (strict \<longrightarrow> strict_inv (abs_snap s)))"

lemma first_state_inv:
  assumes "first_state t"
  shows "common_inv es t" "strict_inv t"
proof -
  have ids: "ids_inv t" and st: "at_steps t = map (fresh_step []) (at_defs t)" "at_asgs t = []"
    using assms by (auto simp: first_state_def)
  have "deps_done t d" if "d \<in> set (at_defs t)" "d' \<in> set (at_defs t)" "sd_stepId d = sd_stepId d'" "sd_dependsOn d' = []" for d d'
    using ids_inv_def_unique [OF ids that(1-3)] that(4) by (simp add: deps_done_def)
  then have "deps_inv t"
    by (auto simp: deps_inv_def st fresh_step_def cleared_status_def)
  with ids show "common_inv es t"
    by (auto simp: common_inv_def st assigned_inv_def attempts_inv_def outputs_inv_def fresh_step_def)
  have "running_steps t = 0"
    by (auto simp: running_steps_def st filter_empty_conv fresh_step_def ACTIVE_STEPS_def)
  then show "strict_inv t"
    by (auto simp: strict_inv_def active_inv_def capacity_inv_def st fresh_step_def ACTIVE_STEPS_def split: if_splits)
qed

lemma evo_inv:
  assumes "world_inv strict w0" "evo strict w0 w"
  shows "world_inv strict w"
  unfolding world_inv_def
proof (intro conjI allI impI)
  show "store_ok w" using assms(2) by (simp add: evo_def)
  fix dir s
  assume s: "snapshot_at w dir = Some s"
  have e: "evo_at strict w0 w dir" using assms(2) by (simp add: evo_def)
  obtain t where t: "common_inv (events_at w dir) t" "strict \<Longrightarrow> strict_inv t"
      "a_runs strict (events_at w dir) t (abs_snap s)"
  proof (cases "snapshot_at w0 dir")
    case None
    with e s that first_state_inv show ?thesis by (auto simp: evo_at_def)
  next
    case (Some s0)
    with e s obtain new where "events_at w dir = events_at w0 dir @ new"
        "a_runs strict (events_at w dir) (abs_snap s0) (abs_snap s)"
      by (auto simp: evo_at_def prefix_def)
    with assms(1) Some that show ?thesis by (auto simp: world_inv_def intro: common_inv_mono)
  qed
  show "common_inv (events_at w dir) (abs_snap s)" by (rule a_runs_common_inv [OF t(3,1)])
  show "strict_inv (abs_snap s)" if strict
  proof -
    have "a_runs True (events_at w dir) t (abs_snap s)" using t(3) that by simp
    then show ?thesis by (rule a_runs_strict_inv [OF _ t(1) t(2) [OF that]])
  qed
qed

lemma reachable_inv: "reachable strict w \<Longrightarrow> world_inv strict w"
proof (induction rule: reachable.induct)
  case (init w)
  then show ?case
    by (simp add: world_inv_def store_ok_def files_at_def no_files_def events_at_def snapshot_at_def
        snapshot_ok_def List.map_filter_def)
next
  case (step w op)
  then have "store_ok w" by (simp add: world_inv_def)
  from evo_inv [OF step.IH apply_op_evo [OF this step.hyps(2)]] show ?case .
qed

end
