(* ===== verification/ExecutionDemo.thy ===== *)
theory ExecutionDemo
  imports ExecutionRefinement
begin

text \<open>
  Two concrete runs of the execution runtime, evaluated by the simplifier: a step that is assigned, reports
  an artifact and passes its gate, and a progress report that resumes a step beyond the capacity of its
  task. The witnesses of the properties are instances at these runs.
\<close>

section \<open>A run\<close>

text \<open>A platform with constant checksums and numbered ids, and a task of two steps.\<close>

definition demo_platform :: platform where
  "demo_platform = \<lparr>pf_root = ''/store'', pf_rootResolved = True, pf_snapshotSum = (\<lambda>_. ''s''),
     pf_archiveSum = (\<lambda>_. ''a''), pf_eventSum = (\<lambda>_. ''e''), pf_uuid = nat_text, pf_clock = (\<lambda>_. ''now''),
     pf_validDate = (\<lambda>_. True)\<rparr>"

definition demo_start :: world where
  "demo_start = \<lparr>ew_platform = demo_platform, ew_tasks = [], ew_draws = 0, ew_ticks = 0\<rparr>"

definition demo_output :: expected_output where
  "demo_output = \<lparr>eo_logicalName = ''r'', eo_kind = None, eo_mimeType = None, eo_required = True,
     eo_minCount = None, eo_maxCount = None, eo_metadata = None\<rparr>"

lemma demo_output_simps [simp]: "eo_logicalName demo_output = ''r''" "eo_required demo_output"
  by (simp_all add: demo_output_def)

definition demo_draft :: "string \<Rightarrow> string list \<Rightarrow> step_draft" where
  "demo_draft k deps = \<lparr>sf_stepId = k, sf_title = k, sf_objective = k, sf_executor = ZERO3, sf_dependsOn = deps,
     sf_requiredSkills = None, sf_optionalSkills = None, sf_inputArtifacts = [],
     sf_expectedOutputs = [demo_output],
     sf_completionGate = [''required_outputs''], sf_maxAttempts = 2, sf_metadata = [], sf_createdAt = None\<rparr>"

definition demo_task :: task_draft where
  "demo_task = \<lparr>kf_taskId = ''T'', kf_projectId = None, kf_workspace = None, kf_title = ''t'', kf_goal = ''g'',
     kf_workflowId = None, kf_maxParallelSteps = 1, kf_createdBySessionId = None, kf_metadata = [],
     kf_createdAt = None\<rparr>"

definition demo_ops :: "exec_op list" where
  "demo_ops = [CreateTask demo_task [demo_draft ''a'' [], demo_draft ''b'' [''a'']],
     CreateAssignment ''T'' ''a'' ZERO3 None,
     RecordArtifact ''T'' ''a'' [(''logicalName'', JStr ''r'')] None,
     RequestCompletion ''T'' ''a'' None,
     GatePassed ''T'' ''a'' []]"

definition run :: "exec_op list \<Rightarrow> world" where
  "run ops = fold apply_op ops demo_start"

definition demo_snap :: durable_snapshot where
  "demo_snap = the (snapshot_at (run demo_ops) ''T'')"

text \<open>The same platform, and two independent steps of which one is resumed by a progress report.\<close>

definition overload_ops :: "exec_op list" where
  "overload_ops = [CreateTask demo_task [demo_draft ''a'' [], demo_draft ''b'' []],
     CreateAssignment ''T'' ''a'' ZERO3 None,
     TransitionStep ''T'' ''b'' SBlocked None None,
     TransitionStep ''T'' ''b'' SFixRequired None None,
     RecordProgress ''T'' ''b'' (Finite 0) None None]"

lemma run_reachable:
  assumes "list_all (\<lambda>op. \<forall>w. strict \<longrightarrow> strict_step w op) ops"
  shows "reachable strict (run ops)"
proof -
  have "reachable strict (fold apply_op ops w)" if "reachable strict w" for w
    using assms that by (induction ops arbitrary: w) (auto intro: reachable.step)
  then show ?thesis by (simp add: run_def reachable.init demo_start_def)
qed

lemma demo_reachable: "reachable True (run demo_ops)"
  by (rule run_reachable) (simp add: demo_ops_def strict_step_def)

lemma overload_reachable: "reachable False (run overload_ops)"
  by (rule run_reachable) (simp add: overload_ops_def)

text \<open>What the witnesses look at.\<close>

definition view :: "world \<Rightarrow> ((string \<times> step_status \<times> string option \<times> int) list \<times> (string \<times> string list \<times> int \<times> string list \<times>
      expected_output list) list \<times> int \<times> int \<times> int \<times> nat \<times> string) option" where
  "view w = map_option (\<lambda>s. (
     map (\<lambda>r. (sr_stepId r, sr_status r, sr_assignmentId r, sr_attempt r)) (rt_steps (ds_runtime s)),
     map (\<lambda>d. (sd_stepId d, sd_dependsOn d, sd_maxAttempts d, sd_completionGate d, sd_expectedOutputs d)) (wd_steps (ds_definition s)),
     td_maxParallelSteps (wd_task (ds_definition s)), active_count (ds_runtime s), last_seq (ds_runtime s),
     length (events_at w ''T''), snap_id s)) (snapshot_at w ''T'')"

lemma assigned_value:
  "view (run (take 2 demo_ops)) = Some ([(''a'', SDispatching, Some ''asg-1'', 1), (''b'', SWaitingDependency, None, 0)],
     [(''a'', [], 2, [''required_outputs''], [demo_output]), (''b'', [''a''], 2, [''required_outputs''], [demo_output])], 1, 1, 2, 2, ''T'')"
  by code_simp

lemma demo_value:
  "view (run demo_ops) = Some ([(''a'', SCompleted, Some ''asg-1'', 1), (''b'', SReady, None, 0)],
     [(''a'', [], 2, [''required_outputs''], [demo_output]), (''b'', [''a''], 2, [''required_outputs''], [demo_output])], 1, 0, 6, 6, ''T'')"
  by code_simp

lemma overload_value:
  "view (run overload_ops) = Some ([(''a'', SDispatching, Some ''asg-1'', 1), (''b'', SRunning, None, 0)],
     [(''a'', [], 2, [''required_outputs''], [demo_output]), (''b'', [], 2, [''required_outputs''], [demo_output])], 1, 2, 5, 5, ''T'')"
  by code_simp

text \<open>A value of \<open>view\<close> gives the snapshot, its steps and their definitions.\<close>

lemma view_Some:
  assumes "view w = Some (rs, ds, limit, active, final, n, tid)"
  obtains s where "snapshot_at w ''T'' = Some s" "td_maxParallelSteps (wd_task (ds_definition s)) = limit"
    "active_count (ds_runtime s) = active" "last_seq (ds_runtime s) = final" "length (events_at w ''T'') = n"
    "snap_id s = tid"
  using assms by (auto simp: view_def)

lemma demo_reach: "reachable True (run (take n demo_ops))"
  by (rule run_reachable) (auto simp: demo_ops_def strict_step_def take_Cons split: nat.splits)


lemma map_member: "map f xs = ys \<Longrightarrow> y \<in> set ys \<Longrightarrow> \<exists>x \<in> set xs. f x = y"
  by auto

lemma view_step:
  assumes "view w = Some (rs, ds, rest)" "snapshot_at w ''T'' = Some s" "(k, st, aid, n) \<in> set rs"
  obtains r where "r \<in> set (rt_steps (ds_runtime s))" "sr_stepId r = k" "sr_status r = st" "sr_assignmentId r = aid"
proof -
  have "map (\<lambda>r. (sr_stepId r, sr_status r, sr_assignmentId r, sr_attempt r)) (rt_steps (ds_runtime s)) = rs"
    using assms(1,2) by (simp add: view_def)
  from map_member [OF this assms(3)] that show ?thesis by blast
qed

lemma view_definition:
  assumes "view w = Some (rs, ds, rest)" "snapshot_at w ''T'' = Some s" "(k, deps, n, gate, outs) \<in> set ds"
  obtains d where "d \<in> set (wd_steps (ds_definition s))" "sd_stepId d = k" "sd_dependsOn d = deps"
    "sd_maxAttempts d = n" "sd_completionGate d = gate" "sd_expectedOutputs d = outs"
proof -
  have "map (\<lambda>d. (sd_stepId d, sd_dependsOn d, sd_maxAttempts d, sd_completionGate d, sd_expectedOutputs d))
      (wd_steps (ds_definition s)) = ds"
    using assms(1,2) by (simp add: view_def)
  from map_member [OF this assms(3)] that show ?thesis by blast
qed

lemma demo_completed:
  obtains s r d where "snapshot_at (run demo_ops) ''T'' = Some s" "r \<in> set (rt_steps (ds_runtime s))"
    "sr_stepId r = ''a''" "sr_status r = SCompleted" "d \<in> set (wd_steps (ds_definition s))" "sd_stepId d = ''a''"
    "sd_completionGate d = [''required_outputs'']" "sd_expectedOutputs d = [demo_output]" "sd_maxAttempts d = 2"
proof -
  obtain s where s: "snapshot_at (run demo_ops) ''T'' = Some s" using view_Some [OF demo_value] by metis
  obtain r where "r \<in> set (rt_steps (ds_runtime s))" "sr_stepId r = ''a''" "sr_status r = SCompleted"
    by (rule view_step [OF demo_value s, of "''a''" SCompleted "Some ''asg-1''" 1]) simp_all
  moreover obtain d where "d \<in> set (wd_steps (ds_definition s))" "sd_stepId d = ''a''" "sd_maxAttempts d = 2"
      "sd_completionGate d = [''required_outputs'']" "sd_expectedOutputs d = [demo_output]"
    by (rule view_definition [OF demo_value s, of "''a''" "[]" 2 "[''required_outputs'']" "[demo_output]"]) simp_all
  ultimately show ?thesis using s that by blast
qed

lemma demo_ready:
  obtains s r d where "snapshot_at (run demo_ops) ''T'' = Some s" "r \<in> set (rt_steps (ds_runtime s))"
    "sr_stepId r = ''b''" "sr_status r = SReady" "d \<in> set (wd_steps (ds_definition s))" "sd_stepId d = ''b''"
    "sd_dependsOn d = [''a'']"
proof -
  obtain s where s: "snapshot_at (run demo_ops) ''T'' = Some s" using view_Some [OF demo_value] by metis
  obtain r where "r \<in> set (rt_steps (ds_runtime s))" "sr_stepId r = ''b''" "sr_status r = SReady"
    by (rule view_step [OF demo_value s, of "''b''" SReady None 0]) simp_all
  moreover obtain d where "d \<in> set (wd_steps (ds_definition s))" "sd_stepId d = ''b''" "sd_dependsOn d = [''a'']"
    by (rule view_definition [OF demo_value s, of "''b''" "[''a'']" 2 "[''required_outputs'']" "[demo_output]"]) simp_all
  ultimately show ?thesis using s that by blast
qed

lemma overload_unassigned:
  obtains s r where "snapshot_at (run overload_ops) ''T'' = Some s" "td_maxParallelSteps (wd_task (ds_definition s)) = 1"
    "active_count (ds_runtime s) = 2" "r \<in> set (rt_steps (ds_runtime s))" "sr_status r = SRunning" "sr_assignmentId r = None"
proof -
  obtain s where s: "snapshot_at (run overload_ops) ''T'' = Some s" "td_maxParallelSteps (wd_task (ds_definition s)) = 1"
      "active_count (ds_runtime s) = 2" using view_Some [OF overload_value] by metis
  obtain r where "r \<in> set (rt_steps (ds_runtime s))" "sr_status r = SRunning" "sr_assignmentId r = None"
    by (rule view_step [OF overload_value s(1), of "''b''" SRunning None 0]) simp_all
  with s that show ?thesis by blast
qed


lemma demo_events: "length (events_at (run demo_ops) ''T'') = 6"
  by (rule view_Some [OF demo_value])

lemma demo_task_id:
  assumes "snapshot_at (run demo_ops) ''T'' = Some s"
  shows "snap_id s = ''T''"
  using assms view_Some [OF demo_value] by (metis option.inject)

end
