(* ===== verification/ExecutionCorrectness.thy ===== *)
theory ExecutionCorrectness
  imports ExecutionDemo
begin

text \<open>
  What the refinement gives for the stores of the execution runtime: the properties of every store its
  operations can reach, each with an instance on a concrete run, and the run on which a progress report
  breaks the capacity of a task.
\<close>

section \<open>Properties of every reachable store\<close>

lemma stored_inv:
  assumes "reachable strict w" "snapshot_at w dir = Some s"
  shows "common_inv (events_at w dir) (abs_snap s)" "strict \<longrightarrow> strict_inv (abs_snap s)" "store_ok w"
  using reachable_inv [OF assms(1)] assms(2) by (auto simp: world_inv_def)

text \<open>C1: whatever an operation of the execution runtime does, returning or throwing half way, the store stays
  well formed and every task moves along the specification \<open>a_move\<close> of \<open>ExecutionMachine\<close>, is created in
  its first state, or is deleted. The strict specification covers every operation but the progress report
  that resumes a step waiting for a fix.\<close>

theorem operation_refines:
  assumes "store_ok w" "strict \<longrightarrow> strict_step w op"
  shows "evo strict w (apply_op op w)"
  using assms by (rule apply_op_evo)

theorem operation_refines_witness:
  "evo True (run (take 2 demo_ops)) (run (take 3 demo_ops)) \<and> snapshot_at (run (take 2 demo_ops)) ''T'' \<noteq> None"
proof
  have "store_ok (run (take 2 demo_ops))" using reachable_inv [OF demo_reach] by (simp add: world_inv_def)
  from operation_refines [OF this, of True "demo_ops ! 2"]
  show "evo True (run (take 2 demo_ops)) (run (take 3 demo_ops))"
    by (simp add: demo_ops_def strict_step_def run_def)
  show "snapshot_at (run (take 2 demo_ops)) ''T'' \<noteq> None"
    using assigned_value by (auto simp: view_def)
qed

text \<open>C2: in every reachable store, a step that is ready, dispatched, verifying or completed, or that was ever
  assigned, has all its dependencies completed.\<close>

theorem work_follows_dependencies:
  assumes "reachable strict w" "snapshot_at w dir = Some s"
    and "r \<in> set (rt_steps (ds_runtime s))" "d \<in> set (wd_steps (ds_definition s))" "sd_stepId d = sr_stepId r"
    and "sr_status r \<in> {SReady, SDispatching, SVerifying, SCompleted} \<or> sr_assignmentId r \<noteq> None"
    and "x \<in> set (sd_dependsOn d)"
  shows "\<exists>q \<in> set (rt_steps (ds_runtime s)). sr_stepId q = x \<and> sr_status q = SCompleted"
proof -
  have "deps_inv (abs_snap s)" using stored_inv(1) [OF assms(1,2)] by (simp add: common_inv_def)
  then have "deps_done (abs_snap s) d"
    using assms(3-6) by (fastforce simp: deps_inv_def abs_snap_def cleared_status_def)
  with assms(7) show ?thesis
    by (auto simp: deps_done_def done_in_def abs_snap_def)
qed

theorem work_follows_dependencies_witness:
  "\<exists>s q. snapshot_at (run demo_ops) ''T'' = Some s \<and> q \<in> set (rt_steps (ds_runtime s)) \<and>
     sr_stepId q = ''a'' \<and> sr_status q = SCompleted"
proof -
  obtain s r d where s: "snapshot_at (run demo_ops) ''T'' = Some s"
    and r: "r \<in> set (rt_steps (ds_runtime s))" "sr_stepId r = ''b''" "sr_status r = SReady"
    and d: "d \<in> set (wd_steps (ds_definition s))" "sd_stepId d = ''b''" "sd_dependsOn d = [''a'']"
    by (rule demo_ready)
  have "\<exists>q \<in> set (rt_steps (ds_runtime s)). sr_stepId q = ''a'' \<and> sr_status q = SCompleted"
    by (rule work_follows_dependencies [OF demo_reachable s r(1) d(1)]) (simp_all add: r d)
  with s show ?thesis by blast
qed

text \<open>C3: in every reachable store, a completed step has an assignment, and when its gate asks for the required
  outputs, the ledger holds enough artifacts of that assignment for each of them.\<close>

theorem completed_step_has_outputs:
  assumes "reachable strict w" "snapshot_at w dir = Some s"
    and "r \<in> set (rt_steps (ds_runtime s))" "d \<in> set (wd_steps (ds_definition s))" "sd_stepId d = sr_stepId r"
    and "sr_status r = SCompleted"
  shows "sr_assignmentId r \<noteq> None \<and> (''required_outputs'' \<in> set (sd_completionGate d) \<longrightarrow>
    (\<forall>out \<in> set (sd_expectedOutputs d). eo_required out \<longrightarrow>
      \<not> output_missing (artifact_events (sr_stepId r) (sr_assignmentId r) (events_at w dir)) out))"
proof -
  have "assigned_inv (abs_snap s)" "outputs_inv (events_at w dir) (abs_snap s)"
    using stored_inv(1) [OF assms(1,2)] by (simp_all add: common_inv_def)
  with assms(3-6) show ?thesis
    by (fastforce simp: assigned_inv_def outputs_inv_def outputs_met_def abs_snap_def)
qed


theorem completed_step_has_outputs_witness:
  "\<exists>s r out. snapshot_at (run demo_ops) ''T'' = Some s \<and> r \<in> set (rt_steps (ds_runtime s)) \<and>
     sr_status r = SCompleted \<and> eo_logicalName out = ''r'' \<and>
     \<not> output_missing (artifact_events ''a'' (sr_assignmentId r) (events_at (run demo_ops) ''T'')) out"
proof -
  obtain s r d where s: "snapshot_at (run demo_ops) ''T'' = Some s"
    and r: "r \<in> set (rt_steps (ds_runtime s))" "sr_stepId r = ''a''" "sr_status r = SCompleted"
    and d: "d \<in> set (wd_steps (ds_definition s))" "sd_stepId d = ''a''"
      "sd_completionGate d = [''required_outputs'']" "sd_expectedOutputs d = [demo_output]"
    by (rule demo_completed)
  have "\<not> output_missing (artifact_events (sr_stepId r) (sr_assignmentId r) (events_at (run demo_ops) ''T'')) demo_output"
    using completed_step_has_outputs [OF demo_reachable s r(1) d(1)] r d by (simp add: demo_output_def)
  with s r show ?thesis by (metis demo_output_simps)
qed

text \<open>In every reachable store, the attempt counter of a step is the number of its assignments, and a step is
  never assigned more often than its budget allows.\<close>

theorem attempts_within_budget:
  assumes "reachable strict w" "snapshot_at w dir = Some s"
    and "r \<in> set (rt_steps (ds_runtime s))" "d \<in> set (wd_steps (ds_definition s))" "sd_stepId d = sr_stepId r"
  shows "sr_attempt r = int (count_list (map as_stepId (rt_assignments (ds_runtime s))) (sr_stepId r)) \<and>
    sr_attempt r \<le> sd_maxAttempts d"
proof -
  have "attempts_inv (abs_snap s)" using stored_inv(1) [OF assms(1,2)] by (simp add: common_inv_def)
  moreover have "assertSnapshot s = Inr ()"
    using store_ok_snapshot(2) [OF stored_inv(3) [OF assms(1,2)] assms(2)] .
  then have "1 \<le> sd_maxAttempts d" using definition_ok_step(2) [OF assertSnapshot_facts(1) assms(4)] by simp
  ultimately show ?thesis using assms(3-5) by (fastforce simp: attempts_inv_def abs_snap_def)
qed

theorem attempts_within_budget_witness:
  "\<exists>s r. snapshot_at (run demo_ops) ''T'' = Some s \<and> r \<in> set (rt_steps (ds_runtime s)) \<and> sr_stepId r = ''a'' \<and> sr_attempt r \<le> 2"
proof -
  obtain s r d where s: "snapshot_at (run demo_ops) ''T'' = Some s"
    and r: "r \<in> set (rt_steps (ds_runtime s))" "sr_stepId r = ''a''"
    and d: "d \<in> set (wd_steps (ds_definition s))" "sd_stepId d = ''a''" "sd_maxAttempts d = 2"
    by (rule demo_completed)
  from attempts_within_budget [OF demo_reachable s r(1) d(1)] r d have "sr_attempt r \<le> 2" by simp
  with s r show ?thesis by blast
qed

text \<open>C28: as long as no progress report resumes a step that waits for a fix, the number of active steps of a task
  never exceeds its parallel limit, and every active step has an assignment.\<close>

theorem capacity_respected:
  assumes "reachable True w" "snapshot_at w dir = Some s"
  shows "active_count (ds_runtime s) \<le> td_maxParallelSteps (wd_task (ds_definition s)) \<and>
    (\<forall>r \<in> set (rt_steps (ds_runtime s)). sr_status r \<in> set ACTIVE_STEPS \<longrightarrow> sr_assignmentId r \<noteq> None)"
proof -
  have inv: "strict_inv (abs_snap s)" using stored_inv(2) [OF assms] by simp
  have "assertSnapshot s = Inr ()"
    using store_ok_snapshot(2) [OF stored_inv(3) [OF assms] assms(2)] .
  then have "1 \<le> td_maxParallelSteps (wd_task (ds_definition s))"
    using definition_ok_parallel [OF assertSnapshot_facts(1)] by simp
  with inv show ?thesis
    by (auto simp: strict_inv_def active_inv_def capacity_inv_def abs_snap_def running_active)
qed

theorem capacity_respected_witness:
  "\<exists>s. snapshot_at (run (take 2 demo_ops)) ''T'' = Some s \<and> active_count (ds_runtime s) = 1 \<and>
     1 \<le> td_maxParallelSteps (wd_task (ds_definition s))"
proof -
  obtain s where s: "snapshot_at (run (take 2 demo_ops)) ''T'' = Some s" "active_count (ds_runtime s) = 1"
    using view_Some [OF assigned_value] by metis
  from capacity_respected [OF demo_reach s(1)] s show ?thesis by simp
qed

text \<open>with such a progress report the limit is not kept: there is a run of operations after which a task
  limited to one parallel step has two active steps, one of them without an assignment.\<close>

theorem recordProgress_breaks_capacity:
  "\<exists>w s. reachable False w \<and> snapshot_at w ''T'' = Some s \<and> td_maxParallelSteps (wd_task (ds_definition s)) = 1 \<and>
     active_count (ds_runtime s) = 2 \<and>
     (\<exists>r \<in> set (rt_steps (ds_runtime s)). sr_status r = SRunning \<and> sr_assignmentId r = None)"
proof -
  obtain s r where "snapshot_at (run overload_ops) ''T'' = Some s" "td_maxParallelSteps (wd_task (ds_definition s)) = 1"
      "active_count (ds_runtime s) = 2" "r \<in> set (rt_steps (ds_runtime s))" "sr_status r = SRunning" "sr_assignmentId r = None"
    by (rule overload_unassigned)
  with overload_reachable show ?thesis by blast
qed

lemma run_readEvents:
  assumes "store_ok w" "safeId tid ''taskId'' = Inr (trim tid)" "int (length (events_at w (trim tid))) \<le> MAX_SAFE_INTEGER"
  shows "readEvents tid w = (Inr (events_at w (trim tid)), w)"
proof -
  let ?es = "events_at w (trim tid)"
  have l: "log_ok (ew_platform w) (tf_events (files_at w (trim tid))) ?es" using assms(1) by (rule store_ok_log)
  have "\<forall>e \<in> set ?es. safe_integer (ev_sequence e)"
  proof
    fix e
    assume "e \<in> set ?es"
    with l obtain i where "i < length ?es" "ev_sequence e = 1 + int i" by (auto simp: log_ok_def in_set_conv_nth)
    with assms(3) show "safe_integer (ev_sequence e)" by (simp add: safe_integer_def MAX_SAFE_INTEGER_def)
  qed
  with l have "readExecutionEventLedger (pf_eventSum (ew_platform w)) path (tf_events (files_at w (trim tid))) = Inr ?es" for path
    by (simp add: read_iff_log_ok)
  with assms(2) show ?thesis by (simp add: readEvents_def eff_defs)
qed

lemma run_loadSnapshotRecord:
  assumes "store_ok w" "snapshot_at w (trim tid) = Some s" "snap_id s = tid"
  shows "loadSnapshotRecord tid w = (Inr s, w)"
  using store_ok_snapshot [OF assms(1,2)] assms(3)
  by (simp add: loadSnapshotRecord_def eff_defs snap_id_def)

lemma reconcile_run:
  assumes ok: "store_ok w" and "snapshot_at w (trim tid) = Some s" "snap_id s = tid"
    and "int (length (events_at w (trim tid))) \<le> MAX_SAFE_INTEGER"
  shows "\<exists>res w'. reconcile tid w = (Inr res, w') \<and> files_at w' = files_at w \<and>
    last_seq (ds_runtime s) \<le> rr_eventCount res \<and> rr_eventCount res = int (length (events_at w (trim tid))) \<and>
    (rr_needsSemanticReplay res \<longleftrightarrow> last_seq (ds_runtime s) < rr_eventCount res)"
proof -
  have safe: "safeId tid ''taskId'' = Inr (trim tid)" using store_ok_snapshot(3) [OF ok assms(2)] assms(3) by simp
  have le: "last_seq (ds_runtime s) \<le> int (length (events_at w (trim tid)))" by (rule store_ok_snapshot(4) [OF ok assms(2)])
  define w' where "w' = (if map_of (ew_tasks w) (trim tid) = None then w else put_files (trim tid) (files_at w (trim tid)) w)"
  have "tf_temps (files_at w (trim tid)) = []" using ok by (simp add: store_ok_def)
  then have rec: "recoverInterruptedWrite pf target (files_at w (trim tid)) = (Inr RecoveryNone, files_at w (trim tid))" for pf target
    by (simp add: recoverInterruptedWrite_def)
  have same: "files_at w' = files_at w" "ew_platform w' = ew_platform w" by (auto simp: w'_def)
  then have same': "events_at w' = events_at w" "snapshot_at w' = snapshot_at w" by (auto simp: events_at_def snapshot_at_def)
  have ok': "store_ok w'" using same_files_evo [OF ok same, of False] by (simp add: evo_def)
  have load: "loadSnapshotRecord tid w' = (Inr s, w')"
    by (rule run_loadSnapshotRecord [OF ok']) (simp_all add: same' assms)
  have read: "readEvents tid w' = (Inr (events_at w (trim tid)), w')"
    using run_readEvents [OF ok' safe] assms(4) by (simp add: same')
  have "\<exists>res. reconcile tid w = (Inr res, w') \<and> rr_eventCount res = int (length (events_at w (trim tid))) \<and>
      (rr_needsSemanticReplay res \<longleftrightarrow> last_seq (ds_runtime s) < int (length (events_at w (trim tid))))"
    using le load read unfolding reconcile_def safe lift_res_simps bnd_ret bnd_run rec Let_def prod.case sum.case w'_def [symmetric]
    by (simp add: last_seq_def eff_defs)
  with same(1) le show ?thesis by auto
qed

text \<open>One operation loses nothing: unless it deletes the task, the events of its ledger stay as a prefix and a
  completed step stays completed.\<close>

theorem completed_stays_completed:
  assumes "store_ok w" "snapshot_at w dir = Some s" "r \<in> set (rt_steps (ds_runtime s))" "sr_status r = SCompleted"
    and "snapshot_at (apply_op op w) dir = Some s'"
  shows "prefix (events_at w dir) (events_at (apply_op op w) dir) \<and>
    (\<exists>q \<in> set (rt_steps (ds_runtime s')). sr_stepId q = sr_stepId r \<and> sr_status q = SCompleted)"
proof -
  have "evo False w (apply_op op w)" by (rule apply_op_evo [OF assms(1)]) simp
  then have "evo_at False w (apply_op op w) dir" by (simp add: evo_def)
  then have e: "prefix (events_at w dir) (events_at (apply_op op w) dir)"
      "a_runs False (events_at (apply_op op w) dir) (abs_snap s) (abs_snap s')"
    using assms(2,5) by (auto simp: evo_at_def)
  have "ids_inv (abs_snap s)" using assertSnapshot_facts(2) [OF store_ok_snapshot(2) [OF assms(1,2)]] .
  moreover have "done_in (abs_snap s) (sr_stepId r)" using assms(3,4) by (auto simp: done_in_def abs_snap_def)
  ultimately have "done_in (abs_snap s') (sr_stepId r)" using a_runs_done [OF e(2)] by blast
  with e(1) show ?thesis by (auto simp: done_in_def abs_snap_def)
qed

theorem completed_stays_completed_witness:
  "\<exists>s s'. snapshot_at (run demo_ops) ''T'' = Some s \<and> snapshot_at (apply_op (Reconcile ''T'') (run demo_ops)) ''T'' = Some s' \<and>
     (\<exists>q \<in> set (rt_steps (ds_runtime s')). sr_stepId q = ''a'' \<and> sr_status q = SCompleted)"
proof -
  let ?w = "run demo_ops"
  obtain s r where s: "snapshot_at ?w ''T'' = Some s"
    and r: "r \<in> set (rt_steps (ds_runtime s))" "sr_stepId r = ''a''" "sr_status r = SCompleted"
    by (rule demo_completed)
  have ok: "store_ok ?w" using reachable_inv [OF demo_reachable] by (simp add: world_inv_def)
  have T: "trim ''T'' = ''T''" by code_simp
  obtain res w' where "reconcile ''T'' ?w = (Inr res, w')" "files_at w' = files_at ?w"
    using reconcile_run [OF ok, of "''T''" s] s demo_task_id [OF s] demo_events T
    by (auto simp: MAX_SAFE_INTEGER_def)
  then have "snapshot_at (apply_op (Reconcile ''T'') ?w) ''T'' = Some s"
    using s by (simp add: apply_op_def bnd_run snapshot_at_def eff_defs)
  with completed_stays_completed [OF ok s r(1,3) this] s r(2) show ?thesis by auto
qed

text \<open>C32: as long as a ledger has fewer events than the largest safe integer, reconciling a task of a reachable store
  succeeds, changes no file, and reports the events the snapshot has not seen; in particular the snapshot is
  never ahead of its ledger.\<close>

theorem reconcile_succeeds:
  assumes "reachable strict w" "snapshot_at w (trim tid) = Some s" "snap_id s = tid"
    and "int (length (events_at w (trim tid))) \<le> MAX_SAFE_INTEGER"
  shows "\<exists>res w'. reconcile tid w = (Inr res, w') \<and> files_at w' = files_at w \<and>
    last_seq (ds_runtime s) \<le> rr_eventCount res \<and> rr_eventCount res = int (length (events_at w (trim tid))) \<and>
    (rr_needsSemanticReplay res \<longleftrightarrow> last_seq (ds_runtime s) < rr_eventCount res)"
  using reconcile_run [OF stored_inv(3) [OF assms(1,2)] assms(2-4)] .

theorem reconcile_succeeds_witness:
  "\<exists>res w'. reconcile ''T'' (run demo_ops) = (Inr res, w') \<and> rr_eventCount res = 6"
proof -
  have T: "trim ''T'' = ''T''" by code_simp
  obtain s where s: "snapshot_at (run demo_ops) ''T'' = Some s" by (rule demo_completed)
  from reconcile_succeeds [OF demo_reachable, of "''T''" s] s demo_task_id [OF s] demo_events T
  show ?thesis by (auto simp: MAX_SAFE_INTEGER_def)
qed

section \<open>Retries\<close>

lemma find_key_append: "find_key key k (xs @ ys) =
    (case find_key key k xs of None \<Rightarrow> find_key key k ys | Some x \<Rightarrow> Some x)"
  by (induction xs) (auto simp: find_key_def)

lemma touch_again:
  "touch sid (\<lambda>n. max n k) at' (touch sid (\<lambda>n. max n k) at' rt) = touch sid (\<lambda>n. max n k) at' rt"
  "touch sid (\<lambda>n. max n k) at' (touch sid (\<lambda>_. k) at' rt) = touch sid (\<lambda>_. k) at' rt"
  by (auto simp: touch_def touch_step_def)

definition same_report :: "event_input \<Rightarrow> execution_event \<Rightarrow> bool" where
  "same_report inp e \<longleftrightarrow> stable_same
     (report_json (ei_taskId inp) (ei_stepId inp) (ei_assignmentId inp) (ei_type inp) (ei_payload inp))
     (report_json (ev_taskId e) (ev_stepId e) (ev_assignmentId e) (ev_type e) (ev_payload e))"

text \<open>An explicit id that the ledger already has: nothing is written.\<close>

lemma run_append_known:
  assumes "readEvents (ei_taskId inp) w = (Inr es, w)" "trim_opt (ei_eventId inp) = Some i"
    and "find_key ev_eventId i es = Some e" "same_report inp e"
  shows "appendEvent rt inp w = (Inr (touch (ei_stepId inp) (\<lambda>n. max n (ev_sequence e)) (ev_at e) rt), w)"
  using assms by (simp add: appendEvent_def bnd_run same_report_def eff_defs)

lemma run_append_fresh:
  assumes ok: "store_ok w" and safe: "safeId (ei_taskId inp) ''taskId'' = Inr (trim (ei_taskId inp))"
    and small: "int (length (events_at w (trim (ei_taskId inp)))) < MAX_SAFE_INTEGER"
    and i: "trim_opt (ei_eventId inp) = Some i" "i \<notin> ev_eventId ` set (events_at w (trim (ei_taskId inp)))"
    and run: "appendEvent rt inp w = (Inr rt1, w1)"
    and ids: "ei_stepId inp \<noteq> Some []" "ei_assignmentId inp \<noteq> Some []"
  obtains e where "readEvents (ei_taskId inp) w1 = (Inr (events_at w (trim (ei_taskId inp)) @ [e]), w1)"
    "ev_eventId e = i" "same_report inp e" "rt1 = touch (ei_stepId inp) (\<lambda>_. ev_sequence e) (ev_at e) rt"
proof -
  let ?tid = "ei_taskId inp" and ?es = "events_at w (trim (ei_taskId inp))"
  have read: "readEvents ?tid w = (Inr ?es, w)" using run_readEvents [OF ok safe] small by simp
  obtain at' w2 where clock: "(case ei_at inp of None \<Rightarrow> now | Some t \<Rightarrow> ret t) w = (Inr at', w2)"
      and w2: "files_at w2 = files_at w" "ew_platform w2 = ew_platform w"
    by (cases "ei_at inp") (auto simp: now_def eff_defs)
  define e where "e = \<lparr>ev_contract = ZERO3_EXECUTION_EVENT, ev_eventId = i, ev_sequence = int (length ?es) + 1,
      ev_taskId = ?tid, ev_stepId = drop_empty (ei_stepId inp), ev_assignmentId = drop_empty (ei_assignmentId inp),
      ev_type = ei_type inp, ev_payload = ei_payload inp, ev_at = at'\<rparr>"
  have "find_key ev_eventId i ?es = None" using i(2) by simp
  then have step: "appendEvent rt inp w = bnd (appendEvent_store e) (\<lambda>_. ret (touch (ei_stepId inp) (\<lambda>_. ev_sequence e) at' rt)) w2"
    using read i(1) clock by (simp add: appendEvent_def append_fresh_def bnd_run Let_def e_def del: find_key_None)
  obtain r ls where a: "appendSerialized (pf_eventSum (ew_platform w)) (path_text (ew_platform w) (trim ?tid) ''events.jsonl'')
      (tf_events (files_at w (trim ?tid))) e = (r, ls)" by force
  have st: "appendEvent_store e w2 = (r, if r = Inr Appended then put_files (trim ?tid) ((files_at w (trim ?tid))\<lparr>tf_events := ls\<rparr>) w2 else w2)"
    using a safe w2 by (simp add: appendEvent_store_def e_def)
  have "named_event e"
    using safeId_Inr [OF safe] trim_opt_Some [OF i(1)] by (simp add: named_event_def e_def)
  from appendSerialized_next [OF store_ok_log [OF ok] this _ a] step st run
  have r: "r = Inr Appended" "log_ok (ew_platform w) ls (?es @ [e])"
    by (auto simp: e_def bnd_run)
  with step st run have w1: "w1 = put_files (trim ?tid) ((files_at w (trim ?tid))\<lparr>tf_events := ls\<rparr>) w2"
    and rt1: "rt1 = touch (ei_stepId inp) (\<lambda>_. ev_sequence e) at' rt"
    by (auto simp: bnd_run eff_defs)
  have "\<forall>x \<in> set (?es @ [e]). safe_integer (ev_sequence x)"
  proof
    fix x
    assume "x \<in> set (?es @ [e])"
    then obtain n where n: "n < length (?es @ [e])" "x = (?es @ [e]) ! n" by (metis in_set_conv_nth)
    then have "ev_sequence x = 1 + int n" using r(2) by (simp add: log_ok_def)
    with small n(1) show "safe_integer (ev_sequence x)" by (simp add: safe_integer_def MAX_SAFE_INTEGER_def)
  qed
  with r(2) have "readExecutionEventLedger (pf_eventSum (ew_platform w)) path ls = Inr (?es @ [e])" for path
    by (simp add: read_iff_log_ok)
  with safe w2 have "readEvents ?tid w1 = (Inr (?es @ [e]), w1)"
    by (simp add: readEvents_def eff_defs w1)
  moreover have "same_report inp e" using ids by (simp add: same_report_def e_def drop_empty_def)
  ultimately show ?thesis using that [of e] rt1 by (simp add: e_def)
qed

text \<open>reporting the same event twice under the same explicit id is idempotent: the second report returns the same
  runtime and leaves the store unchanged.\<close>

theorem appendEvent_retry:
  assumes "store_ok w" "safeId (ei_taskId inp) ''taskId'' = Inr (trim (ei_taskId inp))"
    and "int (length (events_at w (trim (ei_taskId inp)))) < MAX_SAFE_INTEGER"
    and "trim_opt (ei_eventId inp) = Some i" "ei_stepId inp \<noteq> Some []" "ei_assignmentId inp \<noteq> Some []"
    and "appendEvent rt inp w = (Inr rt1, w1)"
  shows "appendEvent rt1 inp w1 = (Inr rt1, w1)"
proof -
  let ?es = "events_at w (trim (ei_taskId inp))"
  have read: "readEvents (ei_taskId inp) w = (Inr ?es, w)" using run_readEvents [OF assms(1,2)] assms(3) by simp
  show ?thesis
  proof (cases "find_key ev_eventId i ?es")
    case (Some old)
    have "same_report inp old"
      using assms(4,7) read Some
      by (cases "same_report inp old") (simp_all add: appendEvent_def bnd_run same_report_def eff_defs)
    from run_append_known [OF read assms(4) Some this] assms(7)
    show ?thesis by (auto simp: touch_again)
  next
    case None
    then have "i \<notin> ev_eventId ` set ?es" by simp
    then obtain e where e: "readEvents (ei_taskId inp) w1 = (Inr (?es @ [e]), w1)" "ev_eventId e = i" "same_report inp e"
        "rt1 = touch (ei_stepId inp) (\<lambda>_. ev_sequence e) (ev_at e) rt"
      by (rule run_append_fresh [OF assms(1-4) _ assms(7,5,6)])
    have "find_key ev_eventId i [e] = Some e" using e(2) by (simp add: find_key_def)
    with None have "find_key ev_eventId i (?es @ [e]) = Some e"
      by (simp add: find_key_append del: find_key_None)
    from run_append_known [OF e(1) assms(4) this e(3)] show ?thesis
      by (simp add: e(4) touch_again)
  qed
qed


definition demo_report :: event_input where
  "demo_report = \<lparr>ei_taskId = ''T'', ei_stepId = None, ei_assignmentId = None, ei_type = EvTaskStateChanged,
     ei_payload = None, ei_eventId = Some '' x '', ei_at = None\<rparr>"

definition demo_runtime :: runtime_state where
  "demo_runtime = \<lparr>rt_task = \<lparr>tr_taskId = ''T'', tr_status = TReady, tr_progress = 0, tr_activeStepIds = [],
     tr_blockers = [], tr_lastEventSequence = 0, tr_updatedAt = ''now''\<rparr>, rt_steps = [], rt_assignments = [],
     rt_sessionBindings = []\<rparr>"

theorem appendEvent_retry_witness:
  "\<exists>rt1 w1. appendEvent demo_runtime demo_report demo_start = (Inr rt1, w1) \<and> last_seq rt1 = 1 \<and>
     appendEvent rt1 demo_report w1 = (Inr rt1, w1)"
proof -
  have run: "map_sum (\<lambda>e. e) last_seq (fst (appendEvent demo_runtime demo_report demo_start)) = Inr 1"
    by code_simp
  obtain r w1 where a: "appendEvent demo_runtime demo_report demo_start = (r, w1)" by force
  with run obtain rt1 where rt1: "r = Inr rt1" "last_seq rt1 = 1" by (cases r) auto
  have "store_ok demo_start" using reachable_inv [OF reachable.init, of demo_start True]
    by (simp add: demo_start_def world_inv_def)
  moreover have "safeId ''T'' ''taskId'' = Inr (trim ''T'')" "trim ''T'' = ''T''" "trim_opt (Some '' x '') = Some ''x''"
    by code_simp+
  moreover have "length (events_at demo_start ''T'') = 0" by code_simp
  ultimately have "appendEvent rt1 demo_report w1 = (Inr rt1, w1)"
    using a rt1(1) by (intro appendEvent_retry [of demo_start demo_report "''x''" demo_runtime])
      (simp_all add: demo_report_def MAX_SAFE_INTEGER_def)
  with a rt1 show ?thesis by blast
qed

section \<open>Recovery after a crash\<close>

text \<open>recovering an interrupted snapshot write never loses or invents a snapshot: it keeps an intact snapshot and
  drops the temporary files, it restores the only temporary file when that file is intact and the snapshot
  is missing, and on any damage it reports an error and leaves every file as it is.\<close>

theorem recovery_keeps_snapshots:
  "case recoverInterruptedWrite pf target f of
     (Inl e, f') \<Rightarrow> f' = f
   | (Inr RecoveryNone, f') \<Rightarrow> f' = f \<and> tf_temps f = []
   | (Inr RecoveryCleaned, f') \<Rightarrow> f' = f\<lparr>tf_temps := []\<rparr> \<and>
       (\<exists>s. tf_snapshot f = Some (durable_envelope (pf_snapshotSum pf) s))
   | (Inr RecoveryRecovered, f') \<Rightarrow> (\<exists>s. tf_snapshot f = None \<and> tf_temps f = [durable_envelope (pf_snapshotSum pf) s] \<and>
       f' = f\<lparr>tf_snapshot := Some (durable_envelope (pf_snapshotSum pf) s), tf_temps := []\<rparr>)"
  by (auto simp: recoverInterruptedWrite_def recover_write_def Let_def parse_envelope_Inr_iff split: option.splits sum.splits list.splits)

end
