(* ===== verification/ComponentCorrectness.thy ===== *)
theory ComponentCorrectness
  imports ExecutionCorrectness
begin

text \<open>
  The properties of the parts the execution runtime is built from: status tables, dependency graph, dispatch
  plan, validators and event ledger.
\<close>

section \<open>Status tables\<close>

text \<open>An unknown outcome is never resumed by itself: a step in \<open>outcome_unknown\<close> that is neither put before a
  human nor declared failed can only stay where it is or be cancelled, and so can a task.\<close>

theorem outcome_unknown_needs_decision:
  assumes "(\<lambda>x y. isValidStepTransition x y \<and> y \<notin> {SWaitingHuman, SFailed})\<^sup>*\<^sup>* SOutcomeUnknown s"
    and "(\<lambda>x y. isValidTaskTransition x y \<and> y \<notin> {TWaitingHuman, TFailed})\<^sup>*\<^sup>* TOutcomeUnknown t"
  shows "s \<in> {SOutcomeUnknown, SCancelled} \<and> t \<in> {TOutcomeUnknown, TCancelled}"
  using step_outcome_unknown_gate [OF assms(1)] task_outcome_unknown_gate [OF assms(2)] by simp

theorem outcome_unknown_needs_decision_witness:
  "SCancelled \<in> {SOutcomeUnknown, SCancelled} \<and> TCancelled \<in> {TOutcomeUnknown, TCancelled}"
  by (rule outcome_unknown_needs_decision)
    (auto intro!: r_into_rtranclp simp: isValidStepTransition_def isValidTaskTransition_def)

section \<open>Dependency graph and plan\<close>

text \<open>C34: the depth-first check of a workflow reports nothing exactly when the step ids are distinct, every
  dependency is a step, and the dependency relation has no cycle.\<close>

theorem validateExecutionDag_correct:
  "validateExecutionDag steps = [] \<longleftrightarrow>
     distinct (map sd_stepId steps) \<and> (\<Union>s \<in> set steps. set (sd_dependsOn s)) \<subseteq> sd_stepId ` set steps \<and>
     acyclic {(sd_stepId s, d) | s d. s \<in> set steps \<and> d \<in> set (sd_dependsOn s)}"
  unfolding validateExecutionDag_Nil well_formed_dag_def dep_edges_known
  by (auto simp: step_ids_def dep_edges_def)

text \<open>The steps a plan may dispatch: ready, dependencies completed, skills cleared.\<close>

definition eligible :: "step_definition list \<Rightarrow> step_runtime list \<Rightarrow> string set" where
  "eligible steps runtimes = {k. \<exists>s r. s \<in> set steps \<and> sd_stepId s = k \<and> map_get sr_stepId runtimes k = Some r \<and>
     sr_status r = SReady \<and> dependencyReady s (map_get sr_stepId runtimes) \<and> \<not> skill_gate_closed s r}"

lemma eligible_ready:
  assumes "distinct (step_ids steps)"
  shows "k \<in> eligible steps runtimes \<longleftrightarrow> k \<in> set (filter (\<lambda>k. map_option sr_status (map_get sr_stepId runtimes k) = Some SReady \<and>
      k \<notin> set (fst (snd (snd (plan_loop (map_get sr_stepId runtimes) steps))))) (fst (plan_loop (map_get sr_stepId runtimes) steps)))"
proof -
  have uniq: "s' = s" if "s \<in> set steps" "s' \<in> set steps" "sd_stepId s' = sd_stepId s" for s s'
    using assms that by (auto simp: step_ids_def distinct_map inj_on_def)
  show ?thesis
    unfolding eligible_def set_filter mem_Collect_eq plan_loop_blocked plan_loop_ready
    by (rule iffI, (elim exE conjE, fastforce dest: uniq simp: READINESS_STATUSES_def), fastforce)
qed

text \<open>A valid plan dispatches distinct eligible steps, as many as there are or as the free capacity allows.\<close>

theorem plan_dispatches_eligible:
  assumes "pl_valid (planExecutionSchedule steps runtimes n)"
  defines "ks \<equiv> pl_dispatchableStepIds (planExecutionSchedule steps runtimes n)"
    and "active \<equiv> int (length (filter (\<lambda>r. sr_status r \<in> set ACTIVE_STATUSES) runtimes))"
  shows "distinct ks \<and> set ks \<subseteq> eligible steps runtimes \<and>
    int (length ks) = min (max 0 (n - active)) (int (card (eligible steps runtimes)))"
proof -
  let ?m = "map_get sr_stepId runtimes"
  let ?elig = "filter (\<lambda>k. map_option sr_status (?m k) = Some SReady \<and>
      k \<notin> set (fst (snd (snd (plan_loop ?m steps))))) (fst (plan_loop ?m steps))"
  have ok: "plan_errors steps runtimes n = []" using assms(1) by (simp add: plan_valid_iff)
  then have ids: "distinct (step_ids steps)" using plan_errors_Nil well_formed_dag_def by blast
  have ks: "ks = take (nat (max 0 (n - active))) ?elig"
    using ok by (simp add: ks_def active_def planExecutionSchedule_def Let_def split: prod.splits)
  have e: "eligible steps runtimes = set ?elig" using eligible_ready [OF ids] by blast
  have d: "distinct ?elig" using plan_loop_distinct [OF ids] by simp
  then have "card (eligible steps runtimes) = length ?elig" unfolding e by (rule distinct_card)
  then have "int (length ks) = min (max 0 (n - active)) (int (card (eligible steps runtimes)))"
    unfolding ks length_take by linarith
  moreover have "distinct ks" unfolding ks using d by (rule distinct_take)
  moreover have "set ks \<subseteq> eligible steps runtimes" unfolding ks e by (rule set_take_subset)
  ultimately show ?thesis by simp
qed

lemma plan_errors_runtime:
  assumes "plan_errors steps runtimes n = []" "s \<in> set steps"
  shows "\<exists>r. map_get sr_stepId runtimes (sd_stepId s) = Some r"
proof (rule ccontr)
  assume "\<not> ?thesis"
  then have "map_get sr_stepId runtimes (sd_stepId s) = None" by (metis not_None_eq)
  moreover have "(case map_get sr_stepId runtimes (sd_stepId s) of
        None \<Rightarrow> [''runtime missing for step '' @ sd_stepId s]
      | Some r \<Rightarrow> if sr_taskId r \<noteq> sd_taskId s then [''runtime task mismatch for step '' @ sd_stepId s] else []) = []"
    using assms unfolding plan_errors_def append_is_Nil_conv concat_eq_Nil_conv set_map by blast
  ultimately show False by (simp del: map_get_None)
qed

lemma plan_errors_orphan:
  assumes "plan_errors steps runtimes n = []" "r \<in> set runtimes"
  shows "\<exists>s \<in> set steps. sd_stepId s = sr_stepId r"
proof -
  have "(if \<not> list_ex (\<lambda>s. sd_stepId s = sr_stepId r) steps then [''orphan runtime '' @ sr_stepId r] else []) = []"
    using assms unfolding plan_errors_def append_is_Nil_conv concat_eq_Nil_conv set_map by blast
  then show ?thesis by (simp add: list_ex_iff split: if_splits)
qed

definition demo_steps :: "step_definition list" where
  "demo_steps = projr (build_steps (\<lambda>k. k) ''T'' ''now'' [] [demo_draft ''a'' [], demo_draft ''b'' [''a'']])"

definition demo_runtimes :: "step_runtime list" where
  "demo_runtimes = map (initialStepRuntime []) demo_steps"

lemma demo_plan: "pl_valid (planExecutionSchedule demo_steps demo_runtimes 1)"
  "pl_dispatchableStepIds (planExecutionSchedule demo_steps demo_runtimes 1) = [''a'']"
  by code_simp+

theorem plan_dispatches_eligible_witness:
  "int (length (pl_dispatchableStepIds (planExecutionSchedule demo_steps demo_runtimes 1))) =
     min (max 0 (1 - int (length (filter (\<lambda>r. sr_status r \<in> set ACTIVE_STATUSES) demo_runtimes))))
       (int (card (eligible demo_steps demo_runtimes))) \<and>
   set [''a''] \<subseteq> eligible demo_steps demo_runtimes"
  using plan_dispatches_eligible [OF demo_plan(1)] unfolding demo_plan(2) by blast

text \<open>C37: planning never gets stuck: when every step of a valid plan is pending, waiting for dependencies, ready or
  completed, and one is not completed, then some step has all its dependencies completed.\<close>

theorem plan_makes_progress:
  assumes "pl_valid (planExecutionSchedule steps runtimes n)" "distinct (map sr_stepId runtimes)"
    and "\<forall>r \<in> set runtimes. sr_status r \<in> {SPending, SWaitingDependency, SReady, SCompleted}"
    and "\<exists>r \<in> set runtimes. sr_status r \<noteq> SCompleted"
  shows "pl_dependencyReadyStepIds (planExecutionSchedule steps runtimes n) \<noteq> []"
proof -
  let ?m = "map_get sr_stepId runtimes"
  let ?open = "{k. \<exists>r. ?m k = Some r \<and> sr_status r \<noteq> SCompleted}"
  have ok: "plan_errors steps runtimes n = []" using assms(1) by (simp add: plan_valid_iff)
  then have dag: "well_formed_dag steps" using plan_errors_Nil by blast
  have known: "\<forall>s \<in> set steps. set (sd_dependsOn s) \<subseteq> set (step_ids steps)"
    and ac: "acyclic (dep_edges steps)" using dag by (simp_all add: well_formed_dag_def dep_edges_known)
  have run: "\<exists>r. ?m k = Some r" if "k \<in> set (step_ids steps)" for k
    using plan_errors_runtime [OF ok] that by (auto simp: step_ids_def)
  have "dep_edges steps \<subseteq> set (step_ids steps) \<times> (\<Union>s \<in> set steps. set (sd_dependsOn s))"
    by (auto simp: dep_edges_def step_ids_def)
  then have "finite (dep_edges steps)" by (rule finite_subset) simp
  with ac have "wf ((dep_edges steps)\<inverse>)" by (simp add: finite_acyclic_wf_converse)
  moreover obtain r0 where "r0 \<in> set runtimes" "sr_status r0 \<noteq> SCompleted" using assms(4) by blast
  with assms(2) have "sr_stepId r0 \<in> ?open" by (auto simp: map_get_find_key find_key_distinct)
  ultimately obtain k where k: "k \<in> ?open" "\<And>d. (k, d) \<in> dep_edges steps \<Longrightarrow> d \<notin> ?open"
    by (rule wfE_min) auto
  then obtain r where r: "?m k = Some r" "sr_status r \<noteq> SCompleted" by blast
  then have rt: "r \<in> set runtimes" "sr_stepId r = k" by (auto dest: map_get_Some)
  with plan_errors_orphan [OF ok rt(1)] obtain s where s: "s \<in> set steps" "sd_stepId s = k" by blast
  have "\<exists>q. ?m d = Some q \<and> sr_status q = SCompleted" if "d \<in> set (sd_dependsOn s)" for d
  proof -
    have "d \<notin> ?open" using s that by (intro k(2)) (auto simp: dep_edges_def)
    moreover have "d \<in> set (step_ids steps)" using known s(1) that by blast
    then obtain q where "?m d = Some q" using run by blast
    ultimately show ?thesis by auto
  qed
  then have "dependencyReady s ?m" by (simp add: dependencyReady_iff)
  moreover have "sr_status r \<in> set READINESS_STATUSES" using assms(3) rt(1) r(2) by (auto simp: READINESS_STATUSES_def)
  ultimately have "k \<in> set (fst (plan_loop ?m steps))" using s r(1) by (auto simp: plan_loop_ready)
  then show ?thesis using ok by (auto simp: planExecutionSchedule_def Let_def split: prod.splits)
qed


theorem plan_makes_progress_witness:
  "pl_dependencyReadyStepIds (planExecutionSchedule demo_steps demo_runtimes 1) \<noteq> []"
  by (rule plan_makes_progress [OF demo_plan(1)]; code_simp)

text \<open>the progress of a task is between 0 and 1, and 1 when every step is completed.\<close>

theorem task_progress_bounded:
  "0 \<le> computeTaskProgress rs \<and> computeTaskProgress rs \<le> 1 \<and>
   computeTaskProgress (map (\<lambda>r. r\<lparr>sr_status := SCompleted\<rparr>) rs) = (if rs = [] then 0 else 1)"
proof (intro conjI)
  show "0 \<le> computeTaskProgress rs" "computeTaskProgress rs \<le> 1" using computeTaskProgress_bounds by auto
  have "sum_list (map ((\<lambda>r. if sr_status r = SCompleted then 1 else clamp01 (sr_progress r)) \<circ>
      (\<lambda>r. r\<lparr>sr_status := SCompleted\<rparr>)) rs) = (of_nat (length rs) :: rat)"
    by (induction rs) simp_all
  moreover have "js_round 10000 = 10000" unfolding js_round_def by (rule floor_unique) simp_all
  ultimately show "computeTaskProgress (map (\<lambda>r. r\<lparr>sr_status := SCompleted\<rparr>) rs) = (if rs = [] then 0 else 1)"
    by (simp add: computeTaskProgress_def Let_def)
qed

section \<open>Accepted definitions\<close>

text \<open>C39: a workflow definition that passes the validators has an acyclic graph of known, distinct steps of its own
  task, between 1 and 256 parallel steps and between 1 and 100 attempts per step.\<close>

theorem accepted_definition:
  assumes "validateExecutionWorkflowDefinition def = []"
  shows "well_formed_dag (wd_steps def) \<and> 1 \<le> td_maxParallelSteps (wd_task def) \<and> td_maxParallelSteps (wd_task def) \<le> 256 \<and>
    (\<forall>s \<in> set (wd_steps def). sd_taskId s = td_taskId (wd_task def) \<and> 1 \<le> sd_maxAttempts s \<and> sd_maxAttempts s \<le> 100)"
proof -
  have "definition_ok def" using assms by (simp add: definition_ok_def)
  then show ?thesis using definition_ok_dag definition_ok_parallel definition_ok_step by blast
qed

definition demo_definition :: workflow_definition where
  "demo_definition = \<lparr>wd_revision = 1, wd_task = \<lparr>td_contract = ZERO3_EXECUTION_TASK, td_taskId = ''T'',
     td_projectId = None, td_workspace = None, td_title = ''t'', td_goal = ''g'', td_workflowId = None,
     td_maxParallelSteps = 1, td_createdBySessionId = None, td_metadata = [], td_createdAt = ''now''\<rparr>,
     wd_steps = demo_steps\<rparr>"

theorem accepted_definition_witness:
  "well_formed_dag (wd_steps demo_definition) \<and> length (wd_steps demo_definition) = 2"
proof
  have "validateExecutionWorkflowDefinition demo_definition = []" by code_simp
  from accepted_definition [OF this] show "well_formed_dag (wd_steps demo_definition)" by simp
  show "length (wd_steps demo_definition) = 2" by code_simp
qed

section \<open>Durable records\<close>

text \<open>An event ledger is read exactly when its lines are the checksummed records of acceptable events numbered
  1, 2, 3, ... under distinct ids.\<close>

theorem ledger_accepts_exactly:
  "readExecutionEventLedger checksum path ls = Inr es \<longleftrightarrow>
     ls = map (recordFor checksum) es \<and> list_all acceptable_event es \<and>
     map ev_sequence es = map int [1..<Suc (length es)] \<and> distinct (map ev_eventId es)"
proof -
  have "(\<forall>i < length es. ev_sequence (es ! i) = 1 + int i) \<longleftrightarrow> map ev_sequence es = map int [1..<Suc (length es)]"
    unfolding list_eq_iff_nth_eq by (simp del: upt_Suc)
  then show ?thesis by (simp add: readExecutionEventLedger_iff)
qed

text \<open>appending an acceptable event keeps what the ledger had as a prefix and adds nothing but that event; doing
  it again is answered \<open>Duplicate\<close> and changes nothing.\<close>

theorem ledger_append:
  assumes "readExecutionEventLedger checksum path ls = Inr es" "acceptable_event e"
    and "appendSerialized checksum path ls e = (r, ls')"
  shows "(\<exists>new. readExecutionEventLedger checksum path ls' = Inr (es @ new) \<and> set new \<subseteq> {e}) \<and>
    (r = Inr Appended \<longrightarrow> appendSerialized checksum path ls' e = (Inr Duplicate, ls'))"
proof
  show "\<exists>new. readExecutionEventLedger checksum path ls' = Inr (es @ new) \<and> set new \<subseteq> {e}"
    using execution_log.append_prefix [OF assms(1,2)] assms(3) by simp
  show "r = Inr Appended \<longrightarrow> appendSerialized checksum path ls' e = (Inr Duplicate, ls')"
    using execution_log.append_idempotent assms(2,3) by blast
qed

definition demo_event :: execution_event where
  "demo_event = \<lparr>ev_contract = ZERO3_EXECUTION_EVENT, ev_eventId = ''x'', ev_sequence = 1, ev_taskId = ''T'',
     ev_stepId = None, ev_assignmentId = None, ev_type = EvTaskCreated, ev_payload = None, ev_at = ''now''\<rparr>"

theorem ledger_append_witness:
  "appendSerialized (\<lambda>_. ''e'') ''p'' [recordFor (\<lambda>_. ''e'') demo_event] demo_event =
     (Inr Duplicate, [recordFor (\<lambda>_. ''e'') demo_event])"
proof -
  have "readExecutionEventLedger (\<lambda>_. ''e'') ''p'' [] = Inr []"
    by (simp add: readExecutionEventLedger_iff)
  moreover have "acceptable_event demo_event" by code_simp
  moreover have "appendSerialized (\<lambda>_. ''e'') ''p'' [] demo_event = (Inr Appended, [recordFor (\<lambda>_. ''e'') demo_event])"
    by code_simp
  ultimately show ?thesis using ledger_append by blast
qed

end
