(* ===== verification/ExecutorTypes.thy ===== *)
theory ExecutorTypes
  imports DurableJson "HOL-Library.AList"
begin

text \<open>
  \<open>executor-runtime/executor-types.ts\<close>, \<open>failure-normalizer.ts\<close>, \<open>executor-registry.ts\<close> and
  \<open>executor-router.ts\<close>: what an executor is, the failure taxonomy with its policy, the registry of
  executors and the order in which a router falls back.

  The executors themselves are reached over an interface; what one of them answers is an argument of the
  operation that asks it.
\<close>

section \<open>Contracts\<close>

definition ZERO3_EXECUTOR_CONTRACT :: string where
  "ZERO3_EXECUTOR_CONTRACT = ''zero3.pilot.executor.v1''"

definition ZERO3_HANDOFF_PROTOCOL :: string where
  "ZERO3_HANDOFF_PROTOCOL = ''zero3.pilot.handoff.v1''"

datatype executor_kind = NativeCodex | ExternalAgent | ApiProvider

datatype permission_profile = ReadOnlyProfile | StandardProfile | ElevatedProfile | FullControl

datatype failure_code =
    QuotaExhausted | RateLimited | AuthRequired | ProviderOverloaded | ProviderError | ContextExhausted
  | BudgetExhausted | UserStopped | PermissionDenied | PolicyDenied | BadRequest | Unsupported
  | TransportLost | ProcessCrash | ContextLost | InternalError

datatype disposition = FailoverEligible | FailoverConditional | FailoverForbidden

datatype permission_decision = ApproveOnce | ApproveSession | Deny

record control_identity =
  ci_leaseId :: string
  ci_fencingToken :: int

record task_identity =
  ti_taskId :: string
  ti_executionId :: string
  ti_workspace :: string
  ti_repoIdentity :: "string option"
  ti_branch :: "string option"
  ti_objective :: string
  ti_constraints :: "string list"
  ti_acceptanceCriteria :: "string list"
  ti_control :: "control_identity option"

record policy_context =
  pc_permissionProfile :: permission_profile
  pc_approvalRequired :: bool

record checkpoint_ref =
  cr_protocol :: string
  cr_checkpointHash :: string
  cr_generation :: int
  cr_workspaceFingerprint :: string

record start_context =
  sc_contract :: string
  sc_identity :: task_identity
  sc_policy :: policy_context
  sc_generation :: int
  sc_handoff :: "checkpoint_ref option"

record session_ref =
  sn_executorId :: string
  sn_sessionId :: string
  sn_generation :: int

record executor_session = session_ref +
  sn_startedAt :: string

record permission_response =
  pr_requestId :: string
  pr_decision :: permission_decision

record executor_failure =
  xf_code :: failure_code
  xf_message :: string
  xf_source :: string

record failure_policy =
  fp_retryable :: bool
  fp_failover :: disposition

text \<open>
  An event of an executor. The manager looks at permission requests, failures (any value, checked when it
  arrives) and completion; the other events pass through with their text.
\<close>

datatype executor_event_body =
    PermissionRequested string string "bool option"
  | FailureEvent json
  | CompletedEvent string
  | OtherEvent string string

record executor_event =
  xe_sequence :: int
  xe_at :: string
  xe_body :: executor_event_body

record descriptor =
  xd_id :: string
  xd_kind :: executor_kind
  xd_label :: string

section \<open>Failures\<close>

fun failure_code_text :: "failure_code \<Rightarrow> string" where
  "failure_code_text QuotaExhausted = ''quota_exhausted''"
| "failure_code_text RateLimited = ''rate_limited''"
| "failure_code_text AuthRequired = ''auth_required''"
| "failure_code_text ProviderOverloaded = ''provider_overloaded''"
| "failure_code_text ProviderError = ''provider_error''"
| "failure_code_text ContextExhausted = ''context_exhausted''"
| "failure_code_text BudgetExhausted = ''budget_exhausted''"
| "failure_code_text UserStopped = ''user_stopped''"
| "failure_code_text PermissionDenied = ''permission_denied''"
| "failure_code_text PolicyDenied = ''policy_denied''"
| "failure_code_text BadRequest = ''bad_request''"
| "failure_code_text Unsupported = ''unsupported''"
| "failure_code_text TransportLost = ''transport_lost''"
| "failure_code_text ProcessCrash = ''process_crash''"
| "failure_code_text ContextLost = ''context_lost''"
| "failure_code_text InternalError = ''internal_error''"

definition EXECUTOR_FAILURE_CODES :: "failure_code list" where
  "EXECUTOR_FAILURE_CODES = [QuotaExhausted, RateLimited, AuthRequired, ProviderOverloaded, ProviderError,
     ContextExhausted, BudgetExhausted, UserStopped, PermissionDenied, PolicyDenied, BadRequest, Unsupported,
     TransportLost, ProcessCrash, ContextLost, InternalError]"

definition RETRYABLE_FAILURES :: "failure_code list" where
  "RETRYABLE_FAILURES = [RateLimited, ProviderOverloaded, ProviderError, TransportLost, ProcessCrash, InternalError]"

definition IMMEDIATE_FAILOVER_FAILURES :: "failure_code list" where
  "IMMEDIATE_FAILOVER_FAILURES = [QuotaExhausted]"

definition FORBIDDEN_FAILOVER_FAILURES :: "failure_code list" where
  "FORBIDDEN_FAILOVER_FAILURES = [BudgetExhausted, UserStopped, PermissionDenied, PolicyDenied, BadRequest]"

definition failurePolicyFor :: "failure_code \<Rightarrow> failure_policy" where
  "failurePolicyFor code = \<lparr>fp_retryable = code \<in> set RETRYABLE_FAILURES,
     fp_failover = (if code \<in> set FORBIDDEN_FAILOVER_FAILURES then FailoverForbidden
       else if code \<in> set IMMEDIATE_FAILOVER_FAILURES then FailoverEligible else FailoverConditional)\<rparr>"

fun code_of_text :: "failure_code list \<Rightarrow> string \<Rightarrow> failure_code option" where
  "code_of_text [] t = None"
| "code_of_text (c # cs) t = (if failure_code_text c = t then Some c else code_of_text cs t)"

text \<open>A value that is an \<open>ExecutorFailure\<close>: an object with a known code, a message and a source.\<close>

definition failure_of_json :: "json \<Rightarrow> executor_failure option" where
  "failure_of_json v = (case (json_get ''code'' v, json_get ''message'' v, json_get ''source'' v) of
     (Some (JStr c), Some (JStr m), Some (JStr s)) \<Rightarrow>
       map_option (\<lambda>code. \<lparr>xf_code = code, xf_message = m, xf_source = s\<rparr>) (code_of_text EXECUTOR_FAILURE_CODES c)
   | _ \<Rightarrow> None)"

definition isExecutorFailure :: "json \<Rightarrow> bool" where
  "isExecutorFailure v \<longleftrightarrow> failure_of_json v \<noteq> None"

definition createExecutorFailure :: "failure_code \<Rightarrow> string \<Rightarrow> string \<Rightarrow> executor_failure" where
  "createExecutorFailure code message source = \<lparr>xf_code = code, xf_message = message, xf_source = source\<rparr>"

text \<open>What was thrown: an \<open>Error\<close> with its message, or a value with its \<open>String(...)\<close> text.\<close>

datatype thrown = ThrownError string | ThrownValue json string

definition normalizeUnknownExecutorFailure :: "thrown \<Rightarrow> string \<Rightarrow> executor_failure" where
  "normalizeUnknownExecutorFailure e source = (case e of
     ThrownError msg \<Rightarrow> createExecutorFailure InternalError msg source
   | ThrownValue v shown \<Rightarrow> (case failure_of_json v of Some f \<Rightarrow> f
       | None \<Rightarrow> createExecutorFailure InternalError shown source))"

definition failure_json :: "executor_failure \<Rightarrow> json" where
  "failure_json f = JObj [(''code'', JStr (failure_code_text (xf_code f))), (''message'', JStr (xf_message f)),
     (''source'', JStr (xf_source f))]"

lemma failure_json_roundtrip [simp]: "failure_of_json (failure_json f) = Some f"
  by (cases "xf_code f") (simp_all add: failure_of_json_def failure_json_def EXECUTOR_FAILURE_CODES_def)

section \<open>The registry\<close>

text \<open>
  What the router and the manager rely on: looking up after registering and unregistering, and refusing a
  second executor under a name that is taken.
\<close>

locale executor_directory =
  fixes get :: "'r \<Rightarrow> string \<Rightarrow> 'x option"
    and register :: "'x \<Rightarrow> 'r \<Rightarrow> 'r res"
    and unregister :: "string \<Rightarrow> 'r \<Rightarrow> bool \<times> 'r"
    and key :: "'x \<Rightarrow> string"
  assumes register_ok: "key x \<noteq> [] \<Longrightarrow> get r (key x) = None \<Longrightarrow> \<exists>r'. register x r = Inr r'"
    and register_taken: "get r (key x) \<noteq> None \<Longrightarrow> \<exists>e. register x r = Inl e"
    and get_register: "register x r = Inr r' \<Longrightarrow> get r' k = (if k = key x then Some x else get r k)"
    and get_unregister: "get (snd (unregister k r)) k' = (if k' = k then None else get r k')"
    and unregister_found: "fst (unregister k r) \<longleftrightarrow> get r k \<noteq> None"
begin

lemma register_twice: "register x r = Inr r' \<Longrightarrow> key y = key x \<Longrightarrow> \<exists>e. register y r' = Inl e"
  by (rule register_taken) (simp add: get_register)

lemma register_keeps: "register x r = Inr r' \<Longrightarrow> get r k = Some y \<Longrightarrow> get r' k = Some y"
  using register_taken [of r x] by (cases "k = key x") (auto simp: get_register)

lemma unregister_register:
  assumes "register x r = Inr r'"
  shows "get (snd (unregister (key x) r')) k = (if k = key x then None else get r k)"
  using assms by (simp add: get_unregister get_register)

lemma replace:
  assumes "key x = k" "k \<noteq> []"
  shows "\<exists>r'. register x (snd (unregister k r)) = Inr r'"
  using assms by (intro register_ok) (simp_all add: get_unregister)

end

type_synonym registry = "(string \<times> descriptor) list"

definition registry_get :: "registry \<Rightarrow> string \<Rightarrow> descriptor option" where
  "registry_get r k = map_of r k"

definition register :: "descriptor \<Rightarrow> registry \<Rightarrow> registry res" where
  "register d r = (let k = trim (xd_id d) in
     if k = [] then Inl (ExecutorRegistryError ''executor id must be non-empty'')
     else if map_of r k \<noteq> None then Inl (ExecutorRegistryError (''executor already registered: '' @ k))
     else Inr (r @ [(k, d)]))"

definition unregister :: "string \<Rightarrow> registry \<Rightarrow> bool \<times> registry" where
  "unregister k r = (map_of r k \<noteq> None, filter (\<lambda>e. fst e \<noteq> k) r)"

definition require_executor :: "registry \<Rightarrow> string \<Rightarrow> descriptor res" where
  "require_executor r k = (case registry_get r k of
     None \<Rightarrow> Inl (ExecutorRegistryError (''executor is not registered: '' @ k)) | Some d \<Rightarrow> Inr d)"

definition registry_list :: "registry \<Rightarrow> descriptor list" where
  "registry_list r = map snd r"

lemma map_of_filter_ne: "map_of (filter (\<lambda>e. fst e \<noteq> k) r) k' = (if k' = k then None else map_of r k')"
  by (induction r) auto

interpretation executor_registry: executor_directory registry_get register unregister "\<lambda>d. trim (xd_id d)"
proof
  fix x r r' k k'
  show "trim (xd_id x) \<noteq> [] \<Longrightarrow> registry_get r (trim (xd_id x)) = None \<Longrightarrow> \<exists>r'. register x r = Inr r'"
    by (simp add: register_def registry_get_def)
  show "registry_get r (trim (xd_id x)) \<noteq> None \<Longrightarrow> \<exists>e. register x r = Inl e"
    by (simp add: register_def registry_get_def Let_def)
  show "register x r = Inr r' \<Longrightarrow> registry_get r' k = (if k = trim (xd_id x) then Some x else registry_get r k)"
    by (auto simp: register_def registry_get_def Let_def map_add_def split: if_splits option.splits)
  show "registry_get (snd (unregister k r)) k' = (if k' = k then None else registry_get r k')"
    by (simp add: unregister_def registry_get_def map_of_filter_ne)
  show "fst (unregister k r) \<longleftrightarrow> registry_get r k \<noteq> None"
    by (simp add: unregister_def registry_get_def)
qed

section \<open>The router\<close>

record route_plan =
  rp_primary :: string
  rp_fallbacks :: "string list"

definition route_order :: "route_plan \<Rightarrow> string list" where
  "route_order p = rp_primary p # rp_fallbacks p"

definition new_router :: "route_plan \<Rightarrow> route_plan res" where
  "new_router p = (if distinct (route_order p) then Inr p
     else Inl (ExecutorRoutingError ''executor route plan cannot contain duplicate ids''))"

definition router_primary :: "registry \<Rightarrow> route_plan \<Rightarrow> string res" where
  "router_primary r p = (case require_executor r (rp_primary p) of Inl e \<Rightarrow> Inl e | Inr _ \<Rightarrow> Inr (rp_primary p))"

definition router_manual :: "registry \<Rightarrow> string \<Rightarrow> string res" where
  "router_manual r k = (case require_executor r k of Inl e \<Rightarrow> Inl e | Inr _ \<Rightarrow> Inr k)"

definition after_in :: "string \<Rightarrow> string list \<Rightarrow> string list" where
  "after_in k xs = tl (dropWhile (\<lambda>x. x \<noteq> k) xs)"

definition fallbackCandidatesAfter :: "registry \<Rightarrow> route_plan \<Rightarrow> string \<Rightarrow> json \<Rightarrow> string list res" where
  "fallbackCandidatesAfter r p k failure = (case failure_of_json failure of
     None \<Rightarrow> Inl (ExecutorRoutingError ''executor failure must use the frozen Zero3 failure taxonomy'')
   | Some f \<Rightarrow>
       if fp_failover (failurePolicyFor (xf_code f)) = FailoverForbidden then Inr []
       else if k \<notin> set (route_order p) then Inl (ExecutorRoutingError (''executor is not present in route plan: '' @ k))
       else Inr (filter (\<lambda>x. registry_get r x \<noteq> None) (after_in k (route_order p))))"

lemma after_in_split: "distinct xs \<Longrightarrow> k \<in> set xs \<Longrightarrow> \<exists>ys. xs = ys @ k # after_in k xs"
proof (induction xs)
  case (Cons x xs)
  show ?case
  proof (cases "x = k")
    case True
    then show ?thesis by (simp add: after_in_def)
  next
    case False
    with Cons obtain ys where "xs = ys @ k # after_in k xs" by auto
    with False have "x # xs = (x # ys) @ k # after_in k (x # xs)" by (simp add: after_in_def)
    then show ?thesis by blast
  qed
qed simp

end
