(* ===== verification/FailoverController.thy ===== *)
theory FailoverController
  imports ExecutorTypes
begin

text \<open>
  \<open>executor-runtime/router/failover-controller.ts\<close>, class \<open>Zero3FailoverController\<close>: which executor of an
  ordered list of candidates runs a task, what a failure makes of it (retry, recover, hand off, switch),
  and the switch that stays pending until its handoff is verified.

  The private fields are the record \<open>failover\<close>. The map \<open>#processed\<close> and the list \<open>#processedOrder\<close> hold
  the same keys and are one list of pairs, oldest first.
\<close>

section \<open>State\<close>

datatype switch_reason = FailedWith failure_code | ManualSwitch | ReturnToPrimary

record switch_action =
  sw_from :: string
  sw_to :: string
  sw_generation :: int
  sw_reason :: switch_reason

datatype failover_action =
    NoAction string
  | RetryAction string int int
  | RecoverAction string failure_code
  | HandoffAction string int failure_code
  | RequestAuth string
  | SwitchAction switch_action

record failover_config =
  fc_candidates :: "string list"
  fc_automaticFailover :: bool
  fc_maxRetries :: int
  fc_providerCooldownMs :: int
  fc_circuitFailureThreshold :: int
  fc_circuitOpenMs :: int
  fc_switchOnAuthRequired :: bool
  fc_returnToPrimaryAfterStage :: bool
  fc_maxProcessedEvents :: "nat option"

record provider_state =
  ps_retryCount :: int
  ps_consecutiveFailures :: int
  ps_cooldownUntilMs :: int
  ps_circuitOpenUntilMs :: int

record failover =
  fo_config :: failover_config
  fo_current :: string
  fo_generation :: int
  fo_providers :: "(string \<times> provider_state) list"
  fo_processed :: "(string \<times> failover_action) list"
  fo_pending :: "(string \<times> switch_action) option"

record failover_snapshot =
  fs_version :: string
  fs_current :: string
  fs_generation :: int
  fs_providerState :: "(string \<times> provider_state) list"
  fs_processed :: "(string \<times> failover_action) list"
  fs_pendingSwitch :: "(string \<times> switch_action) option"

type_synonym 'a failover_eff = "(failover, 'a) eff"

definition RETRY_THEN_SWITCH :: "failure_code list" where
  "RETRY_THEN_SWITCH = [RateLimited, ProviderOverloaded, ProviderError]"

definition RECOVER_FIRST :: "failure_code list" where
  "RECOVER_FIRST = [TransportLost, ProcessCrash]"

definition HANDOFF_REQUIRED :: "failure_code list" where
  "HANDOFF_REQUIRED = [ContextLost, ContextExhausted]"

section \<open>Construction\<close>

definition natural_safe :: "int \<Rightarrow> bool" where
  "natural_safe n \<longleftrightarrow> safe_integer n \<and> 0 \<le> n"

definition validateConfig :: "failover_config \<Rightarrow> unit res" where
  "validateConfig c =
     (if fc_candidates c = [] then Inl (Error ''failover candidates must not be empty'')
      else if \<not> distinct (fc_candidates c) then Inl (Error ''failover candidates must be unique'')
      else if \<not> natural_safe (fc_maxRetries c) then Inl (Error ''maxRetries must be a non-negative safe integer'')
      else if \<not> natural_safe (fc_providerCooldownMs c) then Inl (Error ''providerCooldownMs must be a non-negative safe integer'')
      else if \<not> natural_safe (fc_circuitFailureThreshold c) then Inl (Error ''circuitFailureThreshold must be a non-negative safe integer'')
      else if \<not> natural_safe (fc_circuitOpenMs c) then Inl (Error ''circuitOpenMs must be a non-negative safe integer'')
      else guard_res (1 \<le> fc_circuitFailureThreshold c) (Error ''circuitFailureThreshold must be positive''))"

definition emptyProviderState :: provider_state where
  "emptyProviderState = \<lparr>ps_retryCount = 0, ps_consecutiveFailures = 0, ps_cooldownUntilMs = 0, ps_circuitOpenUntilMs = 0\<rparr>"

definition new_failover :: "failover_config \<Rightarrow> string \<Rightarrow> int \<Rightarrow> failover res" where
  "new_failover c current generation = (case validateConfig c of Inl e \<Rightarrow> Inl e
     | Inr _ \<Rightarrow>
        if current \<notin> set (fc_candidates c) then Inl (Error ''current executor must be in candidate order'')
        else if \<not> safe_integer generation \<or> generation < 1 then Inl (Error ''generation must be a positive safe integer'')
        else Inr \<lparr>fo_config = c, fo_current = current, fo_generation = generation,
          fo_providers = map (\<lambda>k. (k, emptyProviderState)) (fc_candidates c), fo_processed = [], fo_pending = None\<rparr>)"

section \<open>Private helpers\<close>

definition assertEventId :: "string \<Rightarrow> unit res" where
  "assertEventId i = guard_res (trim i \<noteq> []) (Error ''failure event id must be non-empty'')"

definition assertTime :: "int \<Rightarrow> unit res" where
  "assertTime t = guard_res (natural_safe t) (Error ''nowMs must be a non-negative safe integer'')"

definition processed_limit :: "failover_config \<Rightarrow> nat" where
  "processed_limit c = (case fc_maxProcessedEvents c of None \<Rightarrow> 1024 | Some n \<Rightarrow> n)"

text \<open>
  The loop that drops the oldest decisions while there are more than the limit. \<open>validateConfig\<close> does not
  look at the limit, and for a negative one the loop never ends (\<open>shift\<close> of an empty array leaves it
  empty): \<open>evict_oldest\<close> is then \<open>None\<close>. The configurations of the model have a natural number there, and
  the loop is \<open>keep_newest\<close> (lemma \<open>evict_oldest_keep\<close>).
\<close>

partial_function (option) evict_oldest :: "int \<Rightarrow> 'a list \<Rightarrow> 'a list option" where
  "evict_oldest limit xs = (if int (length xs) > limit then evict_oldest limit (tl xs) else Some xs)"

definition keep_newest :: "nat \<Rightarrow> 'a list \<Rightarrow> 'a list" where
  "keep_newest n xs = drop (length xs - n) xs"

lemma keep_newest_fits [simp]: "length xs \<le> n \<Longrightarrow> keep_newest n xs = xs"
  by (simp add: keep_newest_def)

lemma evict_oldest_keep: "evict_oldest (int n) xs = Some (keep_newest n xs)"
proof (induction xs)
  case (Cons x xs)
  show ?case
  proof (cases "length (x # xs) > n")
    case True
    then have "length (x # xs) - n = Suc (length xs - n)" by simp
    with True Cons show ?thesis by (subst evict_oldest.simps) (simp add: keep_newest_def)
  qed (subst evict_oldest.simps, simp)
qed (subst evict_oldest.simps, simp)

lemma evict_oldest_Some:
  assumes "evict_oldest limit xs = Some ys"
  shows "int (length ys) \<le> limit"
proof (rule evict_oldest.raw_induct [OF _ assms, where P = "\<lambda>l xs ys. int (length ys) \<le> l"])
  fix rec :: "int \<Rightarrow> 'a list \<Rightarrow> 'a list option" and l zs ws
  assume rec: "\<And>l xs ys. rec l xs = Some ys \<Longrightarrow> int (length ys) \<le> l"
    and step: "(if l < int (length zs) then rec l (tl zs) else Some zs) = Some ws"
  show "int (length ws) \<le> l"
  proof (cases "l < int (length zs)")
    case True
    with step show ?thesis by (intro rec) simp
  qed (use step in simp)
qed

definition remember :: "string \<Rightarrow> failover_action \<Rightarrow> failover_action failover_eff" where
  "remember i a = (\<lambda>f. case map_of (fo_processed f) i of
     Some old \<Rightarrow> (Inr old, f)
   | None \<Rightarrow> (Inr a, f\<lparr>fo_processed := keep_newest (processed_limit (fo_config f)) (fo_processed f @ [(i, a)])\<rparr>))"

definition provider :: "string \<Rightarrow> provider_state failover_eff" where
  "provider k = bnd (gets (\<lambda>f. map_of (fo_providers f) k)) (\<lambda>p. case p of
     None \<Rightarrow> throw (Error (''executor not configured for failover: '' @ k)) | Some s \<Rightarrow> ret s)"

definition set_provider :: "string \<Rightarrow> provider_state \<Rightarrow> unit failover_eff" where
  "set_provider k s = modify (\<lambda>f. f\<lparr>fo_providers := AList.update k s (fo_providers f)\<rparr>)"

definition free_at :: "int \<Rightarrow> provider_state \<Rightarrow> bool" where
  "free_at t s \<longleftrightarrow> t \<ge> ps_cooldownUntilMs s \<and> t \<ge> ps_circuitOpenUntilMs s"

definition available :: "string \<Rightarrow> int \<Rightarrow> bool failover_eff" where
  "available k t = bnd (provider k) (\<lambda>s. ret (free_at t s))"

text \<open>The candidates after the current one, round the list; the index of a missing one is -1.\<close>

definition rotation :: "string list \<Rightarrow> string \<Rightarrow> string list" where
  "rotation cs k = (let i = (if k \<in> set cs then int (length (takeWhile (\<lambda>c. c \<noteq> k) cs)) else -1) in
     map (\<lambda>offset. cs ! nat ((i + int offset) mod int (length cs))) [1..<length cs])"

fun first_available :: "int \<Rightarrow> string list \<Rightarrow> string option failover_eff" where
  "first_available t [] = ret None"
| "first_available t (k # ks) = bnd (available k t) (\<lambda>ok. if ok then ret (Some k) else first_available t ks)"

definition nextAvailable :: "int \<Rightarrow> string option failover_eff" where
  "nextAvailable t = bnd (gets (\<lambda>f. rotation (fc_candidates (fo_config f)) (fo_current f))) (first_available t)"

text \<open>Planning a switch to \<open>k\<close>: it is pending from now on.\<close>

definition plan_to :: "string \<Rightarrow> string \<Rightarrow> switch_reason \<Rightarrow> failover_action failover_eff" where
  "plan_to i k reason = (\<lambda>f. let a = \<lparr>sw_from = fo_current f, sw_to = k, sw_generation = fo_generation f + 1, sw_reason = reason\<rparr>
     in (Inr (SwitchAction a), f\<lparr>fo_pending := Some (i, a)\<rparr>))"

definition planSwitch :: "string \<Rightarrow> failure_code \<Rightarrow> int \<Rightarrow> failover_action failover_eff" where
  "planSwitch i code t = bnd (nextAvailable t) (\<lambda>next. case next of
     None \<Rightarrow> ret (NoAction ''no eligible fallback executor'')
   | Some k \<Rightarrow> plan_to i k (FailedWith code))"

section \<open>Operations\<close>

text \<open>A decision already taken for an event is returned again.\<close>

definition unless_processed :: "string \<Rightarrow> failover_action failover_eff \<Rightarrow> failover_action failover_eff" where
  "unless_processed i m = bnd (gets (\<lambda>f. map_of (fo_processed f) i)) (\<lambda>c. case c of Some a \<Rightarrow> ret a | None \<Rightarrow> m)"

definition count_failure :: "failover_config \<Rightarrow> int \<Rightarrow> provider_state \<Rightarrow> provider_state" where
  "count_failure c t s = (let n = ps_consecutiveFailures s + 1 in
     s\<lparr>ps_consecutiveFailures := n, ps_circuitOpenUntilMs := (if n \<ge> fc_circuitFailureThreshold c
       then max (ps_circuitOpenUntilMs s) (t + fc_circuitOpenMs c) else ps_circuitOpenUntilMs s)\<rparr>)"

text \<open>What to do about a counted failure \<open>code\<close> of the current executor \<open>k\<close>, whose state is now \<open>s\<close>.\<close>

definition decide :: "failover_config \<Rightarrow> string \<Rightarrow> string \<Rightarrow> provider_state \<Rightarrow> failure_code \<Rightarrow> int \<Rightarrow>
    failover_action failover_eff" where
  "decide c i k s code t =
     (if code \<in> set RECOVER_FIRST then remember i (RecoverAction k code)
      else if code \<in> set HANDOFF_REQUIRED then bnd (gets fo_generation) (\<lambda>g. remember i (HandoffAction k (g + 1) code))
      else if code = AuthRequired \<and> \<not> fc_switchOnAuthRequired c then remember i (RequestAuth k)
      else if \<not> fc_automaticFailover c then remember i (NoAction ''automatic failover disabled'')
      else if code \<in> set RETRY_THEN_SWITCH \<and> ps_retryCount s < fc_maxRetries c
      then bnd (set_provider k (s\<lparr>ps_retryCount := ps_retryCount s + 1\<rparr>)) (\<lambda>_.
        remember i (RetryAction k (ps_retryCount s + 1) (fc_maxRetries c)))
      else if code \<in> set RETRY_THEN_SWITCH \<or> code = QuotaExhausted \<or> code = Unsupported
        \<or> (code = AuthRequired \<and> fc_switchOnAuthRequired c)
      then bnd (set_provider k (s\<lparr>ps_cooldownUntilMs := max (ps_cooldownUntilMs s) (t + fc_providerCooldownMs c)\<rparr>)) (\<lambda>_.
        bnd (planSwitch i code t) (remember i))
      else remember i (NoAction (''no automatic policy for '' @ failure_code_text code)))"

definition onFailure :: "string \<Rightarrow> executor_failure \<Rightarrow> int \<Rightarrow> failover_action failover_eff" where
  "onFailure i failure t =
     bnd (lift_res (assertEventId i)) (\<lambda>_.
     bnd (lift_res (assertTime t)) (\<lambda>_.
     unless_processed i (
     bnd (gets (\<lambda>f. fo_pending f \<noteq> None)) (\<lambda>busy.
     if busy then remember i (NoAction ''switch already pending handoff verification'')
     else bnd (gets fo_current) (\<lambda>k.
     if xf_source failure \<noteq> k \<and> xf_source failure \<noteq> ''executor-core''
     then remember i (NoAction ''failure source does not match current executor'')
     else let code = xf_code failure in
     if fp_failover (failurePolicyFor code) = FailoverForbidden
     then remember i (NoAction (''automatic failover forbidden for '' @ failure_code_text code))
     else if code = UserStopped then remember i (NoAction ''user stopped execution'')
     else bnd (gets fo_config) (\<lambda>c.
     bnd (provider k) (\<lambda>s0.
     let s = count_failure c t s0 in
     bnd (set_provider k s) (\<lambda>_.
     decide c i k s code t))))))))"

definition onRecoveryFailed :: "string \<Rightarrow> failure_code \<Rightarrow> failover_action failover_eff" where
  "onRecoveryFailed i reason =
     bnd (lift_res (assertEventId i)) (\<lambda>_.
     let j = i @ '':recovery-failed'' in
     unless_processed j (
     bnd (gets fo_current) (\<lambda>k. bnd (gets fo_generation) (\<lambda>g.
     remember j (HandoffAction k (g + 1) reason)))))"

definition manualSwitch :: "string \<Rightarrow> string \<Rightarrow> failover_action failover_eff" where
  "manualSwitch i k =
     bnd (lift_res (assertEventId i)) (\<lambda>_.
     unless_processed i (
     bnd (gets (\<lambda>f. fo_pending f \<noteq> None)) (\<lambda>busy.
     if busy then remember i (NoAction ''switch already pending handoff verification'')
     else bnd (gets (\<lambda>f. k \<in> set (fc_candidates (fo_config f)))) (\<lambda>known.
     bnd (require_that known (Error ''manual executor is not in candidate order'')) (\<lambda>_.
     bnd (gets fo_current) (\<lambda>current.
     if k = current then remember i (NoAction ''executor already current'')
     else bnd (plan_to i k ManualSwitch) (remember i)))))))"

definition stageBoundary :: "string \<Rightarrow> int \<Rightarrow> failover_action failover_eff" where
  "stageBoundary i t =
     bnd (lift_res (assertTime t)) (\<lambda>_.
     unless_processed i (
     bnd (gets (\<lambda>f. hd (fc_candidates (fo_config f)))) (\<lambda>primary.
     bnd (gets (\<lambda>f. \<not> fc_returnToPrimaryAfterStage (fo_config f) \<or> fo_current f = primary)) (\<lambda>stay.
     bnd (if stay then ret False else available primary t) (\<lambda>ok.
     if \<not> ok then remember i (NoAction ''return-to-primary not required or primary unavailable'')
     else bnd (plan_to i primary ReturnToPrimary) (remember i))))))"

definition recordSuccess :: "string \<Rightarrow> unit failover_eff" where
  "recordSuccess k = bnd (provider k) (\<lambda>s.
     set_provider k (s\<lparr>ps_retryCount := 0, ps_consecutiveFailures := 0, ps_circuitOpenUntilMs := 0\<rparr>))"

definition commitVerifiedSwitch :: "string \<Rightarrow> int \<Rightarrow> unit failover_eff" where
  "commitVerifiedSwitch i accepted =
     bnd (gets fo_pending) (\<lambda>p. case p of
       None \<Rightarrow> throw (Error ''no matching pending switch'')
     | Some (j, a) \<Rightarrow>
        if j \<noteq> i then throw (Error ''no matching pending switch'')
        else if accepted \<noteq> sw_generation a then throw (Error ''verified handoff generation does not match pending switch'')
        else bnd (modify (\<lambda>f. f\<lparr>fo_current := sw_to a, fo_generation := accepted, fo_pending := None\<rparr>)) (\<lambda>_.
          recordSuccess (sw_to a)))"

definition abortSwitch :: "string \<Rightarrow> unit failover_eff" where
  "abortSwitch i = bnd (gets fo_pending) (\<lambda>p.
     bnd (require_that (map_option fst p = Some i) (Error ''no matching pending switch'')) (\<lambda>_.
     modify (\<lambda>f. f\<lparr>fo_pending := None\<rparr>)))"

section \<open>Snapshot and restore\<close>

definition FAILOVER_VERSION :: string where
  "FAILOVER_VERSION = ''zero3.pilot.failover.v1''"

definition failover_snapshot_of :: "failover \<Rightarrow> failover_snapshot" where
  "failover_snapshot_of f = \<lparr>fs_version = FAILOVER_VERSION, fs_current = fo_current f, fs_generation = fo_generation f,
     fs_providerState = fo_providers f, fs_processed = fo_processed f, fs_pendingSwitch = fo_pending f\<rparr>"

fun restore_providers :: "(string \<times> provider_state) list \<Rightarrow> string list \<Rightarrow> unit failover_eff" where
  "restore_providers saved [] = ret ()"
| "restore_providers saved (k # ks) = (case map_of saved k of
     None \<Rightarrow> throw (Error (''missing provider state: '' @ k))
   | Some s \<Rightarrow> bnd (set_provider k s) (\<lambda>_. restore_providers saved ks))"

fun restore_processed :: "(string \<times> failover_action) list \<Rightarrow> unit failover_eff" where
  "restore_processed [] = ret ()"
| "restore_processed ((i, a) # es) = bnd (remember i a) (\<lambda>_. restore_processed es)"

definition restore :: "failover_config \<Rightarrow> failover_snapshot \<Rightarrow> failover res" where
  "restore c s = (if fs_version s \<noteq> FAILOVER_VERSION then Inl (Error ''unsupported failover snapshot version'')
     else (case new_failover c (fs_current s) (fs_generation s) of Inl e \<Rightarrow> Inl e
       | Inr f0 \<Rightarrow> (case bnd (restore_providers (fs_providerState s) (fc_candidates c)) (\<lambda>_.
             bnd (restore_processed (fs_processed s)) (\<lambda>_.
             modify (\<lambda>f. f\<lparr>fo_pending := fs_pendingSwitch s\<rparr>))) f0 of
           (Inl e, _) \<Rightarrow> Inl e | (Inr _, f) \<Rightarrow> Inr f)))"

end
