(* ===== verification/FailoverSafety.thy ===== *)
theory FailoverSafety
  imports FailoverController
begin

text \<open>
  What the failover controller keeps: its invariant under every operation, the generation as a fence that
  only a verified switch moves, at most one decision per event, the snapshot.
\<close>

section \<open>The invariant\<close>

definition provider_ok :: "failover_config \<Rightarrow> provider_state \<Rightarrow> bool" where
  "provider_ok c s \<longleftrightarrow> 0 \<le> ps_retryCount s \<and> ps_retryCount s \<le> fc_maxRetries c \<and> 0 \<le> ps_consecutiveFailures s"

definition switch_ok :: "failover \<Rightarrow> switch_action \<Rightarrow> bool" where
  "switch_ok f a \<longleftrightarrow> sw_from a = fo_current f \<and> sw_to a \<noteq> fo_current f \<and>
     sw_to a \<in> set (fc_candidates (fo_config f)) \<and> sw_generation a = fo_generation f + 1"

definition pending_ok :: "failover \<Rightarrow> bool" where
  "pending_ok f \<longleftrightarrow> (case fo_pending f of None \<Rightarrow> True | Some (i, a) \<Rightarrow> switch_ok f a)"

definition memory_ok :: "failover \<Rightarrow> bool" where
  "memory_ok f \<longleftrightarrow> distinct (map fst (fo_processed f)) \<and> length (fo_processed f) \<le> processed_limit (fo_config f)"

definition providers_ok :: "failover \<Rightarrow> bool" where
  "providers_ok f \<longleftrightarrow> map fst (fo_providers f) = fc_candidates (fo_config f) \<and>
     (\<forall>e \<in> set (fo_providers f). provider_ok (fo_config f) (snd e))"

definition failover_ok :: "failover \<Rightarrow> bool" where
  "failover_ok f \<longleftrightarrow> validateConfig (fo_config f) = Inr () \<and> fo_current f \<in> set (fc_candidates (fo_config f)) \<and>
     1 \<le> fo_generation f \<and> providers_ok f \<and> memory_ok f \<and> pending_ok f"

text \<open>The part of the state that only a verified switch changes.\<close>

definition fence :: "failover \<Rightarrow> failover_config \<times> string \<times> int" where
  "fence f = (fo_config f, fo_current f, fo_generation f)"

lemma validateConfigD:
  assumes "validateConfig c = Inr ()"
  shows "fc_candidates c \<noteq> []" "distinct (fc_candidates c)" "0 \<le> fc_maxRetries c" "1 \<le> fc_circuitFailureThreshold c"
  using assms by (auto simp: validateConfig_def natural_safe_def split: if_splits)

lemma new_failover_ok:
  assumes "new_failover c k g = Inr f"
  shows "failover_ok f"
  using assms validateConfigD [of c]
  by (auto simp: new_failover_def failover_ok_def providers_ok_def memory_ok_def pending_ok_def provider_ok_def
      emptyProviderState_def comp_def split: sum.splits if_splits)

section \<open>The helpers keep the invariant\<close>

lemma map_fst_update: "k \<in> fst ` set xs \<Longrightarrow> map fst (AList.update k v xs) = map fst xs"
  by (induction xs) auto

lemma update_in: "e \<in> set (AList.update k v xs) \<Longrightarrow> e = (k, v) \<or> e \<in> set xs"
  by (induction xs) (auto split: if_splits)

lemma memory_remember:
  assumes "distinct (map fst xs)" "length xs \<le> n" "map_of xs i = None"
  shows "distinct (map fst (keep_newest n (xs @ [(i, a)])))" "length (keep_newest n (xs @ [(i, a)])) \<le> n"
proof -
  have "distinct (map fst (xs @ [(i, a)]))" using assms(1,3) by (auto simp: map_of_eq_None_iff)
  then show "distinct (map fst (keep_newest n (xs @ [(i, a)])))"
    by (simp add: keep_newest_def drop_map [symmetric] del: map_append drop_append)
  show "length (keep_newest n (xs @ [(i, a)])) \<le> n" using assms(2) by (simp add: keep_newest_def)
qed

abbreviation (input) keeps :: "(failover \<Rightarrow> bool) \<Rightarrow> 'a failover_eff \<Rightarrow> (failover \<Rightarrow> bool) \<Rightarrow> bool" where
  "keeps P m Q \<equiv> triple P m (\<lambda>_. Q) Q"

text \<open>The invariant together with a fixed fence.\<close>

definition at_fence :: "failover_config \<times> string \<times> int \<Rightarrow> failover \<Rightarrow> bool" where
  "at_fence w f \<longleftrightarrow> failover_ok f \<and> fence f = w"

lemma remember_keeps: "keeps (at_fence w) (remember i a) (at_fence w)"
  using memory_remember
  by (auto simp: triple_def remember_def at_fence_def failover_ok_def providers_ok_def memory_ok_def pending_ok_def
      switch_ok_def fence_def split: option.splits)

lemma set_provider_keeps:
  "keeps (\<lambda>f. at_fence w f \<and> k \<in> set (fc_candidates (fst w)) \<and> provider_ok (fst w) s) (set_provider k s) (at_fence w)"
  unfolding set_provider_def
  by (rule triple_modify)
     (auto simp: at_fence_def failover_ok_def providers_ok_def memory_ok_def pending_ok_def switch_ok_def fence_def
       map_fst_update image_set dest!: update_in split: option.splits)

lemma provider_domain:
  "failover_ok f \<Longrightarrow> k \<in> set (fc_candidates (fo_config f)) \<longleftrightarrow> map_of (fo_providers f) k \<noteq> None"
  unfolding failover_ok_def providers_ok_def by (metis list.set_map map_of_eq_None_iff)

lemma provider_gives:
  "triple (at_fence w) (provider k)
     (\<lambda>s f. at_fence w f \<and> map_of (fo_providers f) k = Some s \<and> provider_ok (fst w) s \<and> k \<in> set (fc_candidates (fst w)))
     (at_fence w)"
  using provider_domain
  by (fastforce simp: triple_def provider_def eff_defs at_fence_def failover_ok_def providers_ok_def fence_def
      dest: map_of_SomeD split: option.splits)

lemma available_reads: "snd (available k t f) = f"
  by (auto simp: available_def provider_def eff_defs split: option.splits)

lemma first_available_reads: "snd (first_available t ks f) = f"
proof (induction ks arbitrary: f)
  case (Cons k ks)
  then show ?case using available_reads [of k t f]
    by (cases "available k t f"; cases "fst (available k t f)") (auto simp: bnd_run ret_def)
qed (simp add: ret_def)

lemma first_available_Some:
  "first_available t ks f = (Inr (Some k), f') \<Longrightarrow>
     \<exists>us vs. ks = us @ k # vs \<and> fst (available k t f) = Inr True \<and> (\<forall>u \<in> set us. fst (available u t f) = Inr False)"
proof (induction ks arbitrary: f')
  case (Cons x xs)
  from Cons.prems obtain ok where ok: "available x t f = (Inr ok, f)"
    using available_reads [of x t f] by (auto simp: bnd_run split: prod.splits sum.splits)
  show ?case
  proof (cases ok)
    case True
    with Cons.prems ok have "x # xs = [] @ k # xs" "available k t f = (Inr True, f)" by (auto simp: bnd_run ret_def)
    then show ?thesis by (metis empty_iff empty_set fst_conv)
  next
    case False
    with Cons.prems ok have "first_available t xs f = (Inr (Some k), f')" by (simp add: bnd_run)
    from Cons.IH [OF this] obtain us vs where "xs = us @ k # vs" "fst (available k t f) = Inr True"
      "\<forall>u \<in> set us. fst (available u t f) = Inr False" by blast
    with False ok have "x # xs = (x # us) @ k # vs" "\<forall>u \<in> set (x # us). fst (available u t f) = Inr False" by auto
    with \<open>fst (available k t f) = Inr True\<close> show ?thesis by blast
  qed
qed (simp add: ret_def)

lemma rotation_others:
  assumes "distinct cs" "k \<in> set cs" "x \<in> set (rotation cs k)"
  shows "x \<in> set cs" "x \<noteq> k"
proof -
  define i where "i = length (takeWhile (\<lambda>c. c \<noteq> k) cs)"
  have "takeWhile (\<lambda>c. c \<noteq> k) cs \<noteq> cs" using assms(2) by (metis set_takeWhileD)
  then have "i < length cs"
    unfolding i_def by (metis length_takeWhile_le le_neq_implies_less takeWhile_eq_take take_all_iff order_refl)
  moreover from this have "cs ! i = k"
    using nth_length_takeWhile [of "\<lambda>c. c \<noteq> k" cs] unfolding i_def by simp
  ultimately have i: "i < length cs" "cs ! i = k" .
  from assms(3) obtain j where j: "1 \<le> j" "j < length cs" "x = cs ! nat ((int i + int j) mod int (length cs))"
    using assms(2) by (auto simp: rotation_def i_def)
  have e: "nat ((int i + int j) mod int (length cs)) = (i + j) mod length cs"
    by (metis nat_int of_nat_add zmod_int)
  have lt: "(i + j) mod length cs < length cs" using i(1) by (intro mod_less_divisor) auto
  show "x \<in> set cs" using j(3) e lt by simp
  have "(i + j) mod length cs = (if i + j < length cs then i + j else i + j - length cs)"
    using i(1) j(2) by (simp add: le_mod_geq)
  then have "(i + j) mod length cs \<noteq> i" using i(1) j(1,2) by (simp split: if_splits)
  then show "x \<noteq> k" using j(3) e lt i assms(1) by (metis nth_eq_iff_index_eq)
qed

lemma nextAvailable_run:
  "nextAvailable t f = first_available t (rotation (fc_candidates (fo_config f)) (fo_current f)) f"
  by (simp add: nextAvailable_def bnd_run gets_def)

lemma next_candidate:
  assumes "failover_ok f" "nextAvailable t f = (Inr (Some k), f')"
  shows "k \<noteq> fo_current f" "k \<in> set (fc_candidates (fo_config f))"
  using first_available_Some [OF assms(2) [unfolded nextAvailable_run]] assms(1) validateConfigD(2) [of "fo_config f"]
    rotation_others [of "fc_candidates (fo_config f)" "fo_current f" k] by (auto simp: failover_ok_def)

lemma nextAvailable_gives:
  "triple (at_fence w) (nextAvailable t)
     (\<lambda>r f. at_fence w f \<and> (case r of None \<Rightarrow> True | Some k \<Rightarrow> k \<noteq> fo_current f \<and> k \<in> set (fc_candidates (fo_config f))))
     (at_fence w)"
  unfolding triple_def
proof (intro allI impI)
  fix f assume f: "at_fence w f"
  obtain r where r: "nextAvailable t f = (r, f)"
    using first_available_reads [of t _ f] by (metis nextAvailable_run prod.collapse)
  with f next_candidate [of f t] show "case nextAvailable t f of (Inl e, f) \<Rightarrow> at_fence w f | (Inr r, f) \<Rightarrow>
      at_fence w f \<and> (case r of None \<Rightarrow> True | Some k \<Rightarrow> k \<noteq> fo_current f \<and> k \<in> set (fc_candidates (fo_config f)))"
    by (auto simp: at_fence_def split: sum.splits option.splits)
qed

lemma plan_to_keeps:
  "keeps (\<lambda>f. at_fence w f \<and> k \<noteq> fo_current f \<and> k \<in> set (fc_candidates (fo_config f))) (plan_to i k r) (at_fence w)"
  by (auto simp: triple_def plan_to_def Let_def at_fence_def failover_ok_def providers_ok_def memory_ok_def pending_ok_def
      switch_ok_def fence_def)

lemma planSwitch_keeps: "keeps (at_fence w) (planSwitch i code t) (at_fence w)"
  unfolding planSwitch_def
  by (rule triple_bnd [OF nextAvailable_gives])
     (auto intro!: triple_intros triple_pre [OF plan_to_keeps] split: option.splits)

lemma unless_processed_keeps:
  assumes "keeps (at_fence w) m (at_fence w)"
  shows "keeps (at_fence w) (unless_processed i m) (at_fence w)"
  unfolding unless_processed_def
  by (rule triple_bnd [OF triple_gets [of "at_fence w" "\<lambda>_. at_fence w"]])
     (auto intro!: triple_intros assms)

section \<open>The operations keep the invariant\<close>

lemma gets_keeps: "triple (at_fence w) (gets g) (\<lambda>x f. at_fence w f \<and> x = g f) E"
  by (rule triple_gets) simp

lemma at_fenceD:
  "at_fence w f \<Longrightarrow> fo_config f = fst w \<and> fo_current f = fst (snd w) \<and> fo_generation f = snd (snd w) \<and> failover_ok f"
  by (auto simp: at_fence_def fence_def)

lemma count_failure_ok: "provider_ok c s \<Longrightarrow> provider_ok c (count_failure c t s)"
  by (simp add: provider_ok_def count_failure_def Let_def)

text \<open>Runs of a value that was read, and that no later step looks at again.\<close>

lemma keeps_gets:
  assumes "\<And>f. at_fence w f \<Longrightarrow> keeps (at_fence w) (n (g f)) (at_fence w)"
  shows "keeps (at_fence w) (bnd (gets g) n) (at_fence w)"
  using assms by (auto simp: triple_def bnd_def gets_def split: prod.splits sum.splits)

lemma keeps_lift:
  "keeps (at_fence w) m (at_fence w) \<Longrightarrow> keeps (at_fence w) (bnd (lift_res r) (\<lambda>_. m)) (at_fence w)"
  by (cases r) (auto simp: bnd_ret bnd_throw intro: triple_throw)

lemma keeps_require:
  "(b \<Longrightarrow> keeps (at_fence w) m (at_fence w)) \<Longrightarrow> keeps (at_fence w) (bnd (require_that b e) (\<lambda>_. m)) (at_fence w)"
  by (cases b) (auto intro: triple_throw)

lemma decide_keeps:
  assumes k: "k \<in> set (fc_candidates (fst w))" and s: "provider_ok (fst w) s"
  shows "keeps (at_fence w) (decide (fst w) i k s code t) (at_fence w)"
proof -
  have retry: "provider_ok (fst w) (s\<lparr>ps_retryCount := ps_retryCount s + 1\<rparr>)" if "ps_retryCount s < fc_maxRetries (fst w)"
    using s that by (simp add: provider_ok_def)
  have cool: "provider_ok (fst w) (s\<lparr>ps_cooldownUntilMs := n\<rparr>)" for n
    using s by (simp add: provider_ok_def)
  have set1: "keeps (at_fence w) (bnd (set_provider k s') (\<lambda>_. m)) (at_fence w)"
    if "provider_ok (fst w) s'" "keeps (at_fence w) m (at_fence w)" for s' m
    using that k by (intro triple_bnd [OF triple_pre [OF set_provider_keeps [of w]]]) auto
  show ?thesis
    unfolding decide_def
    by (intro triple_if remember_keeps keeps_gets set1 cool triple_bnd [OF planSwitch_keeps] retry) simp_all
qed

lemma onFailure_keeps: "keeps (at_fence w) (onFailure i failure t) (at_fence w)"
proof -
  have "keeps (at_fence w) (bnd (provider k) (\<lambda>s0. bnd (set_provider k (count_failure (fst w) t s0)) (\<lambda>_.
      decide (fst w) i k (count_failure (fst w) t s0) code t))) (at_fence w)" for k code
  proof (rule triple_bnd [OF provider_gives])
    fix s0
    show "keeps (\<lambda>f. at_fence w f \<and> map_of (fo_providers f) k = Some s0 \<and> provider_ok (fst w) s0 \<and>
        k \<in> set (fc_candidates (fst w)))
      (bnd (set_provider k (count_failure (fst w) t s0)) (\<lambda>_. decide (fst w) i k (count_failure (fst w) t s0) code t)) (at_fence w)"
    proof (cases "provider_ok (fst w) s0 \<and> k \<in> set (fc_candidates (fst w))")
      case True
      then show ?thesis
        by (intro triple_bnd [OF triple_pre [OF set_provider_keeps [of w]]]) (auto intro: decide_keeps count_failure_ok)
    next
      case False
      then show ?thesis by (auto simp: triple_def)
    qed
  qed
  then show ?thesis
    unfolding onFailure_def Let_def
    by (intro keeps_lift unless_processed_keeps keeps_gets triple_if remember_keeps) (simp add: at_fenceD)
qed

lemma onRecoveryFailed_keeps: "keeps (at_fence w) (onRecoveryFailed i reason) (at_fence w)"
  unfolding onRecoveryFailed_def Let_def
  by (intro keeps_lift unless_processed_keeps keeps_gets remember_keeps)

lemma plan_step_keeps:
  assumes "k \<noteq> fst (snd w)" "k \<in> set (fc_candidates (fst w))"
  shows "keeps (at_fence w) (bnd (plan_to i k r) (remember i)) (at_fence w)"
  using assms by (intro triple_bnd [OF triple_pre [OF plan_to_keeps [of w]]] remember_keeps) (auto dest: at_fenceD)

lemma manualSwitch_keeps: "keeps (at_fence w) (manualSwitch i k) (at_fence w)"
  unfolding manualSwitch_def
  by (intro keeps_lift unless_processed_keeps keeps_gets triple_if remember_keeps keeps_require plan_step_keeps)
     (simp_all add: at_fenceD)

lemma available_keeps: "keeps (at_fence w) (available k t) (at_fence w)"
  unfolding triple_def using available_reads by (metis (no_types, lifting) case_prod_beta' old.sum.exhaust old.sum.simps(5,6))

lemma stageBoundary_keeps: "keeps (at_fence w) (stageBoundary i t) (at_fence w)"
proof -
  have first: "hd (fc_candidates (fst w)) \<in> set (fc_candidates (fst w))" if "at_fence w f" for f
    using that validateConfigD(1) [of "fst w"] by (auto simp: at_fence_def fence_def failover_ok_def)
  show ?thesis
    unfolding stageBoundary_def
  proof (intro keeps_lift unless_processed_keeps keeps_gets)
    fix f f' assume f: "at_fence w f" "at_fence w f'"
    define p where "p = hd (fc_candidates (fo_config f))"
    define stay where "stay = (\<not> fc_returnToPrimaryAfterStage (fo_config f') \<or> fo_current f' = p)"
    have "keeps (at_fence w) (if stay then ret False else available p t) (at_fence w)"
      by (intro triple_if triple_ret available_keeps)
    then have "triple (at_fence w) (if stay then ret False else available p t) (\<lambda>ok f. at_fence w f \<and> (ok \<longrightarrow> \<not> stay)) (at_fence w)"
      by (auto simp: triple_def ret_def split: prod.splits sum.splits)
    then show "keeps (at_fence w) (bnd (if stay then ret False else available p t) (\<lambda>ok.
        if \<not> ok then remember i (NoAction ''return-to-primary not required or primary unavailable'')
        else bnd (plan_to i p ReturnToPrimary) (remember i))) (at_fence w)"
    proof (rule triple_bnd)
      fix ok
      show "keeps (\<lambda>f. at_fence w f \<and> (ok \<longrightarrow> \<not> stay)) (if \<not> ok then remember i (NoAction ''return-to-primary not required or primary unavailable'')
        else bnd (plan_to i p ReturnToPrimary) (remember i)) (at_fence w)"
      proof (cases "ok \<longrightarrow> \<not> stay")
        case True
        have "ok \<Longrightarrow> p \<noteq> fst (snd w)" using True f by (auto simp: stay_def dest: at_fenceD)
        moreover have "p \<in> set (fc_candidates (fst w))" using f first by (auto simp: p_def dest: at_fenceD)
        ultimately show ?thesis
          by (intro triple_if triple_pre [OF remember_keeps] triple_pre [OF plan_step_keeps]) auto
      qed (auto simp: triple_def)
    qed
  qed
qed

lemma recordSuccess_keeps: "keeps (at_fence w) (recordSuccess k) (at_fence w)"
  unfolding recordSuccess_def
proof (rule triple_bnd [OF provider_gives])
  have "0 \<le> fc_maxRetries (fst w)" if "at_fence w f" for f
    using that validateConfigD(3) [of "fst w"] by (auto simp: at_fence_def fence_def failover_ok_def)
  then show "keeps (\<lambda>f. at_fence w f \<and> map_of (fo_providers f) k = Some s \<and> provider_ok (fst w) s \<and> k \<in> set (fc_candidates (fst w)))
      (set_provider k (s\<lparr>ps_retryCount := 0, ps_consecutiveFailures := 0, ps_circuitOpenUntilMs := 0\<rparr>)) (at_fence w)" for s
    by (intro triple_pre [OF set_provider_keeps [of w]]) (auto simp: provider_ok_def)
qed

lemma abortSwitch_keeps: "keeps (at_fence w) (abortSwitch i) (at_fence w)"
  by (auto simp: triple_def abortSwitch_def eff_defs guard_res_def at_fence_def failover_ok_def providers_ok_def
      memory_ok_def pending_ok_def fence_def split: option.splits)

section \<open>Runs of a controller\<close>

datatype failover_op =
    OnFailure string executor_failure int
  | OnRecoveryFailed string failure_code
  | ManualSwitchTo string string
  | StageBoundary string int
  | CommitVerified string int
  | AbortPending string
  | RecordSuccess string

fun failover_step :: "failover_op \<Rightarrow> failover \<Rightarrow> failover" where
  "failover_step (OnFailure i failure t) f = snd (onFailure i failure t f)"
| "failover_step (OnRecoveryFailed i code) f = snd (onRecoveryFailed i code f)"
| "failover_step (ManualSwitchTo i k) f = snd (manualSwitch i k f)"
| "failover_step (StageBoundary i t) f = snd (stageBoundary i t f)"
| "failover_step (CommitVerified i g) f = snd (commitVerifiedSwitch i g f)"
| "failover_step (AbortPending i) f = snd (abortSwitch i f)"
| "failover_step (RecordSuccess k) f = snd (recordSuccess k f)"

inductive failover_reachable :: "failover_config \<Rightarrow> failover \<Rightarrow> bool" for c where
  created: "new_failover c k g = Inr f \<Longrightarrow> failover_reachable c f"
| stepped: "failover_reachable c f \<Longrightarrow> failover_reachable c (failover_step op f)"

lemma reachable_fold: "failover_reachable c f \<Longrightarrow> failover_reachable c (fold failover_step ops f)"
  by (induction ops arbitrary: f) (auto intro: stepped)

definition committed :: "failover \<Rightarrow> switch_action \<Rightarrow> failover" where
  "committed f a = f\<lparr>fo_current := sw_to a, fo_generation := sw_generation a, fo_pending := None\<rparr>"

lemma committed_ok:
  assumes "failover_ok f" "fo_pending f = Some (i, a)"
  shows "at_fence (fo_config f, sw_to a, fo_generation f + 1) (committed f a)"
  using assms by (auto simp: failover_ok_def pending_ok_def switch_ok_def committed_def providers_ok_def memory_ok_def
      at_fence_def fence_def)

lemma commit_cases:
  obtains (committed) a where "fo_pending f = Some (i, a)" "g = sw_generation a"
      "snd (commitVerifiedSwitch i g f) = snd (recordSuccess (sw_to a) (committed f a))"
    | (refused) e where "commitVerifiedSwitch i g f = (Inl e, f)"
proof (cases "\<exists>a. fo_pending f = Some (i, a) \<and> g = sw_generation a")
  case True
  then obtain a where a: "fo_pending f = Some (i, a)" "g = sw_generation a" by blast
  then have "snd (commitVerifiedSwitch i g f) = snd (recordSuccess (sw_to a) (committed f a))"
    by (simp add: commitVerifiedSwitch_def committed_def bnd_run gets_def modify_def)
  with a show ?thesis by (rule that(1))
next
  case False
  then have "\<exists>e. commitVerifiedSwitch i g f = (Inl e, f)"
    by (auto simp: commitVerifiedSwitch_def bnd_run gets_def throw_def split: option.splits)
  with that(2) show ?thesis by blast
qed

lemma stays_at_fence:
  assumes "failover_ok f" "keeps (at_fence (fence f)) m (at_fence (fence f))"
  shows "at_fence (fence f) (snd (m f))"
  using assms(1) by (intro tripleD_state [OF assms(2)]) (simp add: at_fence_def)

lemma step_fence:
  assumes ok: "failover_ok f"
  shows "at_fence (fence f) (failover_step op f) \<or>
    (\<exists>i a. op = CommitVerified i (fo_generation f + 1) \<and> fo_pending f = Some (i, a) \<and> switch_ok f a \<and>
      at_fence (fo_config f, sw_to a, fo_generation f + 1) (failover_step op f))"
proof -
  have f: "at_fence (fence f) f" using ok by (simp add: at_fence_def)
  note stay = stays_at_fence [OF ok]
  show ?thesis
  proof (cases op)
    case (CommitVerified i g)
    show ?thesis
    proof (cases rule: commit_cases [of f i g])
      case (committed a)
      then have "at_fence (fo_config f, sw_to a, fo_generation f + 1) (failover_step op f)"
        using tripleD_state [OF recordSuccess_keeps committed_ok [OF ok committed(1)]] CommitVerified by simp
      moreover have "switch_ok f a" using ok committed(1) by (simp add: failover_ok_def pending_ok_def)
      ultimately show ?thesis using committed CommitVerified by (simp add: switch_ok_def)
    next
      case (refused e)
      then show ?thesis using f CommitVerified by simp
    qed
  qed (simp_all add: stay onFailure_keeps onRecoveryFailed_keeps manualSwitch_keeps stageBoundary_keeps
      recordSuccess_keeps abortSwitch_keeps)
qed

lemma reachable_ok: "failover_reachable c f \<Longrightarrow> failover_ok f \<and> fo_config f = c"
proof (induction rule: failover_reachable.induct)
  case (created k g f)
  then show ?case using new_failover_ok by (auto simp: new_failover_def split: sum.splits if_splits)
next
  case (stepped f op)
  then show ?case using step_fence [of f op] by (auto simp: at_fence_def fence_def)
qed

section \<open>One decision per event\<close>

text \<open>
  A handler that remembers what it decided for an event: asked again about the event, with whatever else
  it is told, it answers the same and changes nothing.
\<close>

locale once_per_event =
  fixes handle :: "string \<Rightarrow> 'm \<Rightarrow> ('s, 'a) eff"
    and decided :: "'s \<Rightarrow> string \<Rightarrow> 'a option"
    and admissible :: "string \<Rightarrow> 'm \<Rightarrow> bool"
    and remembers :: "'s \<Rightarrow> bool"
  assumes cached: "admissible i m \<Longrightarrow> decided s i = Some a \<Longrightarrow> handle i m s = (Inr a, s)"
    and records: "remembers s \<Longrightarrow> handle i m s = (Inr a, t) \<Longrightarrow> admissible i m \<and> decided t i = Some a"
begin

lemma again:
  assumes "remembers s" "handle i m s = (Inr a, t)" "admissible i m'"
  shows "handle i m' t = (Inr a, t)"
  using assms by (intro cached) (auto dest: records)

lemma repeat: "remembers s \<Longrightarrow> handle i m s = (Inr a, t) \<Longrightarrow> handle i m t = (Inr a, t)"
  using again records by blast

end

definition decision :: "failover \<Rightarrow> string \<Rightarrow> failover_action option" where
  "decision f i = map_of (fo_processed f) i"

definition has_memory :: "failover \<Rightarrow> bool" where
  "has_memory f \<longleftrightarrow> processed_limit (fo_config f) \<noteq> 0"

definition records_at :: "string \<Rightarrow> failover_action failover_eff \<Rightarrow> bool" where
  "records_at i m \<longleftrightarrow> triple has_memory m (\<lambda>a f. has_memory f \<and> decision f i = Some a) (\<lambda>_. True)"

lemma keep_newest_last: "n \<noteq> 0 \<Longrightarrow> keep_newest n (xs @ [x]) = drop (length xs + 1 - n) xs @ [x]"
  by (simp add: keep_newest_def)

lemma map_of_keep_newest_last:
  assumes "n \<noteq> 0" "map_of xs i = None"
  shows "map_of (keep_newest n (xs @ [(i, a)])) i = Some a"
proof -
  have "fst ` set (drop (length xs + 1 - n) xs) \<subseteq> fst ` set xs" by (intro image_mono set_drop_subset)
  with assms(2) have "map_of (drop (length xs + 1 - n) xs) i = None" by (auto simp: map_of_eq_None_iff)
  with assms(1) show ?thesis by (simp add: keep_newest_last map_add_def)
qed

lemma remember_records: "records_at i (remember i a)"
  by (auto simp: records_at_def triple_def remember_def has_memory_def decision_def map_of_keep_newest_last split: option.splits)

lemma records_bnd:
  assumes "triple has_memory m (\<lambda>_. has_memory) (\<lambda>_. True)" "\<And>x. records_at i (n x)"
  shows "records_at i (bnd m n)"
  using assms unfolding records_at_def by (rule triple_bnd)

lemma unless_processed_records: "records_at i m \<Longrightarrow> records_at i (unless_processed i m)"
  by (auto simp: records_at_def triple_def unless_processed_def bnd_run gets_def ret_def decision_def split: option.splits)

lemma memory_effects:
  "triple has_memory (gets g) (\<lambda>_. has_memory) (\<lambda>_. True)"
  "triple has_memory (lift_res r) (\<lambda>_. has_memory) (\<lambda>_. True)"
  "triple has_memory (require_that b e) (\<lambda>_. has_memory) (\<lambda>_. True)"
  "triple has_memory (provider k) (\<lambda>_. has_memory) (\<lambda>_. True)"
  "triple has_memory (set_provider k s) (\<lambda>_. has_memory) (\<lambda>_. True)"
  "triple has_memory (plan_to i k c) (\<lambda>_. has_memory) (\<lambda>_. True)"
  by (auto simp: triple_def eff_defs provider_def set_provider_def plan_to_def has_memory_def Let_def guard_res_def
      split: sum.splits option.splits)

lemma available_memory: "triple has_memory (available k t) (\<lambda>_. has_memory) (\<lambda>_. True)"
  by (auto simp: triple_def split: prod.splits sum.splits dest: arg_cong [of _ _ snd] simp: available_reads)

lemma planSwitch_memory: "triple has_memory (planSwitch i code t) (\<lambda>_. has_memory) (\<lambda>_. True)"
proof -
  have "triple has_memory (nextAvailable t) (\<lambda>_. has_memory) (\<lambda>_. True)"
    using first_available_reads by (auto simp: triple_def nextAvailable_run split: prod.splits sum.splits dest!: arg_cong [of _ _ snd])
  then show ?thesis
    unfolding planSwitch_def by (rule triple_bnd) (auto intro: triple_ret memory_effects split: option.splits)
qed

lemmas recording = records_bnd [OF memory_effects(1)] records_bnd [OF memory_effects(2)] records_bnd [OF memory_effects(3)]
  records_bnd [OF memory_effects(4)] records_bnd [OF memory_effects(5)] records_bnd [OF memory_effects(6)]
  records_bnd [OF planSwitch_memory] records_bnd [OF available_memory] unless_processed_records remember_records

lemma records_if: "records_at i m \<Longrightarrow> records_at i n \<Longrightarrow> records_at i (if b then m else n)"
  by simp

lemma handlers_record:
  "records_at i (onFailure i failure t)"
  "records_at i (manualSwitch i k)"
  "records_at i (stageBoundary i t)"
proof -
  show "records_at i (onFailure i failure t)"
    unfolding onFailure_def decide_def Let_def by (intro recording records_if)
  show "records_at i (manualSwitch i k)"
    unfolding manualSwitch_def by (intro recording records_if)
  have stay: "records_at i (bnd (if stay then ret False else available p t) n)" if "\<And>x. records_at i (n x)" for stay p n
    using that by (cases stay) (auto intro: recording)
  show "records_at i (stageBoundary i t)"
    unfolding stageBoundary_def by (intro recording records_if stay)
qed

interpretation failure_events: once_per_event "\<lambda>i (failure, t). onFailure i failure t" decision
  "\<lambda>i (failure, t). trim i \<noteq> [] \<and> natural_safe t" has_memory
proof
  fix i m and s t :: failover and a
  show "(case m of (failure, t) \<Rightarrow> trim i \<noteq> [] \<and> natural_safe t) \<Longrightarrow> decision s i = Some a \<Longrightarrow>
      (case m of (failure, t) \<Rightarrow> onFailure i failure t) s = (Inr a, s)"
    by (cases m) (simp add: onFailure_def assertEventId_def assertTime_def unless_processed_def decision_def bnd_run gets_def ret_def)
  assume "has_memory s" "(case m of (failure, t) \<Rightarrow> onFailure i failure t) s = (Inr a, t)"
  then show "(case m of (failure, t) \<Rightarrow> trim i \<noteq> [] \<and> natural_safe t) \<and> decision t i = Some a"
    using handlers_record(1) [unfolded records_at_def, THEN tripleD_ok]
    by (cases m) (fastforce simp: onFailure_def assertEventId_def assertTime_def bnd_run lift_res_def guard_res_def split: if_splits)
qed

interpretation manual_events: once_per_event manualSwitch decision "\<lambda>i _. trim i \<noteq> []" has_memory
proof
  fix i m and s t :: failover and a
  show "trim i \<noteq> [] \<Longrightarrow> decision s i = Some a \<Longrightarrow> manualSwitch i m s = (Inr a, s)"
    by (simp add: manualSwitch_def assertEventId_def unless_processed_def decision_def bnd_run gets_def ret_def)
  assume "has_memory s" "manualSwitch i m s = (Inr a, t)"
  then show "trim i \<noteq> [] \<and> decision t i = Some a"
    using handlers_record(2) [unfolded records_at_def, THEN tripleD_ok]
    by (fastforce simp: manualSwitch_def assertEventId_def bnd_run lift_res_def guard_res_def split: if_splits)
qed

interpretation stage_events: once_per_event stageBoundary decision "\<lambda>_ t. natural_safe t" has_memory
proof
  fix i m and s t :: failover and a
  show "natural_safe m \<Longrightarrow> decision s i = Some a \<Longrightarrow> stageBoundary i m s = (Inr a, s)"
    by (simp add: stageBoundary_def assertTime_def unless_processed_def decision_def bnd_run gets_def ret_def)
  assume "has_memory s" "stageBoundary i m s = (Inr a, t)"
  then show "natural_safe m \<and> decision t i = Some a"
    using handlers_record(3) [unfolded records_at_def, THEN tripleD_ok]
    by (fastforce simp: stageBoundary_def assertTime_def bnd_run lift_res_def guard_res_def split: if_splits)
qed

section \<open>Switches the controller decides on its own\<close>

definition put_provider :: "string \<Rightarrow> provider_state \<Rightarrow> failover \<Rightarrow> failover" where
  "put_provider k s f = f\<lparr>fo_providers := AList.update k s (fo_providers f)\<rparr>"

lemma set_provider_run [simp]: "set_provider k s f = (Inr (), put_provider k s f)"
  by (simp add: set_provider_def modify_def put_provider_def)

lemma put_provider_simps [simp]:
  "fo_config (put_provider k s f) = fo_config f" "fo_current (put_provider k s f) = fo_current f"
  "fo_generation (put_provider k s f) = fo_generation f" "fo_processed (put_provider k s f) = fo_processed f"
  "fo_pending (put_provider k s f) = fo_pending f" "decision (put_provider k s f) i = decision f i"
  by (simp_all add: put_provider_def decision_def)

lemma available_put_provider [simp]: "k' \<noteq> k \<Longrightarrow> fst (available k' t (put_provider k s f)) = fst (available k' t f)"
  by (simp add: available_def provider_def eff_defs put_provider_def update_conv split: option.splits)

lemma remember_fresh:
  "decision f i = None \<Longrightarrow> remember i a f = (Inr a, snd (remember i a f)) \<and> fo_pending (snd (remember i a f)) = fo_pending f"
  by (simp add: remember_def decision_def)

lemma planSwitch_run:
  assumes "planSwitch i code t g = (Inr (SwitchAction a), h)"
  shows "nextAvailable t g = (Inr (Some (sw_to a)), g) \<and> fo_pending h = Some (i, a) \<and> decision h i = decision g i \<and>
    a = \<lparr>sw_from = fo_current g, sw_to = sw_to a, sw_generation = fo_generation g + 1, sw_reason = FailedWith code\<rparr>"
proof -
  obtain r where r: "nextAvailable t g = (r, g)"
    using first_available_reads [of t _ g] by (metis nextAvailable_run prod.collapse)
  with assms show ?thesis
    by (auto simp: planSwitch_def bnd_run ret_def plan_to_def Let_def decision_def split: sum.splits option.splits)
qed

lemma nextAvailable_reads: obtains r where "nextAvailable t g = (r, g)"
  using first_available_reads [of t _ g] by (metis nextAvailable_run prod.collapse)

lemma planSwitch_memo: "decision (snd (planSwitch i code t g)) j = decision g j"
proof -
  obtain r where "nextAvailable t g = (r, g)" by (rule nextAvailable_reads)
  then show ?thesis
    by (simp add: planSwitch_def bnd_run ret_def plan_to_def Let_def decision_def split: sum.splits option.splits)
qed

lemma decide_switch:
  assumes "decide c i k s code t g = (Inr (SwitchAction a), g')" "decision g i = None"
  obtains s' h where "planSwitch i code t (put_provider k s' g) = (Inr (SwitchAction a), h)" "fo_pending g' = fo_pending h"
proof -
  define s' where "s' = s\<lparr>ps_cooldownUntilMs := max (ps_cooldownUntilMs s) (t + fc_providerCooldownMs c)\<rparr>"
  have never: "remember i x g \<noteq> (Inr (SwitchAction a), g')" if "x \<noteq> SwitchAction a" for x
    using that remember_fresh [OF assms(2), of x] by auto
  have "remember i x (put_provider k s1 g) \<noteq> (Inr (SwitchAction a), g')" if "x \<noteq> SwitchAction a" for x s1
    using that remember_fresh [of "put_provider k s1 g" i x] assms(2) by auto
  with assms never have run: "bnd (planSwitch i code t) (remember i) (put_provider k s' g) = (Inr (SwitchAction a), g')"
    by (auto simp: decide_def bnd_run gets_def s'_def split: if_splits)
  then obtain x h where h: "planSwitch i code t (put_provider k s' g) = (Inr x, h)" "remember i x h = (Inr (SwitchAction a), g')"
    by (rule bnd_Inr_E)
  have "decision h i = None" using planSwitch_memo [of i code t "put_provider k s' g"] h(1) assms(2) by simp
  with h have "x = SwitchAction a" "fo_pending g' = fo_pending h"
    using remember_fresh [of h i x] by auto
  with h(1) that show ?thesis by blast
qed

lemma onFailure_switch:
  assumes "onFailure i failure t f = (Inr (SwitchAction a), f')" "decision f i = None"
  obtains s h where "fo_pending f = None" "planSwitch i (xf_code failure) t (put_provider (fo_current f) s f) = (Inr (SwitchAction a), h)"
    "fo_pending f' = fo_pending h"
proof -
  have "remember i (NoAction why) f \<noteq> (Inr (SwitchAction a), f')" for why
    using remember_fresh [OF assms(2), of "NoAction why"] by auto
  then have "fo_pending f = None \<and> (\<exists>s. decide (fo_config f) i (fo_current f) s (xf_code failure) t (put_provider (fo_current f) s f) =
      (Inr (SwitchAction a), f'))"
    using assms
    by (cases "fo_pending f") (auto simp: onFailure_def Let_def bnd_run lift_res_def unless_processed_def gets_def ret_def decision_def [symmetric]
        provider_def throw_def split: if_splits option.splits sum.splits)
  then obtain s where s: "fo_pending f = None"
    "decide (fo_config f) i (fo_current f) s (xf_code failure) t (put_provider (fo_current f) s f) = (Inr (SwitchAction a), f')" by blast
  from decide_switch [OF s(2)] assms(2) obtain s' h where
    "planSwitch i (xf_code failure) t (put_provider (fo_current f) s' (put_provider (fo_current f) s f)) = (Inr (SwitchAction a), h)"
    "fo_pending f' = fo_pending h" by auto
  moreover have "put_provider k s' (put_provider k s f) = put_provider k s' f" for k
    by (simp add: put_provider_def)
  ultimately show ?thesis using that s(1) by metis
qed

section \<open>Saving and restoring\<close>

lemma update_middle: "k \<notin> fst ` set us \<Longrightarrow> AList.update k v (us @ (k, v') # ws) = us @ (k, v) # ws"
  by (induction us) auto

lemma restore_providers_run:
  assumes "distinct (map fst (us @ vs))" "fo_providers g = us @ map (\<lambda>k. (k, emptyProviderState)) (map fst vs)"
  shows "restore_providers (us @ vs) (map fst vs) g = (Inr (), g\<lparr>fo_providers := us @ vs\<rparr>)"
  using assms
proof (induction vs arbitrary: us g)
  case Nil
  then show ?case by (simp add: ret_def)
next
  case (Cons v vs)
  obtain k s where v: "v = (k, s)" by (cases v)
  with Cons.prems have new: "k \<notin> fst ` set us" by auto
  then have "map_of us k = None" by (simp add: map_of_eq_None_iff)
  then have get: "map_of (us @ v # vs) k = Some s"
    using v by (simp add: map_add_def)
  have "fo_providers (put_provider k s g) = (us @ [v]) @ map (\<lambda>k. (k, emptyProviderState)) (map fst vs)"
    using Cons.prems(2) new v by (simp add: put_provider_def update_middle)
  with Cons.IH [of "us @ [v]" "put_provider k s g"] Cons.prems(1)
  have "restore_providers (us @ v # vs) (map fst vs) (put_provider k s g) = (Inr (), g\<lparr>fo_providers := us @ v # vs\<rparr>)"
    by (simp add: put_provider_def)
  with get v show ?case by (simp add: bnd_run)
qed

lemma restore_processed_run:
  assumes "distinct (map fst (us @ vs))" "length (us @ vs) \<le> processed_limit (fo_config g)" "fo_processed g = us"
  shows "restore_processed vs g = (Inr (), g\<lparr>fo_processed := us @ vs\<rparr>)"
  using assms
proof (induction vs arbitrary: us g)
  case Nil
  then show ?case by (simp add: ret_def)
next
  case (Cons v vs)
  obtain i a where v: "v = (i, a)" by (cases v)
  have "i \<notin> fst ` set us" using Cons.prems(1) v by auto
  then have "map_of us i = None" by (simp add: map_of_eq_None_iff)
  then have "remember i a g = (Inr a, g\<lparr>fo_processed := us @ [v]\<rparr>)"
    using Cons.prems v by (simp add: remember_def)
  with Cons.IH [of "us @ [v]" "g\<lparr>fo_processed := us @ [v]\<rparr>"] Cons.prems v show ?case by (simp add: bnd_run)
qed

lemma restore_snapshot:
  assumes "failover_ok f" "safe_integer (fo_generation f)"
  shows "restore (fo_config f) (failover_snapshot_of f) = Inr f"
proof -
  let ?c = "fo_config f"
  define f0 where "f0 = f\<lparr>fo_providers := map (\<lambda>k. (k, emptyProviderState)) (fc_candidates ?c), fo_processed := [], fo_pending := None\<rparr>"
  from assms have new: "new_failover ?c (fo_current f) (fo_generation f) = Inr f0"
    by (auto simp: new_failover_def failover_ok_def f0_def)
  have keys: "map fst (fo_providers f) = fc_candidates ?c" "distinct (fc_candidates ?c)"
    using assms(1) validateConfigD(2) by (auto simp: failover_ok_def providers_ok_def)
  with restore_providers_run [of "[]" "fo_providers f" f0]
  have p: "restore_providers (fo_providers f) (fc_candidates ?c) f0 = (Inr (), f0\<lparr>fo_providers := fo_providers f\<rparr>)"
    by (simp add: f0_def)
  have q: "restore_processed (fo_processed f) (f0\<lparr>fo_providers := fo_providers f\<rparr>) =
      (Inr (), f0\<lparr>fo_providers := fo_providers f, fo_processed := fo_processed f\<rparr>)"
    using restore_processed_run [of "[]" "fo_processed f" "f0\<lparr>fo_providers := fo_providers f\<rparr>"] assms(1)
    by (simp add: f0_def failover_ok_def memory_ok_def)
  show ?thesis using new p q by (simp add: restore_def failover_snapshot_of_def bnd_run modify_def f0_def)
qed

end
