(* ===== verification/FailoverCorrectness.thy ===== *)
theory FailoverCorrectness
  imports FailoverSafety
begin

text \<open>The properties of the failover controller, each with the run that shows it is not empty.\<close>

section \<open>A controller with three executors\<close>

definition demo_config :: failover_config where
  "demo_config = \<lparr>fc_candidates = [''codex'', ''claude'', ''gemini''], fc_automaticFailover = True, fc_maxRetries = 1,
     fc_providerCooldownMs = 1000, fc_circuitFailureThreshold = 3, fc_circuitOpenMs = 5000, fc_switchOnAuthRequired = False,
     fc_returnToPrimaryAfterStage = True, fc_maxProcessedEvents = None\<rparr>"

definition demo_start :: failover where
  "demo_start = \<lparr>fo_config = demo_config, fo_current = ''codex'', fo_generation = 1,
     fo_providers = map (\<lambda>k. (k, emptyProviderState)) (fc_candidates demo_config), fo_processed = [], fo_pending = None\<rparr>"

definition demo_failure :: "failure_code \<Rightarrow> executor_failure" where
  "demo_failure code = \<lparr>xf_code = code, xf_message = ''failed'', xf_source = ''executor-core''\<rparr>"

definition demo_run :: "failover_op list \<Rightarrow> failover" where
  "demo_run ops = fold failover_step ops demo_start"

lemma demo_created: "new_failover demo_config ''codex'' 1 = Inr demo_start"
  by code_simp

lemma controller_reachable: "failover_reachable demo_config (demo_run ops)"
  unfolding demo_run_def by (intro reachable_fold created [OF demo_created])

section \<open>Invariant and generation\<close>

text \<open>C30: Whatever happens to a failover controller, the current executor is a candidate, every candidate has its
  own provider state with a retry count between zero and \<open>maxRetries\<close>, the remembered decisions have distinct
  events and stay within the limit, and a pending switch leads from the current executor to another candidate
  under the next generation.\<close>

theorem failover_invariant:
  assumes "failover_reachable c f"
  shows "failover_ok f \<and> fo_config f = c"
  using assms by (rule reachable_ok)

lemma failover_invariant_witness:
  "failover_ok (demo_run [OnFailure ''e1'' (demo_failure QuotaExhausted) 5, CommitVerified ''e1'' 2]) \<and>
   fo_current (demo_run [OnFailure ''e1'' (demo_failure QuotaExhausted) 5, CommitVerified ''e1'' 2]) = ''claude''"
proof -
  have "fo_current (demo_run [OnFailure ''e1'' (demo_failure QuotaExhausted) 5, CommitVerified ''e1'' 2]) = ''claude''"
    by code_simp
  with failover_invariant [OF controller_reachable] show ?thesis by blast
qed

text \<open>C29: The executor in charge and its generation only change when the pending switch is committed with the
  generation it announced: then the generation grows by exactly one and another candidate takes over. Every
  other operation, and a commit that does not match, leaves both as they were.\<close>

theorem failover_fence:
  assumes "failover_reachable c f"
  shows "fence (failover_step op f) = fence f \<or>
    (\<exists>i a. op = CommitVerified i (fo_generation f + 1) \<and> fo_pending f = Some (i, a) \<and>
       fence (failover_step op f) = (fo_config f, sw_to a, fo_generation f + 1) \<and>
       sw_to a \<noteq> fo_current f \<and> sw_to a \<in> set (fc_candidates c))"
  using step_fence [of f op] reachable_ok [OF assms] by (auto simp: at_fence_def switch_ok_def)

lemma failover_fence_witness:
  "let f = demo_run [OnFailure ''e1'' (demo_failure QuotaExhausted) 5]; op = CommitVerified ''e1'' 2 in
     (fence (failover_step op f) = fence f \<or>
      (\<exists>i a. op = CommitVerified i (fo_generation f + 1) \<and> fo_pending f = Some (i, a) \<and>
       fence (failover_step op f) = (fo_config f, sw_to a, fo_generation f + 1) \<and>
       sw_to a \<noteq> fo_current f \<and> sw_to a \<in> set (fc_candidates demo_config))) \<and>
     fence (failover_step op f) = (demo_config, ''claude'', 2)"
proof -
  have "fence (failover_step (CommitVerified ''e1'' 2) (demo_run [OnFailure ''e1'' (demo_failure QuotaExhausted) 5])) =
      (demo_config, ''claude'', 2)" by code_simp
  with failover_fence [OF controller_reachable, of "CommitVerified ''e1'' 2" "[OnFailure ''e1'' (demo_failure QuotaExhausted) 5]"]
  show ?thesis unfolding Let_def by blast
qed

section \<open>Decisions\<close>

text \<open>A decision about an event is final: once any of the three handlers has answered an event, every one of
  them gives the same answer to that event, whatever else it is told, and changes nothing.\<close>

theorem decision_is_final:
  assumes "has_memory f" "trim i \<noteq> []" "natural_safe t'"
    and "onFailure i failure t f = (Inr a, f') \<or> manualSwitch i k f = (Inr a, f') \<or> stageBoundary i t f = (Inr a, f')"
  shows "onFailure i failure' t' f' = (Inr a, f') \<and> manualSwitch i k' f' = (Inr a, f') \<and> stageBoundary i t' f' = (Inr a, f')"
proof (intro conjI)
  have d: "decision f' i = Some a"
    using assms(1,4) failure_events.records [of f i "(failure, t)" a f'] manual_events.records [of f i k a f']
      stage_events.records [of f i t a f'] by auto
  show "onFailure i failure' t' f' = (Inr a, f')"
    using failure_events.cached [of i "(failure', t')" f' a] d assms(2,3) by simp
  show "manualSwitch i k' f' = (Inr a, f')" using d assms(2) by (rule manual_events.cached [rotated])
  show "stageBoundary i t' f' = (Inr a, f')" using d assms(3) by (rule stage_events.cached [rotated])
qed

lemma decision_is_final_witness:
  "onFailure ''e1'' (demo_failure UserStopped) 99 (snd (onFailure ''e1'' (demo_failure RateLimited) 5 demo_start)) =
     (Inr (RetryAction ''codex'' 1 1), snd (onFailure ''e1'' (demo_failure RateLimited) 5 demo_start))"
proof (rule decision_is_final [where f = demo_start, THEN conjunct1])
  show "has_memory demo_start" "trim ''e1'' \<noteq> []" "natural_safe 99" by code_simp+
  have "fst (onFailure ''e1'' (demo_failure RateLimited) 5 demo_start) = Inr (RetryAction ''codex'' 1 1)" by code_simp
  then show "onFailure ''e1'' (demo_failure RateLimited) 5 demo_start =
      (Inr (RetryAction ''codex'' 1 1), snd (onFailure ''e1'' (demo_failure RateLimited) 5 demo_start)) \<or>
    manualSwitch ''e1'' [] demo_start = (Inr (RetryAction ''codex'' 1 1), snd (onFailure ''e1'' (demo_failure RateLimited) 5 demo_start)) \<or>
    stageBoundary ''e1'' 5 demo_start = (Inr (RetryAction ''codex'' 1 1), snd (onFailure ''e1'' (demo_failure RateLimited) 5 demo_start))"
    by (metis prod.collapse)
qed

text \<open>A failure whose policy forbids failover (budget, user stop, permission, policy, bad request) never makes
  the controller act: a first report is answered with no action, a repeated one as before, and neither counts
  against the executor, plans a switch or moves the generation.\<close>

theorem forbidden_failure_never_acts:
  assumes "xf_code failure \<in> set FORBIDDEN_FAILOVER_FAILURES" "onFailure i failure t f = (Inr a, f')"
  shows "(decision f i = Some a \<and> f' = f) \<or>
    (decision f i = None \<and> (\<exists>why. a = NoAction why) \<and> fence f' = fence f \<and> fo_providers f' = fo_providers f \<and> fo_pending f' = fo_pending f)"
  using assms
  by (auto simp: onFailure_def Let_def bnd_run lift_res_def assertEventId_def assertTime_def guard_res_def unless_processed_def
      gets_def ret_def remember_def decision_def failurePolicyFor_def fence_def split: if_splits option.splits)

lemma forbidden_failure_never_acts_witness:
  "\<exists>a f'. onFailure ''e9'' (demo_failure BudgetExhausted) 5 demo_start = (Inr a, f') \<and> (\<exists>why. a = NoAction why) \<and>
     fo_providers f' = fo_providers demo_start"
proof -
  define r where "r = onFailure ''e9'' (demo_failure BudgetExhausted) 5 demo_start"
  have "fst r = Inr (NoAction ''automatic failover forbidden for budget_exhausted'')" unfolding r_def by code_simp
  then have r: "onFailure ''e9'' (demo_failure BudgetExhausted) 5 demo_start =
      (Inr (NoAction ''automatic failover forbidden for budget_exhausted''), snd r)"
    unfolding r_def by (metis prod.collapse)
  have "decision demo_start ''e9'' = None" by code_simp
  with forbidden_failure_never_acts [OF _ r] r show ?thesis
    by (auto simp: demo_failure_def FORBIDDEN_FAILOVER_FAILURES_def)
qed

text \<open>A switch the controller decides on its own after a failure is pending under the event, announces the next
  generation, and leads to the first candidate after the current one, going round the list, that is neither
  cooling down nor has its circuit open; every candidate passed over is one of the two.\<close>

theorem automatic_switch_target:
  assumes "failover_ok f" "decision f i = None" "onFailure i failure t f = (Inr (SwitchAction a), f')"
  shows "fo_pending f = None \<and> fo_pending f' = Some (i, a) \<and> switch_ok f a \<and> sw_reason a = FailedWith (xf_code failure) \<and>
    (\<exists>us vs. rotation (fc_candidates (fo_config f)) (fo_current f) = us @ sw_to a # vs \<and>
       fst (available (sw_to a) t f) = Inr True \<and> (\<forall>u \<in> set us. fst (available u t f) = Inr False))"
proof -
  from onFailure_switch [OF assms(3,2)] obtain s h where p: "fo_pending f = None"
    "planSwitch i (xf_code failure) t (put_provider (fo_current f) s f) = (Inr (SwitchAction a), h)" "fo_pending f' = fo_pending h" .
  let ?g = "put_provider (fo_current f) s f"
  have a: "nextAvailable t ?g = (Inr (Some (sw_to a)), ?g)" "fo_pending h = Some (i, a)"
    "a = \<lparr>sw_from = fo_current f, sw_to = sw_to a, sw_generation = fo_generation f + 1, sw_reason = FailedWith (xf_code failure)\<rparr>"
    using planSwitch_run [OF p(2)] by simp_all
  from first_available_Some [OF a(1) [unfolded nextAvailable_run]] obtain us vs where us:
    "rotation (fc_candidates (fo_config f)) (fo_current f) = us @ sw_to a # vs"
    "fst (available (sw_to a) t ?g) = Inr True" "\<forall>u \<in> set us. fst (available u t ?g) = Inr False" by auto
  have other: "u \<noteq> fo_current f \<and> u \<in> set (fc_candidates (fo_config f))" if "u \<in> set (us @ sw_to a # vs)" for u
    using that rotation_others [of "fc_candidates (fo_config f)" "fo_current f" u] us(1) assms(1)
      validateConfigD(2) [of "fo_config f"] by (simp add: failover_ok_def)
  have "switch_ok f a" "sw_reason a = FailedWith (xf_code failure)"
    by (subst a(3), use other [of "sw_to a"] in \<open>simp add: switch_ok_def\<close>, subst a(3), simp)
  moreover have "fst (available (sw_to a) t f) = Inr True" "\<forall>u \<in> set us. fst (available u t f) = Inr False"
    using us(2,3) other by auto
  ultimately show ?thesis using p(1,3) a(2) us(1) by auto
qed

lemma automatic_switch_target_witness:
  "\<exists>a f'. onFailure ''e1'' (demo_failure QuotaExhausted) 5 demo_start = (Inr (SwitchAction a), f') \<and> sw_to a = ''claude'' \<and>
     fo_pending f' = Some (''e1'', a) \<and> switch_ok demo_start a"
proof -
  define a where "a = \<lparr>sw_from = ''codex'', sw_to = ''claude'', sw_generation = 2, sw_reason = FailedWith QuotaExhausted\<rparr>"
  define f' where "f' = snd (onFailure ''e1'' (demo_failure QuotaExhausted) 5 demo_start)"
  have "fst (onFailure ''e1'' (demo_failure QuotaExhausted) 5 demo_start) = Inr (SwitchAction a)"
    unfolding a_def by code_simp
  then have r: "onFailure ''e1'' (demo_failure QuotaExhausted) 5 demo_start = (Inr (SwitchAction a), f')"
    unfolding f'_def by (metis prod.collapse)
  have "failover_ok demo_start" using demo_created by (rule new_failover_ok)
  moreover have "decision demo_start ''e1'' = None" by code_simp
  ultimately show ?thesis using automatic_switch_target [OF _ _ r] r by (auto simp: a_def)
qed

text \<open>C38: Saving a controller and restoring it under the same configuration gives the same controller: providers,
  remembered decisions in their order and the pending switch included.\<close>

theorem failover_restore:
  assumes "failover_reachable c f" "safe_integer (fo_generation f)"
  shows "restore c (failover_snapshot_of f) = Inr f"
  using restore_snapshot [of f] reachable_ok [OF assms(1)] assms(2) by auto

lemma failover_restore_witness:
  "let f = demo_run [OnFailure ''e1'' (demo_failure QuotaExhausted) 5, CommitVerified ''e1'' 2, ManualSwitchTo ''e2'' ''gemini''] in
     restore demo_config (failover_snapshot_of f) = Inr f \<and> fo_pending f \<noteq> None"
proof -
  let ?f = "demo_run [OnFailure ''e1'' (demo_failure QuotaExhausted) 5, CommitVerified ''e1'' 2, ManualSwitchTo ''e2'' ''gemini'']"
  have "safe_integer (fo_generation ?f)" "fo_pending ?f \<noteq> None" by code_simp+
  with failover_restore [OF controller_reachable] show ?thesis unfolding Let_def by blast
qed

text \<open>Dropping the oldest decisions ends exactly when the configured limit is not negative; a negative limit,
  which the configuration check lets through, makes the first remembered decision loop for ever.\<close>

theorem eviction_returns:
  "(\<exists>ys. evict_oldest limit xs = Some ys) \<longleftrightarrow> 0 \<le> limit"
proof
  assume "\<exists>ys. evict_oldest limit xs = Some ys"
  then obtain ys where "evict_oldest limit xs = Some ys" ..
  from evict_oldest_Some [OF this] show "0 \<le> limit" by linarith
next
  assume "0 \<le> limit"
  then obtain n where "limit = int n" using nonneg_int_cases by blast
  with evict_oldest_keep show "\<exists>ys. evict_oldest limit xs = Some ys" by blast
qed

text \<open>A stage boundary does not look at the pending switch: when it returns to the primary executor it replaces
  the switch that another event \<open>j\<close> has pending, and committing that switch afterwards is refused, whatever
  generation its handoff was accepted under.\<close>

theorem stage_boundary_replaces_pending:
  assumes "fo_pending f = Some (j, b)" "i \<noteq> j" "stageBoundary i t f = (Inr (SwitchAction a), f')" "decision f i = None"
  shows "fo_pending f' = Some (i, a) \<and> commitVerifiedSwitch j g f' = (Inl (Error ''no matching pending switch''), f')"
proof -
  have "fo_pending f' = Some (i, a)"
    using assms(3,4) available_reads [of "hd (fc_candidates (fo_config f))" t f]
    by (auto simp: stageBoundary_def bnd_run lift_res_def assertTime_def guard_res_def unless_processed_def gets_def ret_def
        remember_def decision_def plan_to_def Let_def split: if_splits option.splits prod.splits sum.splits)
  with assms(2) show ?thesis by (simp add: commitVerifiedSwitch_def bnd_run gets_def throw_def)
qed

lemma stage_boundary_replaces_pending_witness:
  "\<exists>f f' a. fo_pending f = Some (''e2'', \<lparr>sw_from = ''claude'', sw_to = ''gemini'', sw_generation = 3, sw_reason = ManualSwitch\<rparr>) \<and>
     failover_reachable demo_config f \<and> stageBoundary ''e3'' 9000 f = (Inr (SwitchAction a), f') \<and>
     fst (commitVerifiedSwitch ''e2'' 3 f') = Inl (Error ''no matching pending switch'')"
proof -
  define f where "f = demo_run [OnFailure ''e1'' (demo_failure QuotaExhausted) 5, CommitVerified ''e1'' 2, ManualSwitchTo ''e2'' ''gemini'']"
  define a where "a = \<lparr>sw_from = ''claude'', sw_to = ''codex'', sw_generation = 3, sw_reason = ReturnToPrimary\<rparr>"
  have p: "fo_pending f = Some (''e2'', \<lparr>sw_from = ''claude'', sw_to = ''gemini'', sw_generation = 3, sw_reason = ManualSwitch\<rparr>)"
    unfolding f_def by code_simp
  have "fst (stageBoundary ''e3'' 9000 f) = Inr (SwitchAction a)" unfolding f_def a_def by code_simp
  then obtain f' where s: "stageBoundary ''e3'' 9000 f = (Inr (SwitchAction a), f')" by (metis prod.collapse)
  have "decision f ''e3'' = None" unfolding f_def by code_simp
  then have "fst (commitVerifiedSwitch ''e2'' 3 f') = Inl (Error ''no matching pending switch'')"
    using stage_boundary_replaces_pending [OF p _ s, of 3] by simp
  moreover have "failover_reachable demo_config f" unfolding f_def by (rule controller_reachable)
  ultimately show ?thesis using s p by blast
qed

end
