(* ===== verification/ExecutorManager.thy ===== *)
theory ExecutorManager
  imports ExecutorTypes
begin

text \<open>
  \<open>executor-runtime/executor-manager.ts\<close>, class \<open>Zero3ExecutorManager\<close>: which executor session serves a task
  execution, and what passes between them.

  A binding is an object that running prompts keep a reference to while other operations go on, so bindings
  live in a store, \<open>mg_objects\<close>, and the map \<open>#bindings\<close> gives the place of the object. An operation that
  awaits the executor is two definitions, before and after the await; the executor's answer (a session, or
  what it threw) is an argument of the second. The sequential composition of the two is the operation.
\<close>

section \<open>State\<close>

record binding =
  bd_identity :: task_identity
  bd_policy :: policy_context
  bd_executorId :: string
  bd_session :: executor_session
  bd_pending :: "(string \<times> bool) list"

record binding_snapshot =
  bs_identity :: task_identity
  bs_policy :: policy_context
  bs_executorId :: string
  bs_session :: session_ref

record manager =
  mg_registry :: registry
  mg_bindings :: "(string \<times> nat) list"
  mg_objects :: "binding list"

type_synonym 'a manager_eff = "(manager, 'a) eff"

definition new_manager :: "registry \<Rightarrow> manager" where
  "new_manager r = \<lparr>mg_registry = r, mg_bindings = [], mg_objects = []\<rparr>"

definition bindingKey :: "string \<Rightarrow> string \<Rightarrow> string" where
  "bindingKey taskId executionId = taskId @ [CHR 0x00] @ executionId"

section \<open>Checks\<close>

definition control_ok :: "control_identity \<Rightarrow> bool" where
  "control_ok c \<longleftrightarrow> trim (ci_leaseId c) \<noteq> [] \<and> safe_integer (ci_fencingToken c) \<and> 1 \<le> ci_fencingToken c"

definition assertIdentity :: "task_identity \<Rightarrow> unit res" where
  "assertIdentity i =
     (if trim (ti_taskId i) = [] then Inl (ExecutorManagerError ''taskId must be non-empty'')
      else if trim (ti_executionId i) = [] then Inl (ExecutorManagerError ''executionId must be non-empty'')
      else if trim (ti_workspace i) = [] then Inl (ExecutorManagerError ''workspace must be non-empty'')
      else if trim (ti_objective i) = [] then Inl (ExecutorManagerError ''objective must be non-empty'')
      else guard_res (case ti_control i of None \<Rightarrow> True | Some c \<Rightarrow> control_ok c)
        (ExecutorManagerError ''control identity requires a non-empty lease id and positive fencing token''))"

definition assertGeneration :: "int \<Rightarrow> unit res" where
  "assertGeneration g = guard_res (safe_integer g \<and> 1 \<le> g)
     (ExecutorManagerError ''executor generation must be a positive safe integer'')"

definition assertHandoffCheckpoint :: "checkpoint_ref \<Rightarrow> unit res" where
  "assertHandoffCheckpoint c =
     (if cr_protocol c \<noteq> ZERO3_HANDOFF_PROTOCOL then Inl (ExecutorManagerError ''handoff checkpoint protocol is unsupported'')
      else case assertGeneration (cr_generation c) of Inl e \<Rightarrow> Inl e | Inr _ \<Rightarrow>
        guard_res (trim (cr_checkpointHash c) \<noteq> [] \<and> trim (cr_workspaceFingerprint c) \<noteq> [])
          (ExecutorManagerError ''handoff checkpoint requires hash and workspace fingerprint''))"

definition assertPermissionRequestId :: "string \<Rightarrow> unit res" where
  "assertPermissionRequestId r = guard_res (trim r \<noteq> []) (ExecutorManagerError ''permission request id must be non-empty'')"

definition assertReturnedSession :: "string \<Rightarrow> int \<Rightarrow> executor_session \<Rightarrow> unit res" where
  "assertReturnedSession x g s =
     (if sn_executorId s \<noteq> x then Inl (ExecutorManagerError ''executor returned a session for a different executor id'')
      else if sn_generation s \<noteq> g then Inl (ExecutorManagerError ''executor returned a session with a different generation'')
      else guard_res (trim (sn_sessionId s) \<noteq> []) (ExecutorManagerError ''executor returned an empty session id''))"

section \<open>Bindings\<close>

definition bound :: "string \<Rightarrow> manager \<Rightarrow> nat option" where
  "bound k m = map_of (mg_bindings m) k"

definition object_at :: "nat \<Rightarrow> manager \<Rightarrow> binding" where
  "object_at r m = mg_objects m ! r"

definition requireBinding :: "string \<Rightarrow> string \<Rightarrow> nat manager_eff" where
  "requireBinding t x = bnd (gets (bound (bindingKey t x))) (\<lambda>b. case b of
     None \<Rightarrow> throw (ExecutorManagerError (''no active executor session for task execution: '' @ bindingKey t x))
   | Some r \<Rightarrow> ret r)"

definition registered :: "string \<Rightarrow> descriptor manager_eff" where
  "registered x = bnd (gets mg_registry) (\<lambda>r. lift_res (require_executor r x))"

definition set_binding :: "string \<Rightarrow> binding \<Rightarrow> unit manager_eff" where
  "set_binding k b = modify (\<lambda>m. m\<lparr>mg_bindings := AList.update k (length (mg_objects m)) (mg_bindings m),
     mg_objects := mg_objects m @ [b]\<rparr>)"

definition set_pending :: "nat \<Rightarrow> (string \<times> bool) list \<Rightarrow> unit manager_eff" where
  "set_pending r ps = modify (\<lambda>m. m\<lparr>mg_objects := (mg_objects m)[r := (object_at r m)\<lparr>bd_pending := ps\<rparr>]\<rparr>)"

text \<open>The identity and the policy are copied; values are not shared, so a copy is the value.\<close>

definition snapshotIdentity :: "task_identity \<Rightarrow> task_identity" where
  "snapshotIdentity i = i"

definition active :: "string \<Rightarrow> string \<Rightarrow> manager \<Rightarrow> binding_snapshot option" where
  "active t x m = map_option (\<lambda>r. let b = object_at r m in
     \<lparr>bs_identity = snapshotIdentity (bd_identity b), bs_policy = bd_policy b, bs_executorId = bd_executorId b,
      bs_session = session_ref.truncate (bd_session b)\<rparr>) (bound (bindingKey t x) m)"

section \<open>Starting and resuming\<close>

definition start_begin :: "string \<Rightarrow> task_identity \<Rightarrow> policy_context \<Rightarrow> int \<Rightarrow> checkpoint_ref option \<Rightarrow> start_context manager_eff" where
  "start_begin x i p g handoff =
     bnd (lift_res (assertIdentity i)) (\<lambda>_.
     bnd (lift_res (assertGeneration g)) (\<lambda>_.
     bnd (lift_res (case handoff of None \<Rightarrow> Inr () | Some c \<Rightarrow> assertHandoffCheckpoint c)) (\<lambda>_.
     let k = bindingKey (ti_taskId i) (ti_executionId i) in
     bnd (gets (bound k)) (\<lambda>b.
     bnd (require_that (b = None) (ExecutorManagerError (''task execution already has an active executor session: '' @ k))) (\<lambda>_.
     bnd (registered x) (\<lambda>_.
     ret \<lparr>sc_contract = ZERO3_EXECUTOR_CONTRACT, sc_identity = snapshotIdentity i, sc_policy = p, sc_generation = g,
       sc_handoff = handoff\<rparr>))))))"

definition start_finish :: "string \<Rightarrow> start_context \<Rightarrow> executor_session res \<Rightarrow> executor_session manager_eff" where
  "start_finish x c reply =
     bnd (lift_res reply) (\<lambda>s.
     bnd (lift_res (assertReturnedSession x (sc_generation c) s)) (\<lambda>_.
     bnd (set_binding (bindingKey (ti_taskId (sc_identity c)) (ti_executionId (sc_identity c)))
       \<lparr>bd_identity = sc_identity c, bd_policy = sc_policy c, bd_executorId = x, bd_session = s, bd_pending = []\<rparr>) (\<lambda>_.
     ret s)))"

text \<open>The operations without interleaving: \<open>ask\<close> is what the executor answers to a start context.\<close>

definition startWithContext :: "(start_context \<Rightarrow> executor_session res) \<Rightarrow> string \<Rightarrow> task_identity \<Rightarrow> policy_context \<Rightarrow> int \<Rightarrow>
    checkpoint_ref option \<Rightarrow> executor_session manager_eff" where
  "startWithContext ask x i p g handoff = bnd (start_begin x i p g handoff) (\<lambda>c. start_finish x c (ask c))"

definition manager_start :: "(start_context \<Rightarrow> executor_session res) \<Rightarrow> string \<Rightarrow> task_identity \<Rightarrow> policy_context \<Rightarrow>
    executor_session manager_eff" where
  "manager_start ask x i p = startWithContext ask x i p 1 None"

definition startFromHandoff :: "(start_context \<Rightarrow> executor_session res) \<Rightarrow> string \<Rightarrow> task_identity \<Rightarrow> policy_context \<Rightarrow>
    checkpoint_ref \<Rightarrow> executor_session manager_eff" where
  "startFromHandoff ask x i p c =
     bnd (lift_res (assertHandoffCheckpoint c)) (\<lambda>_.
     let g = cr_generation c + 1 in
     bnd (lift_res (assertGeneration g)) (\<lambda>_. startWithContext ask x i p g (Some c)))"

definition resume_begin :: "string \<Rightarrow> task_identity \<Rightarrow> session_ref \<Rightarrow> checkpoint_ref \<Rightarrow> unit manager_eff" where
  "resume_begin x i ref c =
     bnd (lift_res (assertIdentity i)) (\<lambda>_.
     bnd (lift_res (assertGeneration (sn_generation ref))) (\<lambda>_.
     bnd (lift_res (assertHandoffCheckpoint c)) (\<lambda>_.
     bnd (require_that (cr_generation c = sn_generation ref)
       (ExecutorManagerError ''handoff checkpoint generation must match the session generation'')) (\<lambda>_.
     bnd (require_that (sn_executorId ref = x)
       (ExecutorManagerError ''session reference executor does not match the selected executor'')) (\<lambda>_.
     let k = bindingKey (ti_taskId i) (ti_executionId i) in
     bnd (gets (bound k)) (\<lambda>b.
     bnd (require_that (b = None) (ExecutorManagerError (''task execution already has an active executor session: '' @ k))) (\<lambda>_.
     bnd (registered x) (\<lambda>_. ret ()))))))))"

definition resume_finish :: "string \<Rightarrow> task_identity \<Rightarrow> policy_context \<Rightarrow> session_ref \<Rightarrow> executor_session res \<Rightarrow>
    executor_session manager_eff" where
  "resume_finish x i p ref reply =
     bnd (lift_res reply) (\<lambda>s.
     bnd (lift_res (assertReturnedSession x (sn_generation ref) s)) (\<lambda>_.
     bnd (set_binding (bindingKey (ti_taskId i) (ti_executionId i))
       \<lparr>bd_identity = snapshotIdentity i, bd_policy = p, bd_executorId = x, bd_session = s, bd_pending = []\<rparr>) (\<lambda>_.
     ret s)))"

definition manager_resume :: "(session_ref \<Rightarrow> checkpoint_ref \<Rightarrow> executor_session res) \<Rightarrow> string \<Rightarrow> task_identity \<Rightarrow> policy_context \<Rightarrow>
    session_ref \<Rightarrow> checkpoint_ref \<Rightarrow> executor_session manager_eff" where
  "manager_resume ask x i p ref c = bnd (resume_begin x i ref c) (\<lambda>_. resume_finish x i p ref (ask ref c))"

section \<open>Prompting\<close>

text \<open>What the running generator keeps: the binding it serves and the last sequence number.\<close>

record prompt_cursor =
  pm_binding :: nat
  pm_lastSequence :: int

definition prompt_begin :: "string \<Rightarrow> string \<Rightarrow> prompt_cursor manager_eff" where
  "prompt_begin t x = bnd (requireBinding t x) (\<lambda>r.
     bnd (gets (\<lambda>m. bd_executorId (object_at r m))) (\<lambda>k.
     bnd (registered k) (\<lambda>_. ret \<lparr>pm_binding = r, pm_lastSequence = 0\<rparr>)))"

definition track_event :: "nat \<Rightarrow> executor_event_body \<Rightarrow> unit manager_eff" where
  "track_event r body = (case body of
     PermissionRequested req _ allow \<Rightarrow>
       bnd (lift_res (assertPermissionRequestId req)) (\<lambda>_.
       bnd (gets (\<lambda>m. bd_pending (object_at r m))) (\<lambda>ps.
       bnd (require_that (map_of ps req = None)
         (ExecutorManagerError (''duplicate pending permission request: '' @ req))) (\<lambda>_.
       set_pending r (ps @ [(req, allow = Some True)]))))
   | FailureEvent v \<Rightarrow> (case failure_of_json v of
       None \<Rightarrow> throw (ExecutorManagerError ''executor emitted a failure outside the frozen Zero3 taxonomy'')
     | Some f \<Rightarrow> bnd (gets (\<lambda>m. bd_executorId (object_at r m))) (\<lambda>k.
         require_that (xf_source f = k) (ExecutorManagerError ''executor failure source does not match the bound executor'')))
   | CompletedEvent _ \<Rightarrow> set_pending r []
   | OtherEvent _ _ \<Rightarrow> ret ())"

definition prompt_event :: "prompt_cursor \<Rightarrow> executor_event \<Rightarrow> prompt_cursor manager_eff" where
  "prompt_event c e =
     bnd (require_that (safe_integer (xe_sequence e) \<and> pm_lastSequence c < xe_sequence e)
       (ExecutorManagerError ''executor event sequence must be a strictly increasing positive safe integer'')) (\<lambda>_.
     bnd (track_event (pm_binding c) (xe_body e)) (\<lambda>_.
     ret (c\<lparr>pm_lastSequence := xe_sequence e\<rparr>)))"

text \<open>Consuming the generator without interleaving: the events it yields, and the error that ended it.\<close>

fun prompt_events :: "prompt_cursor \<Rightarrow> executor_event list \<Rightarrow> manager \<Rightarrow> (executor_event list \<times> error option) \<times> manager" where
  "prompt_events c [] m = (([], None), m)"
| "prompt_events c (e # es) m = (case prompt_event c e m of
     (Inl err, m') \<Rightarrow> (([], Some err), m')
   | (Inr c', m') \<Rightarrow> (case prompt_events c' es m' of ((ys, err), m'') \<Rightarrow> ((e # ys, err), m'')))"

section \<open>Permissions, cancelling, closing\<close>

definition respond_begin :: "string \<Rightarrow> string \<Rightarrow> permission_response \<Rightarrow> nat manager_eff" where
  "respond_begin t x resp =
     bnd (lift_res (assertPermissionRequestId (pr_requestId resp))) (\<lambda>_.
     bnd (requireBinding t x) (\<lambda>r.
     bnd (gets (\<lambda>m. map_of (bd_pending (object_at r m)) (pr_requestId resp))) (\<lambda>p. case p of
       None \<Rightarrow> throw (ExecutorManagerError (''permission request is not pending for this task execution: '' @ pr_requestId resp))
     | Some allow \<Rightarrow>
         bnd (require_that (pr_decision resp = ApproveSession \<longrightarrow> allow)
           (ExecutorManagerError ''executor permission request does not allow session-wide approval'')) (\<lambda>_.
         bnd (gets (\<lambda>m. bd_executorId (object_at r m))) (\<lambda>k.
         bnd (registered k) (\<lambda>_. ret r))))))"

definition respond_finish :: "nat \<Rightarrow> permission_response \<Rightarrow> unit res \<Rightarrow> unit manager_eff" where
  "respond_finish r resp reply =
     bnd (lift_res reply) (\<lambda>_.
     bnd (gets (\<lambda>m. bd_pending (object_at r m))) (\<lambda>ps.
     set_pending r (filter (\<lambda>e. fst e \<noteq> pr_requestId resp) ps)))"

definition respondPermission :: "unit res \<Rightarrow> string \<Rightarrow> string \<Rightarrow> permission_response \<Rightarrow> unit manager_eff" where
  "respondPermission reply t x resp = bnd (respond_begin t x resp) (\<lambda>r. respond_finish r resp reply)"

definition cancel :: "unit res \<Rightarrow> string \<Rightarrow> string \<Rightarrow> unit manager_eff" where
  "cancel reply t x = bnd (requireBinding t x) (\<lambda>r.
     bnd (gets (\<lambda>m. bd_executorId (object_at r m))) (\<lambda>k.
     bnd (registered k) (\<lambda>_. lift_res reply)))"

definition close_begin :: "string \<Rightarrow> string \<Rightarrow> nat manager_eff" where
  "close_begin t x = bnd (requireBinding t x) (\<lambda>r.
     bnd (gets (\<lambda>m. bd_executorId (object_at r m))) (\<lambda>k.
     bnd (registered k) (\<lambda>_. ret r)))"

text \<open>The \<open>finally\<close> removes the key whether the executor closed or threw.\<close>

definition close_finish :: "string \<Rightarrow> string \<Rightarrow> unit res \<Rightarrow> unit manager_eff" where
  "close_finish t x reply =
     bnd (modify (\<lambda>m. m\<lparr>mg_bindings := filter (\<lambda>e. fst e \<noteq> bindingKey t x) (mg_bindings m)\<rparr>)) (\<lambda>_. lift_res reply)"

definition manager_close :: "unit res \<Rightarrow> string \<Rightarrow> string \<Rightarrow> unit manager_eff" where
  "manager_close reply t x = bnd (close_begin t x) (\<lambda>_. close_finish t x reply)"

end
