(* ===== verification/ExecutorManagerCorrectness.thy ===== *)
theory ExecutorManagerCorrectness
  imports ExecutorManagerSafety
begin

text \<open>The properties of the executor manager.\<close>

section \<open>A manager with one executor\<close>

definition demo_registry :: registry where
  "demo_registry = [(''codex'', \<lparr>xd_id = ''codex'', xd_kind = NativeCodex, xd_label = ''Codex''\<rparr>)]"

definition demo_identity :: task_identity where
  "demo_identity = \<lparr>ti_taskId = ''t1'', ti_executionId = ''x1'', ti_workspace = ''/w'', ti_repoIdentity = None, ti_branch = None,
     ti_objective = ''fix'', ti_constraints = [], ti_acceptanceCriteria = [], ti_control = None\<rparr>"

definition demo_policy :: policy_context where
  "demo_policy = \<lparr>pc_permissionProfile = StandardProfile, pc_approvalRequired = True\<rparr>"

definition demo_context :: start_context where
  "demo_context = \<lparr>sc_contract = ZERO3_EXECUTOR_CONTRACT, sc_identity = demo_identity, sc_policy = demo_policy,
     sc_generation = 1, sc_handoff = None\<rparr>"

definition demo_session :: "string \<Rightarrow> executor_session" where
  "demo_session s = \<lparr>sn_executorId = ''codex'', sn_sessionId = s, sn_generation = 1, sn_startedAt = ''now''\<rparr>"

definition demo_manager :: manager where
  "demo_manager = snd (start_finish ''codex'' demo_context (Inr (demo_session ''s1'')) (new_manager demo_registry))"

definition demo_event :: "int \<Rightarrow> executor_event_body \<Rightarrow> executor_event" where
  "demo_event n body = \<lparr>xe_sequence = n, xe_at = ''now'', xe_body = body\<rparr>"

lemma demo_start_begin: "start_begin ''codex'' demo_identity demo_policy 1 None (new_manager demo_registry) =
    (Inr demo_context, new_manager demo_registry)"
  by code_simp

lemma demo_manager_reachable: "manager_reachable demo_manager"
  unfolding demo_manager_def
  by (rule manager_reachable.step [OF manager_reachable.new manager_step.started [OF demo_start_begin]])

section \<open>Properties\<close>

text \<open>In every state the manager reaches, whatever operations overlap, the binding found under a task and an
  execution is a session of exactly that task execution, opened by the executor the binding names, with a
  non-empty session id and a positive generation (ids without the separator character).\<close>

theorem binding_serves_its_execution:
  assumes "manager_reachable m" "active t x m = Some b"
    and "CHR 0x00 \<notin> set t" "CHR 0x00 \<notin> set (ti_taskId (bs_identity b))"
  shows "ti_taskId (bs_identity b) = t \<and> ti_executionId (bs_identity b) = x \<and> sn_executorId (bs_session b) = bs_executorId b \<and>
    trim (sn_sessionId (bs_session b)) \<noteq> [] \<and> 1 \<le> sn_generation (bs_session b)"
proof -
  have ok: "manager_ok m" using assms(1) by (rule manager_reachable_ok)
  obtain r where r: "bound (bindingKey t x) m = Some r" "bs_identity b = bd_identity (object_at r m)"
    "bs_executorId b = bd_executorId (object_at r m)" "bs_session b = session_ref.truncate (bd_session (object_at r m))"
    using assms(2) by (auto simp: active_def Let_def snapshotIdentity_def)
  from bound_object [OF ok r(1)] have o: "r < length (mg_objects m)" "key_of (object_at r m) = bindingKey t x" by simp_all
  have "binding_ok (object_at r m)" using ok o(1) by (rule object_ok)
  moreover have "ti_taskId (bs_identity b) = t \<and> ti_executionId (bs_identity b) = x"
    using bindingKey_eq o(2) assms(3,4) r(2) unfolding key_of_def by metis
  ultimately show ?thesis using r by (simp add: binding_ok_def session_ref.truncate_def assertGeneration_def)
qed

lemma binding_serves_its_execution_witness:
  "\<exists>b. active ''t1'' ''x1'' demo_manager = Some b \<and> ti_taskId (bs_identity b) = ''t1'' \<and> sn_executorId (bs_session b) = bs_executorId b"
proof -
  let ?b = "\<lparr>bs_identity = demo_identity, bs_policy = demo_policy, bs_executorId = ''codex'',
    bs_session = \<lparr>sn_executorId = ''codex'', sn_sessionId = ''s1'', sn_generation = 1\<rparr>\<rparr>"
  have b: "active ''t1'' ''x1'' demo_manager = Some ?b" by code_simp
  have "CHR 0x00 \<notin> set ''t1''" "CHR 0x00 \<notin> set (ti_taskId (bs_identity ?b))" by code_simp+
  with binding_serves_its_execution [OF demo_manager_reachable b] b show ?thesis by blast
qed

text \<open>What a prompt yields is a prefix of the executor's events, with strictly increasing sequence numbers,
  every failure in it being of the known taxonomy and from the bound executor; it is all of them exactly when
  no error ended it, and then the open permission requests are those asked for since the last completion.\<close>

theorem prompt_stream:
  assumes "prompt_events c es m = ((ys, err), m')" "pm_binding c < length (mg_objects m)"
  shows "prefix ys es \<and> (err = None \<longleftrightarrow> ys = es) \<and> rising (pm_lastSequence c) ys \<and>
    (\<forall>e \<in> set ys. failure_from (bd_executorId (object_at (pm_binding c) m)) e) \<and>
    (err = None \<longrightarrow> bd_pending (object_at (pm_binding c) m') = open_after (bd_pending (object_at (pm_binding c) m)) ys)"
  using assms by (rule prompt_events_result)

lemma prompt_stream_witness:
  "let es = [demo_event 1 (OtherEvent ''message'' ''hi''), demo_event 2 (PermissionRequested ''p1'' ''run'' (Some True)), demo_event 2 (CompletedEvent ''succeeded'')];
       r = prompt_events \<lparr>pm_binding = 0, pm_lastSequence = 0\<rparr> es demo_manager
   in fst (fst r) = take 2 es \<and> rising 0 (fst (fst r))"
proof -
  let ?es = "[demo_event 1 (OtherEvent ''message'' ''hi''), demo_event 2 (PermissionRequested ''p1'' ''run'' (Some True)), demo_event 2 (CompletedEvent ''succeeded'')]"
  let ?c = "\<lparr>pm_binding = 0, pm_lastSequence = 0\<rparr>"
  let ?r = "prompt_events ?c ?es demo_manager"
  have "0 < length (mg_objects demo_manager)" "fst (fst ?r) = take 2 ?es" by code_simp+
  with prompt_stream [of ?c ?es demo_manager "fst (fst ?r)" "snd (fst ?r)" "snd ?r"] show ?thesis
    unfolding Let_def by simp
qed

text \<open>A permission answer reaches the executor only for a request that is pending on the binding, and approves
  the session only if the request allowed that; once the executor has taken it, a second answer to the same
  request is refused.\<close>

theorem permission_answered_once:
  assumes "manager_reachable m" "respond_begin t x resp m = (Inr r, m')" "pr_requestId again = pr_requestId resp"
  shows "(\<exists>allow. map_of (bd_pending (object_at r m)) (pr_requestId resp) = Some allow \<and>
      (pr_decision resp = ApproveSession \<longrightarrow> allow)) \<and>
    (\<exists>e. fst (respond_begin t x again (snd (respond_finish r resp (Inr ()) m'))) = Inl e)"
proof -
  note b = respond_begin_result [OF assms(2)]
  have "r < length (mg_objects m)" using bound_object [OF manager_reachable_ok [OF assms(1)]] b by blast
  note f = respond_finish_clears [OF this, of resp]
  have "bound (bindingKey t x) (snd (respond_finish r resp (Inr ()) m)) = Some r" using b f(2) by (simp add: bound_def)
  with respond_begin_closed [OF this, of again] f(1) assms(3) b show ?thesis by fastforce
qed

lemma permission_answered_once_witness:
  "let m = snd (prompt_event \<lparr>pm_binding = 0, pm_lastSequence = 0\<rparr> (demo_event 1 (PermissionRequested ''p1'' ''run'' None)) demo_manager);
       resp = \<lparr>pr_requestId = ''p1'', pr_decision = ApproveOnce\<rparr>
   in fst (respond_begin ''t1'' ''x1'' resp m) = Inr 0 \<and>
      (\<exists>e. fst (respond_begin ''t1'' ''x1'' resp (snd (respond_finish 0 resp (Inr ()) m))) = Inl e)"
proof -
  let ?m = "snd (prompt_event \<lparr>pm_binding = 0, pm_lastSequence = 0\<rparr> (demo_event 1 (PermissionRequested ''p1'' ''run'' None)) demo_manager)"
  let ?resp = "\<lparr>pr_requestId = ''p1'', pr_decision = ApproveOnce\<rparr>"
  have "pm_binding \<lparr>pm_binding = 0, pm_lastSequence = 0\<rparr> < length (mg_objects demo_manager)" by code_simp
  then have m: "manager_reachable ?m"
    by (intro manager_reachable.step [OF demo_manager_reachable] manager_step.event)
  have r: "fst (respond_begin ''t1'' ''x1'' ?resp ?m) = Inr 0" by code_simp
  then obtain m' where r': "respond_begin ''t1'' ''x1'' ?resp ?m = (Inr 0, m')" by (metis prod.collapse)
  then have "m' = ?m" using respond_begin_result by blast
  with permission_answered_once [OF m r' refl] r show ?thesis unfolding Let_def by simp
qed

text \<open>The check for an active session and the binding are separated by the executor's start. Two starts of the
  same execution that overlap both succeed; the execution is then bound to the second session, and the first
  session is bound under no key, so no operation of the manager can reach or close it.\<close>

theorem overlapping_starts_lose_a_session:
  assumes "manager_reachable m" "start_begin x i p g h m = (Inr c, m)"
    and "assertReturnedSession x g s1 = Inr ()" "assertReturnedSession x g s2 = Inr ()"
  defines "m1 \<equiv> snd (start_finish x c (Inr s1) m)"
  defines "m2 \<equiv> snd (start_finish x c (Inr s2) m1)"
  shows "fst (start_finish x c (Inr s1) m) = Inr s1 \<and> fst (start_finish x c (Inr s2) m1) = Inr s2 \<and>
    map_option bs_session (active (ti_taskId i) (ti_executionId i) m2) = Some (session_ref.truncate s2) \<and>
    bd_session (object_at (length (mg_objects m)) m2) = s1 \<and> (\<forall>k. bound k m2 \<noteq> Some (length (mg_objects m)))"
proof -
  let ?n = "length (mg_objects m)" and ?k = "bindingKey (ti_taskId i) (ti_executionId i)"
  define b where "b s = \<lparr>bd_identity = i, bd_policy = p, bd_executorId = x, bd_session = s, bd_pending = []\<rparr>" for s
  from start_begin_context [OF assms(2)] have c: "sc_identity c = i" "sc_policy c = p" "sc_generation c = g" by auto
  have run: "start_finish x c (Inr s) m' = (Inr s, snd (set_binding ?k (b s) m'))"
    if "assertReturnedSession x g s = Inr ()" for s m'
    using that by (simp add: start_finish_def bnd_run set_binding_def modify_def ret_def c b_def)
  have m2: "mg_objects m2 = mg_objects m @ [b s1, b s2]"
    "mg_bindings m2 = AList.update ?k (Suc ?n) (AList.update ?k ?n (mg_bindings m))"
    unfolding m2_def m1_def using assms(3,4) by (simp_all add: run set_binding_def modify_def)
  have "bound k m \<noteq> Some ?n" for k
    using bound_object [OF manager_reachable_ok [OF assms(1)], of k ?n] by auto
  then have "bound k m2 \<noteq> Some ?n" for k using m2(2) by (auto simp: bound_def update_conv)
  moreover have "bound ?k m2 = Some (Suc ?n)" using m2(2) by (simp add: bound_def update_conv)
  ultimately show ?thesis
    using assms(3,4) m2(1) by (simp add: run active_def Let_def object_at_def nth_append b_def m1_def)
qed

lemma overlapping_starts_lose_a_session_witness:
  "let m0 = new_manager demo_registry;
       m1 = snd (start_finish ''codex'' demo_context (Inr (demo_session ''s1'')) m0);
       m2 = snd (start_finish ''codex'' demo_context (Inr (demo_session ''s2'')) m1)
   in map_option bs_session (active ''t1'' ''x1'' m2) = Some \<lparr>sn_executorId = ''codex'', sn_sessionId = ''s2'', sn_generation = 1\<rparr> \<and>
      bd_session (object_at 0 m2) = demo_session ''s1'' \<and> (\<forall>k. bound k m2 \<noteq> Some 0)"
proof -
  have "assertReturnedSession ''codex'' 1 (demo_session ''s1'') = Inr ()"
    "assertReturnedSession ''codex'' 1 (demo_session ''s2'') = Inr ()" by code_simp+
  from overlapping_starts_lose_a_session [OF manager_reachable.new demo_start_begin this] show ?thesis
    by (simp add: new_manager_def demo_identity_def demo_session_def session_ref.truncate_def)
qed

end
