(* ===== verification/Handoff.thy ===== *)
theory Handoff
  imports ExecutorTypes
begin

text \<open>
  \<open>executor-runtime/handoff\<close>: the checkpoint one executor leaves for the next (\<open>handoff-builder.ts\<close>), its
  verification against the workspace (\<open>handoff-verifier.ts\<close>, \<open>handoff-hash.ts\<close>), its store
  (\<open>handoff-store.ts\<close>) and the writer lease of a workspace (\<open>workspace-lease.ts\<close>).

  What git prints, what \<open>stat\<close> says of a file, \<open>path.resolve\<close>, SHA-256 and the locale's order of paths are
  parameters, gathered in the records \<open>platform\<close> and \<open>git_view\<close>.
\<close>

section \<open>Types\<close>

definition ZERO3_HANDOFF_SCHEMA :: string where
  "ZERO3_HANDOFF_SCHEMA = ''zero3.pilot.handoff.v1''"

record changed_file =
  cf_path :: string
  cf_status :: string

record untracked_file =
  uf_path :: string
  uf_byteLen :: int
  uf_sha256 :: string

datatype test_status = TestPassed | TestFailed | TestSkipped | TestUnknown

record test_result =
  tr_name :: string
  tr_status :: test_status
  tr_detail :: "string option"

record pending_approval =
  pa_requestId :: string
  pa_description :: string
  pa_allowSession :: bool

record unsigned_checkpoint =
  hc_schemaVersion :: string
  hc_taskId :: string
  hc_executionId :: string
  hc_workspace :: string
  hc_repoId :: string
  hc_branch :: string
  hc_baseSha :: string
  hc_headSha :: string
  hc_fingerprint :: string
  hc_changedFiles :: "changed_file list"
  hc_untrackedFiles :: "untracked_file list"
  hc_workingDiff :: string
  hc_objective :: string
  hc_constraints :: "string list"
  hc_acceptanceCriteria :: "string list"
  hc_completed :: "string list"
  hc_inProgress :: "string list"
  hc_remaining :: "string list"
  hc_testsRun :: "string list"
  hc_testResults :: "test_result list"
  hc_pendingApprovals :: "pending_approval list"
  hc_lastExecutor :: string
  hc_lastSessionId :: string
  hc_stopReason :: string
  hc_nextAction :: string
  hc_generation :: int
  hc_createdAt :: string

record checkpoint = unsigned_checkpoint +
  hc_hash :: string

record handoff_input =
  hi_taskId :: string
  hi_executionId :: string
  hi_workspace :: string
  hi_repoId :: string
  hi_baseSha :: string
  hi_objective :: string
  hi_constraints :: "string list"
  hi_acceptanceCriteria :: "string list"
  hi_completed :: "string list"
  hi_inProgress :: "string list"
  hi_remaining :: "string list"
  hi_testsRun :: "string list"
  hi_testResults :: "test_result list"
  hi_pendingApprovals :: "pending_approval list"
  hi_lastExecutor :: string
  hi_lastSessionId :: string
  hi_stopReason :: string
  hi_nextAction :: string
  hi_previousGeneration :: int
  hi_createdAt :: "string option"

record observed_workspace =
  ow_workspace :: string
  ow_branch :: string
  ow_headSha :: string
  ow_fingerprint :: string

record workspace_state = observed_workspace +
  ws_changedFiles :: "changed_file list"
  ws_untrackedFiles :: "untracked_file list"
  ws_workingDiff :: string

record verification =
  hv_accept :: bool
  hv_reasons :: "string list"
  hv_taskId :: string
  hv_executionId :: string
  hv_checkpointHash :: string
  hv_generation :: int

text \<open>The platform: paths, hashes and the order of \<open>localeCompare\<close>.\<close>

record platform =
  pf_resolve :: "string \<Rightarrow> string"
  pf_resolveIn :: "string \<Rightarrow> string \<Rightarrow> string"
  pf_sep :: char
  pf_checkpointHash :: "unsigned_checkpoint \<Rightarrow> string"
  pf_fingerprint :: "string \<times> string \<times> untracked_file list \<Rightarrow> string"
  pf_sortPaths :: "changed_file list \<Rightarrow> changed_file list"
  pf_sha256 :: "string \<Rightarrow> string"

text \<open>What git and the file system say of a workspace at one moment; an entry is its size and hash when it is a file.\<close>

datatype fs_entry = RegularFile int string | OtherEntry

record git_view =
  gv_prefix :: string
  gv_branch :: string
  gv_head :: string
  gv_porcelain :: string
  gv_diff :: string
  gv_stat :: "string \<Rightarrow> fs_entry option"

section \<open>Building a checkpoint\<close>

definition nonEmpty :: "string \<Rightarrow> string \<Rightarrow> string res" where
  "nonEmpty name v = (if trim v = [] then Inl (Error (name @ '' must be non-empty'')) else Inr (trim v))"

fun split_nul :: "string \<Rightarrow> string list" where
  "split_nul [] = [[]]"
| "split_nul (c # cs) = (if c = CHR 0x00 then [] # split_nul cs
     else case split_nul cs of [] \<Rightarrow> [[c]] | w # ws \<Rightarrow> (c # w) # ws)"

definition porcelain_records :: "string \<Rightarrow> string list" where
  "porcelain_records s = filter (\<lambda>r. r \<noteq> []) (split_nul s)"

text \<open>The loop of \<open>parsePorcelain\<close>; a rename or a copy takes the following record as its destination.\<close>

fun parse_records :: "string list \<Rightarrow> (changed_file list \<times> string list) res" where
  "parse_records [] = Inr ([], [])"
| "parse_records (r # rs) =
     (if length r < 4 \<or> r ! 2 \<noteq> CHR '' '' then Inl (Error ''unexpected git status --porcelain record'')
      else let code = take 2 r; file = drop 3 r in
      if code = ''??'' then (case parse_records rs of Inl e \<Rightarrow> Inl e | Inr (cs, us) \<Rightarrow> Inr (cs, file # us))
      else if CHR ''R'' \<in> set code \<or> CHR ''C'' \<in> set code
      then (case rs of [] \<Rightarrow> Inl (Error ''rename/copy status record is incomplete'')
        | d # ds \<Rightarrow> (case parse_records ds of Inl e \<Rightarrow> Inl e | Inr (cs, us) \<Rightarrow>
            Inr (\<lparr>cf_path = file, cf_status = code\<rparr> # \<lparr>cf_path = d, cf_status = code @ '':destination''\<rparr> # cs, us)))
      else (case parse_records rs of Inl e \<Rightarrow> Inl e | Inr (cs, us) \<Rightarrow> Inr (\<lparr>cf_path = file, cf_status = code\<rparr> # cs, us)))"

definition parsePorcelain :: "string \<Rightarrow> (changed_file list \<times> string list) res" where
  "parsePorcelain s = parse_records (porcelain_records s)"

fun capture_each :: "platform \<Rightarrow> git_view \<Rightarrow> string \<Rightarrow> string list \<Rightarrow> untracked_file list res" where
  "capture_each pf gv w [] = Inr []"
| "capture_each pf gv w (p # ps) = (let abs = pf_resolveIn pf w p in
     if \<not> prefix (pf_resolve pf w @ [pf_sep pf]) abs then Inl (Error (''untracked path escapes workspace: '' @ p))
     else (case gv_stat gv abs of None \<Rightarrow> Inl NoEntry
       | Some OtherEntry \<Rightarrow> Inl (Error (''untracked entry is not a regular file: '' @ p))
       | Some (RegularFile n h) \<Rightarrow> (case capture_each pf gv w ps of Inl e \<Rightarrow> Inl e
           | Inr us \<Rightarrow> Inr (\<lparr>uf_path = p, uf_byteLen = n, uf_sha256 = h\<rparr> # us))))"

definition captureUntracked :: "platform \<Rightarrow> git_view \<Rightarrow> string \<Rightarrow> string list \<Rightarrow> untracked_file list res" where
  "captureUntracked pf gv w ps = capture_each pf gv w (sort ps)"

definition res_bind :: "'a res \<Rightarrow> ('a \<Rightarrow> 'b res) \<Rightarrow> 'b res" where
  "res_bind r f = (case r of Inl e \<Rightarrow> Inl e | Inr x \<Rightarrow> f x)"

lemma res_bind_Inr [simp]: "res_bind (Inr x) f = f x" "res_bind (Inl e) f = Inl e"
  by (simp_all add: res_bind_def)

lemma res_bind_eq_Inr: "res_bind r f = Inr y \<longleftrightarrow> (\<exists>x. r = Inr x \<and> f x = Inr y)"
  by (cases r) auto

definition captureWorkspaceState :: "platform \<Rightarrow> git_view \<Rightarrow> string \<Rightarrow> workspace_state res" where
  "captureWorkspaceState pf gv w =
     (if trim (gv_prefix gv) \<noteq> [] then Inl (Error ''handoff workspace must be the repository root'')
      else res_bind (nonEmpty ''branch'' (gv_branch gv)) (\<lambda>branch.
      res_bind (nonEmpty ''HEAD'' (gv_head gv)) (\<lambda>headSha.
      res_bind (parsePorcelain (gv_porcelain gv)) (\<lambda>(changed, untrackedPaths).
      res_bind (captureUntracked pf gv w untrackedPaths) (\<lambda>untracked.
      Inr \<lparr>ow_workspace = pf_resolve pf w, ow_branch = branch, ow_headSha = headSha,
        ow_fingerprint = pf_fingerprint pf (gv_porcelain gv, gv_diff gv, untracked),
        ws_changedFiles = pf_sortPaths pf changed, ws_untrackedFiles = untracked, ws_workingDiff = gv_diff gv\<rparr>)))))"

definition sign :: "platform \<Rightarrow> unsigned_checkpoint \<Rightarrow> checkpoint" where
  "sign pf u = unsigned_checkpoint.extend u \<lparr>hc_hash = pf_checkpointHash pf u\<rparr>"

definition buildHandoffCheckpoint :: "platform \<Rightarrow> git_view \<Rightarrow> string \<Rightarrow> handoff_input \<Rightarrow> checkpoint res" where
  "buildHandoffCheckpoint pf gv now i =
     (if \<not> safe_integer (hi_previousGeneration i) \<or> hi_previousGeneration i < 0
      then Inl (Error ''previousGeneration must be a non-negative safe integer'')
      else res_bind (captureWorkspaceState pf gv (hi_workspace i)) (\<lambda>s.
      res_bind (nonEmpty ''task_id'' (hi_taskId i)) (\<lambda>taskId.
      res_bind (nonEmpty ''execution_id'' (hi_executionId i)) (\<lambda>executionId.
      res_bind (nonEmpty ''repo_id'' (hi_repoId i)) (\<lambda>repoId.
      res_bind (nonEmpty ''base_sha'' (hi_baseSha i)) (\<lambda>baseSha.
      res_bind (nonEmpty ''objective'' (hi_objective i)) (\<lambda>objective.
      res_bind (nonEmpty ''last_executor'' (hi_lastExecutor i)) (\<lambda>lastExecutor.
      res_bind (nonEmpty ''last_session_id'' (hi_lastSessionId i)) (\<lambda>lastSessionId.
      res_bind (nonEmpty ''stop_reason'' (hi_stopReason i)) (\<lambda>stopReason.
      res_bind (nonEmpty ''next_action'' (hi_nextAction i)) (\<lambda>nextAction.
      Inr (sign pf \<lparr>hc_schemaVersion = ZERO3_HANDOFF_SCHEMA, hc_taskId = taskId, hc_executionId = executionId,
        hc_workspace = ow_workspace s, hc_repoId = repoId, hc_branch = ow_branch s, hc_baseSha = baseSha,
        hc_headSha = ow_headSha s, hc_fingerprint = ow_fingerprint s, hc_changedFiles = ws_changedFiles s,
        hc_untrackedFiles = ws_untrackedFiles s, hc_workingDiff = ws_workingDiff s, hc_objective = objective,
        hc_constraints = hi_constraints i, hc_acceptanceCriteria = hi_acceptanceCriteria i, hc_completed = hi_completed i,
        hc_inProgress = hi_inProgress i, hc_remaining = hi_remaining i, hc_testsRun = hi_testsRun i,
        hc_testResults = hi_testResults i, hc_pendingApprovals = hi_pendingApprovals i, hc_lastExecutor = lastExecutor,
        hc_lastSessionId = lastSessionId, hc_stopReason = stopReason, hc_nextAction = nextAction,
        hc_generation = hi_previousGeneration i + 1,
        hc_createdAt = (case hi_createdAt i of None \<Rightarrow> now | Some t \<Rightarrow> t)\<rparr>))))))))))))"

section \<open>Verifying it\<close>

definition verifyCheckpointHash :: "platform \<Rightarrow> checkpoint \<Rightarrow> bool" where
  "verifyCheckpointHash pf c \<longleftrightarrow> length (hc_hash c) = 64 \<and> pf_checkpointHash pf (unsigned_checkpoint.truncate c) = hc_hash c"

definition required_evidence :: "checkpoint \<Rightarrow> (string \<times> string) list" where
  "required_evidence c =
     [(''task_id'', hc_taskId c), (''execution_id'', hc_executionId c), (''workspace'', hc_workspace c),
      (''repo_id'', hc_repoId c), (''branch'', hc_branch c), (''base_sha'', hc_baseSha c), (''head_sha'', hc_headSha c),
      (''dirty_worktree_fingerprint'', hc_fingerprint c), (''objective'', hc_objective c), (''last_executor'', hc_lastExecutor c),
      (''last_session_id'', hc_lastSessionId c), (''stop_reason'', hc_stopReason c), (''next_action'', hc_nextAction c),
      (''created_at'', hc_createdAt c)]"

text \<open>The lists of test evidence and approvals are arrays by the type of a checkpoint.\<close>

definition missingEvidence :: "checkpoint \<Rightarrow> string list" where
  "missingEvidence c =
     map (\<lambda>(name, _). ''missing required evidence: '' @ name) (filter (\<lambda>(_, v). trim v = []) (required_evidence c)) @
     (if \<not> safe_integer (hc_generation c) \<or> hc_generation c < 1 then [''invalid handoff_generation''] else [])"

definition verify_reasons :: "platform \<Rightarrow> checkpoint \<Rightarrow> observed_workspace \<Rightarrow> string list" where
  "verify_reasons pf c ob = missingEvidence c @
     (if hc_schemaVersion c \<noteq> ZERO3_HANDOFF_SCHEMA then [''unsupported schema_version''] else []) @
     (if \<not> verifyCheckpointHash pf c then [''checkpoint hash mismatch''] else []) @
     (if pf_resolve pf (ow_workspace ob) \<noteq> pf_resolve pf (hc_workspace c) then [''workspace mismatch''] else []) @
     (if ow_branch ob \<noteq> hc_branch c then [''branch mismatch''] else []) @
     (if ow_headSha ob \<noteq> hc_headSha c then [''HEAD mismatch''] else []) @
     (if ow_fingerprint ob \<noteq> hc_fingerprint c then [''worktree fingerprint mismatch''] else [])"

definition verifyHandoff :: "platform \<Rightarrow> checkpoint \<Rightarrow> observed_workspace \<Rightarrow> verification" where
  "verifyHandoff pf c ob = (let reasons = verify_reasons pf c ob in
     \<lparr>hv_accept = (reasons = []), hv_reasons = reasons, hv_taskId = hc_taskId c, hv_executionId = hc_executionId c,
      hv_checkpointHash = hc_hash c, hv_generation = hc_generation c\<rparr>)"

section \<open>The store\<close>

definition safe_part_char :: "char \<Rightarrow> bool" where
  "safe_part_char c \<longleftrightarrow> (CHR ''A'' \<le> c \<and> c \<le> CHR ''Z'') \<or> (CHR ''a'' \<le> c \<and> c \<le> CHR ''z'') \<or> (CHR ''0'' \<le> c \<and> c \<le> CHR ''9'') \<or>
     c = CHR ''.'' \<or> c = CHR ''_'' \<or> c = CHR ''-''"

definition safePart :: "platform \<Rightarrow> string \<Rightarrow> string res" where
  "safePart pf v = (let n = trim v in
     if n = [] \<or> (\<exists>c \<in> set n. c = CHR 0x00 \<or> c = CHR 0x0D \<or> c = CHR 0x0A)
     then Inl (Error ''handoff storage identity is empty or contains control characters'')
     else if list_all safe_part_char n \<and> length n \<le> 128 then Inr n
     else Inr (''id-'' @ pf_sha256 pf n))"

text \<open>A path of the store is its two directories and the generation of the file.\<close>

type_synonym checkpoint_path = "string \<times> string \<times> int"

definition checkpointPath :: "platform \<Rightarrow> string \<Rightarrow> string \<Rightarrow> int \<Rightarrow> checkpoint_path res" where
  "checkpointPath pf t x g =
     (if \<not> safe_integer g \<or> g < 1 then Inl (Error ''handoff generation must be positive'')
      else res_bind (safePart pf t) (\<lambda>a. res_bind (safePart pf x) (\<lambda>b. Inr (a, b, g))))"

type_synonym handoff_files = "checkpoint_path \<Rightarrow> checkpoint option"

definition handoff_save :: "platform \<Rightarrow> checkpoint \<Rightarrow> (handoff_files, checkpoint_path) eff" where
  "handoff_save pf c =
     bnd (require_that (verifyCheckpointHash pf c) (Error ''refusing to persist checkpoint with invalid hash'')) (\<lambda>_.
     bnd (lift_res (checkpointPath pf (hc_taskId c) (hc_executionId c) (hc_generation c))) (\<lambda>p.
     bnd (modify (\<lambda>fs. fs(p \<mapsto> c))) (\<lambda>_. ret p)))"

definition handoff_load :: "platform \<Rightarrow> string \<Rightarrow> string \<Rightarrow> int \<Rightarrow> (handoff_files, checkpoint) eff" where
  "handoff_load pf t x g =
     bnd (lift_res (checkpointPath pf t x g)) (\<lambda>p.
     bnd (gets (\<lambda>fs. fs p)) (\<lambda>f. case f of None \<Rightarrow> throw NoEntry
       | Some c \<Rightarrow>
         bnd (require_that (hc_schemaVersion c = ZERO3_HANDOFF_SCHEMA) (Error ''unsupported handoff checkpoint schema'')) (\<lambda>_.
         bnd (require_that (hc_taskId c = t \<and> hc_executionId c = x \<and> hc_generation c = g)
           (Error ''handoff checkpoint storage identity mismatch'')) (\<lambda>_.
         bnd (require_that (verifyCheckpointHash pf c) (Error ''handoff checkpoint hash mismatch'')) (\<lambda>_. ret c)))))"

section \<open>The writer lease\<close>

datatype lease_state = LeaseActive | HandoffPending

record writer_lease =
  wl_taskId :: string
  wl_executionId :: string
  wl_workspace :: string
  wl_executorId :: string
  wl_generation :: int
  wl_nonce :: string
  wl_state :: lease_state
  wl_updatedAt :: string

text \<open>The state is the lease file of one workspace: absent, or holding a lease.\<close>

type_synonym 'a lease_eff = "(writer_lease option, 'a) eff"

definition acquire :: "platform \<Rightarrow> string \<Rightarrow> string \<Rightarrow> string \<Rightarrow> string \<Rightarrow> string \<Rightarrow> string \<Rightarrow> int \<Rightarrow> writer_lease lease_eff" where
  "acquire pf nonce now t x w k g =
     bnd (require_that (safe_integer g \<and> 1 \<le> g) (Error ''writer generation must be positive'')) (\<lambda>_.
     let lease = \<lparr>wl_taskId = t, wl_executionId = x, wl_workspace = pf_resolve pf w, wl_executorId = k, wl_generation = g,
       wl_nonce = nonce, wl_state = LeaseActive, wl_updatedAt = now\<rparr> in
     bnd (gets (\<lambda>f. f = None)) (\<lambda>free.
     bnd (require_that free (Error ''workspace already has an active or pending writer lease'')) (\<lambda>_.
     bnd (modify (\<lambda>_. Some lease)) (\<lambda>_. ret lease))))"

definition requireMatch :: "writer_lease \<Rightarrow> writer_lease lease_eff" where
  "requireMatch expected = bnd (gets (\<lambda>f. f)) (\<lambda>f. case f of
     None \<Rightarrow> throw (Error ''workspace writer lease is missing'')
   | Some current \<Rightarrow>
       bnd (require_that (wl_taskId current = wl_taskId expected \<and> wl_executionId current = wl_executionId expected \<and>
         wl_workspace current = wl_workspace expected \<and> wl_executorId current = wl_executorId expected \<and>
         wl_generation current = wl_generation expected \<and> wl_nonce current = wl_nonce expected)
         (Error ''workspace writer lease identity changed'')) (\<lambda>_. ret current))"

definition beginHandoff :: "string \<Rightarrow> writer_lease \<Rightarrow> writer_lease lease_eff" where
  "beginHandoff now expected = bnd (requireMatch expected) (\<lambda>current.
     let pending = current\<lparr>wl_state := HandoffPending, wl_updatedAt := now\<rparr> in
     bnd (modify (\<lambda>_. Some pending)) (\<lambda>_. ret pending))"

definition acceptHandoff :: "string \<Rightarrow> string \<Rightarrow> writer_lease \<Rightarrow> string \<Rightarrow> verification \<Rightarrow> writer_lease lease_eff" where
  "acceptHandoff nonce now expected k v = bnd (requireMatch expected) (\<lambda>current.
     bnd (require_that (wl_state current = HandoffPending) (Error ''handoff must be pending before writer transfer'')) (\<lambda>_.
     bnd (require_that (hv_accept v) (Error ''handoff verification must accept before writer transfer'')) (\<lambda>_.
     bnd (require_that (hv_taskId v = wl_taskId current \<and> hv_executionId v = wl_executionId current)
       (Error ''handoff verification identity does not match writer lease'')) (\<lambda>_.
     bnd (require_that (hv_checkpointHash v \<noteq> [] \<and> length (hv_checkpointHash v) = 64)
       (Error ''handoff verification must bind a checkpoint hash'')) (\<lambda>_.
     bnd (require_that (hv_generation v = wl_generation current + 1)
       (Error ''writer transfer must increment generation exactly once'')) (\<lambda>_.
     let next = current\<lparr>wl_executorId := k, wl_generation := hv_generation v, wl_nonce := nonce, wl_state := LeaseActive,
       wl_updatedAt := now\<rparr> in
     bnd (modify (\<lambda>_. Some next)) (\<lambda>_. ret next)))))))"

definition assertCanWrite :: "string \<Rightarrow> int \<Rightarrow> unit lease_eff" where
  "assertCanWrite k g = bnd (gets (\<lambda>f. case f of None \<Rightarrow> False
     | Some l \<Rightarrow> wl_state l = LeaseActive \<and> wl_executorId l = k \<and> wl_generation l = g)) (\<lambda>ok.
     require_that ok (Error ''executor does not hold verified workspace write authority''))"

definition release :: "writer_lease \<Rightarrow> unit lease_eff" where
  "release expected = bnd (requireMatch expected) (\<lambda>_. modify (\<lambda>_. None))"

end
