(* ===== verification/HandoffCorrectness.thy ===== *)
theory HandoffCorrectness
  imports Handoff
begin

text \<open>The properties of handoff checkpoints, their store and the writer lease.\<close>

section \<open>Reading the status of a workspace\<close>

text \<open>What \<open>git status --porcelain=v1 -z\<close> lists, and how it prints it.\<close>

datatype status_entry = Untracked string | Touched string string | Moved string string string

definition path_ok :: "string \<Rightarrow> bool" where
  "path_ok p \<longleftrightarrow> p \<noteq> [] \<and> CHR 0x00 \<notin> set p"

definition moves :: "string \<Rightarrow> bool" where
  "moves code \<longleftrightarrow> CHR ''R'' \<in> set code \<or> CHR ''C'' \<in> set code"

fun entry_ok :: "status_entry \<Rightarrow> bool" where
  "entry_ok (Untracked p) \<longleftrightarrow> path_ok p"
| "entry_ok (Touched code p) \<longleftrightarrow> length code = 2 \<and> CHR 0x00 \<notin> set code \<and> code \<noteq> ''??'' \<and> \<not> moves code \<and> path_ok p"
| "entry_ok (Moved code p q) \<longleftrightarrow> length code = 2 \<and> CHR 0x00 \<notin> set code \<and> code \<noteq> ''??'' \<and> moves code \<and> path_ok p \<and> path_ok q"

fun entry_records :: "status_entry \<Rightarrow> string list" where
  "entry_records (Untracked p) = [''?? '' @ p]"
| "entry_records (Touched code p) = [code @ '' '' @ p]"
| "entry_records (Moved code p q) = [code @ '' '' @ p, q]"

fun entry_changed :: "status_entry \<Rightarrow> changed_file list" where
  "entry_changed (Untracked p) = []"
| "entry_changed (Touched code p) = [\<lparr>cf_path = p, cf_status = code\<rparr>]"
| "entry_changed (Moved code p q) = [\<lparr>cf_path = p, cf_status = code\<rparr>, \<lparr>cf_path = q, cf_status = code @ '':destination''\<rparr>]"

fun entry_untracked :: "status_entry \<Rightarrow> string list" where
  "entry_untracked (Untracked p) = [p]"
| "entry_untracked _ = []"

definition print_status :: "status_entry list \<Rightarrow> string" where
  "print_status es = concat (map (\<lambda>r. r @ [CHR 0x00]) (concat (map entry_records es)))"

lemma split_nul_record: "CHR 0x00 \<notin> set r \<Longrightarrow> split_nul (r @ CHR 0x00 # s) = r # split_nul s"
  by (induction r) auto

lemma porcelain_records_print:
  assumes "\<forall>r \<in> set rs. r \<noteq> [] \<and> CHR 0x00 \<notin> set r"
  shows "porcelain_records (concat (map (\<lambda>r. r @ [CHR 0x00]) rs)) = rs"
  using assms by (induction rs) (auto simp: porcelain_records_def split_nul_record)

lemma two_chars: "length (code :: string) = 2 \<Longrightarrow> \<exists>a b. code = [a, b]"
  by (auto simp: numeral_2_eq_2 length_Suc_conv)

lemma parse_entry:
  assumes "entry_ok e" "parse_records rs = Inr (cs, us)"
  shows "parse_records (entry_records e @ rs) = Inr (entry_changed e @ cs, entry_untracked e @ us)"
proof (cases e)
  case (Untracked p)
  then show ?thesis using assms by (cases p) (auto simp: path_ok_def)
next
  case (Touched code p)
  then obtain a b where "code = [a, b]" using assms(1) two_chars [of code] by auto
  then show ?thesis using Touched assms by (cases p) (auto simp: path_ok_def moves_def)
next
  case (Moved code p q)
  then obtain a b where "code = [a, b]" using assms(1) two_chars [of code] by auto
  then show ?thesis using Moved assms by (cases p) (auto simp: path_ok_def moves_def)
qed

text \<open>The status parser reads back every status that git prints, whatever characters its paths contain: the
  changed entries in order, a rename or copy as two entries with the destination marked, and the untracked
  paths.\<close>

theorem porcelain_roundtrip:
  assumes "\<forall>e \<in> set es. entry_ok e"
  shows "parsePorcelain (print_status es) = Inr (concat (map entry_changed es), concat (map entry_untracked es))"
proof -
  have "\<forall>r \<in> set (concat (map entry_records es)). r \<noteq> [] \<and> CHR 0x00 \<notin> set r"
  proof
    fix r assume "r \<in> set (concat (map entry_records es))"
    then obtain e where "e \<in> set es" "r \<in> set (entry_records e)" by auto
    with assms show "r \<noteq> [] \<and> CHR 0x00 \<notin> set r" by (cases e) (auto simp: path_ok_def)
  qed
  moreover have "parse_records (concat (map entry_records es)) = Inr (concat (map entry_changed es), concat (map entry_untracked es))"
    using assms by (induction es) (auto simp del: parse_records.simps(2) intro!: parse_entry)
  ultimately show ?thesis by (simp add: parsePorcelain_def print_status_def porcelain_records_print)
qed

lemma porcelain_roundtrip_witness:
  "let es = [Touched '' M'' ''a b.ts'', Moved ''R '' ''old'' ''?? new'', Untracked ''R x'']
   in parsePorcelain (print_status es) = Inr (concat (map entry_changed es), concat (map entry_untracked es)) \<and>
      concat (map entry_untracked es) = [''R x'']"
  unfolding Let_def using porcelain_roundtrip [of "[Touched '' M'' ''a b.ts'', Moved ''R '' ''old'' ''?? new'', Untracked ''R x'']"]
  by (simp add: path_ok_def moves_def)

section \<open>Building and verifying\<close>

text \<open>What is relied on of the platform: hashes have 64 characters, none of them blank, and resolving a path twice
  is resolving it once, to something not blank.\<close>

definition platform_ok :: "platform \<Rightarrow> bool" where
  "platform_ok pf \<longleftrightarrow> (\<forall>u. length (pf_checkpointHash pf u) = 64) \<and> (\<forall>x. trim (pf_fingerprint pf x) \<noteq> []) \<and>
     (\<forall>w. pf_resolve pf (pf_resolve pf w) = pf_resolve pf w \<and> trim (pf_resolve pf w) \<noteq> [])"

lemma nonEmpty_Inr: "nonEmpty name v = Inr x \<longleftrightarrow> trim v \<noteq> [] \<and> x = trim v"
  by (auto simp: nonEmpty_def)

lemma capture_state:
  "captureWorkspaceState pf gv w = Inr s \<Longrightarrow>
     ow_workspace s = pf_resolve pf w \<and> trim (ow_branch s) \<noteq> [] \<and> trim (ow_headSha s) \<noteq> [] \<and> (\<exists>u. ow_fingerprint s = pf_fingerprint pf (gv_porcelain gv, gv_diff gv, u))"
  by (auto simp: captureWorkspaceState_def res_bind_eq_Inr nonEmpty_Inr split: if_splits prod.splits)

lemma build_result:
  assumes "buildHandoffCheckpoint pf gv now i = Inr c"
  obtains s u where "captureWorkspaceState pf gv (hi_workspace i) = Inr s" "c = sign pf u" "hc_schemaVersion u = ZERO3_HANDOFF_SCHEMA"
    "hc_workspace u = ow_workspace s" "hc_branch u = ow_branch s" "hc_headSha u = ow_headSha s" "hc_fingerprint u = ow_fingerprint s"
    "hc_generation u = hi_previousGeneration i + 1" "0 \<le> hi_previousGeneration i"
    "hc_createdAt u = (case hi_createdAt i of None \<Rightarrow> now | Some t \<Rightarrow> t)"
    "hc_taskId u = trim (hi_taskId i)" "hc_executionId u = trim (hi_executionId i)"
    "\<forall>v \<in> {hc_taskId u, hc_executionId u, hc_repoId u, hc_baseSha u, hc_objective u, hc_lastExecutor u, hc_lastSessionId u,
       hc_stopReason u, hc_nextAction u}. trim v \<noteq> []"
  using assms by (auto simp: buildHandoffCheckpoint_def res_bind_eq_Inr nonEmpty_Inr split: if_splits)

lemma sign_fields [simp]:
  "hc_schemaVersion (sign pf u) = hc_schemaVersion u" "hc_taskId (sign pf u) = hc_taskId u"
  "hc_executionId (sign pf u) = hc_executionId u" "hc_workspace (sign pf u) = hc_workspace u"
  "hc_repoId (sign pf u) = hc_repoId u" "hc_branch (sign pf u) = hc_branch u" "hc_baseSha (sign pf u) = hc_baseSha u"
  "hc_headSha (sign pf u) = hc_headSha u" "hc_fingerprint (sign pf u) = hc_fingerprint u" "hc_objective (sign pf u) = hc_objective u"
  "hc_lastExecutor (sign pf u) = hc_lastExecutor u" "hc_lastSessionId (sign pf u) = hc_lastSessionId u"
  "hc_stopReason (sign pf u) = hc_stopReason u" "hc_nextAction (sign pf u) = hc_nextAction u"
  "hc_generation (sign pf u) = hc_generation u" "hc_createdAt (sign pf u) = hc_createdAt u"
  "hc_hash (sign pf u) = pf_checkpointHash pf u" "unsigned_checkpoint.truncate (sign pf u) = u"
  by (simp_all add: sign_def unsigned_checkpoint.defs)

lemma sign_verified: "platform_ok pf \<Longrightarrow> verifyCheckpointHash pf (sign pf u)"
  by (simp add: verifyCheckpointHash_def platform_ok_def)

text \<open>A checkpoint that was built is accepted by the verification exactly when the workspace looked at then is the
  one it was built in, on the same branch and head and with the same fingerprint of the work tree.\<close>

theorem checkpoint_accepted_exactly:
  assumes "platform_ok pf" "buildHandoffCheckpoint pf gv now i = Inr c"
    and "captureWorkspaceState pf gv (hi_workspace i) = Inr s"
    and "hi_previousGeneration i < MAX_SAFE_INTEGER" "trim (case hi_createdAt i of None \<Rightarrow> now | Some t \<Rightarrow> t) \<noteq> []"
  shows "hv_accept (verifyHandoff pf c ob) \<longleftrightarrow>
    pf_resolve pf (ow_workspace ob) = pf_resolve pf (hi_workspace i) \<and> ow_branch ob = ow_branch s \<and>
    ow_headSha ob = ow_headSha s \<and> ow_fingerprint ob = ow_fingerprint s"
proof -
  from assms(2) show ?thesis
  proof (rule build_result)
    fix s' u
    assume b: "captureWorkspaceState pf gv (hi_workspace i) = Inr s'" "c = sign pf u" "hc_schemaVersion u = ZERO3_HANDOFF_SCHEMA"
      "hc_workspace u = ow_workspace s'" "hc_branch u = ow_branch s'" "hc_headSha u = ow_headSha s'" "hc_fingerprint u = ow_fingerprint s'"
      "hc_generation u = hi_previousGeneration i + 1" "0 \<le> hi_previousGeneration i"
      "hc_createdAt u = (case hi_createdAt i of None \<Rightarrow> now | Some t \<Rightarrow> t)"
      "\<forall>v \<in> {hc_taskId u, hc_executionId u, hc_repoId u, hc_baseSha u, hc_objective u, hc_lastExecutor u, hc_lastSessionId u,
         hc_stopReason u, hc_nextAction u}. trim v \<noteq> []"
    then have s: "s' = s" using assms(3) by simp
    note st = capture_state [OF assms(3)]
    have "missingEvidence c = []"
      using b s st assms(1,4,5) by (auto simp: missingEvidence_def required_evidence_def platform_ok_def safe_integer_def MAX_SAFE_INTEGER_def)
    then show ?thesis
      using b s st assms(1) sign_verified by (auto simp: verifyHandoff_def Let_def verify_reasons_def platform_ok_def)
  qed
qed

section \<open>The store\<close>

text \<open>A checkpoint that the store accepted is loaded again, under its task, execution and generation, as it was.\<close>

theorem checkpoint_store_roundtrip:
  assumes "handoff_save pf c fs = (Inr p, fs')" "hc_schemaVersion c = ZERO3_HANDOFF_SCHEMA"
  shows "handoff_load pf (hc_taskId c) (hc_executionId c) (hc_generation c) fs' = (Inr c, fs')"
  using assms
  by (auto simp: handoff_save_def handoff_load_def bnd_run require_that_def lift_res_def guard_res_def modify_def ret_def gets_def
      split: if_splits sum.splits)

section \<open>The writer lease\<close>

text \<open>Operations on the lease other than releasing it.\<close>

inductive lease_move :: "writer_lease option \<Rightarrow> writer_lease option \<Rightarrow> bool" where
  acquired: "lease_move f (snd (acquire pf nonce now t x w k g f))"
| begun: "lease_move f (snd (beginHandoff now expected f))"
| accepted: "lease_move f (snd (acceptHandoff nonce now expected k v f))"

lemma lease_move_keeps:
  "lease_move f f' \<Longrightarrow> f = Some l \<Longrightarrow>
     \<exists>l'. f' = Some l' \<and> wl_generation l \<le> wl_generation l' \<and> (wl_generation l = wl_generation l' \<longrightarrow> wl_executorId l = wl_executorId l')"
  by (induction rule: lease_move.induct)
     (auto simp: acquire_def beginHandoff_def acceptHandoff_def requireMatch_def Let_def bnd_run require_that_def lift_res_def
       guard_res_def gets_def modify_def ret_def split: if_splits)

lemma lease_moves_keep:
  assumes "lease_move\<^sup>*\<^sup>* f f'" "f = Some l"
  shows "\<exists>l'. f' = Some l' \<and> wl_generation l \<le> wl_generation l' \<and> (wl_generation l = wl_generation l' \<longrightarrow> wl_executorId l = wl_executorId l')"
  using assms
proof (induction rule: rtranclp_induct)
  case (step f1 f2)
  then obtain l1 where "f1 = Some l1" "wl_generation l \<le> wl_generation l1" "wl_generation l = wl_generation l1 \<longrightarrow> wl_executorId l = wl_executorId l1"
    by blast
  with lease_move_keeps [OF step.hyps(2)] show ?case by fastforce
qed simp

lemma assertCanWrite_iff:
  "fst (assertCanWrite k g f) = Inr () \<longleftrightarrow> (\<exists>l. f = Some l \<and> wl_state l = LeaseActive \<and> wl_executorId l = k \<and> wl_generation l = g)"
  by (auto simp: assertCanWrite_def bnd_run gets_def require_that_def lift_res_def split: option.splits)

text \<open>C31: Write authority is fenced: until the lease is released, whoever may write later does so under a generation at
  least as high, and under the same generation only the same executor. So an executor that lost the workspace
  to a handoff never passes the write check again.\<close>

theorem write_authority_fenced:
  assumes "fst (assertCanWrite k g f) = Inr ()" "lease_move\<^sup>*\<^sup>* f f'" "fst (assertCanWrite k' g' f') = Inr ()"
  shows "g \<le> g' \<and> (g = g' \<longrightarrow> k = k')"
  using lease_moves_keep [OF assms(2)] assms(1,3) by (auto simp: assertCanWrite_iff)

section \<open>A workspace\<close>

definition demo_platform :: platform where
  "demo_platform = \<lparr>pf_resolve = (\<lambda>w. ''/w''), pf_resolveIn = (\<lambda>w p. ''/w/'' @ p), pf_sep = CHR ''/'',
     pf_checkpointHash = (\<lambda>u. replicate 64 CHR ''a''), pf_fingerprint = (\<lambda>x. ''f''), pf_sortPaths = (\<lambda>xs. xs), pf_sha256 = (\<lambda>s. s)\<rparr>"

definition demo_git :: git_view where
  "demo_git = \<lparr>gv_prefix = [], gv_branch = ''main'', gv_head = ''abc'',
     gv_porcelain = print_status [Touched '' M'' ''a.ts'', Untracked ''b.ts''], gv_diff = ''d'', gv_stat = (\<lambda>p. Some (RegularFile 3 ''h''))\<rparr>"

definition demo_input :: handoff_input where
  "demo_input = \<lparr>hi_taskId = ''t1'', hi_executionId = ''x1'', hi_workspace = ''/w'', hi_repoId = ''r'', hi_baseSha = ''base'',
     hi_objective = ''fix'', hi_constraints = [], hi_acceptanceCriteria = [], hi_completed = [], hi_inProgress = [],
     hi_remaining = [], hi_testsRun = [], hi_testResults = [], hi_pendingApprovals = [], hi_lastExecutor = ''codex'',
     hi_lastSessionId = ''s1'', hi_stopReason = ''quota_exhausted'', hi_nextAction = ''go on'', hi_previousGeneration = 1,
     hi_createdAt = Some ''now''\<rparr>"

lemma demo_platform_ok: "platform_ok demo_platform"
proof -
  have "trim ''f'' \<noteq> []" "trim ''/w'' \<noteq> []" by code_simp+
  then show ?thesis by (simp add: platform_ok_def demo_platform_def)
qed

definition the_Inr :: "'a res \<Rightarrow> 'a" where
  "the_Inr r = (case r of Inr x \<Rightarrow> x | Inl _ \<Rightarrow> undefined)"

definition isInr :: "'a res \<Rightarrow> bool" where
  "isInr r = (case r of Inr x \<Rightarrow> True | Inl _ \<Rightarrow> False)"

lemma isInr_the: "isInr r \<Longrightarrow> r = Inr (the_Inr r)"
  by (auto simp: isInr_def the_Inr_def split: sum.splits)

lemma checkpoint_accepted_exactly_witness:
  "let c = the_Inr (buildHandoffCheckpoint demo_platform demo_git ''later'' demo_input);
       s = the_Inr (captureWorkspaceState demo_platform demo_git ''/w'')
   in hv_accept (verifyHandoff demo_platform c (observed_workspace.truncate s)) \<and>
      \<not> hv_accept (verifyHandoff demo_platform c (observed_workspace.truncate (s\<lparr>ow_headSha := ''def''\<rparr>)))"
proof -
  define c where "c = the_Inr (buildHandoffCheckpoint demo_platform demo_git ''later'' demo_input)"
  define s where "s = the_Inr (captureWorkspaceState demo_platform demo_git ''/w'')"
  have "isInr (buildHandoffCheckpoint demo_platform demo_git ''later'' demo_input)"
    "isInr (captureWorkspaceState demo_platform demo_git ''/w'')" by code_simp+
  then have b: "buildHandoffCheckpoint demo_platform demo_git ''later'' demo_input = Inr c"
    "captureWorkspaceState demo_platform demo_git (hi_workspace demo_input) = Inr s"
    unfolding c_def s_def by (simp_all add: isInr_the demo_input_def)
  have "hi_previousGeneration demo_input < MAX_SAFE_INTEGER"
    "trim (case hi_createdAt demo_input of None \<Rightarrow> ''later'' | Some t \<Rightarrow> t) \<noteq> []" by code_simp+
  note exact = checkpoint_accepted_exactly [OF demo_platform_ok b this]
  have "ow_headSha s = ''abc''" unfolding s_def by code_simp
  then have "hv_accept (verifyHandoff demo_platform c (observed_workspace.truncate s)) \<and>
      \<not> hv_accept (verifyHandoff demo_platform c (observed_workspace.truncate (s\<lparr>ow_headSha := ''def''\<rparr>)))"
    unfolding exact by (simp add: observed_workspace.truncate_def demo_platform_def)
  then show ?thesis unfolding Let_def c_def s_def .
qed

lemma checkpoint_store_roundtrip_witness:
  "let c = the_Inr (buildHandoffCheckpoint demo_platform demo_git ''later'' demo_input);
       fs = snd (handoff_save demo_platform c (\<lambda>_. None))
   in fst (handoff_load demo_platform ''t1'' ''x1'' 2 fs) = Inr c"
proof -
  define c where "c = the_Inr (buildHandoffCheckpoint demo_platform demo_git ''later'' demo_input)"
  have f: "hc_taskId c = ''t1''" "hc_executionId c = ''x1''" "hc_generation c = 2" "hc_schemaVersion c = ZERO3_HANDOFF_SCHEMA"
    unfolding c_def by code_simp+
  have "fst (handoff_save demo_platform c (\<lambda>_. None)) = Inr (''t1'', ''x1'', 2)"
    unfolding c_def by code_simp
  then have "handoff_save demo_platform c (\<lambda>_. None) = (Inr (''t1'', ''x1'', 2), snd (handoff_save demo_platform c (\<lambda>_. None)))"
    by (metis prod.collapse)
  from checkpoint_store_roundtrip [OF this f(4)] f show ?thesis unfolding Let_def c_def by simp
qed

lemma write_authority_fenced_witness:
  "let l = \<lparr>wl_taskId = ''t1'', wl_executionId = ''x1'', wl_workspace = ''/w'', wl_executorId = ''codex'', wl_generation = 1,
         wl_nonce = ''n1'', wl_state = LeaseActive, wl_updatedAt = ''now''\<rparr>;
       v = \<lparr>hv_accept = True, hv_reasons = [], hv_taskId = ''t1'', hv_executionId = ''x1'', hv_checkpointHash = replicate 64 CHR ''a'', hv_generation = 2\<rparr>;
       f1 = snd (beginHandoff ''now'' l (Some l)); f2 = snd (acceptHandoff ''n2'' ''now'' l ''claude'' v f1)
   in fst (assertCanWrite ''codex'' 1 (Some l)) = Inr () \<and> fst (assertCanWrite ''claude'' 2 f2) = Inr () \<and> (1::int) \<le> 2"
proof -
  define l where "l = \<lparr>wl_taskId = ''t1'', wl_executionId = ''x1'', wl_workspace = ''/w'', wl_executorId = ''codex'', wl_generation = 1,
         wl_nonce = ''n1'', wl_state = LeaseActive, wl_updatedAt = ''now''\<rparr>"
  define v where "v = \<lparr>hv_accept = True, hv_reasons = [], hv_taskId = ''t1'', hv_executionId = ''x1'', hv_checkpointHash = replicate 64 CHR ''a'', hv_generation = 2\<rparr>"
  have a: "fst (assertCanWrite ''codex'' 1 (Some l)) = Inr ()"
    "fst (assertCanWrite ''claude'' 2 (snd (acceptHandoff ''n2'' ''now'' l ''claude'' v (snd (beginHandoff ''now'' l (Some l)))))) = Inr ()"
    unfolding l_def v_def by code_simp+
  have "lease_move\<^sup>*\<^sup>* (Some l) (snd (acceptHandoff ''n2'' ''now'' l ''claude'' v (snd (beginHandoff ''now'' l (Some l)))))"
    by (meson begun accepted rtranclp.rtrancl_refl rtranclp.rtrancl_into_rtrancl)
  from write_authority_fenced [OF a(1) this a(2)] a show ?thesis unfolding Let_def l_def v_def by simp
qed

end
