(* ===== verification/FailoverRuntime.thy ===== *)
theory FailoverRuntime
  imports FailoverSafety ExecutorManagerSafety Handoff
begin

text \<open>
  \<open>executor-runtime/router/failover-runtime.ts\<close>, class \<open>Zero3FailoverExecutorManager\<close>: the executor manager, the
  failover controller, the handoff store and the writer lease put together.

  The state holds all of them: the manager, the lease file of every workspace, the handoff files and the
  bindings of this class, objects as in the manager. What the generator yields goes to \<open>fw_output\<close>, in order.
  What the outside answers while one event is handled (clocks, git, the executors) is a record \<open>answers\<close>.
\<close>

section \<open>State\<close>

record executor_input =
  in_clientRequestId :: string
  in_text :: string

record failover_binding =
  fb_identity :: task_identity
  fb_policy :: policy_context
  fb_controller :: failover
  fb_lease :: writer_lease

record failover_world =
  fw_manager :: manager
  fw_leases :: "string \<Rightarrow> writer_lease option"
  fw_handoffs :: handoff_files
  fw_bindings :: "(string \<times> nat) list"
  fw_objects :: "failover_binding list"
  fw_output :: "executor_event list"

type_synonym 'a world_eff = "(failover_world, 'a) eff"

record answers =
  an_nowMs :: int
  an_nowIso :: string
  an_nonce :: string
  an_before :: git_view
  an_build :: git_view
  an_after :: git_view
  an_close :: "unit res"
  an_start :: "start_context \<Rightarrow> executor_session res"

text \<open>The fixed surroundings: the platform, the configuration, and the text of a checkpoint.\<close>

record surroundings =
  su_platform :: platform
  su_config :: failover_config
  su_showCheckpoint :: "checkpoint \<Rightarrow> string"

section \<open>The parts of the state\<close>

definition on_manager :: "'a manager_eff \<Rightarrow> 'a world_eff" where
  "on_manager m = (\<lambda>w. case m (fw_manager w) of (r, m') \<Rightarrow> (r, w\<lparr>fw_manager := m'\<rparr>))"

definition on_lease :: "string \<Rightarrow> 'a lease_eff \<Rightarrow> 'a world_eff" where
  "on_lease ws m = (\<lambda>w. case m (fw_leases w ws) of (r, l) \<Rightarrow> (r, w\<lparr>fw_leases := (fw_leases w)(ws := l)\<rparr>))"

definition on_handoffs :: "(handoff_files, 'a) eff \<Rightarrow> 'a world_eff" where
  "on_handoffs m = (\<lambda>w. case m (fw_handoffs w) of (r, h) \<Rightarrow> (r, w\<lparr>fw_handoffs := h\<rparr>))"

definition fobject :: "nat \<Rightarrow> failover_world \<Rightarrow> failover_binding" where
  "fobject r w = fw_objects w ! r"

definition set_fobject :: "nat \<Rightarrow> failover_binding \<Rightarrow> failover_world \<Rightarrow> failover_world" where
  "set_fobject r b w = w\<lparr>fw_objects := (fw_objects w)[r := b]\<rparr>"

definition on_controller :: "nat \<Rightarrow> 'a failover_eff \<Rightarrow> 'a world_eff" where
  "on_controller r m = (\<lambda>w. case m (fb_controller (fobject r w)) of (x, c) \<Rightarrow>
     (x, set_fobject r ((fobject r w)\<lparr>fb_controller := c\<rparr>) w))"

definition emit :: "executor_event \<Rightarrow> unit world_eff" where
  "emit e = modify (\<lambda>w. w\<lparr>fw_output := fw_output w @ [e]\<rparr>)"

section \<open>Module functions\<close>

definition failover_key :: "string \<Rightarrow> string \<Rightarrow> string" where
  "failover_key t x = t @ [CHR 0x00] @ x"

definition baseSha :: "task_identity \<Rightarrow> string \<Rightarrow> string" where
  "baseSha i fallback = (case List.find (prefix ''baseline='') (ti_constraints i) of
     None \<Rightarrow> fallback
   | Some v \<Rightarrow> let marker = trim (drop (length ''baseline='') v) in if marker = [] then fallback else marker)"

definition nextCandidate :: "failover_config \<Rightarrow> string \<Rightarrow> string option" where
  "nextCandidate c k = (if k \<notin> set (fc_candidates c) then None
     else List.find (\<lambda>x. x \<noteq> k) (rotation (fc_candidates c) k))"

definition resequence :: "executor_event \<Rightarrow> int \<Rightarrow> executor_event" where
  "resequence e n = e\<lparr>xe_sequence := n\<rparr>"

text \<open>The arrow of the messages, as the bytes of its UTF-8 encoding.\<close>

definition arrow :: string where
  "arrow = [CHR 0xE2, CHR 0x86, CHR 0x92]"

definition newlines :: string where
  "newlines = [CHR 0x0A, CHR 0x0A]"

definition HANDOFF_VERIFY_INSTRUCTION :: string where
  "HANDOFF_VERIFY_INSTRUCTION = js_join [CHR 0x0A] [''HANDOFF_VERIFY'', '''', ''Do not modify code yet.'', '''',
     ''1. Confirm workspace.'', ''2. Confirm branch.'', ''3. Confirm HEAD.'', ''4. Read the handoff checkpoint.'',
     ''5. Inspect git status.'', ''6. Inspect diff.'', ''7. Inspect untracked files.'', ''8. Inspect last test results.'',
     ''9. Confirm pending approvals.'', ''10. Confirm next_action.'', ''11. Return HANDOFF_ACCEPT or HANDOFF_REJECT with reasons.'']"

definition retryInput :: "executor_input \<Rightarrow> int \<Rightarrow> executor_failure \<Rightarrow> executor_input" where
  "retryInput i attempt f = \<lparr>in_clientRequestId = in_clientRequestId i @ '':retry-'' @ int_text attempt,
     in_text = ''Zero3 provider retry after '' @ failure_code_text (xf_code f) @
       ''. Inspect current workspace state before repeating any side effect.'' @ newlines @ in_text i\<rparr>"

definition handoffInput :: "surroundings \<Rightarrow> executor_input \<Rightarrow> checkpoint \<Rightarrow> executor_input" where
  "handoffInput su i c = \<lparr>in_clientRequestId = in_clientRequestId i @ '':handoff-'' @ int_text (hc_generation c),
     in_text = HANDOFF_VERIFY_INSTRUCTION @ newlines @
       ''The checkpoint below has already passed Zero3 local hash/workspace verification. Re-verify it before modifying code, then continue only from the remaining work.''
       @ newlines @ su_showCheckpoint su c @ newlines @ ''ORIGINAL_ZERO3_INSTRUCTION:'' @ [CHR 0x0A] @ in_text i\<rparr>"

section \<open>Starting\<close>

definition checkHandoffRoot :: "(string \<Rightarrow> bool) \<Rightarrow> string \<Rightarrow> unit res" where
  "checkHandoffRoot isAbsolute dir = guard_res (isAbsolute dir) (Error ''failover handoffRoot must be absolute'')"

definition lease_fits :: "task_identity \<Rightarrow> string \<Rightarrow> int \<Rightarrow> writer_lease \<Rightarrow> bool" where
  "lease_fits i k g l \<longleftrightarrow> wl_taskId l = ti_taskId i \<and> wl_executionId l = ti_executionId i \<and> wl_executorId l = k \<and>
     wl_generation l = g \<and> wl_state l = LeaseActive"

definition workspace_of :: "surroundings \<Rightarrow> task_identity \<Rightarrow> string" where
  "workspace_of su i = pf_resolve (su_platform su) (ti_workspace i)"

definition fbind :: "surroundings \<Rightarrow> answers \<Rightarrow> string \<Rightarrow> task_identity \<Rightarrow> policy_context \<Rightarrow> executor_session \<Rightarrow> unit world_eff" where
  "fbind su an k i p s =
     (if k \<notin> set (fc_candidates (su_config su)) then ret ()
      else let ws = workspace_of su i in
      bnd (gets (\<lambda>w. fw_leases w ws)) (\<lambda>held.
      bnd (case held of
          Some l \<Rightarrow> bnd (require_that (lease_fits i k (sn_generation s) l)
            (Error ''existing workspace writer lease does not match resumed failover authority'')) (\<lambda>_. ret l)
        | None \<Rightarrow> on_lease ws (acquire (su_platform su) (an_nonce an) (an_nowIso an) (ti_taskId i) (ti_executionId i)
            (ti_workspace i) k (sn_generation s))) (\<lambda>lease.
      bnd (lift_res (new_failover (su_config su) k (sn_generation s))) (\<lambda>c.
      modify (\<lambda>w. w\<lparr>fw_bindings := AList.update (failover_key (ti_taskId i) (ti_executionId i)) (length (fw_objects w)) (fw_bindings w),
        fw_objects := fw_objects w @ [\<lparr>fb_identity = snapshotIdentity i, fb_policy = p, fb_controller = c, fb_lease = lease\<rparr>]\<rparr>)))))"

definition bind_or_close :: "surroundings \<Rightarrow> answers \<Rightarrow> string \<Rightarrow> task_identity \<Rightarrow> policy_context \<Rightarrow> executor_session \<Rightarrow>
    executor_session world_eff" where
  "bind_or_close su an k i p s = catch_with (bnd (fbind su an k i p s) (\<lambda>_. ret s)) (\<lambda>e.
     bnd (catch_with (on_manager (manager_close (an_close an) (ti_taskId i) (ti_executionId i))) (\<lambda>_. ret ())) (\<lambda>_. throw e))"

definition fstart :: "surroundings \<Rightarrow> answers \<Rightarrow> string \<Rightarrow> task_identity \<Rightarrow> policy_context \<Rightarrow> executor_session world_eff" where
  "fstart su an k i p = bnd (on_manager (manager_start (an_start an) k i p)) (bind_or_close su an k i p)"

definition fstartFromHandoff :: "surroundings \<Rightarrow> answers \<Rightarrow> string \<Rightarrow> task_identity \<Rightarrow> policy_context \<Rightarrow> checkpoint_ref \<Rightarrow>
    executor_session world_eff" where
  "fstartFromHandoff su an k i p c = bnd (on_manager (startFromHandoff (an_start an) k i p c)) (bind_or_close su an k i p)"

definition fresume :: "surroundings \<Rightarrow> answers \<Rightarrow> (session_ref \<Rightarrow> checkpoint_ref \<Rightarrow> executor_session res) \<Rightarrow> string \<Rightarrow>
    task_identity \<Rightarrow> policy_context \<Rightarrow> session_ref \<Rightarrow> checkpoint_ref \<Rightarrow> executor_session world_eff" where
  "fresume su an ask k i p ref c = bnd (on_manager (manager_resume ask k i p ref c)) (bind_or_close su an k i p)"

section \<open>The verified switch\<close>

definition handoff_request :: "task_identity \<Rightarrow> binding_snapshot \<Rightarrow> string \<Rightarrow> string \<Rightarrow> executor_failure \<Rightarrow> executor_input \<Rightarrow> string \<Rightarrow>
    handoff_input" where
  "handoff_request i act k head f inp now = \<lparr>hi_taskId = ti_taskId i, hi_executionId = ti_executionId i, hi_workspace = ti_workspace i,
     hi_repoId = (case trim_opt (ti_repoIdentity i) of None \<Rightarrow> ti_workspace i | Some r \<Rightarrow> r),
     hi_baseSha = baseSha i head, hi_objective = ti_objective i, hi_constraints = ti_constraints i,
     hi_acceptanceCriteria = ti_acceptanceCriteria i, hi_completed = [], hi_inProgress = [in_text inp],
     hi_remaining = [in_text inp], hi_testsRun = [], hi_testResults = [], hi_pendingApprovals = [], hi_lastExecutor = k,
     hi_lastSessionId = sn_sessionId (bs_session act), hi_stopReason = failure_code_text (xf_code f),
     hi_nextAction = ''Continue the interrupted Zero3 instruction after verified handoff: '' @ in_text inp,
     hi_previousGeneration = sn_generation (bs_session act), hi_createdAt = Some now\<rparr>"

definition checkpoint_reference :: "checkpoint \<Rightarrow> int \<Rightarrow> checkpoint_ref" where
  "checkpoint_reference c g = \<lparr>cr_protocol = ZERO3_HANDOFF_PROTOCOL, cr_checkpointHash = hc_hash c, cr_generation = g,
     cr_workspaceFingerprint = hc_fingerprint c\<rparr>"

definition verifiedSwitch :: "surroundings \<Rightarrow> answers \<Rightarrow> nat \<Rightarrow> string \<Rightarrow> switch_action \<Rightarrow> executor_failure \<Rightarrow> executor_input \<Rightarrow>
    checkpoint world_eff" where
  "verifiedSwitch su an r eventId a f inp =
     bnd (gets (\<lambda>w. fb_identity (fobject r w))) (\<lambda>i.
     bnd (gets (\<lambda>w. fb_policy (fobject r w))) (\<lambda>p.
     bnd (gets (\<lambda>w. fb_lease (fobject r w))) (\<lambda>lease.
     let ws = workspace_of su i; pf = su_platform su in
     bnd (gets (\<lambda>w. active (ti_taskId i) (ti_executionId i) (fw_manager w))) (\<lambda>found. case found of
       None \<Rightarrow> throw (Error ''cannot handoff without an active executor binding'')
     | Some act \<Rightarrow>
     bnd (require_that (bs_executorId act = sw_from a \<and> sn_generation (bs_session act) = wl_generation lease)
       (Error ''active executor authority changed before handoff'')) (\<lambda>_.
     bnd (on_lease ws (beginHandoff (an_nowIso an) lease)) (\<lambda>pending.
     bnd (lift_res (captureWorkspaceState pf (an_before an) (ti_workspace i))) (\<lambda>before.
     bnd (lift_res (buildHandoffCheckpoint pf (an_build an) (an_nowIso an)
       (handoff_request i act (sw_from a) (ow_headSha before) f inp (an_nowIso an)))) (\<lambda>c.
     bnd (on_handoffs (handoff_save pf c)) (\<lambda>_.
     bnd (lift_res (captureWorkspaceState pf (an_after an) (ti_workspace i))) (\<lambda>observed.
     let v = verifyHandoff pf c (observed_workspace.truncate observed) in
     if \<not> hv_accept v
     then bnd (on_controller r (abortSwitch eventId)) (\<lambda>_.
       throw (Error (''handoff verification rejected: '' @ js_join ''; '' (hv_reasons v))))
     else
     bnd (on_manager (manager_close (an_close an) (ti_taskId i) (ti_executionId i))) (\<lambda>_.
     bnd (on_manager (startFromHandoff (an_start an) (sw_to a) i p (checkpoint_reference c (sn_generation (bs_session act))))) (\<lambda>s.
     if sn_generation s \<noteq> sw_generation a
     then bnd (on_controller r (abortSwitch eventId)) (\<lambda>_.
       throw (Error ''new executor generation does not match planned failover generation''))
     else
     bnd (on_lease ws (acceptHandoff (an_nonce an) (an_nowIso an) pending (sw_to a) v)) (\<lambda>lease'.
     bnd (modify (\<lambda>w. set_fobject r ((fobject r w)\<lparr>fb_lease := lease'\<rparr>) w)) (\<lambda>_.
     bnd (on_controller r (commitVerifiedSwitch eventId (hv_generation v))) (\<lambda>_.
     ret c)))))))))))))))"

section \<open>Prompting\<close>

text \<open>The local variables of the generator.\<close>

record prompt_state =
  pt_input :: executor_input
  pt_outward :: int
  pt_failures :: int

text \<open>After an event the loop goes on, starts over with a new input, or the generator returns.\<close>

datatype flow = NextEvent | StartOver | Finished

definition outward :: "(int \<Rightarrow> executor_event) \<Rightarrow> prompt_state \<Rightarrow> flow \<Rightarrow> (prompt_state \<times> flow) world_eff" where
  "outward mk st fl = (let n = pt_outward st + 1 in bnd (emit (mk n)) (\<lambda>_. ret (st\<lparr>pt_outward := n\<rparr>, fl)))"

definition message :: "answers \<Rightarrow> string \<Rightarrow> int \<Rightarrow> executor_event" where
  "message an txt n = \<lparr>xe_sequence = n, xe_at = an_nowIso an, xe_body = OtherEvent ''message'' txt\<rparr>"

definition failure_event_id :: "string \<Rightarrow> string \<Rightarrow> int \<Rightarrow> failure_code \<Rightarrow> string" where
  "failure_event_id t x n code = t @ '':'' @ x @ '':failure:'' @ int_text n @ '':'' @ failure_code_text code"

definition handle_failure :: "surroundings \<Rightarrow> answers \<Rightarrow> nat \<Rightarrow> string \<Rightarrow> string \<Rightarrow> executor_input \<Rightarrow> executor_event \<Rightarrow> executor_failure \<Rightarrow>
    prompt_state \<Rightarrow> (prompt_state \<times> flow) world_eff" where
  "handle_failure su an r t x inp e f st0 =
     (let st = st0\<lparr>pt_failures := pt_failures st0 + 1\<rparr>;
          eventId = failure_event_id t x (pt_failures st) (xf_code f) in
     bnd (on_controller r (onFailure eventId f (an_nowMs an))) (\<lambda>action. case action of
       RetryAction k attempt most \<Rightarrow>
         outward (message an (''[Zero3 failover] '' @ failure_code_text (xf_code f) @ '': retry '' @ int_text attempt @ ''/'' @
           int_text most @ '' on '' @ k @ ''.'')) (st\<lparr>pt_input := retryInput inp attempt f\<rparr>) StartOver
     | SwitchAction a \<Rightarrow>
         bnd (verifiedSwitch su an r eventId a f inp) (\<lambda>c.
         outward (message an (''[Zero3 failover] '' @ sw_from a @ '' '' @ arrow @ '' '' @ sw_to a @
           ''; verified handoff generation '' @ int_text (sw_generation a) @ ''.'')) (st\<lparr>pt_input := handoffInput su inp c\<rparr>) StartOver)
     | HandoffAction k _ _ \<Rightarrow>
         if \<not> fc_automaticFailover (su_config su) then outward (resequence e) st NextEvent
         else (case nextCandidate (su_config su) k of
           None \<Rightarrow> outward (resequence e) st NextEvent
         | Some target \<Rightarrow>
             let switchId = eventId @ '':handoff-switch'' in
             bnd (on_controller r (manualSwitch switchId target)) (\<lambda>planned. case planned of
               SwitchAction a \<Rightarrow>
                 bnd (verifiedSwitch su an r switchId a f inp) (\<lambda>c.
                 outward (message an (''[Zero3 failover] '' @ failure_code_text (xf_code f) @ '' required handoff; '' @ sw_from a @
                   '' '' @ arrow @ '' '' @ sw_to a @ '' generation '' @ int_text (sw_generation a) @ ''.''))
                   (st\<lparr>pt_input := handoffInput su inp c\<rparr>) StartOver)
             | _ \<Rightarrow> outward (resequence e) st NextEvent))
     | _ \<Rightarrow> outward (resequence e) st NextEvent))"

definition handle_event :: "surroundings \<Rightarrow> answers \<Rightarrow> nat \<Rightarrow> string \<Rightarrow> string \<Rightarrow> executor_input \<Rightarrow> executor_event \<Rightarrow> prompt_state \<Rightarrow>
    (prompt_state \<times> flow) world_eff" where
  "handle_event su an r t x inp e st = (case xe_body e of
     FailureEvent v \<Rightarrow> (case failure_of_json v of
         Some f \<Rightarrow> handle_failure su an r t x inp e f st
       | None \<Rightarrow> throw (ExecutorManagerError ''executor emitted a failure outside the frozen Zero3 taxonomy''))
   | CompletedEvent out \<Rightarrow>
       bnd (if out = ''succeeded'' then on_controller r (bnd (gets fo_current) recordSuccess) else ret ()) (\<lambda>_.
       outward (resequence e) st Finished)
   | _ \<Rightarrow> outward (resequence e) st NextEvent)"

text \<open>One pass over the events of a session, each first checked by the manager's generator.\<close>

fun prompt_pass :: "surroundings \<Rightarrow> nat \<Rightarrow> string \<Rightarrow> string \<Rightarrow> executor_input \<Rightarrow> prompt_cursor \<Rightarrow> (executor_event \<times> answers) list \<Rightarrow>
    prompt_state \<Rightarrow> (prompt_state \<times> flow) world_eff" where
  "prompt_pass su r t x inp cur [] st = ret (st, NextEvent)"
| "prompt_pass su r t x inp cur ((e, an) # es) st =
     bnd (on_manager (prompt_event cur e)) (\<lambda>cur'.
     bnd (handle_event su an r t x inp e st) (\<lambda>(st', fl).
     if fl = NextEvent then prompt_pass su r t x inp cur' es st' else ret (st', fl)))"

text \<open>The \<open>while (true)\<close> of the generator: every pass has the events of one session prompt. It ends when a pass does
  not start over; the executors decide how often that happens, so their answers are a list with one entry per
  pass.\<close>

fun prompt_passes :: "surroundings \<Rightarrow> nat \<Rightarrow> string \<Rightarrow> string \<Rightarrow> executor_input \<Rightarrow> (executor_event \<times> answers) list list \<Rightarrow>
    prompt_state \<Rightarrow> prompt_state world_eff" where
  "prompt_passes su r t x inp [] st = ret st"
| "prompt_passes su r t x inp (es # ess) st =
     bnd (on_manager (prompt_begin t x)) (\<lambda>cur.
     bnd (prompt_pass su r t x inp cur es st) (\<lambda>(st', fl).
     if fl = StartOver then prompt_passes su r t x inp ess st' else ret st'))"

definition frequireBinding :: "string \<Rightarrow> string \<Rightarrow> nat world_eff" where
  "frequireBinding t x = bnd (gets (\<lambda>w. map_of (fw_bindings w) (failover_key t x))) (\<lambda>b. case b of
     None \<Rightarrow> throw (Error (''automatic failover binding is unavailable for '' @ t @ ''/'' @ x)) | Some r \<Rightarrow> ret r)"

definition fprompt :: "surroundings \<Rightarrow> string \<Rightarrow> string \<Rightarrow> executor_input \<Rightarrow> (executor_event \<times> answers) list list \<Rightarrow> prompt_state world_eff" where
  "fprompt su t x inp ess = bnd (frequireBinding t x) (\<lambda>r.
     prompt_passes su r t x inp ess \<lparr>pt_input = inp, pt_outward = 0, pt_failures = 0\<rparr>)"

section \<open>Closing\<close>

definition release_current :: "string \<Rightarrow> string \<Rightarrow> unit lease_eff" where
  "release_current t x = bnd (gets (\<lambda>l. l)) (\<lambda>l. case l of
     Some c \<Rightarrow> if wl_taskId c = t \<and> wl_executionId c = x then release c else ret ()
   | None \<Rightarrow> ret ())"

definition close_finally :: "surroundings \<Rightarrow> string \<Rightarrow> string \<Rightarrow> unit world_eff" where
  "close_finally su t x =
     bnd (gets (\<lambda>w. map_option (\<lambda>r. workspace_of su (fb_identity (fobject r w))) (map_of (fw_bindings w) (failover_key t x)))) (\<lambda>ws.
     bnd (case ws of None \<Rightarrow> ret () | Some ws \<Rightarrow> on_lease ws (release_current t x)) (\<lambda>_.
     modify (\<lambda>w. w\<lparr>fw_bindings := filter (\<lambda>e. fst e \<noteq> failover_key t x) (fw_bindings w)\<rparr>)))"

definition fclose :: "surroundings \<Rightarrow> answers \<Rightarrow> string \<Rightarrow> string \<Rightarrow> unit world_eff" where
  "fclose su an t x = bnd (catch_with (bnd (on_manager (manager_close (an_close an) t x)) (\<lambda>_. ret None)) (\<lambda>e. ret (Some e))) (\<lambda>thrown.
     bnd (close_finally su t x) (\<lambda>_. case thrown of None \<Rightarrow> ret () | Some e \<Rightarrow> throw e))"

end
