(* ===== verification/FailoverRuntimeCorrectness.thy ===== *)
theory FailoverRuntimeCorrectness
  imports FailoverRuntime HandoffCorrectness
begin

text \<open>
  The failover runtime: the manager, the lease and the controller agree after a verified switch, and at no
  time does anyone but the controller's executor hold an active lease; what closing releases; and how the
  numbering of failures confuses two prompts.
\<close>

section \<open>Frames\<close>

lemma on_manager_keeps:
  assumes "\<And>w m'. P w \<Longrightarrow> P (w\<lparr>fw_manager := m'\<rparr>)"
  shows "triple P (on_manager m) (\<lambda>_. P) P"
  using assms by (auto simp: triple_def on_manager_def split: prod.splits sum.splits)

lemma on_handoffs_keeps:
  assumes "\<And>w h. P w \<Longrightarrow> P (w\<lparr>fw_handoffs := h\<rparr>)"
  shows "triple P (on_handoffs m) (\<lambda>_. P) P"
  using assms by (auto simp: triple_def on_handoffs_def split: prod.splits sum.splits)

lemma on_part_run:
  "on_manager m w = (case m (fw_manager w) of (r, m') \<Rightarrow> (r, w\<lparr>fw_manager := m'\<rparr>))"
  "on_handoffs h w = (case h (fw_handoffs w) of (q, h') \<Rightarrow> (q, w\<lparr>fw_handoffs := h'\<rparr>))"
  "on_lease ws l w = (case l (fw_leases w ws) of (x, l') \<Rightarrow> (x, w\<lparr>fw_leases := (fw_leases w)(ws := l')\<rparr>))"
  "on_controller n c w = (case c (fb_controller (fobject n w)) of (y, c') \<Rightarrow>
     (y, set_fobject n ((fobject n w)\<lparr>fb_controller := c'\<rparr>) w))"
  by (simp_all add: on_manager_def on_handoffs_def on_lease_def on_controller_def)

lemma fobject_set [simp]: "n < length (fw_objects w) \<Longrightarrow> fobject n (set_fobject n b w) = b"
  by (simp add: fobject_def set_fobject_def)

lemma set_fobject_simps [simp]:
  "fw_manager (set_fobject n b w) = fw_manager w" "fw_leases (set_fobject n b w) = fw_leases w"
  "fw_handoffs (set_fobject n b w) = fw_handoffs w" "length (fw_objects (set_fobject n b w)) = length (fw_objects w)"
  by (simp_all add: set_fobject_def)

lemma fobject_part [simp]:
  "fobject n (w\<lparr>fw_manager := m\<rparr>) = fobject n w" "fobject n (w\<lparr>fw_leases := l\<rparr>) = fobject n w"
  "fobject n (w\<lparr>fw_handoffs := h\<rparr>) = fobject n w"
  by (simp_all add: fobject_def)

section \<open>What the parts promise\<close>

lemma startFromHandoff_result:
  assumes "startFromHandoff ask x i p c m = (Inr s, m')"
  shows "sn_generation s = cr_generation c + 1 \<and> sn_executorId s = x \<and>
    active (ti_taskId i) (ti_executionId i) m' = Some \<lparr>bs_identity = i, bs_policy = p, bs_executorId = x, bs_session = session_ref.truncate s\<rparr>"
proof -
  let ?k = "bindingKey (ti_taskId i) (ti_executionId i)"
  from assms obtain d where b: "start_begin x i p (cr_generation c + 1) (Some c) m = (Inr d, m)"
    and f: "start_finish x d (ask d) m = (Inr s, m')"
    by (auto simp: startFromHandoff_def startWithContext_def Let_def bnd_run lift_res_def split: sum.splits prod.splits
        dest: start_begin_context)
  from start_begin_context [OF b] have d: "sc_identity d = i" "sc_policy d = p" "sc_generation d = cr_generation c + 1" by auto
  from f have s: "assertReturnedSession x (sc_generation d) s = Inr ()"
    "m' = snd (set_binding ?k \<lparr>bd_identity = i, bd_policy = p, bd_executorId = x, bd_session = s, bd_pending = []\<rparr> m)"
    by (auto simp: start_finish_def bnd_run lift_res_def set_binding_def modify_def ret_def d split: sum.splits)
  have "sn_generation s = cr_generation c + 1 \<and> sn_executorId s = x"
    using s(1) by (auto simp: assertReturnedSession_def d split: if_splits)
  then show ?thesis
    using s(2) by (simp add: active_def bound_def set_binding_def modify_def update_conv object_at_def Let_def snapshotIdentity_def)
qed

lemma beginHandoff_result:
  "beginHandoff now l f = (r, f') \<Longrightarrow> (case r of Inl e \<Rightarrow> f' = f | Inr p \<Rightarrow> f' = Some p \<and> wl_state p = HandoffPending \<and>
     wl_generation p = wl_generation l)"
  by (auto simp: beginHandoff_def requireMatch_def bnd_run gets_def require_that_def lift_res_def guard_res_def Let_def modify_def
      ret_def throw_def split: option.splits if_splits)

lemma acceptHandoff_result:
  "acceptHandoff nonce now p k v (Some p) = (r, f') \<Longrightarrow> (case r of Inl e \<Rightarrow> f' = Some p | Inr l \<Rightarrow> f' = Some l \<and> wl_state l = LeaseActive \<and>
     wl_executorId l = k \<and> wl_generation l = hv_generation v)"
  by (auto simp: acceptHandoff_def requireMatch_def bnd_run gets_def require_that_def lift_res_def guard_res_def Let_def modify_def
      ret_def throw_def split: option.splits if_splits)

lemma build_generation:
  "buildHandoffCheckpoint pf gv now i = Inr c \<Longrightarrow> hc_generation c = hi_previousGeneration i + 1"
  by (auto simp: buildHandoffCheckpoint_def res_bind_eq_Inr sign_def unsigned_checkpoint.defs split: if_splits)

lemma abortSwitch_fence: "abortSwitch i c = (r, c') \<Longrightarrow> fence c' = fence c"
  by (auto simp: abortSwitch_def bnd_run gets_def require_that_def lift_res_def guard_res_def modify_def fence_def split: if_splits)

lemma commit_result:
  assumes "fo_pending c = Some (i, a)" "commitVerifiedSwitch i (sw_generation a) c = (r, c')"
  shows "fo_current c' = sw_to a \<and> fo_generation c' = sw_generation a \<and> fo_pending c' = None"
  using assms
  by (auto simp: commitVerifiedSwitch_def bnd_run gets_def modify_def recordSuccess_def provider_def set_provider_def throw_def ret_def
      split: option.splits)

section \<open>The verified switch\<close>

text \<open>Whoever holds the active lease of a workspace is the executor the controller has in charge, under its generation.\<close>

definition writer_in_charge :: "string \<Rightarrow> nat \<Rightarrow> failover_world \<Rightarrow> bool" where
  "writer_in_charge ws n w \<longleftrightarrow> (\<forall>l. fw_leases w ws = Some l \<and> wl_state l = LeaseActive \<longrightarrow>
     wl_executorId l = fo_current (fb_controller (fobject n w)) \<and> wl_generation l = fo_generation (fb_controller (fobject n w)))"

text \<open>During the switch: before the lease is touched, while it is pending, after it was accepted.\<close>

definition waiting :: "string \<Rightarrow> nat \<Rightarrow> failover_binding \<Rightarrow> failover_world \<Rightarrow> bool" where
  "waiting ws n b w \<longleftrightarrow> n < length (fw_objects w) \<and> fobject n w = b \<and> writer_in_charge ws n w"

definition pending_at :: "string \<Rightarrow> nat \<Rightarrow> failover_binding \<Rightarrow> writer_lease \<Rightarrow> failover_world \<Rightarrow> bool" where
  "pending_at ws n b p w \<longleftrightarrow> n < length (fw_objects w) \<and> fobject n w = b \<and> fw_leases w ws = Some p \<and> wl_state p = HandoffPending"

lemma waiting_in_charge: "waiting ws n b w \<Longrightarrow> writer_in_charge ws n w"
  by (simp add: waiting_def)

lemma pending_in_charge: "pending_at ws n b p w \<Longrightarrow> writer_in_charge ws n w"
  by (simp add: pending_at_def writer_in_charge_def)

lemma abort_pending:
  "triple (pending_at ws n b p) (bnd (on_controller n (abortSwitch i)) (\<lambda>_. throw e)) Q (writer_in_charge ws n)"
  by (auto simp: triple_def bnd_run on_part_run throw_def pending_at_def writer_in_charge_def split: prod.splits sum.splits)

text \<open>What a completed switch establishes.\<close>

definition switched :: "string \<Rightarrow> nat \<Rightarrow> task_identity \<Rightarrow> switch_action \<Rightarrow> failover_world \<Rightarrow> bool" where
  "switched ws n i a w \<longleftrightarrow>
     (\<exists>act. active (ti_taskId i) (ti_executionId i) (fw_manager w) = Some act \<and> bs_executorId act = sw_to a \<and>
        sn_generation (bs_session act) = sw_generation a) \<and>
     (\<exists>l. fw_leases w ws = Some l \<and> wl_state l = LeaseActive \<and> wl_executorId l = sw_to a \<and> wl_generation l = sw_generation a \<and>
        fb_lease (fobject n w) = l) \<and>
     fo_current (fb_controller (fobject n w)) = sw_to a \<and> fo_generation (fb_controller (fobject n w)) = sw_generation a \<and>
     fo_pending (fb_controller (fobject n w)) = None"

lemma switched_in_charge: "switched ws n i a w \<Longrightarrow> writer_in_charge ws n w"
  by (auto simp: switched_def writer_in_charge_def)

text \<open>The last three steps, from the accepted lease on.\<close>

lemma transfer_triple:
  assumes "fo_pending (fb_controller b) = Some (eid, a)" "hv_generation v = sw_generation a"
  shows "triple (\<lambda>w. pending_at ws n b p w \<and> active (ti_taskId i) (ti_executionId i) (fw_manager w) = Some act \<and>
      bs_executorId act = sw_to a \<and> sn_generation (bs_session act) = sw_generation a)
    (bnd (on_lease ws (acceptHandoff nonce now p (sw_to a) v)) (\<lambda>lease'.
     bnd (modify (\<lambda>w. set_fobject n ((fobject n w)\<lparr>fb_lease := lease'\<rparr>) w)) (\<lambda>_.
     bnd (on_controller n (commitVerifiedSwitch eid (hv_generation v))) (\<lambda>_. ret c))))
    (\<lambda>_. switched ws n i a) (writer_in_charge ws n)"
  unfolding triple_def
proof (intro allI impI)
  fix w assume w: "pending_at ws n b p w \<and> active (ti_taskId i) (ti_executionId i) (fw_manager w) = Some act \<and>
      bs_executorId act = sw_to a \<and> sn_generation (bs_session act) = sw_generation a"
  let ?body = "bnd (on_lease ws (acceptHandoff nonce now p (sw_to a) v)) (\<lambda>lease'.
     bnd (modify (\<lambda>w. set_fobject n ((fobject n w)\<lparr>fb_lease := lease'\<rparr>) w)) (\<lambda>_.
     bnd (on_controller n (commitVerifiedSwitch eid (hv_generation v))) (\<lambda>_. ret c)))"
  obtain r f where acc: "acceptHandoff nonce now p (sw_to a) v (Some p) = (r, f)" by fastforce
  note res = acceptHandoff_result [OF acc]
  have lease: "fw_leases w ws = Some p" using w by (simp add: pending_at_def)
  show "case ?body w of (Inl e, t) \<Rightarrow> writer_in_charge ws n t | (Inr x, t) \<Rightarrow> switched ws n i a t"
  proof (cases r)
    case (Inl e)
    with res acc lease w show ?thesis
      by (simp add: bnd_run on_part_run) (simp add: pending_at_def writer_in_charge_def)
  next
    case (Inr l)
    let ?b = "b\<lparr>fb_lease := l\<rparr>"
    let ?w = "set_fobject n ?b (w\<lparr>fw_leases := (fw_leases w)(ws := Some l)\<rparr>)"
    obtain q c' where com: "commitVerifiedSwitch eid (sw_generation a) (fb_controller b) = (q, c')" by fastforce
    note cr = commit_result [OF assms(1) com]
    have run: "?body w = (case q of Inl e \<Rightarrow> (Inl e, set_fobject n (?b\<lparr>fb_controller := c'\<rparr>) ?w)
        | Inr _ \<Rightarrow> (Inr c, set_fobject n (?b\<lparr>fb_controller := c'\<rparr>) ?w))"
      using Inr res acc lease w com assms(2)
      by (simp add: bnd_run on_part_run modify_def pending_at_def ret_def split: sum.splits)
    have "switched ws n i a (set_fobject n (?b\<lparr>fb_controller := c'\<rparr>) ?w)"
      using w res Inr cr assms(2) by (simp add: switched_def pending_at_def)
    with run switched_in_charge show ?thesis by (cases q) auto
  qed
qed

lemma triple_gets_known:
  assumes "\<And>w. P w \<Longrightarrow> g w = x" "triple P (m x) Q E"
  shows "triple P (bnd (gets g) m) Q E"
  using assms by (auto simp: triple_def bnd_run gets_def)

lemma triple_gets_any:
  assumes "\<And>x. triple P (m x) Q E"
  shows "triple P (bnd (gets g) m) Q E"
  using assms by (auto simp: triple_def bnd_run gets_def)

lemma triple_lift_then:
  assumes "\<And>x. r = Inr x \<Longrightarrow> triple P (m x) Q E" "\<And>w. P w \<Longrightarrow> E w"
  shows "triple P (bnd (lift_res r) m) Q E"
  using assms by (cases r) (auto intro: triple_throw)

lemma triple_require_then:
  assumes "ok \<Longrightarrow> triple P (m ()) Q E" "\<And>w. P w \<Longrightarrow> E w"
  shows "triple P (bnd (require_that ok e) m) Q E"
  using assms by (cases ok) (auto intro: triple_throw)

lemma begin_triple:
  "triple (waiting ws n b) (on_lease ws (beginHandoff now l)) (pending_at ws n b) (writer_in_charge ws n)"
  unfolding triple_def
proof (intro allI impI)
  fix w assume w: "waiting ws n b w"
  obtain r f where "beginHandoff now l (fw_leases w ws) = (r, f)" by fastforce
  with beginHandoff_result [OF this] w show "case on_lease ws (beginHandoff now l) w of (Inl e, t) \<Rightarrow> writer_in_charge ws n t
      | (Inr p, t) \<Rightarrow> pending_at ws n b p t"
    by (cases r) (simp_all add: on_part_run pending_at_def waiting_def writer_in_charge_def)
qed

lemma restart_triple:
  "triple (pending_at ws n b p) (on_manager (startFromHandoff ask (sw_to a) i pol ref))
     (\<lambda>s w. pending_at ws n b p w \<and> sn_generation s = cr_generation ref + 1 \<and>
        active (ti_taskId i) (ti_executionId i) (fw_manager w) =
          Some \<lparr>bs_identity = i, bs_policy = pol, bs_executorId = sw_to a, bs_session = session_ref.truncate s\<rparr>)
     (writer_in_charge ws n)"
  unfolding triple_def
proof (intro allI impI)
  fix w assume w: "pending_at ws n b p w"
  obtain r m' where run: "startFromHandoff ask (sw_to a) i pol ref (fw_manager w) = (r, m')" by fastforce
  have "pending_at ws n b p (w\<lparr>fw_manager := m'\<rparr>)" using w by (simp add: pending_at_def)
  with run startFromHandoff_result pending_in_charge
  show "case on_manager (startFromHandoff ask (sw_to a) i pol ref) w of (Inl e, t) \<Rightarrow> writer_in_charge ws n t
      | (Inr s, t) \<Rightarrow> pending_at ws n b p t \<and> sn_generation s = cr_generation ref + 1 \<and>
        active (ti_taskId i) (ti_executionId i) (fw_manager t) =
          Some \<lparr>bs_identity = i, bs_policy = pol, bs_executorId = sw_to a, bs_session = session_ref.truncate s\<rparr>"
    by (cases r) (fastforce simp: on_part_run)+
qed

lemma verifiedSwitch_triple:
  assumes pend: "fo_pending (fb_controller b) = Some (eid, a)" and ws: "ws = workspace_of su (fb_identity b)"
  shows "triple (waiting ws n b) (verifiedSwitch su an n eid a f inp) (\<lambda>_. switched ws n (fb_identity b) a) (writer_in_charge ws n)"
proof -
  let ?i = "fb_identity b" and ?pf = "su_platform su"
  have keep: "pending_at ws n b p (w\<lparr>fw_manager := m'\<rparr>)" "pending_at ws n b p (w\<lparr>fw_handoffs := h\<rparr>)" if "pending_at ws n b p w" for p w m' h
    using that by (simp_all add: pending_at_def)
  have on_m: "triple (pending_at ws n b p) (on_manager m) (\<lambda>_. pending_at ws n b p) (writer_in_charge ws n)" for p and m :: "unit manager_eff"
    by (rule triple_conseq [OF on_manager_keeps [of "pending_at ws n b p"]]) (auto intro: keep pending_in_charge)
  have on_h: "triple (pending_at ws n b p) (on_handoffs h) (\<lambda>_. pending_at ws n b p) (writer_in_charge ws n)"
    for p and h :: "(handoff_files, checkpoint_path) eff"
    by (rule triple_conseq [OF on_handoffs_keeps [of "pending_at ws n b p"]]) (auto intro: keep pending_in_charge)
  show ?thesis
    unfolding verifiedSwitch_def Let_def
  proof (rule triple_gets_known [where x = ?i], simp add: waiting_def,
         rule triple_gets_known [where x = "fb_policy b"], simp add: waiting_def,
         rule triple_gets_known [where x = "fb_lease b"], simp add: waiting_def,
         rule triple_gets_any, fold ws, rule triple_option, goal_cases)
    case (1 found)
    show ?case by (rule triple_throw) (rule waiting_in_charge)
  next
    case (2 found act)
    show ?case
    proof (rule triple_require_then [OF _ waiting_in_charge], rule triple_bnd [OF begin_triple],
           rule triple_lift_then [OF _ pending_in_charge], rule triple_lift_then [OF _ pending_in_charge],
           rule triple_bnd [OF on_h], rule triple_lift_then [OF _ pending_in_charge], rule triple_if [OF abort_pending],
           rule triple_bnd [OF on_m], rule triple_bnd [OF restart_triple], goal_cases)
      case (1 pnd before c _ observed _ s)
      let ?v = "verifyHandoff ?pf c (observed_workspace.truncate observed)"
      have gen: "hv_generation ?v = sn_generation (bs_session act) + 1"
        using build_generation [OF 1(3)] by (simp add: verifyHandoff_def Let_def handoff_request_def)
      show ?case
      proof (rule triple_if)
        show "triple (\<lambda>w. pending_at ws n b pnd w \<and> sn_generation s = cr_generation (checkpoint_reference c (sn_generation (bs_session act))) + 1 \<and>
            active (ti_taskId ?i) (ti_executionId ?i) (fw_manager w) = Some \<lparr>bs_identity = ?i, bs_policy = fb_policy b,
              bs_executorId = sw_to a, bs_session = session_ref.truncate s\<rparr>)
          (bnd (on_controller n (abortSwitch eid)) (\<lambda>_. throw (Error ''new executor generation does not match planned failover generation'')))
          (\<lambda>_. switched ws n ?i a) (writer_in_charge ws n)"
          by (rule triple_pre [OF abort_pending]) blast
        assume g: "\<not> sn_generation s \<noteq> sw_generation a"
        show "triple (\<lambda>w. pending_at ws n b pnd w \<and> sn_generation s = cr_generation (checkpoint_reference c (sn_generation (bs_session act))) + 1 \<and>
            active (ti_taskId ?i) (ti_executionId ?i) (fw_manager w) = Some \<lparr>bs_identity = ?i, bs_policy = fb_policy b,
              bs_executorId = sw_to a, bs_session = session_ref.truncate s\<rparr>)
          (bnd (on_lease ws (acceptHandoff (an_nonce an) (an_nowIso an) pnd (sw_to a) ?v)) (\<lambda>lease'.
            bnd (modify (\<lambda>w. set_fobject n ((fobject n w)\<lparr>fb_lease := lease'\<rparr>) w)) (\<lambda>_.
            bnd (on_controller n (commitVerifiedSwitch eid (hv_generation ?v))) (\<lambda>_. ret c))))
          (\<lambda>_. switched ws n ?i a) (writer_in_charge ws n)"
        proof (cases "sn_generation s = sn_generation (bs_session act) + 1")
          case True
          then have "hv_generation ?v = sw_generation a" using gen g by simp
          from transfer_triple [OF pend this] show ?thesis
            by (rule triple_pre) (use g in \<open>auto simp: session_ref.truncate_def\<close>)
        qed (simp add: triple_def checkpoint_reference_def)
      qed
    qed
  qed
qed

section \<open>Closing\<close>

lemma release_current_result:
  "snd (release_current t x f) = (case f of Some c \<Rightarrow> if wl_taskId c = t \<and> wl_executionId c = x then None else Some c | None \<Rightarrow> None)"
  "\<exists>u. fst (release_current t x f) = Inr u"
  by (auto simp: release_current_def release_def requireMatch_def bnd_run gets_def require_that_def lift_res_def guard_res_def
      modify_def ret_def split: option.splits)

lemma fclose_run:
  assumes "map_of (fw_bindings w) (failover_key t x) = Some r"
  shows "\<exists>q m'. manager_close (an_close an) t x (fw_manager w) = (q, m') \<and> fst (fclose su an t x w) = q \<and>
    snd (fclose su an t x w) = (let ws = workspace_of su (fb_identity (fobject r w)) in
      w\<lparr>fw_manager := m', fw_leases := (fw_leases w)(ws := snd (release_current t x (fw_leases w ws))),
        fw_bindings := filter (\<lambda>e. fst e \<noteq> failover_key t x) (fw_bindings w)\<rparr>)"
proof -
  let ?ws = "workspace_of su (fb_identity (fobject r w))"
  obtain q m' where m: "manager_close (an_close an) t x (fw_manager w) = (q, m')" by fastforce
  obtain u where rel: "release_current t x (fw_leases w ?ws) = (Inr u, snd (release_current t x (fw_leases w ?ws)))"
    using release_current_result(2) by (metis prod.collapse)
  show ?thesis
    using m assms
    by (cases q; intro exI [of _ q] exI [of _ m'])
       (simp_all add: fclose_def catch_with_def bnd_run on_part_run close_finally_def gets_def ret_def throw_def modify_def
         Let_def, (subst rel, simp)+)
qed

section \<open>Properties\<close>

text \<open>C4: A verified switch transfers the authority as a whole or not to anyone else: whatever it throws and wherever,
  an active lease of the workspace belongs to the executor the controller has in charge, under its
  generation; and when it returns, the bound session, the active lease, the binding's copy of it and the
  controller all name the new executor and the generation the switch announced.\<close>

theorem verified_switch_transfers_authority:
  assumes "n < length (fw_objects w)" "fo_pending (fb_controller (fobject n w)) = Some (eid, a)"
    and "writer_in_charge (workspace_of su (fb_identity (fobject n w))) n w"
    and "verifiedSwitch su an n eid a f inp w = (r, w')"
  shows "writer_in_charge (workspace_of su (fb_identity (fobject n w))) n w' \<and>
    (\<forall>c. r = Inr c \<longrightarrow> switched (workspace_of su (fb_identity (fobject n w))) n (fb_identity (fobject n w)) a w')"
proof -
  let ?b = "fobject n w" and ?ws = "workspace_of su (fb_identity (fobject n w))"
  have "waiting ?ws n ?b w" using assms(1,3) by (simp add: waiting_def)
  note t = verifiedSwitch_triple [of ?b eid a ?ws su n an f inp, OF assms(2) refl]
  show ?thesis
    using tripleD_ok [OF t \<open>waiting ?ws n ?b w\<close>] tripleD_err [OF t \<open>waiting ?ws n ?b w\<close>] assms(4) switched_in_charge
    by (cases r) blast+
qed

text \<open>Closing a bound task execution always removes its binding and frees its workspace, even when the executor
  refuses to close and the operation throws; a lease of another task execution stays as it is.\<close>

theorem close_frees_workspace:
  assumes "map_of (fw_bindings w) (failover_key t x) = Some r" "fclose su an t x w = (q, w')"
  shows "map_of (fw_bindings w') (failover_key t x) = None \<and>
    fw_leases w' (workspace_of su (fb_identity (fobject r w))) =
      (case fw_leases w (workspace_of su (fb_identity (fobject r w))) of None \<Rightarrow> None
       | Some l \<Rightarrow> if wl_taskId l = t \<and> wl_executionId l = x then None else Some l)"
proof -
  from fclose_run [OF assms(1), of an su] assms(2) obtain m' where
    "w' = w\<lparr>fw_manager := m', fw_leases := (fw_leases w)(workspace_of su (fb_identity (fobject r w)) :=
      snd (release_current t x (fw_leases w (workspace_of su (fb_identity (fobject r w)))))),
      fw_bindings := filter (\<lambda>e. fst e \<noteq> failover_key t x) (fw_bindings w)\<rparr>"
    by (auto simp: Let_def)
  then show ?thesis by (simp add: map_of_filter_ne release_current_result(1) split: option.splits)
qed

section \<open>A run with two executors\<close>

definition run_platform :: platform where
  "run_platform = \<lparr>pf_resolve = (\<lambda>w. ''/w''), pf_resolveIn = (\<lambda>w p. ''/w/'' @ p), pf_sep = CHR ''/'',
     pf_checkpointHash = (\<lambda>u. replicate 64 CHR ''a''), pf_fingerprint = (\<lambda>x. ''f''), pf_sortPaths = (\<lambda>xs. xs), pf_sha256 = (\<lambda>s. s)\<rparr>"

definition run_config :: failover_config where
  "run_config = \<lparr>fc_candidates = [''codex'', ''claude''], fc_automaticFailover = True, fc_maxRetries = 1,
     fc_providerCooldownMs = 1000, fc_circuitFailureThreshold = 3, fc_circuitOpenMs = 5000, fc_switchOnAuthRequired = False,
     fc_returnToPrimaryAfterStage = False, fc_maxProcessedEvents = None\<rparr>"

definition run_surroundings :: surroundings where
  "run_surroundings = \<lparr>su_platform = run_platform, su_config = run_config, su_showCheckpoint = (\<lambda>c. ''{}'')\<rparr>"

definition run_git :: "string \<Rightarrow> git_view" where
  "run_git head = \<lparr>gv_prefix = [], gv_branch = ''main'', gv_head = head, gv_porcelain = [], gv_diff = [], gv_stat = (\<lambda>p. None)\<rparr>"

definition run_answers :: "string \<Rightarrow> string \<Rightarrow> answers" where
  "run_answers k head = \<lparr>an_nowMs = 5, an_nowIso = ''now'', an_nonce = ''n'', an_before = run_git ''abc'', an_build = run_git ''abc'',
     an_after = run_git head, an_close = Inr (),
     an_start = (\<lambda>c. Inr \<lparr>sn_executorId = k, sn_sessionId = k, sn_generation = sc_generation c, sn_startedAt = ''now''\<rparr>)\<rparr>"

definition run_identity :: task_identity where
  "run_identity = \<lparr>ti_taskId = ''t1'', ti_executionId = ''x1'', ti_workspace = ''/w'', ti_repoIdentity = None, ti_branch = None,
     ti_objective = ''fix'', ti_constraints = [], ti_acceptanceCriteria = [], ti_control = None\<rparr>"

definition run_registry :: registry where
  "run_registry = [(''codex'', \<lparr>xd_id = ''codex'', xd_kind = NativeCodex, xd_label = ''Codex''\<rparr>),
     (''claude'', \<lparr>xd_id = ''claude'', xd_kind = ExternalAgent, xd_label = ''Claude''\<rparr>)]"

definition run_empty :: failover_world where
  "run_empty = \<lparr>fw_manager = new_manager run_registry, fw_leases = (\<lambda>_. None), fw_handoffs = (\<lambda>_. None), fw_bindings = [],
     fw_objects = [], fw_output = []\<rparr>"

definition run_started :: failover_world where
  "run_started = snd (fstart run_surroundings (run_answers ''codex'' ''abc'') ''codex'' run_identity
     \<lparr>pc_permissionProfile = StandardProfile, pc_approvalRequired = False\<rparr> run_empty)"

definition run_failure :: executor_failure where
  "run_failure = \<lparr>xf_code = QuotaExhausted, xf_message = ''quota'', xf_source = ''codex''\<rparr>"

definition run_input :: executor_input where
  "run_input = \<lparr>in_clientRequestId = ''r1'', in_text = ''go''\<rparr>"

text \<open>One prompt in which the session reports that its quota is exhausted; \<open>head\<close> is what git says at the end of the handoff.\<close>

definition run_prompt :: "string \<Rightarrow> prompt_state world_eff" where
  "run_prompt head = fprompt run_surroundings ''t1'' ''x1'' run_input
     [[(\<lparr>xe_sequence = 1, xe_at = ''now'', xe_body = FailureEvent (failure_json run_failure)\<rparr>, run_answers ''claude'' head)]]"

text \<open>What the three parts say of the first binding: the bound executor, the lease, the controller.\<close>

definition authority :: "failover_world \<Rightarrow> (string \<times> int) option \<times> (lease_state \<times> string \<times> int) option \<times> string \<times> int" where
  "authority w = (map_option (\<lambda>b. (bs_executorId b, sn_generation (bs_session b))) (active ''t1'' ''x1'' (fw_manager w)),
     map_option (\<lambda>l. (wl_state l, wl_executorId l, wl_generation l)) (fw_leases w ''/w''),
     fo_current (fb_controller (fobject 0 w)), fo_generation (fb_controller (fobject 0 w)))"

definition run_planned :: failover_world where
  "run_planned = snd (on_controller 0 (onFailure (failure_event_id ''t1'' ''x1'' 1 QuotaExhausted) run_failure 5) run_started)"

definition run_action :: switch_action where
  "run_action = \<lparr>sw_from = ''codex'', sw_to = ''claude'', sw_generation = 2, sw_reason = FailedWith QuotaExhausted\<rparr>"

lemma verified_switch_transfers_authority_witness:
  "let q = verifiedSwitch run_surroundings (run_answers ''claude'' ''abc'') 0 (failure_event_id ''t1'' ''x1'' 1 QuotaExhausted)
       run_action run_failure run_input run_planned
   in isInr (fst q) \<and> switched ''/w'' 0 run_identity run_action (snd q)"
proof -
  let ?eid = "failure_event_id ''t1'' ''x1'' 1 QuotaExhausted"
  define q where "q = verifiedSwitch run_surroundings (run_answers ''claude'' ''abc'') 0 ?eid run_action run_failure run_input run_planned"
  have h: "0 < length (fw_objects run_planned)" "fo_pending (fb_controller (fobject 0 run_planned)) = Some (?eid, run_action)"
    "fb_identity (fobject 0 run_planned) = run_identity" "workspace_of run_surroundings run_identity = ''/w''"
    "authority run_planned = (Some (''codex'', 1), Some (LeaseActive, ''codex'', 1), ''codex'', 1)"
    by code_simp+
  have c: "writer_in_charge (workspace_of run_surroundings (fb_identity (fobject 0 run_planned))) 0 run_planned"
    using h(5) by (auto simp: writer_in_charge_def authority_def h(3,4))
  have ok: "isInr (fst q)" unfolding q_def by code_simp
  then obtain ck where "fst q = Inr ck" using isInr_the by blast
  then have "verifiedSwitch run_surroundings (run_answers ''claude'' ''abc'') 0 ?eid run_action run_failure run_input run_planned = (Inr ck, snd q)"
    unfolding q_def by (metis prod.collapse)
  from verified_switch_transfers_authority [OF h(1,2) c this] have "switched ''/w'' 0 run_identity run_action (snd q)"
    unfolding h(3,4) by blast
  with ok show ?thesis unfolding Let_def q_def by blast
qed

lemma close_frees_workspace_witness:
  "let an = (run_answers ''codex'' ''abc'')\<lparr>an_close := Inl (Error ''stuck'')\<rparr>; q = fclose run_surroundings an ''t1'' ''x1'' run_started
   in fst q = Inl (Error ''stuck'') \<and> fw_leases run_started ''/w'' \<noteq> None \<and> fw_leases (snd q) ''/w'' = None"
proof -
  define an where "an = (run_answers ''codex'' ''abc'')\<lparr>an_close := Inl (Error ''stuck'')\<rparr>"
  define q where "q = fclose run_surroundings an ''t1'' ''x1'' run_started"
  have h: "map_of (fw_bindings run_started) (failover_key ''t1'' ''x1'') = Some 0" "fst q = Inl (Error ''stuck'')"
    "map_option (\<lambda>l. (wl_taskId l, wl_executionId l)) (fw_leases run_started ''/w'') = Some (''t1'', ''x1'')"
    "workspace_of run_surroundings (fb_identity (fobject 0 run_started)) = ''/w''"
    unfolding q_def an_def by code_simp+
  have "fclose run_surroundings an ''t1'' ''x1'' run_started = (fst q, snd q)" by (simp add: q_def)
  from close_frees_workspace [OF h(1) this] h show ?thesis
    unfolding Let_def q_def an_def by (auto split: option.splits if_splits)
qed

text \<open>Failures are numbered from one again in every prompt, so a failure of a later prompt can meet the decision
  made about an earlier one. When the earlier switch was planned but its handoff was rejected, the replayed
  decision is carried out although nothing is pending: the session and the active lease go to the other
  executor, the commit is refused, and the controller stays with the executor that lost the workspace.\<close>

lemma replayed_failure_splits_authority:
  "let w1 = snd (run_prompt ''moved'' run_started); q = run_prompt ''abc'' w1 in
   fst (run_prompt ''moved'' run_started) = Inl (Error ''handoff verification rejected: HEAD mismatch'') \<and>
   authority w1 = (Some (''codex'', 1), Some (HandoffPending, ''codex'', 1), ''codex'', 1) \<and>
   fst q = Inl (Error ''no matching pending switch'') \<and>
   authority (snd q) = (Some (''claude'', 2), Some (LeaseActive, ''claude'', 2), ''codex'', 1)"
proof -
  have "fst (run_prompt ''moved'' run_started) = Inl (Error ''handoff verification rejected: HEAD mismatch'')" by code_simp
  moreover have "authority (snd (run_prompt ''moved'' run_started)) = (Some (''codex'', 1), Some (HandoffPending, ''codex'', 1), ''codex'', 1)"
    by code_simp
  moreover have "fst (run_prompt ''abc'' (snd (run_prompt ''moved'' run_started))) = Inl (Error ''no matching pending switch'')" by code_simp
  moreover have "authority (snd (run_prompt ''abc'' (snd (run_prompt ''moved'' run_started)))) =
      (Some (''claude'', 2), Some (LeaseActive, ''claude'', 2), ''codex'', 1)" by code_simp
  ultimately show ?thesis unfolding Let_def by blast
qed

end
