(* ===== verification/GroupContracts.thy ===== *)
theory GroupContracts
  imports DurableJson
begin

text \<open>
  \<open>group-runtime/contracts/contract-types.ts\<close> and \<open>state-machine.ts\<close>: what a development group, its
  requirements, sessions, waves, deliveries and proofs are, and how the status of a group and of a session
  may change. Both tables interpret \<open>transition_table\<close>.
\<close>

section \<open>Contracts\<close>

definition ZERO3_DEVELOPMENT_GROUP_CONTRACT :: string where
  "ZERO3_DEVELOPMENT_GROUP_CONTRACT = ''zero3.pilot.development-group.v1''"

definition ZERO3_DEVELOPMENT_SESSION_CONTRACT :: string where
  "ZERO3_DEVELOPMENT_SESSION_CONTRACT = ''zero3.pilot.development-session.v1''"

definition ZERO3_DEVELOPMENT_DELIVERY_CONTRACT :: string where
  "ZERO3_DEVELOPMENT_DELIVERY_CONTRACT = ''zero3.pilot.development-delivery.v1''"

definition ZERO3_GROUP_COMPLETION_PROOF :: string where
  "ZERO3_GROUP_COMPLETION_PROOF = ''zero3.pilot.group-completion-proof.v1''"

section \<open>Statuses\<close>

datatype group_status =
    GDraft | GPlanning | GPlanReview | GReady | GRunning | GIntegrating
  | GVerifying | GRepairing | GPaused | GBlocked | GWaitingApproval | GWaitingHuman
  | GOutcomeUnknown | GCompleted | GCancelled | GFailed

fun group_status_text :: "group_status \<Rightarrow> string" where
  "group_status_text GDraft = ''draft''"
| "group_status_text GPlanning = ''planning''"
| "group_status_text GPlanReview = ''plan_review''"
| "group_status_text GReady = ''ready''"
| "group_status_text GRunning = ''running''"
| "group_status_text GIntegrating = ''integrating''"
| "group_status_text GVerifying = ''verifying''"
| "group_status_text GRepairing = ''repairing''"
| "group_status_text GPaused = ''paused''"
| "group_status_text GBlocked = ''blocked''"
| "group_status_text GWaitingApproval = ''waiting_approval''"
| "group_status_text GWaitingHuman = ''waiting_human''"
| "group_status_text GOutcomeUnknown = ''outcome_unknown''"
| "group_status_text GCompleted = ''completed''"
| "group_status_text GCancelled = ''cancelled''"
| "group_status_text GFailed = ''failed''"

datatype session_status =
    DPlanned | DWaitingDependencies | DReady | DStarting | DRunning | DWaitingInput
  | DDelivering | DDelivered | DIntegrating | DIntegrated | DVerified | DPaused
  | DBlocked | DOutcomeUnknown | DFailed | DCancelled | DSuperseded

fun session_status_text :: "session_status \<Rightarrow> string" where
  "session_status_text DPlanned = ''planned''"
| "session_status_text DWaitingDependencies = ''waiting_dependencies''"
| "session_status_text DReady = ''ready''"
| "session_status_text DStarting = ''starting''"
| "session_status_text DRunning = ''running''"
| "session_status_text DWaitingInput = ''waiting_input''"
| "session_status_text DDelivering = ''delivering''"
| "session_status_text DDelivered = ''delivered''"
| "session_status_text DIntegrating = ''integrating''"
| "session_status_text DIntegrated = ''integrated''"
| "session_status_text DVerified = ''verified''"
| "session_status_text DPaused = ''paused''"
| "session_status_text DBlocked = ''blocked''"
| "session_status_text DOutcomeUnknown = ''outcome_unknown''"
| "session_status_text DFailed = ''failed''"
| "session_status_text DCancelled = ''cancelled''"
| "session_status_text DSuperseded = ''superseded''"

datatype coverage_state =
    CPlanned | CAssigned | CImplemented | CTested | CIntegrated | CVerified
  | CBlocked | CWaived

fun coverage_state_text :: "coverage_state \<Rightarrow> string" where
  "coverage_state_text CPlanned = ''planned''"
| "coverage_state_text CAssigned = ''assigned''"
| "coverage_state_text CImplemented = ''implemented''"
| "coverage_state_text CTested = ''tested''"
| "coverage_state_text CIntegrated = ''integrated''"
| "coverage_state_text CVerified = ''verified''"
| "coverage_state_text CBlocked = ''blocked''"
| "coverage_state_text CWaived = ''waived''"

fun GROUP_TRANSITIONS :: "group_status \<Rightarrow> group_status list" where
  "GROUP_TRANSITIONS GDraft = [GPlanning, GCancelled]"
| "GROUP_TRANSITIONS GPlanning = [GPlanReview, GBlocked, GCancelled, GFailed]"
| "GROUP_TRANSITIONS GPlanReview = [GPlanning, GReady, GWaitingApproval, GCancelled]"
| "GROUP_TRANSITIONS GReady = [GRunning, GPaused, GCancelled]"
| "GROUP_TRANSITIONS GRunning = [GIntegrating, GPaused, GBlocked, GWaitingApproval, GWaitingHuman, GOutcomeUnknown, GCancelled, GFailed]"
| "GROUP_TRANSITIONS GIntegrating = [GRunning, GVerifying, GRepairing, GPaused, GBlocked, GWaitingHuman, GOutcomeUnknown, GCancelled, GFailed]"
| "GROUP_TRANSITIONS GVerifying = [GCompleted, GRepairing, GPaused, GBlocked, GWaitingHuman, GOutcomeUnknown, GCancelled, GFailed]"
| "GROUP_TRANSITIONS GRepairing = [GIntegrating, GVerifying, GPaused, GBlocked, GWaitingHuman, GOutcomeUnknown, GCancelled, GFailed]"
| "GROUP_TRANSITIONS GPaused = [GPlanning, GReady, GRunning, GIntegrating, GVerifying, GRepairing, GCancelled]"
| "GROUP_TRANSITIONS GBlocked = [GPlanning, GReady, GRunning, GIntegrating, GVerifying, GRepairing, GWaitingHuman, GCancelled, GFailed]"
| "GROUP_TRANSITIONS GWaitingApproval = [GPlanReview, GRunning, GIntegrating, GVerifying, GRepairing, GWaitingHuman, GCancelled]"
| "GROUP_TRANSITIONS GWaitingHuman = [GPlanning, GReady, GRunning, GIntegrating, GVerifying, GRepairing, GCancelled, GFailed]"
| "GROUP_TRANSITIONS GOutcomeUnknown = [GWaitingHuman, GCancelled, GFailed]"
| "GROUP_TRANSITIONS GCompleted = []"
| "GROUP_TRANSITIONS GCancelled = []"
| "GROUP_TRANSITIONS GFailed = []"

fun SESSION_TRANSITIONS :: "session_status \<Rightarrow> session_status list" where
  "SESSION_TRANSITIONS DPlanned = [DWaitingDependencies, DReady, DCancelled, DSuperseded]"
| "SESSION_TRANSITIONS DWaitingDependencies = [DReady, DBlocked, DCancelled, DSuperseded]"
| "SESSION_TRANSITIONS DReady = [DStarting, DPaused, DCancelled, DSuperseded]"
| "SESSION_TRANSITIONS DStarting = [DRunning, DBlocked, DOutcomeUnknown, DFailed, DCancelled]"
| "SESSION_TRANSITIONS DRunning = [DWaitingInput, DDelivering, DPaused, DBlocked, DOutcomeUnknown, DFailed, DCancelled]"
| "SESSION_TRANSITIONS DWaitingInput = [DRunning, DPaused, DBlocked, DOutcomeUnknown, DFailed, DCancelled]"
| "SESSION_TRANSITIONS DDelivering = [DDelivered, DBlocked, DOutcomeUnknown, DFailed, DCancelled]"
| "SESSION_TRANSITIONS DDelivered = [DIntegrating, DBlocked, DSuperseded]"
| "SESSION_TRANSITIONS DIntegrating = [DIntegrated, DBlocked, DFailed, DSuperseded]"
| "SESSION_TRANSITIONS DIntegrated = [DVerified, DBlocked, DFailed, DSuperseded]"
| "SESSION_TRANSITIONS DVerified = []"
| "SESSION_TRANSITIONS DPaused = [DWaitingDependencies, DReady, DRunning, DWaitingInput, DDelivering, DCancelled, DSuperseded]"
| "SESSION_TRANSITIONS DBlocked = [DWaitingDependencies, DReady, DRunning, DDelivering, DCancelled, DFailed, DSuperseded]"
| "SESSION_TRANSITIONS DOutcomeUnknown = [DCancelled, DFailed, DSuperseded]"
| "SESSION_TRANSITIONS DFailed = [DReady, DSuperseded]"
| "SESSION_TRANSITIONS DCancelled = []"
| "SESSION_TRANSITIONS DSuperseded = []"

definition isValidGroupTransition :: "group_status \<Rightarrow> group_status \<Rightarrow> bool" where
  "isValidGroupTransition from to \<longleftrightarrow> from = to \<or> to \<in> set (GROUP_TRANSITIONS from)"

definition isValidSessionTransition :: "session_status \<Rightarrow> session_status \<Rightarrow> bool" where
  "isValidSessionTransition from to \<longleftrightarrow> from = to \<or> to \<in> set (SESSION_TRANSITIONS from)"

interpretation group_table: transition_table GROUP_TRANSITIONS isValidGroupTransition
  by unfold_locales (rule isValidGroupTransition_def)

interpretation session_table: transition_table SESSION_TRANSITIONS isValidSessionTransition
  by unfold_locales (rule isValidSessionTransition_def)

section \<open>Records\<close>

datatype profile_kind = GReadOnly | GStandard | GElevated | GFullControl

datatype command_platform = AnyPlatform | WindowsOnly | LinuxOnly | MacosOnly

datatype completion_mode = StrictCompletion | AllowExplicitWaiver

datatype delivery_status = DeliveryCompleted | DeliveryBlocked | DeliveryFailed | DeliveryCancelled | DeliveryOutcomeUnknown

datatype milestone_status = MilestonePending | MilestoneMerged | MilestoneConflict | MilestoneFailed

datatype result_status = ResultPassed | ResultFailed | ResultNotRun | ResultNotRunPlatform

datatype run_status = RunPending | RunRunning | RunPassed | RunFailed | RunOutcomeUnknown

datatype integration_status = IntegrationClean | IntegrationConflict | IntegrationFailed

datatype verification_status = VerificationPassed | VerificationFailed | VerificationNotRun

record group_policy =
  gp_maxParallelSessions :: int
  gp_maxSessionAttempts :: int
  gp_maxRepairSessions :: int
  gp_maxRepairWaves :: int
  gp_maxSameFailureAttempts :: int
  gp_maxSessionSubagents :: int
  gp_permissionProfile :: profile_kind
  gp_completionMode :: completion_mode
  gp_verificationPolicyRevision :: string
  gp_targetBranch :: string
  gp_protectedPaths :: "string list"
  gp_mandatoryTests :: "string list"

record group_definition =
  gd_contract :: string
  gd_groupId :: string
  gd_repository :: string
  gd_masterGoal :: string
  gd_masterPrompt :: string
  gd_developmentPlan :: string
  gd_planHash :: string
  gd_baselineSha :: string
  gd_integrationRef :: string
  gd_requirementIds :: "string list"
  gd_waveIds :: "string list"
  gd_sessionIds :: "string list"
  gd_policy :: group_policy
  gd_createdAt :: string

record requirement =
  rq_groupId :: string
  rq_requirementId :: string
  rq_title :: string
  rq_description :: string
  rq_mandatory :: bool
  rq_acceptanceCriteria :: "string list"
  rq_sourceAnchor :: string
  rq_proposedOwner :: "string option"
  rq_dependencies :: "string list"
  rq_undefined :: "string list"  \<comment> \<open>the keys that are there with the value \<open>undefined\<close>\<close>

record waiver =
  wv_approvedBy :: string
  wv_approvedAt :: string
  wv_reason :: string
  wv_evidence :: "string list"

record coverage =
  cv_requirementId :: string
  cv_state :: coverage_state
  cv_sessionId :: "string option"
  cv_deliveryHash :: "string option"
  cv_commitSha :: "string option"
  cv_testEvidenceIds :: "string list"
  cv_integrationRunId :: "string option"
  cv_verificationRunId :: "string option"
  cv_waiver :: "waiver option"

record wave =
  wa_groupId :: string
  wa_waveId :: string
  wa_ordinal :: int
  wa_sessionIds :: "string list"
  wa_requiredSessionIds :: "string list"
  wa_dependsOnWaveIds :: "string list"

record executor_policy =
  ep_executorId :: string
  ep_permissionProfile :: profile_kind
  ep_approvalRequired :: bool

record subagent_policy =
  sp_allowed :: bool
  sp_maxConcurrency :: int
  sp_recursiveGroupCreation :: bool

record delivery_policy =
  dp_requireCleanHead :: bool
  dp_requireOwnershipValidation :: bool
  dp_requireHandoff :: bool
  dp_requireDeliveryHash :: bool

record session_definition =
  se_contract :: string
  se_groupId :: string
  se_sessionId :: string
  se_executionId :: string
  se_waveId :: string
  se_objective :: string
  se_baselineSha :: string
  se_integrationRef :: string
  se_branch :: string
  se_worktree :: string
  se_ownedPaths :: "string list"
  se_readOnlyPaths :: "string list"
  se_forbiddenPaths :: "string list"
  se_dependencies :: "string list"
  se_requirements :: "string list"
  se_inputs :: "string list"
  se_acceptanceCriteria :: "string list"
  se_executorPolicy :: executor_policy
  se_subagentPolicy :: subagent_policy
  se_deliveryPolicy :: delivery_policy

record session_runtime =
  sr_groupId :: string
  sr_sessionId :: string
  sr_executionId :: string
  sr_status :: session_status
  sr_attempt :: int
  sr_writerGeneration :: int
  sr_executorId :: "string option"
  sr_executorSessionId :: "string option"
  sr_executorGeneration :: "int option"
  sr_headSha :: "string option"
  sr_lastEventSequence :: int
  sr_blocker :: "string option"
  sr_updatedAt :: string
  sr_undefined :: "string list"  \<comment> \<open>the keys that are there with the value \<open>undefined\<close>\<close>

record delivery =
  dl_contract :: string
  dl_groupId :: string
  dl_sessionId :: string
  dl_executionId :: string
  dl_status :: delivery_status
  dl_baseSha :: string
  dl_headSha :: string
  dl_changedPaths :: "string list"
  dl_requirements :: "string list"
  dl_testsAdded :: "string list"
  dl_testsExecuted :: "string list"
  dl_artifacts :: "string list"
  dl_knownIssues :: "string list"
  dl_downstreamNotes :: "string list"
  dl_handoffCheckpoint :: "string option"
  dl_deliveryHash :: string
  dl_createdAt :: string

record milestone =
  ml_integrationRunId :: string
  ml_groupId :: string
  ml_baseSha :: string
  ml_headSha :: string
  ml_deliveryHashes :: "string list"
  ml_mergedSessionIds :: "string list"
  ml_status :: milestone_status
  ml_conflicts :: "string list"
  ml_createdAt :: string

record verification_command =
  vc_id :: string
  vc_command :: string
  vc_cwd :: "string option"
  vc_platform :: command_platform
  vc_required :: bool

record verification_result =
  vr_commandId :: string
  vr_status :: result_status
  vr_exitCode :: "int option"
  vr_evidence :: "string list"

record verification_run =
  vn_runId :: string
  vn_groupId :: string
  vn_integrationSha :: string
  vn_policyRevision :: string
  vn_commands :: "verification_command list"
  vn_results :: "verification_result list"
  vn_environment :: "(string \<times> string) list"
  vn_startedAt :: string
  vn_finishedAt :: "string option"
  vn_status :: run_status

record delivery_coverage =
  dc_sessionId :: string
  dc_deliveryHash :: string
  dc_valid :: bool

record completion_proof =
  cp_contract :: string
  cp_groupId :: string
  cp_requirementCoverage :: "coverage list"
  cp_sessionDeliveryCoverage :: "delivery_coverage list"
  cp_integrationStatus :: integration_status
  cp_verificationStatus :: verification_status
  cp_unresolvedBlockers :: "string list"
  cp_outcomeUnknownCount :: int
  cp_finalIntegrationSha :: string
  cp_verificationEvidence :: "string list"
  cp_completionPolicyRevision :: string
  cp_generatedAt :: string

section \<open>What the tables promise\<close>

text \<open>A group whose outcome is unknown only moves on through a human, or ends.\<close>

lemma group_outcome_unknown_gate:
  assumes "(\<lambda>x y. isValidGroupTransition x y \<and> y \<noteq> GWaitingHuman)\<^sup>*\<^sup>* GOutcomeUnknown s"
  shows "s \<in> {GOutcomeUnknown, GCancelled, GFailed}"
proof -
  have "(\<lambda>x y. isValidGroupTransition x y \<and> y \<notin> {GWaitingHuman})\<^sup>*\<^sup>* GOutcomeUnknown s" using assms by simp
  then show ?thesis by (rule group_table.run_through_gate) auto
qed

text \<open>A session is verified only after it was delivered and integrated.\<close>

lemma session_before_delivered:
  assumes "(\<lambda>x y. isValidSessionTransition x y \<and> y \<noteq> DDelivered)\<^sup>*\<^sup>* s t" "s \<notin> {DDelivered, DIntegrating, DIntegrated, DVerified}"
  shows "t \<notin> {DDelivered, DIntegrating, DIntegrated, DVerified}"
proof -
  have run: "(\<lambda>x y. isValidSessionTransition x y \<and> y \<notin> {DDelivered})\<^sup>*\<^sup>* s t" using assms(1) by simp
  have "t \<in> - {DDelivered, DIntegrating, DIntegrated, DVerified}"
  proof (rule session_table.run_through_gate [OF run])
    fix x y assume "x \<in> - {DDelivered, DIntegrating, DIntegrated, DVerified}" "y \<in> set (SESSION_TRANSITIONS x)"
    then show "y \<in> - {DDelivered, DIntegrating, DIntegrated, DVerified} \<union> {DDelivered}" by (cases x) auto
  qed (use assms(2) in simp)
  then show ?thesis by simp
qed

end
