(* ===== verification/GroupValidators.thy ===== *)
theory GroupValidators
  imports GroupContracts
begin

text \<open>
  \<open>group-runtime/contracts/validators.ts\<close>: the cycle search and the checks of a group definition, a
  delivery and a completion proof. An issue is its code, path and message.
\<close>

section \<open>Issues and simple tests\<close>

record issue =
  is_code :: string
  is_path :: string
  is_message :: string

definition mk_issue :: "string \<Rightarrow> string \<Rightarrow> string \<Rightarrow> issue" where
  "mk_issue code path message = \<lparr>is_code = code, is_path = path, is_message = message\<rparr>"

definition issue_if :: "bool \<Rightarrow> string \<Rightarrow> string \<Rightarrow> string \<Rightarrow> issue list" where
  "issue_if b code path message = (if b then [mk_issue code path message] else [])"

lemma issue_if_Nil [simp]: "issue_if b code path message = [] \<longleftrightarrow> \<not> b"
  by (simp add: issue_if_def)

definition hex_digit :: "char \<Rightarrow> bool" where
  "hex_digit c \<longleftrightarrow> (CHR ''0'' \<le> c \<and> c \<le> CHR ''9'') \<or> (CHR ''a'' \<le> c \<and> c \<le> CHR ''f'') \<or> (CHR ''A'' \<le> c \<and> c \<le> CHR ''F'')"

definition SHA_RE :: "string \<Rightarrow> bool" where
  "SHA_RE s \<longleftrightarrow> length s = 40 \<and> list_all hex_digit s"

definition filled :: "string \<Rightarrow> bool" where
  "filled s \<longleftrightarrow> trim s \<noteq> []"

definition hasDuplicates :: "string list \<Rightarrow> bool" where
  "hasDuplicates xs \<longleftrightarrow> \<not> distinct xs"

definition positiveSafeInteger :: "int \<Rightarrow> bool" where
  "positiveSafeInteger n \<longleftrightarrow> safe_integer n \<and> 0 < n"

definition validatePolicy :: "group_policy \<Rightarrow> issue list" where
  "validatePolicy p =
     concat (map (\<lambda>(key, v). issue_if (\<not> positiveSafeInteger v) ''invalid_budget'' (''policy.'' @ key)
         (key @ '' must be a finite positive safe integer''))
       [(''maxParallelSessions'', gp_maxParallelSessions p), (''maxSessionAttempts'', gp_maxSessionAttempts p),
        (''maxRepairSessions'', gp_maxRepairSessions p), (''maxRepairWaves'', gp_maxRepairWaves p),
        (''maxSameFailureAttempts'', gp_maxSameFailureAttempts p), (''maxSessionSubagents'', gp_maxSessionSubagents p)]) @
     issue_if (\<not> filled (gp_targetBranch p)) ''invalid_target_branch'' ''policy.targetBranch'' ''target branch is required'' @
     issue_if (\<not> filled (gp_verificationPolicyRevision p)) ''invalid_verification_policy'' ''policy.verificationPolicyRevision''
       ''verification policy revision is required'' @
     issue_if (hasDuplicates (gp_protectedPaths p)) ''duplicate_protected_path'' ''policy.protectedPaths'' ''protected paths must be unique'' @
     issue_if (hasDuplicates (gp_mandatoryTests p)) ''duplicate_mandatory_test'' ''policy.mandatoryTests'' ''mandatory tests must be unique''"

section \<open>The cycle search\<close>

text \<open>
  A depth-first search that stops at the first cycle. \<open>active\<close> and \<open>stack\<close> hold the same nodes, the path
  from the start; a node is tested for being on the path before it is tested for having been visited. The
  result is the cycle found, or the nodes visited so far.
\<close>

function (sequential)
  cycle_visit :: "string list \<Rightarrow> (string \<Rightarrow> string list) \<Rightarrow> string \<Rightarrow> string list \<Rightarrow> string list \<Rightarrow> string list + string list"
  and cycle_visits :: "string list \<Rightarrow> (string \<Rightarrow> string list) \<Rightarrow> string list \<Rightarrow> string list \<Rightarrow> string list \<Rightarrow> string list + string list"
where
  "cycle_visit nodes deps n path visited =
     (if n \<in> set path then Inl (dropWhile (\<lambda>p. p \<noteq> n) path @ [n])
      else if n \<in> set visited then Inr visited
      else cycle_visits nodes deps (deps n) (path @ [n]) (n # visited))"
| "cycle_visits nodes deps [] path visited = Inr visited"
| "cycle_visits nodes deps (d # ds) path visited =
     (if d \<notin> set nodes then cycle_visits nodes deps ds path visited
      else case cycle_visit nodes deps d path visited of
        Inl cycle \<Rightarrow> Inl cycle
      | Inr visited' \<Rightarrow> cycle_visits nodes deps ds path visited')"
  by pat_completeness auto
termination
proof (relation "measures [
    (\<lambda>x. case x of Inl (nodes, _, n, path, _) \<Rightarrow> card (insert n (set nodes) - set path)
                 | Inr (nodes, _, ds, path, _) \<Rightarrow> card (set nodes - set path)),
    (\<lambda>x. case x of Inl _ \<Rightarrow> 0 | Inr (_, _, ds, _, _) \<Rightarrow> Suc (length ds))]", goal_cases)
  case (2 nodes deps n path visited)
  have "set nodes - set (path @ [n]) \<subset> insert n (set nodes) - set path" using 2(1) by auto
  then have "card (set nodes - set (path @ [n])) < card (insert n (set nodes) - set path)"
    by (intro psubset_card_mono) auto
  then show ?case by simp
qed (auto simp: insert_absorb)

declare cycle_visit.simps [simp del] cycle_visits.simps(2) [simp del]

fun cycle_search :: "string list \<Rightarrow> (string \<Rightarrow> string list) \<Rightarrow> string list \<Rightarrow> string list \<Rightarrow> string list option" where
  "cycle_search nodes deps [] visited = None"
| "cycle_search nodes deps (n # ns) visited = (case cycle_visit nodes deps n [] visited of
     Inl cycle \<Rightarrow> Some cycle | Inr visited' \<Rightarrow> cycle_search nodes deps ns visited')"

definition findCycle :: "string list \<Rightarrow> (string \<Rightarrow> string list) \<Rightarrow> string list option" where
  "findCycle nodes deps = cycle_search nodes deps nodes []"

subsection \<open>What the search decides\<close>

definition graph_edges :: "string list \<Rightarrow> (string \<Rightarrow> string list) \<Rightarrow> (string \<times> string) set" where
  "graph_edges nodes deps = {(a, b). a \<in> set nodes \<and> b \<in> set nodes \<and> b \<in> set (deps a)}"

text \<open>A list that runs along edges from a node back to it.\<close>

definition closed_walk :: "(string \<times> string) set \<Rightarrow> string list \<Rightarrow> bool" where
  "closed_walk E c \<longleftrightarrow> (\<exists>n xs. c = n # xs @ [n] \<and> successively (\<lambda>a b. (a, b) \<in> E) c)"

lemma walk_trancl: "successively (\<lambda>a b. (a, b) \<in> E) (a # xs @ [b]) \<Longrightarrow> (a, b) \<in> E\<^sup>+"
proof (induction xs arbitrary: a)
  case (Cons c xs)
  then have "(a, c) \<in> E" "(c, b) \<in> E\<^sup>+" by simp_all
  then show ?case by (rule trancl_into_trancl2)
qed simp

lemma closed_walk_cyclic: "closed_walk E c \<Longrightarrow> \<not> acyclic E"
  using walk_trancl by (fastforce simp: closed_walk_def acyclic_def)

text \<open>A path that runs along edges, ending before \<open>n\<close>.\<close>

definition leads_to :: "(string \<times> string) set \<Rightarrow> string list \<Rightarrow> string \<Rightarrow> bool" where
  "leads_to E path n \<longleftrightarrow> successively (\<lambda>a b. (a, b) \<in> E) (path @ [n])"

lemma leads_to_step: "leads_to E path n \<Longrightarrow> (n, d) \<in> E \<Longrightarrow> leads_to E (path @ [n]) d"
  by (auto simp: leads_to_def successively_append_iff)

lemma cycle_found:
  "cycle_visit nodes deps n path visited = Inl c \<Longrightarrow> n \<in> set nodes \<Longrightarrow> leads_to (graph_edges nodes deps) path n \<Longrightarrow>
     closed_walk (graph_edges nodes deps) c"
  "cycle_visits nodes deps ds path visited = Inl c \<Longrightarrow> \<forall>d \<in> set ds. d \<in> set nodes \<longrightarrow> leads_to (graph_edges nodes deps) path d \<Longrightarrow>
     closed_walk (graph_edges nodes deps) c"
proof (induction nodes deps n path visited and nodes deps ds path visited rule: cycle_visit_cycle_visits.induct)
  case (1 nodes deps n path visited)
  show ?case
  proof (cases "n \<in> set path")
    case True
    then obtain us vs where path: "path = us @ n # vs" "n \<notin> set us" by (meson split_list_first)
    then have c: "c = n # vs @ [n]"
      using 1(2) by (auto simp: cycle_visit.simps dropWhile_append)
    have "successively (\<lambda>a b. (a, b) \<in> graph_edges nodes deps) (n # vs @ [n])"
      using 1(4) path(1) by (auto simp: leads_to_def successively_append_iff)
    then show ?thesis using c by (auto simp: closed_walk_def)
  next
    case False
    with 1 show ?thesis
      by (auto simp: cycle_visit.simps graph_edges_def intro: leads_to_step split: if_splits)
  qed
next
  case (3 nodes deps d ds path visited)
  then show ?case by (auto simp: cycle_visits.simps split: if_splits sum.splits)
qed simp

text \<open>The invariant of a search that finds nothing: everything visited that is not on the path is closed under edges and acyclic.\<close>

definition quiet :: "(string \<times> string) set \<Rightarrow> string set \<Rightarrow> bool" where
  "quiet E S \<longleftrightarrow> (\<forall>a \<in> S. \<forall>b. (a, b) \<in> E \<longrightarrow> b \<in> S) \<and> (\<forall>a \<in> S. (a, a) \<notin> E\<^sup>+)"

definition settled :: "(string \<times> string) set \<Rightarrow> string list \<Rightarrow> string list \<Rightarrow> bool" where
  "settled E path visited \<longleftrightarrow> set path \<subseteq> set visited \<and> quiet E (set visited - set path)"

lemma quiet_reach:
  assumes "(a, b) \<in> E\<^sup>*" "a \<in> S" "quiet E S"
  shows "b \<in> S"
  using assms by (induction rule: rtrancl_induct) (auto simp: quiet_def)

lemma quiet_insert:
  assumes "quiet E S" "\<forall>b. (n, b) \<in> E \<longrightarrow> b \<in> S" "n \<notin> S"
  shows "quiet E (insert n S)"
proof -
  have "(n, n) \<notin> E\<^sup>+"
  proof
    assume "(n, n) \<in> E\<^sup>+"
    then obtain y where "(n, y) \<in> E" "(y, n) \<in> E\<^sup>*" by (meson tranclD)
    with quiet_reach assms show False by blast
  qed
  with assms show ?thesis unfolding quiet_def by blast
qed

lemma nothing_found:
  "cycle_visit nodes deps n path visited = Inr v \<Longrightarrow> n \<in> set nodes \<Longrightarrow> settled (graph_edges nodes deps) path visited \<Longrightarrow>
     settled (graph_edges nodes deps) path v \<and> n \<in> set v - set path \<and> set visited \<subseteq> set v"
  "cycle_visits nodes deps ds path visited = Inr v \<Longrightarrow> settled (graph_edges nodes deps) path visited \<Longrightarrow>
     settled (graph_edges nodes deps) path v \<and> set ds \<inter> set nodes \<subseteq> set v - set path \<and> set visited \<subseteq> set v"
proof (induction nodes deps n path visited and nodes deps ds path visited arbitrary: v and v rule: cycle_visit_cycle_visits.induct)
  case (1 nodes deps n path visited)
  let ?E = "graph_edges nodes deps"
  show ?case
  proof (cases "n \<in> set path \<or> n \<in> set visited")
    case True
    with 1 show ?thesis by (auto simp: cycle_visit.simps split: if_splits)
  next
    case False
    then have run: "cycle_visits nodes deps (deps n) (path @ [n]) (n # visited) = Inr v"
      using 1(2) by (simp add: cycle_visit.simps)
    have same: "set (n # visited) - set (path @ [n]) = set visited - set path" using False by auto
    have "set path \<subseteq> set visited" using 1(4) by (simp add: settled_def)
    then have "set (path @ [n]) \<subseteq> set (n # visited)" by auto
    with 1(4) have "settled ?E (path @ [n]) (n # visited)" by (simp only: settled_def same)
    with 1(1) False run have v: "settled ?E (path @ [n]) v" "set (deps n) \<inter> set nodes \<subseteq> set v - set (path @ [n])"
      "set (n # visited) \<subseteq> set v" by blast+
    let ?S = "set v - set (path @ [n])"
    have "quiet ?E ?S" using v(1) by (simp only: settled_def)
    moreover have "\<forall>b. (n, b) \<in> ?E \<longrightarrow> b \<in> ?S" using v(2) unfolding graph_edges_def by blast
    ultimately have "quiet ?E (insert n ?S)" by (rule quiet_insert) simp
    moreover have "insert n ?S = set v - set path" using v(3) False by auto
    moreover have "set path \<subseteq> set v" using v(3) 1(4) by (auto simp: settled_def)
    ultimately have "settled ?E path v" by (simp only: settled_def)
    with v(3) False show ?thesis by auto
  qed
next
  case (3 nodes deps d ds path visited)
  show ?case
  proof (cases "d \<in> set nodes")
    case False
    with 3 show ?thesis by (auto simp: cycle_visits.simps)
  next
    case True
    with 3(4) obtain w where w: "cycle_visit nodes deps d path visited = Inr w" "cycle_visits nodes deps ds path w = Inr v"
      by (auto simp: cycle_visits.simps split: sum.splits)
    from 3(2) True w(1) 3(5) have "settled (graph_edges nodes deps) path w \<and> d \<in> set w - set path \<and> set visited \<subseteq> set w" by blast
    moreover from this 3(3) True w have "settled (graph_edges nodes deps) path v \<and> set ds \<inter> set nodes \<subseteq> set v - set path \<and>
        set w \<subseteq> set v" by blast
    ultimately show ?thesis by auto
  qed
qed simp

lemma search_finds_nothing:
  "cycle_search nodes deps ns visited = None \<Longrightarrow> set ns \<subseteq> set nodes \<Longrightarrow> settled (graph_edges nodes deps) [] visited \<Longrightarrow>
     \<exists>v. settled (graph_edges nodes deps) [] v \<and> set ns \<subseteq> set v \<and> set visited \<subseteq> set v"
proof (induction ns arbitrary: visited)
  case (Cons n ns)
  from Cons.prems(1) obtain w where w: "cycle_visit nodes deps n [] visited = Inr w" "cycle_search nodes deps ns w = None"
    by (auto split: sum.splits)
  with nothing_found(1) [OF w(1)] Cons.prems Cons.IH [OF w(2)] show ?case by fastforce
qed auto

lemma search_finds_cycle:
  "cycle_search nodes deps ns visited = Some c \<Longrightarrow> set ns \<subseteq> set nodes \<Longrightarrow> closed_walk (graph_edges nodes deps) c"
  by (induction ns arbitrary: visited) (auto simp: leads_to_def split: sum.splits dest: cycle_found(1))

lemma findCycle_Some: "findCycle nodes deps = Some c \<Longrightarrow> closed_walk (graph_edges nodes deps) c"
  unfolding findCycle_def by (rule search_finds_cycle) auto

lemma findCycle_None: "findCycle nodes deps = None \<longleftrightarrow> acyclic (graph_edges nodes deps)"
proof
  assume "findCycle nodes deps = None"
  with search_finds_nothing [of nodes deps nodes "[]"] obtain v where
    v: "settled (graph_edges nodes deps) [] v" "set nodes \<subseteq> set v"
    by (auto simp: findCycle_def settled_def quiet_def)
  show "acyclic (graph_edges nodes deps)"
    unfolding acyclic_def
  proof (intro allI notI)
    fix x assume x: "(x, x) \<in> (graph_edges nodes deps)\<^sup>+"
    then have "x \<in> set nodes" by (auto dest!: tranclD simp: graph_edges_def)
    with v x show False by (auto simp: settled_def quiet_def)
  qed
next
  assume "acyclic (graph_edges nodes deps)"
  with findCycle_Some closed_walk_cyclic show "findCycle nodes deps = None" by (cases "findCycle nodes deps") blast+
qed

section \<open>Group definitions\<close>

definition by_key :: "('a \<Rightarrow> string) \<Rightarrow> 'a list \<Rightarrow> string \<Rightarrow> 'a option" where
  "by_key key xs = map_get key xs"

definition cycle_issue :: "string \<Rightarrow> string \<Rightarrow> string \<Rightarrow> string list option \<Rightarrow> issue list" where
  "cycle_issue code path what c = (case c of None \<Rightarrow> []
     | Some ns \<Rightarrow> [mk_issue code path (what @ '' dependency cycle: '' @ js_join '' -> '' ns)])"

lemma cycle_issue_Nil [simp]: "cycle_issue code path what c = [] \<longleftrightarrow> c = None"
  by (simp add: cycle_issue_def split: option.splits)

definition required_issue :: "string \<times> string \<Rightarrow> issue list" where
  "required_issue f = issue_if (\<not> filled (snd f)) ''required'' (fst f) (fst f @ '' must be non-empty'')"

definition missing_ids :: "('a \<Rightarrow> string) \<Rightarrow> 'a list \<Rightarrow> string \<Rightarrow> string \<Rightarrow> string \<Rightarrow> string list \<Rightarrow> issue list" where
  "missing_ids key xs code path message ids =
     concat (map (\<lambda>i. issue_if (by_key key xs i = None) code (path @ ''.'' @ i) message) ids)"

definition definition_issues :: "group_definition \<Rightarrow> requirement list \<Rightarrow> session_definition list \<Rightarrow> wave list \<Rightarrow> issue list" where
  "definition_issues d rs ss ws =
     issue_if (gd_contract d \<noteq> ZERO3_DEVELOPMENT_GROUP_CONTRACT) ''unsupported_contract'' ''contract'' ''development group contract is unsupported'' @
     concat (map required_issue [(''groupId'', gd_groupId d), (''repository'', gd_repository d), (''masterGoal'', gd_masterGoal d),
       (''masterPrompt'', gd_masterPrompt d), (''developmentPlan'', gd_developmentPlan d), (''planHash'', gd_planHash d),
       (''integrationRef'', gd_integrationRef d)]) @
     issue_if (\<not> SHA_RE (gd_baselineSha d)) ''invalid_baseline'' ''baselineSha'' ''baselineSha must be an exact 40-character Git SHA'' @
     validatePolicy (gd_policy d) @
     issue_if (hasDuplicates (gd_requirementIds d)) ''duplicate_requirement'' ''requirementIds'' ''requirement ids must be unique'' @
     issue_if (hasDuplicates (gd_sessionIds d)) ''duplicate_session'' ''sessionIds'' ''session ids must be unique'' @
     issue_if (hasDuplicates (gd_waveIds d)) ''duplicate_wave'' ''waveIds'' ''wave ids must be unique'' @
     missing_ids rq_requirementId rs ''missing_requirement'' ''requirementIds'' ''definition references a missing requirement'' (gd_requirementIds d) @
     missing_ids se_sessionId ss ''missing_session'' ''sessionIds'' ''definition references a missing session'' (gd_sessionIds d) @
     missing_ids wa_waveId ws ''missing_wave'' ''waveIds'' ''definition references a missing wave'' (gd_waveIds d)"

definition requirement_issues :: "group_definition \<Rightarrow> requirement list \<Rightarrow> requirement \<Rightarrow> issue list" where
  "requirement_issues d rs r = (let path = ''requirements.'' @ rq_requirementId r in
     issue_if (rq_groupId r \<noteq> gd_groupId d) ''group_mismatch'' (path @ ''.groupId'') ''requirement belongs to another group'' @
     issue_if (\<not> filled (rq_requirementId r) \<or> \<not> filled (rq_title r) \<or> \<not> filled (rq_description r)) ''invalid_requirement'' path
       ''requirement id, title and description are required'' @
     issue_if (rq_acceptanceCriteria r = [] \<or> list_ex (\<lambda>v. \<not> filled v) (rq_acceptanceCriteria r)) ''missing_acceptance''
       (path @ ''.acceptanceCriteria'') ''requirement needs non-empty acceptance criteria'' @
     issue_if (\<not> filled (rq_sourceAnchor r)) ''missing_source_anchor'' (path @ ''.sourceAnchor'') ''requirement source anchor is required'' @
     issue_if (hasDuplicates (rq_dependencies r)) ''duplicate_dependency'' (path @ ''.dependencies'') ''requirement dependencies must be unique'' @
     concat (map (\<lambda>x. issue_if (by_key rq_requirementId rs x = None) ''unknown_dependency'' (path @ ''.dependencies'')
       (''unknown requirement dependency '' @ x)) (rq_dependencies r)))"

text \<open>The dependencies of an id: those of the last entry with the id, none for an unknown one.\<close>

definition requirement_deps :: "requirement list \<Rightarrow> string \<Rightarrow> string list" where
  "requirement_deps rs i = (case by_key rq_requirementId rs i of None \<Rightarrow> [] | Some r \<Rightarrow> rq_dependencies r)"

definition session_deps :: "session_definition list \<Rightarrow> string \<Rightarrow> string list" where
  "session_deps ss i = (case by_key se_sessionId ss i of None \<Rightarrow> [] | Some s \<Rightarrow> se_dependencies s)"

definition wave_deps :: "wave list \<Rightarrow> string \<Rightarrow> string list" where
  "wave_deps ws i = (case by_key wa_waveId ws i of None \<Rightarrow> [] | Some w \<Rightarrow> wa_dependsOnWaveIds w)"

text \<open>Paths of several ownership classes, and of several sessions; both loops go on after an issue.\<close>

fun class_issues :: "string \<Rightarrow> string list \<Rightarrow> (string \<times> string) list \<Rightarrow> issue list" where
  "class_issues sid seen [] = []"
| "class_issues sid seen ((kind, p) # ps) =
     issue_if (p \<in> set seen) ''invalid_ownership'' (''sessions.'' @ sid @ ''.'' @ kind) (''path '' @ p @ '' appears in multiple ownership classes'') @
     class_issues sid (p # seen) ps"

fun owner_issues :: "string \<Rightarrow> (string \<Rightarrow> string option) \<Rightarrow> string list \<Rightarrow> issue list \<times> (string \<Rightarrow> string option)" where
  "owner_issues sid owner [] = ([], owner)"
| "owner_issues sid owner (p # ps) = (case owner_issues sid (owner(p \<mapsto> sid)) ps of (is, owner') \<Rightarrow>
     ((case owner p of Some o' \<Rightarrow> issue_if (o' \<noteq> [] \<and> o' \<noteq> sid) ''ownership_collision'' (''sessions.'' @ sid @ ''.ownedPaths'')
         (''path '' @ p @ '' is also owned by '' @ o') | None \<Rightarrow> []) @ is, owner'))"

definition session_issues :: "group_definition \<Rightarrow> requirement list \<Rightarrow> session_definition list \<Rightarrow> wave list \<Rightarrow> session_definition \<Rightarrow>
    (string \<Rightarrow> string option) \<Rightarrow> issue list \<times> (string \<Rightarrow> string option)" where
  "session_issues d rs ss ws s owner =
     (let path = ''sessions.'' @ se_sessionId s;
          tagged = map (Pair ''owned'') (se_ownedPaths s) @ map (Pair ''read_only'') (se_readOnlyPaths s) @
            map (Pair ''forbidden'') (se_forbiddenPaths s);
          (collisions, owner') = owner_issues (se_sessionId s) owner (se_ownedPaths s) in
     (issue_if (se_contract s \<noteq> ZERO3_DEVELOPMENT_SESSION_CONTRACT) ''unsupported_contract'' (path @ ''.contract'')
        ''development session contract is unsupported'' @
      issue_if (se_groupId s \<noteq> gd_groupId d) ''group_mismatch'' (path @ ''.groupId'') ''session belongs to another group'' @
      issue_if (\<not> filled (se_executionId s) \<or> \<not> filled (se_objective s) \<or> \<not> filled (se_branch s) \<or> \<not> filled (se_worktree s))
        ''invalid_session'' path ''execution id, objective, branch and worktree are required'' @
      issue_if (se_baselineSha s \<noteq> gd_baselineSha d \<or> \<not> SHA_RE (se_baselineSha s)) ''invalid_baseline'' (path @ ''.baselineSha'')
        ''session baseline must equal the exact group baseline'' @
      issue_if (se_integrationRef s \<noteq> gd_integrationRef d) ''integration_ref_mismatch'' (path @ ''.integrationRef'')
        ''session integration ref must equal the group integration ref'' @
      issue_if (by_key wa_waveId ws (se_waveId s) = None) ''unknown_wave'' (path @ ''.waveId'') (''unknown wave '' @ se_waveId s) @
      issue_if (hasDuplicates (se_dependencies s)) ''duplicate_dependency'' (path @ ''.dependencies'') ''session dependencies must be unique'' @
      concat (map (\<lambda>x. issue_if (by_key se_sessionId ss x = None) ''unknown_dependency'' (path @ ''.dependencies'')
          (''unknown session dependency '' @ x) @
        issue_if (x = se_sessionId s) ''self_dependency'' (path @ ''.dependencies'') ''session cannot depend on itself'') (se_dependencies s)) @
      issue_if (\<not> positiveSafeInteger (sp_maxConcurrency (se_subagentPolicy s))) ''invalid_budget'' (path @ ''.subagentPolicy.maxConcurrency'')
        ''subagent concurrency must be a finite positive safe integer'' @
      issue_if (sp_maxConcurrency (se_subagentPolicy s) > gp_maxSessionSubagents (gd_policy d)) ''subagent_budget_exceeded''
        (path @ ''.subagentPolicy.maxConcurrency'') ''session subagent concurrency exceeds the group policy'' @
      issue_if (sp_recursiveGroupCreation (se_subagentPolicy s)) ''recursive_group_forbidden'' (path @ ''.subagentPolicy.recursiveGroupCreation'')
        ''Development Group cannot recursively create another group'' @
      concat (map (\<lambda>ps. issue_if (list_ex (\<lambda>p. \<not> filled p) ps) ''invalid_ownership'' path ''ownership paths must be non-empty'' @
        issue_if (hasDuplicates ps) ''invalid_ownership'' path ''each ownership path set must be unique'')
        [se_ownedPaths s, se_readOnlyPaths s, se_forbiddenPaths s]) @
      class_issues (se_sessionId s) [] tagged @ collisions @
      concat (map (\<lambda>r. issue_if (by_key rq_requirementId rs r = None) ''unknown_requirement'' (path @ ''.requirements'')
        (''unknown requirement '' @ r)) (se_requirements s)), owner'))"

fun sessions_issues :: "group_definition \<Rightarrow> requirement list \<Rightarrow> session_definition list \<Rightarrow> wave list \<Rightarrow> session_definition list \<Rightarrow>
    (string \<Rightarrow> string option) \<Rightarrow> issue list" where
  "sessions_issues d rs ss ws [] owner = []"
| "sessions_issues d rs ss ws (s # todo) owner = (case session_issues d rs ss ws s owner of (is, owner') \<Rightarrow>
     is @ sessions_issues d rs ss ws todo owner')"

definition assignment_count :: "session_definition list \<Rightarrow> string \<Rightarrow> nat" where
  "assignment_count ss r = length (filter (\<lambda>x. x = r) (concat (map se_requirements ss)))"

definition assignment_issues :: "session_definition list \<Rightarrow> requirement \<Rightarrow> issue list" where
  "assignment_issues ss r = (let n = assignment_count ss (rq_requirementId r); path = ''requirements.'' @ rq_requirementId r in
     issue_if (rq_mandatory r \<and> n \<noteq> 1) ''mandatory_assignment'' path (''mandatory requirement must be assigned exactly once; got '' @ nat_text n) @
     issue_if (n > 1) ''duplicate_assignment'' path ''requirement cannot be owned by multiple sessions'')"

definition wave_issues :: "group_definition \<Rightarrow> session_definition list \<Rightarrow> wave list \<Rightarrow> wave \<Rightarrow> issue list" where
  "wave_issues d ss ws w = (let path = ''waves.'' @ wa_waveId w in
     issue_if (wa_groupId w \<noteq> gd_groupId d) ''group_mismatch'' (path @ ''.groupId'') ''wave belongs to another group'' @
     issue_if (\<not> positiveSafeInteger (wa_ordinal w)) ''invalid_wave'' (path @ ''.ordinal'') ''wave ordinal must be a positive safe integer'' @
     issue_if (hasDuplicates (wa_sessionIds w) \<or> hasDuplicates (wa_requiredSessionIds w) \<or> hasDuplicates (wa_dependsOnWaveIds w))
       ''duplicate_wave_member'' path ''wave members and dependencies must be unique'' @
     concat (map (\<lambda>x. case by_key se_sessionId ss x of
         None \<Rightarrow> [mk_issue ''unknown_session'' (path @ ''.sessionIds'') (''unknown session '' @ x)]
       | Some s \<Rightarrow> issue_if (se_waveId s \<noteq> wa_waveId w) ''wave_session_mismatch'' (path @ ''.sessionIds'')
           (''session '' @ x @ '' declares wave '' @ se_waveId s)) (wa_sessionIds w)) @
     concat (map (\<lambda>x. issue_if (x \<notin> set (wa_sessionIds w)) ''invalid_required_session'' (path @ ''.requiredSessionIds'')
       (x @ '' is not in this wave'')) (wa_requiredSessionIds w)) @
     concat (map (\<lambda>x. issue_if (by_key wa_waveId ws x = None) ''unknown_dependency'' (path @ ''.dependsOnWaveIds'')
         (''unknown wave dependency '' @ x) @
       issue_if (x = wa_waveId w) ''self_dependency'' (path @ ''.dependsOnWaveIds'') ''wave cannot depend on itself'') (wa_dependsOnWaveIds w)))"

definition validateDevelopmentGroupDefinition :: "group_definition \<Rightarrow> requirement list \<Rightarrow> session_definition list \<Rightarrow> wave list \<Rightarrow> issue list" where
  "validateDevelopmentGroupDefinition d rs ss ws =
     definition_issues d rs ss ws @
     concat (map (requirement_issues d rs) rs) @
     cycle_issue ''requirement_cycle'' ''requirements'' ''requirement'' (findCycle (map rq_requirementId rs) (requirement_deps rs)) @
     sessions_issues d rs ss ws ss (\<lambda>_. None) @
     cycle_issue ''session_cycle'' ''sessions'' ''session'' (findCycle (map se_sessionId ss) (session_deps ss)) @
     concat (map (assignment_issues ss) rs) @
     concat (map (wave_issues d ss ws) ws) @
     cycle_issue ''wave_cycle'' ''waves'' ''wave'' (findCycle (map wa_waveId ws) (wave_deps ws))"

section \<open>Deliveries, proofs and transitions\<close>

definition validateDevelopmentDelivery :: "delivery \<Rightarrow> session_definition \<Rightarrow> issue list" where
  "validateDevelopmentDelivery dl s =
     issue_if (dl_contract dl \<noteq> ZERO3_DEVELOPMENT_DELIVERY_CONTRACT) ''unsupported_contract'' ''delivery.contract'' ''development delivery contract is unsupported'' @
     issue_if (dl_groupId dl \<noteq> se_groupId s \<or> dl_sessionId dl \<noteq> se_sessionId s \<or> dl_executionId dl \<noteq> se_executionId s) ''identity_mismatch''
       ''delivery'' ''delivery identity must match the Development Session'' @
     issue_if (dl_baseSha dl \<noteq> se_baselineSha s \<or> \<not> SHA_RE (dl_baseSha dl)) ''invalid_baseline'' ''delivery.baseSha'' ''delivery base must match the session baseline'' @
     issue_if (\<not> SHA_RE (dl_headSha dl) \<or> dl_headSha dl = dl_baseSha dl) ''invalid_head'' ''delivery.headSha'' ''delivery needs a distinct exact head SHA'' @
     issue_if (\<not> filled (dl_deliveryHash dl)) ''missing_delivery_hash'' ''delivery.deliveryHash'' ''delivery hash is required'' @
     issue_if (hasDuplicates (dl_changedPaths dl)) ''duplicate_changed_path'' ''delivery.changedPaths'' ''changed paths must be unique'' @
     issue_if (hasDuplicates (dl_requirements dl)) ''duplicate_requirement'' ''delivery.requirements'' ''delivered requirements must be unique'' @
     concat (map (\<lambda>r. issue_if (r \<notin> set (se_requirements s)) ''scope_violation'' ''delivery.requirements'' (''session does not own requirement '' @ r))
       (dl_requirements dl))"

definition requirement_coverage_issues :: "coverage list \<Rightarrow> requirement \<Rightarrow> issue list" where
  "requirement_coverage_issues cs r = (let path = ''proof.requirementCoverage.'' @ rq_requirementId r in
     if \<not> rq_mandatory r then []
     else case by_key cv_requirementId cs (rq_requirementId r) of
       None \<Rightarrow> [mk_issue ''missing_requirement_coverage'' path ''mandatory requirement has no completion coverage'']
     | Some c \<Rightarrow>
         issue_if (cv_state c \<noteq> CVerified \<and> cv_state c \<noteq> CWaived) ''mandatory_unverified'' path
           (''mandatory requirement is '' @ coverage_state_text (cv_state c)) @
         issue_if (cv_state c = CWaived \<and> (case cv_waiver c of None \<Rightarrow> True
             | Some w \<Rightarrow> \<not> filled (wv_approvedBy w) \<or> \<not> filled (wv_reason w) \<or> wv_evidence w = [])) ''invalid_waiver'' (path @ ''.waiver'')
           ''waiver requires approver, reason and evidence'')"

definition delivery_coverage_issues :: "delivery list \<Rightarrow> delivery_coverage \<Rightarrow> issue list" where
  "delivery_coverage_issues dls c =
     issue_if (\<not> dc_valid c \<or> (case by_key dl_deliveryHash dls (dc_deliveryHash c) of None \<Rightarrow> True
         | Some dl \<Rightarrow> dl_status dl \<noteq> DeliveryCompleted)) ''invalid_delivery'' (''proof.sessionDeliveryCoverage.'' @ dc_sessionId c)
       ''completion references an invalid or non-completed delivery''"

definition evidence_issues :: "verification_run list \<Rightarrow> string \<Rightarrow> string \<Rightarrow> issue list" where
  "evidence_issues vns sha i =
     issue_if (case by_key vn_runId vns i of None \<Rightarrow> True | Some v \<Rightarrow> vn_status v \<noteq> RunPassed \<or> vn_integrationSha v \<noteq> sha)
       ''invalid_verification_evidence'' (''proof.verificationEvidence.'' @ i)
       ''verification evidence must be passed and bound to the final integration SHA''"

definition validateGroupCompletionProof :: "completion_proof \<Rightarrow> requirement list \<Rightarrow> delivery list \<Rightarrow> verification_run list \<Rightarrow> issue list" where
  "validateGroupCompletionProof p rs dls vns =
     issue_if (cp_contract p \<noteq> ZERO3_GROUP_COMPLETION_PROOF) ''unsupported_contract'' ''proof.contract'' ''completion proof contract is unsupported'' @
     issue_if (\<not> SHA_RE (cp_finalIntegrationSha p)) ''invalid_integration_sha'' ''proof.finalIntegrationSha'' ''completion proof requires an exact integration SHA'' @
     issue_if (cp_integrationStatus p \<noteq> IntegrationClean) ''integration_not_clean'' ''proof.integrationStatus'' ''completion requires a clean integration'' @
     issue_if (cp_verificationStatus p \<noteq> VerificationPassed) ''verification_not_passed'' ''proof.verificationStatus'' ''completion requires passed verification'' @
     issue_if (cp_unresolvedBlockers p \<noteq> []) ''unresolved_blocker'' ''proof.unresolvedBlockers'' ''completion cannot contain unresolved blockers'' @
     issue_if (cp_outcomeUnknownCount p \<noteq> 0) ''outcome_unknown'' ''proof.outcomeUnknownCount'' ''completion cannot contain OutcomeUnknown'' @
     issue_if (\<not> filled (cp_completionPolicyRevision p)) ''missing_policy_revision'' ''proof.completionPolicyRevision'' ''completion policy revision is required'' @
     concat (map (requirement_coverage_issues (cp_requirementCoverage p)) rs) @
     concat (map (delivery_coverage_issues dls) (cp_sessionDeliveryCoverage p)) @
     issue_if (cp_verificationEvidence p = []) ''missing_verification_evidence'' ''proof.verificationEvidence'' ''completion requires verification evidence'' @
     concat (map (evidence_issues vns (cp_finalIntegrationSha p)) (cp_verificationEvidence p))"

definition validateGroupStateTransition :: "group_status \<Rightarrow> group_status \<Rightarrow> issue list" where
  "validateGroupStateTransition from to = issue_if (\<not> isValidGroupTransition from to) ''invalid_state_transition'' ''group.status''
     (''cannot transition Development Group from '' @ group_status_text from @ '' to '' @ group_status_text to)"

definition validateSessionStateTransition :: "session_status \<Rightarrow> session_status \<Rightarrow> issue list" where
  "validateSessionStateTransition from to = issue_if (\<not> isValidSessionTransition from to) ''invalid_state_transition'' ''session.status''
     (''cannot transition Development Session from '' @ session_status_text from @ '' to '' @ session_status_text to)"

end
