(* ===== verification/GroupWorkspace.thy ===== *)
theory GroupWorkspace
  imports GroupValidators Handoff
begin

text \<open>
  \<open>group-runtime/workspace\<close>: which paths a session may change (\<open>ownership.ts\<close>), the fingerprint of its workspace
  (\<open>workspace-fingerprint.ts\<close>) and the gate a delivery has to pass (\<open>delivery-gate.ts\<close>).

  What git answers, SHA-256 and the order of \<open>localeCompare\<close> are parameters. A pattern becomes a list of
  atoms, one for each piece of regular expression the code writes.
\<close>

section \<open>Path patterns\<close>

definition forward_slashes :: "string \<Rightarrow> string" where
  "forward_slashes s = map (\<lambda>c. if c = CHR 0x5C then CHR ''/'' else c) s"

definition drop_dot :: "string \<Rightarrow> string" where
  "drop_dot s = (if take 2 s = ''./'' then drop 2 s else s)"

definition strip_slashes :: "string \<Rightarrow> string" where
  "strip_slashes s = rev (dropWhile (\<lambda>c. c = CHR ''/'') (rev (dropWhile (\<lambda>c. c = CHR ''/'') s)))"

definition normalizePath :: "string \<Rightarrow> string" where
  "normalizePath s = strip_slashes (drop_dot (forward_slashes s))"

text \<open>The pieces are, in this order, \<open>(?:.*/)?\<close>, \<open>.*\<close>, \<open>[^/]*\<close>, \<open>[^/]\<close> and an escaped character.\<close>

datatype glob_atom = AnyDirs | AnyText | AnySegment | OneChar | Exactly char

fun glob_atoms :: "string \<Rightarrow> glob_atom list" where
  "glob_atoms [] = []"
| "glob_atoms (c # r) =
     (if c = CHR ''*'' then
        (case r of [] \<Rightarrow> [AnySegment]
         | d # r1 \<Rightarrow> if d \<noteq> CHR ''*'' then AnySegment # glob_atoms r
             else (case r1 of [] \<Rightarrow> [AnyText]
               | e # r2 \<Rightarrow> if e = CHR ''/'' then AnyDirs # glob_atoms r2 else AnyText # glob_atoms r1))
      else if c = CHR ''?'' then OneChar # glob_atoms r
      else Exactly c # glob_atoms r)"

definition globToRegExp :: "string \<Rightarrow> glob_atom list" where
  "globToRegExp pattern = glob_atoms (normalizePath pattern)"

text \<open>The dot of a regular expression does not match the end of a line.\<close>

definition line_end :: "char \<Rightarrow> bool" where
  "line_end c \<longleftrightarrow> c = CHR 0x0A \<or> c = CHR 0x0D"

text \<open>How the language matches the pieces, from the first character to the last.\<close>

function (sequential)
  glob_match :: "glob_atom list \<Rightarrow> string \<Rightarrow> bool"
  and glob_dirs :: "glob_atom list \<Rightarrow> string \<Rightarrow> bool"
where
  "glob_match [] s \<longleftrightarrow> s = []"
| "glob_match (Exactly c # as) s \<longleftrightarrow> (case s of [] \<Rightarrow> False | x # r \<Rightarrow> x = c \<and> glob_match as r)"
| "glob_match (OneChar # as) s \<longleftrightarrow> (case s of [] \<Rightarrow> False | x # r \<Rightarrow> x \<noteq> CHR ''/'' \<and> glob_match as r)"
| "glob_match (AnySegment # as) s \<longleftrightarrow> glob_match as s \<or>
     (case s of [] \<Rightarrow> False | x # r \<Rightarrow> x \<noteq> CHR ''/'' \<and> glob_match (AnySegment # as) r)"
| "glob_match (AnyText # as) s \<longleftrightarrow> glob_match as s \<or>
     (case s of [] \<Rightarrow> False | x # r \<Rightarrow> \<not> line_end x \<and> glob_match (AnyText # as) r)"
| "glob_match (AnyDirs # as) s \<longleftrightarrow> glob_match as s \<or> glob_dirs as s"
| "glob_dirs as [] \<longleftrightarrow> False"
| "glob_dirs as (x # r) \<longleftrightarrow> (x = CHR ''/'' \<and> glob_match as r) \<or> (\<not> line_end x \<and> glob_dirs as r)"
  by pat_completeness auto
termination
  by (relation "measures [\<lambda>x. case x of Inl (as, s) \<Rightarrow> 2 * length as + length s | Inr (as, s) \<Rightarrow> Suc (2 * length as + length s)]") auto

definition firstMatch :: "string \<Rightarrow> string list \<Rightarrow> string option" where
  "firstMatch path patterns = List.find (\<lambda>p. glob_match (globToRegExp p) (normalizePath path)) patterns"

section \<open>Ownership\<close>

datatype authority = Owned | ReadOnly | Forbidden | Unowned | Excepted

record authority_record =
  ar_path :: string
  ar_authority :: authority
  ar_matchedPattern :: "string option"

text \<open>An empty pattern that matched counts as no match, as the empty string is not true.\<close>

definition matched_pattern :: "string \<Rightarrow> string list \<Rightarrow> string option" where
  "matched_pattern path patterns = (case firstMatch path patterns of None \<Rightarrow> None | Some p \<Rightarrow> if p = [] then None else Some p)"

definition classifyChangedPath :: "string \<Rightarrow> session_definition \<Rightarrow> string list \<Rightarrow> authority_record" where
  "classifyChangedPath path s exceptions = (let n = normalizePath path in
     case matched_pattern n exceptions of
       Some p \<Rightarrow> \<lparr>ar_path = n, ar_authority = Excepted, ar_matchedPattern = Some p\<rparr>
     | None \<Rightarrow> (case matched_pattern n (se_forbiddenPaths s) of
         Some p \<Rightarrow> \<lparr>ar_path = n, ar_authority = Forbidden, ar_matchedPattern = Some p\<rparr>
       | None \<Rightarrow> (case matched_pattern n (se_readOnlyPaths s) of
           Some p \<Rightarrow> \<lparr>ar_path = n, ar_authority = ReadOnly, ar_matchedPattern = Some p\<rparr>
         | None \<Rightarrow> (case matched_pattern n (se_ownedPaths s) of
             Some p \<Rightarrow> \<lparr>ar_path = n, ar_authority = Owned, ar_matchedPattern = Some p\<rparr>
           | None \<Rightarrow> \<lparr>ar_path = n, ar_authority = Unowned, ar_matchedPattern = None\<rparr>))))"

record ownership_audit =
  oa_valid :: bool
  oa_records :: "authority_record list"
  oa_violations :: "authority_record list"

definition auditChangedPathOwnership :: "string list \<Rightarrow> session_definition \<Rightarrow> string list \<Rightarrow> ownership_audit" where
  "auditChangedPathOwnership paths s exceptions =
     (let records = map (\<lambda>p. classifyChangedPath p s exceptions) (sorted_unique (filter (\<lambda>p. p \<noteq> []) (map normalizePath paths)));
          violations = filter (\<lambda>r. ar_authority r \<notin> {Owned, Excepted}) records in
      \<lparr>oa_valid = (violations = []), oa_records = records, oa_violations = violations\<rparr>)"

text \<open>The port of a workspace: a rejected question is what \<open>String\<close> makes of its error. The order of
  \<open>localeCompare\<close> and the hashes of the normalized records come with it.\<close>

record status_entry =
  st_status :: string
  st_path :: string

record workspace_fingerprint_input =
  wf_branch :: string
  wf_headSha :: string
  wf_baseSha :: string
  wf_changedPaths :: "string list"
  wf_status :: "status_entry list"

record git_port =
  gw_currentBranch :: "string + string"
  gw_resolveHead :: "string + string"
  gw_changedPaths :: "string \<Rightarrow> string \<Rightarrow> string + string list"
  gw_status :: "string + status_entry list"
  gw_branchHead :: "string \<Rightarrow> string + string"
  gw_isAncestor :: "string \<Rightarrow> string \<Rightarrow> string + bool"
  gw_handoffFingerprint :: "(string + string) option"

record gate_platform =
  gt_platform :: platform
  gt_sortStatus :: "status_entry list \<Rightarrow> status_entry list"
  gt_fingerprintHash :: "workspace_fingerprint_input \<Rightarrow> string"
  gt_deliveryHash :: "delivery \<Rightarrow> string"

section \<open>The fingerprint\<close>

definition lower_char :: "char \<Rightarrow> char" where
  "lower_char c = (if CHR ''A'' \<le> c \<and> c \<le> CHR ''Z'' \<or> CHR 0xC0 \<le> c \<and> c \<le> CHR 0xDE \<and> c \<noteq> CHR 0xD7
     then char_of ((of_char c :: nat) + 32) else c)"

definition workspaceFingerprint :: "gate_platform \<Rightarrow> workspace_fingerprint_input \<Rightarrow> string" where
  "workspaceFingerprint gt i = gt_fingerprintHash gt
     \<lparr>wf_branch = trim (wf_branch i), wf_headSha = map lower_char (wf_headSha i), wf_baseSha = map lower_char (wf_baseSha i),
      wf_changedPaths = sorted_unique (map forward_slashes (wf_changedPaths i)),
      wf_status = gt_sortStatus gt (map (\<lambda>e. e\<lparr>st_path := forward_slashes (st_path e)\<rparr>) (wf_status i))\<rparr>"

section \<open>The delivery gate\<close>

record gate_observed =
  go_branch :: "string option"
  go_headSha :: "string option"
  go_changedPaths :: "string list"
  go_dirty :: bool
  go_workspaceFingerprint :: "string option"

record gate_result =
  gr_accept :: bool
  gr_reasons :: "string list"
  gr_observed :: gate_observed
  gr_ownership :: "ownership_audit option"

definition normalizedPaths :: "string list \<Rightarrow> string list" where
  "normalizedPaths ps = sorted_unique (filter (\<lambda>p. p \<noteq> []) (map (\<lambda>p. drop_dot (forward_slashes p)) ps))"

text \<open>The hash covers every field but the hash.\<close>

definition computeDeliveryHash :: "gate_platform \<Rightarrow> delivery \<Rightarrow> string" where
  "computeDeliveryHash gt dl = gt_deliveryHash gt (dl\<lparr>dl_deliveryHash := []\<rparr>)"

definition reason_if :: "bool \<Rightarrow> string \<Rightarrow> string list" where
  "reason_if b r = (if b then [r] else [])"

lemma reason_if_Nil [simp]: "reason_if b r = [] \<longleftrightarrow> \<not> b"
  by (simp add: reason_if_def)

text \<open>The four questions are asked at once; the answer is the first rejection in the order they are written.\<close>

definition gather :: "git_port \<Rightarrow> session_definition \<Rightarrow> delivery \<Rightarrow> string + string \<times> string \<times> string list \<times> status_entry list" where
  "gather git s dl = (case gw_currentBranch git of Inl e \<Rightarrow> Inl e | Inr b \<Rightarrow>
     (case gw_resolveHead git of Inl e \<Rightarrow> Inl e | Inr h \<Rightarrow>
     (case gw_changedPaths git (se_baselineSha s) (dl_headSha dl) of Inl e \<Rightarrow> Inl e | Inr ps \<Rightarrow>
     (case gw_status git of Inl e \<Rightarrow> Inl e | Inr st \<Rightarrow> Inr (b, h, ps, st)))))"

definition ancestry_reasons :: "git_port \<Rightarrow> session_definition \<Rightarrow> delivery \<Rightarrow> string list" where
  "ancestry_reasons git s dl = (case gw_branchHead git (se_branch s) of
     Inl e \<Rightarrow> [''ancestry evidence unavailable: '' @ e]
   | Inr h \<Rightarrow> reason_if (h \<noteq> dl_headSha dl) ''delivery head is not the bound branch head'' @
      (case gw_isAncestor git (se_baselineSha s) (dl_headSha dl) of
         Inl e \<Rightarrow> [''ancestry evidence unavailable: '' @ e]
       | Inr a \<Rightarrow> reason_if (\<not> a) ''delivery head is not descended from the frozen baseline''))"

fun authority_text :: "authority \<Rightarrow> string" where
  "authority_text Owned = ''owned''"
| "authority_text ReadOnly = ''read_only''"
| "authority_text Forbidden = ''forbidden''"
| "authority_text Unowned = ''unowned''"
| "authority_text Excepted = ''exception''"

definition handoff_reasons :: "gate_platform \<Rightarrow> git_port \<Rightarrow> session_definition \<Rightarrow> delivery \<Rightarrow> string \<Rightarrow> string \<Rightarrow> checkpoint option \<Rightarrow>
    string list" where
  "handoff_reasons gt git s dl b h handoff = (case handoff of
     None \<Rightarrow> [''required zero3.pilot.handoff.v1 evidence is missing'']
   | Some c \<Rightarrow> (case gw_handoffFingerprint git of
       None \<Rightarrow> [''Git workspace adapter cannot independently capture the R4E Handoff fingerprint'']
     | Some fp \<Rightarrow>
         reason_if (hc_executionId c \<noteq> se_executionId s) ''handoff execution identity does not match Development Session'' @
         reason_if (hc_baseSha c \<noteq> se_baselineSha s) ''handoff baseline does not match Development Session'' @
         reason_if (case dl_handoffCheckpoint dl of None \<Rightarrow> False | Some k \<Rightarrow> k \<noteq> [] \<and> k \<noteq> hc_hash c)
           ''delivery handoff checkpoint reference does not match supplied checkpoint'' @
         (case fp of
            Inl e \<Rightarrow> [''handoff workspace fingerprint unavailable: '' @ e]
          | Inr f \<Rightarrow> if f = [] then [] else
              let v = verifyHandoff (gt_platform gt) c
                \<lparr>ow_workspace = se_worktree s, ow_branch = b, ow_headSha = h, ow_fingerprint = f\<rparr>
              in if hv_accept v then [] else map (\<lambda>r. ''handoff: '' @ r) (hv_reasons v))))"

definition verifyDevelopmentDelivery :: "gate_platform \<Rightarrow> git_port \<Rightarrow> session_definition \<Rightarrow> delivery \<Rightarrow> checkpoint option \<Rightarrow>
    string list \<Rightarrow> gate_result" where
  "verifyDevelopmentDelivery gt git s dl handoff exceptions =
     (let stated = map (\<lambda>i. is_code i @ '': '' @ is_message i) (validateDevelopmentDelivery dl s) in
      case gather git s dl of
        Inl e \<Rightarrow> \<lparr>gr_accept = False, gr_reasons = stated @ [''git evidence unavailable: '' @ e],
          gr_observed = \<lparr>go_branch = None, go_headSha = None, go_changedPaths = [], go_dirty = True, go_workspaceFingerprint = None\<rparr>,
          gr_ownership = None\<rparr>
      | Inr (b, h, changed, st) \<Rightarrow>
          let observed = normalizedPaths changed;
              ownership = auditChangedPathOwnership observed s exceptions;
              policy = se_deliveryPolicy s;
              reasons = stated @
                reason_if (b \<noteq> se_branch s) (''branch mismatch: expected '' @ se_branch s @ '', got '' @ b) @
                reason_if (h \<noteq> dl_headSha dl) (''HEAD mismatch: expected '' @ dl_headSha dl @ '', got '' @ h) @
                ancestry_reasons git s dl @
                reason_if (normalizedPaths (dl_changedPaths dl) \<noteq> observed) ''delivery changed_paths do not match Git diff evidence'' @
                reason_if (dp_requireCleanHead policy \<and> st \<noteq> []) ''delivery requires a clean worktree but Git status is dirty/untracked'' @
                reason_if (dp_requireOwnershipValidation policy \<and> \<not> oa_valid ownership)
                  (''ownership violation: '' @ js_join '', '' (map (\<lambda>r. ar_path r @ ''='' @ authority_text (ar_authority r)) (oa_violations ownership))) @
                reason_if (dp_requireDeliveryHash policy \<and> computeDeliveryHash gt dl \<noteq> dl_deliveryHash dl) ''delivery hash mismatch'' @
                (if dp_requireHandoff policy then handoff_reasons gt git s dl b h handoff else [])
          in \<lparr>gr_accept = (reasons = []), gr_reasons = reasons,
               gr_observed = \<lparr>go_branch = Some b, go_headSha = Some h, go_changedPaths = observed, go_dirty = (st \<noteq> []),
                 go_workspaceFingerprint = Some (workspaceFingerprint gt
                   \<lparr>wf_branch = b, wf_headSha = h, wf_baseSha = se_baselineSha s, wf_changedPaths = observed, wf_status = st\<rparr>)\<rparr>,
               gr_ownership = Some ownership\<rparr>)"

end
