(* ===== verification/GroupCompletion.thy ===== *)
theory GroupCompletion
  imports GroupValidators
begin

text \<open>
  \<open>group-runtime/completion\<close>: which evidence each requirement has (\<open>requirement-matrix.ts\<close>) and the proof
  that a development group is complete (\<open>completion-proof.ts\<close>).
\<close>

section \<open>The integrations that lead to the final state\<close>

text \<open>Merged milestones by their head; two runs with one head are ambiguous.\<close>

fun merged_by_head :: "milestone list \<Rightarrow> (string \<Rightarrow> milestone option) \<Rightarrow> (string \<Rightarrow> milestone option) res" where
  "merged_by_head [] m = Inr m"
| "merged_by_head (r # rs) m =
     (if ml_status r \<noteq> MilestoneMerged then merged_by_head rs m
      else case m (ml_headSha r) of
        Some x \<Rightarrow> if ml_integrationRunId x \<noteq> ml_integrationRunId r
          then Inl (Error (''ambiguous merged IntegrationMilestone head '' @ ml_headSha r))
          else merged_by_head rs (m(ml_headSha r \<mapsto> r))
      | None \<Rightarrow> merged_by_head rs (m(ml_headSha r \<mapsto> r)))"

text \<open>
  The walk from the final head to the base of its milestone, and on. \<open>heads\<close> are the heads of the
  milestones, at which alone the walk goes on; it ends because no head is passed twice.
\<close>

function integration_walk :: "string list \<Rightarrow> (string \<Rightarrow> milestone option) \<Rightarrow> string list \<Rightarrow> string \<Rightarrow> string list \<Rightarrow> string list res" where
  "integration_walk heads m visited cursor chain =
     (if cursor \<in> set visited then Inl (Error (''IntegrationMilestone ancestry cycle at '' @ cursor))
      else case (if cursor \<in> set heads then m cursor else None) of
        None \<Rightarrow> Inr chain
      | Some r \<Rightarrow> integration_walk heads m (cursor # visited) (ml_baseSha r)
          (if ml_integrationRunId r \<in> set chain then chain else chain @ [ml_integrationRunId r]))"
  by pat_completeness auto
termination
proof (relation "measure (\<lambda>(heads, m, visited, cursor, chain). card (set heads - set visited))", goal_cases)
  case (2 heads m visited cursor chain r)
  then have "set heads - set (cursor # visited) \<subset> set heads - set visited" by (auto split: if_splits)
  then have "card (set heads - set (cursor # visited)) < card (set heads - set visited)" by (intro psubset_card_mono) auto
  then show ?case by simp
qed simp

declare integration_walk.simps [simp del]

definition finalIntegrationRunIds :: "milestone list \<Rightarrow> string \<Rightarrow> string list res" where
  "finalIntegrationRunIds ms sha = (case merged_by_head ms (\<lambda>_. None) of Inl e \<Rightarrow> Inl e
     | Inr m \<Rightarrow> integration_walk (map ml_headSha ms) m [] sha [])"

section \<open>The requirement matrix\<close>

record matrix_input =
  mi_requirements :: "requirement list"
  mi_sessions :: "session_definition list"
  mi_deliveries :: "delivery list"
  mi_validDeliveryHashes :: "string list"
  mi_integrations :: "milestone list"
  mi_verifications :: "verification_run list"
  mi_finalIntegrationSha :: string
  mi_verificationPolicyRevision :: "string option"
  mi_mandatoryTestIds :: "string list"
  mi_waivers :: "string \<Rightarrow> waiver option"

definition mandatory_passed :: "string list \<Rightarrow> verification_run \<Rightarrow> bool" where
  "mandatory_passed ids v \<longleftrightarrow> list_all (\<lambda>i. i \<in> set (map vc_id (filter vc_required (vn_commands v))) \<and>
     i \<in> set (map vr_commandId (filter (\<lambda>r. vr_status r = ResultPassed) (vn_results v)))) ids"

definition verificationQualifies :: "verification_run \<Rightarrow> matrix_input \<Rightarrow> bool" where
  "verificationQualifies v i \<longleftrightarrow> vn_status v = RunPassed \<and> vn_integrationSha v = mi_finalIntegrationSha i \<and>
     (case mi_verificationPolicyRevision i of None \<Rightarrow> True | Some p \<Rightarrow> p = [] \<or> vn_policyRevision v = p) \<and>
     mandatory_passed (mi_mandatoryTestIds i) v"

text \<open>The session of each requirement; the second assignment of a requirement is an error.\<close>

fun assign_requirements :: "(string \<times> session_definition) list \<Rightarrow> (string \<Rightarrow> session_definition option) \<Rightarrow>
    (string \<Rightarrow> session_definition option) res" where
  "assign_requirements [] m = Inr m"
| "assign_requirements ((r, s) # rs) m =
     (if m r \<noteq> None then Inl (Error (''Requirement '' @ r @ '' is assigned to multiple Sessions''))
      else assign_requirements rs (m(r \<mapsto> s)))"

definition requirement_pairs :: "session_definition list \<Rightarrow> (string \<times> session_definition) list" where
  "requirement_pairs ss = concat (map (\<lambda>s. map (\<lambda>r. (r, s)) (se_requirements s)) ss)"

definition test_evidence :: "delivery \<Rightarrow> string list" where
  "test_evidence dl = map (\<lambda>(n, t). dl_deliveryHash dl @ '':test:'' @ nat_text n @ '':'' @ t) (List.enumerate 0 (dl_testsExecuted dl))"

definition bare_coverage :: "string \<Rightarrow> coverage_state \<Rightarrow> coverage" where
  "bare_coverage r st = \<lparr>cv_requirementId = r, cv_state = st, cv_sessionId = None, cv_deliveryHash = None, cv_commitSha = None,
     cv_testEvidenceIds = [], cv_integrationRunId = None, cv_verificationRunId = None, cv_waiver = None\<rparr>"

text \<open>The milestone of the final chain that merged the delivery of the session.\<close>

definition merged_in :: "string list \<Rightarrow> session_definition \<Rightarrow> delivery \<Rightarrow> milestone \<Rightarrow> bool" where
  "merged_in chain s dl r \<longleftrightarrow> ml_integrationRunId r \<in> set chain \<and> se_sessionId s \<in> set (ml_mergedSessionIds r) \<and>
     dl_deliveryHash dl \<in> set (ml_deliveryHashes r)"

definition delivered_coverage :: "matrix_input \<Rightarrow> string list \<Rightarrow> requirement \<Rightarrow> session_definition \<Rightarrow> delivery \<Rightarrow> coverage" where
  "delivered_coverage i chain r s dl =
     (let done = (dl_status dl = DeliveryCompleted); tests = test_evidence dl;
          base = (bare_coverage (rq_requirementId r) (if done then CImplemented else CBlocked))
            \<lparr>cv_sessionId := Some (se_sessionId s), cv_deliveryHash := Some (dl_deliveryHash dl), cv_commitSha := Some (dl_headSha dl),
             cv_testEvidenceIds := tests\<rparr> in
     if \<not> done \<or> dl_deliveryHash dl \<notin> set (mi_validDeliveryHashes i) then base
     else let tested = (if tests \<noteq> [] then base\<lparr>cv_state := CTested\<rparr> else base) in
     case List.find (merged_in chain s dl) (mi_integrations i) of None \<Rightarrow> tested
     | Some m \<Rightarrow> let integrated = tested\<lparr>cv_state := CIntegrated, cv_integrationRunId := Some (ml_integrationRunId m)\<rparr> in
     case List.find (\<lambda>v. verificationQualifies v i) (mi_verifications i) of None \<Rightarrow> integrated
     | Some v \<Rightarrow> integrated\<lparr>cv_state := CVerified, cv_verificationRunId := Some (vn_runId v)\<rparr>)"

definition requirement_coverage :: "matrix_input \<Rightarrow> (string \<Rightarrow> session_definition option) \<Rightarrow> string list \<Rightarrow> requirement \<Rightarrow> coverage" where
  "requirement_coverage i owner chain r = (case mi_waivers i (rq_requirementId r) of
     Some w \<Rightarrow> (bare_coverage (rq_requirementId r) CWaived)\<lparr>cv_testEvidenceIds := wv_evidence w, cv_waiver := Some w\<rparr>
   | None \<Rightarrow> (case owner (rq_requirementId r) of
       None \<Rightarrow> bare_coverage (rq_requirementId r) CPlanned
     | Some s \<Rightarrow> (case by_key dl_sessionId (mi_deliveries i) (se_sessionId s) of
         None \<Rightarrow> (bare_coverage (rq_requirementId r) CAssigned)\<lparr>cv_sessionId := Some (se_sessionId s)\<rparr>
       | Some dl \<Rightarrow> delivered_coverage i chain r s dl)))"

definition buildRequirementEvidenceMatrix :: "matrix_input \<Rightarrow> coverage list res" where
  "buildRequirementEvidenceMatrix i = (case assign_requirements (requirement_pairs (mi_sessions i)) (\<lambda>_. None) of
     Inl e \<Rightarrow> Inl e
   | Inr owner \<Rightarrow> (case finalIntegrationRunIds (mi_integrations i) (mi_finalIntegrationSha i) of
       Inl e \<Rightarrow> Inl e
     | Inr chain \<Rightarrow> Inr (map (requirement_coverage i owner chain) (mi_requirements i))))"

section \<open>The completion proof\<close>

record completion_input =
  ci_groupId :: string
  ci_policy :: group_policy
  ci_requirements :: "requirement list"
  ci_sessions :: "session_definition list"
  ci_runtimes :: "session_runtime list"
  ci_deliveries :: "delivery list"
  ci_validDeliveryHashes :: "string list"
  ci_integrations :: "milestone list"
  ci_verifications :: "verification_run list"
  ci_finalIntegrationSha :: string
  ci_unresolvedBlockers :: "string list"
  ci_waivers :: "string \<Rightarrow> waiver option"
  ci_generatedAt :: "string option"

definition proof_verification_qualifies :: "verification_run \<Rightarrow> string \<Rightarrow> group_policy \<Rightarrow> bool" where
  "proof_verification_qualifies v sha p \<longleftrightarrow> vn_status v = RunPassed \<and> vn_integrationSha v = sha \<and>
     vn_policyRevision v = gp_verificationPolicyRevision p \<and> mandatory_passed (gp_mandatoryTests p) v"

definition matrix_input_of :: "completion_input \<Rightarrow> matrix_input" where
  "matrix_input_of i = \<lparr>mi_requirements = ci_requirements i, mi_sessions = ci_sessions i, mi_deliveries = ci_deliveries i,
     mi_validDeliveryHashes = ci_validDeliveryHashes i, mi_integrations = ci_integrations i, mi_verifications = ci_verifications i,
     mi_finalIntegrationSha = ci_finalIntegrationSha i, mi_verificationPolicyRevision = Some (gp_verificationPolicyRevision (ci_policy i)),
     mi_mandatoryTestIds = gp_mandatoryTests (ci_policy i), mi_waivers = ci_waivers i\<rparr>"

definition session_delivery_coverage :: "completion_input \<Rightarrow> session_definition \<Rightarrow> delivery_coverage" where
  "session_delivery_coverage i s = (case by_key dl_sessionId (ci_deliveries i) (se_sessionId s) of
     None \<Rightarrow> \<lparr>dc_sessionId = se_sessionId s, dc_deliveryHash = [], dc_valid = False\<rparr>
   | Some dl \<Rightarrow> \<lparr>dc_sessionId = se_sessionId s, dc_deliveryHash = dl_deliveryHash dl,
       dc_valid = (dl_status dl = DeliveryCompleted \<and> dl_deliveryHash dl \<in> set (ci_validDeliveryHashes i))\<rparr>)"

definition passed_verifications :: "completion_input \<Rightarrow> verification_run list" where
  "passed_verifications i = filter (\<lambda>v. proof_verification_qualifies v (ci_finalIntegrationSha i) (ci_policy i)) (ci_verifications i)"

definition integration_at :: "milestone_status \<Rightarrow> completion_input \<Rightarrow> bool" where
  "integration_at st i \<longleftrightarrow> list_ex (\<lambda>r. ml_status r = st \<and> ml_headSha r = ci_finalIntegrationSha i) (ci_integrations i)"

definition completion_proof_of :: "string \<Rightarrow> completion_input \<Rightarrow> coverage list \<Rightarrow> completion_proof" where
  "completion_proof_of now i matrix = \<lparr>cp_contract = ZERO3_GROUP_COMPLETION_PROOF, cp_groupId = ci_groupId i,
     cp_requirementCoverage = matrix, cp_sessionDeliveryCoverage = map (session_delivery_coverage i) (ci_sessions i),
     cp_integrationStatus = (if integration_at MilestoneMerged i then IntegrationClean
       else if integration_at MilestoneConflict i then IntegrationConflict else IntegrationFailed),
     cp_verificationStatus = (if passed_verifications i \<noteq> [] then VerificationPassed
       else if list_ex (\<lambda>v. vn_integrationSha v = ci_finalIntegrationSha i) (ci_verifications i) then VerificationFailed else VerificationNotRun),
     cp_unresolvedBlockers = ci_unresolvedBlockers i,
     cp_outcomeUnknownCount = int (length (filter (\<lambda>r. sr_status r = DOutcomeUnknown) (ci_runtimes i))),
     cp_finalIntegrationSha = ci_finalIntegrationSha i, cp_verificationEvidence = map vn_runId (passed_verifications i),
     cp_completionPolicyRevision = gp_verificationPolicyRevision (ci_policy i),
     cp_generatedAt = (case ci_generatedAt i of None \<Rightarrow> now | Some t \<Rightarrow> t)\<rparr>"

definition completion_issues :: "completion_input \<Rightarrow> coverage list \<Rightarrow> completion_proof \<Rightarrow> issue list" where
  "completion_issues i matrix p =
     validateGroupCompletionProof p (ci_requirements i) (ci_deliveries i) (ci_verifications i) @
     concat (map (\<lambda>c. issue_if (\<not> dc_valid c) ''missing_session_delivery'' (''proof.sessionDeliveryCoverage.'' @ dc_sessionId c)
       ''every planned Development Session requires one valid completed Delivery'') (cp_sessionDeliveryCoverage p)) @
     issue_if (gp_completionMode (ci_policy i) = StrictCompletion \<and> list_ex (\<lambda>c. cv_state c = CWaived) matrix) ''waiver_forbidden''
       ''proof.requirementCoverage'' ''strict completion policy forbids Requirement waivers'' @
     issue_if (list_ex (\<lambda>v. vn_integrationSha v = ci_finalIntegrationSha i \<and> vn_status v = RunPassed) (ci_verifications i) \<and>
       passed_verifications i = []) ''verification_policy_mismatch'' ''proof.verificationEvidence''
       ''passed verification does not satisfy the current policy revision and mandatory test set''"

definition buildCompletionProof :: "string \<Rightarrow> completion_input \<Rightarrow> (completion_proof \<times> issue list) res" where
  "buildCompletionProof now i = (case buildRequirementEvidenceMatrix (matrix_input_of i) of Inl e \<Rightarrow> Inl e
     | Inr matrix \<Rightarrow> let p = completion_proof_of now i matrix in Inr (p, completion_issues i matrix p))"

definition assertGroupCompletable :: "completion_proof \<times> issue list \<Rightarrow> completion_proof res" where
  "assertGroupCompletable r = (if snd r \<noteq> [] then Inl (Error (''Development Group is not complete: '' @
       js_join '', '' (map (\<lambda>i. is_code i @ ''@'' @ is_path i) (snd r)))) else Inr (fst r))"

section \<open>The walk\<close>

text \<open>From the head of a milestone to its base.\<close>

definition ancestry :: "(string \<Rightarrow> milestone option) \<Rightarrow> (string \<times> string) set" where
  "ancestry m = {(h, b). \<exists>r. m h = Some r \<and> ml_baseSha r = b}"

lemma ancestry_unique: "m h = Some r \<Longrightarrow> (h, b) \<in> ancestry m \<longleftrightarrow> b = ml_baseSha r"
  by (auto simp: ancestry_def)

lemma walk_result:
  assumes "dom m \<subseteq> set heads" "\<forall>v \<in> set visited. (v, cursor) \<in> (ancestry m)\<^sup>+"
  shows "case integration_walk heads m visited cursor chain of
      Inr ch \<Rightarrow> set ch = set chain \<union> {ml_integrationRunId r | h r. (cursor, h) \<in> (ancestry m)\<^sup>* \<and> m h = Some r} \<and>
        (\<forall>h. (cursor, h) \<in> (ancestry m)\<^sup>* \<longrightarrow> (h, h) \<notin> (ancestry m)\<^sup>+)
    | Inl e \<Rightarrow> \<exists>h. (cursor, h) \<in> (ancestry m)\<^sup>* \<and> (h, h) \<in> (ancestry m)\<^sup>+"
  using assms
proof (induction heads m visited cursor chain rule: integration_walk.induct)
  case (1 heads m visited cursor chain)
  show ?case
  proof (cases "cursor \<in> set visited")
    case True
    with 1(3) have "(cursor, cursor) \<in> (ancestry m)\<^sup>+" by blast
    with True show ?thesis by (auto simp: integration_walk.simps)
  next
    case False
    show ?thesis
    proof (cases "m cursor")
      case None
      then have none: "(cursor, h) \<in> (ancestry m)\<^sup>* \<longleftrightarrow> h = cursor" for h
        by (auto simp: ancestry_def elim: converse_rtranclE)
      have "(cursor, cursor) \<notin> (ancestry m)\<^sup>+" using None by (auto simp: ancestry_def dest: tranclD)
      with False None show ?thesis by (auto simp: integration_walk.simps none)
    next
      case (Some r)
      let ?chain = "if ml_integrationRunId r \<in> set chain then chain else chain @ [ml_integrationRunId r]"
      have edge: "(cursor, ml_baseSha r) \<in> ancestry m" using Some by (auto simp: ancestry_def)
      have known: "cursor \<in> set heads" using 1(2) Some by auto
      have step: "integration_walk heads m visited cursor chain = integration_walk heads m (cursor # visited) (ml_baseSha r) ?chain"
        using False Some known by (subst integration_walk.simps) simp
      have "\<forall>v \<in> set (cursor # visited). (v, ml_baseSha r) \<in> (ancestry m)\<^sup>+"
        using 1(3) edge by (auto intro: trancl_into_trancl)
      with 1(1) [OF False _ 1(2)] known Some have ih: "case integration_walk heads m (cursor # visited) (ml_baseSha r) ?chain of
          Inr ch \<Rightarrow> set ch = set ?chain \<union> {ml_integrationRunId r' | h r'. (ml_baseSha r, h) \<in> (ancestry m)\<^sup>* \<and> m h = Some r'} \<and>
            (\<forall>h. (ml_baseSha r, h) \<in> (ancestry m)\<^sup>* \<longrightarrow> (h, h) \<notin> (ancestry m)\<^sup>+)
        | Inl e \<Rightarrow> \<exists>h. (ml_baseSha r, h) \<in> (ancestry m)\<^sup>* \<and> (h, h) \<in> (ancestry m)\<^sup>+" by auto
      have reach: "(cursor, h) \<in> (ancestry m)\<^sup>* \<longleftrightarrow> h = cursor \<or> (ml_baseSha r, h) \<in> (ancestry m)\<^sup>*" for h
        using edge ancestry_unique [of m cursor r, OF Some] by (metis converse_rtranclE converse_rtrancl_into_rtrancl rtrancl.rtrancl_refl)
      have self: "(cursor, cursor) \<in> (ancestry m)\<^sup>+ \<Longrightarrow> (ml_baseSha r, cursor) \<in> (ancestry m)\<^sup>*"
        using ancestry_unique [of m cursor r, OF Some] by (metis tranclD)
      show ?thesis
      proof (cases "integration_walk heads m (cursor # visited) (ml_baseSha r) ?chain")
        case (Inl e)
        with ih step reach show ?thesis by auto
      next
        case (Inr ch)
        with ih have "set ch = set ?chain \<union> {ml_integrationRunId r' | h r'. (ml_baseSha r, h) \<in> (ancestry m)\<^sup>* \<and> m h = Some r'}"
          "\<forall>h. (ml_baseSha r, h) \<in> (ancestry m)\<^sup>* \<longrightarrow> (h, h) \<notin> (ancestry m)\<^sup>+" by auto
        moreover have "set ?chain = insert (ml_integrationRunId r) (set chain)" by auto
        moreover have "{ml_integrationRunId r' | h r'. (cursor, h) \<in> (ancestry m)\<^sup>* \<and> m h = Some r'} =
            insert (ml_integrationRunId r) {ml_integrationRunId r' | h r'. (ml_baseSha r, h) \<in> (ancestry m)\<^sup>* \<and> m h = Some r'}"
          using Some by (auto simp: reach)
        ultimately show ?thesis unfolding step Inr using self reach by auto
      qed
    qed
  qed
qed

end
