(* ===== verification/GroupIntegration.thy ===== *)
theory GroupIntegration
  imports GroupWorkspace GroupCompletion
begin

text \<open>
  \<open>group-runtime/integration\<close>: the queue of accepted deliveries (\<open>integration-queue.ts\<close>), the git commands of the
  integration workspace (\<open>integration-git.ts\<close>) and the controller that merges one delivery after the other
  (\<open>integration-controller.ts\<close>).

  The repository is a value of a type of its own, \<open>'g\<close>. Running git, asking the delivery gate, the check after a
  merge and writing a record are effects on it, given as parameters; so are SHA-256 and the clock.
\<close>

section \<open>The queue\<close>

record queue_item =
  qi_session :: session_definition
  qi_delivery :: delivery
  qi_waveOrdinal :: int
  qi_enqueuedSequence :: int

text \<open>The map is keyed by the session of its item, so it is a list of items with distinct sessions.\<close>

record integration_queue =
  iq_sequence :: int
  iq_items :: "queue_item list"

definition item_key :: "queue_item \<Rightarrow> string" where
  "item_key i = se_sessionId (qi_session i)"

definition empty_queue :: integration_queue where
  "empty_queue = \<lparr>iq_sequence = 0, iq_items = []\<rparr>"

definition enqueue :: "session_definition \<Rightarrow> delivery \<Rightarrow> wave list \<Rightarrow> (integration_queue, unit) eff" where
  "enqueue s dl ws =
     bnd (require_that (se_sessionId s = dl_sessionId dl \<and> se_executionId s = dl_executionId dl) (Error ''integration queue identity mismatch'')) (\<lambda>_.
     case find_key wa_waveId (se_waveId s) ws of
       None \<Rightarrow> throw (Error (''unknown wave '' @ se_waveId s))
     | Some w \<Rightarrow> bnd (gets (\<lambda>q. find_key item_key (se_sessionId s) (iq_items q))) (\<lambda>existing.
         case existing of
           Some i \<Rightarrow> require_that (dl_deliveryHash (qi_delivery i) = dl_deliveryHash dl)
             (Error (''session '' @ se_sessionId s @ '' already queued with another Delivery''))
         | None \<Rightarrow> modify (\<lambda>q. \<lparr>iq_sequence = iq_sequence q + 1, iq_items = iq_items q @
             [\<lparr>qi_session = s, qi_delivery = dl, qi_waveOrdinal = wa_ordinal w, qi_enqueuedSequence = iq_sequence q + 1\<rparr>]\<rparr>)))"

definition dequeue :: "string \<Rightarrow> integration_queue \<Rightarrow> integration_queue" where
  "dequeue k q = q\<lparr>iq_items := filter (\<lambda>i. item_key i \<noteq> k) (iq_items q)\<rparr>"

text \<open>No two items share a sequence number, so the third key of the code, the session, never decides.\<close>

definition ready_items :: "string list \<Rightarrow> integration_queue \<Rightarrow> queue_item list" where
  "ready_items done q = sort_key qi_waveOrdinal (sort_key qi_enqueuedSequence
     (filter (\<lambda>i. list_all (\<lambda>d. d \<in> set done) (se_dependencies (qi_session i))) (iq_items q)))"

definition queue_snapshot :: "integration_queue \<Rightarrow> queue_item list" where
  "queue_snapshot q = sort_key qi_enqueuedSequence (iq_items q)"

section \<open>The git commands\<close>

record merge_result =
  mr_merged :: bool
  mr_headSha :: string
  mr_detail :: "string option"

record git_reply =
  gy_code :: int
  gy_stdout :: string
  gy_stderr :: string

text \<open>Running a command answers what git printed, also for a failing exit; one that could not run has code -1.\<close>

type_synonym 'g git_run = "string list \<Rightarrow> ('g, git_reply) eff"

record 'g integration_port =
  ip_currentBranch :: "('g, string) eff"
  ip_currentHead :: "('g, string) eff"
  ip_branchHead :: "string \<Rightarrow> ('g, string) eff"
  ip_statusClean :: "('g, bool) eff"
  ip_merge :: "string \<Rightarrow> ('g, merge_result) eff"
  ip_resetTo :: "string \<Rightarrow> ('g, unit) eff"

definition safeBranch :: "string \<Rightarrow> string res" where
  "safeBranch branch = (let v = trim branch in
     if v = [] \<or> take 1 v = ''-'' \<or> (\<exists>c \<in> set v. c = CHR 0x00 \<or> c = CHR 0x0D \<or> c = CHR 0x0A) then Inl (Error ''unsafe branch'') else Inr v)"

definition exactSha :: "string \<Rightarrow> string res" where
  "exactSha sha = (if SHA_RE sha then Inr sha else Inl (Error ''expected exact Git SHA''))"

definition git_command :: "'g git_run \<Rightarrow> string list \<Rightarrow> int list \<Rightarrow> ('g, git_reply) eff" where
  "git_command run args allow = bnd (run args) (\<lambda>r.
     if gy_code r = 0 \<or> gy_code r \<in> set allow then ret r
     else throw (Error (''git '' @ (case args of [] \<Rightarrow> [] | a # _ \<Rightarrow> a) @ '' failed ('' @ int_text (gy_code r) @ ''): '' @ trim (gy_stderr r))))"

definition git_currentBranch :: "'g git_run \<Rightarrow> ('g, string) eff" where
  "git_currentBranch run = bnd (git_command run [''symbolic-ref'', ''--quiet'', ''--short'', ''HEAD''] [0]) (\<lambda>r. ret (trim (gy_stdout r)))"

definition git_currentHead :: "'g git_run \<Rightarrow> ('g, string) eff" where
  "git_currentHead run = bnd (git_command run [''rev-parse'', ''--verify'', ''HEAD''] [0]) (\<lambda>r. lift_res (exactSha (trim (gy_stdout r))))"

definition git_branchHead :: "'g git_run \<Rightarrow> string \<Rightarrow> ('g, string) eff" where
  "git_branchHead run branch = bnd (lift_res (safeBranch branch)) (\<lambda>b.
     bnd (git_command run [''rev-parse'', ''--verify'', ''refs/heads/'' @ b] [0]) (\<lambda>r. lift_res (exactSha (trim (gy_stdout r)))))"

definition git_statusClean :: "'g git_run \<Rightarrow> ('g, bool) eff" where
  "git_statusClean run = bnd (git_command run [''status'', ''--porcelain=v1'', ''--untracked-files=all''] [0]) (\<lambda>r. ret (gy_stdout r = []))"

definition git_merge :: "'g git_run \<Rightarrow> string \<Rightarrow> ('g, merge_result) eff" where
  "git_merge run branch = bnd (lift_res (safeBranch branch)) (\<lambda>b.
     bnd (git_command run [''merge'', ''--no-ff'', ''--no-edit'', b] [0, 1]) (\<lambda>r.
     if gy_code r = 0 then bnd (git_currentHead run) (\<lambda>h. ret \<lparr>mr_merged = True, mr_headSha = h, mr_detail = None\<rparr>)
     else let detail = trim (if gy_stderr r \<noteq> [] then gy_stderr r else gy_stdout r) in
       bnd (git_command run [''merge'', ''--abort''] [0, 1, 128]) (\<lambda>a.
       bnd (if gy_code a = 0 then ret True else git_statusClean run) (\<lambda>clean.
       bnd (require_that clean (Error (''merge conflict and abort failed: '' @ detail))) (\<lambda>_.
       bnd (git_currentHead run) (\<lambda>h. ret \<lparr>mr_merged = False, mr_headSha = h, mr_detail = Some detail\<rparr>))))))"

definition git_resetTo :: "'g git_run \<Rightarrow> string \<Rightarrow> ('g, unit) eff" where
  "git_resetTo run sha = bnd (lift_res (exactSha sha)) (\<lambda>h. bnd (git_command run [''reset'', ''--hard'', h] [0]) (\<lambda>_. ret ()))"

definition integration_git_adapter :: "'g git_run \<Rightarrow> 'g integration_port" where
  "integration_git_adapter run = \<lparr>ip_currentBranch = git_currentBranch run, ip_currentHead = git_currentHead run,
     ip_branchHead = git_branchHead run, ip_statusClean = git_statusClean run, ip_merge = git_merge run, ip_resetTo = git_resetTo run\<rparr>"

section \<open>The controller\<close>

record integration_check =
  ik_ok :: bool
  ik_detail :: "string option"

record 'g integration_options =
  io_port :: "'g integration_port"
  io_integrationRef :: string
  io_verify :: "queue_item \<Rightarrow> ('g, gate_result) eff"
  io_postMergeCheck :: "(string \<Rightarrow> queue_item \<Rightarrow> ('g, integration_check) eff) option"
  io_write :: "milestone \<Rightarrow> ('g, unit) eff"
  io_sha256 :: "string \<Rightarrow> string"
  io_now :: "('g, string) eff"

text \<open>The controller keeps the queue and the integrated sessions; \<open>ic_written\<close> are the records the store took.\<close>

record 'g integration =
  ic_queue :: integration_queue
  ic_integrated :: "string list"
  ic_written :: "milestone list"
  ic_repo :: 'g

definition on_repo :: "('g, 'a) eff \<Rightarrow> ('g integration, 'a) eff" where
  "on_repo m = (\<lambda>c. case m (ic_repo c) of (r, g) \<Rightarrow> (r, c\<lparr>ic_repo := g\<rparr>))"

definition integration_runId :: "'g integration_options \<Rightarrow> string \<Rightarrow> queue_item \<Rightarrow> string" where
  "integration_runId o' base i = ''I-'' @ take 16 (io_sha256 o' (base @ '':'' @ item_key i @ '':'' @ dl_deliveryHash (qi_delivery i)))"

definition write_record :: "'g integration_options \<Rightarrow> milestone \<Rightarrow> ('g integration, milestone) eff" where
  "write_record o' r = bnd (on_repo (io_write o' r)) (\<lambda>_. bnd (modify (\<lambda>c. c\<lparr>ic_written := ic_written c @ [r]\<rparr>)) (\<lambda>_. ret r))"

definition integration_record :: "'g integration_options \<Rightarrow> queue_item \<Rightarrow> string \<Rightarrow> milestone_status \<Rightarrow> string \<Rightarrow> string list \<Rightarrow> string \<Rightarrow> milestone" where
  "integration_record o' i before st head reasons now = \<lparr>ml_integrationRunId = integration_runId o' before i, ml_groupId = se_groupId (qi_session i),
     ml_baseSha = before, ml_headSha = head, ml_deliveryHashes = [dl_deliveryHash (qi_delivery i)],
     ml_mergedSessionIds = (if st = MilestoneMerged then [item_key i] else []), ml_status = st, ml_conflicts = reasons, ml_createdAt = now\<rparr>"

definition reject_item :: "'g integration_options \<Rightarrow> queue_item \<Rightarrow> string \<Rightarrow> milestone_status \<Rightarrow> string \<Rightarrow> string list \<Rightarrow>
    ('g integration, milestone) eff" where
  "reject_item o' i before st head reasons =
     bnd (on_repo (io_now o')) (\<lambda>now. write_record o' (integration_record o' i before st head reasons now))"

definition post_merge :: "'g integration_options \<Rightarrow> string \<Rightarrow> queue_item \<Rightarrow> ('g, integration_check) eff" where
  "post_merge o' head i = (case io_postMergeCheck o' of None \<Rightarrow> ret \<lparr>ik_ok = True, ik_detail = None\<rparr> | Some check \<Rightarrow> check head i)"

definition integrate_item :: "'g integration_options \<Rightarrow> queue_item \<Rightarrow> ('g integration, milestone) eff" where
  "integrate_item o' i = (let p = io_port o'; branch = se_branch (qi_session i) in
     bnd (on_repo (ip_currentHead p)) (\<lambda>before.
     bnd (on_repo (ip_currentBranch p)) (\<lambda>current.
     if current \<noteq> io_integrationRef o' then reject_item o' i before MilestoneFailed before [''integration workspace is on the wrong branch'']
     else bnd (on_repo (ip_statusClean p)) (\<lambda>clean.
     if \<not> clean then reject_item o' i before MilestoneFailed before [''integration workspace is dirty before merge'']
     else bnd (on_repo (ip_branchHead p branch)) (\<lambda>worker.
     if worker \<noteq> dl_headSha (qi_delivery i) then reject_item o' i before MilestoneFailed before [''worker branch head does not match Delivery head'']
     else bnd (on_repo (io_verify o' i)) (\<lambda>gate.
     if \<not> gr_accept gate then reject_item o' i before MilestoneFailed before (map (\<lambda>r. ''delivery: '' @ r) (gr_reasons gate))
     else bnd (on_repo (ip_merge p branch)) (\<lambda>m.
     if \<not> mr_merged m then reject_item o' i before MilestoneConflict (mr_headSha m)
       [case mr_detail m of None \<Rightarrow> ''Git merge conflict'' | Some d \<Rightarrow> d]
     else bnd (on_repo (post_merge o' (mr_headSha m) i)) (\<lambda>check.
     if \<not> ik_ok check then bnd (on_repo (ip_resetTo p before)) (\<lambda>_. reject_item o' i before MilestoneFailed before
       [''post-merge check failed: '' @ (case ik_detail check of None \<Rightarrow> ''unknown'' | Some d \<Rightarrow> d)])
     else bnd (on_repo (io_now o')) (\<lambda>now.
       bnd (write_record o' (integration_record o' i before MilestoneMerged (mr_headSha m) [] now)) (\<lambda>r.
       bnd (modify (\<lambda>c. c\<lparr>ic_integrated := (if item_key i \<in> set (ic_integrated c) then ic_integrated c else ic_integrated c @ [item_key i]),
         ic_queue := dequeue (item_key i) (ic_queue c)\<rparr>)) (\<lambda>_. ret r)))))))))))"

definition integrateNext :: "'g integration_options \<Rightarrow> ('g integration, milestone option) eff" where
  "integrateNext o' = bnd (gets (\<lambda>c. ready_items (ic_integrated c) (ic_queue c))) (\<lambda>items. case items of
     [] \<Rightarrow> ret None
   | i # _ \<Rightarrow> bnd (integrate_item o' i) (\<lambda>r. ret (Some r)))"

section \<open>Draining the queue\<close>

text \<open>Each merge takes its item out of the queue, so draining ends.\<close>

lemma on_repo_run: "on_repo m c = (case m (ic_repo c) of (r, g) \<Rightarrow> (r, c\<lparr>ic_repo := g\<rparr>))"
  by (simp add: on_repo_def)

lemma on_repo_Inr: "on_repo m c = (Inr x, c') \<Longrightarrow> \<exists>g. m (ic_repo c) = (Inr x, g) \<and> c' = c\<lparr>ic_repo := g\<rparr>"
  by (auto simp: on_repo_run split: prod.splits)

lemma write_record_Inr:
  "write_record o' r c = (Inr x, c') \<Longrightarrow> x = r \<and> (\<exists>g. io_write o' r (ic_repo c) = (Inr (), g) \<and>
     c' = c\<lparr>ic_repo := g, ic_written := ic_written c @ [r]\<rparr>)"
  by (auto simp: write_record_def modify_def ret_def elim!: bnd_Inr_E dest!: on_repo_Inr)

text \<open>What an integration leaves of the queue: it loses the item exactly when the record says merged.\<close>

definition same_books :: "'g integration \<Rightarrow> 'g integration \<Rightarrow> bool" where
  "same_books c d \<longleftrightarrow> ic_queue d = ic_queue c \<and> ic_integrated d = ic_integrated c"

lemma same_books_refl [simp]: "same_books c c"
  by (simp add: same_books_def)

lemma same_books_on_repo: "on_repo m c = (Inr x, d) \<Longrightarrow> same_books c d"
  by (auto simp: same_books_def dest!: on_repo_Inr)

lemma same_books_trans [trans]: "same_books c d \<Longrightarrow> same_books d e \<Longrightarrow> same_books c e"
  by (simp add: same_books_def)

lemma same_books_write: "write_record o' r c = (Inr x, d) \<Longrightarrow> same_books c d \<and> x = r"
  by (auto simp: same_books_def dest!: write_record_Inr)

lemma same_books_reject:
  "reject_item o' i before st head reasons c = (Inr r, d) \<Longrightarrow> same_books c d \<and> ml_status r = st"
  by (auto simp: reject_item_def integration_record_def elim!: bnd_Inr_E dest!: same_books_on_repo same_books_write intro: same_books_trans)

lemma integrate_item_books:
  assumes "integrate_item o' i c = (Inr r, d)"
  shows "if ml_status r = MilestoneMerged
    then ic_queue d = dequeue (item_key i) (ic_queue c) \<and> set (ic_integrated d) = insert (item_key i) (set (ic_integrated c))
    else same_books c d"
  using assms unfolding integrate_item_def Let_def
  by (elim bnd_Inr_E)
    (auto 0 3 simp: ret_def integration_record_def modify_def same_books_def elim!: bnd_Inr_E
      dest!: same_books_on_repo [unfolded same_books_def] same_books_write [unfolded same_books_def] same_books_reject [unfolded same_books_def]
      split: if_splits)

lemma integrateNext_item:
  assumes "integrateNext o' c = (Inr (Some r), d)"
  obtains i where "i \<in> set (iq_items (ic_queue c))" "set (se_dependencies (qi_session i)) \<subseteq> set (ic_integrated c)"
    "integrate_item o' i c = (Inr r, d)"
proof -
  from assms obtain i rest where items: "ready_items (ic_integrated c) (ic_queue c) = i # rest" and run: "integrate_item o' i c = (Inr r, d)"
    by (auto simp: integrateNext_def gets_def bnd_def ret_def split: list.splits prod.splits sum.splits)
  have "i \<in> set (ready_items (ic_integrated c) (ic_queue c))" by (simp add: items)
  then show ?thesis using run by (intro that) (auto simp: ready_items_def list_all_iff)
qed

lemma integrateNext_shorter:
  assumes "integrateNext o' c = (Inr (Some r), d)" "ml_status r = MilestoneMerged"
  shows "length (iq_items (ic_queue d)) < length (iq_items (ic_queue c))"
proof -
  obtain i where i: "i \<in> set (iq_items (ic_queue c))" "integrate_item o' i c = (Inr r, d)" by (rule integrateNext_item [OF assms(1)])
  then have "iq_items (ic_queue d) = filter (\<lambda>j. item_key j \<noteq> item_key i) (iq_items (ic_queue c))"
    using integrate_item_books [OF i(2)] assms(2) by (simp add: dequeue_def)
  with i(1) show ?thesis by (simp add: length_filter_less)
qed

function drain :: "'g integration_options \<Rightarrow> milestone list \<Rightarrow> 'g integration \<Rightarrow> milestone list res \<times> 'g integration" where
  "drain o' records c = (case integrateNext o' c of
     (Inl e, d) \<Rightarrow> (Inl e, d)
   | (Inr None, d) \<Rightarrow> (Inr records, d)
   | (Inr (Some r), d) \<Rightarrow> if ml_status r = MilestoneMerged then drain o' (records @ [r]) d else (Inr (records @ [r]), d))"
  by pat_completeness auto
termination
  by (relation "measure (\<lambda>(o', records, c). length (iq_items (ic_queue c)))") (auto dest: integrateNext_shorter [OF sym])

declare drain.simps [simp del]

definition drainUntilBlocked :: "'g integration_options \<Rightarrow> ('g integration, milestone list) eff" where
  "drainUntilBlocked o' = drain o' []"

end
