(* ===== verification/GroupScheduler.thy ===== *)
theory GroupScheduler
  imports GroupValidators "HOL-Library.AList"
begin

text \<open>
  \<open>group-runtime/scheduler\<close>: the checks and readiness of \<open>dag.ts\<close> and the class
  \<open>DevelopmentSessionScheduler\<close> of \<open>scheduler.ts\<close>, which hands out ready sessions within the parallel
  limit, earlier waves first and, within a wave, in the order in which they became ready.
\<close>

section \<open>The graph of waves and sessions\<close>

record gate_evidence =
  ge_waveId :: string
  ge_integrationValid :: bool
  ge_requiredDeliveriesValid :: bool
  ge_ownershipValid :: bool

record readiness =
  rd_sessionId :: string
  rd_ready :: bool
  rd_reasons :: "string list"

type_synonym evidence_map = "string \<Rightarrow> gate_evidence option"

definition DEPENDENCY_SATISFIED :: "session_status list" where
  "DEPENDENCY_SATISFIED = [DDelivered, DIntegrating, DIntegrated, DVerified]"

definition session_edge_errors :: "session_definition list \<Rightarrow> session_definition \<Rightarrow> string list" where
  "session_edge_errors ss s = concat (map (\<lambda>d. case by_key se_sessionId ss d of
       None \<Rightarrow> [se_sessionId s @ '' depends on unknown session '' @ d]
     | Some t \<Rightarrow> if se_waveId t = se_waveId s then [se_sessionId s @ '' has same-wave implementation dependency on '' @ d] else [])
     (se_dependencies s))"

definition wave_edge_errors :: "wave list \<Rightarrow> wave \<Rightarrow> string list" where
  "wave_edge_errors ws w = concat (map (\<lambda>d. case by_key wa_waveId ws d of
       None \<Rightarrow> [wa_waveId w @ '' depends on unknown wave '' @ d]
     | Some t \<Rightarrow> if wa_ordinal t \<ge> wa_ordinal w then [wa_waveId w @ '' depends on non-earlier wave '' @ d] else [])
     (wa_dependsOnWaveIds w))"

definition validateSchedulerDag :: "session_definition list \<Rightarrow> wave list \<Rightarrow> string list" where
  "validateSchedulerDag ss ws = sort (concat (map (session_edge_errors ss) ss) @ concat (map (wave_edge_errors ws) ws))"

definition waveGateOpen :: "wave \<Rightarrow> evidence_map \<Rightarrow> bool" where
  "waveGateOpen w ev \<longleftrightarrow> list_all (\<lambda>d. case ev d of None \<Rightarrow> False
     | Some e \<Rightarrow> ge_integrationValid e \<and> ge_requiredDeliveriesValid e \<and> ge_ownershipValid e) (wa_dependsOnWaveIds w)"

definition dependency_reasons :: "session_runtime list \<Rightarrow> string \<Rightarrow> string list" where
  "dependency_reasons rts d = (case by_key sr_sessionId rts d of
     None \<Rightarrow> [''dependency runtime '' @ d @ '' is missing'']
   | Some r \<Rightarrow> if sr_status r \<notin> set DEPENDENCY_SATISFIED then [''dependency '' @ d @ '' is '' @ session_status_text (sr_status r)] else [])"

definition sessionReadiness :: "session_definition \<Rightarrow> session_runtime \<Rightarrow> session_runtime list \<Rightarrow> wave \<Rightarrow> evidence_map \<Rightarrow> readiness" where
  "sessionReadiness s r rts w ev = (let reasons =
     (if sr_status r \<notin> set [DPlanned, DWaitingDependencies, DReady, DFailed]
      then [''status '' @ session_status_text (sr_status r) @ '' is not schedulable''] else []) @
     (if \<not> waveGateOpen w ev then [''wave gate '' @ wa_waveId w @ '' is closed''] else []) @
     concat (map (dependency_reasons rts) (se_dependencies s)) @
     (if sr_status r = DFailed then [''failed session requires explicit retry budget decision''] else []) @
     (if sr_status r = DOutcomeUnknown then [''OutcomeUnknown cannot be automatically scheduled''] else [])
   in \<lparr>rd_sessionId = se_sessionId s, rd_ready = (reasons = []), rd_reasons = reasons\<rparr>)"

section \<open>The scheduler\<close>

record schedule =
  sh_readySessionIds :: "string list"
  sh_availableSlots :: int
  sh_paused :: bool
  sh_cancelled :: bool
  sh_repairWavesUsed :: int

text \<open>A JavaScript map built from pairs: a key keeps its first place and its last value.\<close>

definition js_map :: "('a \<Rightarrow> string) \<Rightarrow> 'a list \<Rightarrow> (string \<times> 'a) list" where
  "js_map key xs = fold (\<lambda>x. AList.update (key x) x) xs []"

record scheduler =
  dv_policy :: group_policy
  dv_sessions :: "(string \<times> session_definition) list"
  dv_waves :: "(string \<times> wave) list"
  dv_readySince :: "(string \<times> int) list"
  dv_pausedSessions :: "string list"
  dv_explicitRetries :: "string list"
  dv_sequence :: int
  dv_paused :: bool
  dv_cancelled :: bool
  dv_repairWavesUsed :: int

type_synonym 'a scheduler_eff = "(scheduler, 'a) eff"

definition new_scheduler :: "group_policy \<Rightarrow> session_definition list \<Rightarrow> wave list \<Rightarrow> scheduler res" where
  "new_scheduler p ss ws = (let errs = validateSchedulerDag ss ws in
     if errs \<noteq> [] then Inl (DevelopmentSchedulerError (''invalid scheduler DAG: '' @ js_join ''; '' errs))
     else Inr \<lparr>dv_policy = p, dv_sessions = js_map se_sessionId ss, dv_waves = js_map wa_waveId ws, dv_readySince = [],
       dv_pausedSessions = [], dv_explicitRetries = [], dv_sequence = 0, dv_paused = False, dv_cancelled = False,
       dv_repairWavesUsed = 0\<rparr>)"

definition without :: "string \<Rightarrow> string list \<Rightarrow> string list" where
  "without k xs = filter (\<lambda>x. x \<noteq> k) xs"

definition with_key :: "string \<Rightarrow> string list \<Rightarrow> string list" where
  "with_key k xs = (if k \<in> set xs then xs else xs @ [k])"

definition forget_ready :: "string \<Rightarrow> scheduler \<Rightarrow> scheduler" where
  "forget_ready k d = d\<lparr>dv_readySince := AList.delete k (dv_readySince d)\<rparr>"

definition requireSession :: "string \<Rightarrow> session_definition scheduler_eff" where
  "requireSession k = bnd (gets (\<lambda>d. map_of (dv_sessions d) k)) (\<lambda>s. case s of
     None \<Rightarrow> throw (DevelopmentSchedulerError (''unknown Development Session '' @ k)) | Some x \<Rightarrow> ret x)"

definition pauseGroup :: "unit scheduler_eff" where
  "pauseGroup = modify (\<lambda>d. d\<lparr>dv_paused := True\<rparr>)"

definition resumeGroup :: "unit scheduler_eff" where
  "resumeGroup = bnd (gets dv_cancelled) (\<lambda>c.
     bnd (require_that (\<not> c) (DevelopmentSchedulerError ''cancelled scheduler cannot resume'')) (\<lambda>_.
     modify (\<lambda>d. d\<lparr>dv_paused := False\<rparr>)))"

definition cancelGroup :: "unit scheduler_eff" where
  "cancelGroup = modify (\<lambda>d. d\<lparr>dv_cancelled := True, dv_paused := True, dv_readySince := [], dv_explicitRetries := []\<rparr>)"

definition pauseSession :: "string \<Rightarrow> unit scheduler_eff" where
  "pauseSession k = bnd (requireSession k) (\<lambda>_.
     modify (\<lambda>d. forget_ready k (d\<lparr>dv_pausedSessions := with_key k (dv_pausedSessions d)\<rparr>)))"

definition resumeSession :: "string \<Rightarrow> unit scheduler_eff" where
  "resumeSession k = bnd (requireSession k) (\<lambda>_.
     modify (\<lambda>d. d\<lparr>dv_pausedSessions := without k (dv_pausedSessions d)\<rparr>))"

definition requestRetry :: "session_runtime \<Rightarrow> unit scheduler_eff" where
  "requestRetry r = bnd (requireSession (sr_sessionId r)) (\<lambda>_.
     bnd (require_that (sr_status r \<noteq> DOutcomeUnknown) (DevelopmentSchedulerError ''OutcomeUnknown cannot enter automatic retry'')) (\<lambda>_.
     bnd (require_that (sr_status r = DFailed \<or> sr_status r = DBlocked)
       (DevelopmentSchedulerError (''only failed/blocked sessions may request retry; got '' @ session_status_text (sr_status r)))) (\<lambda>_.
     bnd (gets (\<lambda>d. gp_maxSessionAttempts (dv_policy d))) (\<lambda>most.
     bnd (require_that (sr_attempt r < most) (DevelopmentSchedulerError ''session attempt budget exhausted'')) (\<lambda>_.
     modify (\<lambda>d. d\<lparr>dv_explicitRetries := with_key (sr_sessionId r) (dv_explicitRetries d)\<rparr>))))))"

definition consumeRetry :: "string \<Rightarrow> unit scheduler_eff" where
  "consumeRetry k = modify (\<lambda>d. d\<lparr>dv_explicitRetries := without k (dv_explicitRetries d)\<rparr>)"

definition registerRepairWave :: "int scheduler_eff" where
  "registerRepairWave = bnd (gets (\<lambda>d. dv_repairWavesUsed d < gp_maxRepairWaves (dv_policy d))) (\<lambda>left.
     bnd (require_that left (DevelopmentSchedulerError ''repair wave budget exhausted'')) (\<lambda>_.
     bnd (modify (\<lambda>d. d\<lparr>dv_repairWavesUsed := dv_repairWavesUsed d + 1\<rparr>)) (\<lambda>_. gets dv_repairWavesUsed)))"

record candidate =
  ca_sessionId :: string
  ca_waveOrdinal :: int
  ca_readySince :: int

definition UNSCHEDULABLE :: "session_status list" where
  "UNSCHEDULABLE = [DOutcomeUnknown, DStarting, DRunning, DWaitingInput, DDelivering, DDelivered, DIntegrating, DIntegrated,
     DVerified, DCancelled, DSuperseded]"

text \<open>The status a session is judged by: a failed or blocked one whose retry was requested counts as ready.\<close>

definition schedulable_runtime :: "string list \<Rightarrow> session_runtime \<Rightarrow> session_runtime" where
  "schedulable_runtime retries r = (if sr_sessionId r \<in> set retries \<and> sr_status r \<in> set [DFailed, DBlocked] then r\<lparr>sr_status := DReady\<rparr> else r)"

definition attempts_spent :: "group_policy \<Rightarrow> session_runtime \<Rightarrow> bool" where
  "attempts_spent p r \<longleftrightarrow> sr_attempt r \<ge> gp_maxSessionAttempts p \<and> sr_status r \<noteq> DPlanned \<and> sr_status r \<noteq> DWaitingDependencies \<and>
     sr_status r \<noteq> DReady"

text \<open>A session that has just become ready gets the next number; one that was ready keeps its number.\<close>

definition note_ready :: "string \<Rightarrow> int scheduler_eff" where
  "note_ready k = (\<lambda>d. case map_of (dv_readySince d) k of
     Some n \<Rightarrow> (Inr n, d)
   | None \<Rightarrow> let n = dv_sequence d + 1 in (Inr n, d\<lparr>dv_sequence := n, dv_readySince := dv_readySince d @ [(k, n)]\<rparr>))"

definition consider_session :: "session_runtime list \<Rightarrow> evidence_map \<Rightarrow> string \<times> session_definition \<Rightarrow> candidate list \<Rightarrow>
    candidate list scheduler_eff" where
  "consider_session rts ev e acc = (case e of (k, s) \<Rightarrow>
     let skip = bnd (modify (forget_ready k)) (\<lambda>_. ret acc) in
     bnd (gets (\<lambda>d. k \<in> set (dv_pausedSessions d))) (\<lambda>held.
     case by_key sr_sessionId rts k of
       None \<Rightarrow> skip
     | Some r \<Rightarrow>
         if held then skip
         else if sr_status r \<in> set UNSCHEDULABLE then skip
         else bnd (gets (\<lambda>d. attempts_spent (dv_policy d) r)) (\<lambda>spent.
         if spent then skip
         else bnd (gets (\<lambda>d. map_of (dv_waves d) (se_waveId s))) (\<lambda>w. case w of
           None \<Rightarrow> throw (DevelopmentSchedulerError (''session '' @ k @ '' references missing wave '' @ se_waveId s))
         | Some wv \<Rightarrow> bnd (gets dv_explicitRetries) (\<lambda>retries.
             if \<not> rd_ready (sessionReadiness s (schedulable_runtime retries r) rts wv ev) then skip
             else bnd (note_ready k) (\<lambda>n.
               ret (acc @ [\<lparr>ca_sessionId = k, ca_waveOrdinal = wa_ordinal wv, ca_readySince = n\<rparr>])))))))"

text \<open>By wave, then by the number of readiness. No two candidates share a number, so the third key of the code, the name,
  never decides.\<close>

definition candidate_order :: "candidate list \<Rightarrow> candidate list" where
  "candidate_order cs = sort_key ca_waveOrdinal (sort_key ca_readySince cs)"

definition schedule_snapshot :: "session_runtime list \<Rightarrow> evidence_map \<Rightarrow> int \<Rightarrow> schedule scheduler_eff" where
  "schedule_snapshot rts ev running =
     bnd (require_that (safe_integer running \<and> 0 \<le> running)
       (DevelopmentSchedulerError ''runningSessionCount must be a non-negative safe integer'')) (\<lambda>_.
     bnd (gets (\<lambda>d. max 0 (gp_maxParallelSessions (dv_policy d) - running))) (\<lambda>slots.
     bnd (gets (\<lambda>d. dv_paused d \<or> dv_cancelled d \<or> slots = 0)) (\<lambda>idle.
     if idle then gets (\<lambda>d. \<lparr>sh_readySessionIds = [], sh_availableSlots = slots, sh_paused = dv_paused d,
       sh_cancelled = dv_cancelled d, sh_repairWavesUsed = dv_repairWavesUsed d\<rparr>)
     else bnd (gets dv_sessions) (\<lambda>ss.
       bnd (for_each ss (consider_session rts ev) []) (\<lambda>cs.
       gets (\<lambda>d. \<lparr>sh_readySessionIds = map ca_sessionId (take (nat slots) (candidate_order cs)), sh_availableSlots = slots,
         sh_paused = False, sh_cancelled = False, sh_repairWavesUsed = dv_repairWavesUsed d\<rparr>))))))"

end
