(* ===== verification/GroupCorrectness.thy ===== *)
theory GroupCorrectness
  imports GroupScheduler "HOL-Library.Multiset"
begin

text \<open>The properties of the development group contracts, its definition checks and its session scheduler.\<close>

section \<open>Definitions\<close>

text \<open>The cycle search answers nothing exactly when the dependency graph on the given nodes has no cycle, and
  otherwise it answers a walk along dependencies that ends where it began.\<close>

theorem findCycle_correct:
  "(findCycle nodes deps = None \<longleftrightarrow> acyclic (graph_edges nodes deps)) \<and>
   (\<forall>c. findCycle nodes deps = Some c \<longrightarrow> closed_walk (graph_edges nodes deps) c)"
  using findCycle_None findCycle_Some by blast

lemma findCycle_correct_witness:
  "closed_walk (graph_edges [''a'', ''b'', ''c''] (\<lambda>n. if n = ''a'' then [''b''] else if n = ''b'' then [''x'', ''c''] else [''b'']))
     [''b'', ''c'', ''b'']"
proof -
  have "findCycle [''a'', ''b'', ''c''] (\<lambda>n. if n = ''a'' then [''b''] else if n = ''b'' then [''x'', ''c''] else [''b'']) =
      Some [''b'', ''c'', ''b'']" by code_simp
  with findCycle_correct show ?thesis by blast
qed

section \<open>Who may be scheduled\<close>

definition dependencies_met :: "session_runtime list \<Rightarrow> session_definition \<Rightarrow> bool" where
  "dependencies_met rts s \<longleftrightarrow> (\<forall>d \<in> set (se_dependencies s). \<exists>q. by_key sr_sessionId rts d = Some q \<and> sr_status q \<in> set DEPENDENCY_SATISFIED)"

definition may_start :: "scheduler \<Rightarrow> session_runtime \<Rightarrow> bool" where
  "may_start d r \<longleftrightarrow> sr_status r \<in> {DPlanned, DWaitingDependencies, DReady} \<or>
     (sr_status r \<in> {DFailed, DBlocked} \<and> sr_sessionId r \<in> set (dv_explicitRetries d) \<and>
      sr_attempt r < gp_maxSessionAttempts (dv_policy d))"

text \<open>A session that is not held, whose wave is open, whose dependencies were delivered and that may start.\<close>

definition group_eligible :: "session_runtime list \<Rightarrow> evidence_map \<Rightarrow> scheduler \<Rightarrow> string \<times> session_definition \<Rightarrow> bool" where
  "group_eligible rts ev d e \<longleftrightarrow> (case e of (k, s) \<Rightarrow> k \<notin> set (dv_pausedSessions d) \<and>
     (\<exists>r wv. by_key sr_sessionId rts k = Some r \<and> may_start d r \<and> map_of (dv_waves d) (se_waveId s) = Some wv \<and>
        waveGateOpen wv ev \<and> dependencies_met rts s))"

lemma by_key_id: "by_key sr_sessionId rts k = Some r \<Longrightarrow> sr_sessionId r = k"
  unfolding by_key_def by (auto dest: map_get_Some)

lemma dependency_reasons_Nil: "concat (map (dependency_reasons rts) ds) = [] \<longleftrightarrow>
    (\<forall>d \<in> set ds. \<exists>q. by_key sr_sessionId rts d = Some q \<and> sr_status q \<in> set DEPENDENCY_SATISFIED)"
  by (induction ds) (auto simp: dependency_reasons_def split: option.splits)

lemma readiness_iff:
  "rd_ready (sessionReadiness s r rts w ev) \<longleftrightarrow> sr_status r \<in> {DPlanned, DWaitingDependencies, DReady} \<and> waveGateOpen w ev \<and> dependencies_met rts s"
  unfolding sessionReadiness_def Let_def dependencies_met_def dependency_reasons_Nil [symmetric] by (cases "sr_status r") auto

lemma schedulable_iff:
  "sr_status (schedulable_runtime retries r) \<in> {DPlanned, DWaitingDependencies, DReady} \<longleftrightarrow>
     sr_status r \<in> {DPlanned, DWaitingDependencies, DReady} \<or> (sr_sessionId r \<in> set retries \<and> sr_status r \<in> {DFailed, DBlocked})"
  by (cases "sr_status r") (auto simp: schedulable_runtime_def)

lemma eligible_iff:
  assumes "by_key sr_sessionId rts k = Some r" "map_of (dv_waves d) (se_waveId s) = Some wv"
  shows "group_eligible rts ev d (k, s) \<longleftrightarrow> k \<notin> set (dv_pausedSessions d) \<and> sr_status r \<notin> set UNSCHEDULABLE \<and> \<not> attempts_spent (dv_policy d) r \<and>
    rd_ready (sessionReadiness s (schedulable_runtime (dv_explicitRetries d) r) rts wv ev)"
  using assms schedulable_iff [of "dv_explicitRetries d" r]
  by (cases "sr_status r") (auto simp: group_eligible_def may_start_def readiness_iff attempts_spent_def UNSCHEDULABLE_def)

section \<open>The loop over the sessions\<close>

text \<open>What the loop leaves alone, and what eligibility depends on.\<close>

definition same_rules :: "scheduler \<Rightarrow> scheduler \<Rightarrow> bool" where
  "same_rules d d' \<longleftrightarrow> dv_policy d' = dv_policy d \<and> dv_sessions d' = dv_sessions d \<and> dv_waves d' = dv_waves d \<and>
     dv_pausedSessions d' = dv_pausedSessions d \<and> dv_explicitRetries d' = dv_explicitRetries d \<and> dv_paused d' = dv_paused d \<and>
     dv_cancelled d' = dv_cancelled d \<and> dv_repairWavesUsed d' = dv_repairWavesUsed d"

lemma same_rules_eligible: "same_rules d d' \<Longrightarrow> group_eligible rts ev d' e = group_eligible rts ev d e"
  by (simp add: same_rules_def group_eligible_def may_start_def)

lemma same_rules_trans: "same_rules d d' \<Longrightarrow> same_rules d' d'' \<Longrightarrow> same_rules d d''"
  by (simp add: same_rules_def)

lemma note_ready_result: "\<exists>n d'. note_ready k d = (Inr n, d') \<and> same_rules d d'"
  by (auto simp: note_ready_def same_rules_def Let_def split: option.splits)

lemma consider_result:
  assumes "consider_session rts ev e acc d = (Inr acc', d')"
  shows "same_rules d d' \<and> map ca_sessionId acc' = map ca_sessionId acc @ map fst (filter (group_eligible rts ev d) [e])"
proof -
  obtain k s where e: "e = (k, s)" by (cases e)
  obtain n dn where nr: "note_ready k d = (Inr n, dn)" "same_rules d dn" using note_ready_result by blast
  have forget: "same_rules d (forget_ready k d)" by (simp add: forget_ready_def same_rules_def)
  show ?thesis
  proof (cases "by_key sr_sessionId rts k")
    case None
    then have "\<not> group_eligible rts ev d (k, s)" by (simp add: group_eligible_def)
    with assms None e forget show ?thesis by (auto simp: consider_session_def Let_def bnd_run gets_def modify_def ret_def)
  next
    case (Some r)
    show ?thesis
    proof (cases "map_of (dv_waves d) (se_waveId s)")
      case None
      then have "\<not> group_eligible rts ev d (k, s)" by (simp add: group_eligible_def)
      with assms None Some e forget show ?thesis
        by (auto simp: consider_session_def Let_def bnd_run gets_def modify_def ret_def throw_def split: if_splits)
    next
      case (Some wv)
      note elig = eligible_iff [OF \<open>by_key sr_sessionId rts k = Some r\<close> Some, of ev]
      show ?thesis
        using assms e Some \<open>by_key sr_sessionId rts k = Some r\<close> forget nr
        by (auto simp: consider_session_def Let_def bnd_run gets_def modify_def ret_def elig split: if_splits)
    qed
  qed
qed

lemma loop_result:
  "for_each es (consider_session rts ev) acc d = (Inr acc', d') \<Longrightarrow>
     same_rules d d' \<and> map ca_sessionId acc' = map ca_sessionId acc @ map fst (filter (group_eligible rts ev d) es)"
proof (induction es arbitrary: acc d)
  case Nil
  then show ?case by (simp add: ret_def same_rules_def)
next
  case (Cons e es)
  from Cons.prems obtain acc1 d1 where "consider_session rts ev e acc d = (Inr acc1, d1)"
    "for_each es (consider_session rts ev) acc1 d1 = (Inr acc', d')"
    by (auto simp: bnd_run split: prod.splits sum.splits)
  with consider_result Cons.IH have "same_rules d d1" "same_rules d1 d'"
    "map ca_sessionId acc1 = map ca_sessionId acc @ map fst (filter (group_eligible rts ev d) [e])"
    "map ca_sessionId acc' = map ca_sessionId acc1 @ map fst (filter (group_eligible rts ev d1) es)" by blast+
  then show ?case using same_rules_eligible [of d d1 rts ev] same_rules_trans by (auto cong: filter_cong)
qed

section \<open>Runs of a scheduler\<close>

datatype scheduler_op =
    PauseGroup | ResumeGroup | CancelGroup | PauseSession string | ResumeSession string | RequestRetry session_runtime
  | ConsumeRetry string | RepairWave | Snapshot "session_runtime list" evidence_map int

fun scheduler_step :: "scheduler_op \<Rightarrow> scheduler \<Rightarrow> scheduler" where
  "scheduler_step PauseGroup d = snd (pauseGroup d)"
| "scheduler_step ResumeGroup d = snd (resumeGroup d)"
| "scheduler_step CancelGroup d = snd (cancelGroup d)"
| "scheduler_step (PauseSession k) d = snd (pauseSession k d)"
| "scheduler_step (ResumeSession k) d = snd (resumeSession k d)"
| "scheduler_step (RequestRetry r) d = snd (requestRetry r d)"
| "scheduler_step (ConsumeRetry k) d = snd (consumeRetry k d)"
| "scheduler_step RepairWave d = snd (registerRepairWave d)"
| "scheduler_step (Snapshot rts ev n) d = snd (schedule_snapshot rts ev n d)"

inductive scheduler_reachable :: "scheduler \<Rightarrow> bool" where
  created: "new_scheduler p ss ws = Inr d \<Longrightarrow> scheduler_reachable d"
| stepped: "scheduler_reachable d \<Longrightarrow> scheduler_reachable (scheduler_step op d)"

definition scheduler_ok :: "scheduler \<Rightarrow> bool" where
  "scheduler_ok d \<longleftrightarrow> distinct (map fst (dv_sessions d)) \<and> (dv_cancelled d \<longrightarrow> dv_paused d) \<and>
     0 \<le> dv_repairWavesUsed d \<and> dv_repairWavesUsed d \<le> max 0 (gp_maxRepairWaves (dv_policy d))"

lemma js_map_distinct: "distinct (map fst (js_map key xs))"
proof -
  have "distinct (map fst acc) \<Longrightarrow> distinct (map fst (fold (\<lambda>x. AList.update (key x) x) xs acc))" for acc
    by (induction xs arbitrary: acc) (auto intro: distinct_update)
  then show ?thesis by (simp add: js_map_def)
qed

lemma consider_rules: "same_rules d (snd (consider_session rts ev e acc d))"
  using note_ready_result [of "fst e" d]
  by (cases e) (auto simp: consider_session_def Let_def bnd_run gets_def modify_def ret_def throw_def forget_ready_def same_rules_def
      split: option.splits)

lemma loop_rules: "same_rules d (snd (for_each es (consider_session rts ev) acc d))"
proof (induction es arbitrary: acc d)
  case (Cons e es)
  obtain r d1 where one: "consider_session rts ev e acc d = (r, d1)" by fastforce
  with consider_rules [of d rts ev e acc] have "same_rules d d1" by simp
  with one Cons.IH [of d1] show ?case by (cases r) (auto simp: bnd_run intro: same_rules_trans)
qed (simp add: ret_def same_rules_def)

lemma snapshot_rules: "same_rules d (snd (schedule_snapshot rts ev n d))"
proof -
  obtain r d' where loop: "for_each (dv_sessions d) (consider_session rts ev) [] d = (r, d')" by fastforce
  with loop_rules [of d "dv_sessions d" rts ev "[]"] have "same_rules d d'" by simp
  with loop show ?thesis
    by (cases r) (auto simp: schedule_snapshot_def bnd_run gets_def require_that_def lift_res_def guard_res_def same_rules_def)
qed

lemma scheduler_reachable_ok: "scheduler_reachable d \<Longrightarrow> scheduler_ok d"
proof (induction rule: scheduler_reachable.induct)
  case (created p ss ws d)
  then show ?case by (auto simp: new_scheduler_def Let_def scheduler_ok_def js_map_distinct split: if_splits)
next
  case (stepped d op)
  then show ?case
  proof (cases op)
    case (Snapshot rts ev n)
    with stepped snapshot_rules [of d rts ev n] show ?thesis by (simp add: scheduler_ok_def same_rules_def)
  qed (auto simp: scheduler_ok_def pauseGroup_def resumeGroup_def cancelGroup_def pauseSession_def resumeSession_def requestRetry_def
      consumeRetry_def registerRepairWave_def requireSession_def forget_ready_def bnd_run gets_def modify_def require_that_def
      lift_res_def guard_res_def throw_def ret_def split: option.splits)
qed

section \<open>What a snapshot hands out\<close>

lemma candidate_order_ids: "mset (map ca_sessionId (candidate_order cs)) = mset (map ca_sessionId cs)"
  by (simp add: candidate_order_def)

lemma snapshot_result:
  assumes "schedule_snapshot rts ev n d = (Inr r, d')"
  obtains (idle) "dv_paused d \<or> dv_cancelled d \<or> sh_availableSlots r = 0" "sh_readySessionIds r = []"
      "sh_availableSlots r = max 0 (gp_maxParallelSessions (dv_policy d) - n)"
    | (ran) cs where "\<not> dv_paused d" "sh_availableSlots r = max 0 (gp_maxParallelSessions (dv_policy d) - n)"
      "sh_readySessionIds r = map ca_sessionId (take (nat (sh_availableSlots r)) (candidate_order cs))"
      "map ca_sessionId cs = map fst (filter (group_eligible rts ev d) (dv_sessions d))"
proof -
  let ?slots = "max 0 (gp_maxParallelSessions (dv_policy d) - n)"
  show ?thesis
  proof (cases "dv_paused d \<or> dv_cancelled d \<or> ?slots = 0")
    case True
    with assms show ?thesis
      by (intro idle) (auto simp: schedule_snapshot_def bnd_run gets_def require_that_def lift_res_def guard_res_def split: if_splits)
  next
    case False
    obtain q d1 where loop: "for_each (dv_sessions d) (consider_session rts ev) [] d = (q, d1)" by fastforce
    with assms False obtain cs where cs: "q = Inr cs" "sh_availableSlots r = ?slots"
      "sh_readySessionIds r = map ca_sessionId (take (nat ?slots) (candidate_order cs))"
      by (cases q) (auto simp: schedule_snapshot_def bnd_run gets_def require_that_def lift_res_def guard_res_def split: if_splits)
    with loop_result [OF loop [unfolded cs(1)]] False show ?thesis by (intro ran) auto
  qed
qed

text \<open>Whatever happened to a session scheduler before, a snapshot hands out distinct sessions, each of them not
  held, with its wave open, its dependencies delivered and its own status allowing a start (an unknown outcome
  never does, a failed or blocked session only after a requested retry within its attempts); not more than the
  free slots; none while the group is paused or cancelled; and otherwise it leaves an eligible session out only
  when all slots are taken.\<close>

theorem schedule_dispatches_eligible:
  assumes "scheduler_reachable d" "schedule_snapshot rts ev n d = (Inr r, d')"
  shows "distinct (sh_readySessionIds r) \<and>
    int (length (sh_readySessionIds r)) \<le> max 0 (gp_maxParallelSessions (dv_policy d) - n) \<and>
    (\<forall>k \<in> set (sh_readySessionIds r). \<exists>s. (k, s) \<in> set (dv_sessions d) \<and> group_eligible rts ev d (k, s)) \<and>
    (dv_paused d \<or> dv_cancelled d \<longrightarrow> sh_readySessionIds r = []) \<and>
    (\<not> dv_paused d \<longrightarrow> (\<forall>k s. (k, s) \<in> set (dv_sessions d) \<and> group_eligible rts ev d (k, s) \<longrightarrow>
       k \<in> set (sh_readySessionIds r) \<or> int (length (sh_readySessionIds r)) = max 0 (gp_maxParallelSessions (dv_policy d) - n)))"
proof -
  have ok: "scheduler_ok d" using assms(1) by (rule scheduler_reachable_ok)
  from assms(2) show ?thesis
  proof (cases rule: snapshot_result)
    case idle
    with ok show ?thesis by (auto simp: scheduler_ok_def)
  next
    case (ran cs)
    let ?m = "nat (sh_availableSlots r)" and ?all = "map ca_sessionId (candidate_order cs)"
    have ids: "sh_readySessionIds r = take ?m ?all" using ran(3) by (simp add: take_map)
    have m: "mset ?all = mset (map fst (filter (group_eligible rts ev d) (dv_sessions d)))"
      using candidate_order_ids ran(4) by metis
    have "distinct (map fst (filter (group_eligible rts ev d) (dv_sessions d)))"
      using ok by (simp add: scheduler_ok_def distinct_map_filter)
    then have dist: "distinct ?all" using m by (metis mset_eq_imp_distinct_iff)
    have members: "k \<in> set ?all \<longleftrightarrow> (\<exists>s. (k, s) \<in> set (dv_sessions d) \<and> group_eligible rts ev d (k, s))" for k
      using mset_eq_setD [OF m] by (simp add: set_eq_iff image_iff Bex_def)
    have len: "int ?m = max 0 (gp_maxParallelSessions (dv_policy d) - n)" using ran(2) by simp
    show ?thesis
      unfolding ids
    proof (intro conjI ballI allI impI)
      show "distinct (take ?m ?all)" using dist by (rule distinct_take)
      show "int (length (take ?m ?all)) \<le> max 0 (gp_maxParallelSessions (dv_policy d) - n)"
        using len [symmetric] by (simp only: length_take)
      show "\<exists>s. (k, s) \<in> set (dv_sessions d) \<and> group_eligible rts ev d (k, s)" if "k \<in> set (take ?m ?all)" for k
        using in_set_takeD [OF that] members by blast
      show "take ?m ?all = []" if "dv_paused d \<or> dv_cancelled d"
        using that ran(1) ok by (simp add: scheduler_ok_def)
      show "k \<in> set (take ?m ?all) \<or> int (length (take ?m ?all)) = max 0 (gp_maxParallelSessions (dv_policy d) - n)"
        if "(k, s) \<in> set (dv_sessions d) \<and> group_eligible rts ev d (k, s)" for k s
        using that members length_take_missing [of k ?all ?m] len by metis
    qed
  qed
qed

section \<open>Two waves\<close>

definition demo_group_policy :: group_policy where
  "demo_group_policy = \<lparr>gp_maxParallelSessions = 2, gp_maxSessionAttempts = 2, gp_maxRepairSessions = 1, gp_maxRepairWaves = 1,
     gp_maxSameFailureAttempts = 1, gp_maxSessionSubagents = 1, gp_permissionProfile = GStandard, gp_completionMode = StrictCompletion,
     gp_verificationPolicyRevision = ''v1'', gp_targetBranch = ''main'', gp_protectedPaths = [], gp_mandatoryTests = [''unit'']\<rparr>"

definition demo_session_definition :: "string \<Rightarrow> string \<Rightarrow> string list \<Rightarrow> session_definition" where
  "demo_session_definition sid wid deps = \<lparr>se_contract = ZERO3_DEVELOPMENT_SESSION_CONTRACT, se_groupId = ''g'', se_sessionId = sid,
     se_executionId = ''e'', se_waveId = wid, se_objective = ''o'', se_baselineSha = [], se_integrationRef = ''r'', se_branch = ''b'',
     se_worktree = ''w'', se_ownedPaths = [], se_readOnlyPaths = [], se_forbiddenPaths = [], se_dependencies = deps,
     se_requirements = [sid], se_inputs = [], se_acceptanceCriteria = [],
     se_executorPolicy = \<lparr>ep_executorId = ''codex'', ep_permissionProfile = GStandard, ep_approvalRequired = False\<rparr>,
     se_subagentPolicy = \<lparr>sp_allowed = False, sp_maxConcurrency = 1, sp_recursiveGroupCreation = False\<rparr>,
     se_deliveryPolicy = \<lparr>dp_requireCleanHead = True, dp_requireOwnershipValidation = True, dp_requireHandoff = False, dp_requireDeliveryHash = True\<rparr>\<rparr>"

definition demo_wave :: "string \<Rightarrow> int \<Rightarrow> string list \<Rightarrow> wave" where
  "demo_wave wid n deps = \<lparr>wa_groupId = ''g'', wa_waveId = wid, wa_ordinal = n, wa_sessionIds = [], wa_requiredSessionIds = [], wa_dependsOnWaveIds = deps\<rparr>"

definition demo_session_runtime :: "string \<Rightarrow> session_status \<Rightarrow> session_runtime" where
  "demo_session_runtime sid st = \<lparr>sr_groupId = ''g'', sr_sessionId = sid, sr_executionId = ''e'', sr_status = st, sr_attempt = 1, sr_writerGeneration = 1,
     sr_executorId = None, sr_executorSessionId = None, sr_executorGeneration = None, sr_headSha = None, sr_lastEventSequence = 0,
     sr_blocker = None, sr_updatedAt = ''now'', sr_undefined = []\<rparr>"

definition demo_scheduler :: scheduler where
  "demo_scheduler = \<lparr>dv_policy = demo_group_policy,
     dv_sessions = [(''s1'', demo_session_definition ''s1'' ''w1'' []), (''s2'', demo_session_definition ''s2'' ''w2'' [''s1'']),
       (''s3'', demo_session_definition ''s3'' ''w1'' [])],
     dv_waves = [(''w1'', demo_wave ''w1'' 1 []), (''w2'', demo_wave ''w2'' 2 [''w1''])], dv_readySince = [], dv_pausedSessions = [],
     dv_explicitRetries = [], dv_sequence = 0, dv_paused = False, dv_cancelled = False, dv_repairWavesUsed = 0\<rparr>"

lemma demo_scheduler_reachable: "scheduler_reachable demo_scheduler"
proof (rule scheduler_reachable.created)
  show "new_scheduler demo_group_policy [demo_session_definition ''s1'' ''w1'' [], demo_session_definition ''s2'' ''w2'' [''s1''],
      demo_session_definition ''s3'' ''w1'' []] [demo_wave ''w1'' 1 [], demo_wave ''w2'' 2 [''w1'']] = Inr demo_scheduler"
    by code_simp
qed

lemma schedule_dispatches_eligible_witness:
  "let rts = [demo_session_runtime ''s1'' DFailed, demo_session_runtime ''s2'' DPlanned, demo_session_runtime ''s3'' DPlanned];
       d = scheduler_step (RequestRetry (demo_session_runtime ''s1'' DFailed)) demo_scheduler;
       q = schedule_snapshot rts (\<lambda>_. None) 0 d
   in fst q = Inr \<lparr>sh_readySessionIds = [''s1'', ''s3''], sh_availableSlots = 2, sh_paused = False, sh_cancelled = False, sh_repairWavesUsed = 0\<rparr> \<and>
      (\<exists>s. group_eligible rts (\<lambda>_. None) d (''s1'', s))"
proof -
  define rts where "rts = [demo_session_runtime ''s1'' DFailed, demo_session_runtime ''s2'' DPlanned, demo_session_runtime ''s3'' DPlanned]"
  define d where "d = scheduler_step (RequestRetry (demo_session_runtime ''s1'' DFailed)) demo_scheduler"
  define q where "q = schedule_snapshot rts (\<lambda>_. None) 0 d"
  define r where "r = \<lparr>sh_readySessionIds = [''s1'', ''s3''], sh_availableSlots = 2, sh_paused = False, sh_cancelled = False, sh_repairWavesUsed = 0\<rparr>"
  have q: "fst q = Inr r" unfolding q_def rts_def d_def r_def by code_simp
  then have run: "schedule_snapshot rts (\<lambda>_. None) 0 d = (Inr r, snd q)" unfolding q_def by (metis prod.collapse)
  have "scheduler_reachable d" unfolding d_def by (rule scheduler_reachable.stepped [OF demo_scheduler_reachable])
  from schedule_dispatches_eligible [OF this run] have "\<exists>s. group_eligible rts (\<lambda>_. None) d (''s1'', s)" by (auto simp: r_def)
  with q show ?thesis unfolding Let_def q_def r_def rts_def d_def by blast
qed

end
