(* ===== verification/GroupCompletionCorrectness.thy ===== *)
theory GroupCompletionCorrectness
  imports GroupCompletion GroupCorrectness
begin

text \<open>The properties of the completion of a development group: which integrations count, and what a proof shows.\<close>

section \<open>The final chain\<close>

text \<open>The merged milestone with a given head, and the histories it starts.\<close>

definition merged_head :: "milestone list \<Rightarrow> string \<Rightarrow> milestone option" where
  "merged_head ms = by_key ml_headSha (filter (\<lambda>r. ml_status r = MilestoneMerged) ms)"

definition agrees :: "milestone \<Rightarrow> milestone \<Rightarrow> bool" where
  "agrees a b \<longleftrightarrow> (ml_status a = MilestoneMerged \<longrightarrow> ml_status b = MilestoneMerged \<longrightarrow> ml_headSha a = ml_headSha b \<longrightarrow>
     ml_integrationRunId a = ml_integrationRunId b)"

definition unambiguous :: "milestone list \<Rightarrow> bool" where
  "unambiguous ms \<longleftrightarrow> (\<forall>a \<in> set ms. \<forall>b \<in> set ms. agrees a b)"

lemma agrees_sym: "agrees a b \<Longrightarrow> agrees b a"
  by (simp add: agrees_def)

lemma agrees_refl: "agrees a a"
  by (simp add: agrees_def)

definition final_chain :: "milestone list \<Rightarrow> string \<Rightarrow> string set" where
  "final_chain ms sha = {ml_integrationRunId r | h r. (sha, h) \<in> (ancestry (merged_head ms))\<^sup>* \<and> merged_head ms h = Some r}"

definition cyclic_history :: "milestone list \<Rightarrow> string \<Rightarrow> bool" where
  "cyclic_history ms sha \<longleftrightarrow> (\<exists>h. (sha, h) \<in> (ancestry (merged_head ms))\<^sup>* \<and> (h, h) \<in> (ancestry (merged_head ms))\<^sup>+)"

lemma merged_head_Some:
  "merged_head ms h = Some r \<Longrightarrow> r \<in> set ms \<and> ml_status r = MilestoneMerged \<and> ml_headSha r = h"
  unfolding merged_head_def by_key_def by (auto dest!: map_get_Some)

lemma merged_head_snoc:
  "merged_head (ms @ [r]) = (if ml_status r = MilestoneMerged then (merged_head ms)(ml_headSha r \<mapsto> r) else merged_head ms)"
  unfolding merged_head_def by_key_def map_get_def by (auto simp: find_key_def)

lemma merged_head_None: "merged_head ms h = None \<longleftrightarrow> (\<forall>r \<in> set ms. ml_status r = MilestoneMerged \<longrightarrow> ml_headSha r \<noteq> h)"
  unfolding merged_head_def by_key_def by auto

lemma unambiguous_run:
  "unambiguous ms \<Longrightarrow> r \<in> set ms \<Longrightarrow> ml_status r = MilestoneMerged \<Longrightarrow> merged_head ms (ml_headSha r) = Some x \<Longrightarrow>
     ml_integrationRunId x = ml_integrationRunId r"
  using merged_head_Some unfolding unambiguous_def agrees_def by blast

lemma unambiguous_snoc:
  "unambiguous (ms @ [r]) \<longleftrightarrow> unambiguous ms \<and> (\<forall>y \<in> set ms. agrees y r)"
  using agrees_sym agrees_refl unfolding unambiguous_def by auto

lemma merged_by_head_result:
  assumes "unambiguous seen"
  shows "case merged_by_head rs (merged_head seen) of Inr m \<Rightarrow> unambiguous (seen @ rs) \<and> m = merged_head (seen @ rs)
    | Inl e \<Rightarrow> \<not> unambiguous (seen @ rs)"
  using assms
proof (induction rs arbitrary: seen)
  case (Cons r rs)
  note ih = Cons.IH [of "seen @ [r]"]
  show ?case
  proof (cases "ml_status r = MilestoneMerged")
    case False
    with Cons.prems have "unambiguous (seen @ [r])" by (simp add: unambiguous_snoc agrees_def)
    from ih [OF this] False show ?thesis by (simp add: merged_head_snoc split: sum.splits)
  next
    case True
    show ?thesis
    proof (cases "\<exists>x. merged_head seen (ml_headSha r) = Some x \<and> ml_integrationRunId x \<noteq> ml_integrationRunId r")
      case clash: True
      then obtain x where x: "merged_head seen (ml_headSha r) = Some x" "ml_integrationRunId x \<noteq> ml_integrationRunId r" by blast
      have "x \<in> set (seen @ r # rs)" "r \<in> set (seen @ r # rs)" using merged_head_Some [OF x(1)] by auto
      with True x merged_head_Some [OF x(1)] have "\<not> unambiguous (seen @ r # rs)" unfolding unambiguous_def agrees_def by blast
      with True x show ?thesis by simp
    next
      case calm: False
      then have same: "ml_integrationRunId y = ml_integrationRunId r"
        if "y \<in> set seen" "ml_status y = MilestoneMerged" "ml_headSha y = ml_headSha r" for y
        using that unambiguous_run [OF Cons.prems] by (metis merged_head_None not_None_eq)
      with Cons.prems have "unambiguous (seen @ [r])" by (simp add: unambiguous_snoc agrees_def)
      note ih = ih [OF this]
      have "merged_by_head (r # rs) (merged_head seen) = merged_by_head rs (merged_head (seen @ [r]))"
        using True calm by (cases "merged_head seen (ml_headSha r)") (simp_all add: merged_head_snoc)
      with ih show ?thesis by (simp split: sum.splits)
    qed
  qed
qed simp

lemma final_runs_result:
  "(case finalIntegrationRunIds ms sha of
      Inr chain \<Rightarrow> unambiguous ms \<and> \<not> cyclic_history ms sha \<and> set chain = final_chain ms sha
    | Inl e \<Rightarrow> \<not> unambiguous ms \<or> cyclic_history ms sha)"
proof -
  have start: "(\<lambda>_. None) = merged_head []" by (rule ext, subst eq_commute, subst merged_head_None) simp
  have merged: "case merged_by_head ms (\<lambda>_. None) of Inr m \<Rightarrow> unambiguous ms \<and> m = merged_head ms | Inl e \<Rightarrow> \<not> unambiguous ms"
    using merged_by_head_result [of "[]" ms] unfolding start append_Nil by (simp add: unambiguous_def cong: sum.case_cong)
  have "dom (merged_head ms) \<subseteq> set (map ml_headSha ms)" using merged_head_Some by fastforce
  note walk = walk_result [OF this, of "[]" sha "[]"]
  show ?thesis
    using merged walk unfolding finalIntegrationRunIds_def final_chain_def cyclic_history_def by (auto split: sum.splits)
qed

lemma final_runs: "finalIntegrationRunIds ms sha = Inr chain \<Longrightarrow> set chain = final_chain ms sha"
  using final_runs_result [of ms sha] by simp

subsection \<open>A concrete group\<close>

text \<open>Two requirements of two sessions, merged one after the other, and the verification of the second head.\<close>

definition demo_sha :: "char \<Rightarrow> string" where
  "demo_sha c = replicate 40 c"

definition demo_milestone :: "string \<Rightarrow> string \<Rightarrow> string \<Rightarrow> string \<Rightarrow> string \<Rightarrow> milestone" where
  "demo_milestone run base head s hash = \<lparr>ml_integrationRunId = run, ml_groupId = ''g'', ml_baseSha = base, ml_headSha = head,
     ml_deliveryHashes = [hash], ml_mergedSessionIds = [s], ml_status = MilestoneMerged, ml_conflicts = [], ml_createdAt = ''t''\<rparr>"

definition demo_milestones :: "milestone list" where
  "demo_milestones = [demo_milestone ''i1'' (demo_sha CHR ''a'') (demo_sha CHR ''b'') ''s1'' ''h1'',
     demo_milestone ''i2'' (demo_sha CHR ''b'') (demo_sha CHR ''c'') ''s2'' ''h2'']"

lemma demo_chain: "finalIntegrationRunIds demo_milestones (demo_sha CHR ''c'') = Inr [''i2'', ''i1'']"
  by code_simp

text \<open>C35: Collecting the integrations of the final state always ends. It answers the integration runs whose merged
  heads lie on the history of the final head, found by going from each head to its base; it fails exactly when two runs
  merged to one head or when that history runs in a circle.\<close>

theorem finalIntegrationRunIds_correct:
  "(case finalIntegrationRunIds ms sha of
      Inr chain \<Rightarrow> unambiguous ms \<and> \<not> cyclic_history ms sha \<and> set chain = final_chain ms sha
    | Inl e \<Rightarrow> \<not> unambiguous ms \<or> cyclic_history ms sha)"
  by (rule final_runs_result)

lemma finalIntegrationRunIds_correct_witness:
  "final_chain demo_milestones (demo_sha CHR ''c'') = {''i1'', ''i2''} \<and> \<not> cyclic_history demo_milestones (demo_sha CHR ''c'')"
  using finalIntegrationRunIds_correct [of demo_milestones "demo_sha CHR ''c''"] unfolding demo_chain by auto

section \<open>What a completion proof shows\<close>

text \<open>A requirement is closed by its waiver, or by the completed delivery of its session that a run of the final chain merged,
  under a verification of the final state.\<close>

definition waived :: "completion_input \<Rightarrow> requirement \<Rightarrow> bool" where
  "waived i r \<longleftrightarrow> gp_completionMode (ci_policy i) \<noteq> StrictCompletion \<and> (\<exists>w. ci_waivers i (rq_requirementId r) = Some w \<and>
     filled (wv_approvedBy w) \<and> filled (wv_reason w) \<and> wv_evidence w \<noteq> [])"

definition delivered :: "completion_input \<Rightarrow> session_definition \<Rightarrow> delivery \<Rightarrow> bool" where
  "delivered i s dl \<longleftrightarrow> by_key dl_sessionId (ci_deliveries i) (se_sessionId s) = Some dl \<and> dl_status dl = DeliveryCompleted \<and>
     dl_deliveryHash dl \<in> set (ci_validDeliveryHashes i)"

definition in_final_state :: "completion_input \<Rightarrow> session_definition \<Rightarrow> delivery \<Rightarrow> bool" where
  "in_final_state i s dl \<longleftrightarrow> (\<exists>m \<in> set (ci_integrations i). ml_integrationRunId m \<in> final_chain (ci_integrations i) (ci_finalIntegrationSha i) \<and>
     se_sessionId s \<in> set (ml_mergedSessionIds m) \<and> dl_deliveryHash dl \<in> set (ml_deliveryHashes m))"

definition closed_requirement :: "completion_input \<Rightarrow> requirement \<Rightarrow> bool" where
  "closed_requirement i r \<longleftrightarrow> waived i r \<or> (\<exists>s \<in> set (ci_sessions i). rq_requirementId r \<in> set (se_requirements s) \<and>
     (\<exists>dl. delivered i s dl \<and> in_final_state i s dl))"

lemma assigned_session:
  "assign_requirements ps m = Inr m' \<Longrightarrow> m' r = Some s \<Longrightarrow> m r = Some s \<or> (r, s) \<in> set ps"
  by (induction ps m rule: assign_requirements.induct) (auto split: if_splits)

lemma mandatory_coverage:
  assumes "requirement_coverage_issues (map (requirement_coverage mi owner chain) rs) r = []" "r \<in> set rs" "rq_mandatory r"
  shows "(let c = requirement_coverage mi owner chain r in cv_state c = CVerified \<or> (cv_state c = CWaived \<and>
    (\<exists>w. cv_waiver c = Some w \<and> filled (wv_approvedBy w) \<and> filled (wv_reason w) \<and> wv_evidence w \<noteq> [])))"
proof -
  have key: "cv_requirementId (requirement_coverage mi owner chain q) = rq_requirementId q" for q
    by (simp add: requirement_coverage_def delivered_coverage_def bare_coverage_def Let_def split: option.split)
  have same: "requirement_coverage mi owner chain q = requirement_coverage mi owner chain r" if "rq_requirementId q = rq_requirementId r" for q
    using that by (simp add: requirement_coverage_def delivered_coverage_def Let_def split: option.split)
  have "by_key cv_requirementId (map (requirement_coverage mi owner chain) rs) (rq_requirementId r) = Some (requirement_coverage mi owner chain r)"
  proof (cases "by_key cv_requirementId (map (requirement_coverage mi owner chain) rs) (rq_requirementId r)")
    case None
    with assms(2) show ?thesis unfolding by_key_def by (auto simp: image_iff key)
  next
    case (Some c)
    then obtain q where "c = requirement_coverage mi owner chain q" "rq_requirementId q = rq_requirementId r"
      unfolding by_key_def using key by (auto dest!: map_get_Some)
    with Some same show ?thesis by metis
  qed
  with assms(1,3) show ?thesis
    by (auto simp: requirement_coverage_issues_def Let_def split: option.splits)
qed

lemma verified_coverage:
  assumes "cv_state (requirement_coverage (matrix_input_of i) owner chain r) = CVerified"
    "\<And>s. owner (rq_requirementId r) = Some s \<Longrightarrow> s \<in> set (ci_sessions i) \<and> rq_requirementId r \<in> set (se_requirements s)"
    "set chain = final_chain (ci_integrations i) (ci_finalIntegrationSha i)"
  shows "closed_requirement i r"
proof -
  from assms(1) obtain s dl where s: "owner (rq_requirementId r) = Some s" and dl: "by_key dl_sessionId (ci_deliveries i) (se_sessionId s) = Some dl"
    and verified: "cv_state (delivered_coverage (matrix_input_of i) chain r s dl) = CVerified"
    by (auto simp: requirement_coverage_def bare_coverage_def matrix_input_of_def split: option.splits)
  from verified have "dl_status dl = DeliveryCompleted" "dl_deliveryHash dl \<in> set (ci_validDeliveryHashes i)"
    by (auto simp: delivered_coverage_def bare_coverage_def matrix_input_of_def Let_def split: if_splits)
  moreover from verified obtain m where "List.find (merged_in chain s dl) (ci_integrations i) = Some m"
    by (auto simp: delivered_coverage_def bare_coverage_def matrix_input_of_def Let_def split: if_splits option.splits)
  then have "m \<in> set (ci_integrations i)" "merged_in chain s dl m" by (auto simp: find_Some_iff)
  ultimately show ?thesis
    using assms(2) [OF s] assms(3) dl unfolding closed_requirement_def delivered_def in_final_state_def merged_in_def by blast
qed

lemma waived_coverage:
  "cv_state (requirement_coverage mi owner chain r) = CWaived \<Longrightarrow>
     \<exists>w. mi_waivers mi (rq_requirementId r) = Some w \<and> cv_waiver (requirement_coverage mi owner chain r) = Some w"
  by (auto simp: requirement_coverage_def delivered_coverage_def bare_coverage_def Let_def split: option.splits if_splits)

lemma no_issues:
  assumes "buildCompletionProof now i = Inr res" "assertGroupCompletable res = Inr p"
  obtains matrix where "buildRequirementEvidenceMatrix (matrix_input_of i) = Inr matrix" "p = completion_proof_of now i matrix"
    "completion_issues i matrix p = []"
  using assms by (auto simp: buildCompletionProof_def assertGroupCompletable_def Let_def split: sum.splits if_splits)

lemma closed_matrix:
  assumes "buildRequirementEvidenceMatrix (matrix_input_of i) = Inr matrix" "r \<in> set (ci_requirements i)" "rq_mandatory r"
    "requirement_coverage_issues matrix r = []" "gp_completionMode (ci_policy i) = StrictCompletion \<Longrightarrow> \<not> list_ex (\<lambda>c. cv_state c = CWaived) matrix"
  shows "closed_requirement i r"
proof -
  from assms(1) obtain owner chain where owner: "assign_requirements (requirement_pairs (ci_sessions i)) (\<lambda>_. None) = Inr owner"
    and chain: "finalIntegrationRunIds (ci_integrations i) (ci_finalIntegrationSha i) = Inr chain"
    and matrix: "matrix = map (requirement_coverage (matrix_input_of i) owner chain) (ci_requirements i)"
    by (auto simp: buildRequirementEvidenceMatrix_def matrix_input_of_def split: sum.splits)
  have assigned: "s \<in> set (ci_sessions i) \<and> rq_requirementId r \<in> set (se_requirements s)" if "owner (rq_requirementId r) = Some s" for s
    using assigned_session [OF owner that] by (auto simp: requirement_pairs_def)
  have "set chain = final_chain (ci_integrations i) (ci_finalIntegrationSha i)" using final_runs [OF chain] .
  note verified = verified_coverage [OF _ assigned this]
  show ?thesis
  proof (cases "cv_state (requirement_coverage (matrix_input_of i) owner chain r) = CVerified")
    case True
    from verified [OF this] show ?thesis .
  next
    case False
    with mandatory_coverage [OF assms(4) [unfolded matrix] assms(2,3)] obtain w where
      w: "cv_state (requirement_coverage (matrix_input_of i) owner chain r) = CWaived" "filled (wv_approvedBy w)" "filled (wv_reason w)" "wv_evidence w \<noteq> []"
        "cv_waiver (requirement_coverage (matrix_input_of i) owner chain r) = Some w" by (auto simp: Let_def)
    with waived_coverage [OF w(1)] have "ci_waivers i (rq_requirementId r) = Some w" by (simp add: matrix_input_of_def)
    moreover have "list_ex (\<lambda>c. cv_state c = CWaived) matrix" unfolding matrix using assms(2) w(1) by (auto simp: list_ex_iff)
    with assms(5) have "gp_completionMode (ci_policy i) \<noteq> StrictCompletion" by blast
    ultimately show ?thesis using w unfolding closed_requirement_def waived_def by blast
  qed
qed

lemma covered_session:
  "dc_valid (session_delivery_coverage i s) \<Longrightarrow> \<exists>dl. delivered i s dl"
  by (auto simp: session_delivery_coverage_def delivered_def split: option.splits)

lemma accepted_proof_shows:
  assumes "buildCompletionProof now i = Inr res" "assertGroupCompletable res = Inr p"
  shows "(\<forall>r \<in> set (ci_requirements i). rq_mandatory r \<longrightarrow> closed_requirement i r) \<and>
    (\<forall>s \<in> set (ci_sessions i). \<exists>dl. delivered i s dl) \<and>
    (\<forall>q \<in> set (ci_runtimes i). sr_status q \<noteq> DOutcomeUnknown) \<and> ci_unresolvedBlockers i = [] \<and>
    (\<exists>m \<in> set (ci_integrations i). ml_status m = MilestoneMerged \<and> ml_headSha m = ci_finalIntegrationSha i) \<and>
    (\<exists>v \<in> set (ci_verifications i). proof_verification_qualifies v (ci_finalIntegrationSha i) (ci_policy i))"
proof -
  obtain matrix where built: "buildRequirementEvidenceMatrix (matrix_input_of i) = Inr matrix" and p: "p = completion_proof_of now i matrix"
    and issues: "completion_issues i matrix p = []" using no_issues [OF assms] .
  have valid: "validateGroupCompletionProof p (ci_requirements i) (ci_deliveries i) (ci_verifications i) = []"
    and sessions: "\<forall>c \<in> set (cp_sessionDeliveryCoverage p). dc_valid c"
    and strict: "gp_completionMode (ci_policy i) = StrictCompletion \<Longrightarrow> \<not> list_ex (\<lambda>c. cv_state c = CWaived) matrix"
    using issues by (auto simp: completion_issues_def)
  have "\<forall>r \<in> set (ci_requirements i). requirement_coverage_issues matrix r = []"
    using valid by (simp add: validateGroupCompletionProof_def p completion_proof_of_def)
  then have "\<forall>r \<in> set (ci_requirements i). rq_mandatory r \<longrightarrow> closed_requirement i r" using closed_matrix [OF built] strict by blast
  moreover have "\<forall>s \<in> set (ci_sessions i). \<exists>dl. delivered i s dl"
    using sessions covered_session by (auto simp: p completion_proof_of_def)
  moreover have "\<forall>q \<in> set (ci_runtimes i). sr_status q \<noteq> DOutcomeUnknown" "ci_unresolvedBlockers i = []"
    "integration_at MilestoneMerged i" "passed_verifications i \<noteq> []"
    using valid by (auto simp: validateGroupCompletionProof_def p completion_proof_of_def filter_empty_conv split: if_splits)
  ultimately show ?thesis
    unfolding integration_at_def passed_verifications_def list_ex_iff filter_empty_conv by blast
qed

text \<open>C5: A group whose completion proof is accepted is complete: each mandatory requirement is closed by a merged, verified delivery
  of its session or, outside the strict mode, by an approved waiver with evidence; every planned session made a valid
  completed delivery; no session has an unknown outcome and no blocker is open; and the final state is the head of a merged
  integration with a passed verification under the current policy and its mandatory tests.\<close>

theorem accepted_group_is_complete:
  assumes "buildCompletionProof now i = Inr res" "assertGroupCompletable res = Inr p"
  shows "(\<forall>r \<in> set (ci_requirements i). rq_mandatory r \<longrightarrow> closed_requirement i r) \<and>
    (\<forall>s \<in> set (ci_sessions i). \<exists>dl. delivered i s dl) \<and>
    (\<forall>q \<in> set (ci_runtimes i). sr_status q \<noteq> DOutcomeUnknown) \<and> ci_unresolvedBlockers i = [] \<and>
    (\<exists>m \<in> set (ci_integrations i). ml_status m = MilestoneMerged \<and> ml_headSha m = ci_finalIntegrationSha i) \<and>
    (\<exists>v \<in> set (ci_verifications i). proof_verification_qualifies v (ci_finalIntegrationSha i) (ci_policy i))"
  using assms by (rule accepted_proof_shows)


definition demo_requirement :: "string \<Rightarrow> requirement" where
  "demo_requirement r = \<lparr>rq_groupId = ''g'', rq_requirementId = r, rq_title = ''t'', rq_description = ''d'', rq_mandatory = True,
     rq_acceptanceCriteria = [''works''], rq_sourceAnchor = ''plan'', rq_proposedOwner = None, rq_dependencies = [], rq_undefined = []\<rparr>"

definition demo_delivery :: "string \<Rightarrow> string \<Rightarrow> string \<Rightarrow> delivery" where
  "demo_delivery s r hash = \<lparr>dl_contract = ZERO3_DEVELOPMENT_DELIVERY_CONTRACT, dl_groupId = ''g'', dl_sessionId = s, dl_executionId = ''e'',
     dl_status = DeliveryCompleted, dl_baseSha = demo_sha CHR ''a'', dl_headSha = demo_sha CHR ''b'', dl_changedPaths = [],
     dl_requirements = [r], dl_testsAdded = [], dl_testsExecuted = [''unit''], dl_artifacts = [], dl_knownIssues = [],
     dl_downstreamNotes = [], dl_handoffCheckpoint = None, dl_deliveryHash = hash, dl_createdAt = ''t''\<rparr>"

definition demo_verification :: verification_run where
  "demo_verification = \<lparr>vn_runId = ''v1'', vn_groupId = ''g'', vn_integrationSha = demo_sha CHR ''c'', vn_policyRevision = ''v1'',
     vn_commands = [\<lparr>vc_id = ''unit'', vc_command = ''run'', vc_cwd = None, vc_platform = AnyPlatform, vc_required = True\<rparr>],
     vn_results = [\<lparr>vr_commandId = ''unit'', vr_status = ResultPassed, vr_exitCode = Some 0, vr_evidence = [''ok'']\<rparr>],
     vn_environment = [], vn_startedAt = ''t'', vn_finishedAt = Some ''t'', vn_status = RunPassed\<rparr>"

definition demo_completion :: completion_input where
  "demo_completion = \<lparr>ci_groupId = ''g'', ci_policy = demo_group_policy\<lparr>gp_completionMode := StrictCompletion, gp_verificationPolicyRevision := ''v1'',
       gp_mandatoryTests := [''unit'']\<rparr>,
     ci_requirements = [demo_requirement ''r1'', demo_requirement ''r2''],
     ci_sessions = [(demo_session_definition ''s1'' ''w1'' [])\<lparr>se_requirements := [''r1'']\<rparr>,
       (demo_session_definition ''s2'' ''w2'' [''s1''])\<lparr>se_requirements := [''r2'']\<rparr>],
     ci_runtimes = [demo_session_runtime ''s1'' DVerified, demo_session_runtime ''s2'' DVerified],
     ci_deliveries = [demo_delivery ''s1'' ''r1'' ''h1'', demo_delivery ''s2'' ''r2'' ''h2''], ci_validDeliveryHashes = [''h1'', ''h2''],
     ci_integrations = demo_milestones, ci_verifications = [demo_verification], ci_finalIntegrationSha = demo_sha CHR ''c'',
     ci_unresolvedBlockers = [], ci_waivers = (\<lambda>_. None), ci_generatedAt = None\<rparr>"

lemma demo_completion_proof:
  "(case buildCompletionProof ''now'' demo_completion of Inl e \<Rightarrow> False | Inr r \<Rightarrow> snd r = [])"
  by code_simp

lemma accepted_group_is_complete_witness:
  "closed_requirement demo_completion (demo_requirement ''r1'')"
proof -
  obtain p where "buildCompletionProof ''now'' demo_completion = Inr (p, [])"
    using demo_completion_proof by (auto split: sum.splits)
  moreover have "assertGroupCompletable (p, []) = Inr p" by (simp add: assertGroupCompletable_def)
  ultimately have "\<forall>r \<in> set (ci_requirements demo_completion). rq_mandatory r \<longrightarrow> closed_requirement demo_completion r"
    using accepted_group_is_complete [of "''now''" demo_completion "(p, [])" p] by blast
  moreover have "demo_requirement ''r1'' \<in> set (ci_requirements demo_completion)" "rq_mandatory (demo_requirement ''r1'')"
    by (simp_all add: demo_completion_def demo_requirement_def)
  ultimately show ?thesis by blast
qed

end
