(* ===== verification/GroupWorkspaceCorrectness.thy ===== *)
theory GroupWorkspaceCorrectness
  imports GroupWorkspace GroupCompletionCorrectness
begin

text \<open>The properties of path patterns, of the ownership audit and of the delivery gate.\<close>

section \<open>What a pattern means\<close>

fun atom_lang :: "glob_atom \<Rightarrow> string set" where
  "atom_lang (Exactly c) = {[c]}"
| "atom_lang OneChar = {[x] | x. x \<noteq> CHR ''/''}"
| "atom_lang AnySegment = {w. CHR ''/'' \<notin> set w}"
| "atom_lang AnyText = {w. \<forall>x \<in> set w. \<not> line_end x}"
| "atom_lang AnyDirs = insert [] {w @ ''/'' | w. \<forall>x \<in> set w. \<not> line_end x}"

fun glob_lang :: "glob_atom list \<Rightarrow> string set" where
  "glob_lang [] = {[]}"
| "glob_lang (a # as) = {u @ v | u v. u \<in> atom_lang a \<and> v \<in> glob_lang as}"

definition after_dirs :: "glob_atom list \<Rightarrow> string \<Rightarrow> bool" where
  "after_dirs as s \<longleftrightarrow> (\<exists>w v. s = w @ CHR ''/'' # v \<and> (\<forall>x \<in> set w. \<not> line_end x) \<and> v \<in> glob_lang as)"

lemma after_dirs_Nil [simp]: "\<not> after_dirs as []"
  by (simp add: after_dirs_def)

lemma after_dirs_Cons:
  "after_dirs as (x # r) \<longleftrightarrow> (x = CHR ''/'' \<and> r \<in> glob_lang as) \<or> (\<not> line_end x \<and> after_dirs as r)"
proof
  assume "after_dirs as (x # r)"
  then obtain w v where s: "x # r = w @ CHR ''/'' # v" and w: "\<forall>x \<in> set w. \<not> line_end x" and v: "v \<in> glob_lang as"
    unfolding after_dirs_def by blast
  show "(x = CHR ''/'' \<and> r \<in> glob_lang as) \<or> (\<not> line_end x \<and> after_dirs as r)"
    using s w v by (cases w) (auto simp: after_dirs_def)
next
  assume "(x = CHR ''/'' \<and> r \<in> glob_lang as) \<or> (\<not> line_end x \<and> after_dirs as r)"
  then show "after_dirs as (x # r)"
  proof
    assume "x = CHR ''/'' \<and> r \<in> glob_lang as"
    then show ?thesis unfolding after_dirs_def by (intro exI [of _ "[]"] exI [of _ r]) auto
  next
    assume "\<not> line_end x \<and> after_dirs as r"
    then show ?thesis unfolding after_dirs_def by (metis append_Cons set_ConsD)
  qed
qed

text \<open>A star of characters takes none, or one and goes on.\<close>

lemma star_step:
  assumes "\<And>w. w \<in> L \<longleftrightarrow> (\<forall>x \<in> set w. P x)"
  shows "(\<exists>u v. s = u @ v \<and> u \<in> L \<and> v \<in> K) \<longleftrightarrow> s \<in> K \<or> (\<exists>x r. s = x # r \<and> P x \<and> (\<exists>u v. r = u @ v \<and> u \<in> L \<and> v \<in> K))"
proof
  assume "\<exists>u v. s = u @ v \<and> u \<in> L \<and> v \<in> K"
  then obtain u v where "s = u @ v" "u \<in> L" "v \<in> K" by blast
  then show "s \<in> K \<or> (\<exists>x r. s = x # r \<and> P x \<and> (\<exists>u v. r = u @ v \<and> u \<in> L \<and> v \<in> K))"
    by (cases u) (auto simp: assms)
next
  assume "s \<in> K \<or> (\<exists>x r. s = x # r \<and> P x \<and> (\<exists>u v. r = u @ v \<and> u \<in> L \<and> v \<in> K))"
  then show "\<exists>u v. s = u @ v \<and> u \<in> L \<and> v \<in> K"
  proof
    assume "s \<in> K"
    then show ?thesis by (intro exI [of _ "[]"] exI [of _ s]) (simp add: assms)
  next
    assume "\<exists>x r. s = x # r \<and> P x \<and> (\<exists>u v. r = u @ v \<and> u \<in> L \<and> v \<in> K)"
    then obtain x u v where "s = (x # u) @ v" "x # u \<in> L" "v \<in> K" by (auto simp: assms)
    then show ?thesis by blast
  qed
qed

lemma glob_match_lang: "glob_match as s \<longleftrightarrow> s \<in> glob_lang as"
  and glob_dirs_lang: "glob_dirs as s \<longleftrightarrow> after_dirs as s"
proof (induction as s and as s rule: glob_match_glob_dirs.induct)
  case (4 as s)
  have "(\<exists>u v. s = u @ v \<and> u \<in> atom_lang AnySegment \<and> v \<in> glob_lang as) \<longleftrightarrow> s \<in> glob_lang as \<or>
      (\<exists>x r. s = x # r \<and> x \<noteq> CHR ''/'' \<and> (\<exists>u v. r = u @ v \<and> u \<in> atom_lang AnySegment \<and> v \<in> glob_lang as))"
    by (rule star_step) auto
  with 4 show ?case by (auto split: list.splits)
next
  case (5 as s)
  have "(\<exists>u v. s = u @ v \<and> u \<in> atom_lang AnyText \<and> v \<in> glob_lang as) \<longleftrightarrow> s \<in> glob_lang as \<or>
      (\<exists>x r. s = x # r \<and> \<not> line_end x \<and> (\<exists>u v. r = u @ v \<and> u \<in> atom_lang AnyText \<and> v \<in> glob_lang as))"
    by (rule star_step) auto
  with 5 show ?case by (auto split: list.splits)
next
  case (6 as s)
  have "s \<in> glob_lang (AnyDirs # as) \<longleftrightarrow> s \<in> glob_lang as \<or> after_dirs as s"
    unfolding after_dirs_def by (auto simp: append_assoc) (metis append_Cons append_Nil append_assoc)+
  with 6 show ?case by simp
next
  case (2 c as s)
  then show ?case by (cases s) auto
next
  case (3 as s)
  have "x # r \<in> glob_lang (OneChar # as) \<longleftrightarrow> x \<noteq> CHR ''/'' \<and> r \<in> glob_lang as" for x r
    by (auto intro: exI [of _ "[x]"])
  with 3 show ?case by (cases s) auto
next
  case (8 as x r)
  then show ?case by (simp add: after_dirs_Cons)
qed simp_all

section \<open>Who may change a path\<close>

text \<open>The path the patterns are held against; the audit, the classification and the match each normalize it.\<close>

definition held_path :: "string \<Rightarrow> string" where
  "held_path p = normalizePath (normalizePath (normalizePath p))"

definition covered :: "string list \<Rightarrow> string \<Rightarrow> bool" where
  "covered patterns p \<longleftrightarrow> (\<exists>q \<in> set patterns. held_path p \<in> glob_lang (globToRegExp q))"

definition may_change :: "session_definition \<Rightarrow> string list \<Rightarrow> string \<Rightarrow> bool" where
  "may_change s exceptions p \<longleftrightarrow> covered exceptions p \<or>
     (covered (se_ownedPaths s) p \<and> \<not> covered (se_forbiddenPaths s) p \<and> \<not> covered (se_readOnlyPaths s) p)"

lemma strip_slashes_Nil: "strip_slashes s = [] \<longleftrightarrow> (\<forall>c \<in> set s. c = CHR ''/'')"
proof (cases "dropWhile (\<lambda>c. c = CHR ''/'') s")
  case Nil
  then have "\<forall>c \<in> set s. c = CHR ''/''" by (simp add: dropWhile_eq_Nil_conv)
  then show ?thesis unfolding strip_slashes_def Nil by simp
next
  case (Cons y ys)
  then have "y \<noteq> CHR ''/''" by (auto simp: dropWhile_eq_Cons_conv)
  moreover have "y \<in> set s" using set_dropWhileD [of y "\<lambda>c. c = CHR ''/''" s] Cons by simp
  ultimately have "\<not> (\<forall>c \<in> set s. c = CHR ''/'')" by blast
  moreover have "strip_slashes s \<noteq> []"
    unfolding strip_slashes_def Cons using \<open>y \<noteq> CHR ''/''\<close> by (simp add: dropWhile_eq_Nil_conv)
  ultimately show ?thesis by blast
qed

lemma strip_slashes_last: "strip_slashes s \<noteq> [] \<Longrightarrow> last (strip_slashes s) \<noteq> CHR ''/''"
  unfolding strip_slashes_def last_rev by (rule hd_dropWhile) simp

lemma normalizePath_slashes: "forward_slashes (normalizePath p) = normalizePath p"
proof -
  have "CHR 0x5C \<notin> set (forward_slashes p)" by (auto simp: forward_slashes_def)
  then have "CHR 0x5C \<notin> set (normalizePath p)"
    unfolding normalizePath_def strip_slashes_def drop_dot_def by (auto dest!: set_dropWhileD in_set_dropD split: if_splits)
  then show ?thesis unfolding forward_slashes_def by (intro map_idI) auto
qed

lemma normalizePath_filled: "normalizePath p \<noteq> [] \<Longrightarrow> normalizePath (normalizePath p) \<noteq> []"
proof -
  let ?n = "normalizePath p"
  assume n: "?n \<noteq> []"
  then have last: "last ?n \<noteq> CHR ''/''" unfolding normalizePath_def by (rule strip_slashes_last)
  have "drop_dot ?n \<noteq> [] \<and> last (drop_dot ?n) = last ?n"
  proof (cases "take 2 ?n = ''./''")
    case True
    then obtain r where r: "?n = CHR ''.'' # CHR ''/'' # r" by (metis append_Cons append_Nil append_take_drop_id)
    with last have "r \<noteq> []" by auto
    with r show ?thesis by (simp add: drop_dot_def numeral_2_eq_2)
  qed (simp add: drop_dot_def n)
  with last have "\<exists>c \<in> set (drop_dot ?n). c \<noteq> CHR ''/''" by (metis last_in_set)
  then show ?thesis unfolding normalizePath_def [of ?n] normalizePath_slashes strip_slashes_Nil by blast
qed

lemma held_path_filled: "normalizePath p \<noteq> [] \<Longrightarrow> held_path p \<noteq> []"
  unfolding held_path_def by (intro normalizePath_filled)

lemma glob_atoms_Nil: "glob_atoms s = [] \<longleftrightarrow> s = []"
  by (cases s) (auto split: list.splits)

lemma matched_pattern_covered:
  assumes "normalizePath p \<noteq> []"
  shows "matched_pattern (normalizePath (normalizePath p)) patterns = None \<longleftrightarrow> \<not> covered patterns p"
proof -
  have "\<not> glob_match (globToRegExp []) (held_path p)"
    using held_path_filled [OF assms] by (simp add: globToRegExp_def normalizePath_def forward_slashes_def drop_dot_def strip_slashes_def)
  then have "q \<noteq> []" if "glob_match (globToRegExp q) (held_path p)" for q using that by blast
  then have "matched_pattern (normalizePath (normalizePath p)) patterns = firstMatch (normalizePath (normalizePath p)) patterns"
    unfolding matched_pattern_def held_path_def firstMatch_def by (auto split: option.split dest!: find_member)
  then show ?thesis
    unfolding covered_def glob_match_lang [symmetric] held_path_def by (auto simp: firstMatch_def find_None_iff)
qed

lemma classify_may_change:
  assumes "normalizePath p \<noteq> []"
  shows "ar_authority (classifyChangedPath (normalizePath p) s exceptions) \<in> {Owned, Excepted} \<longleftrightarrow> may_change s exceptions p"
proof -
  let ?m = "matched_pattern (normalizePath (normalizePath p))"
  note covered = matched_pattern_covered [OF assms, of exceptions] matched_pattern_covered [OF assms, of "se_forbiddenPaths s"]
    matched_pattern_covered [OF assms, of "se_readOnlyPaths s"] matched_pattern_covered [OF assms, of "se_ownedPaths s"]
  show ?thesis
    unfolding classifyChangedPath_def may_change_def Let_def
    by (cases "?m exceptions"; cases "?m (se_forbiddenPaths s)"; cases "?m (se_readOnlyPaths s)"; cases "?m (se_ownedPaths s)")
      (use covered in simp_all)
qed

lemma audit_valid:
  "oa_valid (auditChangedPathOwnership paths s exceptions) \<longleftrightarrow>
     (\<forall>p \<in> set paths. normalizePath p \<noteq> [] \<longrightarrow> may_change s exceptions p)"
proof -
  have "oa_valid (auditChangedPathOwnership paths s exceptions) \<longleftrightarrow> (\<forall>p \<in> set paths. normalizePath p \<noteq> [] \<longrightarrow>
      ar_authority (classifyChangedPath (normalizePath p) s exceptions) \<in> {Owned, Excepted})"
    unfolding auditChangedPathOwnership_def Let_def by (simp add: filter_empty_conv) blast
  then show ?thesis using classify_may_change by simp
qed

section \<open>What the gate accepts\<close>

definition handoff_evidenced :: "gate_platform \<Rightarrow> git_port \<Rightarrow> session_definition \<Rightarrow> delivery \<Rightarrow> checkpoint option \<Rightarrow> bool" where
  "handoff_evidenced gt git s dl handoff \<longleftrightarrow> (\<exists>c f. handoff = Some c \<and> gw_handoffFingerprint git = Some (Inr f) \<and>
     hc_executionId c = se_executionId s \<and> hc_baseSha c = se_baselineSha s \<and> dl_handoffCheckpoint dl \<in> {None, Some [], Some (hc_hash c)} \<and>
     (f = [] \<or> verify_reasons (gt_platform gt) c
        \<lparr>ow_workspace = se_worktree s, ow_branch = se_branch s, ow_headSha = dl_headSha dl, ow_fingerprint = f\<rparr> = []))"

lemma handoff_reasons_Nil:
  "handoff_reasons gt git s dl (se_branch s) (dl_headSha dl) handoff = [] \<longleftrightarrow> handoff_evidenced gt git s dl handoff"
  unfolding handoff_reasons_def handoff_evidenced_def verifyHandoff_def
  by (auto simp: Let_def split: option.splits sum.splits)

lemma ancestry_reasons_Nil:
  "ancestry_reasons git s dl = [] \<longleftrightarrow> gw_branchHead git (se_branch s) = Inr (dl_headSha dl) \<and>
     gw_isAncestor git (se_baselineSha s) (dl_headSha dl) = Inr True"
  by (auto simp: ancestry_reasons_def split: sum.splits)

lemma gather_Inr:
  "gather git s dl = Inr (b, h, ps, st) \<longleftrightarrow> gw_currentBranch git = Inr b \<and> gw_resolveHead git = Inr h \<and>
     gw_changedPaths git (se_baselineSha s) (dl_headSha dl) = Inr ps \<and> gw_status git = Inr st"
  by (auto simp: gather_def split: sum.splits)

lemma gate_accepts:
  "gr_accept (verifyDevelopmentDelivery gt git s dl handoff exceptions) \<longleftrightarrow> (\<exists>ps st.
     gather git s dl = Inr (se_branch s, dl_headSha dl, ps, st) \<and> validateDevelopmentDelivery dl s = [] \<and> ancestry_reasons git s dl = [] \<and>
     normalizedPaths (dl_changedPaths dl) = normalizedPaths ps \<and> (dp_requireCleanHead (se_deliveryPolicy s) \<longrightarrow> st = []) \<and>
     (dp_requireOwnershipValidation (se_deliveryPolicy s) \<longrightarrow> oa_valid (auditChangedPathOwnership (normalizedPaths ps) s exceptions)) \<and>
     (dp_requireDeliveryHash (se_deliveryPolicy s) \<longrightarrow> computeDeliveryHash gt dl = dl_deliveryHash dl) \<and>
     (dp_requireHandoff (se_deliveryPolicy s) \<longrightarrow> handoff_reasons gt git s dl (se_branch s) (dl_headSha dl) handoff = []))"
proof (cases "gather git s dl")
  case (Inl e)
  then show ?thesis by (simp add: verifyDevelopmentDelivery_def Let_def)
next
  case (Inr x)
  then obtain b h ps st where "gather git s dl = Inr (b, h, ps, st)" by (cases x) auto
  then show ?thesis by (auto simp: verifyDevelopmentDelivery_def Let_def)
qed

text \<open>C24: A delivery is accepted exactly when it states what its session may state; the workspace is on the session's branch at the
  delivered head, which is the head of that branch and descends from the frozen baseline; the paths it names are the
  ones git reports; and, as far as the policy asks, the workspace is clean, every changed path is excepted or
  matches an owned pattern and no read-only or forbidden one, the hash is the hash of the delivery, and a checkpoint
  of this execution is verified against the workspace.\<close>

theorem delivery_accepted_exactly:
  "gr_accept (verifyDevelopmentDelivery gt git s dl handoff exceptions) \<longleftrightarrow>
     validateDevelopmentDelivery dl s = [] \<and> gw_currentBranch git = Inr (se_branch s) \<and> gw_resolveHead git = Inr (dl_headSha dl) \<and>
     gw_branchHead git (se_branch s) = Inr (dl_headSha dl) \<and> gw_isAncestor git (se_baselineSha s) (dl_headSha dl) = Inr True \<and>
     (\<exists>ps st. gw_changedPaths git (se_baselineSha s) (dl_headSha dl) = Inr ps \<and> gw_status git = Inr st \<and>
       normalizedPaths (dl_changedPaths dl) = normalizedPaths ps \<and> (dp_requireCleanHead (se_deliveryPolicy s) \<longrightarrow> st = []) \<and>
       (dp_requireOwnershipValidation (se_deliveryPolicy s) \<longrightarrow>
         (\<forall>p \<in> set (normalizedPaths ps). normalizePath p \<noteq> [] \<longrightarrow> may_change s exceptions p))) \<and>
     (dp_requireDeliveryHash (se_deliveryPolicy s) \<longrightarrow> computeDeliveryHash gt dl = dl_deliveryHash dl) \<and>
     (dp_requireHandoff (se_deliveryPolicy s) \<longrightarrow> handoff_evidenced gt git s dl handoff)"
  unfolding gate_accepts audit_valid gather_Inr ancestry_reasons_Nil handoff_reasons_Nil by blast

definition demo_gate :: gate_platform where
  "demo_gate = \<lparr>gt_platform = \<lparr>pf_resolve = (\<lambda>p. p), pf_resolveIn = (@), pf_sep = CHR ''/'', pf_checkpointHash = (\<lambda>_. ''c''),
       pf_fingerprint = (\<lambda>_. ''f''), pf_sortPaths = (\<lambda>fs. fs), pf_sha256 = (\<lambda>s. s)\<rparr>,
     gt_sortStatus = (\<lambda>es. es), gt_fingerprintHash = (\<lambda>_. ''f''), gt_deliveryHash = (\<lambda>dl. dl_sessionId dl @ ''-'' @ dl_headSha dl)\<rparr>"

definition demo_git :: git_port where
  "demo_git = \<lparr>gw_currentBranch = Inr ''b'', gw_resolveHead = Inr (demo_sha CHR ''b''), gw_changedPaths = (\<lambda>_ _. Inr [''src/a/b.ts'']),
     gw_status = Inr [], gw_branchHead = (\<lambda>_. Inr (demo_sha CHR ''b'')), gw_isAncestor = (\<lambda>_ _. Inr True), gw_handoffFingerprint = None\<rparr>"

definition demo_owner :: session_definition where
  "demo_owner = (demo_session_definition ''s1'' ''w1'' [])\<lparr>se_baselineSha := demo_sha CHR ''a'', se_ownedPaths := [''src/**''],
     se_forbiddenPaths := [''**/secret/*'']\<rparr>"

definition demo_change :: delivery where
  "demo_change = (demo_delivery ''s1'' ''s1'' (''s1-'' @ demo_sha CHR ''b''))\<lparr>dl_changedPaths := [''src/a/b.ts'']\<rparr>"

lemma demo_change_accepted: "gr_accept (verifyDevelopmentDelivery demo_gate demo_git demo_owner demo_change None [])"
  by code_simp

lemma delivery_accepted_exactly_witness:
  "may_change demo_owner [] ''src/a/b.ts'' \<and> \<not> covered (se_forbiddenPaths demo_owner) ''src/a/b.ts''"
proof -
  have paths: "normalizedPaths [''src/a/b.ts''] = [''src/a/b.ts'']" "normalizePath ''src/a/b.ts'' \<noteq> []" by code_simp+
  have "gw_changedPaths demo_git x y = Inr [''src/a/b.ts'']" for x y by (simp add: demo_git_def)
  moreover have "dp_requireOwnershipValidation (se_deliveryPolicy demo_owner)" by (simp add: demo_owner_def demo_session_definition_def)
  ultimately have "may_change demo_owner [] ''src/a/b.ts''"
    using iffD1 [OF delivery_accepted_exactly demo_change_accepted] paths by auto
  moreover have "\<not> covered [] ''src/a/b.ts''" by (simp add: covered_def)
  ultimately show ?thesis by (auto simp: may_change_def)
qed

end
