(* ===== verification/GroupIntegrationCorrectness.thy ===== *)
theory GroupIntegrationCorrectness
  imports GroupIntegration GroupWorkspaceCorrectness
begin

text \<open>
  The properties of the integration of accepted deliveries: the records it writes form one history that ends at
  the head of the integration workspace, so the completion of the group counts every merge; and what happens
  when a merge brings no new commit.
\<close>

section \<open>Histories\<close>

text \<open>Merged records, each on the head of the one before; a merge makes a new head or, with nothing to merge, none.\<close>

inductive history :: "string \<Rightarrow> milestone list \<Rightarrow> string \<Rightarrow> bool" for base where
  start: "history base [] base"
| merged: "history base rs h \<Longrightarrow> ml_status r = MilestoneMerged \<Longrightarrow> ml_baseSha r = h \<Longrightarrow>
    ml_headSha r = h \<or> ml_headSha r \<notin> insert base (ml_headSha ` set rs) \<Longrightarrow> history base (rs @ [r]) (ml_headSha r)"

definition merged_records :: "milestone list \<Rightarrow> milestone list" where
  "merged_records rs = filter (\<lambda>r. ml_status r = MilestoneMerged) rs"

definition empty_merge :: "milestone \<Rightarrow> bool" where
  "empty_merge r \<longleftrightarrow> ml_baseSha r = ml_headSha r"

lemma merged_head_filter: "merged_head (merged_records rs) = merged_head rs"
  by (simp add: merged_head_def merged_records_def)

lemma history_status: "history b rs h \<Longrightarrow> r \<in> set rs \<Longrightarrow> ml_status r = MilestoneMerged"
  by (induction rule: history.induct) auto

lemma history_head: "history b rs h \<Longrightarrow> h \<in> insert b (ml_headSha ` set rs)"
  by (induction rule: history.induct) auto

lemma ancestry_upd:
  "h \<noteq> k \<Longrightarrow> (h, b) \<in> ancestry (m(k \<mapsto> r)) \<longleftrightarrow> (h, b) \<in> ancestry m"
  by (simp add: ancestry_def)

text \<open>A head that is not yet used has no predecessor, so the histories below it stay as they are.\<close>

lemma ancestry_below:
  assumes "k \<notin> insert x (snd ` ancestry m)"
  shows "(x, h) \<in> (ancestry (m(k \<mapsto> r)))\<^sup>* \<longleftrightarrow> (x, h) \<in> (ancestry m)\<^sup>*" (is "?l \<longleftrightarrow> ?r")
proof
  assume ?l
  then show ?r
  proof (induction rule: rtrancl_induct)
    case (step y z)
    have "y \<noteq> k" using step.IH assms by (metis insert_iff rtranclE rev_image_eqI snd_conv)
    then have "(y, z) \<in> ancestry (m(k \<mapsto> r)) \<longleftrightarrow> (y, z) \<in> ancestry m" by (rule ancestry_upd)
    with step show ?case by (meson rtrancl.rtrancl_into_rtrancl)
  qed simp
next
  assume ?r
  then show ?l
  proof (induction rule: rtrancl_induct)
    case (step y z)
    have "y \<noteq> k" using step.hyps(1) assms by (metis insert_iff rtranclE rev_image_eqI snd_conv)
    then have "(y, z) \<in> ancestry (m(k \<mapsto> r)) \<longleftrightarrow> (y, z) \<in> ancestry m" by (rule ancestry_upd)
    with step show ?case by (meson rtrancl.rtrancl_into_rtrancl)
  qed simp
qed

lemma history_targets: "history b rs h \<Longrightarrow> snd ` ancestry (merged_head rs) \<subseteq> insert b (ml_headSha ` set rs)"
proof (induction rule: history.induct)
  case start
  then show ?case by (auto simp: ancestry_def merged_head_None [THEN iffD2])
next
  case (merged rs h r)
  have "merged_head (rs @ [r]) = (merged_head rs)(ml_headSha r \<mapsto> r)" using merged.hyps(2) by (simp add: merged_head_snoc)
  then have "ancestry (merged_head (rs @ [r])) \<subseteq> insert (ml_headSha r, h) (ancestry (merged_head rs))"
    using merged.hyps(3) by (auto simp: ancestry_def split: if_splits)
  then have "snd ` ancestry (merged_head (rs @ [r])) \<subseteq> insert h (snd ` ancestry (merged_head rs))" by force
  also have "\<dots> \<subseteq> insert b (ml_headSha ` set (rs @ [r]))" using merged.IH history_head [OF merged.hyps(1)] by auto
  finally show ?case .
qed

lemma history_fresh_split:
  assumes "history b (rs @ [r]) h"
  obtains "h = ml_headSha r" "history b rs (ml_baseSha r)" "ml_headSha r = ml_baseSha r \<or> ml_headSha r \<notin> insert b (ml_headSha ` set rs)"
    "merged_head (rs @ [r]) = (merged_head rs)(ml_headSha r \<mapsto> r)"
  using assms by (cases rule: history.cases) (auto simp: merged_head_snoc)

text \<open>Without empty merges every record is reached from the head, no head comes back, and no two runs share a head.\<close>

lemma history_complete:
  assumes "history b rs h" "\<forall>r \<in> set rs. \<not> empty_merge r"
  shows "distinct (b # map ml_headSha rs) \<and> final_chain rs h = ml_integrationRunId ` set rs \<and> \<not> cyclic_history rs h"
  using assms
proof (induction rule: history.induct)
  case start
  have "merged_head [] = (\<lambda>_. None)" by (rule ext) (simp add: merged_head_None)
  then show ?case by (auto simp: final_chain_def cyclic_history_def ancestry_def dest: tranclD)
next
  case (merged rs h r)
  let ?m = "merged_head rs" and ?k = "ml_headSha r"
  have fresh: "?k \<notin> insert b (ml_headSha ` set rs)" using merged.hyps(3,4) merged.prems by (auto simp: empty_merge_def)
  have m: "merged_head (rs @ [r]) = ?m(?k \<mapsto> r)" using merged.hyps(2) by (simp add: merged_head_snoc)
  have other: "h \<noteq> ?k" using fresh history_head [OF merged.hyps(1)] by auto
  have unused: "?k \<notin> insert h (snd ` ancestry ?m)" using fresh other history_targets [OF merged.hyps(1)] by auto
  have below: "(h, x) \<in> (ancestry (?m(?k \<mapsto> r)))\<^sup>* \<longleftrightarrow> (h, x) \<in> (ancestry ?m)\<^sup>*" for x by (rule ancestry_below [OF unused])
  have edge: "(?k, x) \<in> ancestry (?m(?k \<mapsto> r)) \<longleftrightarrow> x = h" for x using merged.hyps(3) by (auto simp: ancestry_def)
  have reach: "(?k, x) \<in> (ancestry (?m(?k \<mapsto> r)))\<^sup>* \<longleftrightarrow> x = ?k \<or> (h, x) \<in> (ancestry ?m)\<^sup>*" for x
    unfolding below [symmetric] by (metis converse_rtranclE converse_rtrancl_into_rtrancl edge rtrancl.rtrancl_refl)
  have stays: "x \<noteq> ?k" if "(h, x) \<in> (ancestry ?m)\<^sup>*" for x
    using that unused by (metis insertI1 insertI2 rtranclE rev_image_eqI snd_conv)
  have IH: "distinct (b # map ml_headSha rs)" "final_chain rs h = ml_integrationRunId ` set rs" "\<not> cyclic_history rs h"
    using merged.IH merged.prems by auto
  have "final_chain (rs @ [r]) ?k = insert (ml_integrationRunId r) (final_chain rs h)"
    unfolding final_chain_def m using stays by (auto simp: reach split: if_splits)
  moreover have "\<not> cyclic_history (rs @ [r]) ?k"
  proof
    assume "cyclic_history (rs @ [r]) ?k"
    then obtain x where x: "(?k, x) \<in> (ancestry (?m(?k \<mapsto> r)))\<^sup>*" "(x, x) \<in> (ancestry (?m(?k \<mapsto> r)))\<^sup>+"
      unfolding cyclic_history_def m by blast
    from x(2) obtain y where y: "(x, y) \<in> ancestry (?m(?k \<mapsto> r))" "(y, x) \<in> (ancestry (?m(?k \<mapsto> r)))\<^sup>*" by (meson tranclD)
    show False
    proof (cases "x = ?k")
      case True
      with y edge have "(h, ?k) \<in> (ancestry ?m)\<^sup>*" unfolding below [symmetric] by simp
      with stays show False by blast
    next
      case False
      then have old: "(h, x) \<in> (ancestry ?m)\<^sup>*" "(x, y) \<in> ancestry ?m"
        using x(1) y(1) reach ancestry_upd [OF False] by blast+
      then have "?k \<notin> insert y (snd ` ancestry ?m)" using unused by force
      from ancestry_below [OF this] y(2) have "(y, x) \<in> (ancestry ?m)\<^sup>*" by blast
      with old have "cyclic_history rs h" unfolding cyclic_history_def by (meson rtrancl_into_trancl2)
      with IH(3) show False by blast
    qed
  qed
  ultimately show ?case using IH fresh by auto
qed

text \<open>An empty merge is its own predecessor, and stays in every later history.\<close>

lemma history_stuck:
  assumes "history b rs h" "r \<in> set rs" "empty_merge r"
  shows "cyclic_history rs h"
  using assms
proof (induction rule: history.induct)
  case start
  then show ?case by simp
next
  case (merged rs h q)
  let ?m = "merged_head rs" and ?k = "ml_headSha q"
  have m: "merged_head (rs @ [q]) = ?m(?k \<mapsto> q)" using merged.hyps(2) by (simp add: merged_head_snoc)
  have edge: "(?k, h) \<in> ancestry (?m(?k \<mapsto> q))" using merged.hyps(3) by (auto simp: ancestry_def)
  show ?case
  proof (cases "empty_merge q")
    case True
    then have "h = ?k" using merged.hyps(3) by (simp add: empty_merge_def)
    with edge show ?thesis unfolding cyclic_history_def m by blast
  next
    case False
    then have "r \<in> set rs" using merged.prems by auto
    with merged.IH merged.prems have "cyclic_history rs h" by blast
    then obtain x y where x: "(h, x) \<in> (ancestry ?m)\<^sup>*" "(x, y) \<in> ancestry ?m" "(y, x) \<in> (ancestry ?m)\<^sup>*"
      unfolding cyclic_history_def by (meson tranclD)
    have "?k \<notin> insert b (ml_headSha ` set rs)" using False merged.hyps(3,4) by (auto simp: empty_merge_def)
    then have unused: "?k \<notin> insert h (snd ` ancestry ?m)"
      using history_head [OF merged.hyps(1)] history_targets [OF merged.hyps(1)] by auto
    have "x \<noteq> ?k" using x(1) unused by (metis insertI1 insertI2 rtranclE rev_image_eqI snd_conv)
    then have "(x, y) \<in> ancestry (?m(?k \<mapsto> q))" using x(2) ancestry_upd [of x ?k] by blast
    moreover have "?k \<notin> insert y (snd ` ancestry ?m)" using x(2) unused by force
    from ancestry_below [OF this] x(3) have "(y, x) \<in> (ancestry (?m(?k \<mapsto> q)))\<^sup>*" by blast
    moreover have "(?k, x) \<in> (ancestry (?m(?k \<mapsto> q)))\<^sup>*"
      using ancestry_below [OF unused] x(1) edge by (meson converse_rtrancl_into_rtrancl)
    ultimately show ?thesis unfolding cyclic_history_def m by (meson rtrancl_into_trancl2)
  qed
qed

lemma unambiguous_merged: "unambiguous (merged_records rs) \<longleftrightarrow> unambiguous rs"
  unfolding unambiguous_def merged_records_def agrees_def by auto

lemma distinct_unambiguous: "distinct (map ml_headSha rs) \<Longrightarrow> unambiguous rs"
  unfolding unambiguous_def agrees_def by (metis distinct_map inj_on_def)

lemma history_runs:
  assumes "history b (merged_records rs) h"
  shows "if \<exists>r \<in> set (merged_records rs). empty_merge r then \<exists>e. finalIntegrationRunIds rs h = Inl e
    else \<exists>chain. finalIntegrationRunIds rs h = Inr chain \<and> set chain = ml_integrationRunId ` set (merged_records rs)"
proof (cases "\<exists>r \<in> set (merged_records rs). empty_merge r")
  case True
  with history_stuck [OF assms] have "cyclic_history rs h" unfolding cyclic_history_def merged_head_filter by blast
  with True final_runs_result [of rs h] show ?thesis by (auto split: sum.splits)
next
  case False
  with history_complete [OF assms] have "distinct (map ml_headSha (merged_records rs))" "\<not> cyclic_history rs h"
    "final_chain rs h = ml_integrationRunId ` set (merged_records rs)"
    unfolding cyclic_history_def final_chain_def merged_head_filter by auto
  with False final_runs_result [of rs h] distinct_unambiguous unambiguous_merged [of rs] show ?thesis
    by (auto split: sum.splits)
qed

section \<open>What git does\<close>

text \<open>The head of the integration workspace and the commits that exist. Only a merge and a reset move the head; a merge
  makes a commit that did not exist, or, when the branch is already part of the head, none.\<close>

definition keeps_head :: "('g \<Rightarrow> string) \<Rightarrow> ('g \<Rightarrow> string set) \<Rightarrow> ('g, 'a) eff \<Rightarrow> bool" where
  "keeps_head head commits m \<longleftrightarrow> (\<forall>g x g'. m g = (Inr x, g') \<longrightarrow> head g' = head g \<and> commits g \<subseteq> commits g')"

definition repo_laws :: "('g \<Rightarrow> string) \<Rightarrow> ('g \<Rightarrow> string set) \<Rightarrow> 'g integration_options \<Rightarrow> bool" where
  "repo_laws head commits o' \<longleftrightarrow> (let p = io_port o' in
     (\<forall>g. head g \<in> commits g) \<and> (\<forall>g h g'. ip_currentHead p g = (Inr h, g') \<longrightarrow> h = head g \<and> head g' = head g \<and> commits g \<subseteq> commits g') \<and>
     keeps_head head commits (ip_currentBranch p) \<and> keeps_head head commits (ip_statusClean p) \<and> (\<forall>b. keeps_head head commits (ip_branchHead p b)) \<and>
     (\<forall>i. keeps_head head commits (io_verify o' i)) \<and> (\<forall>h i. keeps_head head commits (post_merge o' h i)) \<and> (\<forall>r. keeps_head head commits (io_write o' r)) \<and>
     keeps_head head commits (io_now o') \<and>
     (\<forall>b g m g'. ip_merge p b g = (Inr m, g') \<longrightarrow> commits g \<subseteq> commits g' \<and>
       (if mr_merged m then head g' = mr_headSha m \<and> (mr_headSha m = head g \<or> mr_headSha m \<notin> commits g) else head g' = head g)) \<and>
     (\<forall>sha g g'. ip_resetTo p sha g = (Inr (), g') \<longrightarrow> head g' = sha \<and> commits g \<subseteq> commits g'))"

text \<open>The books of the controller agree with the repository.\<close>

definition recorded :: "string \<Rightarrow> ('g \<Rightarrow> string) \<Rightarrow> ('g \<Rightarrow> string set) \<Rightarrow> 'g integration \<Rightarrow> bool" where
  "recorded base head commits c \<longleftrightarrow> history base (merged_records (ic_written c)) (head (ic_repo c)) \<and>
     insert base (ml_headSha ` set (merged_records (ic_written c))) \<subseteq> commits (ic_repo c)"

definition calm_step :: "('g \<Rightarrow> string) \<Rightarrow> ('g \<Rightarrow> string set) \<Rightarrow> 'g integration \<Rightarrow> 'g integration \<Rightarrow> bool" where
  "calm_step head commits c d \<longleftrightarrow> ic_written d = ic_written c \<and> head (ic_repo d) = head (ic_repo c) \<and> commits (ic_repo c) \<subseteq> commits (ic_repo d)"

lemma calm_on_repo: "on_repo m c = (Inr x, d) \<Longrightarrow> keeps_head head commits m \<Longrightarrow> calm_step head commits c d"
proof -
  assume run: "on_repo m c = (Inr x, d)" and q: "keeps_head head commits m"
  from on_repo_Inr [OF run] obtain g where g: "m (ic_repo c) = (Inr x, g)" "d = c\<lparr>ic_repo := g\<rparr>" by blast
  with q have "head g = head (ic_repo c) \<and> commits (ic_repo c) \<subseteq> commits g" unfolding keeps_head_def by blast
  with g show ?thesis by (simp add: calm_step_def)
qed

lemma calm_trans: "calm_step head commits c d \<Longrightarrow> calm_step head commits d e \<Longrightarrow> calm_step head commits c e"
  by (auto simp: calm_step_def)

lemma calm_write:
  assumes "write_record o' r c = (Inr x, d)" "keeps_head head commits (io_write o' r)"
  shows "x = r \<and> ic_written d = ic_written c @ [r] \<and> head (ic_repo d) = head (ic_repo c) \<and> commits (ic_repo c) \<subseteq> commits (ic_repo d)"
proof -
  from write_record_Inr [OF assms(1)] obtain g where "io_write o' r (ic_repo c) = (Inr (), g)" "x = r"
    "d = c\<lparr>ic_repo := g, ic_written := ic_written c @ [r]\<rparr>" by blast
  moreover from this assms(2) have "head g = head (ic_repo c) \<and> commits (ic_repo c) \<subseteq> commits g" unfolding keeps_head_def by blast
  ultimately show ?thesis by simp
qed

text \<open>What one integration adds to the books: a record that was rejected, or a merge on the head it found.\<close>

definition rejected_step :: "('g \<Rightarrow> string) \<Rightarrow> ('g \<Rightarrow> string set) \<Rightarrow> 'g integration \<Rightarrow> milestone \<Rightarrow> 'g integration \<Rightarrow> bool" where
  "rejected_step head commits c r d \<longleftrightarrow> ml_status r \<noteq> MilestoneMerged \<and> ic_written d = ic_written c @ [r] \<and>
     head (ic_repo d) = head (ic_repo c) \<and> commits (ic_repo c) \<subseteq> commits (ic_repo d)"

definition merged_step :: "('g \<Rightarrow> string) \<Rightarrow> ('g \<Rightarrow> string set) \<Rightarrow> 'g integration \<Rightarrow> queue_item \<Rightarrow> milestone \<Rightarrow> 'g integration \<Rightarrow> bool" where
  "merged_step head commits c i r d \<longleftrightarrow> ml_status r = MilestoneMerged \<and> ml_baseSha r = head (ic_repo c) \<and> ml_headSha r = head (ic_repo d) \<and>
     (ml_headSha r = ml_baseSha r \<or> ml_headSha r \<notin> commits (ic_repo c)) \<and> ic_written d = ic_written c @ [r] \<and>
     commits (ic_repo c) \<subseteq> commits (ic_repo d) \<and> ml_mergedSessionIds r = [item_key i]"

lemma reject_effect:
  assumes "reject_item o' i before st h reasons c = (Inr r, d)" "repo_laws head commits o'" "st \<noteq> MilestoneMerged"
  shows "rejected_step head commits c r d"
proof -
  from assms(1) obtain now e where run: "on_repo (io_now o') c = (Inr now, e)"
      "write_record o' (integration_record o' i before st h reasons now) e = (Inr r, d)"
    unfolding reject_item_def by (elim bnd_Inr_E)
  have laws: "keeps_head head commits (io_now o')" "keeps_head head commits (io_write o' x)" for x
    using assms(2) by (simp_all add: repo_laws_def Let_def)
  from calm_on_repo [OF run(1) laws(1)] calm_write [OF run(2) laws(2)] assms(3) show ?thesis
    by (auto simp: rejected_step_def calm_step_def integration_record_def)
qed

lemma repo_lawsD:
  assumes "repo_laws head commits o'"
  shows "head g \<in> commits g" "ip_currentHead (io_port o') g = (Inr h, g') \<Longrightarrow> h = head g" "keeps_head head commits (ip_currentHead (io_port o'))"
    "keeps_head head commits (ip_currentBranch (io_port o'))" "keeps_head head commits (ip_statusClean (io_port o'))"
    "keeps_head head commits (ip_branchHead (io_port o') b)" "keeps_head head commits (io_verify o' i)" "keeps_head head commits (post_merge o' h i)"
    "keeps_head head commits (io_write o' r)" "keeps_head head commits (io_now o')"
    "ip_merge (io_port o') b g = (Inr m, g') \<Longrightarrow> commits g \<subseteq> commits g'"
    "ip_merge (io_port o') b g = (Inr m, g') \<Longrightarrow> mr_merged m \<Longrightarrow> head g' = mr_headSha m \<and> (mr_headSha m = head g \<or> mr_headSha m \<notin> commits g)"
    "ip_merge (io_port o') b g = (Inr m, g') \<Longrightarrow> \<not> mr_merged m \<Longrightarrow> head g' = head g"
    "ip_resetTo (io_port o') sha g = (Inr u, g') \<Longrightarrow> head g' = sha \<and> commits g \<subseteq> commits g'"
  using assms unfolding repo_laws_def Let_def keeps_head_def by (simp_all; blast)+

lemma calm_reject:
  "calm_step head commits c d \<Longrightarrow> rejected_step head commits d r e \<Longrightarrow> rejected_step head commits c r e"
  by (auto simp: calm_step_def rejected_step_def)

definition integration_step :: "('g \<Rightarrow> string) \<Rightarrow> ('g \<Rightarrow> string set) \<Rightarrow> 'g integration \<Rightarrow> queue_item \<Rightarrow> milestone \<Rightarrow> 'g integration \<Rightarrow> bool" where
  "integration_step head commits c i r d \<longleftrightarrow> rejected_step head commits c r d \<or> merged_step head commits c i r d"

abbreviation untouched :: "('g \<Rightarrow> string) \<Rightarrow> ('g \<Rightarrow> string set) \<Rightarrow> 'g integration \<Rightarrow> string \<Rightarrow> 'g integration \<Rightarrow> bool" where
  "untouched head commits c before \<equiv> (\<lambda>e. calm_step head commits c e \<and> before = head (ic_repo c))"

lemma triple_calm:
  assumes "keeps_head head commits m" "\<And>e d. P e \<Longrightarrow> calm_step head commits e d \<Longrightarrow> P d"
  shows "triple P (on_repo m) (\<lambda>_. P) (\<lambda>_. True)"
  using assms(2) calm_on_repo [OF _ assms(1)] unfolding triple_def by (auto split: prod.splits sum.splits)

lemma triple_reject:
  assumes "repo_laws head commits o'" "st \<noteq> MilestoneMerged" "\<And>e. P e \<Longrightarrow> calm_step head commits c e"
  shows "triple P (reject_item o' i before st h reasons) (integration_step head commits c i) (\<lambda>_. True)"
  using calm_reject [OF assms(3) reject_effect [OF _ assms(1,2)]]
  unfolding triple_def integration_step_def by (auto split: prod.splits sum.splits)

text \<open>After the merge: the old books, and a head that is new or the one before.\<close>

definition merge_made :: "('g \<Rightarrow> string) \<Rightarrow> ('g \<Rightarrow> string set) \<Rightarrow> 'g integration \<Rightarrow> merge_result \<Rightarrow> 'g integration \<Rightarrow> bool" where
  "merge_made head commits c m e \<longleftrightarrow> ic_written e = ic_written c \<and> commits (ic_repo c) \<subseteq> commits (ic_repo e) \<and>
     (if mr_merged m then head (ic_repo e) = mr_headSha m \<and> (mr_headSha m = head (ic_repo c) \<or> mr_headSha m \<notin> commits (ic_repo c))
      else head (ic_repo e) = head (ic_repo c))"

lemma triple_merge:
  assumes laws: "repo_laws head commits o'"
  shows "triple (untouched head commits c before) (on_repo (ip_merge (io_port o') b))
    (\<lambda>m e. merge_made head commits c m e \<and> before = head (ic_repo c)) (\<lambda>_. True)"
proof -
  have "merge_made head commits c m d" if "calm_step head commits c e" "on_repo (ip_merge (io_port o') b) e = (Inr m, d)" for m d e
  proof -
    from on_repo_Inr [OF that(2)] obtain g where g: "ip_merge (io_port o') b (ic_repo e) = (Inr m, g)" "d = e\<lparr>ic_repo := g\<rparr>" by blast
    show ?thesis using that(1) g(2) repo_lawsD(11-13) [OF laws g(1)] unfolding merge_made_def calm_step_def by auto
  qed
  then show ?thesis unfolding triple_def by (auto split: prod.splits sum.splits)
qed

lemma triple_record:
  assumes laws: "repo_laws head commits o'"
  shows "triple (\<lambda>e. merge_made head commits c m e \<and> mr_merged m \<and> before = head (ic_repo c))
    (bnd (write_record o' (integration_record o' i before MilestoneMerged (mr_headSha m) [] now)) (\<lambda>r.
       bnd (modify (\<lambda>c. c\<lparr>ic_integrated := f c, ic_queue := q c\<rparr>)) (\<lambda>_. ret r)))
    (integration_step head commits c i) (\<lambda>_. True)"
proof -
  let ?r = "integration_record o' i before MilestoneMerged (mr_headSha m) [] now"
  have "merged_step head commits c i x (d\<lparr>ic_integrated := f', ic_queue := q'\<rparr>)"
    if e: "merge_made head commits c m e" "mr_merged m" "before = head (ic_repo c)" and w: "write_record o' ?r e = (Inr x, d)" for e x d f' q'
    using calm_write [OF w repo_lawsD(9) [OF laws]] e by (auto simp: merged_step_def merge_made_def integration_record_def)
  then show ?thesis
    unfolding triple_def integration_step_def bnd_def modify_def ret_def by (fastforce split: prod.splits sum.splits)
qed

text \<open>A question before the merge: the wrong answer rejects the item, the right one goes on.\<close>

lemma triple_guard:
  assumes "repo_laws head commits o'" "keeps_head head commits m"
    "\<And>x. triple (untouched head commits c before) (rest x) (integration_step head commits c i) (\<lambda>_. True)"
  shows "triple (untouched head commits c before)
    (bnd (on_repo m) (\<lambda>x. if bad x then reject_item o' i before MilestoneFailed before (reasons x) else rest x))
    (integration_step head commits c i) (\<lambda>_. True)"
  by (rule triple_bnd [OF triple_calm [OF assms(2)]])
    (use calm_trans assms(3) in \<open>auto intro!: triple_if triple_reject [OF assms(1)]\<close>)

lemma triple_reset:
  assumes laws: "repo_laws head commits o'"
  shows "triple (\<lambda>e. merge_made head commits c m e \<and> before = head (ic_repo c)) (on_repo (ip_resetTo (io_port o') before))
    (\<lambda>_. untouched head commits c before) (\<lambda>_. True)"
proof -
  have "calm_step head commits c d" if "merge_made head commits c m e" "before = head (ic_repo c)"
    "on_repo (ip_resetTo (io_port o') before) e = (Inr (), d)" for e d
  proof -
    from on_repo_Inr [OF that(3)] obtain g where g: "ip_resetTo (io_port o') before (ic_repo e) = (Inr (), g)" "d = e\<lparr>ic_repo := g\<rparr>" by blast
    show ?thesis using repo_lawsD(14) [OF laws g(1)] g(2) that(1,2) by (auto simp: calm_step_def merge_made_def)
  qed
  then show ?thesis unfolding triple_def by (auto split: prod.splits sum.splits)
qed

lemma merge_made_calm: "merge_made head commits c m e \<Longrightarrow> calm_step head commits e d \<Longrightarrow> merge_made head commits c m d"
  by (auto simp: merge_made_def calm_step_def split: if_splits)

lemma integrate_item_triple:
  assumes laws: "repo_laws head commits o'"
  shows "triple (\<lambda>e. e = c) (integrate_item o' i) (integration_step head commits c i) (\<lambda>_. True)"
proof -
  have start: "triple (\<lambda>e. e = c) (on_repo (ip_currentHead (io_port o'))) (untouched head commits c) (\<lambda>_. True)"
    using calm_on_repo [OF _ repo_lawsD(3) [OF laws]] repo_lawsD(2) [OF laws]
    unfolding triple_def by (auto dest!: on_repo_Inr split: prod.splits sum.splits)
  note guard = triple_guard [OF laws] and quiet_call = triple_bnd [OF triple_calm [OF repo_lawsD(8) [OF laws]]]
    triple_bnd [OF triple_calm [OF repo_lawsD(10) [OF laws]]]
  show ?thesis
    unfolding integrate_item_def Let_def
    apply (rule triple_bnd [OF start])
    apply (rule guard [OF repo_lawsD(4) [OF laws]])
    apply (rule guard [OF repo_lawsD(5) [OF laws]])
    apply (rule guard [OF repo_lawsD(6) [OF laws]])
    apply (rule guard [OF repo_lawsD(7) [OF laws]])
    apply (rule triple_bnd [OF triple_merge [OF laws]])
    apply (rule triple_if)
     apply (rule triple_reject [OF laws], simp, simp add: merge_made_def calm_step_def)
    apply (rule quiet_call(1), use merge_made_calm in blast)
    apply (rule triple_if)
     apply (rule triple_bnd [OF triple_reset [OF laws]], rule triple_reject [OF laws], simp, blast)
    apply (rule quiet_call(2), use merge_made_calm in blast)
    apply (rule triple_pre [OF triple_record [OF laws]], simp)
    done
qed

lemma integrate_item_effect:
  "integrate_item o' i c = (Inr r, d) \<Longrightarrow> repo_laws head commits o' \<Longrightarrow> integration_step head commits c i r d"
  by (rule tripleD_ok [OF integrate_item_triple]) auto

lemma integration_step_recorded:
  assumes "integration_step head commits c i r d" "recorded base head commits c" "\<And>g. head g \<in> commits g"
  shows "recorded base head commits d"
  using assms(1) unfolding integration_step_def
proof
  assume "rejected_step head commits c r d"
  with assms(2) show ?thesis by (auto simp: rejected_step_def recorded_def merged_records_def)
next
  let ?rs = "merged_records (ic_written c)"
  assume m: "merged_step head commits c i r d"
  then have rs: "merged_records (ic_written d) = ?rs @ [r]" by (simp add: merged_step_def merged_records_def)
  have "ml_headSha r = ml_baseSha r \<or> ml_headSha r \<notin> insert base (ml_headSha ` set ?rs)"
    using m assms(2) unfolding merged_step_def recorded_def by auto
  then have "history base (?rs @ [r]) (ml_headSha r)"
    using m assms(2) by (intro history.merged) (auto simp: merged_step_def recorded_def)
  moreover have "insert base (ml_headSha ` set ?rs) \<subseteq> commits (ic_repo d)" "ml_headSha r \<in> commits (ic_repo d)"
    using m assms(2,3) by (auto simp: merged_step_def recorded_def)
  ultimately show ?thesis using m unfolding recorded_def rs by (simp add: merged_step_def)
qed

lemma integrateNext_recorded:
  assumes "integrateNext o' c = (Inr x, d)" "repo_laws head commits o'" "recorded base head commits c"
  shows "recorded base head commits d \<and> ic_written d = ic_written c @ (case x of None \<Rightarrow> [] | Some r \<Rightarrow> [r])"
proof (cases x)
  case None
  with assms(1) have "d = c"
    by (auto simp: integrateNext_def gets_def bnd_def ret_def split: list.splits prod.splits sum.splits)
  with None assms(3) show ?thesis by simp
next
  case (Some r)
  with assms(1) obtain i where "integrate_item o' i c = (Inr r, d)" using integrateNext_item by metis
  from integrate_item_effect [OF this assms(2)] have step: "integration_step head commits c i r d" .
  have "ic_written d = ic_written c @ [r]" using step by (auto simp: integration_step_def rejected_step_def merged_step_def)
  with Some integration_step_recorded [OF step assms(3) repo_lawsD(1) [OF assms(2)]] show ?thesis by simp
qed

lemma drain_recorded:
  assumes "drain o' records c = (Inr rs, d)" "repo_laws head commits o'" "recorded base head commits c"
  shows "recorded base head commits d \<and> (\<exists>new. rs = records @ new \<and> ic_written d = ic_written c @ new)"
  using assms
proof (induction o' records c arbitrary: rs d rule: drain.induct)
  case (1 o' records c)
  obtain x e where next': "integrateNext o' c = (x, e)" by fastforce
  show ?case
  proof (cases x)
    case (Inl er)
    with 1(2) next' show ?thesis by (simp add: drain.simps)
  next
    case (Inr y)
    note step = integrateNext_recorded [OF next' [unfolded Inr] 1(3,4)]
    show ?thesis
    proof (cases y)
      case None
      with Inr next' step 1(2) show ?thesis by (simp add: drain.simps)
    next
      case (Some r)
      show ?thesis
      proof (cases "ml_status r = MilestoneMerged")
        case True
        with Inr Some next' have "drain o' (records @ [r]) e = (Inr rs, d)" using 1(2) by (subst (asm) drain.simps) simp
        from 1(1) [OF next' [symmetric] Inr Some True this 1(3)] step Some show ?thesis by auto
      next
        case False
        with Inr Some next' step 1(2) show ?thesis by (simp add: drain.simps)
      qed
    qed
  qed
qed

text \<open>A controller that starts on a head with an empty store.\<close>

lemma recorded_start: "ic_written c = [] \<Longrightarrow> repo_laws head commits o' \<Longrightarrow> recorded (head (ic_repo c)) head commits c"
  using repo_lawsD(1) by (auto simp: recorded_def merged_records_def intro: history.start)

text \<open>C6: Draining the queue keeps the records and the repository one history: the records only grow, by what the drain returns,
  each merged run starts at the head the one before it left, and the walk of the completion, asked at the head the drain ends at,
  finds exactly the merged runs. The exception is a merge that brought no new commit, as after a crash that lost the record of
  the first merge of the branch: then the walk fails, at this head and, as the records stay, at every later one.\<close>

theorem integration_history:
  assumes "repo_laws head commits o'" "recorded base head commits c" "drainUntilBlocked o' c = (Inr rs, d)"
  shows "ic_written d = ic_written c @ rs \<and> recorded base head commits d \<and>
    (if \<exists>r \<in> set (merged_records (ic_written d)). empty_merge r
     then \<exists>e. finalIntegrationRunIds (ic_written d) (head (ic_repo d)) = Inl e
     else \<exists>chain. finalIntegrationRunIds (ic_written d) (head (ic_repo d)) = Inr chain \<and>
       set chain = ml_integrationRunId ` set (merged_records (ic_written d)))"
proof -
  have "recorded base head commits d" "ic_written d = ic_written c @ rs"
    using drain_recorded [OF assms(3) [unfolded drainUntilBlocked_def] assms(1,2)] by auto
  moreover from this(1) have "history base (merged_records (ic_written d)) (head (ic_repo d))" by (simp add: recorded_def)
  ultimately show ?thesis using history_runs by blast
qed

section \<open>A repository\<close>

text \<open>A head, the commits that exist, and the branches that are part of the head.\<close>

record demo_repo =
  dr_head :: string
  dr_commits :: "string list"
  dr_branches :: "string list"

definition demo_commits :: "demo_repo \<Rightarrow> string set" where
  "demo_commits g = insert (dr_head g) (set (dr_commits g))"

definition demo_merge :: "string \<Rightarrow> (demo_repo, merge_result) eff" where
  "demo_merge b g = (if b \<in> set (dr_branches g) then (Inr \<lparr>mr_merged = True, mr_headSha = dr_head g, mr_detail = None\<rparr>, g)
     else let h = CHR ''c'' # dr_head g @ concat (dr_commits g) in
       (Inr \<lparr>mr_merged = True, mr_headSha = h, mr_detail = None\<rparr>,
        \<lparr>dr_head = h, dr_commits = dr_head g # dr_commits g, dr_branches = b # dr_branches g\<rparr>))"

definition demo_port :: "demo_repo integration_port" where
  "demo_port = \<lparr>ip_currentBranch = ret ''integration'', ip_currentHead = gets dr_head, ip_branchHead = (\<lambda>_. ret (demo_sha CHR ''b'')),
     ip_statusClean = ret True, ip_merge = demo_merge,
     ip_resetTo = (\<lambda>sha g. (Inr (), g\<lparr>dr_head := sha, dr_commits := dr_head g # dr_commits g\<rparr>))\<rparr>"

definition demo_options :: "demo_repo integration_options" where
  "demo_options = \<lparr>io_port = demo_port, io_integrationRef = ''integration'',
     io_verify = (\<lambda>_. ret \<lparr>gr_accept = True, gr_reasons = [], gr_observed = \<lparr>go_branch = None, go_headSha = None, go_changedPaths = [],
       go_dirty = False, go_workspaceFingerprint = None\<rparr>, gr_ownership = None\<rparr>),
     io_postMergeCheck = None, io_write = (\<lambda>_. ret ()), io_sha256 = (\<lambda>s. s), io_now = ret ''t''\<rparr>"

lemma concat_longer: "x \<in> set xs \<Longrightarrow> length x \<le> length (concat xs)"
  by (induction xs) auto

lemma demo_laws: "repo_laws dr_head demo_commits demo_options"
proof -
  have "CHR ''c'' # dr_head g @ concat (dr_commits g) \<notin> demo_commits g" for g
  proof
    assume "CHR ''c'' # dr_head g @ concat (dr_commits g) \<in> demo_commits g"
    then have "length (CHR ''c'' # dr_head g @ concat (dr_commits g)) \<le> length (dr_head g @ concat (dr_commits g))"
      using concat_longer [of "CHR ''c'' # dr_head g @ concat (dr_commits g)" "dr_head g # dr_commits g"] by (simp add: demo_commits_def)
    then show False by simp
  qed
  then show ?thesis
    by (auto simp: repo_laws_def Let_def keeps_head_def demo_options_def demo_port_def demo_merge_def demo_commits_def ret_def gets_def
        post_merge_def split: if_splits)
qed

definition demo_item :: "string \<Rightarrow> string list \<Rightarrow> int \<Rightarrow> queue_item" where
  "demo_item sid deps n = \<lparr>qi_session = (demo_session_definition sid ''w1'' deps)\<lparr>se_branch := sid\<rparr>,
     qi_delivery = demo_delivery sid sid (''h-'' @ sid), qi_waveOrdinal = 1, qi_enqueuedSequence = n\<rparr>"

text \<open>Two deliveries, the first of which waits for the second.\<close>

definition demo_integration :: "string list \<Rightarrow> demo_repo integration" where
  "demo_integration branches = \<lparr>ic_queue = \<lparr>iq_sequence = 2, iq_items = [demo_item ''s1'' [''s2''] 1, demo_item ''s2'' [] 2]\<rparr>,
     ic_integrated = [], ic_written = [], ic_repo = \<lparr>dr_head = ''r'', dr_commits = [], dr_branches = branches\<rparr>\<rparr>"

definition demo_drain :: "string list \<Rightarrow> milestone list res \<times> demo_repo integration" where
  "demo_drain branches = drainUntilBlocked demo_options (demo_integration branches)"

lemma demo_drain_merges:
  "case fst (demo_drain []) of Inl e \<Rightarrow> False | Inr rs \<Rightarrow> ic_written (snd (demo_drain [])) = rs \<and> map ml_mergedSessionIds rs = [[''s2''], [''s1'']] \<and>
     merged_records rs = rs \<and> \<not> list_ex empty_merge rs"
  by code_simp

lemma demo_recorded: "recorded ''r'' dr_head demo_commits (demo_integration branches)"
  using recorded_start [of "demo_integration branches", OF _ demo_laws] by (simp add: demo_integration_def)

lemma integration_history_witness:
  "\<exists>rs chain. fst (demo_drain []) = Inr rs \<and> map ml_mergedSessionIds rs = [[''s2''], [''s1'']] \<and>
     finalIntegrationRunIds rs (dr_head (ic_repo (snd (demo_drain [])))) = Inr chain \<and> set chain = ml_integrationRunId ` set rs"
proof -
  obtain rs where rs: "fst (demo_drain []) = Inr rs" "ic_written (snd (demo_drain [])) = rs" "map ml_mergedSessionIds rs = [[''s2''], [''s1'']]"
    "merged_records rs = rs" "\<not> list_ex empty_merge rs"
    using demo_drain_merges by (cases "fst (demo_drain [])") auto
  then have "drainUntilBlocked demo_options (demo_integration []) = (Inr rs, snd (demo_drain []))"
    by (simp add: demo_drain_def prod_eq_iff)
  from integration_history [OF demo_laws demo_recorded this] rs show ?thesis by (auto simp: list_ex_iff)
qed

text \<open>The merge of the second session was made and its record was lost: integrating it again merges nothing, and from
  then on the completion of the group fails.\<close>

lemma lost_record_blocks_completion:
  "case fst (demo_drain [''s2'']) of Inl e \<Rightarrow> False | Inr rs \<Rightarrow> map ml_status rs = [MilestoneMerged, MilestoneMerged] \<and>
     (case finalIntegrationRunIds rs (dr_head (ic_repo (snd (demo_drain [''s2''])))) of
        Inl e \<Rightarrow> e = Error ''IntegrationMilestone ancestry cycle at r'' | Inr chain \<Rightarrow> False)"
  by code_simp

end
