(* ===== verification/GroupVerification.thy ===== *)
theory GroupVerification
  imports GroupWorkspace GroupCompletion "HOL-Library.AList"
begin

text \<open>
  \<open>group-runtime/verification\<close>: running the verification commands of a final state (\<open>verification-runner.ts\<close>),
  attributing a failure to the sessions that own what it touches (\<open>failure-attribution.ts\<close>), and planning a wave of
  repairs within the budgets of the group (\<open>repair-planner.ts\<close>).

  The executor of commands is an effect on a state of its own; the clock, random identifiers, SHA-256 and the order of
  \<open>localeCompare\<close> are parameters.
\<close>

section \<open>Running the commands\<close>

datatype host_platform = OnWindows | OnLinux | OnMacos

fun runs_on :: "command_platform \<Rightarrow> host_platform \<Rightarrow> bool" where
  "runs_on AnyPlatform h \<longleftrightarrow> True"
| "runs_on WindowsOnly h \<longleftrightarrow> h = OnWindows"
| "runs_on LinuxOnly h \<longleftrightarrow> h = OnLinux"
| "runs_on MacosOnly h \<longleftrightarrow> h = OnMacos"

fun host_text :: "host_platform \<Rightarrow> string" where
  "host_text OnWindows = ''windows''"
| "host_text OnLinux = ''linux''"
| "host_text OnMacos = ''macos''"

fun command_platform_text :: "command_platform \<Rightarrow> string" where
  "command_platform_text AnyPlatform = ''any''"
| "command_platform_text WindowsOnly = ''windows''"
| "command_platform_text LinuxOnly = ''linux''"
| "command_platform_text MacosOnly = ''macos''"

text \<open>An executor answers an exit code and evidence, or throws; a thrown error is what \<open>String\<close> makes of it.\<close>

type_synonym 'e command_executor = "verification_command \<Rightarrow> 'e \<Rightarrow> (string + int \<times> string list) \<times> 'e"

record verification_request =
  vq_groupId :: string
  vq_integrationSha :: string
  vq_policyRevision :: string
  vq_commands :: "verification_command list"
  vq_mandatoryCommandIds :: "string list"
  vq_environment :: "(string \<times> string) list"
  vq_platform :: host_platform
  vq_runId :: "string option"
  vq_startedAt :: "string option"

fun command_errors :: "string list \<Rightarrow> verification_command list \<Rightarrow> string list" where
  "command_errors ids [] = []"
| "command_errors ids (c # cs) =
     (if trim (vc_id c) = [] then [''verification command id is empty'']
      else if vc_id c \<in> set ids then [''duplicate verification command id '' @ vc_id c] else []) @
     (if trim (vc_command c) = [] then [''verification command '' @ vc_id c @ '' is empty''] else []) @
     (case vc_cwd c of None \<Rightarrow> [] | Some d \<Rightarrow> if trim d = [] then [''verification command '' @ vc_id c @ '' has empty cwd''] else []) @
     command_errors (vc_id c # ids) cs"

definition validateVerificationCommands :: "verification_command list \<Rightarrow> string list" where
  "validateVerificationCommands cs = command_errors [] cs"

definition assertMandatoryVerificationIds :: "verification_command list \<Rightarrow> string list \<Rightarrow> string list" where
  "assertMandatoryVerificationIds cs ids =
     sorted_unique (filter (\<lambda>i. i \<notin> set (map vc_id (filter vc_required cs))) ids)"

text \<open>The results so far and whether the executor threw, which stops the run.\<close>

fun run_commands :: "'e command_executor \<Rightarrow> host_platform \<Rightarrow> verification_command list \<Rightarrow> 'e \<Rightarrow> (verification_result list \<times> bool) \<times> 'e" where
  "run_commands run h [] e = (([], False), e)"
| "run_commands run h (c # cs) e =
     (if \<not> runs_on (vc_platform c) h
      then (case run_commands run h cs e of ((rs, unknown), e') \<Rightarrow>
        ((\<lparr>vr_commandId = vc_id c, vr_status = ResultNotRunPlatform, vr_exitCode = None,
           vr_evidence = [''required_platform='' @ command_platform_text (vc_platform c), ''actual_platform='' @ host_text h]\<rparr> # rs, unknown), e'))
      else (case run c e of
        (Inl err, e') \<Rightarrow> (([\<lparr>vr_commandId = vc_id c, vr_status = ResultNotRun, vr_exitCode = None,
           vr_evidence = [''executor_exception='' @ err]\<rparr>], True), e')
      | (Inr (code, evidence), e') \<Rightarrow> (case run_commands run h cs e' of ((rs, unknown), e'') \<Rightarrow>
          ((\<lparr>vr_commandId = vc_id c, vr_status = (if code = 0 then ResultPassed else ResultFailed), vr_exitCode = Some code,
             vr_evidence = evidence\<rparr> # rs, unknown), e''))))"

definition requiredIncomplete :: "verification_command list \<Rightarrow> verification_result list \<Rightarrow> bool" where
  "requiredIncomplete cs rs \<longleftrightarrow> list_ex (\<lambda>c. vc_required c \<and>
     map_option vr_status (by_key vr_commandId rs (vc_id c)) \<noteq> Some ResultPassed) cs"

text \<open>The random identifier and the two readings of the clock.\<close>

record run_stamps =
  rn_uuid :: string
  rn_started :: string
  rn_finished :: string

definition executeVerification :: "'e command_executor \<Rightarrow> run_stamps \<Rightarrow> verification_request \<Rightarrow> ('e, verification_run) eff" where
  "executeVerification run sp q =
     bnd (require_that (SHA_RE (vq_integrationSha q)) (Error ''verification requires an exact 40-character integration SHA'')) (\<lambda>_.
     let errors = validateVerificationCommands (vq_commands q);
         missing = assertMandatoryVerificationIds (vq_commands q) (vq_mandatoryCommandIds q) in
     bnd (require_that (errors = []) (Error (js_join ''; '' errors))) (\<lambda>_.
     bnd (require_that (missing = []) (Error (''mandatory verification commands missing or not required: '' @ js_join '', '' missing))) (\<lambda>_.
     (\<lambda>e. case run_commands run (vq_platform q) (vq_commands q) e of ((rs, unknown), e') \<Rightarrow>
       (Inr \<lparr>vn_runId = (case vq_runId q of None \<Rightarrow> ''V-'' @ rn_uuid sp | Some i \<Rightarrow> i), vn_groupId = vq_groupId q,
          vn_integrationSha = vq_integrationSha q, vn_policyRevision = vq_policyRevision q, vn_commands = vq_commands q, vn_results = rs,
          vn_environment = AList.update ''platform'' (host_text (vq_platform q)) (vq_environment q),
          vn_startedAt = (case vq_startedAt q of None \<Rightarrow> rn_started sp | Some t \<Rightarrow> t), vn_finishedAt = Some (rn_finished sp),
          vn_status = (if unknown then RunOutcomeUnknown else if requiredIncomplete (vq_commands q) rs then RunFailed else RunPassed)\<rparr>, e')))))"

section \<open>Attributing a failure\<close>

datatype failure_signal = EnvironmentUnavailable | CommandFailed | IntegrationConflictSignal | ContractMismatchSignal | DependencyFailed |
  TestOnlySignal | PermissionDenied | OutcomeUnknownSignal | UnknownSignal

fun signal_text :: "failure_signal \<Rightarrow> string" where
  "signal_text EnvironmentUnavailable = ''environment_unavailable''"
| "signal_text CommandFailed = ''command_failed''"
| "signal_text IntegrationConflictSignal = ''integration_conflict''"
| "signal_text ContractMismatchSignal = ''contract_mismatch''"
| "signal_text DependencyFailed = ''dependency_failed''"
| "signal_text TestOnlySignal = ''test_only''"
| "signal_text PermissionDenied = ''permission_denied''"
| "signal_text OutcomeUnknownSignal = ''outcome_unknown''"
| "signal_text UnknownSignal = ''unknown''"

datatype development_failure_kind = KEnvironment | KImplementation | KIntegrationSeam | KContractMismatch | KDependency | KTestOnly |
  KPermission | KOutcomeUnknown | KUnknown

fun kindFor :: "failure_signal \<Rightarrow> development_failure_kind" where
  "kindFor EnvironmentUnavailable = KEnvironment"
| "kindFor IntegrationConflictSignal = KIntegrationSeam"
| "kindFor ContractMismatchSignal = KContractMismatch"
| "kindFor DependencyFailed = KDependency"
| "kindFor TestOnlySignal = KTestOnly"
| "kindFor PermissionDenied = KPermission"
| "kindFor OutcomeUnknownSignal = KOutcomeUnknown"
| "kindFor CommandFailed = KImplementation"
| "kindFor UnknownSignal = KUnknown"

record failure_observation =
  fb_groupId :: string
  fb_verificationRunId :: "string option"
  fb_signal :: failure_signal
  fb_message :: string
  fb_evidence :: "string list"
  fb_changedPaths :: "string list"
  fb_involvedSessionIds :: "string list"
  fb_attempts :: "int option"

record failure_record =
  fr_failureId :: string
  fr_groupId :: string
  fr_verificationRunId :: "string option"
  fr_sessionId :: "string option"
  fr_kind :: development_failure_kind
  fr_message :: string
  fr_evidence :: "string list"
  fr_ownerSessionIds :: "string list"
  fr_attempts :: int
  fr_unresolved :: bool
  fr_undefined :: "string list"  \<comment> \<open>the keys that are there with the value \<open>undefined\<close>\<close>

text \<open>The hash sees the observation with its evidence and paths in order, and neither the sessions nor the attempts.\<close>

definition stableFailureId :: "(failure_observation \<Rightarrow> string) \<Rightarrow> failure_observation \<Rightarrow> string" where
  "stableFailureId hash ob = ''F-'' @ take 16 (hash (ob\<lparr>fb_evidence := sort (fb_evidence ob), fb_changedPaths := sort (fb_changedPaths ob),
     fb_involvedSessionIds := [], fb_attempts := None\<rparr>))"

definition path_owners :: "session_definition list \<Rightarrow> string \<Rightarrow> string list" where
  "path_owners ss p = map se_sessionId (filter (\<lambda>s. ar_authority (classifyChangedPath p s []) = Owned) ss)"

definition attributeFailure :: "(failure_observation \<Rightarrow> string) \<Rightarrow> failure_observation \<Rightarrow> session_definition list \<Rightarrow> failure_record" where
  "attributeFailure hash ob ss = \<lparr>fr_failureId = stableFailureId hash ob, fr_groupId = fb_groupId ob, fr_verificationRunId = fb_verificationRunId ob, fr_sessionId = None,
     fr_kind = kindFor (fb_signal ob),
     fr_message = (let m = trim (fb_message ob) in if m = [] then signal_text (fb_signal ob) else m),
     fr_evidence = fb_evidence ob,
     fr_ownerSessionIds = sorted_unique (filter (\<lambda>i. i \<in> set (map se_sessionId ss))
       (fb_involvedSessionIds ob @ concat (map (path_owners ss) (fb_changedPaths ob)))),
     fr_attempts = (case fb_attempts ob of None \<Rightarrow> 1 | Some n \<Rightarrow> n), fr_unresolved = True,
     fr_undefined = undefined_keys [(''verificationRunId'', fb_verificationRunId ob)]\<rparr>"

section \<open>Planning repairs\<close>

datatype repair_status = RepairPlanned | RepairRunning | RepairDelivered | RepairVerified | RepairWaitingHuman | RepairFailed

record repair_task =
  rt_repairTaskId :: string
  rt_groupId :: string
  rt_waveOrdinal :: int
  rt_failureIds :: "string list"
  rt_ownerSessionIds :: "string list"
  rt_objective :: string
  rt_status :: repair_status

definition repairId :: "(string \<Rightarrow> string) \<Rightarrow> string \<Rightarrow> int \<Rightarrow> string list \<Rightarrow> string list \<Rightarrow> string" where
  "repairId sha g n fs os = ''R-'' @ take 16 (sha (g @ '':'' @ int_text n @ '':'' @ js_join '','' (sort fs) @ '':'' @ js_join '','' (sort os)))"

definition over_budget :: "group_policy \<Rightarrow> failure_record \<Rightarrow> bool" where
  "over_budget p f \<longleftrightarrow> fr_attempts f \<ge> gp_maxSameFailureAttempts p \<or> fr_kind f = KOutcomeUnknown"

definition bucket_key :: "group_policy \<Rightarrow> failure_record \<Rightarrow> string" where
  "bucket_key p f = (if over_budget p f \<or> fr_ownerSessionIds f = [] then ''human:'' @ fr_failureId f
     else ''owners:'' @ js_join '','' (sort (fr_ownerSessionIds f)))"

definition waiting_key :: "string \<Rightarrow> bool" where
  "waiting_key k \<longleftrightarrow> take 6 k = ''human:''"

text \<open>The failures of one key, in the order of the input.\<close>

definition bucket :: "group_policy \<Rightarrow> failure_record list \<Rightarrow> string \<Rightarrow> failure_record list" where
  "bucket p fs k = filter (\<lambda>f. bucket_key p f = k) (filter fr_unresolved fs)"

definition repair_task_of :: "(string \<Rightarrow> string) \<Rightarrow> string \<Rightarrow> int \<Rightarrow> string \<times> failure_record list \<Rightarrow> repair_task" where
  "repair_task_of sha g n e = (case e of (k, fs) \<Rightarrow>
     let owners = sorted_unique (concat (map fr_ownerSessionIds fs)); ids = sort (map fr_failureId fs); human = waiting_key k in
     \<lparr>rt_repairTaskId = repairId sha g n ids owners, rt_groupId = g, rt_waveOrdinal = n, rt_failureIds = ids, rt_ownerSessionIds = owners,
      rt_objective = (if human then ''Human resolution required for: '' else ''Repair attributed failures without widening scope: '') @
        js_join ''; '' (map fr_message fs),
      rt_status = (if human then RepairWaitingHuman else RepairPlanned)\<rparr>)"

definition planRepairWave :: "(string list \<Rightarrow> string list) \<Rightarrow> (string \<Rightarrow> string) \<Rightarrow> string \<Rightarrow> int \<Rightarrow> failure_record list \<Rightarrow> group_policy \<Rightarrow>
    repair_task list res" where
  "planRepairWave localeSort sha g n fs p =
     (if \<not> safe_integer n \<or> n < 1 \<or> n > gp_maxRepairWaves p then Inl (Error ''repair wave ordinal exceeds frozen budget'')
      else let keys = localeSort (first_occurrences (map (bucket_key p) (filter fr_unresolved fs)));
               tasks = map (\<lambda>k. repair_task_of sha g n (k, bucket p fs k)) keys;
               automated = int (length (filter (\<lambda>t. rt_status t = RepairPlanned) tasks)) in
        if automated > gp_maxRepairSessions p
        then Inl (Error (''repair session budget exceeded: '' @ int_text automated @ '' > '' @ int_text (gp_maxRepairSessions p)))
        else Inr tasks)"

end
