(* ===== verification/GroupVerificationCorrectness.thy ===== *)
theory GroupVerificationCorrectness
  imports GroupVerification GroupCompletionCorrectness
begin

text \<open>The properties of a verification run, as the completion of the group reads it, and of a planned wave of repairs.\<close>

section \<open>A verification run\<close>

lemma command_errors_distinct: "command_errors ids cs = [] \<Longrightarrow> distinct (map vc_id cs) \<and> set ids \<inter> set (map vc_id cs) = {}"
  by (induction ids cs rule: command_errors.induct) (auto split: if_splits)

text \<open>The results follow the commands, up to the one whose executor threw.\<close>

definition result_of :: "host_platform \<Rightarrow> verification_command \<Rightarrow> verification_result \<Rightarrow> bool" where
  "result_of h c r \<longleftrightarrow> vr_commandId r = vc_id c \<and> (vr_status r = ResultPassed \<longrightarrow> runs_on (vc_platform c) h \<and> vr_exitCode r = Some 0)"

lemma run_commands_results:
  "run_commands run h cs e = ((rs, u), e') \<Longrightarrow> list_all2 (result_of h) (take (length rs) cs) rs \<and> (length rs = length cs \<or> u) \<and>
     (u \<longrightarrow> rs \<noteq> [] \<and> vr_status (last rs) = ResultNotRun)"
proof (induction run h cs e arbitrary: rs u e' rule: run_commands.induct)
  case (2 run h c cs e)
  show ?case
  proof (cases "runs_on (vc_platform c) h")
    case False
    obtain rs0 u0 e0 where run: "run_commands run h cs e = ((rs0, u0), e0)" by (metis surj_pair)
    define r0 where "r0 = \<lparr>vr_commandId = vc_id c, vr_status = ResultNotRunPlatform, vr_exitCode = None,
      vr_evidence = [''required_platform='' @ command_platform_text (vc_platform c), ''actual_platform='' @ host_text h]\<rparr>"
    have rs: "rs = r0 # rs0" "u0 = u" "e0 = e'" using 2(3) False run by (simp_all add: r0_def)
    with 2(1) [OF False] have "list_all2 (result_of h) (take (length rs0) cs) rs0 \<and> (length rs0 = length cs \<or> u) \<and>
      (u \<longrightarrow> rs0 \<noteq> [] \<and> vr_status (last rs0) = ResultNotRun)" using run rs by blast
    moreover have "result_of h c r0" by (simp add: result_of_def r0_def)
    ultimately show ?thesis using rs by auto
  next
    case True
    obtain a e1 where a: "run c e = (a, e1)" by fastforce
    show ?thesis
    proof (cases a)
      case (Inl err)
      with True a 2(3) show ?thesis by (auto simp: result_of_def)
    next
      case (Inr ce)
      then obtain code evidence where ce: "a = Inr (code, evidence)" by (cases ce) auto
      obtain rs0 u0 e2 where r: "run_commands run h cs e1 = ((rs0, u0), e2)" by (metis surj_pair)
      with True a ce 2(3) have "rs = \<lparr>vr_commandId = vc_id c, vr_status = (if code = 0 then ResultPassed else ResultFailed), vr_exitCode = Some code,
             vr_evidence = evidence\<rparr> # rs0" "u0 = u" by auto
      with 2(2) [OF _ a [symmetric] ce] r True show ?thesis by (auto simp: result_of_def)
    qed
  qed
qed auto

lemma executeVerification_Inr:
  assumes "executeVerification run sp q e = (Inr v, e')"
  obtains rs u where "run_commands run (vq_platform q) (vq_commands q) e = ((rs, u), e')" "SHA_RE (vq_integrationSha q)"
    "validateVerificationCommands (vq_commands q) = []" "assertMandatoryVerificationIds (vq_commands q) (vq_mandatoryCommandIds q) = []"
    "vn_results v = rs" "vn_commands v = vq_commands q" "vn_integrationSha v = vq_integrationSha q" "vn_policyRevision v = vq_policyRevision q"
    "vn_status v = (if u then RunOutcomeUnknown else if requiredIncomplete (vq_commands q) rs then RunFailed else RunPassed)"
proof -
  obtain rs u e1 where "run_commands run (vq_platform q) (vq_commands q) e = ((rs, u), e1)" by (metis surj_pair)
  then show ?thesis using assms that
    by (auto simp: executeVerification_def bnd_def require_that_def lift_res_def guard_res_def Let_def split: if_splits)
qed

lemma list_all2_source: "list_all2 P xs ys \<Longrightarrow> y \<in> set ys \<Longrightarrow> (\<And>x. x \<in> set xs \<Longrightarrow> P x y \<Longrightarrow> thesis) \<Longrightarrow> thesis"
  by (induction rule: list_all2_induct) auto

lemma required_passed:
  assumes "run_commands run h cs e = ((rs, u), e')" "validateVerificationCommands cs = []"
  shows "requiredIncomplete cs rs \<longleftrightarrow> (\<exists>c \<in> set cs. vc_required c \<and> (\<forall>r \<in> set rs. vr_commandId r = vc_id c \<longrightarrow> vr_status r \<noteq> ResultPassed))"
    and "c \<in> set cs \<Longrightarrow> r \<in> set rs \<Longrightarrow> vr_commandId r = vc_id c \<Longrightarrow> vr_status r = ResultPassed \<Longrightarrow>
      runs_on (vc_platform c) h \<and> vr_exitCode r = Some 0"
proof -
  have "distinct (map vc_id cs)" using command_errors_distinct assms(2) by (simp add: validateVerificationCommands_def)
  then have inj: "inj_on vc_id (set cs)" and cs: "distinct (map vc_id (take (length rs) cs))"
    by (auto simp: distinct_map take_map [symmetric] intro: distinct_take)
  have results: "list_all2 (result_of h) (take (length rs) cs) rs" using run_commands_results [OF assms(1)] by simp
  then have "map vr_commandId rs = map vc_id (take (length rs) cs)"
    by (auto simp: list_all2_conv_all_nth result_of_def intro!: nth_equalityI)
  with cs have distinct: "distinct (map vr_commandId rs)" by simp
  have "by_key vr_commandId rs k = Some r \<longleftrightarrow> r \<in> set rs \<and> vr_commandId r = k" for k r
    unfolding by_key_def map_get_find_key [OF distinct] by (rule find_key_eq_iff [OF distinct])
  then have "map_option vr_status (by_key vr_commandId rs k) \<noteq> Some ResultPassed \<longleftrightarrow>
      (\<forall>r \<in> set rs. vr_commandId r = k \<longrightarrow> vr_status r \<noteq> ResultPassed)" for k
    unfolding map_option_eq_Some by blast
  then show "requiredIncomplete cs rs \<longleftrightarrow> (\<exists>c \<in> set cs. vc_required c \<and> (\<forall>r \<in> set rs. vr_commandId r = vc_id c \<longrightarrow> vr_status r \<noteq> ResultPassed))"
    unfolding requiredIncomplete_def list_ex_iff by simp
  assume c: "c \<in> set cs" "r \<in> set rs" "vr_commandId r = vc_id c" "vr_status r = ResultPassed"
  obtain d where "d \<in> set (take (length rs) cs)" "result_of h d r" by (rule list_all2_source [OF results c(2)])
  then have "d \<in> set cs" by (meson in_set_takeD)
  with c inj \<open>result_of h d r\<close> have "d = c" by (auto simp: result_of_def inj_on_def)
  with \<open>result_of h d r\<close> c show "runs_on (vc_platform c) h \<and> vr_exitCode r = Some 0" by (simp add: result_of_def)
qed

lemma assertMandatory_Nil:
  "assertMandatoryVerificationIds cs ids = [] \<Longrightarrow> i \<in> set ids \<Longrightarrow> \<exists>c \<in> set cs. vc_required c \<and> vc_id c = i"
  by (auto simp: assertMandatoryVerificationIds_def filter_empty_conv)

text \<open>C25: A verification run that returns passed exactly when the executor threw at no command, required or optional, and every
  required command has a passed result. Each required command of a passed run ran, on this platform, with exit code 0; so a
  required command of another platform makes the run fail. A run whose executor threw has an unknown outcome, any other
  that did not pass has failed. The run is evidence the completion of a group accepts, for the state it was asked for and a
  policy of the revision it was asked for whose mandatory tests it was asked for, exactly when it passed.\<close>

theorem passed_run_qualifies:
  assumes "executeVerification run sp q e = (Inr v, e')"
  shows "(vn_status v = RunPassed \<longleftrightarrow> \<not> snd (fst (run_commands run (vq_platform q) (vq_commands q) e)) \<and>
      (\<forall>c \<in> set (vq_commands q). vc_required c \<longrightarrow> (\<exists>r \<in> set (vn_results v). vr_commandId r = vc_id c \<and> vr_status r = ResultPassed))) \<and>
    vn_status v \<in> {RunPassed, RunFailed, RunOutcomeUnknown} \<and>
    (vn_status v = RunPassed \<longrightarrow> (\<forall>c \<in> set (vq_commands q). vc_required c \<longrightarrow> runs_on (vc_platform c) (vq_platform q) \<and>
      (\<exists>r \<in> set (vn_results v). vr_commandId r = vc_id c \<and> vr_status r = ResultPassed \<and> vr_exitCode r = Some 0))) \<and>
    (vn_status v = RunOutcomeUnknown \<longleftrightarrow> snd (fst (run_commands run (vq_platform q) (vq_commands q) e))) \<and>
    (vn_status v = RunFailed \<longrightarrow> (\<exists>c \<in> set (vq_commands q). vc_required c \<and>
      (\<forall>r \<in> set (vn_results v). vr_commandId r = vc_id c \<longrightarrow> vr_status r \<noteq> ResultPassed))) \<and>
    (\<forall>p. gp_verificationPolicyRevision p = vq_policyRevision q \<and> set (gp_mandatoryTests p) \<subseteq> set (vq_mandatoryCommandIds q) \<longrightarrow>
      (proof_verification_qualifies v (vq_integrationSha q) p \<longleftrightarrow> vn_status v = RunPassed))"
proof -
  let ?cs = "vq_commands q" and ?h = "vq_platform q"
  obtain rs u where run: "run_commands run ?h ?cs e = ((rs, u), e')" and ok: "SHA_RE (vq_integrationSha q)"
      "validateVerificationCommands ?cs = []" "assertMandatoryVerificationIds ?cs (vq_mandatoryCommandIds q) = []"
    and v: "vn_results v = rs" "vn_commands v = ?cs" "vn_integrationSha v = vq_integrationSha q" "vn_policyRevision v = vq_policyRevision q"
      "vn_status v = (if u then RunOutcomeUnknown else if requiredIncomplete ?cs rs then RunFailed else RunPassed)"
    by (rule executeVerification_Inr [OF assms])
  note passed = required_passed [OF run ok(2)] and mandatory = assertMandatory_Nil [OF ok(3)]
  have status: "vn_status v = RunPassed \<longleftrightarrow> \<not> u \<and> \<not> requiredIncomplete ?cs rs" "vn_status v = RunOutcomeUnknown \<longleftrightarrow> u"
    "vn_status v = RunFailed \<longleftrightarrow> \<not> u \<and> requiredIncomplete ?cs rs" "vn_status v \<in> {RunPassed, RunFailed, RunOutcomeUnknown}" using v(5) by auto
  have unknown: "snd (fst (run_commands run ?h ?cs e)) = u" using run by simp
  have results: "\<exists>r \<in> set rs. vr_commandId r = vc_id c \<and> vr_status r = ResultPassed"
    if "vn_status v = RunPassed" "c \<in> set ?cs" "vc_required c" for c
    using that passed(1) status(1) by blast
  have "mandatory_passed (gp_mandatoryTests p) v"
    if "vn_status v = RunPassed" "set (gp_mandatoryTests p) \<subseteq> set (vq_mandatoryCommandIds q)" for p
    using results [OF that(1)] mandatory that(2) unfolding mandatory_passed_def list_all_iff v(1,2) by (fastforce simp: image_iff)
  then have "proof_verification_qualifies v (vq_integrationSha q) p \<longleftrightarrow> vn_status v = RunPassed"
    if "gp_verificationPolicyRevision p = vq_policyRevision q" "set (gp_mandatoryTests p) \<subseteq> set (vq_mandatoryCommandIds q)" for p
    using that v(3,4) by (auto simp: proof_verification_qualifies_def)
  moreover have "\<forall>c \<in> set ?cs. vc_required c \<longrightarrow> runs_on (vc_platform c) ?h \<and>
      (\<exists>r \<in> set rs. vr_commandId r = vc_id c \<and> vr_status r = ResultPassed \<and> vr_exitCode r = Some 0)" if "vn_status v = RunPassed"
    using results [OF that] passed(2) by blast
  ultimately show ?thesis unfolding unknown v(1) using status passed(1) by blast
qed

definition demo_request :: verification_request where
  "demo_request = \<lparr>vq_groupId = ''g'', vq_integrationSha = demo_sha CHR ''c'', vq_policyRevision = ''v1'',
     vq_commands = [\<lparr>vc_id = ''unit'', vc_command = ''run'', vc_cwd = None, vc_platform = AnyPlatform, vc_required = True\<rparr>,
       \<lparr>vc_id = ''win'', vc_command = ''run'', vc_cwd = None, vc_platform = WindowsOnly, vc_required = False\<rparr>],
     vq_mandatoryCommandIds = [''unit''], vq_environment = [], vq_platform = OnLinux, vq_runId = None, vq_startedAt = None\<rparr>"

definition demo_verification_result :: "verification_run res \<times> nat" where
  "demo_verification_result = executeVerification (\<lambda>c n. (Inr (0, [vc_id c]), Suc n)) \<lparr>rn_uuid = ''u'', rn_started = ''t'', rn_finished = ''t''\<rparr> demo_request 0"

lemma demo_verification_passed:
  "case demo_verification_result of (Inl e, n) \<Rightarrow> False | (Inr v, n) \<Rightarrow> vn_status v = RunPassed \<and> n = 1 \<and>
     map vr_status (vn_results v) = [ResultPassed, ResultNotRunPlatform]"
  by code_simp

lemma passed_run_qualifies_witness:
  "\<exists>v. fst demo_verification_result = Inr v \<and> proof_verification_qualifies v (demo_sha CHR ''c'') demo_group_policy"
proof -
  obtain v n where v: "demo_verification_result = (Inr v, n)" "vn_status v = RunPassed"
    using demo_verification_passed by (auto split: prod.splits sum.splits)
  from passed_run_qualifies [OF v(1) [unfolded demo_verification_result_def]] v(2)
  have "proof_verification_qualifies v (demo_sha CHR ''c'') demo_group_policy"
    by (simp add: demo_request_def demo_group_policy_def)
  moreover have "fst demo_verification_result = Inr v" by (simp only: v(1) fst_conv)
  ultimately show ?thesis by blast
qed

section \<open>Repairs\<close>

lemma waiting_bucket: "waiting_key (bucket_key p f) \<longleftrightarrow> over_budget p f \<or> fr_ownerSessionIds f = []"
  by (simp add: waiting_key_def bucket_key_def)

text \<open>A task of a planned wave: its key, and the failures under the key.\<close>

lemma planRepairWave_Inr:
  assumes "planRepairWave localeSort sha g n fs p = Inr ts"
  obtains "1 \<le> n" "n \<le> gp_maxRepairWaves p" "int (length (filter (\<lambda>t. rt_status t = RepairPlanned) ts)) \<le> gp_maxRepairSessions p"
    "ts = map (\<lambda>k. repair_task_of sha g n (k, bucket p fs k)) (localeSort (first_occurrences (map (bucket_key p) (filter fr_unresolved fs))))"
  using assms by (auto simp: planRepairWave_def Let_def split: if_splits)

lemma planned_statuses:
  assumes "planRepairWave localeSort sha g n fs p = Inr ts" "t \<in> set ts"
  shows "rt_status t \<in> {RepairPlanned, RepairWaitingHuman}"
  using assms(2) by - (rule planRepairWave_Inr [OF assms(1)], auto simp: repair_task_of_def Let_def)

text \<open>Two open failures with different ids are never under two keys; so the keys, of which none is listed twice, give one task.\<close>

lemma bucket_ids:
  assumes "distinct (map fr_failureId (filter fr_unresolved fs))" "f \<in> set fs" "fr_unresolved f"
  shows "fr_failureId f \<in> fr_failureId ` set (bucket p fs k) \<longleftrightarrow> bucket_key p f = k"
proof -
  have "inj_on fr_failureId (set (filter fr_unresolved fs))" using assms(1) by (simp add: distinct_map)
  then show ?thesis using assms(2,3) by (fastforce simp: bucket_def inj_on_def)
qed

lemma one_task:
  assumes "\<And>ks. mset (localeSort ks) = mset ks" "distinct (map fr_failureId (filter fr_unresolved fs))" "f \<in> set fs" "fr_unresolved f"
    and "\<And>k. set (rt_failureIds (task k)) = fr_failureId ` set (bucket p fs k)"
  shows "length (filter (\<lambda>t. fr_failureId f \<in> set (rt_failureIds t))
    (map task (localeSort (first_occurrences (map (bucket_key p) (filter fr_unresolved fs)))))) = 1"
proof -
  let ?ks = "first_occurrences (map (bucket_key p) (filter fr_unresolved fs))"
  have ks: "distinct (localeSort ?ks)" "set (localeSort ?ks) = set ?ks"
    using assms(1) [of ?ks] distinct_first_occurrences mset_eq_imp_distinct_iff mset_eq_setD by metis+
  have "length (filter (\<lambda>t. fr_failureId f \<in> set (rt_failureIds t)) (map task (localeSort ?ks))) =
      length (filter (\<lambda>k. bucket_key p f = k) (localeSort ?ks))"
    by (simp add: filter_map comp_def assms(5) bucket_ids [OF assms(2-4)])
  also have "\<dots> = card ({bucket_key p f} \<inter> set ?ks)" using ks distinct_length_filter [of "localeSort ?ks" "\<lambda>k. bucket_key p f = k"] by simp
  also have "{bucket_key p f} \<inter> set ?ks = {bucket_key p f}" using assms(3,4) by auto
  finally show ?thesis by simp
qed

text \<open>C26: A planned repair wave stays within the budgets of the group for waves and for automatic repairs. Every open failure is
  in a task that names its owners, and in no other task when the open failures have distinct ids; the task is automatic exactly
  when the failure has owners, has been tried less often than the policy allows and is not an unknown outcome, and otherwise
  waits for a human. A task names nothing but open failures, all with the same answer.\<close>

theorem repair_within_budget:
  assumes "\<And>ks. mset (localeSort ks) = mset ks" "planRepairWave localeSort sha g n fs p = Inr ts"
  shows "1 \<le> n \<and> n \<le> gp_maxRepairWaves p \<and> int (length (filter (\<lambda>t. rt_status t = RepairPlanned) ts)) \<le> gp_maxRepairSessions p \<and>
    (\<forall>f \<in> set fs. fr_unresolved f \<longrightarrow> (\<exists>t \<in> set ts. fr_failureId f \<in> set (rt_failureIds t) \<and>
       set (fr_ownerSessionIds f) \<subseteq> set (rt_ownerSessionIds t) \<and>
       (rt_status t = RepairPlanned \<longleftrightarrow> \<not> over_budget p f \<and> fr_ownerSessionIds f \<noteq> []))) \<and>
    (distinct (map fr_failureId (filter fr_unresolved fs)) \<longrightarrow>
       (\<forall>f \<in> set fs. fr_unresolved f \<longrightarrow> length (filter (\<lambda>t. fr_failureId f \<in> set (rt_failureIds t)) ts) = 1)) \<and>
    (\<forall>t \<in> set ts. \<forall>i \<in> set (rt_failureIds t). \<exists>f \<in> set fs. fr_unresolved f \<and> fr_failureId f = i \<and>
       (rt_status t = RepairPlanned \<longleftrightarrow> \<not> over_budget p f \<and> fr_ownerSessionIds f \<noteq> []))"
proof -
  from assms(2) obtain bounds: "1 \<le> n" "n \<le> gp_maxRepairWaves p" "int (length (filter (\<lambda>t. rt_status t = RepairPlanned) ts)) \<le> gp_maxRepairSessions p"
    and ts: "ts = map (\<lambda>k. repair_task_of sha g n (k, bucket p fs k)) (localeSort (first_occurrences (map (bucket_key p) (filter fr_unresolved fs))))"
    by (rule planRepairWave_Inr)
  have keys: "set (localeSort ks) = set ks" for ks using assms(1) by (metis set_mset_mset)
  have task: "set (rt_failureIds (repair_task_of sha g n (k, bucket p fs k))) = fr_failureId ` set (bucket p fs k)"
    "set (rt_ownerSessionIds (repair_task_of sha g n (k, bucket p fs k))) = (\<Union>f \<in> set (bucket p fs k). set (fr_ownerSessionIds f))"
    "rt_status (repair_task_of sha g n (k, bucket p fs k)) = RepairPlanned \<longleftrightarrow> \<not> waiting_key k" for k
    by (simp_all add: repair_task_of_def Let_def)
  have "\<exists>t \<in> set ts. fr_failureId f \<in> set (rt_failureIds t) \<and> set (fr_ownerSessionIds f) \<subseteq> set (rt_ownerSessionIds t) \<and>
      (rt_status t = RepairPlanned \<longleftrightarrow> \<not> over_budget p f \<and> fr_ownerSessionIds f \<noteq> [])" if "f \<in> set fs" "fr_unresolved f" for f
  proof -
    have "repair_task_of sha g n (bucket_key p f, bucket p fs (bucket_key p f)) \<in> set ts" using that by (auto simp: ts keys)
    moreover have "f \<in> set (bucket p fs (bucket_key p f))" using that by (simp add: bucket_def)
    ultimately show ?thesis using task waiting_bucket [of p f] by (intro bexI) auto
  qed
  moreover have "length (filter (\<lambda>t. fr_failureId f \<in> set (rt_failureIds t)) ts) = 1"
    if "distinct (map fr_failureId (filter fr_unresolved fs))" "f \<in> set fs" "fr_unresolved f" for f
    unfolding ts using assms(1) that task(1) by (rule one_task)
  moreover have "\<exists>f \<in> set fs. fr_unresolved f \<and> fr_failureId f = i \<and> (rt_status t = RepairPlanned \<longleftrightarrow> \<not> over_budget p f \<and> fr_ownerSessionIds f \<noteq> [])"
    if t: "t \<in> set ts" "i \<in> set (rt_failureIds t)" for t i
  proof -
    from t(1) obtain k where k: "t = repair_task_of sha g n (k, bucket p fs k)" unfolding ts by auto
    with t(2) task(1) obtain f where "f \<in> set (bucket p fs k)" "fr_failureId f = i" by auto
    with task(3) [of k] waiting_bucket [of p f] show ?thesis unfolding k by (auto simp: bucket_def)
  qed
  ultimately show ?thesis using bounds by blast
qed

definition demo_failure_record :: "string \<Rightarrow> string list \<Rightarrow> int \<Rightarrow> failure_record" where
  "demo_failure_record i owners n = \<lparr>fr_failureId = i, fr_groupId = ''g'', fr_verificationRunId = None, fr_sessionId = None, fr_kind = KImplementation, fr_message = ''m'',
     fr_evidence = [], fr_ownerSessionIds = owners, fr_attempts = n, fr_unresolved = True, fr_undefined = []\<rparr>"

definition demo_repairs :: "repair_task list res" where
  "demo_repairs = planRepairWave sort (\<lambda>s. s) ''g'' 1 [demo_failure_record ''f1'' [''s1''] 0, demo_failure_record ''f2'' [''s1''] 5] demo_group_policy"

lemma demo_repairs_planned: "case demo_repairs of Inl e \<Rightarrow> False | Inr ts \<Rightarrow> length ts = 2"
  by code_simp

lemma repair_within_budget_witness:
  "\<exists>ts. demo_repairs = Inr ts \<and> (\<exists>t \<in> set ts. ''f1'' \<in> set (rt_failureIds t) \<and> rt_status t = RepairPlanned) \<and>
     (\<exists>t \<in> set ts. ''f2'' \<in> set (rt_failureIds t) \<and> rt_status t = RepairWaitingHuman)"
proof -
  obtain ts where ts: "demo_repairs = Inr ts" using demo_repairs_planned by (auto split: sum.splits)
  let ?f = "demo_failure_record ''f1'' [''s1''] 0" and ?f2 = "demo_failure_record ''f2'' [''s1''] 5"
  have task: "\<exists>t \<in> set ts. fr_failureId f \<in> set (rt_failureIds t) \<and>
       (rt_status t = RepairPlanned \<longleftrightarrow> \<not> over_budget demo_group_policy f \<and> fr_ownerSessionIds f \<noteq> [])" if "f \<in> set [?f, ?f2]" for f
  proof -
    have "fr_unresolved f" using that by (auto simp: demo_failure_record_def)
    with repair_within_budget [OF _ ts [unfolded demo_repairs_def]] that show ?thesis by fastforce
  qed
  have "\<not> over_budget demo_group_policy ?f" "over_budget demo_group_policy ?f2" "fr_failureId ?f = ''f1''" "fr_failureId ?f2 = ''f2''"
    "fr_ownerSessionIds ?f \<noteq> []"
    by (simp_all add: demo_failure_record_def over_budget_def demo_group_policy_def)
  then have "\<exists>t \<in> set ts. ''f1'' \<in> set (rt_failureIds t) \<and> rt_status t = RepairPlanned"
    "\<exists>t \<in> set ts. ''f2'' \<in> set (rt_failureIds t) \<and> rt_status t \<noteq> RepairPlanned"
    using task [OF list.set_intros(1)] task [OF list.set_intros(2) [OF list.set_intros(1)]] by simp_all
  moreover have "rt_status t = RepairWaitingHuman \<longleftrightarrow> rt_status t \<noteq> RepairPlanned" if "t \<in> set ts" for t
    using planned_statuses [OF ts [unfolded demo_repairs_def] that] by auto
  ultimately show ?thesis using ts by blast
qed

end
