(* ===== verification/GroupPlanning.thy ===== *)
theory GroupPlanning
  imports GroupWorkspace
begin

text \<open>
  \<open>group-runtime/planning\<close>: from what a controller proposes to the definition of a development group. Requirements are
  normalized (\<open>requirement-normalizer.ts\<close>), divided among sessions (\<open>session-partitioner.ts\<close>), ordered in waves
  (\<open>wave-planner.ts\<close>), given paths (\<open>ownership-planner.ts\<close>) and put together (\<open>planner.ts\<close>).

  The hash of the request and the order of \<open>localeCompare\<close> are parameters.
\<close>

section \<open>Requests and proposals\<close>

record planning_request =
  pq_repository :: string
  pq_masterGoal :: string
  pq_masterPrompt :: string
  pq_developmentPlan :: string
  pq_baselineSha :: string
  pq_integrationRef :: string
  pq_policy :: group_policy

record requirement_proposal =
  rp_id :: "string option"
  rp_title :: string
  rp_description :: string
  rp_mandatory :: "bool option"
  rp_acceptanceCriteria :: "string list"
  rp_sourceAnchor :: string
  rp_proposedOwner :: "string option"
  rp_dependencies :: "string list"
  rp_pathHints :: "string list"
  rp_tags :: "string list"

text \<open>Absent lists of a session are told from empty ones only for its dependencies, of a wave for both of the others.\<close>

record session_proposal =
  sq_id :: "string option"
  sq_objective :: string
  sq_requirementIds :: "string list"
  sq_dependencies :: "string list option"
  sq_ownedPaths :: "string list"
  sq_readOnlyPaths :: "string list"
  sq_forbiddenPaths :: "string list"

record wave_proposal =
  wq_id :: "string option"
  wq_sessionIds :: "string list"
  wq_requiredSessionIds :: "string list option"
  wq_dependsOnWaveIds :: "string list option"

record controller_proposal =
  kp_requirements :: "requirement_proposal list"
  kp_sessions :: "session_proposal list"
  kp_waves :: "wave_proposal list"
  kp_redZonePaths :: "string list"
  kp_notes :: "string list"

datatype planning_source = FromController | DeterministicFallback

record planning_proposal =
  pp_definition :: group_definition
  pp_requirements :: "requirement list"
  pp_sessions :: "session_definition list"
  pp_waves :: "wave list"
  pp_redZonePaths :: "string list"
  pp_notes :: "string list"
  pp_source :: planning_source

record module_hint =
  mh_requirementId :: string
  mh_pathHints :: "string list"
  mh_tags :: "string list"

section \<open>Requirements\<close>

definition cleanText :: "string \<Rightarrow> string \<Rightarrow> string res" where
  "cleanText v field = (if trim v = [] then Inl (Error (field @ '' must be non-empty'')) else Inr (trim v))"

definition trimmed_unique :: "string list \<Rightarrow> string list" where
  "trimmed_unique vs = first_occurrences (filter (\<lambda>v. v \<noteq> []) (map trim vs))"

definition padded :: "nat \<Rightarrow> nat \<Rightarrow> string" where
  "padded w n = (let t = nat_text n in replicate (w - length t) CHR ''0'' @ t)"

definition requirementId :: "nat \<Rightarrow> string" where
  "requirementId index = ''REQ-'' @ padded 3 (Suc index)"

definition given_id :: "requirement_proposal \<Rightarrow> string option" where
  "given_id p = (case rp_id p of None \<Rightarrow> None | Some i \<Rightarrow> if i = [] then None else Some i)"

fun explicit_ids :: "string list \<Rightarrow> requirement_proposal list \<Rightarrow> unit res" where
  "explicit_ids seen [] = Inr ()"
| "explicit_ids seen (p # ps) = (case given_id p of None \<Rightarrow> explicit_ids seen ps
     | Some i \<Rightarrow> (case cleanText i ''requirement id'' of Inl e \<Rightarrow> Inl e
         | Inr k \<Rightarrow> if k \<in> set seen then Inl (Error (''duplicate requirement id: '' @ k)) else explicit_ids (k # seen) ps))"

definition normalized_requirement :: "string \<Rightarrow> nat \<Rightarrow> requirement_proposal \<Rightarrow> requirement res" where
  "normalized_requirement g index p =
     (case (case given_id p of None \<Rightarrow> Inr (requirementId index) | Some i \<Rightarrow> cleanText i ''requirement id'') of Inl e \<Rightarrow> Inl e
      | Inr k \<Rightarrow>
     let accepted = trimmed_unique (rp_acceptanceCriteria p) in
     if accepted = [] then Inl (Error (''requirement '' @ k @ '' needs acceptance criteria''))
     else (case cleanText (rp_title p) (''requirement '' @ k @ '' title'') of Inl e \<Rightarrow> Inl e
      | Inr title \<Rightarrow> (case cleanText (rp_description p) (''requirement '' @ k @ '' description'') of Inl e \<Rightarrow> Inl e
      | Inr description \<Rightarrow> (case cleanText (rp_sourceAnchor p) (''requirement '' @ k @ '' sourceAnchor'') of Inl e \<Rightarrow> Inl e
      | Inr anchor \<Rightarrow> Inr \<lparr>rq_groupId = g, rq_requirementId = k, rq_title = title, rq_description = description,
          rq_mandatory = (rp_mandatory p \<noteq> Some False), rq_acceptanceCriteria = accepted, rq_sourceAnchor = anchor,
          rq_proposedOwner = trim_opt (rp_proposedOwner p), rq_dependencies = trimmed_unique (rp_dependencies p),
          rq_undefined = undefined_keys [(''proposedOwner'', trim_opt (rp_proposedOwner p))]\<rparr>))))"

fun map_res :: "('a \<Rightarrow> 'b res) \<Rightarrow> 'a list \<Rightarrow> 'b list res" where
  "map_res f [] = Inr []"
| "map_res f (x # xs) = (case f x of Inl e \<Rightarrow> Inl e | Inr y \<Rightarrow> (case map_res f xs of Inl e \<Rightarrow> Inl e | Inr ys \<Rightarrow> Inr (y # ys)))"

definition dependency_check :: "string list \<Rightarrow> requirement \<Rightarrow> unit res" where
  "dependency_check ids r = (case List.find (\<lambda>d. d \<notin> set ids \<or> d = rq_requirementId r) (rq_dependencies r) of
     None \<Rightarrow> Inr ()
   | Some d \<Rightarrow> if d \<notin> set ids then Inl (Error (''requirement '' @ rq_requirementId r @ '' has unknown dependency '' @ d))
       else Inl (Error (''requirement '' @ rq_requirementId r @ '' cannot depend on itself'')))"

definition normalizeRequirementProposals :: "string \<Rightarrow> requirement_proposal list \<Rightarrow> (requirement list \<times> module_hint list) res" where
  "normalizeRequirementProposals g ps =
     (if trim g = [] then Inl (Error ''groupId must be non-empty'')
      else case explicit_ids [] ps of Inl e \<Rightarrow> Inl e
      | Inr _ \<Rightarrow> (case map_res (\<lambda>(i, p). normalized_requirement g i p) (List.enumerate 0 ps) of Inl e \<Rightarrow> Inl e
      | Inr rs \<Rightarrow> (case map_res (dependency_check (map rq_requirementId rs)) rs of Inl e \<Rightarrow> Inl e
      | Inr _ \<Rightarrow> Inr (rs, map (\<lambda>(r, p). \<lparr>mh_requirementId = rq_requirementId r, mh_pathHints = trimmed_unique (rp_pathHints p),
          mh_tags = trimmed_unique (rp_tags p)\<rparr>) (zip rs ps)))))"

section \<open>Sessions\<close>

record partition =
  pa_key :: string
  pa_requirementIds :: "string list"
  pa_pathHints :: "string list"
  pa_tags :: "string list"

definition ceil_div :: "int \<Rightarrow> int \<Rightarrow> int" where
  "ceil_div a b = - ((- a) div b)"

definition set_overlap :: "string list \<Rightarrow> string list \<Rightarrow> int" where
  "set_overlap a b = int (length (filter (\<lambda>v. v \<in> set a) b))"

definition plan_slashes :: "string \<Rightarrow> string" where
  "plan_slashes p = drop_dot (forward_slashes p)"

definition modulePrefix :: "string \<Rightarrow> string" where
  "modulePrefix path = (let n = plan_slashes path; parts = filter (\<lambda>p. p \<noteq> []) (split_on CHR ''/'' n) in
     if length parts \<le> 1 then n else js_join ''/'' (take (min (length parts) 3) parts))"

definition partition_full :: "int \<Rightarrow> partition \<Rightarrow> bool" where
  "partition_full hard p \<longleftrightarrow> int (length (pa_requirementIds p)) \<ge> hard"

definition partition_score :: "(string \<Rightarrow> nat option) \<Rightarrow> string list \<Rightarrow> string list \<Rightarrow> string list \<Rightarrow> nat \<Rightarrow> partition \<Rightarrow> int" where
  "partition_score owner paths tags deps i p = set_overlap (pa_pathHints p) paths * 8 + set_overlap (pa_tags p) tags * 4 +
     5 * int (length (filter (\<lambda>d. owner d = Some i) deps)) - int (length (pa_requirementIds p))"

text \<open>The partition chosen so far and its score; none yet is minus infinity.\<close>

definition prefer_partition :: "partition list \<Rightarrow> int \<Rightarrow> (nat \<Rightarrow> partition \<Rightarrow> int) \<Rightarrow> nat \<Rightarrow> nat \<times> int option \<Rightarrow> nat \<times> int option" where
  "prefer_partition ps hard score i best = (let p = ps ! i; s = score i p in
     if partition_full hard p \<and> list_ex (\<lambda>q. \<not> partition_full hard q) ps then best
     else case snd best of None \<Rightarrow> (i, Some s)
       | Some b \<Rightarrow> if s > b \<or> (s = b \<and> pa_key p < pa_key (ps ! fst best)) then (i, Some s) else best)"

definition select_partition :: "partition list \<Rightarrow> int \<Rightarrow> (nat \<Rightarrow> partition \<Rightarrow> int) \<Rightarrow> nat" where
  "select_partition ps hard score = fst (fold (prefer_partition ps hard score) [0..<length ps] (0, None))"

definition extend_unique :: "string list \<Rightarrow> string list \<Rightarrow> string list" where
  "extend_unique xs ys = first_occurrences (xs @ ys)"

definition place_requirement :: "module_hint list \<Rightarrow> int \<Rightarrow> requirement \<Rightarrow> partition list \<times> (string \<Rightarrow> nat option) \<Rightarrow>
    partition list \<times> (string \<Rightarrow> nat option)" where
  "place_requirement hints hard r st = (case st of (ps, owner) \<Rightarrow>
     let hint = by_key mh_requirementId hints (rq_requirementId r);
         paths = first_occurrences (filter (\<lambda>p. p \<noteq> []) (map modulePrefix (case hint of None \<Rightarrow> [] | Some h \<Rightarrow> mh_pathHints h)));
         tags = trimmed_unique (case hint of None \<Rightarrow> [] | Some h \<Rightarrow> mh_tags h);
         i = select_partition ps hard (partition_score owner paths tags (rq_dependencies r)); p = ps ! i in
     (ps[i := p\<lparr>pa_requirementIds := pa_requirementIds p @ [rq_requirementId r], pa_pathHints := extend_unique (pa_pathHints p) paths,
        pa_tags := extend_unique (pa_tags p) tags\<rparr>], owner(rq_requirementId r \<mapsto> i)))"

definition empty_partitions :: "nat \<Rightarrow> partition list" where
  "empty_partitions n = map (\<lambda>i. \<lparr>pa_key = ''S'' @ padded 2 (Suc i), pa_requirementIds = [], pa_pathHints = [], pa_tags = []\<rparr>) [0..<n]"

definition desired_count :: "int \<Rightarrow> int \<Rightarrow> int \<Rightarrow> int" where
  "desired_count n most size' = min most (max 1 (ceil_div n size'))"

definition hard_capacity :: "int \<Rightarrow> int \<Rightarrow> int \<Rightarrow> int" where
  "hard_capacity n most size' = max size' (ceil_div n (desired_count n most size'))"

definition partitionRequirements :: "(requirement list \<Rightarrow> requirement list) \<Rightarrow> requirement list \<Rightarrow> module_hint list \<Rightarrow> int \<Rightarrow> int \<Rightarrow>
    partition list res" where
  "partitionRequirements localeSort rs hints most size' =
     (if \<not> safe_integer most \<or> most < 1 then Inl (Error ''maxSessions must be a positive safe integer'')
      else if \<not> safe_integer size' \<or> size' < 1 then Inl (Error ''targetRequirementsPerSession must be a positive safe integer'')
      else if rs = [] then Inr []
      else let n = int (length rs); hard = hard_capacity n most size';
               placed = fst (fold (place_requirement hints hard) (localeSort rs) (empty_partitions (nat (desired_count n most size')), \<lambda>_. None));
               result = map (\<lambda>p. p\<lparr>pa_pathHints := sort (pa_pathHints p), pa_tags := sort (pa_tags p)\<rparr>)
                 (filter (\<lambda>p. pa_requirementIds p \<noteq> []) placed) in
        if card (set (concat (map pa_requirementIds result))) \<noteq> card (set (map rq_requirementId rs))
        then Inl (Error ''session partition lost or duplicated requirements'') else Inr result)"

section \<open>Waves\<close>

record dependency_plan =
  sd_sessionId :: string
  sd_dependsOn :: "string list"

text \<open>The last partition that lists a requirement owns it; an owner with an empty key counts as none.\<close>

definition requirement_owner :: "partition list \<Rightarrow> string \<Rightarrow> string option" where
  "requirement_owner ps k = (case List.find (\<lambda>p. k \<in> set (pa_requirementIds p)) (rev ps) of
     None \<Rightarrow> None | Some p \<Rightarrow> if pa_key p = [] then None else Some (pa_key p))"

definition requirement_edges :: "partition list \<Rightarrow> requirement \<Rightarrow> (string \<times> string) list res" where
  "requirement_edges ps r = (case requirement_owner ps (rq_requirementId r) of
     None \<Rightarrow> Inl (Error (''requirement '' @ rq_requirementId r @ '' has no partition''))
   | Some s \<Rightarrow> map_res (\<lambda>d. case requirement_owner ps d of
         None \<Rightarrow> Inl (Error (''requirement dependency '' @ d @ '' has no partition''))
       | Some t \<Rightarrow> Inr (s, t)) (rq_dependencies r))"

definition deriveSessionDependencies :: "requirement list \<Rightarrow> partition list \<Rightarrow> dependency_plan list res" where
  "deriveSessionDependencies rs ps = (case map_res (requirement_edges ps) rs of Inl e \<Rightarrow> Inl e
     | Inr es \<Rightarrow> Inr (map (\<lambda>p. \<lparr>sd_sessionId = pa_key p,
         sd_dependsOn = sorted_unique (map snd (filter (\<lambda>(s, t). s = pa_key p \<and> t \<noteq> s) (concat es)))\<rparr>) ps))"

definition planned_deps :: "dependency_plan list \<Rightarrow> string \<Rightarrow> string list" where
  "planned_deps ds k = (case by_key sd_sessionId ds k of None \<Rightarrow> [] | Some d \<Rightarrow> sd_dependsOn d)"

definition wave_name :: "nat \<Rightarrow> string" where
  "wave_name n = ''W'' @ padded 2 n"

text \<open>The wave with the number \<open>n\<close>; the last one planned before it has the number \<open>n - 1\<close>.\<close>

definition planned_wave :: "string \<Rightarrow> nat \<Rightarrow> string list \<Rightarrow> wave" where
  "planned_wave g n ready = \<lparr>wa_groupId = g, wa_waveId = wave_name n, wa_ordinal = int n, wa_sessionIds = ready,
     wa_requiredSessionIds = ready, wa_dependsOnWaveIds = (if n \<le> 1 then [] else [wave_name (n - 1)])\<rparr>"

definition wave_ready :: "(string \<Rightarrow> string list) \<Rightarrow> string list \<Rightarrow> string list \<Rightarrow> string list" where
  "wave_ready deps completed remaining = sort (filter (\<lambda>s. \<forall>d \<in> set (deps s). d \<in> set completed) remaining)"

function wave_loop :: "string \<Rightarrow> (string \<Rightarrow> string list) \<Rightarrow> nat \<Rightarrow> string list \<Rightarrow> string list \<Rightarrow> wave list res" where
  "wave_loop g deps n completed remaining =
     (if remaining = [] then Inr []
      else let ready = wave_ready deps completed remaining in
        if ready = [] then Inl (Error ''session dependency graph contains a cycle'')
        else case wave_loop g deps (Suc n) (completed @ ready) (filter (\<lambda>s. s \<notin> set ready) remaining) of
          Inl e \<Rightarrow> Inl e | Inr ws \<Rightarrow> Inr (planned_wave g n ready # ws))"
  by pat_completeness auto
termination
proof (relation "measure (\<lambda>(_, _, _, _, remaining). length remaining)", goal_cases)
  case (2 g deps n completed remaining ready)
  have "set ready \<subseteq> set remaining" using 2(2) by (auto simp: wave_ready_def)
  with 2(3) obtain s where "s \<in> set remaining" "s \<in> set ready" by (cases ready) auto
  then show ?case by (auto intro: length_filter_less)
qed simp

declare wave_loop.simps [simp del]

definition planWaves :: "string \<Rightarrow> partition list \<Rightarrow> dependency_plan list \<Rightarrow> wave list res" where
  "planWaves g ps ds = wave_loop g (planned_deps ds) 1 [] (first_occurrences (map pa_key ps))"

section \<open>Ownership of paths\<close>

record ownership_plan =
  op_sessionId :: string
  op_ownedPaths :: "string list"
  op_readOnlyPaths :: "string list"
  op_forbiddenPaths :: "string list"

definition plan_path :: "string \<Rightarrow> string" where
  "plan_path path = rev (dropWhile (\<lambda>c. c = CHR ''/'') (rev (plan_slashes path)))"

definition matchesProtected :: "string \<Rightarrow> string \<Rightarrow> bool" where
  "matchesProtected path protected = (let c = plan_path path; p = plan_path protected in
     c = p \<or> prefix (p @ ''/'') c \<or> prefix (c @ ''/'') p)"

definition some_paths :: "string list \<Rightarrow> string list" where
  "some_paths ps = first_occurrences (filter (\<lambda>p. p \<noteq> []) (map plan_path ps))"

definition hinted_paths :: "module_hint list \<Rightarrow> string \<Rightarrow> string list" where
  "hinted_paths hints k = (case by_key mh_requirementId hints k of None \<Rightarrow> [] | Some h \<Rightarrow> mh_pathHints h)"

definition candidate_paths :: "module_hint list \<Rightarrow> partition \<Rightarrow> string list" where
  "candidate_paths hints p = some_paths (concat (map (hinted_paths hints) (pa_requirementIds p)))"

definition claiming_sessions :: "module_hint list \<Rightarrow> partition list \<Rightarrow> string \<Rightarrow> string set" where
  "claiming_sessions hints ps path = set (map pa_key (filter (\<lambda>p. path \<in> set (candidate_paths hints p)) ps))"

definition shared_paths :: "module_hint list \<Rightarrow> partition list \<Rightarrow> string list" where
  "shared_paths hints ps = sort (filter (\<lambda>path. card (claiming_sessions hints ps path) > 1)
     (first_occurrences (concat (map (candidate_paths hints) ps))))"

definition partition_ownership :: "module_hint list \<Rightarrow> string list \<Rightarrow> string list \<Rightarrow> partition \<Rightarrow> ownership_plan" where
  "partition_ownership hints guarded shared p =
     (let candidates = candidate_paths hints p;
          forbidden = sorted_unique (filter (\<lambda>path. list_ex (\<lambda>c. matchesProtected c path) candidates) guarded);
          free = (\<lambda>path. \<not> list_ex (\<lambda>f. matchesProtected path f) forbidden) in
      \<lparr>op_sessionId = pa_key p, op_ownedPaths = sort (filter (\<lambda>path. path \<notin> set shared \<and> free path) candidates),
       op_readOnlyPaths = sort (filter (\<lambda>path. path \<in> set shared \<and> free path) candidates), op_forbiddenPaths = forbidden\<rparr>)"

definition planOwnership :: "partition list \<Rightarrow> module_hint list \<Rightarrow> string list \<Rightarrow> string list \<Rightarrow> ownership_plan list \<times> string list" where
  "planOwnership ps hints protectedPaths redZonePaths =
     (let shared = shared_paths hints ps in
      (map (partition_ownership hints (some_paths (protectedPaths @ redZonePaths)) shared) ps, shared))"

section \<open>The compiler\<close>

definition normalizedSessionId :: "nat \<Rightarrow> string option \<Rightarrow> string" where
  "normalizedSessionId index explicit = (case trim_opt explicit of Some v \<Rightarrow> v | None \<Rightarrow> ''S'' @ padded 2 (Suc index))"

definition hinted_tags :: "module_hint list \<Rightarrow> string \<Rightarrow> string list" where
  "hinted_tags hints k = (case by_key mh_requirementId hints k of None \<Rightarrow> [] | Some h \<Rightarrow> mh_tags h)"

definition controller_partition :: "module_hint list \<Rightarrow> nat \<times> session_proposal \<Rightarrow> partition res" where
  "controller_partition hints e = (case e of (index, s) \<Rightarrow>
     let key = normalizedSessionId index (sq_id s); ids = trimmed_unique (sq_requirementIds s) in
     if trim (sq_objective s) = [] \<or> ids = [] then Inl (Error (''controller session '' @ key @ '' is missing objective or requirements''))
     else Inr \<lparr>pa_key = key, pa_requirementIds = ids, pa_pathHints = sorted_unique (concat (map (hinted_paths hints) ids)),
       pa_tags = sorted_unique (concat (map (hinted_tags hints) ids))\<rparr>)"

definition normalizeControllerPartitions :: "session_proposal list \<Rightarrow> module_hint list \<Rightarrow> partition list res" where
  "normalizeControllerPartitions ss hints = map_res (controller_partition hints) (List.enumerate 0 ss)"

definition normalizeControllerDependencies :: "partition list \<Rightarrow> session_proposal list \<Rightarrow> dependency_plan list \<Rightarrow> dependency_plan list" where
  "normalizeControllerDependencies ps ss derived = map (\<lambda>(p, s). \<lparr>sd_sessionId = pa_key p,
     sd_dependsOn = (case sq_dependencies s of Some ds \<Rightarrow> sort (trimmed_unique ds) | None \<Rightarrow> planned_deps derived (pa_key p))\<rparr>) (zip ps ss)"

definition controller_wave :: "string \<Rightarrow> nat \<times> wave_proposal \<Rightarrow> wave" where
  "controller_wave g e = (case e of (index, w) \<Rightarrow> let ids = trimmed_unique (wq_sessionIds w) in
     \<lparr>wa_groupId = g, wa_waveId = (case trim_opt (wq_id w) of Some v \<Rightarrow> v | None \<Rightarrow> wave_name (Suc index)), wa_ordinal = int (Suc index),
      wa_sessionIds = ids, wa_requiredSessionIds = trimmed_unique (case wq_requiredSessionIds w of Some v \<Rightarrow> v | None \<Rightarrow> ids),
      wa_dependsOnWaveIds = trimmed_unique (case wq_dependsOnWaveIds w of Some v \<Rightarrow> v | None \<Rightarrow> if index = 0 then [] else [wave_name index])\<rparr>)"

definition normalizeControllerWaves :: "string \<Rightarrow> wave_proposal list \<Rightarrow> wave list" where
  "normalizeControllerWaves g ws = map (controller_wave g) (List.enumerate 0 ws)"

definition issues_text :: "issue list \<Rightarrow> string" where
  "issues_text is = ''planning proposal failed C1 validation: '' @ js_join '', '' (map (\<lambda>i. is_code i @ ''@'' @ is_path i) is)"

definition compileWaves :: "string \<Rightarrow> partition list \<Rightarrow> dependency_plan list \<Rightarrow> wave_proposal list \<Rightarrow> wave list res" where
  "compileWaves g ps ds proposals =
     (if proposals \<noteq> [] then Inr (normalizeControllerWaves g proposals)
      else case planWaves g ps ds of Inr ws \<Rightarrow> Inr ws
        | Inl e \<Rightarrow> if e = Error ''session dependency graph contains a cycle''
            then Inl (PlanningValidationError (issues_text [mk_issue ''session_cycle'' ''sessions'' ''session dependency graph contains a cycle'']))
            else Inl e)"

text \<open>The wave a session ends up in: the last one that lists it.\<close>

definition wave_of :: "wave list \<Rightarrow> string \<Rightarrow> string option" where
  "wave_of ws k = (case List.find (\<lambda>w. k \<in> set (wa_sessionIds w)) (rev ws) of
     None \<Rightarrow> None | Some w \<Rightarrow> if wa_waveId w = [] then None else Some (wa_waveId w))"

record planning_platform =
  pt_hash :: "planning_request \<Rightarrow> controller_proposal \<Rightarrow> string"
  pt_localeSort :: "requirement list \<Rightarrow> requirement list"
  pt_now :: string

definition explicit_paths :: "session_proposal option \<Rightarrow> (session_proposal \<Rightarrow> string list) \<Rightarrow> string list \<Rightarrow> string list" where
  "explicit_paths s f planned = (case s of None \<Rightarrow> planned | Some x \<Rightarrow> if f x = [] then planned else trimmed_unique (f x))"

definition compiled_session :: "planning_request \<Rightarrow> string \<Rightarrow> requirement list \<Rightarrow> wave list \<Rightarrow> dependency_plan list \<Rightarrow> ownership_plan list \<Rightarrow>
    (nat \<times> session_proposal) list \<Rightarrow> partition \<Rightarrow> session_definition res" where
  "compiled_session q g rs ws ds ownership proposals p =
     (let key = pa_key p;
          explicit = map_option snd (by_key (\<lambda>(i, s). normalizedSessionId i (sq_id s)) proposals key);
          own = by_key op_sessionId ownership key;
          mine = filter (\<lambda>r. rq_requirementId r \<in> set (pa_requirementIds p)) rs;
          planned = (\<lambda>f. case own of None \<Rightarrow> [] | Some x \<Rightarrow> f x);
          titles = ''Implement '' @ js_join ''; '' (map rq_title mine) in
      case wave_of ws key of
        None \<Rightarrow> Inl (Error (''session '' @ key @ '' is not assigned to a wave''))
      | Some w \<Rightarrow> Inr \<lparr>se_contract = ZERO3_DEVELOPMENT_SESSION_CONTRACT, se_groupId = g, se_sessionId = key,
          se_executionId = g @ '':'' @ key @ '':attempt-1'', se_waveId = w,
          se_objective = (case explicit of None \<Rightarrow> titles | Some s \<Rightarrow> if trim (sq_objective s) = [] then titles else trim (sq_objective s)),
          se_baselineSha = pq_baselineSha q, se_integrationRef = pq_integrationRef q,
          se_branch = ''dg/'' @ map lower_char g @ ''/'' @ map lower_char key, se_worktree = ''.zero3/worktrees/'' @ g @ ''/'' @ key,
          se_ownedPaths = explicit_paths explicit sq_ownedPaths (planned op_ownedPaths),
          se_readOnlyPaths = explicit_paths explicit sq_readOnlyPaths (planned op_readOnlyPaths),
          se_forbiddenPaths = trimmed_unique ((case explicit of None \<Rightarrow> [] | Some s \<Rightarrow> sq_forbiddenPaths s) @ planned op_forbiddenPaths @
            gp_protectedPaths (pq_policy q)),
          se_dependencies = planned_deps ds key, se_requirements = pa_requirementIds p, se_inputs = [],
          se_acceptanceCriteria = first_occurrences (concat (map rq_acceptanceCriteria mine)),
          se_executorPolicy = \<lparr>ep_executorId = ''native-codex'', ep_permissionProfile = gp_permissionProfile (pq_policy q), ep_approvalRequired = True\<rparr>,
          se_subagentPolicy = \<lparr>sp_allowed = True, sp_maxConcurrency = min 4 (gp_maxSessionSubagents (pq_policy q)), sp_recursiveGroupCreation = False\<rparr>,
          se_deliveryPolicy = \<lparr>dp_requireCleanHead = True, dp_requireOwnershipValidation = True, dp_requireHandoff = True,
            dp_requireDeliveryHash = True\<rparr>\<rparr>)"

definition compiled_group :: "planning_request \<Rightarrow> string \<Rightarrow> string \<Rightarrow> string \<Rightarrow> requirement list \<Rightarrow> session_definition list \<Rightarrow> wave list \<Rightarrow>
    group_definition" where
  "compiled_group q g hash createdAt rs ss ws = \<lparr>gd_contract = ZERO3_DEVELOPMENT_GROUP_CONTRACT, gd_groupId = g,
     gd_repository = trim (pq_repository q), gd_masterGoal = trim (pq_masterGoal q), gd_masterPrompt = trim (pq_masterPrompt q),
     gd_developmentPlan = trim (pq_developmentPlan q), gd_planHash = hash, gd_baselineSha = pq_baselineSha q,
     gd_integrationRef = pq_integrationRef q, gd_requirementIds = map rq_requirementId rs, gd_waveIds = map wa_waveId ws,
     gd_sessionIds = map se_sessionId ss, gd_policy = pq_policy q, gd_createdAt = createdAt\<rparr>"

definition plan_partitions :: "planning_platform \<Rightarrow> planning_request \<Rightarrow> controller_proposal \<Rightarrow> requirement list \<Rightarrow> module_hint list \<Rightarrow> partition list res" where
  "plan_partitions pt q c rs hints = (if kp_sessions c \<noteq> [] then normalizeControllerPartitions (kp_sessions c) hints
     else partitionRequirements (pt_localeSort pt) rs hints (gp_maxParallelSessions (pq_policy q) + 2) 4)"

definition plan_group_id :: "string option \<Rightarrow> string \<Rightarrow> string" where
  "plan_group_id given hash = (case trim_opt given of Some v \<Rightarrow> v | None \<Rightarrow> ''G-'' @ take 12 hash)"

definition compilePlanningProposal :: "planning_platform \<Rightarrow> planning_request \<Rightarrow> controller_proposal \<Rightarrow> string option \<Rightarrow> string option \<Rightarrow>
    planning_proposal res" where
  "compilePlanningProposal pt q c groupId createdAt =
     (let hash = pt_hash pt q c; g = plan_group_id groupId hash in
      case normalizeRequirementProposals g (kp_requirements c) of Inl e \<Rightarrow> Inl e | Inr (rs, hints) \<Rightarrow>
     (case plan_partitions pt q c rs hints of Inl e \<Rightarrow> Inl e | Inr ps \<Rightarrow>
     (case deriveSessionDependencies rs ps of Inl e \<Rightarrow> Inl e | Inr derived \<Rightarrow>
     (let ds = (if kp_sessions c \<noteq> [] then normalizeControllerDependencies ps (kp_sessions c) derived else derived) in
     (case compileWaves g ps ds (kp_waves c) of Inl e \<Rightarrow> Inl e | Inr ws \<Rightarrow>
     (case planOwnership ps hints (gp_protectedPaths (pq_policy q)) (kp_redZonePaths c) of (ownership, shared) \<Rightarrow>
     (case map_res (compiled_session q g rs ws ds ownership (List.enumerate 0 (kp_sessions c))) ps of Inl e \<Rightarrow> Inl e | Inr ss \<Rightarrow>
     (let d = compiled_group q g hash (case createdAt of Some t \<Rightarrow> t | None \<Rightarrow> pt_now pt) rs ss ws;
          is = validateDevelopmentGroupDefinition d rs ss ws in
      if is \<noteq> [] then Inl (PlanningValidationError (issues_text is))
      else Inr \<lparr>pp_definition = d, pp_requirements = rs, pp_sessions = ss, pp_waves = ws,
        pp_redZonePaths = sorted_unique (kp_redZonePaths c @ shared), pp_notes = kp_notes c,
        pp_source = (if kp_sessions c \<noteq> [] then FromController else DeterministicFallback)\<rparr>))))))))"

end
