(* ===== verification/GroupPlanningCorrectness.thy ===== *)
theory GroupPlanningCorrectness
  imports GroupPlanning GroupCompletionCorrectness
begin

text \<open>The properties of the planner: its waves, its partitions, and what the scheduler makes of a compiled plan.\<close>

section \<open>Waves\<close>

definition wave_sessions :: "wave list \<Rightarrow> string list" where
  "wave_sessions ws = concat (map wa_sessionIds ws)"

lemma set_wave_ready: "set (wave_ready deps done remaining) = {s \<in> set remaining. set (deps s) \<subseteq> set done}"
  by (auto simp: wave_ready_def)

lemma wave_loop_Inr:
  assumes "wave_loop g deps n done remaining = Inr ws" "remaining \<noteq> []"
  obtains us where "ws = planned_wave g n (wave_ready deps done remaining) # us" "wave_ready deps done remaining \<noteq> []"
    "wave_loop g deps (Suc n) (done @ wave_ready deps done remaining)
       (filter (\<lambda>s. s \<notin> set (wave_ready deps done remaining)) remaining) = Inr us"
  using assms by (subst (asm) wave_loop.simps) (auto simp: Let_def split: if_splits sum.splits)

lemma wave_loop_Nil [simp]: "wave_loop g deps n done [] = Inr []"
  by (simp add: wave_loop.simps)

lemma wave_ids [simp]: "wa_sessionIds (planned_wave g n r) = r"
  by (simp add: planned_wave_def)

lemma wave_loop_members:
  "wave_loop g deps n done remaining = Inr ws \<Longrightarrow> distinct remaining \<Longrightarrow>
     distinct (wave_sessions ws) \<and> set (wave_sessions ws) = set remaining"
proof (induction g deps n "done" remaining arbitrary: ws rule: wave_loop.induct)
  case (1 g deps n "done" remaining)
  show ?case
  proof (cases "remaining = []")
    case True
    with 1(2) show ?thesis by (simp add: wave_sessions_def)
  next
    case False
    let ?r = "wave_ready deps done remaining"
    from wave_loop_Inr [OF 1(2) False] obtain us where us: "ws = planned_wave g n ?r # us" "?r \<noteq> []"
      "wave_loop g deps (Suc n) (done @ ?r) (filter (\<lambda>s. s \<notin> set ?r) remaining) = Inr us" by blast
    with 1(1) [OF False refl _ us(3)] 1(3) have
      "distinct (wave_sessions us) \<and> set (wave_sessions us) = set (filter (\<lambda>s. s \<notin> set ?r) remaining)" by simp
    moreover have "distinct ?r" using 1(3) by (simp add: wave_ready_def)
    moreover have "set ?r \<subseteq> set remaining" by (simp add: set_wave_ready)
    ultimately show ?thesis using us(1) by (auto simp: wave_sessions_def)
  qed
qed

text \<open>Every dependency of a wave is completed before the loop or handed out by an earlier wave.\<close>

lemma wave_loop_order:
  "wave_loop g deps n done remaining = Inr ws \<Longrightarrow> i < length ws \<Longrightarrow>
     ws ! i = planned_wave g (n + i) (wa_sessionIds (ws ! i)) \<and> wa_sessionIds (ws ! i) \<noteq> [] \<and>
     (\<forall>s \<in> set (wa_sessionIds (ws ! i)). \<forall>d \<in> set (deps s). d \<in> set done \<or> (\<exists>j < i. d \<in> set (wa_sessionIds (ws ! j))))"
proof (induction g deps n "done" remaining arbitrary: ws i rule: wave_loop.induct)
  case (1 g deps n "done" remaining)
  have False: "remaining \<noteq> []" using 1(2,3) by (cases "remaining = []") auto
  let ?r = "wave_ready deps done remaining"
  from wave_loop_Inr [OF 1(2) False] obtain us where us: "ws = planned_wave g n ?r # us" "?r \<noteq> []"
    "wave_loop g deps (Suc n) (done @ ?r) (filter (\<lambda>s. s \<notin> set ?r) remaining) = Inr us" by blast
  show ?case
  proof (cases i)
    case 0
    with us show ?thesis by (auto simp: set_wave_ready)
  next
    case (Suc k)
    with 1(1) [OF False refl us(2,3), of k] 1(3) us(1) have k:
      "us ! k = planned_wave g (Suc n + k) (wa_sessionIds (us ! k))" "wa_sessionIds (us ! k) \<noteq> []"
      "\<And>s d. s \<in> set (wa_sessionIds (us ! k)) \<Longrightarrow> d \<in> set (deps s) \<Longrightarrow> d \<in> set (done @ ?r) \<or> (\<exists>j < k. d \<in> set (wa_sessionIds (us ! j)))"
      by auto
    have "d \<in> set done \<or> (\<exists>j < i. d \<in> set (wa_sessionIds (ws ! j)))"
      if sd: "s \<in> set (wa_sessionIds (us ! k))" "d \<in> set (deps s)" for s d
    proof -
      consider "d \<in> set done" | "d \<in> set ?r" | j where "j < k" "d \<in> set (wa_sessionIds (us ! j))" using k(3) [OF sd] by auto
      then show ?thesis
      proof cases
        case 2
        then show ?thesis using us(1) Suc by (intro disjI2 exI [of _ 0]) simp
      next
        case 3
        then show ?thesis using us(1) Suc by (intro disjI2 exI [of _ "Suc j"]) simp
      qed simp
    qed
    then show ?thesis using k(1,2) us(1) Suc by simp
  qed
qed

text \<open>What was not ready before the last step waits for a session of that step.\<close>

lemma wave_loop_earliest:
  "wave_loop g deps n (old @ fresh) remaining = Inr ws \<Longrightarrow> \<forall>s \<in> set remaining. \<not> set (deps s) \<subseteq> set old \<Longrightarrow>
     i < length ws \<Longrightarrow> s \<in> set (wa_sessionIds (ws ! i)) \<Longrightarrow>
     \<exists>d \<in> set (deps s). d \<in> set (if i = 0 then fresh else wa_sessionIds (ws ! (i - 1)))"
proof (induction i arbitrary: n old fresh remaining ws)
  case 0
  then have ne: "remaining \<noteq> []" by auto
  from wave_loop_Inr [OF 0(1) ne] obtain us where "ws = planned_wave g n (wave_ready deps (old @ fresh) remaining) # us" by blast
  with 0 show ?case by (auto simp: set_wave_ready)
next
  case (Suc i)
  then have ne: "remaining \<noteq> []" by auto
  let ?r = "wave_ready deps (old @ fresh) remaining"
  from wave_loop_Inr [OF Suc(2) ne] obtain us where us: "ws = planned_wave g n ?r # us"
    "wave_loop g deps (Suc n) ((old @ fresh) @ ?r) (filter (\<lambda>s. s \<notin> set ?r) remaining) = Inr us" by blast
  have "\<forall>s \<in> set (filter (\<lambda>s. s \<notin> set ?r) remaining). \<not> set (deps s) \<subseteq> set (old @ fresh)" by (auto simp: set_wave_ready)
  from Suc(1) [OF us(2) this] Suc(4,5) us(1) have
    "\<exists>d \<in> set (deps s). d \<in> set (if i = 0 then ?r else wa_sessionIds (us ! (i - 1)))" by simp
  then show ?case using us(1) by (cases i) simp_all
qed

text \<open>Sessions that wait for each other or for one that does not exist.\<close>

definition deadlocked :: "(string \<Rightarrow> string list) \<Rightarrow> string set \<Rightarrow> string set \<Rightarrow> bool" where
  "deadlocked deps known S \<longleftrightarrow> S \<noteq> {} \<and> S \<subseteq> known \<and> (\<forall>s \<in> S. \<exists>d \<in> set (deps s). d \<in> S \<or> d \<notin> known)"

lemma wave_loop_Inl:
  "wave_loop g deps n done remaining = Inl e \<Longrightarrow> set done \<union> set remaining = known \<Longrightarrow>
     e = Error ''session dependency graph contains a cycle'' \<and> (\<exists>S. deadlocked deps known S)"
proof (induction g deps n "done" remaining rule: wave_loop.induct)
  case (1 g deps n "done" remaining)
  let ?r = "wave_ready deps done remaining"
  have ne: "remaining \<noteq> []" using 1(2) by auto
  show ?case
  proof (cases "?r = []")
    case True
    then have "\<forall>s \<in> set remaining. \<exists>d \<in> set (deps s). d \<notin> set done" using set_wave_ready [of deps "done" remaining] by auto
    then have "deadlocked deps known (set remaining)" using ne 1(3) by (auto simp: deadlocked_def)
    moreover have "e = Error ''session dependency graph contains a cycle''"
      using 1(2) ne True by (subst (asm) wave_loop.simps) simp
    ultimately show ?thesis by blast
  next
    case False
    have "wave_loop g deps (Suc n) (done @ ?r) (filter (\<lambda>s. s \<notin> set ?r) remaining) = Inl e"
      using 1(2) ne False by (subst (asm) wave_loop.simps) (auto simp: Let_def split: sum.splits)
    moreover have "set (done @ ?r) \<union> set (filter (\<lambda>s. s \<notin> set ?r) remaining) = known"
      using 1(3) by (auto simp: set_wave_ready)
    ultimately show ?thesis using 1(1) [OF ne refl False] by blast
  qed
qed

lemma deadlocked_blocks:
  assumes "deadlocked deps (set (wave_sessions ws)) S"
    and order: "\<And>i s d. i < length ws \<Longrightarrow> s \<in> set (wa_sessionIds (ws ! i)) \<Longrightarrow> d \<in> set (deps s) \<Longrightarrow>
      \<exists>j < i. d \<in> set (wa_sessionIds (ws ! j))"
  shows False
proof -
  have none: "i < length ws \<Longrightarrow> s \<in> set (wa_sessionIds (ws ! i)) \<Longrightarrow> s \<notin> S" for i s
  proof (induction i arbitrary: s rule: less_induct)
    case (less i)
    show ?case
    proof
      assume "s \<in> S"
      then obtain d where d: "d \<in> set (deps s)" "d \<in> S \<or> d \<notin> set (wave_sessions ws)" using assms(1) by (auto simp: deadlocked_def)
      from order [OF less(2,3) d(1)] obtain j where j: "j < i" "d \<in> set (wa_sessionIds (ws ! j))" by blast
      with less(2) have "d \<in> set (wave_sessions ws)" by (auto simp: wave_sessions_def)
      with d(2) less(1) [OF j(1) _ j(2)] j(1) less(2) show False by simp
    qed
  qed
  obtain s where "s \<in> S" "s \<in> set (wave_sessions ws)" using assms(1) by (auto simp: deadlocked_def)
  then obtain w where "w \<in> set ws" "s \<in> set (wa_sessionIds w)" by (auto simp: wave_sessions_def)
  with none \<open>s \<in> S\<close> show False by (metis in_set_conv_nth)
qed

lemma planned_order:
  assumes "planWaves g ps ds = Inr ws" "i < length ws" "s \<in> set (wa_sessionIds (ws ! i))" "d \<in> set (planned_deps ds s)"
  shows "\<exists>j < i. d \<in> set (wa_sessionIds (ws ! j))"
  using wave_loop_order [OF assms(1) [unfolded planWaves_def] assms(2)] assms(3,4) by simp

lemma planned_members:
  assumes "planWaves g ps ds = Inr ws"
  shows "distinct (wave_sessions ws)" "set (wave_sessions ws) = set (map pa_key ps)"
  using wave_loop_members [OF assms [unfolded planWaves_def]] by simp_all

lemma planned_fails_iff:
  "planWaves g ps ds = Inl (Error ''session dependency graph contains a cycle'') \<longleftrightarrow>
     (\<exists>S. deadlocked (planned_deps ds) (set (map pa_key ps)) S)"
proof (cases "planWaves g ps ds")
  case (Inl e)
  with wave_loop_Inl [of g "planned_deps ds" 1 "[]" "first_occurrences (map pa_key ps)" e "set (map pa_key ps)"]
  show ?thesis by (simp add: planWaves_def)
next
  case (Inr ws)
  with deadlocked_blocks [of "planned_deps ds" ws] planned_order [OF Inr] planned_members(2) [OF Inr] show ?thesis by auto
qed

text \<open>C23: The planner's waves are a topological order with as few waves as possible: every session is in exactly one wave,
  its dependencies are in earlier waves, and a session that is not in the first wave depends on one of the wave
  before its own. The planner gives up exactly when some sessions wait for each other or for one that does not exist.\<close>

theorem planWaves_correct:
  "(\<forall>ws. planWaves g ps ds = Inr ws \<longrightarrow>
      distinct (wave_sessions ws) \<and> set (wave_sessions ws) = set (map pa_key ps) \<and>
      (\<forall>i < length ws. \<forall>s \<in> set (wa_sessionIds (ws ! i)).
         (\<forall>d \<in> set (planned_deps ds s). \<exists>j < i. d \<in> set (wa_sessionIds (ws ! j))) \<and>
         (0 < i \<longrightarrow> (\<exists>d \<in> set (planned_deps ds s). d \<in> set (wa_sessionIds (ws ! (i - 1))))))) \<and>
   (\<forall>e. planWaves g ps ds = Inl e \<longrightarrow> e = Error ''session dependency graph contains a cycle'') \<and>
   ((\<exists>e. planWaves g ps ds = Inl e) \<longleftrightarrow> (\<exists>S. deadlocked (planned_deps ds) (set (map pa_key ps)) S))"
proof (intro conjI allI impI ballI)
  fix ws i s assume ws: "planWaves g ps ds = Inr ws" "i < length ws" "s \<in> set (wa_sessionIds (ws ! i))" "0 < i"
  then have *: "remaining \<noteq> []" if "planWaves g ps ds = wave_loop g (planned_deps ds) 1 [] remaining" for remaining
    using that by (cases "remaining = []") auto
  let ?r = "wave_ready (planned_deps ds) [] (first_occurrences (map pa_key ps))"
  from wave_loop_Inr [OF ws(1) [unfolded planWaves_def] *] obtain us where us: "ws = planned_wave g 1 ?r # us"
    "wave_loop g (planned_deps ds) 2 ([] @ ?r) (filter (\<lambda>s. s \<notin> set ?r) (first_occurrences (map pa_key ps))) = Inr us"
    by (auto simp: planWaves_def numeral_2_eq_2)
  have "\<forall>s \<in> set (filter (\<lambda>s. s \<notin> set ?r) (first_occurrences (map pa_key ps))). \<not> set (planned_deps ds s) \<subseteq> set []"
    by (auto simp: set_wave_ready)
  from wave_loop_earliest [OF us(2) this, of "i - 1" s] ws us(1)
  show "\<exists>d \<in> set (planned_deps ds s). d \<in> set (wa_sessionIds (ws ! (i - 1)))" by (cases i) (auto simp: nth_Cons' split: if_splits)
next
  show "(\<exists>e. planWaves g ps ds = Inl e) \<longleftrightarrow> (\<exists>S. deadlocked (planned_deps ds) (set (map pa_key ps)) S)"
    using planned_fails_iff [of g ps ds]
      wave_loop_Inl [of g "planned_deps ds" 1 "[]" "first_occurrences (map pa_key ps)" _ "set (map pa_key ps)"]
    by (auto simp: planWaves_def)
qed (use planned_order planned_members wave_loop_Inl in \<open>fastforce simp: planWaves_def\<close>)+

definition demo_partition :: "string \<Rightarrow> partition" where
  "demo_partition k = \<lparr>pa_key = k, pa_requirementIds = [k], pa_pathHints = [], pa_tags = []\<rparr>"

definition demo_plan :: "dependency_plan list" where
  "demo_plan = [\<lparr>sd_sessionId = ''S01'', sd_dependsOn = [''S02'']\<rparr>, \<lparr>sd_sessionId = ''S03'', sd_dependsOn = [''S01'', ''S02'']\<rparr>]"

lemma planWaves_correct_witness:
  "\<exists>ws. planWaves ''g'' (map demo_partition [''S01'', ''S02'', ''S03'']) demo_plan = Inr ws \<and>
     map wa_sessionIds ws = [[''S02''], [''S01''], [''S03'']] \<and> distinct (wave_sessions ws) \<and>
     Ex (deadlocked (planned_deps demo_plan) (set (map pa_key [demo_partition ''S01''])))"
proof -
  define ws where "ws = [planned_wave ''g'' 1 [''S02''], planned_wave ''g'' 2 [''S01''], planned_wave ''g'' 3 [''S03'']]"
  have ok: "planWaves ''g'' (map demo_partition [''S01'', ''S02'', ''S03'']) demo_plan = Inr ws" unfolding ws_def by code_simp
  have stuck: "planWaves ''g'' [demo_partition ''S01''] demo_plan = Inl (Error ''session dependency graph contains a cycle'')"
    by code_simp
  have 1: "distinct (wave_sessions ws)" using planWaves_correct ok by blast
  have 2: "Ex (deadlocked (planned_deps demo_plan) (set (map pa_key [demo_partition ''S01''])))"
    using planWaves_correct stuck by blast
  have 3: "map wa_sessionIds ws = [[''S02''], [''S01''], [''S03'']]" by (simp add: ws_def)
  show ?thesis using ok 1 2 3 by (intro exI [of _ ws] conjI)
qed

section \<open>Partitions\<close>

definition skipped :: "partition list \<Rightarrow> int \<Rightarrow> nat \<Rightarrow> bool" where
  "skipped ps hard i \<longleftrightarrow> partition_full hard (ps ! i) \<and> list_ex (\<lambda>q. \<not> partition_full hard q) ps"

text \<open>The search starts at the first partition, and leaves it for one that may be chosen.\<close>

lemma prefer_fold:
  "n \<le> length ps \<Longrightarrow> (case fold (prefer_partition ps hard score) [0..<n] (0, None) of
     (b, None) \<Rightarrow> b = 0 \<and> (\<forall>i < n. skipped ps hard i) | (b, Some _) \<Rightarrow> b < n \<and> \<not> skipped ps hard b)"
proof (induction n)
  case (Suc n)
  obtain b s where run: "fold (prefer_partition ps hard score) [0..<n] (0, None) = (b, s)" by fastforce
  have step: "prefer_partition ps hard score n (b, s) = (if skipped ps hard n then (b, s) else
      case s of None \<Rightarrow> (n, Some (score n (ps ! n)))
      | Some v \<Rightarrow> if score n (ps ! n) > v \<or> (score n (ps ! n) = v \<and> pa_key (ps ! n) < pa_key (ps ! b)) then (n, Some (score n (ps ! n))) else (b, s))"
    unfolding prefer_partition_def Let_def skipped_def fst_conv snd_conv by (rule refl)
  show ?case
  proof (cases s)
    case None
    with Suc run have "b = 0" "\<forall>i < n. skipped ps hard i" by auto
    with None run step show ?thesis by (simp add: less_Suc_eq)
  next
    case (Some v)
    with Suc run have "b < n" "\<not> skipped ps hard b" by auto
    with Some run step show ?thesis by simp
  qed
qed simp

lemma select_partition_ok:
  assumes "ps \<noteq> []"
  shows "select_partition ps hard score < length ps" "\<not> skipped ps hard (select_partition ps hard score)"
proof -
  have "\<exists>i < length ps. \<not> skipped ps hard i"
  proof (cases "list_ex (\<lambda>q. \<not> partition_full hard q) ps")
    case True
    then show ?thesis by (auto simp: skipped_def list_ex_length)
  next
    case False
    with assms show ?thesis by (auto simp: skipped_def)
  qed
  with prefer_fold [of "length ps" ps hard score]
  show "select_partition ps hard score < length ps" "\<not> skipped ps hard (select_partition ps hard score)"
    unfolding select_partition_def
    by (cases "fold (prefer_partition ps hard score) [0..<length ps] (0, None)"; auto split: option.splits)+
qed

definition placed_count :: "partition list \<Rightarrow> nat" where
  "placed_count ps = length (concat (map pa_requirementIds ps))"

lemma placed_count_full:
  "\<forall>p \<in> set ps. partition_full hard p \<Longrightarrow> int (length ps) * hard \<le> int (placed_count ps)"
  by (induction ps) (auto simp: placed_count_def partition_full_def algebra_simps)

lemma mset_concat_update:
  assumes "i < length xs" "f y = f (xs ! i) @ [k]"
  shows "mset (concat (map f (xs[i := y]))) = add_mset k (mset (concat (map f xs)))"
  using assms by (induction xs arbitrary: i) (auto split: nat.splits)

lemma place_requirement_step:
  assumes "ps \<noteq> []" "\<forall>p \<in> set ps. int (length (pa_requirementIds p)) \<le> hard" "int (placed_count ps) < int (length ps) * hard"
    "place_requirement hints hard r (ps, owner) = (ps', owner')"
  shows "length ps' = length ps \<and> map pa_key ps' = map pa_key ps \<and> (\<forall>p \<in> set ps'. int (length (pa_requirementIds p)) \<le> hard) \<and>
    mset (concat (map pa_requirementIds ps')) = add_mset (rq_requirementId r) (mset (concat (map pa_requirementIds ps)))"
proof -
  from assms(4) obtain i score p where i: "i = select_partition ps hard score" "ps' = ps[i := p]" "pa_key p = pa_key (ps ! i)"
    "pa_requirementIds p = pa_requirementIds (ps ! i) @ [rq_requirementId r]"
    by (auto simp: place_requirement_def Let_def)
  have "\<not> (\<forall>p \<in> set ps. partition_full hard p)" using placed_count_full [of ps hard] assms(3) by auto
  then have "list_ex (\<lambda>q. \<not> partition_full hard q) ps" by (auto simp: list_ex_iff)
  with select_partition_ok [OF assms(1), of hard score] i(1) have lt: "i < length ps" "\<not> partition_full hard (ps ! i)"
    by (auto simp: skipped_def)
  then have "int (length (pa_requirementIds p)) \<le> hard" using i(4) by (simp add: partition_full_def)
  with assms(2) have "\<forall>q \<in> set ps'. int (length (pa_requirementIds q)) \<le> hard" using i(2) lt(1) by (auto dest!: subsetD [OF set_update_subset_insert])
  moreover have "map pa_key ps' = map pa_key ps" using i(2,3) lt(1) by (simp add: map_update list_update_same_conv)
  ultimately show ?thesis using mset_concat_update [of i ps pa_requirementIds p, OF lt(1) i(4)] i(2) by simp
qed

lemma place_requirements:
  "ps \<noteq> [] \<Longrightarrow> \<forall>p \<in> set ps. int (length (pa_requirementIds p)) \<le> hard \<Longrightarrow>
     int (placed_count ps + length rs) \<le> int (length ps) * hard \<Longrightarrow> fold (place_requirement hints hard) rs (ps, owner) = (ps', owner') \<Longrightarrow>
   length ps' = length ps \<and> map pa_key ps' = map pa_key ps \<and> (\<forall>p \<in> set ps'. int (length (pa_requirementIds p)) \<le> hard) \<and>
     mset (concat (map pa_requirementIds ps')) = mset (map rq_requirementId rs) + mset (concat (map pa_requirementIds ps))"
proof (induction rs arbitrary: ps owner)
  case (Cons r rs)
  obtain ps1 owner1 where one: "place_requirement hints hard r (ps, owner) = (ps1, owner1)" by fastforce
  with place_requirement_step [OF Cons.prems(1,2) _ one] Cons.prems(3) have step:
    "length ps1 = length ps" "map pa_key ps1 = map pa_key ps" "\<forall>p \<in> set ps1. int (length (pa_requirementIds p)) \<le> hard"
    "mset (concat (map pa_requirementIds ps1)) = add_mset (rq_requirementId r) (mset (concat (map pa_requirementIds ps)))"
    by auto
  from step(4) have "placed_count ps1 = Suc (placed_count ps)"
    unfolding placed_count_def by (metis size_add_mset size_mset)
  moreover have "ps1 \<noteq> []" using step(1) Cons.prems(1) by auto
  ultimately show ?case using Cons.IH [of ps1 owner1] Cons.prems one step by auto
qed simp

lemma ceil_div_le: "0 < b \<Longrightarrow> a \<le> b * ceil_div a b"
  unfolding ceil_div_def
  by (smt (verit, best) minus_mult_minus mult_minus_right nonzero_mult_div_cancel_left pos_mod_sign mult_div_mod_eq)

text \<open>A padded number is read back.\<close>

definition read_digits :: "string \<Rightarrow> nat" where
  "read_digits s = foldl (\<lambda>v c. 10 * v + (of_char c - 48)) 0 s"

lemma digit_value: "n < 10 \<Longrightarrow> of_char (digit n) - 48 = n"
proof -
  have "\<forall>n \<in> {..<10}. of_char (digit n) - 48 = n" by code_simp
  then show "n < 10 \<Longrightarrow> of_char (digit n) - 48 = n" by blast
qed

lemma read_nat_text [simp]: "read_digits (nat_text n) = n"
proof (induction n rule: nat_text.induct)
  case (1 n)
  show ?case
  proof (cases "n < 10")
    case True
    then show ?thesis by (subst nat_text.simps) (simp add: read_digits_def digit_value)
  next
    case False
    with 1 have "read_digits (nat_text (n div 10)) = n div 10" by simp
    then show ?thesis using False by (subst nat_text.simps) (simp add: read_digits_def digit_value)
  qed
qed

lemma read_padded [simp]: "read_digits (padded w n) = n"
proof -
  have "read_digits (replicate k CHR ''0'' @ t) = read_digits t" for k t
    by (induction k) (simp_all add: read_digits_def)
  then show ?thesis by (simp add: padded_def Let_def)
qed

lemma padded_eq [simp]: "padded w m = padded w n \<longleftrightarrow> m = n"
  by (metis read_padded)

lemma keys_distinct: "distinct (map pa_key (empty_partitions n))"
  by (auto simp: empty_partitions_def distinct_map inj_on_def)

lemma empty_partitions_empty: "p \<in> set (empty_partitions n) \<Longrightarrow> pa_requirementIds p = []"
  by (auto simp: empty_partitions_def)

lemma length_empty_partitions [simp]: "length (empty_partitions n) = n"
  by (simp add: empty_partitions_def)

lemma concat_filter_nonempty: "concat (map f (filter (\<lambda>p. f p \<noteq> []) ps)) = concat (map f ps)"
  by (induction ps) auto

text \<open>The fallback division of the requirements never fails on a positive limit: it gives each requirement to
  exactly one session, makes at most the allowed number of sessions, each with work and none above the hard
  capacity, and gives them different keys. The final check for lost requirements never rejects.\<close>

theorem partitionRequirements_total:
  assumes "safe_integer most" "1 \<le> most" "safe_integer size'" "1 \<le> size'" "distinct (map rq_requirementId rs)"
    and perm: "mset (order rs) = mset rs"
  shows "\<exists>ps. partitionRequirements order rs hints most size' = Inr ps \<and> int (length ps) \<le> most \<and> distinct (map pa_key ps) \<and>
    mset (concat (map pa_requirementIds ps)) = mset (map rq_requirementId rs) \<and>
    (\<forall>p \<in> set ps. pa_requirementIds p \<noteq> [] \<and> int (length (pa_requirementIds p)) \<le> hard_capacity (int (length rs)) most size')"
proof (cases "rs = []")
  case True
  with assms show ?thesis by (simp add: partitionRequirements_def)
next
  case False
  let ?n = "int (length rs)"
  define count where "count = desired_count ?n most size'"
  define hard where "hard = hard_capacity ?n most size'"
  have count: "1 \<le> count" "count \<le> most" using assms(2) by (auto simp: count_def desired_count_def)
  have "ceil_div ?n count \<le> hard" by (simp add: hard_def hard_capacity_def count_def)
  with ceil_div_le [of count ?n] count(1) have room: "?n \<le> count * hard"
    by (smt (verit) mult_left_mono)
  have "0 \<le> hard" using assms(4) by (simp add: hard_def hard_capacity_def)
  let ?empty = "empty_partitions (nat count)"
  obtain ps owner where run: "fold (place_requirement hints hard) (order rs) (?empty, \<lambda>_. None) = (ps, owner)" by fastforce
  have start: "?empty \<noteq> []" "concat (map pa_requirementIds ?empty) = []"
    "\<forall>p \<in> set ?empty. int (length (pa_requirementIds p)) \<le> hard"
    using count(1) \<open>0 \<le> hard\<close> empty_partitions_empty [of _ "nat count"]
    by (auto simp: empty_partitions_def)
  have len: "length (order rs) = length rs" using perm by (metis size_mset)
  with count(1) room have "int (placed_count ?empty + length (order rs)) \<le> int (length ?empty) * hard"
    unfolding placed_count_def start(2) by simp
  from place_requirements [OF start(1,3) this run] start(2) have ps: "length ps = nat count" "map pa_key ps = map pa_key ?empty"
    "\<forall>p \<in> set ps. int (length (pa_requirementIds p)) \<le> hard"
    "mset (concat (map pa_requirementIds ps)) = mset (map rq_requirementId rs)"
    using perm by simp_all
  define kept where "kept = filter (\<lambda>p. pa_requirementIds p \<noteq> []) ps"
  define out where "out = map (\<lambda>p. p\<lparr>pa_pathHints := sort (pa_pathHints p), pa_tags := sort (pa_tags p)\<rparr>) kept"
  have ids: "map pa_requirementIds out = map pa_requirementIds kept" by (simp add: out_def)
  have all: "mset (concat (map pa_requirementIds out)) = mset (map rq_requirementId rs)"
    unfolding ids unfolding kept_def concat_filter_nonempty by (rule ps(4))
  then have "set (concat (map pa_requirementIds out)) = set (map rq_requirementId rs)" by (rule mset_eq_setD)
  with assms False run have "partitionRequirements order rs hints most size' = Inr out"
    by (simp add: partitionRequirements_def Let_def out_def kept_def count_def hard_def)
  moreover have "int (length out) \<le> most"
    using count ps(1) length_filter_le [of "\<lambda>p. pa_requirementIds p \<noteq> []" ps] by (simp add: out_def kept_def)
  moreover have "distinct (map pa_key out)"
    using keys_distinct [of "nat count"] ps(2) by (simp add: out_def kept_def comp_def distinct_map_filter)
  moreover have "\<forall>p \<in> set out. pa_requirementIds p \<noteq> [] \<and> int (length (pa_requirementIds p)) \<le> hard"
    using ps(3) by (auto simp: out_def kept_def)
  ultimately show ?thesis using all unfolding hard_def by blast
qed

definition demo_requirement :: "string \<Rightarrow> string list \<Rightarrow> requirement" where
  "demo_requirement k deps = \<lparr>rq_groupId = ''g'', rq_requirementId = k, rq_title = k, rq_description = k, rq_mandatory = True,
     rq_acceptanceCriteria = [''a''], rq_sourceAnchor = ''p'', rq_proposedOwner = None, rq_dependencies = deps, rq_undefined = []\<rparr>"

lemma partitionRequirements_total_witness:
  "let rs = [demo_requirement ''a'' [], demo_requirement ''b'' [], demo_requirement ''c'' [''a'']] in
   \<exists>ps. partitionRequirements id rs [] 2 2 = Inr ps \<and> map pa_requirementIds ps = [[''a'', ''c''], [''b'']] \<and> int (length ps) \<le> 2"
proof -
  define rs where "rs = [demo_requirement ''a'' [], demo_requirement ''b'' [], demo_requirement ''c'' [''a'']]"
  have "distinct (map rq_requirementId rs)" by (simp add: rs_def demo_requirement_def)
  then obtain ps where ps: "partitionRequirements id rs [] 2 2 = Inr ps" "int (length ps) \<le> 2"
    using partitionRequirements_total [of 2 2 rs id "[]"] by (auto simp: safe_integer_def MAX_SAFE_INTEGER_def)
  have "(case partitionRequirements id rs [] 2 2 of Inl _ \<Rightarrow> False | Inr ps \<Rightarrow> map pa_requirementIds ps = [[''a'', ''c''], [''b'']])"
    unfolding rs_def by code_simp
  with ps show ?thesis unfolding Let_def rs_def [symmetric] by auto
qed

section \<open>The compiled plan\<close>

lemma map_res_Inr: "map_res f xs = Inr ys \<longleftrightarrow> list_all2 (\<lambda>x y. f x = Inr y) xs ys"
proof (induction xs arbitrary: ys)
  case (Cons x xs)
  show ?case
  proof (cases "map_res f xs")
    case (Inl e)
    with Cons have "\<nexists>zs. list_all2 (\<lambda>x y. f x = Inr y) xs zs" by auto
    with Inl show ?thesis by (auto simp: list_all2_Cons1 split: sum.splits)
  next
    case (Inr zs)
    then have "list_all2 (\<lambda>x y. f x = Inr y) xs us \<longleftrightarrow> us = zs" for us using Cons [of us] by auto
    with Inr show ?thesis by (cases "f x") (auto simp: list_all2_Cons1)
  qed
qed auto

lemma compiled_session_Inr:
  assumes "compiled_session q g rs ws ds ownership proposals p = Inr s"
  shows "se_sessionId s = pa_key p \<and> wave_of ws (pa_key p) = Some (se_waveId s) \<and> se_dependencies s = planned_deps ds (pa_key p) \<and>
    se_requirements s = pa_requirementIds p \<and> se_forbiddenPaths s = trimmed_unique ((case map_option snd
      (by_key (\<lambda>(i, s). normalizedSessionId i (sq_id s)) proposals (pa_key p)) of None \<Rightarrow> [] | Some s \<Rightarrow> sq_forbiddenPaths s) @
      (case by_key op_sessionId ownership (pa_key p) of None \<Rightarrow> [] | Some x \<Rightarrow> op_forbiddenPaths x) @ gp_protectedPaths (pq_policy q))"
  using assms by (auto simp: compiled_session_def Let_def split: option.splits)

lemma compiled_parts:
  assumes "compilePlanningProposal pt q c gid created = Inr pp"
  obtains g rs hints ps derived ds ownership where
    "normalizeRequirementProposals g (kp_requirements c) = Inr (rs, hints)" "plan_partitions pt q c rs hints = Inr ps"
    "deriveSessionDependencies rs ps = Inr derived" "compileWaves g ps ds (kp_waves c) = Inr (pp_waves pp)"
    "list_all2 (\<lambda>p s. compiled_session q g rs (pp_waves pp) ds ownership (List.enumerate 0 (kp_sessions c)) p = Inr s) ps (pp_sessions pp)"
    "validateDevelopmentGroupDefinition (pp_definition pp) rs (pp_sessions pp) (pp_waves pp) = []" "rs = pp_requirements pp"
    "gd_sessionIds (pp_definition pp) = map se_sessionId (pp_sessions pp)" "gd_waveIds (pp_definition pp) = map wa_waveId (pp_waves pp)"
    "gd_policy (pp_definition pp) = pq_policy q"
  using assms
  by (auto simp: compilePlanningProposal_def Let_def map_res_Inr compiled_group_def split: sum.splits prod.splits if_splits)

lemma by_key_distinct:
  "distinct (map key xs) \<Longrightarrow> x \<in> set xs \<Longrightarrow> by_key key xs (key x) = Some x"
  unfolding by_key_def by (metis find_key_distinct map_get_find_key)

lemma planned_wave_at:
  assumes "planWaves g ps ds = Inr ws" "i < length ws"
  shows "wa_waveId (ws ! i) = wave_name (Suc i)" "wa_ordinal (ws ! i) = int (Suc i)"
    "wa_dependsOnWaveIds (ws ! i) = (if i = 0 then [] else [wave_name i])"
proof -
  obtain r where r: "ws ! i = planned_wave g (1 + i) r"
    using wave_loop_order [OF assms(1) [unfolded planWaves_def] assms(2)] by blast
  show "wa_waveId (ws ! i) = wave_name (Suc i)" "wa_ordinal (ws ! i) = int (Suc i)"
    "wa_dependsOnWaveIds (ws ! i) = (if i = 0 then [] else [wave_name i])"
    by (simp_all add: r planned_wave_def)
qed

lemma wave_name_eq [simp]: "wave_name m = wave_name n \<longleftrightarrow> m = n"
  by (simp add: wave_name_def)

lemma planned_wave_edges:
  assumes "planWaves g ps ds = Inr ws" "w \<in> set ws"
  shows "wave_edge_errors ws w = []"
proof -
  have dist: "distinct (map wa_waveId ws)"
    using planned_wave_at(1) [OF assms(1)] by (auto simp: distinct_conv_nth)
  obtain i where i: "i < length ws" "w = ws ! i" using assms(2) by (metis in_set_conv_nth)
  show ?thesis
  proof (cases i)
    case 0
    then show ?thesis using i planned_wave_at(3) [OF assms(1), of i] by (simp add: wave_edge_errors_def)
  next
    case (Suc k)
    then have k: "k < length ws" using i by simp
    have "by_key wa_waveId ws (wave_name i) = Some (ws ! k)"
      using by_key_distinct [OF dist nth_mem [OF k]] planned_wave_at(1) [OF assms(1) k] Suc by simp
    then show ?thesis using i Suc planned_wave_at(2,3) [OF assms(1) i(1)] planned_wave_at(2) [OF assms(1) k]
      by (simp add: wave_edge_errors_def)
  qed
qed

lemma concat_distinct_index:
  "distinct (concat (map f xs)) \<Longrightarrow> i < length xs \<Longrightarrow> j < length xs \<Longrightarrow> x \<in> set (f (xs ! i)) \<Longrightarrow> x \<in> set (f (xs ! j)) \<Longrightarrow> i = j"
proof (induction xs arbitrary: i j)
  case (Cons y ys)
  have other: "x \<in> set (f (ys ! n)) \<Longrightarrow> n < length ys \<Longrightarrow> x \<notin> set (f y)" for n
    using Cons.prems(1) by (auto simp: disjoint_iff dest: nth_mem)
  from Cons show ?case by (cases i; cases j) (auto dest: other)
qed simp

lemma wave_of_nth:
  assumes "distinct (wave_sessions ws)" "i < length ws" "k \<in> set (wa_sessionIds (ws ! i))" "wave_of ws k = Some w"
  shows "w = wa_waveId (ws ! i)"
proof -
  obtain v where v: "List.find (\<lambda>w. k \<in> set (wa_sessionIds w)) (rev ws) = Some v" "w = wa_waveId v"
    using assms(4) by (auto simp: wave_of_def split: option.splits if_splits)
  then have "v \<in> set ws" "k \<in> set (wa_sessionIds v)" using find_member [OF v(1)] by auto
  then obtain j where "j < length ws" "v = ws ! j" by (metis in_set_conv_nth)
  with concat_distinct_index [of wa_sessionIds ws i j k] assms(1-3) \<open>k \<in> set (wa_sessionIds v)\<close> v(2)
  show ?thesis by (simp add: wave_sessions_def)
qed

lemma compiled_sessions:
  assumes "list_all2 (\<lambda>p s. compiled_session q g rs ws ds ownership proposals p = Inr s) ps ss"
  shows "map se_sessionId ss = map pa_key ps"
    "s \<in> set ss \<Longrightarrow> wave_of ws (se_sessionId s) = Some (se_waveId s) \<and> se_dependencies s = planned_deps ds (se_sessionId s)"
proof -
  show "map se_sessionId ss = map pa_key ps"
    using assms by (induction rule: list_all2_induct) (auto dest: compiled_session_Inr)
  show "s \<in> set ss \<Longrightarrow> wave_of ws (se_sessionId s) = Some (se_waveId s) \<and> se_dependencies s = planned_deps ds (se_sessionId s)"
    using assms by (induction rule: list_all2_induct) (auto dest: compiled_session_Inr)
qed

lemma planned_session_edges:
  assumes "planWaves g ps ds = Inr ws" "distinct (map se_sessionId ss)" "map se_sessionId ss = map pa_key ps"
    and each: "\<And>s. s \<in> set ss \<Longrightarrow> wave_of ws (se_sessionId s) = Some (se_waveId s) \<and> se_dependencies s = planned_deps ds (se_sessionId s)"
    and "s \<in> set ss"
  shows "session_edge_errors ss s = []"
proof -
  note dist = planned_members(1) [OF assms(1)]
  have keys: "set (wave_sessions ws) = se_sessionId ` set ss" using planned_members(2) [OF assms(1)] assms(3) by (metis set_map)
  have at: "\<exists>i < length ws. k \<in> set (wa_sessionIds (ws ! i))" if "k \<in> set (wave_sessions ws)" for k
  proof -
    from that obtain w where "w \<in> set ws" "k \<in> set (wa_sessionIds w)" by (auto simp: wave_sessions_def)
    then show ?thesis by (metis in_set_conv_nth)
  qed
  have ok: "\<exists>t. by_key se_sessionId ss d = Some t \<and> se_waveId t \<noteq> se_waveId s" if d: "d \<in> set (se_dependencies s)" for d
  proof -
    obtain i where i: "i < length ws" "se_sessionId s \<in> set (wa_sessionIds (ws ! i))" using at keys assms(5) by blast
    from planned_order [OF assms(1) i] d each [OF assms(5)] obtain j where j: "j < i" "d \<in> set (wa_sessionIds (ws ! j))" by auto
    have jl: "j < length ws" using j(1) i(1) by simp
    have "d \<in> set (wave_sessions ws)" using j(2) jl by (auto simp: wave_sessions_def)
    then obtain t where t: "t \<in> set ss" "d = se_sessionId t" using keys by blast
    have "se_waveId t = wave_name (Suc j)"
      using wave_of_nth [OF dist jl] j(2) t each planned_wave_at(1) [OF assms(1) jl] by metis
    moreover have "se_waveId s = wave_name (Suc i)"
      using wave_of_nth [OF dist i] each [OF assms(5)] planned_wave_at(1) [OF assms(1) i(1)] by metis
    ultimately show ?thesis using by_key_distinct [OF assms(2) t(1)] t(2) j(1) by simp
  qed
  show ?thesis unfolding session_edge_errors_def concat_eq_Nil_conv using ok by fastforce
qed

lemma sort_Nil_iff [simp]: "sort xs = [] \<longleftrightarrow> xs = []"
  by (metis set_empty set_sort)

text \<open>C22: A plan whose waves the planner made can be scheduled: the session scheduler accepts its sessions and waves, with
  no dependency inside a wave, none on an unknown session or wave, and none on a later wave. The plan also passed
  every check of a group definition.\<close>

theorem compiled_plan_schedulable:
  assumes "compilePlanningProposal pt q c gid created = Inr pp" "kp_waves c = []"
  shows "(\<exists>d. new_scheduler (pq_policy q) (pp_sessions pp) (pp_waves pp) = Inr d) \<and>
    validateDevelopmentGroupDefinition (pp_definition pp) (pp_requirements pp) (pp_sessions pp) (pp_waves pp) = []"
proof -
  from compiled_parts [OF assms(1)] obtain g rs hints ps derived ds ownership where parts:
    "compileWaves g ps ds (kp_waves c) = Inr (pp_waves pp)"
    "list_all2 (\<lambda>p s. compiled_session q g rs (pp_waves pp) ds ownership (List.enumerate 0 (kp_sessions c)) p = Inr s) ps (pp_sessions pp)"
    "validateDevelopmentGroupDefinition (pp_definition pp) (pp_requirements pp) (pp_sessions pp) (pp_waves pp) = []"
    "gd_sessionIds (pp_definition pp) = map se_sessionId (pp_sessions pp)"
    by metis
  let ?ss = "pp_sessions pp" and ?ws = "pp_waves pp"
  have waves: "planWaves g ps ds = Inr ?ws" using parts(1) assms(2) by (auto simp: compileWaves_def split: sum.splits if_splits)
  have "distinct (map se_sessionId ?ss)"
    using parts(3,4) by (simp add: validateDevelopmentGroupDefinition_def definition_issues_def hasDuplicates_def)
  with planned_session_edges [OF waves this] compiled_sessions [OF parts(2)] have "session_edge_errors ?ss s = []" if "s \<in> set ?ss" for s
    using that by blast
  then have "validateSchedulerDag ?ss ?ws = []" using planned_wave_edges [OF waves] by (simp add: validateSchedulerDag_def)
  then show ?thesis using parts(3) by (simp add: new_scheduler_def)
qed

section \<open>Ownership\<close>

lemma shared_paths_iff:
  "path \<in> set (shared_paths hints ps) \<longleftrightarrow>
     (\<exists>p \<in> set ps. path \<in> set (candidate_paths hints p)) \<and> 1 < card (claiming_sessions hints ps path)"
  by (auto simp: shared_paths_def)

lemma two_owners:
  assumes "p \<in> set ps" "p' \<in> set ps" "pa_key p \<noteq> pa_key p'" "path \<in> set (candidate_paths hints p)" "path \<in> set (candidate_paths hints p')"
  shows "path \<in> set (shared_paths hints ps)"
proof -
  have "{pa_key p, pa_key p'} \<subseteq> claiming_sessions hints ps path" using assms by (auto simp: claiming_sessions_def)
  then have "card {pa_key p, pa_key p'} \<le> card (claiming_sessions hints ps path)" by (rule card_mono [rotated]) (simp add: claiming_sessions_def)
  with assms show ?thesis by (auto simp: shared_paths_iff)
qed

text \<open>C27: The planned ownership is exclusive and respects the protected paths, as far as the texts of the hinted paths go: two
  sessions own no hint in common, a hint that several sessions have is read only for them, and no hint that a session owns or
  reads equals a protected or red zone path or is a directory above or below one. Hints that are patterns are compared as they
  are written: what they match can overlap (\<open>planned_patterns_overlap\<close>).\<close>

theorem planOwnership_exclusive:
  assumes "planOwnership ps hints protectedPaths redZones = (plans, shared)" "a \<in> set plans"
  shows "(\<forall>b \<in> set plans. op_sessionId a \<noteq> op_sessionId b \<longrightarrow> set (op_ownedPaths a) \<inter> set (op_ownedPaths b) = {}) \<and>
    set (op_ownedPaths a) \<inter> set shared = {} \<and> set (op_readOnlyPaths a) \<subseteq> set shared \<and>
    (\<forall>path \<in> set (op_ownedPaths a) \<union> set (op_readOnlyPaths a). \<forall>guarded \<in> set (some_paths (protectedPaths @ redZones)).
       \<not> matchesProtected path guarded)"
proof -
  from assms(1) have plans: "plans = map (partition_ownership hints (some_paths (protectedPaths @ redZones)) shared) ps"
    "shared = shared_paths hints ps" by (auto simp: planOwnership_def Let_def)
  from assms(2) plans(1) obtain p where p: "p \<in> set ps" "a = partition_ownership hints (some_paths (protectedPaths @ redZones)) shared p" by auto
  have "set (op_ownedPaths a) \<inter> set (op_ownedPaths b) = {}" if b: "b \<in> set plans" "op_sessionId a \<noteq> op_sessionId b" for b
  proof -
    from b(1) plans(1) obtain p' where p': "p' \<in> set ps" "b = partition_ownership hints (some_paths (protectedPaths @ redZones)) shared p'" by auto
    with p b(2) have "pa_key p \<noteq> pa_key p'" by (simp add: partition_ownership_def Let_def)
    with two_owners [OF p(1) p'(1)] p(2) p'(2) plans(2) show ?thesis by (auto simp: partition_ownership_def Let_def)
  qed
  then show ?thesis using p(2) by (auto simp: partition_ownership_def Let_def list_ex_iff)
qed

definition demo_hints :: "module_hint list" where
  "demo_hints = [\<lparr>mh_requirementId = ''a'', mh_pathHints = [''src/a'', ''./src/x/'', ''docs/p''], mh_tags = []\<rparr>,
     \<lparr>mh_requirementId = ''b'', mh_pathHints = [''src/b'', ''src/x''], mh_tags = []\<rparr>]"

lemma planOwnership_exclusive_witness:
  "\<exists>a b shared. planOwnership [demo_partition ''a'', demo_partition ''b''] demo_hints [''docs''] [] = ([a, b], shared) \<and>
     op_ownedPaths a = [''src/a''] \<and> op_ownedPaths b = [''src/b''] \<and> op_readOnlyPaths a = [''src/x''] \<and> op_forbiddenPaths a = [''docs''] \<and>
     set (op_ownedPaths a) \<inter> set shared = {}"
proof -
  define a where "a = \<lparr>op_sessionId = ''a'', op_ownedPaths = [''src/a''], op_readOnlyPaths = [''src/x''], op_forbiddenPaths = [''docs'']\<rparr>"
  define b where "b = \<lparr>op_sessionId = ''b'', op_ownedPaths = [''src/b''], op_readOnlyPaths = [''src/x''], op_forbiddenPaths = []\<rparr>"
  have run: "planOwnership [demo_partition ''a'', demo_partition ''b''] demo_hints [''docs''] [] = ([a, b], [''src/x''])"
    unfolding a_def b_def by code_simp
  from planOwnership_exclusive [OF this, of a] have "set (op_ownedPaths a) \<inter> set [''src/x''] = {}" by simp
  with run show ?thesis by (intro exI [of _ a] exI [of _ b] exI [of _ "[''src/x'']"]) (simp add: a_def b_def)
qed

text \<open>The paths are patterns where the changes of a session are judged. Two patterns that are different texts are both owned, though
  one of them matches all the other does, and a pattern is owned that matches a protected path.\<close>

definition pattern_hints :: "module_hint list" where
  "pattern_hints = [\<lparr>mh_requirementId = ''a'', mh_pathHints = [''src/**''], mh_tags = []\<rparr>,
     \<lparr>mh_requirementId = ''b'', mh_pathHints = [''src/b/**''], mh_tags = []\<rparr>]"

lemma planned_patterns_overlap:
  "case fst (planOwnership [demo_partition ''a'', demo_partition ''b''] pattern_hints [''src/secret.ts''] []) of
     [a, b] \<Rightarrow> op_forbiddenPaths a = [] \<and> firstMatch ''src/b/x.ts'' (op_ownedPaths a) = Some ''src/**'' \<and>
       firstMatch ''src/b/x.ts'' (op_ownedPaths b) = Some ''src/b/**'' \<and> firstMatch ''src/secret.ts'' (op_ownedPaths a) = Some ''src/**''
   | _ \<Rightarrow> False"
  by code_simp

section \<open>A plan compiled\<close>

definition demo_proposal :: "string \<Rightarrow> string list \<Rightarrow> requirement_proposal" where
  "demo_proposal k deps = \<lparr>rp_id = Some k, rp_title = k, rp_description = k, rp_mandatory = None, rp_acceptanceCriteria = [''done''],
     rp_sourceAnchor = ''plan'', rp_proposedOwner = None, rp_dependencies = deps, rp_pathHints = [''src/'' @ k], rp_tags = []\<rparr>"

definition demo_planning_request :: planning_request where
  "demo_planning_request = \<lparr>pq_repository = ''r'', pq_masterGoal = ''g'', pq_masterPrompt = ''p'', pq_developmentPlan = ''d'',
     pq_baselineSha = replicate 40 CHR ''a'', pq_integrationRef = ''ref'', pq_policy = demo_group_policy\<rparr>"

definition demo_controller :: "wave_proposal list \<Rightarrow> controller_proposal" where
  "demo_controller ws = \<lparr>kp_requirements = [demo_proposal ''R1'' [], demo_proposal ''R2'' [''R1'']],
     kp_sessions = [\<lparr>sq_id = Some ''A'', sq_objective = ''first'', sq_requirementIds = [''R1''], sq_dependencies = None, sq_ownedPaths = [],
         sq_readOnlyPaths = [], sq_forbiddenPaths = []\<rparr>,
       \<lparr>sq_id = None, sq_objective = ''second'', sq_requirementIds = [''R2''], sq_dependencies = None, sq_ownedPaths = [],
         sq_readOnlyPaths = [], sq_forbiddenPaths = []\<rparr>],
     kp_waves = ws, kp_redZonePaths = [], kp_notes = []\<rparr>"

definition demo_planning :: planning_platform where
  "demo_planning = \<lparr>pt_hash = (\<lambda>_ _. ''0123456789abcdef''), pt_localeSort = id, pt_now = ''now''\<rparr>"

lemma compiled_plan_schedulable_witness:
  "\<exists>pp d. compilePlanningProposal demo_planning demo_planning_request (demo_controller []) None None = Inr pp \<and>
     map wa_sessionIds (pp_waves pp) = [[''A''], [''S02'']] \<and> map se_dependencies (pp_sessions pp) = [[], [''A'']] \<and>
     new_scheduler demo_group_policy (pp_sessions pp) (pp_waves pp) = Inr d"
proof -
  have "(case compilePlanningProposal demo_planning demo_planning_request (demo_controller []) None None of Inl _ \<Rightarrow> False
     | Inr pp \<Rightarrow> map wa_sessionIds (pp_waves pp) = [[''A''], [''S02'']] \<and> map se_dependencies (pp_sessions pp) = [[], [''A'']])" by code_simp
  then obtain pp where pp: "compilePlanningProposal demo_planning demo_planning_request (demo_controller []) None None = Inr pp"
    "map wa_sessionIds (pp_waves pp) = [[''A''], [''S02'']]" "map se_dependencies (pp_sessions pp) = [[], [''A'']]"
    by (auto split: sum.splits)
  have "pq_policy demo_planning_request = demo_group_policy" "kp_waves (demo_controller []) = []" by (simp_all add: demo_planning_request_def demo_controller_def)
  with compiled_plan_schedulable [OF pp(1)] pp show ?thesis by metis
qed

text \<open>A wave that does not name its dependencies depends on the default name of the wave before it, even if that wave was
  given another name: the proposal is then rejected for an unknown wave.\<close>

lemma named_wave_breaks_default:
  "compilePlanningProposal demo_planning demo_planning_request
     (demo_controller [\<lparr>wq_id = Some ''base'', wq_sessionIds = [''A''], wq_requiredSessionIds = None, wq_dependsOnWaveIds = None\<rparr>,
        \<lparr>wq_id = None, wq_sessionIds = [''S02''], wq_requiredSessionIds = None, wq_dependsOnWaveIds = None\<rparr>]) None None =
   Inl (PlanningValidationError ''planning proposal failed C1 validation: unknown_dependency@waves.W02.dependsOnWaveIds'')"
  by code_simp

end
