(* ===== verification/GroupStore.thy ===== *)
theory GroupStore
  imports GroupPlanning GroupVerification AppendLog
begin

text \<open>
  The durable store of development groups: \<open>group-runtime/store/event-ledger.ts\<close> and the class
  \<open>DevelopmentGroupStore\<close> of \<open>group-runtime/store/group-store.ts\<close>.

  The file system under the root of the store is a list of group directories. Writing a file (temporary file,
  fsync, rename) is one step. Checksums and the clock are the platform's.
\<close>

section \<open>Records\<close>

datatype group_event_type =
    GroupCreated | PlanFrozen | WaveStarted | SessionCreated | SessionStarted | SessionBlocked | SessionDelivered
  | DeliveryRejected | IntegrationStarted | IntegrationMerged | VerificationStarted | VerificationFailedEvent
  | RepairCreated | GroupCompleted

fun group_event_text :: "group_event_type \<Rightarrow> string" where
  "group_event_text GroupCreated = ''group.created''"
| "group_event_text PlanFrozen = ''plan.frozen''"
| "group_event_text WaveStarted = ''wave.started''"
| "group_event_text SessionCreated = ''session.created''"
| "group_event_text SessionStarted = ''session.started''"
| "group_event_text SessionBlocked = ''session.blocked''"
| "group_event_text SessionDelivered = ''session.delivered''"
| "group_event_text DeliveryRejected = ''delivery.rejected''"
| "group_event_text IntegrationStarted = ''integration.started''"
| "group_event_text IntegrationMerged = ''integration.merged''"
| "group_event_text VerificationStarted = ''verification.started''"
| "group_event_text VerificationFailedEvent = ''verification.failed''"
| "group_event_text RepairCreated = ''repair.created''"
| "group_event_text GroupCompleted = ''group.completed''"

record group_event =
  gn_eventId :: string
  gn_sequence :: int
  gn_at :: string
  gn_groupId :: string
  gn_type :: group_event_type
  gn_sessionId :: "string option"
  gn_waveId :: "string option"
  gn_payloadHash :: "string option"
  gn_detail :: "string option"
  gn_undefined :: "string list"  \<comment> \<open>the keys that are there with the value \<open>undefined\<close>\<close>

record group_state =
  gs_groupId :: string
  gs_status :: group_status
  gs_activeWaveId :: "string option"
  gs_integrationSha :: "string option"
  gs_lastEventSequence :: int
  gs_unresolvedBlockers :: "string list"
  gs_outcomeUnknownCount :: int
  gs_repairWaveCount :: int
  gs_updatedAt :: string
  gs_undefined :: "string list"

record group_plan_record =
  gl_schema :: string
  gl_proposal :: planning_proposal

text \<open>The records as JSON keeps them: without the keys that hold \<open>undefined\<close>. Nothing else of them is lost.\<close>

definition event_stored :: "group_event \<Rightarrow> group_event" where
  "event_stored e = e\<lparr>gn_undefined := []\<rparr>"

definition state_stored :: "group_state \<Rightarrow> group_state" where
  "state_stored s = s\<lparr>gs_undefined := []\<rparr>"

definition session_stored :: "session_runtime \<Rightarrow> session_runtime" where
  "session_stored r = r\<lparr>sr_undefined := []\<rparr>"

definition requirement_stored :: "requirement \<Rightarrow> requirement" where
  "requirement_stored r = r\<lparr>rq_undefined := []\<rparr>"

definition plan_stored :: "group_plan_record \<Rightarrow> group_plan_record" where
  "plan_stored l = l\<lparr>gl_proposal := (gl_proposal l)\<lparr>pp_requirements := map requirement_stored (pp_requirements (gl_proposal l))\<rparr>\<rparr>"

definition failure_stored :: "failure_record \<Rightarrow> failure_record" where
  "failure_stored f = f\<lparr>fr_undefined := []\<rparr>"

section \<open>The event ledger\<close>

definition ZERO3_GROUP_EVENT_RECORD :: string where
  "ZERO3_GROUP_EVENT_RECORD = ''zero3.pilot.group-event-record.v1''"

type_synonym group_ledger = "group_event ledger_line list"

definition group_event_json :: "group_event \<Rightarrow> json" where
  "group_event_json e = JObj ([(''eventId'', JStr (gn_eventId e)), (''sequence'', JNum (of_int (gn_sequence e))),
      (''at'', JStr (gn_at e)), (''groupId'', JStr (gn_groupId e)), (''type'', JStr (group_event_text (gn_type e)))]
     @ opt_field ''sessionId'' JStr (gn_sessionId e) @ opt_field ''waveId'' JStr (gn_waveId e)
     @ opt_field ''payloadHash'' JStr (gn_payloadHash e) @ opt_field ''detail'' JStr (gn_detail e))"

definition group_record_for :: "(group_event \<Rightarrow> string) \<Rightarrow> group_event \<Rightarrow> group_event ledger_line" where
  "group_record_for checksum e = LineRecord (Some ZERO3_GROUP_EVENT_RECORD) (Some (checksum e)) (Some (event_stored e))"

fun parse_group_line :: "(group_event \<Rightarrow> string) \<Rightarrow> string \<Rightarrow> nat \<Rightarrow> group_event ledger_line \<Rightarrow> group_event res" where
  "parse_group_line checksum source n (LineBadJson msg) =
     Inl (DurableStoreCorruptionError (source @ '':'' @ nat_text n @ '' is invalid JSON: '' @ msg))"
| "parse_group_line checksum source n (LineRecord schema cks event) =
     (case (cks, event) of
        (Some c, Some e) \<Rightarrow>
          if schema \<noteq> Some ZERO3_GROUP_EVENT_RECORD
          then Inl (DurableStoreCorruptionError (source @ '':'' @ nat_text n @ '' has an unsupported event envelope''))
          else if checksum e \<noteq> c
          then Inl (DurableStoreCorruptionError (source @ '':'' @ nat_text n @ '' event checksum mismatch''))
          else if \<not> safe_integer (gn_sequence e) \<or> gn_sequence e < 1
          then Inl (DurableStoreCorruptionError (source @ '':'' @ nat_text n @ '' event sequence is invalid''))
          else if trim (gn_eventId e) = [] \<or> trim (gn_groupId e) = []
          then Inl (DurableStoreCorruptionError (source @ '':'' @ nat_text n @ '' event identity is invalid''))
          else Inr e
      | _ \<Rightarrow> Inl (DurableStoreCorruptionError (source @ '':'' @ nat_text n @ '' has an unsupported event envelope'')))"

definition readEventLedger :: "(group_event \<Rightarrow> string) \<Rightarrow> string \<Rightarrow> group_ledger \<Rightarrow> group_event list res" where
  "readEventLedger checksum path = read_ledger (parse_group_line checksum path) gn_sequence gn_eventId
     (\<lambda>expected got. DurableStoreCorruptionError
        (path @ '' event sequence gap/regression: expected '' @ int_text expected @ '', got '' @ int_text got))
     (\<lambda>i. DurableStoreCorruptionError (path @ '' contains duplicate event id '' @ i))"

text \<open>Two events have the same stable text; it prints the undefined keys too.\<close>

definition same_group_event :: "group_event \<Rightarrow> group_event \<Rightarrow> bool" where
  "same_group_event a b \<longleftrightarrow> stable_same (group_event_json a) (group_event_json b) \<and> set (gn_undefined a) = set (gn_undefined b)"

lemma same_group_event_refl: "same_group_event e e"
  by (simp add: same_group_event_def)

definition appendGroupEventSerialized :: "(group_event \<Rightarrow> string) \<Rightarrow> string \<Rightarrow> group_ledger \<Rightarrow> group_event \<Rightarrow>
    append_outcome res \<times> group_ledger" where
  "appendGroupEventSerialized checksum path = append_ledger (readEventLedger checksum path) gn_eventId gn_sequence
     same_group_event (group_record_for checksum)"

definition acceptable_group_event :: "group_event \<Rightarrow> bool" where
  "acceptable_group_event e \<longleftrightarrow> safe_integer (gn_sequence e) \<and> 1 \<le> gn_sequence e \<and> trim (gn_eventId e) \<noteq> [] \<and> trim (gn_groupId e) \<noteq> []"

text \<open>A line whose checksum is that of the event in it; recording writes one when the event has no undefined key.\<close>

definition intact_line :: "(group_event \<Rightarrow> string) \<Rightarrow> group_event \<Rightarrow> group_event ledger_line" where
  "intact_line checksum e = LineRecord (Some ZERO3_GROUP_EVENT_RECORD) (Some (checksum e)) (Some e)"

definition complete_event :: "group_event \<Rightarrow> bool" where
  "complete_event e \<longleftrightarrow> gn_undefined e = []"

lemma event_stored_complete [simp]: "complete_event e \<Longrightarrow> event_stored e = e"
  by (simp add: complete_event_def event_stored_def)

lemma parse_group_line_Inr_iff:
  "parse_group_line checksum source n l = Inr e \<longleftrightarrow> l = intact_line checksum e \<and> acceptable_group_event e"
  by (cases l) (auto simp: intact_line_def acceptable_group_event_def split: option.splits)

lemma recorded_line: "complete_event e \<Longrightarrow> group_record_for checksum e = intact_line checksum e"
  by (simp add: group_record_for_def intact_line_def)

text \<open>A recorded event with undefined keys cannot be read, unless they do not show in the checksum.\<close>

lemma parse_incomplete:
  assumes "checksum (event_stored e) \<noteq> checksum e"
  shows "parse_group_line checksum source n (group_record_for checksum e) =
    Inl (DurableStoreCorruptionError (source @ '':'' @ nat_text n @ '' event checksum mismatch''))"
  using assms by (simp add: group_record_for_def)

lemma readEventLedger_iff:
  "readEventLedger checksum path ls = Inr es \<longleftrightarrow>
     ls = map (intact_line checksum) es \<and> list_all acceptable_group_event es \<and>
     (\<forall>i < length es. gn_sequence (es ! i) = 1 + int i) \<and> distinct (map gn_eventId es)"
  unfolding readEventLedger_def by (rule read_ledger_records) (rule parse_group_line_Inr_iff)

interpretation group_log: append_log "readEventLedger checksum path"
  "appendGroupEventSerialized checksum path" "\<lambda>e. acceptable_group_event e \<and> complete_event e" gn_eventId gn_sequence
  for checksum path
  unfolding appendGroupEventSerialized_def
  by (rule append_ledger_log [OF _ same_group_event_refl readEventLedger_def]) (simp add: parse_group_line_Inr_iff recorded_line)

section \<open>Files\<close>

record 'a durable_file =
  df_text :: "'a durable_text option"
  df_temps :: "'a durable_text list"

record group_platform =
  gq_root :: string
  gq_definitionSum :: "group_definition \<Rightarrow> string"
  gq_stateSum :: "group_state \<Rightarrow> string"
  gq_requirementsSum :: "requirement list \<Rightarrow> string"
  gq_planSum :: "group_plan_record \<Rightarrow> string"
  gq_sessionSum :: "session_runtime \<Rightarrow> string"
  gq_deliverySum :: "delivery \<Rightarrow> string"
  gq_milestoneSum :: "milestone \<Rightarrow> string"
  gq_verificationSum :: "verification_run \<Rightarrow> string"
  gq_failureSum :: "failure_record \<Rightarrow> string"
  gq_repairSum :: "repair_task \<Rightarrow> string"
  gq_eventSum :: "group_event \<Rightarrow> string"
  gq_clock :: "nat \<Rightarrow> string"  \<comment> \<open>the n-th reading of the clock\<close>

text \<open>
  SHA-256 does not give the same checksum to a record with an undefined key and to the same record without it (their
  stable texts differ): what is known of the platform's checksums where it matters.
\<close>

definition undefined_shows :: "group_platform \<Rightarrow> bool" where
  "undefined_shows p \<longleftrightarrow>
     (\<forall>e. gn_undefined e \<noteq> [] \<longrightarrow> gq_eventSum p (event_stored e) \<noteq> gq_eventSum p e) \<and>
     (\<forall>r. sr_undefined r \<noteq> [] \<longrightarrow> gq_sessionSum p (session_stored r) \<noteq> gq_sessionSum p r)"

text \<open>The directory \<open>repair\<close> holds failures and repairs; the names of failures alone begin with \<open>failure-\<close>.\<close>

record group_files =
  gf_definition :: "group_definition durable_file"
  gf_state :: "group_state durable_file"
  gf_requirements :: "requirement list durable_file"
  gf_plan :: "group_plan_record durable_text option"
  gf_sessions :: "(string \<times> session_runtime durable_text) list"
  gf_deliveries :: "(string \<times> delivery durable_text) list"
  gf_integrations :: "(string \<times> milestone durable_text) list"
  gf_verifications :: "(string \<times> verification_run durable_text) list"
  gf_failures :: "(string \<times> failure_record durable_text) list"
  gf_repairs :: "(string \<times> repair_task durable_text) list"
  gf_events :: group_ledger

record group_world =
  gx_platform :: group_platform
  gx_groups :: "(string \<times> group_files) list"
  gx_ticks :: nat

type_synonym 'a group_eff = "(group_world, 'a) eff"

definition absent_file :: "'a durable_file" where
  "absent_file = \<lparr>df_text = None, df_temps = []\<rparr>"

definition empty_group :: group_files where
  "empty_group = \<lparr>gf_definition = absent_file, gf_state = absent_file, gf_requirements = absent_file, gf_plan = None, gf_sessions = [],
     gf_deliveries = [], gf_integrations = [], gf_verifications = [], gf_failures = [], gf_repairs = [], gf_events = []\<rparr>"

definition group_at :: "group_world \<Rightarrow> string \<Rightarrow> group_files" where
  "group_at w dir = (case map_of (gx_groups w) dir of None \<Rightarrow> empty_group | Some f \<Rightarrow> f)"

definition put_group :: "string \<Rightarrow> group_files \<Rightarrow> group_world \<Rightarrow> group_world" where
  "put_group dir f w = w\<lparr>gx_groups := AList.update dir f (gx_groups w)\<rparr>"

text \<open>Changing the files of a group; writing a file makes the directories above it.\<close>

definition in_group :: "string \<Rightarrow> (group_platform \<Rightarrow> group_files \<Rightarrow> group_files) \<Rightarrow> unit group_eff" where
  "in_group dir f = modify (\<lambda>w. put_group dir (f (gx_platform w) (group_at w dir)) w)"

definition group_now :: "string group_eff" where
  "group_now = bnd (gets (\<lambda>w. gq_clock (gx_platform w) (gx_ticks w))) (\<lambda>t.
     bnd (modify (\<lambda>w. w\<lparr>gx_ticks := Suc (gx_ticks w)\<rparr>)) (\<lambda>_. ret t))"

definition assertSafeId :: "string \<Rightarrow> string \<Rightarrow> string res" where
  "assertSafeId v name = (let n = trim v in
     if n = [] \<or> n = ''.'' \<or> n = ''..'' \<or> list_ex (\<lambda>c. c = CHR ''/'' \<or> c = CHR 0x5C \<or> c = CHR 0x00) n
     then Inl (Error (name @ '' is not a safe path segment'')) else Inr n)"

definition groupDir :: "string \<Rightarrow> string group_eff" where
  "groupDir g = lift_res (assertSafeId g ''groupId'')"

definition group_path :: "group_platform \<Rightarrow> string \<Rightarrow> string \<Rightarrow> string" where
  "group_path p dir relative = gq_root p @ ''/'' @ dir @ ''/'' @ relative"

definition read_text :: "(group_platform \<Rightarrow> 'a \<Rightarrow> string) \<Rightarrow> string \<Rightarrow> string \<Rightarrow> (group_files \<Rightarrow> 'a durable_text option) \<Rightarrow> 'a group_eff" where
  "read_text cks dir name file = bnd (gets (\<lambda>w. case file (group_at w dir) of None \<Rightarrow> Inl NoEntry
     | Some t \<Rightarrow> parse_durable_envelope (cks (gx_platform w)) (group_path (gx_platform w) dir name) t)) lift_res"

section \<open>Loading and writing\<close>

definition loadDefinition_group :: "string \<Rightarrow> group_definition group_eff" where
  "loadDefinition_group g = bnd (groupDir g) (\<lambda>dir. read_text gq_definitionSum dir ''definition.json'' (df_text \<circ> gf_definition))"

definition loadState :: "string \<Rightarrow> group_state group_eff" where
  "loadState g = bnd (groupDir g) (\<lambda>dir. read_text gq_stateSum dir ''state.json'' (df_text \<circ> gf_state))"

definition loadRequirements :: "string \<Rightarrow> requirement list group_eff" where
  "loadRequirements g = bnd (groupDir g) (\<lambda>dir. read_text gq_requirementsSum dir ''requirements.json'' (df_text \<circ> gf_requirements))"

definition save_file :: "('a \<Rightarrow> string) \<Rightarrow> ('a \<Rightarrow> 'a) \<Rightarrow> 'a \<Rightarrow> 'a durable_file \<Rightarrow> 'a durable_file" where
  "save_file cks json v f = f\<lparr>df_text := Some (written_text cks json v)\<rparr>"

definition writeState :: "group_state \<Rightarrow> unit group_eff" where
  "writeState st = bnd (groupDir (gs_groupId st)) (\<lambda>dir. in_group dir (\<lambda>p f. f\<lparr>gf_state := save_file (gq_stateSum p) state_stored st (gf_state f)\<rparr>))"

definition writeRequirements :: "string \<Rightarrow> requirement list \<Rightarrow> unit group_eff" where
  "writeRequirements g rs = bnd (require_that (\<not> list_ex (\<lambda>r. rq_groupId r \<noteq> g) rs) (Error ''requirement group mismatch'')) (\<lambda>_.
     bnd (groupDir g) (\<lambda>dir. in_group dir (\<lambda>p f. f\<lparr>gf_requirements := save_file (gq_requirementsSum p) (map requirement_stored) rs (gf_requirements f)\<rparr>)))"

text \<open>Records that have a file of their own in one of the directories.\<close>

definition put_record :: "('a \<Rightarrow> string) \<Rightarrow> ('a \<Rightarrow> 'a) \<Rightarrow> string \<Rightarrow> 'a \<Rightarrow> (string \<times> 'a durable_text) list \<Rightarrow>
    (string \<times> 'a durable_text) list" where
  "put_record cks json k v = AList.update k (written_text cks json v)"

definition writeSession :: "session_runtime \<Rightarrow> unit group_eff" where
  "writeSession r = bnd (groupDir (sr_groupId r)) (\<lambda>dir. bnd (lift_res (assertSafeId (sr_sessionId r) ''sessionId'')) (\<lambda>k.
     in_group dir (\<lambda>p f. f\<lparr>gf_sessions := put_record (gq_sessionSum p) session_stored k r (gf_sessions f)\<rparr>)))"

definition loadSession :: "string \<Rightarrow> string \<Rightarrow> session_runtime group_eff" where
  "loadSession g s = bnd (groupDir g) (\<lambda>dir. bnd (lift_res (assertSafeId s ''sessionId'')) (\<lambda>k.
     read_text gq_sessionSum dir (''sessions/'' @ k @ ''.json'') (\<lambda>f. map_of (gf_sessions f) k)))"

definition writeDelivery :: "delivery \<Rightarrow> unit group_eff" where
  "writeDelivery d = bnd (groupDir (dl_groupId d)) (\<lambda>dir. bnd (lift_res (assertSafeId (dl_sessionId d) ''sessionId'')) (\<lambda>k.
     in_group dir (\<lambda>p f. f\<lparr>gf_deliveries := put_record (gq_deliverySum p) id k d (gf_deliveries f)\<rparr>)))"

definition loadDelivery :: "string \<Rightarrow> string \<Rightarrow> delivery group_eff" where
  "loadDelivery g s = bnd (groupDir g) (\<lambda>dir. bnd (lift_res (assertSafeId s ''sessionId'')) (\<lambda>k.
     read_text gq_deliverySum dir (''deliveries/'' @ k @ ''.json'') (\<lambda>f. map_of (gf_deliveries f) k)))"

definition writeIntegration :: "milestone \<Rightarrow> unit group_eff" where
  "writeIntegration r = bnd (groupDir (ml_groupId r)) (\<lambda>dir. bnd (lift_res (assertSafeId (ml_integrationRunId r) ''integrationRunId'')) (\<lambda>k.
     in_group dir (\<lambda>p f. f\<lparr>gf_integrations := put_record (gq_milestoneSum p) id k r (gf_integrations f)\<rparr>)))"

definition writeVerification :: "verification_run \<Rightarrow> unit group_eff" where
  "writeVerification r = bnd (groupDir (vn_groupId r)) (\<lambda>dir. bnd (lift_res (assertSafeId (vn_runId r) ''verificationRunId'')) (\<lambda>k.
     in_group dir (\<lambda>p f. f\<lparr>gf_verifications := put_record (gq_verificationSum p) id k r (gf_verifications f)\<rparr>)))"

definition writeFailure :: "failure_record \<Rightarrow> unit group_eff" where
  "writeFailure r = bnd (groupDir (fr_groupId r)) (\<lambda>dir. bnd (lift_res (assertSafeId (fr_failureId r) ''failureId'')) (\<lambda>k.
     in_group dir (\<lambda>p f. f\<lparr>gf_failures := put_record (gq_failureSum p) failure_stored k r (gf_failures f)\<rparr>)))"

definition writeRepair :: "repair_task \<Rightarrow> unit group_eff" where
  "writeRepair r = bnd (groupDir (rt_groupId r)) (\<lambda>dir. bnd (lift_res (assertSafeId (rt_repairTaskId r) ''repairTaskId'')) (\<lambda>k.
     in_group dir (\<lambda>p f. f\<lparr>gf_repairs := put_record (gq_repairSum p) id k r (gf_repairs f)\<rparr>)))"

definition appendEvent_group :: "group_event \<Rightarrow> append_outcome group_eff" where
  "appendEvent_group e = bnd (groupDir (gn_groupId e)) (\<lambda>dir w.
     let p = gx_platform w; f = group_at w dir;
         (r, ledger) = appendGroupEventSerialized (gq_eventSum p) (group_path p dir ''events.jsonl'') (gf_events f) e
     in (r, if r = Inr Appended then put_group dir (f\<lparr>gf_events := ledger\<rparr>) w else w))"

definition readEvents_group :: "string \<Rightarrow> group_event list group_eff" where
  "readEvents_group g = bnd (groupDir g) (\<lambda>dir. bnd (gets (\<lambda>w. readEventLedger (gq_eventSum (gx_platform w))
     (group_path (gx_platform w) dir ''events.jsonl'') (gf_events (group_at w dir)))) lift_res)"

definition nextEventSequence :: "string \<Rightarrow> int group_eff" where
  "nextEventSequence dir = bnd (gets (\<lambda>w. readEventLedger (gq_eventSum (gx_platform w))
     (group_path (gx_platform w) dir ''events.jsonl'') (gf_events (group_at w dir)))) (\<lambda>r.
     bnd (lift_res r) (\<lambda>es. ret (int (length es) + 1)))"

definition listGroupIds :: "string list group_eff" where
  "listGroupIds = gets (\<lambda>w. sort (map fst (gx_groups w)))"

text \<open>The files of a new group are written side by side; nothing else writes to the directory that was just made.\<close>

definition initialize_group :: "group_definition \<Rightarrow> group_state \<Rightarrow> requirement list \<Rightarrow> unit group_eff" where
  "initialize_group d st rs =
     bnd (require_that (gd_groupId d = gs_groupId st \<and> \<not> list_ex (\<lambda>r. rq_groupId r \<noteq> gd_groupId d) rs)
       (Error ''group initialization identity mismatch'')) (\<lambda>_.
     bnd (groupDir (gd_groupId d)) (\<lambda>dir.
     bnd (gets (\<lambda>w. map_of (gx_groups w) dir = None)) (\<lambda>free.
     bnd (require_that free (Error (''Development Group already exists: '' @ gd_groupId d))) (\<lambda>_.
     in_group dir (\<lambda>p f. f\<lparr>gf_definition := save_file (gq_definitionSum p) id d (gf_definition f),
       gf_state := save_file (gq_stateSum p) state_stored st (gf_state f),
       gf_requirements := save_file (gq_requirementsSum p) (map requirement_stored) rs (gf_requirements f)\<rparr>)))))"

section \<open>Recovery\<close>

record group_reconcile =
  gr2_groupId :: string
  gr2_eventCount :: int
  gr2_stateEventSequence :: int
  gr2_needsSemanticReplay :: bool
  gr2_recoveredFiles :: "string list"

text \<open>\<open>recoverInterruptedWrite\<close> on one of the files; a group without a directory has nothing to recover.\<close>

definition recover_group_file :: "(group_platform \<Rightarrow> 'a \<Rightarrow> string) \<Rightarrow> (group_files \<Rightarrow> 'a durable_file) \<Rightarrow>
    ('a durable_file \<Rightarrow> group_files \<Rightarrow> group_files) \<Rightarrow> string \<Rightarrow> string \<Rightarrow> string list group_eff" where
  "recover_group_file cks sel upd dir name = (\<lambda>w.
     let p = gx_platform w; f = group_at w dir in
     case recover_write (cks p) (group_path p dir name) (df_text (sel f)) (df_temps (sel f)) of
       (r, text', temps) \<Rightarrow> (case r of Inl e \<Rightarrow> Inl e | Inr k \<Rightarrow> Inr (if k = RecoveryRecovered then [name] else []),
         if map_of (gx_groups w) dir = None then w else put_group dir (upd \<lparr>df_text = text', df_temps = temps\<rparr> f) w))"

definition reconcile_group :: "string \<Rightarrow> group_reconcile group_eff" where
  "reconcile_group g =
     bnd (groupDir g) (\<lambda>dir.
     bnd (recover_group_file gq_definitionSum gf_definition (\<lambda>x f. f\<lparr>gf_definition := x\<rparr>) dir ''definition.json'') (\<lambda>r1.
     bnd (recover_group_file gq_stateSum gf_state (\<lambda>x f. f\<lparr>gf_state := x\<rparr>) dir ''state.json'') (\<lambda>r2.
     bnd (recover_group_file gq_requirementsSum gf_requirements (\<lambda>x f. f\<lparr>gf_requirements := x\<rparr>) dir ''requirements.json'') (\<lambda>r3.
     bnd (loadDefinition_group g) (\<lambda>d.
     bnd (loadState g) (\<lambda>st.
     bnd (loadRequirements g) (\<lambda>rs.
     bnd (readEvents_group g) (\<lambda>events.
     bnd (require_that (gd_groupId d = g \<and> gs_groupId st = g \<and> \<not> list_ex (\<lambda>r. rq_groupId r \<noteq> g) rs)
       (DurableStoreCorruptionError (''Development Group '' @ g @ '' contains cross-group durable records''))) (\<lambda>_.
     let last = gs_lastEventSequence st; n = int (length events) in
     bnd (require_that (\<not> last > n) (DurableStoreCorruptionError
       (''state sequence '' @ int_text last @ '' is ahead of durable ledger '' @ int_text n))) (\<lambda>_.
     ret \<lparr>gr2_groupId = g, gr2_eventCount = n, gr2_stateEventSequence = last, gr2_needsSemanticReplay = (last < n),
       gr2_recoveredFiles = r1 @ r2 @ r3\<rparr>))))))))))"

end
