(* ===== verification/GroupController.thy ===== *)
theory GroupController
  imports GroupStore GroupScheduler
begin

text \<open>
  \<open>group-runtime/controller/group-controller.ts\<close>: the state of a group is the reduction of its event ledger, and every
  change of it is an event first. \<open>group-runtime/workspace/session-worktree.ts\<close> and the first state of a session
  (\<open>initialSessionRuntime\<close>) belong to what the controller does for a session.

  The controller runs its recordings one after the other; a recording is an effect on the store.
\<close>

section \<open>The state of a group\<close>

definition ZERO3_GROUP_PLAN_RECORD :: string where
  "ZERO3_GROUP_PLAN_RECORD = ''zero3.pilot.group-plan-record.v1''"

definition initialState :: "string \<Rightarrow> string \<Rightarrow> group_state" where
  "initialState g t = \<lparr>gs_groupId = g, gs_status = GPlanning, gs_activeWaveId = None, gs_integrationSha = None,
     gs_lastEventSequence = 0, gs_unresolvedBlockers = [], gs_outcomeUnknownCount = 0, gs_repairWaveCount = 0, gs_updatedAt = t,
     gs_undefined = []\<rparr>"

definition add_blocker :: "string option \<Rightarrow> string list \<Rightarrow> string list" where
  "add_blocker detail bs = (case detail of None \<Rightarrow> bs | Some d \<Rightarrow> if d = [] \<or> d \<in> set bs then bs else bs @ [d])"

fun event_effect :: "group_event \<Rightarrow> group_event_type \<Rightarrow> group_state \<Rightarrow> group_state" where
  "event_effect e GroupCreated s = s\<lparr>gs_status := GPlanning\<rparr>"
| "event_effect e PlanFrozen s = s\<lparr>gs_status := GReady\<rparr>"
| "event_effect e WaveStarted s = s\<lparr>gs_status := GRunning, gs_activeWaveId := gn_waveId e,
     gs_undefined := undefined_keys [(''activeWaveId'', gn_waveId e)]\<rparr>"
| "event_effect e SessionBlocked s = s\<lparr>gs_status := GBlocked, gs_unresolvedBlockers := add_blocker (gn_detail e) (gs_unresolvedBlockers s)\<rparr>"
| "event_effect e SessionDelivered s = s\<lparr>gs_status := GRunning\<rparr>"
| "event_effect e IntegrationStarted s = s\<lparr>gs_status := GIntegrating\<rparr>"
| "event_effect e IntegrationMerged s = s\<lparr>gs_status := GVerifying\<rparr>"
| "event_effect e VerificationStarted s = s\<lparr>gs_status := GVerifying\<rparr>"
| "event_effect e VerificationFailedEvent s = s\<lparr>gs_status := GRepairing\<rparr>"
| "event_effect e RepairCreated s = s\<lparr>gs_status := GRepairing, gs_repairWaveCount := gs_repairWaveCount s + 1\<rparr>"
| "event_effect e GroupCompleted s = s\<lparr>gs_status := GCompleted\<rparr>"
| "event_effect e SessionCreated s = s"
| "event_effect e SessionStarted s = s"
| "event_effect e DeliveryRejected s = s"

definition apply_group_event :: "group_event \<Rightarrow> group_state \<Rightarrow> group_state" where
  "apply_group_event e s = (event_effect e (gn_type e) s)\<lparr>gs_lastEventSequence := gn_sequence e, gs_updatedAt := gn_at e\<rparr>"

fun reduceGroupEvents :: "group_state \<Rightarrow> group_event list \<Rightarrow> group_state res" where
  "reduceGroupEvents s [] = Inr s"
| "reduceGroupEvents s (e # es) =
     (if gn_sequence e \<le> gs_lastEventSequence s then reduceGroupEvents s es
      else if gn_sequence e \<noteq> gs_lastEventSequence s + 1
      then Inl (Error (''group event sequence gap: expected '' @ int_text (gs_lastEventSequence s + 1) @ '', got '' @ int_text (gn_sequence e)))
      else if gn_groupId e \<noteq> gs_groupId s then Inl (Error ''cross-group event during state reduction'')
      else reduceGroupEvents (apply_group_event e s) es)"

section \<open>The controller\<close>

definition loadPlan :: "string \<Rightarrow> planning_proposal group_eff" where
  "loadPlan g = bnd (groupDir g) (\<lambda>dir. bnd (read_text gq_planSum dir ''plan.json'' gf_plan) (\<lambda>r.
     bnd (require_that (gl_schema r = ZERO3_GROUP_PLAN_RECORD \<and> gd_groupId (pp_definition (gl_proposal r)) = g)
       (Error ''invalid persisted Development Group plan'')) (\<lambda>_. ret (gl_proposal r))))"

definition resumeGroup_controller :: "string \<Rightarrow> group_state group_eff" where
  "resumeGroup_controller g = bnd (reconcile_group g) (\<lambda>r. bnd (loadState g) (\<lambda>st.
     if \<not> gr2_needsSemanticReplay r then ret st
     else bnd (readEvents_group g) (\<lambda>es. bnd (lift_res (reduceGroupEvents st es)) (\<lambda>st'.
       bnd (writeState st') (\<lambda>_. ret st')))))"

text \<open>A recording appends the event, then reduces the state by it and writes the state.\<close>

definition record_append :: "string \<Rightarrow> group_event_type \<Rightarrow> string option \<Rightarrow> string option \<Rightarrow> string option \<Rightarrow> group_event group_eff" where
  "record_append g t sessionId waveId detail =
     bnd (groupDir g) (\<lambda>dir. bnd (nextEventSequence dir) (\<lambda>n. bnd group_now (\<lambda>now.
     let e = \<lparr>gn_eventId = g @ '':'' @ int_text n @ '':'' @ group_event_text t, gn_sequence = n, gn_at = now, gn_groupId = g,
       gn_type = t, gn_sessionId = sessionId, gn_waveId = waveId, gn_payloadHash = None, gn_detail = detail,
       gn_undefined = undefined_keys [(''sessionId'', sessionId), (''waveId'', waveId), (''detail'', detail)]\<rparr> in
     bnd (appendEvent_group e) (\<lambda>_. ret e))))"

definition record_event :: "string \<Rightarrow> group_event_type \<Rightarrow> string option \<Rightarrow> string option \<Rightarrow> string option \<Rightarrow> group_state group_eff" where
  "record_event g t sessionId waveId detail =
     bnd (record_append g t sessionId waveId detail) (\<lambda>e. bnd (loadState g) (\<lambda>st.
     bnd (lift_res (reduceGroupEvents st [e])) (\<lambda>st'. bnd (writeState st') (\<lambda>_. ret st'))))"

definition initialSessionRuntime :: "session_definition \<Rightarrow> string \<Rightarrow> session_runtime" where
  "initialSessionRuntime s t = \<lparr>sr_groupId = se_groupId s, sr_sessionId = se_sessionId s, sr_executionId = se_executionId s,
     sr_status = (if se_dependencies s \<noteq> [] then DWaitingDependencies else DReady), sr_attempt = 0, sr_writerGeneration = 1,
     sr_executorId = None, sr_executorSessionId = None, sr_executorGeneration = None, sr_headSha = None, sr_lastEventSequence = 0,
     sr_blocker = None, sr_updatedAt = t, sr_undefined = []\<rparr>"

definition write_plan :: "planning_proposal \<Rightarrow> unit group_eff" where
  "write_plan plan = bnd (groupDir (gd_groupId (pp_definition plan))) (\<lambda>dir. in_group dir (\<lambda>p f. f\<lparr>gf_plan :=
     Some (written_text (gq_planSum p) plan_stored \<lparr>gl_schema = ZERO3_GROUP_PLAN_RECORD, gl_proposal = plan\<rparr>)\<rparr>))"

definition createGroup :: "planning_platform \<Rightarrow> planning_request \<Rightarrow> controller_proposal \<Rightarrow> string option \<Rightarrow> string option \<Rightarrow>
    planning_proposal group_eff" where
  "createGroup pt q c groupId createdAt =
     bnd (lift_res (compilePlanningProposal pt q c groupId createdAt)) (\<lambda>plan.
     let d = pp_definition plan; g = gd_groupId d in
     bnd (initialize_group d (initialState g (gd_createdAt d)) (pp_requirements plan)) (\<lambda>_.
     bnd (write_plan plan) (\<lambda>_.
     bnd (for_each (pp_sessions plan) (\<lambda>s _. writeSession (initialSessionRuntime s (gd_createdAt d))) ()) (\<lambda>_.
     bnd (record_event g GroupCreated None None None) (\<lambda>_.
     bnd (record_event g PlanFrozen None None (Some (''plan_hash='' @ gd_planHash d))) (\<lambda>_.
     ret plan))))))"

definition load_sessions :: "string \<Rightarrow> session_definition list \<Rightarrow> session_runtime list group_eff" where
  "load_sessions g ss = for_each ss (\<lambda>s acc. bnd (loadSession g (se_sessionId s)) (\<lambda>r. ret (acc @ [r]))) []"

text \<open>Every question gets a scheduler of its own.\<close>

definition schedule_group :: "string \<Rightarrow> evidence_map \<Rightarrow> int \<Rightarrow> schedule group_eff" where
  "schedule_group g ev running = bnd (loadPlan g) (\<lambda>plan. bnd (load_sessions g (pp_sessions plan)) (\<lambda>rts.
     bnd (lift_res (new_scheduler (gd_policy (pp_definition plan)) (pp_sessions plan) (pp_waves plan))) (\<lambda>d.
     lift_res (fst (schedule_snapshot rts ev running d)))))"

section \<open>Worktrees\<close>

text \<open>The path module of the platform.\<close>

record path_module =
  pm_resolve :: "string list \<Rightarrow> string"
  pm_isAbsolute :: "string \<Rightarrow> bool"

definition resolveSessionWorktree :: "path_module \<Rightarrow> group_definition \<Rightarrow> session_definition \<Rightarrow> session_definition res" where
  "resolveSessionWorktree pm d s =
     (if se_groupId s \<noteq> gd_groupId d then Inl (Error ''Development Session worktree group identity mismatch'')
      else Inr (s\<lparr>se_worktree := (if pm_isAbsolute pm (se_worktree s) then pm_resolve pm [se_worktree s]
        else pm_resolve pm [pm_resolve pm [gd_repository d], se_worktree s])\<rparr>))"

end
