(* ===== verification/GroupControllerCorrectness.thy ===== *)
theory GroupControllerCorrectness
  imports GroupController GroupPlanningCorrectness
begin

text \<open>The properties of the group controller: its state is a reduction of the ledger; a crash between the two writes of a recording
  is repaired by resuming, when every event names a session, a wave and a detail; and an event that leaves one of them out
  cannot be read back, which blocks the group and makes its creation throw.\<close>

section \<open>Reducing events\<close>

lemma reduce_append:
  "reduceGroupEvents s (as @ bs) = (case reduceGroupEvents s as of Inl e \<Rightarrow> Inl e | Inr t \<Rightarrow> reduceGroupEvents t bs)"
  by (induction as arbitrary: s) auto

lemma reduce_known: "\<forall>e \<in> set es. gn_sequence e \<le> gs_lastEventSequence s \<Longrightarrow> reduceGroupEvents s es = Inr s"
  by (induction es) auto

lemma apply_event_simps [simp]:
  "gs_groupId (apply_group_event e s) = gs_groupId s"
  "gs_lastEventSequence (apply_group_event e s) = gn_sequence e"
  by (cases "gn_type e"; simp add: apply_group_event_def)+

definition numbered_from :: "int \<Rightarrow> group_event list \<Rightarrow> bool" where
  "numbered_from n es \<longleftrightarrow> (\<forall>i < length es. gn_sequence (es ! i) = n + int i)"

lemma numbered_Cons: "numbered_from n (e # es) \<longleftrightarrow> gn_sequence e = n \<and> numbered_from (n + 1) es"
  by (auto simp: numbered_from_def All_less_Suc2 algebra_simps)

lemma numbered_Nil [simp]: "numbered_from n []"
  by (simp add: numbered_from_def)

lemma numbered_append: "numbered_from n (as @ bs) \<longleftrightarrow> numbered_from n as \<and> numbered_from (n + int (length as)) bs"
  by (induction as arbitrary: n) (auto simp: numbered_Cons algebra_simps)

text \<open>Numbered events of the group reduce without an error, to the number of the last one.\<close>

lemma reduce_numbered:
  "numbered_from (gs_lastEventSequence s + 1) es \<Longrightarrow> \<forall>e \<in> set es. gn_groupId e = gs_groupId s \<Longrightarrow>
     reduceGroupEvents s es = Inr (fold apply_group_event es s) \<and>
     gs_lastEventSequence (fold apply_group_event es s) = gs_lastEventSequence s + int (length es) \<and>
     gs_groupId (fold apply_group_event es s) = gs_groupId s"
proof (induction es arbitrary: s)
  case (Cons e es)
  then show ?case using Cons.IH [of "apply_group_event e s"] by (simp add: numbered_Cons)
qed simp

lemma reduce_ledger:
  assumes "numbered_from 1 es" "\<forall>e \<in> set es. gn_groupId e = gs_groupId s" "gs_lastEventSequence s = int n" "n \<le> length es"
  shows "reduceGroupEvents s es = Inr (fold apply_group_event (drop n es) s)"
    "gs_lastEventSequence (fold apply_group_event (drop n es) s) = int (length es)"
    "gs_groupId (fold apply_group_event (drop n es) s) = gs_groupId s"
proof -
  have split: "numbered_from 1 (take n es @ drop n es)" using assms(1) by simp
  then have n: "numbered_from 1 (take n es)" "numbered_from (1 + int n) (drop n es)"
    unfolding numbered_append using assms(4) by (auto simp: min_absorb2)
  have "\<forall>e \<in> set (take n es). gn_sequence e \<le> gs_lastEventSequence s"
    using n(1) assms(3,4) by (auto simp: numbered_from_def in_set_conv_nth)
  then have "reduceGroupEvents s (take n es) = Inr s" by (rule reduce_known)
  then have "reduceGroupEvents s es = reduceGroupEvents s (drop n es)"
    using reduce_append [of s "take n es" "drop n es"] by simp
  with reduce_numbered [of s "drop n es"] n(2) assms
  show "reduceGroupEvents s es = Inr (fold apply_group_event (drop n es) s)"
    "gs_lastEventSequence (fold apply_group_event (drop n es) s) = int (length es)"
    "gs_groupId (fold apply_group_event (drop n es) s) = gs_groupId s"
    by (auto dest: in_set_dropD simp: add.commute)
qed

section \<open>The files of a group\<close>

lemma group_at_put [simp]: "group_at (put_group d f w) d' = (if d' = d then f else group_at w d')"
  by (simp add: group_at_def put_group_def update_conv')

lemma put_group_platform [simp]: "gx_platform (put_group d f w) = gx_platform w" "gx_ticks (put_group d f w) = gx_ticks w"
  by (simp_all add: put_group_def)

lemma alist_update_same: "map_of xs k = Some v \<Longrightarrow> AList.update k v xs = xs"
  by (induction xs) (auto split: if_splits)

lemma alist_update_twice: "AList.update k v (AList.update k u xs) = AList.update k v xs"
  by (induction xs) auto

lemma put_group_twice [simp]: "put_group d f (put_group d f' w) = put_group d f w"
  by (simp add: put_group_def alist_update_twice)

lemma put_group_same: "map_of (gx_groups w) d \<noteq> None \<Longrightarrow> put_group d (group_at w d) w = w"
  by (auto simp: put_group_def group_at_def alist_update_same)

lemma put_group_present [simp]: "map_of (gx_groups (put_group d f w)) d' \<noteq> None \<longleftrightarrow> d' = d \<or> map_of (gx_groups w) d' \<noteq> None"
  by (auto simp: put_group_def update_conv')

lemma put_group_found [simp]: "map_of (gx_groups (put_group d f w)) d = Some f"
  by (simp add: put_group_def update_conv')

text \<open>A group whose three files are intact and whose ledger holds its own numbered events, as the controller names them.\<close>

definition event_named :: "group_event \<Rightarrow> bool" where
  "event_named e \<longleftrightarrow> gn_eventId e = gn_groupId e @ '':'' @ int_text (gn_sequence e) @ '':'' @ group_event_text (gn_type e)"

definition intact :: "('a \<Rightarrow> string) \<Rightarrow> 'a \<Rightarrow> 'a durable_file \<Rightarrow> bool" where
  "intact cks v f \<longleftrightarrow> f = \<lparr>df_text = Some (durable_envelope cks v), df_temps = []\<rparr>"

definition ledger_ok :: "group_platform \<Rightarrow> string \<Rightarrow> group_event list \<Rightarrow> group_ledger \<Rightarrow> bool" where
  "ledger_ok p g es ls \<longleftrightarrow> ls = map (intact_line (gq_eventSum p)) es \<and> list_all acceptable_group_event es \<and>
     numbered_from 1 es \<and> (\<forall>e \<in> set es. gn_groupId e = g \<and> event_named e \<and> gn_waveId e \<noteq> None)"

definition files_ok :: "group_platform \<Rightarrow> string \<Rightarrow> group_event list \<Rightarrow> group_state \<Rightarrow> group_files \<Rightarrow> bool" where
  "files_ok p g es st f \<longleftrightarrow> (\<exists>d rs. intact (gq_definitionSum p) d (gf_definition f) \<and> gd_groupId d = g \<and>
     intact (gq_requirementsSum p) rs (gf_requirements f) \<and> (\<forall>r \<in> set rs. rq_groupId r = g)) \<and>
     intact (gq_stateSum p) st (gf_state f) \<and> gs_undefined st = [] \<and> gs_groupId st = g \<and> ledger_ok p g es (gf_events f) \<and>
     0 \<le> gs_lastEventSequence st \<and> gs_lastEventSequence st \<le> int (length es)"

definition group_ok :: "string \<Rightarrow> group_event list \<Rightarrow> group_state \<Rightarrow> group_world \<Rightarrow> bool" where
  "group_ok g es st w \<longleftrightarrow> (\<exists>dir. assertSafeId g ''groupId'' = Inr dir \<and> map_of (gx_groups w) dir \<noteq> None \<and>
     files_ok (gx_platform w) g es st (group_at w dir))"

lemma groupDir_run: "assertSafeId g ''groupId'' = Inr dir \<Longrightarrow> groupDir g = ret dir"
  by (simp add: groupDir_def)

lemma read_text_run:
  "file (group_at w dir) = Some (durable_envelope (cks (gx_platform w)) v) \<Longrightarrow> read_text cks dir name file w = (Inr v, w)"
  by (simp add: read_text_def bnd_run gets_def lift_res_def)

lemma nat_text_digits: "c \<in> set (nat_text n) \<Longrightarrow> c \<in> set ''0123456789''"
proof (induction n rule: nat_text.induct)
  case (1 n)
  define D where "D = set ''0123456789''"
  have digit: "m < 10 \<Longrightarrow> digit m \<in> D" for m unfolding digit_def D_def by (rule nth_mem) simp
  have "c \<in> D"
  proof (cases "n < 10")
    case True
    with 1(2) digit show ?thesis by (subst (asm) nat_text.simps) simp
  next
    case False
    with 1(2) have "c \<in> set (nat_text (n div 10)) \<or> c = digit (n mod 10)" by (subst (asm) nat_text.simps) auto
    with 1(1) [OF False] digit [of "n mod 10"] show ?thesis unfolding D_def by auto
  qed
  then show ?case by (simp only: D_def)
qed

text \<open>The number of a named event can be read off its id.\<close>

definition id_number :: "string \<Rightarrow> string \<Rightarrow> nat" where
  "id_number g i = read_digits (takeWhile (\<lambda>c. c \<noteq> CHR '':'') (drop (Suc (length g)) i))"

lemma id_number_named:
  assumes "event_named e" "0 \<le> gn_sequence e"
  shows "id_number (gn_groupId e) (gn_eventId e) = nat (gn_sequence e)"
proof -
  have "\<forall>c \<in> set (nat_text (nat (gn_sequence e))). c \<noteq> CHR '':''" by (auto dest: nat_text_digits)
  then have "takeWhile (\<lambda>c. c \<noteq> CHR '':'') (nat_text (nat (gn_sequence e)) @ '':'' @ group_event_text (gn_type e)) =
      nat_text (nat (gn_sequence e))" by (simp add: takeWhile_append2)
  then show ?thesis using assms by (simp add: id_number_def event_named_def int_text_def)
qed

lemma named_distinct:
  assumes "numbered_from n es" "0 \<le> n" "\<forall>e \<in> set es. gn_groupId e = g \<and> event_named e \<and> P e"
  shows "distinct (map gn_eventId es)"
proof -
  have "gn_eventId (es ! i) \<noteq> gn_eventId (es ! j)" if "i < length es" "j < length es" "i \<noteq> j" for i j
  proof
    assume same: "gn_eventId (es ! i) = gn_eventId (es ! j)"
    have "id_number g (gn_eventId (es ! k)) = nat (n + int k)" if "k < length es" for k
      using id_number_named [of "es ! k"] assms that by (auto simp: numbered_from_def)
    with same that assms(2) show False by (metis (no_types) nat_int_add nat_0_le add_left_cancel of_nat_eq_iff int_nat_eq of_nat_0_le_iff add_nonneg_nonneg)
  qed
  then show ?thesis by (auto simp: distinct_conv_nth)
qed

lemma ledger_reads: "ledger_ok p g es ls \<Longrightarrow> readEventLedger (gq_eventSum p) path ls = Inr es"
  using named_distinct [of 1 es g "\<lambda>e. gn_waveId e \<noteq> None"]
  by (auto simp: ledger_ok_def readEventLedger_iff numbered_from_def)


section \<open>Running the controller\<close>

definition with_event :: "string \<Rightarrow> group_event \<Rightarrow> group_world \<Rightarrow> group_world" where
  "with_event dir e w = put_group dir ((group_at w dir)\<lparr>gf_events := gf_events (group_at w dir) @ [group_record_for (gq_eventSum (gx_platform w)) e]\<rparr>) w"

definition with_state :: "string \<Rightarrow> group_state \<Rightarrow> group_world \<Rightarrow> group_world" where
  "with_state dir st w = put_group dir ((group_at w dir)\<lparr>gf_state := save_file (gq_stateSum (gx_platform w)) state_stored st (gf_state (group_at w dir))\<rparr>) w"

lemma with_simps [simp]:
  "gx_platform (with_event dir e w) = gx_platform w" "gx_platform (with_state dir st w) = gx_platform w"
  "map_of (gx_groups (with_event dir e w)) dir \<noteq> None" "map_of (gx_groups (with_state dir st w)) dir \<noteq> None"
  by (simp_all add: with_event_def with_state_def del: not_None_eq)

text \<open>The event a recording appends.\<close>

definition new_event :: "group_world \<Rightarrow> string \<Rightarrow> group_event list \<Rightarrow> group_event_type \<Rightarrow> string option \<Rightarrow> string option \<Rightarrow> string option \<Rightarrow> group_event" where
  "new_event w g es t s v d = (let n = int (length es) + 1 in
     \<lparr>gn_eventId = g @ '':'' @ int_text n @ '':'' @ group_event_text t, gn_sequence = n, gn_at = gq_clock (gx_platform w) (gx_ticks w),
      gn_groupId = g, gn_type = t, gn_sessionId = s, gn_waveId = v, gn_payloadHash = None, gn_detail = d,
      gn_undefined = undefined_keys [(''sessionId'', s), (''waveId'', v), (''detail'', d)]\<rparr>)"

definition ticked :: "group_world \<Rightarrow> group_world" where
  "ticked w = w\<lparr>gx_ticks := Suc (gx_ticks w)\<rparr>"

lemma ticked_simps [simp]: "gx_platform (ticked w) = gx_platform w" "gx_groups (ticked w) = gx_groups w" "group_at (ticked w) d = group_at w d"
  by (simp_all add: ticked_def group_at_def)

lemma trim_colon: "CHR '':'' \<in> set s \<Longrightarrow> trim s \<noteq> []"
proof -
  have "\<not> js_space (CHR '':'')" by code_simp
  then show "CHR '':'' \<in> set s \<Longrightarrow> trim s \<noteq> []" unfolding trim_Nil_iff by blast
qed

lemma new_event_ok:
  assumes "assertSafeId g ''groupId'' = Inr dir" "int (length es) < MAX_SAFE_INTEGER"
  shows "acceptable_group_event (new_event w g es t s v d)" "event_named (new_event w g es t s v d)"
    "gn_groupId (new_event w g es t s v d) = g" "gn_sequence (new_event w g es t s v d) = int (length es) + 1"
  using assms
  by (auto simp: new_event_def Let_def acceptable_group_event_def event_named_def safe_integer_def assertSafeId_def MAX_SAFE_INTEGER_def
      intro!: trim_colon split: if_splits)

lemma ledger_ok_append:
  assumes "ledger_ok p g es ls" "acceptable_group_event e" "event_named e" "gn_groupId e = g" "gn_sequence e = int (length es) + 1"
    and "complete_event e" "gn_waveId e \<noteq> None"
  shows "ledger_ok p g (es @ [e]) (ls @ [group_record_for (gq_eventSum p) e])"
  using assms by (auto simp: ledger_ok_def numbered_append numbered_Cons recorded_line)

text \<open>An event recorded with a session, a wave and a detail has no undefined key.\<close>

lemma new_event_complete:
  "complete_event (new_event w g es t (Some s) (Some v) (Some d))" "gn_waveId (new_event w g es t s' (Some v) d') = Some v"
  "complete_event (new_event w g es t s' v' d') \<longleftrightarrow> s' \<noteq> None \<and> v' \<noteq> None \<and> d' \<noteq> None"
  by (simp_all add: new_event_def Let_def complete_event_def undefined_keys_Nil_iff del: not_None_eq)

lemma record_append_run:
  assumes "assertSafeId g ''groupId'' = Inr dir" "ledger_ok (gx_platform w) g es (gf_events (group_at w dir))"
    "int (length es) < MAX_SAFE_INTEGER"
  shows "record_append g t s v d w = (Inr (new_event w g es t s v d), with_event dir (new_event w g es t s v d) (ticked w))"
proof -
  let ?p = "gx_platform w" and ?e = "new_event w g es t s v d"
  note read = ledger_reads [OF assms(2)]
  have "distinct (map gn_eventId (es @ [?e]))"
    using assms(2) new_event_ok [OF assms(1,3)]
    by (intro named_distinct [of 1 _ g "\<lambda>_. True"]) (auto simp: ledger_ok_def numbered_append numbered_Cons)
  then have fresh: "find_key gn_eventId (gn_eventId ?e) es = None" by (simp only: find_key_None) simp
  have "appendGroupEventSerialized (gq_eventSum ?p) path (gf_events (group_at w dir)) ?e =
      (Inr Appended, gf_events (group_at w dir) @ [group_record_for (gq_eventSum ?p) ?e])" for path
    unfolding appendGroupEventSerialized_def append_ledger_def read sum.case fresh option.case using new_event_ok(4) [OF assms(1,3)] by simp
  then have append: "appendEvent_group ?e (ticked w) = (Inr Appended, with_event dir ?e (ticked w))"
    using assms(1) new_event_ok(3) [OF assms(1,3)]
    by (simp add: appendEvent_group_def groupDir_run with_event_def Let_def)
  have "record_append g t s v d w = bnd (appendEvent_group ?e) (\<lambda>_. ret ?e) (ticked w)"
    by (simp add: record_append_def groupDir_run [OF assms(1)] nextEventSequence_def group_now_def bnd_run gets_def read lift_res_def
        modify_def ret_def ticked_def Let_def new_event_def)
  also have "\<dots> = (Inr ?e, with_event dir ?e (ticked w))" by (simp add: bnd_run append ret_def)
  finally show ?thesis .
qed

text \<open>A group in order can be reconciled, and reconciling it changes nothing.\<close>

lemma recover_intact:
  assumes "map_of (gx_groups w) dir \<noteq> None" "intact (cks (gx_platform w)) v (sel (group_at w dir))"
    and same: "upd (sel (group_at w dir)) (group_at w dir) = group_at w dir"
  shows "recover_group_file cks sel upd dir name w = (Inr [], w)"
proof -
  have "\<lparr>df_text = df_text (sel (group_at w dir)), df_temps = []\<rparr> = sel (group_at w dir)"
    using assms(2) by (simp add: intact_def)
  then show ?thesis
    using assms(1,2) same by (simp add: recover_group_file_def intact_def put_group_same del: not_None_eq)
qed

lemma reconcile_group_run:
  assumes "group_ok g es st w"
  shows "reconcile_group g w = (Inr \<lparr>gr2_groupId = g, gr2_eventCount = int (length es), gr2_stateEventSequence = gs_lastEventSequence st,
    gr2_needsSemanticReplay = (gs_lastEventSequence st < int (length es)), gr2_recoveredFiles = []\<rparr>, w)"
proof -
  from assms obtain dir d rs where dir: "assertSafeId g ''groupId'' = Inr dir" "map_of (gx_groups w) dir \<noteq> None"
    and f: "intact (gq_definitionSum (gx_platform w)) d (gf_definition (group_at w dir))" "gd_groupId d = g"
      "intact (gq_requirementsSum (gx_platform w)) rs (gf_requirements (group_at w dir))" "\<forall>r \<in> set rs. rq_groupId r = g"
      "intact (gq_stateSum (gx_platform w)) st (gf_state (group_at w dir))" "gs_groupId st = g"
      "ledger_ok (gx_platform w) g es (gf_events (group_at w dir))" "gs_lastEventSequence st \<le> int (length es)"
    by (auto simp: group_ok_def files_ok_def)
  have r: "recover_group_file gq_definitionSum gf_definition (\<lambda>x f. f\<lparr>gf_definition := x\<rparr>) dir name w = (Inr [], w)"
    "recover_group_file gq_stateSum gf_state (\<lambda>x f. f\<lparr>gf_state := x\<rparr>) dir name w = (Inr [], w)"
    "recover_group_file gq_requirementsSum gf_requirements (\<lambda>x f. f\<lparr>gf_requirements := x\<rparr>) dir name w = (Inr [], w)" for name
    by (rule recover_intact [OF dir(2)], use f in simp, simp)+
  have loads: "loadDefinition_group g w = (Inr d, w)" "loadState g w = (Inr st, w)" "loadRequirements g w = (Inr rs, w)"
    using f(1,3,5) by (simp_all add: loadDefinition_group_def loadState_def loadRequirements_def groupDir_run [OF dir(1)] intact_def
        read_text_run)
  have events: "readEvents_group g w = (Inr es, w)"
    by (simp add: readEvents_group_def groupDir_run [OF dir(1)] bnd_run gets_def ledger_reads [OF f(7)] lift_res_def)
  have ids: "\<not> list_ex (\<lambda>r. rq_groupId r \<noteq> g) rs" using f(4) by (simp add: list_ex_iff)
  show ?thesis
    using f(2,6,8) ids
    by (simp add: reconcile_group_def groupDir_run [OF dir(1)] bnd_run r loads events Let_def require_that_def guard_res_def lift_res_def ret_def)
qed

lemma loads_of_ok:
  assumes "group_ok g es st w"
  shows "loadState g w = (Inr st, w)" "readEvents_group g w = (Inr es, w)"
proof -
  from assms obtain dir where dir: "assertSafeId g ''groupId'' = Inr dir"
    and f: "intact (gq_stateSum (gx_platform w)) st (gf_state (group_at w dir))" "ledger_ok (gx_platform w) g es (gf_events (group_at w dir))"
    by (auto simp: group_ok_def files_ok_def)
  show "loadState g w = (Inr st, w)" using f(1) by (simp add: loadState_def groupDir_run [OF dir] intact_def read_text_run)
  show "readEvents_group g w = (Inr es, w)"
    by (simp add: readEvents_group_def groupDir_run [OF dir] bnd_run gets_def ledger_reads [OF f(2)] lift_res_def)
qed

lemma writeState_run:
  "assertSafeId (gs_groupId st) ''groupId'' = Inr dir \<Longrightarrow> writeState st w = (Inr (), with_state dir st w)"
  by (simp add: writeState_def groupDir_run in_group_def modify_def with_state_def)

lemma with_state_ok:
  assumes "group_ok g es st w" "assertSafeId g ''groupId'' = Inr dir" "gs_groupId st' = g" "0 \<le> gs_lastEventSequence st'"
    "gs_lastEventSequence st' \<le> int (length es)" "gs_undefined st' = []"
  shows "group_ok g es st' (with_state dir st' w)"
  using assms by (auto simp: group_ok_def files_ok_def with_state_def intact_def save_file_def written_same state_stored_def)

lemma with_event_ok:
  assumes "group_ok g es st w" "assertSafeId g ''groupId'' = Inr dir" "acceptable_group_event e" "event_named e" "gn_groupId e = g"
    "gn_sequence e = int (length es) + 1" "complete_event e" "gn_waveId e \<noteq> None"
  shows "group_ok g (es @ [e]) st (with_event dir e w)"
  using assms ledger_ok_append [of "gx_platform w" g es "gf_events (group_at w dir)" e]
  by (auto simp: group_ok_def files_ok_def with_event_def)

text \<open>Events that say their wave leave no undefined key in the state.\<close>

lemma apply_event_undefined: "gn_waveId e \<noteq> None \<Longrightarrow> gs_undefined s = [] \<Longrightarrow> gs_undefined (apply_group_event e s) = []"
  by (cases "gn_type e") (auto simp: apply_group_event_def)

lemma fold_events_undefined:
  "\<forall>e \<in> set es. gn_waveId e \<noteq> None \<Longrightarrow> gs_undefined s = [] \<Longrightarrow> gs_undefined (fold apply_group_event es s) = []"
  by (induction es arbitrary: s) (auto simp: apply_event_undefined)

text \<open>Resuming brings the state up to the last event.\<close>

definition replayed :: "group_event list \<Rightarrow> group_state \<Rightarrow> group_state" where
  "replayed es st = fold apply_group_event (drop (nat (gs_lastEventSequence st)) es) st"

lemma group_ok_reduce:
  assumes "group_ok g es st w"
  shows "reduceGroupEvents st es = Inr (replayed es st)" "gs_lastEventSequence (replayed es st) = int (length es)"
    "gs_groupId (replayed es st) = g" "gs_undefined (replayed es st) = []"
proof -
  have "\<forall>e \<in> set (drop n es). gn_waveId e \<noteq> None" for n
    using assms by (auto simp: group_ok_def files_ok_def ledger_ok_def dest: in_set_dropD)
  then show "gs_undefined (replayed es st) = []"
    using assms unfolding replayed_def by (intro fold_events_undefined) (auto simp: group_ok_def files_ok_def)
  from assms have "numbered_from 1 es" "\<forall>e \<in> set es. gn_groupId e = gs_groupId st" "gs_groupId st = g"
    "gs_lastEventSequence st = int (nat (gs_lastEventSequence st))" "nat (gs_lastEventSequence st) \<le> length es"
    by (auto simp: group_ok_def files_ok_def ledger_ok_def)
  with reduce_ledger [of es st "nat (gs_lastEventSequence st)"]
  show "reduceGroupEvents st es = Inr (replayed es st)" "gs_lastEventSequence (replayed es st) = int (length es)"
    "gs_groupId (replayed es st) = g" by (simp_all add: replayed_def)
qed

lemma resume_run:
  assumes "group_ok g es st w" "assertSafeId g ''groupId'' = Inr dir"
  shows "resumeGroup_controller g w = (if gs_lastEventSequence st < int (length es)
    then (Inr (replayed es st), with_state dir (replayed es st) w) else (Inr st, w))"
  using assms(2) group_ok_reduce [OF assms(1)] writeState_run [of "replayed es st" dir w]
  by (simp add: resumeGroup_controller_def bnd_run reconcile_group_run [OF assms(1)] loads_of_ok [OF assms(1)] lift_res_def ret_def)

lemma group_ok_ticked: "group_ok g es st (ticked w) = group_ok g es st w"
  by (simp add: group_ok_def)

lemma record_run:
  fixes t s v d
  assumes "group_ok g es st w" "assertSafeId g ''groupId'' = Inr dir" "int (length es) < MAX_SAFE_INTEGER"
  defines "e \<equiv> new_event w g es t (Some s) (Some v) (Some d)"
    and "w1 \<equiv> with_event dir (new_event w g es t (Some s) (Some v) (Some d)) (ticked w)"
  shows "record_append g t (Some s) (Some v) (Some d) w = (Inr e, w1)" "group_ok g (es @ [e]) st w1"
    "record_event g t (Some s) (Some v) (Some d) w = (if gs_lastEventSequence st = int (length es)
       then (Inr (apply_group_event e st), with_state dir (apply_group_event e st) w1)
       else (Inl (Error (''group event sequence gap: expected '' @ int_text (gs_lastEventSequence st + 1) @ '', got '' @ int_text (int (length es) + 1))), w1))"
proof -
  note new = new_event_ok [OF assms(2,3), of w t "Some s" "Some v" "Some d", folded e_def]
  have st: "gs_groupId st = g" "0 \<le> gs_lastEventSequence st" "gs_lastEventSequence st \<le> int (length es)"
    and led: "ledger_ok (gx_platform w) g es (gf_events (group_at w dir))"
    using assms(1,2) by (auto simp: group_ok_def files_ok_def)
  show run: "record_append g t (Some s) (Some v) (Some d) w = (Inr e, w1)"
    unfolding e_def w1_def by (rule record_append_run [OF assms(2) led assms(3)])
  show ok: "group_ok g (es @ [e]) st w1"
    unfolding w1_def e_def [symmetric] by (rule with_event_ok [OF _ assms(2) new]) (simp_all add: group_ok_ticked assms(1) e_def new_event_complete)
  show "record_event g t (Some s) (Some v) (Some d) w = (if gs_lastEventSequence st = int (length es)
       then (Inr (apply_group_event e st), with_state dir (apply_group_event e st) w1)
       else (Inl (Error (''group event sequence gap: expected '' @ int_text (gs_lastEventSequence st + 1) @ '', got '' @ int_text (int (length es) + 1))), w1))"
    using new st writeState_run [of "apply_group_event e st" dir w1] assms(2)
    by (auto simp: record_event_def bnd_run run loads_of_ok [OF ok] lift_res_def ret_def)
qed

lemma record_ok:
  assumes "group_ok g es st w" "int (length es) < MAX_SAFE_INTEGER"
  shows "\<exists>es' st'. group_ok g es' st' (snd (record_event g t (Some s) (Some v) (Some d) w))"
    "\<exists>es'. group_ok g es' st (snd (record_append g t (Some s) (Some v) (Some d) w))"
proof -
  from assms(1) obtain dir where dir: "assertSafeId g ''groupId'' = Inr dir" by (auto simp: group_ok_def)
  let ?e = "new_event w g es t (Some s) (Some v) (Some d)"
  note run = record_run [OF assms(1) dir assms(2), of t s v d]
  have "group_ok g (es @ [?e]) (apply_group_event ?e st) (with_state dir (apply_group_event ?e st) (with_event dir ?e (ticked w)))"
    using new_event_ok [OF dir assms(2)] assms(1)
    by (intro with_state_ok [OF run(2) dir] apply_event_undefined) (auto simp: group_ok_def files_ok_def new_event_complete)
  with run(2) show "\<exists>es' st'. group_ok g es' st' (snd (record_event g t (Some s) (Some v) (Some d) w))" unfolding run(3) by auto
  show "\<exists>es'. group_ok g es' st (snd (record_append g t (Some s) (Some v) (Some d) w))" using run(1,2) by auto
qed

lemma resume_ok: "group_ok g es st w \<Longrightarrow> \<exists>st'. group_ok g es st' (snd (resumeGroup_controller g w))"
proof -
  assume ok: "group_ok g es st w"
  then obtain dir where dir: "assertSafeId g ''groupId'' = Inr dir" by (auto simp: group_ok_def)
  have "group_ok g es (replayed es st) (with_state dir (replayed es st) w)"
    by (rule with_state_ok [OF ok dir]) (use group_ok_reduce [OF ok] in simp_all)
  with ok show ?thesis using resume_run [OF ok dir] by auto
qed

section \<open>Runs\<close>

text \<open>An effect that leaves the three files and the ledger of every group alone.\<close>

definition same_group :: "group_world \<Rightarrow> group_world \<Rightarrow> bool" where
  "same_group w w' \<longleftrightarrow> gx_platform w' = gx_platform w \<and>
     (\<forall>dir. (map_of (gx_groups w) dir \<noteq> None \<longrightarrow> map_of (gx_groups w') dir \<noteq> None) \<and>
       gf_definition (group_at w' dir) = gf_definition (group_at w dir) \<and> gf_state (group_at w' dir) = gf_state (group_at w dir) \<and>
       gf_requirements (group_at w' dir) = gf_requirements (group_at w dir) \<and> gf_events (group_at w' dir) = gf_events (group_at w dir))"

lemma same_group_refl [simp]: "same_group w w"
  by (simp add: same_group_def)

lemma same_group_trans: "same_group u v \<Longrightarrow> same_group v w \<Longrightarrow> same_group u w"
  by (simp add: same_group_def)

lemma same_group_ok: "same_group w w' \<Longrightarrow> group_ok g es st w \<Longrightarrow> group_ok g es st w'"
  unfolding same_group_def group_ok_def files_ok_def by metis

definition keeps_group :: "(group_world, 'a) eff \<Rightarrow> bool" where
  "keeps_group m \<longleftrightarrow> (\<forall>w. same_group w (snd (m w)))"

lemma keeps_groupD: "keeps_group m \<Longrightarrow> group_ok g es st w \<Longrightarrow> group_ok g es st (snd (m w))"
  unfolding keeps_group_def using same_group_ok by blast

lemma keeps_bnd:
  assumes "keeps_group m" "\<And>x. keeps_group (f x)"
  shows "keeps_group (bnd m f)"
  unfolding keeps_group_def
proof
  fix w
  obtain r v where m: "m w = (r, v)" by fastforce
  with assms(1) have "same_group w v" by (metis keeps_group_def snd_conv)
  then show "same_group w (snd (bnd m f w))"
    using m assms(2) by (cases r) (auto simp: bnd_run keeps_group_def intro: same_group_trans)
qed

lemma keeps_pure: "keeps_group (ret x)" "keeps_group (throw e)" "keeps_group (lift_res r)" "keeps_group (gets h)" "keeps_group (groupDir g)"
  by (simp_all add: keeps_group_def eff_defs groupDir_def split: sum.splits)

lemma keeps_in_group:
  "(\<And>p f. gf_definition (h p f) = gf_definition f \<and> gf_state (h p f) = gf_state f \<and> gf_requirements (h p f) = gf_requirements f \<and>
     gf_events (h p f) = gf_events f) \<Longrightarrow> keeps_group (in_group dir h)"
  by (auto simp: keeps_group_def same_group_def in_group_def modify_def put_group_def update_conv' group_at_def)

lemma keeps_for_each: "(\<And>x acc. x \<in> set xs \<Longrightarrow> keeps_group (body x acc)) \<Longrightarrow> keeps_group (for_each xs body acc)"
  by (induction xs arbitrary: acc) (auto intro!: keeps_pure keeps_bnd)

lemmas keeps_intros = keeps_bnd keeps_pure keeps_in_group keeps_for_each

lemma keeps_writes:
  "keeps_group (writeSession r)" "keeps_group (writeDelivery dl)" "keeps_group (writeIntegration m)" "keeps_group (writeVerification v)"
  "keeps_group (writeFailure fr)" "keeps_group (writeRepair rp)" "keeps_group (write_plan plan)"
  unfolding writeSession_def writeDelivery_def writeIntegration_def writeVerification_def writeFailure_def writeRepair_def write_plan_def
  by (intro keeps_intros; simp)+

datatype group_op =
    RecordEvent group_event_type "string option" "string option" "string option"
  | CrashedRecord group_event_type "string option" "string option" "string option"
  | ResumeGroupOp
  | SaveSession session_runtime | SaveDelivery delivery | SaveIntegration milestone | SaveVerification verification_run
  | SaveFailure failure_record | SaveRepair repair_task
  | AnnotateState "group_state \<Rightarrow> group_state"

text \<open>The runtime also writes a state back with other fields changed, as it notes the last integrated head.\<close>

definition annotate_state :: "string \<Rightarrow> (group_state \<Rightarrow> group_state) \<Rightarrow> unit group_eff" where
  "annotate_state g h = bnd (loadState g) (\<lambda>st. writeState ((h st)\<lparr>gs_groupId := gs_groupId st, gs_lastEventSequence := gs_lastEventSequence st,
     gs_undefined := gs_undefined st\<rparr>))"

fun group_step :: "string \<Rightarrow> group_op \<Rightarrow> group_world \<Rightarrow> group_world" where
  "group_step g (RecordEvent t s v d) w = snd (record_event g t s v d w)"
| "group_step g (CrashedRecord t s v d) w = snd (record_append g t s v d w)"
| "group_step g ResumeGroupOp w = snd (resumeGroup_controller g w)"
| "group_step g (SaveSession r) w = snd (writeSession r w)"
| "group_step g (SaveDelivery d) w = snd (writeDelivery d w)"
| "group_step g (SaveIntegration m) w = snd (writeIntegration m w)"
| "group_step g (SaveVerification v) w = snd (writeVerification v w)"
| "group_step g (SaveFailure f) w = snd (writeFailure f w)"
| "group_step g (SaveRepair r) w = snd (writeRepair r w)"
| "group_step g (AnnotateState h) w = snd (annotate_state g h w)"

text \<open>Sequence numbers stay safe integers.\<close>

definition ledger_room :: "string \<Rightarrow> group_world \<Rightarrow> bool" where
  "ledger_room g w \<longleftrightarrow> (case fst (readEvents_group g w) of Inl _ \<Rightarrow> False | Inr es \<Rightarrow> int (length es) < MAX_SAFE_INTEGER)"

text \<open>Recording an event without a session, a wave or a detail writes a line that cannot be read back (below).\<close>

fun complete_op :: "group_op \<Rightarrow> bool" where
  "complete_op (RecordEvent t s v d) \<longleftrightarrow> s \<noteq> None \<and> v \<noteq> None \<and> d \<noteq> None"
| "complete_op (CrashedRecord t s v d) \<longleftrightarrow> s \<noteq> None \<and> v \<noteq> None \<and> d \<noteq> None"
| "complete_op _ \<longleftrightarrow> True"

text \<open>The life of a group that the store initialized with requirements that name their owner, and in which every event is
  recorded with a session, a wave and a detail.\<close>

inductive group_reachable :: "string \<Rightarrow> group_world \<Rightarrow> bool" where
  initialized: "initialize_group d (initialState (gd_groupId d) t) rs w = (Inr (), w') \<Longrightarrow> \<forall>r \<in> set rs. rq_undefined r = [] \<Longrightarrow>
     group_reachable (gd_groupId d) w'"
| stepped: "group_reachable g w \<Longrightarrow> ledger_room g w \<Longrightarrow> complete_op op \<Longrightarrow> group_reachable g (group_step g op w)"

lemma ledger_room_ok: "group_ok g es st w \<Longrightarrow> ledger_room g w \<longleftrightarrow> int (length es) < MAX_SAFE_INTEGER"
  by (simp add: ledger_room_def loads_of_ok)

lemma annotate_ok:
  assumes "group_ok g es st w"
  shows "\<exists>st'. group_ok g es st' (snd (annotate_state g h w))"
proof -
  from assms obtain dir where dir: "assertSafeId g ''groupId'' = Inr dir" by (auto simp: group_ok_def)
  let ?st = "(h st)\<lparr>gs_groupId := gs_groupId st, gs_lastEventSequence := gs_lastEventSequence st, gs_undefined := gs_undefined st\<rparr>"
  have g: "gs_undefined st = []" "gs_groupId st = g" "0 \<le> gs_lastEventSequence st" "gs_lastEventSequence st \<le> int (length es)"
    using assms by (auto simp: group_ok_def files_ok_def)
  have "group_ok g es ?st (with_state dir ?st w)" by (rule with_state_ok [OF assms dir]) (use g in simp_all)
  moreover have "annotate_state g h w = (Inr (), with_state dir ?st w)"
    using writeState_run [of ?st dir w] dir g(2) by (simp add: annotate_state_def bnd_run loads_of_ok [OF assms])
  ultimately show ?thesis by auto
qed

lemma step_ok:
  assumes "group_ok g es st w" "ledger_room g w" "complete_op op"
  shows "\<exists>es' st'. group_ok g es' st' (group_step g op w)"
proof -
  have room: "int (length es) < MAX_SAFE_INTEGER" using ledger_room_ok [OF assms(1)] assms(2) by simp
  show ?thesis
    using record_ok [OF assms(1) room] resume_ok [OF assms(1)] annotate_ok [OF assms(1)] keeps_groupD [OF keeps_writes(1) assms(1)]
      keeps_groupD [OF keeps_writes(2) assms(1)] keeps_groupD [OF keeps_writes(3) assms(1)] keeps_groupD [OF keeps_writes(4) assms(1)]
      keeps_groupD [OF keeps_writes(5) assms(1)] keeps_groupD [OF keeps_writes(6) assms(1)] assms(3)
    by (cases op) (auto, blast+)
qed

lemma initialize_ok:
  assumes "initialize_group d st rs w = (Inr u, w')" "gs_lastEventSequence st = 0" "gs_undefined st = []"
    and owners: "\<forall>r \<in> set rs. rq_undefined r = []"
  shows "group_ok (gd_groupId d) [] st w'"
proof -
  from assms(1) obtain dir where dir: "assertSafeId (gd_groupId d) ''groupId'' = Inr dir" "map_of (gx_groups w) dir = None"
    and ids: "gd_groupId d = gs_groupId st" "\<forall>r \<in> set rs. rq_groupId r = gd_groupId d"
    and run: "in_group dir (\<lambda>p f. f\<lparr>gf_definition := save_file (gq_definitionSum p) id d (gf_definition f),
       gf_state := save_file (gq_stateSum p) state_stored st (gf_state f),
       gf_requirements := save_file (gq_requirementsSum p) (map requirement_stored) rs (gf_requirements f)\<rparr>) w = (Inr u, w')"
    by (auto simp: initialize_group_def groupDir_def bnd_run gets_def require_that_def lift_res_def guard_res_def list_ex_iff
        split: if_splits sum.splits)
  have w': "w' = put_group dir (empty_group\<lparr>gf_definition := save_file (gq_definitionSum (gx_platform w)) id d absent_file,
       gf_state := save_file (gq_stateSum (gx_platform w)) state_stored st absent_file,
       gf_requirements := save_file (gq_requirementsSum (gx_platform w)) (map requirement_stored) rs absent_file\<rparr>) w"
    using run dir(2) by (simp add: in_group_def modify_def group_at_def empty_group_def)
  have "map requirement_stored rs = rs" using owners by (intro map_idI) (simp add: requirement_stored_def)
  then show ?thesis
    using dir(1) ids assms(2,3)
    by (auto simp: w' group_ok_def files_ok_def intact_def save_file_def absent_file_def empty_group_def ledger_ok_def written_same state_stored_def)
qed

lemma record_next:
  assumes "group_ok g es st w" "gs_lastEventSequence st = int (length es)" "int (length es) < MAX_SAFE_INTEGER"
  obtains e st' w' where "record_event g t (Some s) (Some v) (Some d) w = (Inr st', w')" "group_ok g (es @ [e]) st' w'"
    "gs_lastEventSequence st' = int (length (es @ [e]))" "st' = apply_group_event e st" "gn_type e = t"
proof -
  from assms(1) obtain dir where dir: "assertSafeId g ''groupId'' = Inr dir" by (auto simp: group_ok_def)
  let ?e = "new_event w g es t (Some s) (Some v) (Some d)"
  note run = record_run [OF assms(1) dir assms(3), of t s v d]
  have "group_ok g (es @ [?e]) (apply_group_event ?e st) (with_state dir (apply_group_event ?e st) (with_event dir ?e (ticked w)))"
    using new_event_ok [OF dir assms(3)] assms(1)
    by (intro with_state_ok [OF run(2) dir] apply_event_undefined) (auto simp: group_ok_def files_ok_def new_event_complete)
  with run(3) assms(2) new_event_ok(4) [OF dir assms(3)] show ?thesis
    by (intro that [of "apply_group_event ?e st" _ ?e]) (auto simp: new_event_def Let_def)
qed

lemma group_reachable_ok: "group_reachable g w \<Longrightarrow> \<exists>es st. group_ok g es st w"
proof (induction rule: group_reachable.induct)
  case (initialized d t rs w w')
  from initialize_ok [OF this(1) _ _ this(2)] show ?case by (auto simp: initialState_def)
qed (use step_ok in blast)

section \<open>Recovery\<close>

text \<open>C12: a group whose events all name a session, a wave and a detail can always be resumed. It was initialized by the store with
  requirements that name their owner; whatever was recorded (so), saved or interrupted since then, its ledger can be read,
  resuming returns the state brought up to the last event without touching the ledger, and resuming again changes nothing.
  Events that leave one of the three out block a group (below).\<close>

theorem group_always_resumes:
  assumes "group_reachable g w"
  shows "\<exists>es st w'. readEvents_group g w = (Inr es, w) \<and> resumeGroup_controller g w = (Inr st, w') \<and>
    gs_lastEventSequence st = int (length es) \<and> readEvents_group g w' = (Inr es, w') \<and> resumeGroup_controller g w' = (Inr st, w')"
proof -
  from group_reachable_ok [OF assms] obtain es st where ok: "group_ok g es st w" by blast
  then obtain dir where dir: "assertSafeId g ''groupId'' = Inr dir" by (auto simp: group_ok_def)
  note resume = resume_run [OF ok dir]
  show ?thesis
  proof (cases "gs_lastEventSequence st < int (length es)")
    case True
    have ok': "group_ok g es (replayed es st) (with_state dir (replayed es st) w)"
      by (rule with_state_ok [OF ok dir]) (use group_ok_reduce [OF ok] in simp_all)
    from True resume resume_run [OF ok' dir] group_ok_reduce(2) [OF ok] loads_of_ok(2) [OF ok] loads_of_ok(2) [OF ok'] show ?thesis by auto
  next
    case False
    moreover have "gs_lastEventSequence st \<le> int (length es)" using ok by (auto simp: group_ok_def files_ok_def)
    ultimately show ?thesis using resume loads_of_ok(2) [OF ok] by auto
  qed
qed

text \<open>C11: a crash between the two writes of a recording loses nothing, in a group whose events all name a session, a wave and a
  detail: if the recording would have returned, then resuming after a crash that left only the event behind returns the same state
  and leaves the same files.\<close>

theorem crash_recovers:
  assumes "group_reachable g w" "ledger_room g w" "record_event g t (Some s) (Some v) (Some d) w = (Inr st, w2)"
  shows "resumeGroup_controller g (group_step g (CrashedRecord t (Some s) (Some v) (Some d)) w) = (Inr st, w2)"
proof -
  from group_reachable_ok [OF assms(1)] obtain es st0 where ok: "group_ok g es st0 w" by blast
  then obtain dir where dir: "assertSafeId g ''groupId'' = Inr dir" by (auto simp: group_ok_def)
  have room: "int (length es) < MAX_SAFE_INTEGER" using ledger_room_ok [OF ok] assms(2) by simp
  note run = record_run [OF ok dir room, of t s v d]
  let ?e = "new_event w g es t (Some s) (Some v) (Some d)" and ?w1 = "with_event dir (new_event w g es t (Some s) (Some v) (Some d)) (ticked w)"
  from run(3) assms(3) have upto: "gs_lastEventSequence st0 = int (length es)"
    and out: "st = apply_group_event ?e st0" "w2 = with_state dir (apply_group_event ?e st0) ?w1"
    by (auto split: if_splits)
  have "replayed (es @ [?e]) st0 = apply_group_event ?e st0" using upto by (simp add: replayed_def)
  with resume_run [OF run(2) dir] run(1) upto out show ?thesis by simp
qed

section \<open>Events that cannot be read back\<close>

text \<open>
  An event recorded without a session, a wave or a detail has the missing ones as keys that hold \<open>undefined\<close>. They are in the
  text its checksum is taken of and not in the line that is written; so the line cannot be read, nor can the ledger from then on.
\<close>

definition ledger_broken :: "string \<Rightarrow> string \<Rightarrow> group_world \<Rightarrow> bool" where
  "ledger_broken g msg w \<longleftrightarrow> (\<exists>dir. assertSafeId g ''groupId'' = Inr dir \<and> map_of (gx_groups w) dir \<noteq> None \<and>
     readEventLedger (gq_eventSum (gx_platform w)) (group_path (gx_platform w) dir ''events.jsonl'') (gf_events (group_at w dir)) =
       Inl (DurableStoreCorruptionError msg))"

lemma broken_reads:
  assumes "ledger_broken g msg w"
  shows "readEvents_group g w = (Inl (DurableStoreCorruptionError msg), w)"
    "record_append g t s v d w = (Inl (DurableStoreCorruptionError msg), w)"
    "record_event g t s v d w = (Inl (DurableStoreCorruptionError msg), w)"
proof -
  from assms obtain dir where dir: "assertSafeId g ''groupId'' = Inr dir"
    and read: "readEventLedger (gq_eventSum (gx_platform w)) (group_path (gx_platform w) dir ''events.jsonl'') (gf_events (group_at w dir)) =
      Inl (DurableStoreCorruptionError msg)"
    by (auto simp: ledger_broken_def)
  show "readEvents_group g w = (Inl (DurableStoreCorruptionError msg), w)"
    by (simp add: readEvents_group_def groupDir_run [OF dir] bnd_run gets_def read lift_res_def)
  show append: "record_append g t s v d w = (Inl (DurableStoreCorruptionError msg), w)"
    by (simp add: record_append_def groupDir_run [OF dir] nextEventSequence_def bnd_run gets_def read lift_res_def)
  then show "record_event g t s v d w = (Inl (DurableStoreCorruptionError msg), w)" by (simp add: record_event_def bnd_run)
qed

text \<open>An effect that leaves the ledgers alone.\<close>

definition same_ledgers :: "group_world \<Rightarrow> group_world \<Rightarrow> bool" where
  "same_ledgers w w' \<longleftrightarrow> gx_platform w' = gx_platform w \<and> (\<forall>dir. gf_events (group_at w' dir) = gf_events (group_at w dir) \<and>
     (map_of (gx_groups w) dir \<noteq> None \<longrightarrow> map_of (gx_groups w') dir \<noteq> None))"

lemma same_ledgers_trans: "same_ledgers u v \<Longrightarrow> same_ledgers v w \<Longrightarrow> same_ledgers u w"
  by (simp add: same_ledgers_def)

lemma same_ledgers_broken: "same_ledgers w w' \<Longrightarrow> ledger_broken g msg w \<Longrightarrow> ledger_broken g msg w'"
  by (auto simp: same_ledgers_def ledger_broken_def)

definition keeps_ledgers :: "(group_world, 'a) eff \<Rightarrow> bool" where
  "keeps_ledgers m \<longleftrightarrow> (\<forall>w. same_ledgers w (snd (m w)))"

lemma keeps_brokenD: "keeps_ledgers m \<Longrightarrow> ledger_broken g msg w \<Longrightarrow> ledger_broken g msg (snd (m w))"
  unfolding keeps_ledgers_def using same_ledgers_broken by blast

lemma keeps_ledgers_group: "keeps_group m \<Longrightarrow> keeps_ledgers m"
  by (simp add: keeps_group_def same_group_def keeps_ledgers_def same_ledgers_def)

lemma keeps_ledgers_bnd:
  assumes "keeps_ledgers m" "\<And>x. keeps_ledgers (f x)"
  shows "keeps_ledgers (bnd m f)"
  unfolding keeps_ledgers_def
proof
  fix w
  obtain r v where m: "m w = (r, v)" by fastforce
  with assms(1) have "same_ledgers w v" unfolding keeps_ledgers_def by (metis snd_conv)
  with m assms(2) show "same_ledgers w (snd (bnd m f w))"
    by (cases r) (auto simp: bnd_run keeps_ledgers_def intro: same_ledgers_trans)
qed

lemma keeps_ledgers_pure:
  "keeps_ledgers (ret x)" "keeps_ledgers (throw e)" "keeps_ledgers (lift_res r)" "keeps_ledgers (gets h)" "keeps_ledgers (groupDir g)"
  "keeps_ledgers (require_that b e)"
  by (simp_all add: keeps_ledgers_group keeps_pure require_that_def)

lemma keeps_ledgers_in_group: "(\<And>p f. gf_events (h p f) = gf_events f) \<Longrightarrow> keeps_ledgers (in_group dir h)"
  by (auto simp: keeps_ledgers_def same_ledgers_def in_group_def modify_def simp del: not_None_eq)

lemma keeps_ledgers_recover:
  "(\<And>x f. gf_events (upd x f) = gf_events f) \<Longrightarrow> keeps_ledgers (recover_group_file cks sel upd dir name)"
  by (auto simp: keeps_ledgers_def same_ledgers_def recover_group_file_def Let_def simp del: not_None_eq split: prod.splits)

lemma keeps_ledgers_read: "keeps_ledgers (read_text cks dir name sel)"
  unfolding read_text_def by (intro keeps_ledgers_bnd keeps_ledgers_pure)

lemma keeps_ledgers_if: "keeps_ledgers m \<Longrightarrow> keeps_ledgers n \<Longrightarrow> keeps_ledgers (if b then m else n)"
  by simp

lemmas keeps_ledgers_intros = keeps_ledgers_bnd keeps_ledgers_pure keeps_ledgers_read keeps_ledgers_if keeps_ledgers_in_group keeps_ledgers_recover

lemma keeps_ledgers_loads:
  "keeps_ledgers (loadState g)" "keeps_ledgers (writeState st)" "keeps_ledgers (readEvents_group g)" "keeps_ledgers (resumeGroup_controller g)"
  "keeps_ledgers (annotate_state g h)"
  unfolding loadState_def writeState_def readEvents_group_def resumeGroup_controller_def reconcile_group_def loadDefinition_group_def
    loadRequirements_def annotate_state_def Let_def
  by (intro keeps_ledgers_intros; simp)+

lemma broken_step: "ledger_broken g msg w \<Longrightarrow> ledger_broken g msg (group_step g op w)"
  by (cases op; simp add: broken_reads(2,3) keeps_brokenD keeps_ledgers_group keeps_writes keeps_ledgers_loads)

text \<open>A group whose ledger cannot be read cannot be resumed.\<close>

lemma broken_resume:
  assumes "ledger_broken g msg w"
  shows "\<exists>e w'. resumeGroup_controller g w = (Inl e, w')"
proof -
  have "False" if "reconcile_group g w = (Inr r, w')" for r w'
  proof -
    from that [unfolded reconcile_group_def] show False
    proof (elim bnd_Inr_E, goal_cases)
      case (1 dir v0 r1 v1 r2 v2 r3 v3 dd v4 st v5 rs v6 es v7 u v8)
      have step: "ledger_broken g msg v'" if "keeps_ledgers m" "m v = (Inr x, v')" "ledger_broken g msg v" for m :: "(group_world, 'z) eff" and v v' x
        using keeps_brokenD [OF that(1,3)] that(2) by simp
      have loads: "keeps_ledgers (loadDefinition_group g)" "keeps_ledgers (loadRequirements g)"
        unfolding loadDefinition_group_def loadRequirements_def by (intro keeps_ledgers_intros)+
      have recover: "keeps_ledgers (recover_group_file gq_definitionSum gf_definition (\<lambda>x f. f\<lparr>gf_definition := x\<rparr>) dir ''definition.json'')"
        "keeps_ledgers (recover_group_file gq_stateSum gf_state (\<lambda>x f. f\<lparr>gf_state := x\<rparr>) dir ''state.json'')"
        "keeps_ledgers (recover_group_file gq_requirementsSum gf_requirements (\<lambda>x f. f\<lparr>gf_requirements := x\<rparr>) dir ''requirements.json'')"
        by (rule keeps_ledgers_recover; simp)+
      have "ledger_broken g msg v0" by (rule step [OF keeps_ledgers_pure(5) 1(1) assms])
      then have "ledger_broken g msg v6"
        using keeps_brokenD [OF recover(1), of g msg v0] keeps_brokenD [OF recover(2), of g msg v1] keeps_brokenD [OF recover(3), of g msg v2]
          keeps_brokenD [OF loads(1), of g msg v3] keeps_brokenD [OF keeps_ledgers_loads(1), of g msg v4 g] keeps_brokenD [OF loads(2), of g msg v5]
          1(2-7) by simp
      with 1(8) broken_reads(1) show ?case by fastforce
    qed
  qed
  then have "\<exists>e w'. reconcile_group g w = (Inl e, w')" by (metis old.sum.exhaust prod.collapse)
  then show ?thesis by (auto simp: resumeGroup_controller_def bnd_run)
qed

text \<open>Recording such an event breaks the ledger.\<close>

lemma group_event_json_sequence:
  assumes "same_group_event a b"
  shows "gn_sequence a = gn_sequence b"
proof -
  let ?fields = "\<lambda>e. [(''eventId'', JStr (gn_eventId e)), (''sequence'', JNum (of_int (gn_sequence e))),
      (''at'', JStr (gn_at e)), (''groupId'', JStr (gn_groupId e)), (''type'', JStr (group_event_text (gn_type e)))]
     @ opt_field ''sessionId'' JStr (gn_sessionId e) @ opt_field ''waveId'' JStr (gn_waveId e)
     @ opt_field ''payloadHash'' JStr (gn_payloadHash e) @ opt_field ''detail'' JStr (gn_detail e)"
  have "distinct (map fst (?fields e))" for e by (simp add: opt_field_def split: option.split)
  moreover have "canon (JObj (?fields a)) = canon (JObj (?fields b))"
    using assms by (simp only: same_group_event_def stable_same_def group_event_json_def)
  ultimately have "map_option canon (map_of (?fields a) ''sequence'') = map_option canon (map_of (?fields b) ''sequence'')"
    by (intro canon_fields)
  then show ?thesis by simp
qed

lemma append_appends:
  assumes "appendGroupEventSerialized cks path ls e = (Inr out, ls')" "readEventLedger cks path ls = Inr es" "gn_sequence e = int (length es) + 1"
  shows "out = Appended \<and> ls' = ls @ [group_record_for cks e]"
proof (cases "find_key gn_eventId (gn_eventId e) es")
  case None
  with assms show ?thesis by (simp add: appendGroupEventSerialized_def append_ledger_def)
next
  case (Some x)
  then have "x \<in> set es" by (auto dest: find_key_Some)
  then obtain i where i: "i < length es" "x = es ! i" by (auto simp: in_set_conv_nth)
  with assms(2) have "gn_sequence x = 1 + int i" by (simp add: readEventLedger_iff)
  moreover have "same_group_event x e"
    using Some assms(1,2) by (auto simp: appendGroupEventSerialized_def append_ledger_def split: if_splits)
  ultimately show ?thesis using group_event_json_sequence [of x e] assms(3) i(1) by simp
qed

lemma broken_line:
  assumes "readEventLedger cks path ls = Inr es" "cks (event_stored e) \<noteq> cks e"
  shows "readEventLedger cks path (ls @ [group_record_for cks e]) =
    Inl (DurableStoreCorruptionError (path @ '':'' @ nat_text (Suc (length ls)) @ '' event checksum mismatch''))"
  using assms by (simp add: readEventLedger_def read_ledger_Inr_iff, simp add: read_ledger_def parse_lines_append parse_incomplete)

lemma record_append_breaks:
  assumes law: "undefined_shows (gx_platform w)" and run: "record_append g t s v d w = (Inr e, w')" and missing: "s = None \<or> v = None \<or> d = None"
  obtains dir where "assertSafeId g ''groupId'' = Inr dir" "ledger_broken g (group_path (gx_platform w) dir ''events.jsonl'' @ '':'' @
    nat_text (Suc (length (gf_events (group_at w dir)))) @ '' event checksum mismatch'') w'"
proof -
  let ?cks = "gq_eventSum (gx_platform w)"
  from run obtain dir where dir: "assertSafeId g ''groupId'' = Inr dir"
    by (auto simp: record_append_def groupDir_def lift_res_def elim!: bnd_Inr_E split: sum.splits)
  let ?path = "group_path (gx_platform w) dir ''events.jsonl''" and ?ls = "gf_events (group_at w dir)"
  obtain es where es: "readEventLedger ?cks ?path ?ls = Inr es"
    using run by (cases "readEventLedger ?cks ?path ?ls")
      (simp_all add: record_append_def groupDir_run [OF dir] nextEventSequence_def bnd_run gets_def lift_res_def)
  let ?e = "new_event w g es t s v d"
  have e: "gn_groupId ?e = g" "gn_sequence ?e = int (length es) + 1" "\<not> complete_event ?e"
    using missing by (auto simp: new_event_complete) (simp_all add: new_event_def Let_def)
  have rec: "record_append g t s v d w = bnd (appendEvent_group ?e) (\<lambda>_. ret ?e) (ticked w)"
    by (simp add: record_append_def groupDir_run [OF dir] nextEventSequence_def group_now_def bnd_run gets_def es lift_res_def
        modify_def ret_def ticked_def Let_def new_event_def)
  obtain r ls' where append: "appendGroupEventSerialized ?cks ?path ?ls ?e = (r, ls')" by fastforce
  with run rec obtain out where "r = Inr out"
    by (cases r) (auto simp: bnd_run appendEvent_group_def groupDir_run [OF dir] e(1) Let_def)
  with append append_appends [OF _ es e(2)] have "r = Inr Appended" "ls' = ?ls @ [group_record_for ?cks ?e]" by auto
  with append have "appendEvent_group ?e (ticked w) = (Inr Appended, with_event dir ?e (ticked w))"
    by (simp add: appendEvent_group_def bnd_run groupDir_run [OF dir] e(1) Let_def ret_def with_event_def)
  with run rec have w': "w' = with_event dir ?e (ticked w)" by (auto simp: bnd_run ret_def)
  have "?cks (event_stored ?e) \<noteq> ?cks ?e" using law e(3) by (simp add: undefined_shows_def complete_event_def)
  from broken_line [OF es this] have "ledger_broken g (?path @ '':'' @ nat_text (Suc (length ?ls)) @ '' event checksum mismatch'') w'"
    using dir with_simps(3) [of dir ?e "ticked w"] unfolding ledger_broken_def w'
    by (intro exI [of _ dir] conjI) (simp_all add: with_event_def del: not_None_eq)
  with dir show ?thesis by (rule that)
qed

lemma record_event_append: "record_event g t s v d w = (Inr st, w2) \<Longrightarrow> \<exists>e w1. record_append g t s v d w = (Inr e, w1)"
  by (auto simp: record_event_def elim!: bnd_Inr_E)

text \<open>C33: an event recorded without its session, its wave or its detail blocks its group for good. Whatever is recorded, saved or
  resumed afterwards, the ledger cannot be read, every further recording throws the same checksum mismatch and writes nothing,
  and the group cannot be resumed. The facade records most of its events this way: a started wave, a started session and a
  verification name no session, no detail or neither.\<close>

theorem incomplete_event_blocks_group:
  assumes "undefined_shows (gx_platform w)" "record_append g t s v d w = (Inr e, w')" "s = None \<or> v = None \<or> d = None"
  shows "\<exists>msg. let u = fold (group_step g) ops w' in
    readEvents_group g u = (Inl (DurableStoreCorruptionError msg), u) \<and>
    (\<forall>t s v d. record_event g t s v d u = (Inl (DurableStoreCorruptionError msg), u)) \<and>
    (\<exists>err u'. resumeGroup_controller g u = (Inl err, u'))"
proof -
  obtain msg where "ledger_broken g msg w'" by (rule record_append_breaks [OF assms])
  then have "ledger_broken g msg (fold (group_step g) ops w')" by (induction ops arbitrary: w') (simp_all add: broken_step)
  then show ?thesis
    unfolding Let_def using broken_reads(1,3) broken_resume by (intro exI [of _ msg] conjI allI)
qed

definition session_writes :: "planning_proposal \<Rightarrow> unit group_eff" where
  "session_writes plan = for_each (pp_sessions plan) (\<lambda>s _. writeSession (initialSessionRuntime s (gd_createdAt (pp_definition plan)))) ()"

lemma createGroup_steps:
  assumes "compilePlanningProposal pt q c groupId createdAt = Inr plan"
  shows "createGroup pt q c groupId createdAt = (let d = pp_definition plan; g = gd_groupId d in
     bnd (initialize_group d (initialState g (gd_createdAt d)) (pp_requirements plan)) (\<lambda>_.
     bnd (write_plan plan) (\<lambda>_. bnd (session_writes plan) (\<lambda>_.
     bnd (record_event g GroupCreated None None None) (\<lambda>_.
     bnd (record_event g PlanFrozen None None (Some (''plan_hash='' @ gd_planHash d))) (\<lambda>_. ret plan))))))"
  by (simp add: createGroup_def assms lift_res_simps bnd_ret Let_def session_writes_def)

text \<open>What the group looks like before its first event.\<close>

definition unrecorded :: "string \<Rightarrow> group_state \<Rightarrow> group_platform \<Rightarrow> group_world \<Rightarrow> bool" where
  "unrecorded dir st p w \<longleftrightarrow> gx_platform w = p \<and> gf_events (group_at w dir) = [] \<and> intact (gq_stateSum p) st (gf_state (group_at w dir)) \<and>
     map_of (gx_groups w) dir \<noteq> None"

lemma unrecorded_keeps: "keeps_group m \<Longrightarrow> unrecorded dir st p w \<Longrightarrow> unrecorded dir st p (snd (m w))"
  by (simp add: keeps_group_def same_group_def unrecorded_def)

lemma initialize_run:
  assumes "g = gd_groupId d" "gs_groupId st = g" "assertSafeId g ''groupId'' = Inr dir" "map_of (gx_groups w) dir = None"
    and "\<forall>r \<in> set rs. rq_groupId r = g" "gs_undefined st = []"
  shows "\<exists>w1. initialize_group d st rs w = (Inr (), w1) \<and> unrecorded dir st (gx_platform w) w1"
proof -
  have "state_stored st = st" using assms(6) by (simp add: state_stored_def)
  with assms(1-5) show ?thesis
    by (simp add: initialize_group_def groupDir_run bnd_run gets_def require_that_def lift_res_def guard_res_def list_ex_iff in_group_def modify_def
        unrecorded_def group_at_def empty_group_def intact_def save_file_def absent_file_def written_same ret_def put_group_def update_conv')
qed

lemma first_record:
  assumes "unrecorded dir st p w" "assertSafeId g ''groupId'' = Inr dir" "gs_groupId st = g" "gs_lastEventSequence st = 0"
  shows "\<exists>st' w'. record_event g t s v d w = (Inr st', w')"
proof -
  have "ledger_ok (gx_platform w) g [] (gf_events (group_at w dir))" using assms(1) by (simp add: unrecorded_def ledger_ok_def)
  note run = record_append_run [OF assms(2) this, where t = t and s = s and v = v and d = d]
  let ?e = "new_event w g [] t s v d"
  have "loadState g (with_event dir ?e (ticked w)) = (Inr st, with_event dir ?e (ticked w))"
    using assms(1) by (simp add: loadState_def groupDir_run [OF assms(2)] read_text_run unrecorded_def intact_def with_event_def)
  moreover have "gn_groupId ?e = g" "gn_sequence ?e = 1" by (simp_all add: new_event_def Let_def)
  ultimately show ?thesis
    using run assms(2-4) writeState_run [of "apply_group_event ?e st" dir "with_event dir ?e (ticked w)"]
    by (simp add: record_event_def bnd_run MAX_SAFE_INTEGER_def lift_res_def ret_def)
qed

lemma session_writes_run:
  assumes "assertSafeId g ''groupId'' = Inr dir"
    and "\<forall>s \<in> set (pp_sessions plan). se_groupId s = g \<and> (\<exists>k. assertSafeId (se_sessionId s) ''sessionId'' = Inr k)"
  shows "\<exists>v. session_writes plan u = (Inr (), v)"
proof -
  have one: "\<exists>v. writeSession (initialSessionRuntime s t) u = (Inr (), v)" if "s \<in> set (pp_sessions plan)" for s t u
    using assms that by (auto simp: writeSession_def initialSessionRuntime_def groupDir_run in_group_def modify_def)
  have "\<exists>v. for_each xs (\<lambda>s _. writeSession (initialSessionRuntime s (gd_createdAt (pp_definition plan)))) () u = (Inr (), v)"
    if "set xs \<subseteq> set (pp_sessions plan)" for xs u
    using that
  proof (induction xs arbitrary: u)
    case (Cons x xs)
    then obtain v where "writeSession (initialSessionRuntime x (gd_createdAt (pp_definition plan))) u = (Inr (), v)" using one by (meson list.set_intros(1) subsetD)
    with Cons show ?case by (simp add: bnd_run)
  qed (simp add: ret_def)
  then show ?thesis unfolding session_writes_def by blast
qed

lemma createGroup_throws:
  assumes "undefined_shows (gx_platform w)"
  shows "\<exists>e w'. createGroup pt q c groupId createdAt w = (Inl e, w')"
proof (cases "createGroup pt q c groupId createdAt w")
  case (Pair r w')
  show ?thesis
  proof (cases r)
    case (Inr plan)
    with Pair obtain p where compiled: "compilePlanningProposal pt q c groupId createdAt = Inr p"
      by (cases "compilePlanningProposal pt q c groupId createdAt") (simp_all add: createGroup_def, simp add: throw_def)
    from Pair [unfolded Inr createGroup_steps [OF compiled] Let_def] show ?thesis
    proof (elim bnd_Inr_E, goal_cases)
      case (1 u1 w1 u2 w2 u3 w3 s1 w4 s2 w5)
      have "gx_platform w1 = gx_platform w"
        using 1(1) by (auto simp: initialize_group_def groupDir_def bnd_run gets_def require_that_def lift_res_def guard_res_def in_group_def
            modify_def split: if_splits sum.splits)
      moreover have "keeps_group (write_plan p)" "keeps_group (session_writes p)"
        unfolding session_writes_def by (intro keeps_for_each keeps_writes)+
      then have "gx_platform w2 = gx_platform w1" "gx_platform w3 = gx_platform w2"
        using 1(2,3) by (metis keeps_group_def same_group_def snd_conv)+
      ultimately have law: "undefined_shows (gx_platform w3)" using assms by simp
      obtain e w4' where first: "record_append (gd_groupId (pp_definition p)) GroupCreated None None None w3 = (Inr e, w4')"
        using record_event_append [OF 1(4)] by blast
      obtain msg where "ledger_broken (gd_groupId (pp_definition p)) msg w4'" by (rule record_append_breaks [OF law first]) simp_all
      moreover have "w4 = snd (bnd (loadState (gd_groupId (pp_definition p))) (\<lambda>st. bnd (lift_res (reduceGroupEvents st [e]))
          (\<lambda>st'. bnd (writeState st') (\<lambda>_. ret st'))) w4')"
        using 1(4) by (simp add: record_event_def bnd_run first)
      moreover have "keeps_ledgers (bnd (loadState (gd_groupId (pp_definition p))) (\<lambda>st. bnd (lift_res (reduceGroupEvents st [e]))
          (\<lambda>st'. bnd (writeState st') (\<lambda>_. ret st'))))" by (intro keeps_ledgers_intros keeps_ledgers_loads)
      ultimately have "ledger_broken (gd_groupId (pp_definition p)) msg w4" using keeps_brokenD by blast
      with broken_reads(3) 1(5) show ?case by fastforce
    qed
  qed (use Pair in blast)
qed

text \<open>The error of a creation that has everything it needs.\<close>

lemma createGroup_mismatch:
  assumes law: "undefined_shows (gx_platform w)" and compiled: "compilePlanningProposal pt q c groupId createdAt = Inr plan"
    and g: "g = gd_groupId (pp_definition plan)" "assertSafeId g ''groupId'' = Inr dir" "map_of (gx_groups w) dir = None"
    and rs: "\<forall>r \<in> set (pp_requirements plan). rq_groupId r = g"
    and ss: "\<forall>s \<in> set (pp_sessions plan). se_groupId s = g \<and> (\<exists>k. assertSafeId (se_sessionId s) ''sessionId'' = Inr k)"
  shows "\<exists>w'. createGroup pt q c groupId createdAt w =
    (Inl (DurableStoreCorruptionError (group_path (gx_platform w) dir ''events.jsonl'' @ '':1 event checksum mismatch'')), w') \<and>
    map_of (gx_groups w') dir \<noteq> None"
proof -
  let ?st = "initialState g (gd_createdAt (pp_definition plan))" and ?p = "gx_platform w"
  obtain w1 where w1: "initialize_group (pp_definition plan) ?st (pp_requirements plan) w = (Inr (), w1)" "unrecorded dir ?st ?p w1"
    using initialize_run [OF g(1) _ g(2,3) rs, of ?st] by (auto simp: initialState_def)
  obtain w2 where w2: "write_plan plan w1 = (Inr (), w2)" using g by (auto simp: write_plan_def groupDir_run in_group_def modify_def)
  obtain w3 where w3: "session_writes plan w2 = (Inr (), w3)" using session_writes_run [OF g(2) ss] by blast
  have "keeps_group (session_writes plan)" unfolding session_writes_def by (intro keeps_for_each keeps_writes)
  with unrecorded_keeps [OF keeps_writes(7) w1(2), of plan] w2 w3 have start: "unrecorded dir ?st ?p w3"
    using unrecorded_keeps [of "session_writes plan" dir ?st ?p w2] by simp
  then have p3: "gx_platform w3 = ?p" "gf_events (group_at w3 dir) = []" by (simp_all add: unrecorded_def)
  obtain st1 w4 where r1: "record_event g GroupCreated None None None w3 = (Inr st1, w4)"
    using first_record [OF start g(2), where t = GroupCreated and s = None and v = None and d = None] by (auto simp: initialState_def)
  then obtain e w4' where a1: "record_append g GroupCreated None None None w3 = (Inr e, w4')" using record_event_append by blast
  let ?rest = "bnd (loadState g) (\<lambda>st. bnd (lift_res (reduceGroupEvents st [e])) (\<lambda>st'. bnd (writeState st') (\<lambda>_. ret st')))"
  let ?msg = "group_path ?p dir ''events.jsonl'' @ '':1 event checksum mismatch''"
  have one: "nat_text (Suc 0) = ''1''" by code_simp
  have "ledger_broken g ?msg w4'"
  proof (rule record_append_breaks [OF _ a1])
    show "undefined_shows (gx_platform w3)" using law p3(1) by simp
    show "ledger_broken g ?msg w4'" if "assertSafeId g ''groupId'' = Inr dir'" "ledger_broken g (group_path (gx_platform w3) dir' ''events.jsonl'' @ '':'' @
        nat_text (Suc (length (gf_events (group_at w3 dir')))) @ '' event checksum mismatch'') w4'" for dir'
      using that(2) g(2) that(1) p3 one by simp
  qed simp
  moreover have "keeps_ledgers ?rest" by (intro keeps_ledgers_intros keeps_ledgers_loads)
  moreover have "w4 = snd (?rest w4')" using r1 by (simp add: record_event_def bnd_run a1)
  ultimately have broken: "ledger_broken g ?msg w4" using keeps_brokenD by blast
  then have "map_of (gx_groups w4) dir \<noteq> None" using g(2) by (auto simp: ledger_broken_def)
  with w1(1) w2 w3 r1 broken_reads(3) [OF broken] g(1) show ?thesis
    by (simp add: createGroup_steps [OF compiled] Let_def bnd_run)
qed

text \<open>C40: creating a group never returns. The first event it records, \<open>group.created\<close>, names no session, wave or detail, so its line
  cannot be read, and the second recording throws. When everything else is in order, the error is the checksum mismatch of that
  line; the directory of the group is there, so creating the group again throws too.\<close>

theorem createGroup_never_returns:
  assumes "undefined_shows (gx_platform w)"
  shows "\<exists>e w'. createGroup pt q c groupId createdAt w = (Inl e, w') \<and>
    (\<forall>plan g dir. compilePlanningProposal pt q c groupId createdAt = Inr plan \<and> g = gd_groupId (pp_definition plan) \<and>
       assertSafeId g ''groupId'' = Inr dir \<and> map_of (gx_groups w) dir = None \<and> (\<forall>r \<in> set (pp_requirements plan). rq_groupId r = g) \<and>
       (\<forall>s \<in> set (pp_sessions plan). se_groupId s = g \<and> (\<exists>k. assertSafeId (se_sessionId s) ''sessionId'' = Inr k)) \<longrightarrow>
       e = DurableStoreCorruptionError (group_path (gx_platform w) dir ''events.jsonl'' @ '':1 event checksum mismatch'') \<and>
       map_of (gx_groups w') dir \<noteq> None)"
proof -
  obtain e w' where "createGroup pt q c groupId createdAt w = (Inl e, w')"
    using createGroup_throws [OF assms, of pt q c groupId createdAt] by blast
  moreover from this createGroup_mismatch [OF assms, of pt q c groupId createdAt] have
    "e = DurableStoreCorruptionError (group_path (gx_platform w) dir ''events.jsonl'' @ '':1 event checksum mismatch'') \<and>
       map_of (gx_groups w') dir \<noteq> None"
    if "compilePlanningProposal pt q c groupId createdAt = Inr plan" "g = gd_groupId (pp_definition plan)"
      "assertSafeId g ''groupId'' = Inr dir" "map_of (gx_groups w) dir = None" "\<forall>r \<in> set (pp_requirements plan). rq_groupId r = g"
      "\<forall>s \<in> set (pp_sessions plan). se_groupId s = g \<and> (\<exists>k. assertSafeId (se_sessionId s) ''sessionId'' = Inr k)" for plan g dir
    using that by fastforce
  ultimately show ?thesis by blast
qed

section \<open>Groups that are recorded\<close>

text \<open>Checksums that see the undefined keys.\<close>

definition undefined_text :: "string list \<Rightarrow> string" where
  "undefined_text ks = concat (map (\<lambda>k. k @ '':undefined'') ks)"

definition demo_group_platform :: group_platform where
  "demo_group_platform = \<lparr>gq_root = ''/groups'', gq_definitionSum = gd_groupId, gq_stateSum = (\<lambda>s. gs_groupId s @ undefined_text (gs_undefined s)),
     gq_requirementsSum = (\<lambda>rs. concat (map (undefined_text \<circ> rq_undefined) rs)),
     gq_planSum = (\<lambda>l. gl_schema l @ concat (map (undefined_text \<circ> rq_undefined) (pp_requirements (gl_proposal l)))),
     gq_sessionSum = (\<lambda>r. sr_sessionId r @ undefined_text (sr_undefined r)), gq_deliverySum = dl_deliveryHash, gq_milestoneSum = ml_headSha,
     gq_verificationSum = vn_runId, gq_failureSum = (\<lambda>f. fr_failureId f @ undefined_text (fr_undefined f)), gq_repairSum = rt_repairTaskId,
     gq_eventSum = (\<lambda>e. gn_eventId e @ undefined_text (gn_undefined e)), gq_clock = nat_text\<rparr>"

lemma undefined_text_Nil [simp]: "undefined_text ks = [] \<longleftrightarrow> ks = []"
  by (cases ks) (simp_all add: undefined_text_def)

lemma undefined_text_differs: "ks \<noteq> [] \<Longrightarrow> undefined_text [] \<noteq> undefined_text ks"
  by (cases ks) (simp_all add: undefined_text_def)

lemma demo_platform_law: "undefined_shows demo_group_platform"
  unfolding undefined_shows_def demo_group_platform_def event_stored_def session_stored_def
  by (simp add: undefined_text_differs)

definition demo_empty :: group_world where
  "demo_empty = \<lparr>gx_platform = demo_group_platform, gx_groups = [], gx_ticks = 0\<rparr>"

definition demo_group_definition :: group_definition where
  "demo_group_definition = \<lparr>gd_contract = ''c'', gd_groupId = ''g'', gd_repository = ''r'', gd_masterGoal = ''goal'', gd_masterPrompt = ''p'',
     gd_developmentPlan = ''d'', gd_planHash = ''h'', gd_baselineSha = ''b'', gd_integrationRef = ''i'', gd_requirementIds = [], gd_waveIds = [],
     gd_sessionIds = [], gd_policy = demo_group_policy, gd_createdAt = ''t''\<rparr>"

definition demo_initialized :: group_world where
  "demo_initialized = snd (initialize_group demo_group_definition (initialState ''g'' ''t'') [] demo_empty)"

lemma demo_initialized:
  "initialize_group demo_group_definition (initialState ''g'' ''t'') [] demo_empty = (Inr (), demo_initialized)"
  "unrecorded ''g'' (initialState ''g'' ''t'') demo_group_platform demo_initialized" "assertSafeId ''g'' ''groupId'' = Inr ''g''"
proof -
  show safe: "assertSafeId ''g'' ''groupId'' = Inr ''g''" by code_simp
  have "\<exists>w1. initialize_group demo_group_definition (initialState ''g'' ''t'') [] demo_empty = (Inr (), w1) \<and>
      unrecorded ''g'' (initialState ''g'' ''t'') (gx_platform demo_empty) w1"
    by (rule initialize_run [OF _ _ safe]) (simp_all add: demo_group_definition_def demo_empty_def initialState_def)
  then show "initialize_group demo_group_definition (initialState ''g'' ''t'') [] demo_empty = (Inr (), demo_initialized)"
    "unrecorded ''g'' (initialState ''g'' ''t'') demo_group_platform demo_initialized"
    by (auto simp: demo_initialized_def, simp add: demo_empty_def)
qed

lemma demo_group_reachable: "group_reachable ''g'' demo_initialized" "group_ok ''g'' [] (initialState ''g'' ''t'') demo_initialized"
proof -
  have g: "gd_groupId demo_group_definition = ''g''" by (simp add: demo_group_definition_def)
  note run = demo_initialized(1) [folded g]
  from group_reachable.initialized [OF run] show "group_reachable ''g'' demo_initialized" by (simp add: g)
  from initialize_ok [OF run] show "group_ok ''g'' [] (initialState ''g'' ''t'') demo_initialized" by (simp add: g initialState_def)
qed

lemma group_always_resumes_witness:
  "\<exists>es st w'. readEvents_group ''g'' demo_initialized = (Inr es, demo_initialized) \<and>
     resumeGroup_controller ''g'' demo_initialized = (Inr st, w') \<and> gs_lastEventSequence st = int (length es)"
  using group_always_resumes [OF demo_group_reachable(1)] by metis

lemma crash_recovers_witness:
  "\<exists>st w2. record_event ''g'' WaveStarted (Some ''s1'') (Some ''w1'') (Some ''started'') demo_initialized = (Inr st, w2) \<and> gs_status st = GRunning \<and>
     resumeGroup_controller ''g''
       (group_step ''g'' (CrashedRecord WaveStarted (Some ''s1'') (Some ''w1'') (Some ''started'')) demo_initialized) = (Inr st, w2)"
proof -
  have start: "gs_lastEventSequence (initialState ''g'' ''t'') = int (length ([] :: group_event list))" by (simp add: initialState_def)
  have room: "ledger_room ''g'' demo_initialized" "int (length ([] :: group_event list)) < MAX_SAFE_INTEGER"
    using ledger_room_ok [OF demo_group_reachable(2)] by (simp_all add: MAX_SAFE_INTEGER_def)
  obtain e st w2 where run: "record_event ''g'' WaveStarted (Some ''s1'') (Some ''w1'') (Some ''started'') demo_initialized = (Inr st, w2)"
    "st = apply_group_event e (initialState ''g'' ''t'')" "gn_type e = WaveStarted"
    by (rule record_next [OF demo_group_reachable(2) start room(2)])
  have "gs_status st = GRunning" using run(2,3) by (simp add: apply_group_event_def)
  with crash_recovers [OF demo_group_reachable(1) room(1) run(1)] run(1) show ?thesis by blast
qed

text \<open>The first event of that group, as the controller records it.\<close>

lemma incomplete_event_blocks_group_witness:
  "\<exists>msg. readEvents_group ''g'' (snd (record_append ''g'' GroupCreated None None None demo_initialized)) =
      (Inl (DurableStoreCorruptionError msg), snd (record_append ''g'' GroupCreated None None None demo_initialized))"
proof -
  have platform: "gx_platform demo_initialized = demo_group_platform" and "gf_events (group_at demo_initialized ''g'') = []"
    using demo_initialized(2) by (simp_all add: unrecorded_def)
  then have "ledger_ok (gx_platform demo_initialized) ''g'' [] (gf_events (group_at demo_initialized ''g''))" by (simp add: ledger_ok_def)
  from record_append_run [OF demo_initialized(3) this] obtain e w' where
    run: "record_append ''g'' GroupCreated None None None demo_initialized = (Inr e, w')" by (auto simp: MAX_SAFE_INTEGER_def)
  have "undefined_shows (gx_platform demo_initialized)" using demo_platform_law platform by simp
  from incomplete_event_blocks_group [OF this run, of "[]"] show ?thesis by (simp add: run) blast
qed

text \<open>And a whole creation.\<close>

lemma demo_compiled:
  "case compilePlanningProposal demo_planning demo_planning_request (demo_controller []) None None of Inl _ \<Rightarrow> False
   | Inr plan \<Rightarrow> gd_groupId (pp_definition plan) = ''G-0123456789ab'' \<and> list_all (\<lambda>r. rq_groupId r = ''G-0123456789ab'') (pp_requirements plan) \<and>
       list_all (\<lambda>s. se_groupId s = ''G-0123456789ab'') (pp_sessions plan) \<and> map se_sessionId (pp_sessions plan) = [''A'', ''S02'']"
  by code_simp

lemma createGroup_never_returns_witness:
  "\<exists>w'. createGroup demo_planning demo_planning_request (demo_controller []) None None demo_empty =
    (Inl (DurableStoreCorruptionError ''/groups/G-0123456789ab/events.jsonl:1 event checksum mismatch''), w')"
proof -
  obtain plan where plan: "compilePlanningProposal demo_planning demo_planning_request (demo_controller []) None None = Inr plan"
    "gd_groupId (pp_definition plan) = ''G-0123456789ab''" "\<forall>r \<in> set (pp_requirements plan). rq_groupId r = ''G-0123456789ab''"
    "\<forall>s \<in> set (pp_sessions plan). se_groupId s = ''G-0123456789ab''" "se_sessionId ` set (pp_sessions plan) = {''A'', ''S02''}"
    using demo_compiled by (auto simp: list_all_iff split: sum.splits simp flip: set_map)
  have ids: "assertSafeId ''G-0123456789ab'' ''groupId'' = Inr ''G-0123456789ab''" "assertSafeId ''A'' ''sessionId'' = Inr ''A''"
    "assertSafeId ''S02'' ''sessionId'' = Inr ''S02''" by code_simp+
  have "\<exists>k. assertSafeId (se_sessionId s) ''sessionId'' = Inr k" if "s \<in> set (pp_sessions plan)" for s
    using that plan(5) ids by (metis imageI insertE singletonD)
  moreover have "gx_platform demo_empty = demo_group_platform" "map_of (gx_groups demo_empty) ''G-0123456789ab'' = None"
    by (simp_all add: demo_empty_def)
  moreover obtain e w' where "createGroup demo_planning demo_planning_request (demo_controller []) None None demo_empty = (Inl e, w')"
    "\<forall>plan g dir. compilePlanningProposal demo_planning demo_planning_request (demo_controller []) None None = Inr plan \<and> g = gd_groupId (pp_definition plan) \<and>
       assertSafeId g ''groupId'' = Inr dir \<and> map_of (gx_groups demo_empty) dir = None \<and> (\<forall>r \<in> set (pp_requirements plan). rq_groupId r = g) \<and>
       (\<forall>s \<in> set (pp_sessions plan). se_groupId s = g \<and> (\<exists>k. assertSafeId (se_sessionId s) ''sessionId'' = Inr k)) \<longrightarrow>
       e = DurableStoreCorruptionError (group_path (gx_platform demo_empty) dir ''events.jsonl'' @ '':1 event checksum mismatch'') \<and>
       map_of (gx_groups w') dir \<noteq> None"
    using createGroup_never_returns [of demo_empty demo_planning demo_planning_request "demo_controller []" None None] demo_platform_law
    by (auto simp: demo_empty_def)
  ultimately have "e = DurableStoreCorruptionError (group_path demo_group_platform ''G-0123456789ab'' ''events.jsonl'' @ '':1 event checksum mismatch'')"
    using plan ids(1) by metis
  moreover have "group_path demo_group_platform ''G-0123456789ab'' ''events.jsonl'' = ''/groups/G-0123456789ab/events.jsonl''"
    by (simp add: group_path_def demo_group_platform_def)
  ultimately show ?thesis
    using \<open>createGroup demo_planning demo_planning_request (demo_controller []) None None demo_empty = (Inl e, w')\<close> by auto
qed

section \<open>The status table\<close>

text \<open>The reduction does not ask the table of allowed transitions: freezing the plan takes a planned group to ready, which the
  table forbids, and a blocked session reopens a group that was completed, whose status the table calls final.\<close>

lemma reduction_leaves_table:
  "gs_status s = GPlanning \<Longrightarrow> gn_type e = PlanFrozen \<Longrightarrow> \<not> isValidGroupTransition (gs_status s) (gs_status (apply_group_event e s))"
  "gs_status s = GCompleted \<Longrightarrow> gn_type e = SessionBlocked \<Longrightarrow> \<not> isValidGroupTransition (gs_status s) (gs_status (apply_group_event e s))"
  by (simp_all add: apply_group_event_def isValidGroupTransition_def)

end
