(* ===== verification/GroupSession.thy ===== *)
theory GroupSession
  imports GroupValidators ExecutorTypes
begin

text \<open>
  \<open>group-runtime/session\<close>: the prompt of a development session (\<open>prompt-builder.ts\<close>) and the class
  \<open>DevelopmentSessionRunner\<close> of \<open>session-runtime.ts\<close>, which takes a session from ready to delivering and keeps its
  durable state in step with what its executor reports.

  The executor manager, the store, the event sink and the clock are ports: effects on a state of a type of its own,
  \<open>'s\<close>. A prompt answers a stream that ends; each of its items says what happened outside before the event arrived.
\<close>

section \<open>The prompt\<close>

definition lines :: "string list \<Rightarrow> string" where
  "lines = js_join [CHR 0x0A]"

definition prompt_section :: "string \<Rightarrow> string list \<Rightarrow> string" where
  "prompt_section title vs = title @ '':'' @ [CHR 0x0A] @ (if vs \<noteq> [] then lines (map (\<lambda>v. ''- '' @ v) vs) else ''- none'')"

text \<open>The dash of the source is one character there and its three UTF-8 bytes here.\<close>

definition requirement_line :: "requirement list \<Rightarrow> string \<Rightarrow> string res" where
  "requirement_line rs k = (case by_key rq_requirementId rs k of
     None \<Rightarrow> Inl (Error (''session references unknown requirement '' @ k))
   | Some r \<Rightarrow> Inr (rq_requirementId r @ '': '' @ rq_title r @ '' '' @ [CHR 0xE2, CHR 0x80, CHR 0x94] @ '' '' @ rq_description r))"

fun requirement_lines :: "requirement list \<Rightarrow> string list \<Rightarrow> string list res" where
  "requirement_lines rs [] = Inr []"
| "requirement_lines rs (k # ks) = (case requirement_line rs k of Inl e \<Rightarrow> Inl e
     | Inr l \<Rightarrow> (case requirement_lines rs ks of Inl e \<Rightarrow> Inl e | Inr ls \<Rightarrow> Inr (l # ls)))"

definition acceptance_lines :: "requirement list \<Rightarrow> session_definition \<Rightarrow> string list" where
  "acceptance_lines rs s = first_occurrences (se_acceptanceCriteria s @
     concat (map (\<lambda>k. case by_key rq_requirementId rs k of None \<Rightarrow> [] | Some r \<Rightarrow> rq_acceptanceCriteria r) (se_requirements s)))"

definition buildDevelopmentSessionPrompt :: "group_definition \<Rightarrow> session_definition \<Rightarrow> requirement list \<Rightarrow> string res" where
  "buildDevelopmentSessionPrompt g s rs = (case requirement_lines rs (se_requirements s) of Inl e \<Rightarrow> Inl e
     | Inr reqs \<Rightarrow> Inr (lines
    [''You are Development Group '' @ gd_groupId g @ '' Session '' @ se_sessionId s @ ''.'',
     '''',
     ''Group goal:'',
     gd_masterGoal g,
     '''',
     ''Your only responsibility:'',
     se_objective s,
     '''',
     prompt_section ''Requirements'' reqs,
     '''',
     ''Frozen baseline: '' @ se_baselineSha s,
     ''Integration ref: '' @ se_integrationRef s,
     ''Branch: '' @ se_branch s,
     ''Worktree: '' @ se_worktree s,
     '''',
     prompt_section ''Owned paths'' (se_ownedPaths s),
     prompt_section ''Read-only paths'' (se_readOnlyPaths s),
     prompt_section ''Forbidden paths'' (se_forbiddenPaths s),
     '''',
     prompt_section ''Session dependencies'' (se_dependencies s),
     prompt_section ''Acceptance criteria'' (acceptance_lines rs s),
     '''',
     ''Execution contract:'',
     ''- Execute through the bound Zero3Executor / native Codex root Thread.'',
     ''- Native Codex subagents are '' @ (if sp_allowed (se_subagentPolicy s) then ''allowed'' else ''not allowed'') @
       '' with max concurrency '' @ int_text (sp_maxConcurrency (se_subagentPolicy s)) @ ''.'',
     ''- Work only in the bound Session worktree and Session branch. Do not merge, rebase, checkout, reset, or otherwise mutate the integration branch.'',
     ''- Before final Delivery, leave the Session worktree clean; commit every intended Session change when the bound executor has Git metadata permission.'',
     ''- If an external headless executor cannot write Git metadata, do not bypass its permission boundary; leave only intended owned-path edits in the worktree so Zero3 can ownership-audit and materialize the Delivery commit.'',
     ''- If the intended changes cannot be committed or safely materialized, do not report success; surface the blocker instead.'',
     ''- Do not create another Development Group or a replacement agent loop.'',
     ''- Do not bypass Codex/Executor permission requests.'',
     ''- Do not modify read-only, forbidden, or otherwise unowned paths.'',
     ''- Final delivery must satisfy zero3.pilot.development-delivery.v1 and bind exact Git/Handoff evidence.'',
     ''- A textual claim of completion is not delivery evidence.'',
     ''- If execution outcome may have external side effects but cannot be confirmed, stop as OutcomeUnknown; do not blindly retry.'']))"

section \<open>Ports\<close>

record 's manager_ports =
  xp_start :: "string \<Rightarrow> task_identity \<Rightarrow> policy_context \<Rightarrow> ('s, executor_session) eff"
  xp_startFromHandoff :: "string \<Rightarrow> task_identity \<Rightarrow> policy_context \<Rightarrow> checkpoint_ref \<Rightarrow> ('s, executor_session) eff"
  xp_resume :: "string \<Rightarrow> task_identity \<Rightarrow> policy_context \<Rightarrow> session_ref \<Rightarrow> checkpoint_ref \<Rightarrow> ('s, executor_session) eff"
  xp_prompt :: "task_identity \<Rightarrow> string \<Rightarrow> string \<Rightarrow> ('s, (('s \<Rightarrow> 's) \<times> executor_event) list \<times> error option) eff"
  xp_respond :: "string \<Rightarrow> string \<Rightarrow> permission_response \<Rightarrow> ('s, unit) eff"
  xp_cancel :: "string \<Rightarrow> string \<Rightarrow> ('s, unit) eff"
  xp_close :: "string \<Rightarrow> string \<Rightarrow> ('s, unit) eff"
  xp_active :: "string \<Rightarrow> string \<Rightarrow> 's \<Rightarrow> (string \<times> session_ref) option"

record 's session_ports = "'s manager_ports" +
  xp_save :: "session_runtime \<Rightarrow> ('s, unit) eff"
  xp_sink :: "executor_event \<Rightarrow> session_runtime \<Rightarrow> ('s, unit) eff"
  xp_clock :: "'s \<Rightarrow> string \<times> 's"

record runner_spec =
  rz_group :: group_definition
  rz_session :: session_definition
  rz_requirements :: "requirement list"

record 's runner =
  rn_runtime :: session_runtime
  rn_env :: 's

definition outside :: "('s, 'a) eff \<Rightarrow> ('s runner, 'a) eff" where
  "outside m = (\<lambda>c. case m (rn_env c) of (r, e) \<Rightarrow> (r, c\<lparr>rn_env := e\<rparr>))"

definition update_runtime :: "(session_runtime \<Rightarrow> session_runtime) \<Rightarrow> ('s runner, unit) eff" where
  "update_runtime f = modify (\<lambda>c. c\<lparr>rn_runtime := f (rn_runtime c)\<rparr>)"

definition session_error :: "string \<Rightarrow> error" where
  "session_error m = DevelopmentSessionRuntimeError m"

definition new_runner :: "runner_spec \<Rightarrow> session_runtime \<Rightarrow> 's \<Rightarrow> 's runner res" where
  "new_runner z r env = (let g = rz_group z; s = rz_session z in
     if gd_groupId g \<noteq> se_groupId s \<or> sr_groupId r \<noteq> gd_groupId g \<or> sr_sessionId r \<noteq> se_sessionId s \<or> sr_executionId r \<noteq> se_executionId s
     then Inl (session_error ''Development Session runtime identity mismatch'')
     else Inr \<lparr>rn_runtime = r, rn_env = env\<rparr>)"

definition session_task :: "runner_spec \<Rightarrow> string" where
  "session_task z = gd_groupId (rz_group z) @ '':'' @ se_sessionId (rz_session z)"

definition taskIdentity :: "runner_spec \<Rightarrow> task_identity" where
  "taskIdentity z = (let s = rz_session z in
     \<lparr>ti_taskId = session_task z, ti_executionId = se_executionId s, ti_workspace = se_worktree s,
      ti_repoIdentity = Some (gd_repository (rz_group z)), ti_branch = Some (se_branch s), ti_objective = se_objective s,
      ti_constraints = [''baseline='' @ se_baselineSha s, ''integration_ref='' @ se_integrationRef s] @
        map (\<lambda>p. ''owned:'' @ p) (se_ownedPaths s) @ map (\<lambda>p. ''read_only:'' @ p) (se_readOnlyPaths s) @
        map (\<lambda>p. ''forbidden:'' @ p) (se_forbiddenPaths s) @
        [''delivery_contract=zero3.pilot.development-delivery.v1'',
         ''subagent_max='' @ int_text (sp_maxConcurrency (se_subagentPolicy s)), ''recursive_group_creation=false''],
      ti_acceptanceCriteria = se_acceptanceCriteria s, ti_control = None\<rparr>)"

fun executor_profile :: "profile_kind \<Rightarrow> permission_profile" where
  "executor_profile GReadOnly = ReadOnlyProfile"
| "executor_profile GStandard = StandardProfile"
| "executor_profile GElevated = ElevatedProfile"
| "executor_profile GFullControl = FullControl"

definition session_policy :: "runner_spec \<Rightarrow> policy_context" where
  "session_policy z = \<lparr>pc_permissionProfile = executor_profile (ep_permissionProfile (se_executorPolicy (rz_session z))),
     pc_approvalRequired = ep_approvalRequired (se_executorPolicy (rz_session z))\<rparr>"

definition session_executor :: "runner_spec \<Rightarrow> string" where
  "session_executor z = ep_executorId (se_executorPolicy (rz_session z))"

section \<open>Changing the state\<close>

definition runner_now :: "'s session_ports \<Rightarrow> ('s runner, string) eff" where
  "runner_now p = outside (\<lambda>s. case xp_clock p s of (t, s') \<Rightarrow> (Inr t, s'))"

definition move_to :: "'s session_ports \<Rightarrow> session_status \<Rightarrow> ('s runner, unit) eff" where
  "move_to p next = bnd (gets (\<lambda>c. validateSessionStateTransition (sr_status (rn_runtime c)) next)) (\<lambda>is. case is of
     i # _ \<Rightarrow> throw (session_error (is_message i))
   | [] \<Rightarrow> bnd (update_runtime (\<lambda>r. r\<lparr>sr_status := next\<rparr>)) (\<lambda>_. bnd (runner_now p) (\<lambda>t. update_runtime (\<lambda>r. r\<lparr>sr_updatedAt := t\<rparr>))))"

definition persist :: "'s session_ports \<Rightarrow> ('s runner, unit) eff" where
  "persist p = bnd (gets rn_runtime) (\<lambda>r. outside (xp_save p r))"

definition set_blocker :: "string option \<Rightarrow> ('s runner, unit) eff" where
  "set_blocker b = update_runtime (\<lambda>r. r\<lparr>sr_blocker := b, sr_undefined := undefined_keys [(''blocker'', b)]\<rparr>)"

definition bindExecutorSession :: "executor_session \<Rightarrow> ('s runner, unit) eff" where
  "bindExecutorSession x = update_runtime (\<lambda>r. r\<lparr>sr_executorId := Some (sn_executorId x), sr_executorSessionId := Some (sn_sessionId x),
     sr_executorGeneration := Some (sn_generation x), sr_writerGeneration := sn_generation x\<rparr>)"

definition count_attempt :: "('s runner, unit) eff" where
  "count_attempt = update_runtime (\<lambda>r. r\<lparr>sr_attempt := sr_attempt r + 1\<rparr>)"

definition require_status :: "session_status list \<Rightarrow> (string \<Rightarrow> string) \<Rightarrow> ('s runner, unit) eff" where
  "require_status ss msg = bnd (gets (\<lambda>c. sr_status (rn_runtime c))) (\<lambda>st.
     require_that (st \<in> set ss) (session_error (msg (session_status_text st))))"

definition require_attempt :: "runner_spec \<Rightarrow> ('s runner, unit) eff" where
  "require_attempt z = bnd (gets (\<lambda>c. sr_attempt (rn_runtime c))) (\<lambda>n.
     require_that (\<not> n \<ge> gp_maxSessionAttempts (gd_policy (rz_group z))) (session_error ''session attempt budget exhausted''))"

section \<open>Operations\<close>

definition markReady :: "'s session_ports \<Rightarrow> ('s runner, unit) eff" where
  "markReady p = bnd (require_status [DWaitingDependencies, DBlocked] (\<lambda>st. ''cannot mark '' @ st @ '' session ready'')) (\<lambda>_.
     bnd (move_to p DReady) (\<lambda>_. bnd (set_blocker None) (\<lambda>_. persist p)))"

definition prepareRetry :: "'s session_ports \<Rightarrow> runner_spec \<Rightarrow> ('s runner, session_runtime) eff" where
  "prepareRetry p z = bnd (gets (\<lambda>c. sr_status (rn_runtime c))) (\<lambda>st.
     bnd (require_that (st \<noteq> DOutcomeUnknown) (session_error ''OutcomeUnknown cannot enter retry; resolve the uncertain execution first'')) (\<lambda>_.
     bnd (require_status [DFailed, DBlocked] (\<lambda>t. ''only failed/blocked sessions may retry; got '' @ t)) (\<lambda>_.
     bnd (require_attempt z) (\<lambda>_. bnd (move_to p DReady) (\<lambda>_. bnd (set_blocker None) (\<lambda>_. bnd (persist p) (\<lambda>_. gets rn_runtime)))))))"

definition start_session :: "'s session_ports \<Rightarrow> runner_spec \<Rightarrow> ('s runner, session_runtime) eff" where
  "start_session p z = bnd (require_status [DReady] (\<lambda>t. ''session must be ready before start; got '' @ t)) (\<lambda>_.
     bnd (require_attempt z) (\<lambda>_. bnd (move_to p DStarting) (\<lambda>_. bnd count_attempt (\<lambda>_. bnd (persist p) (\<lambda>_.
     catch_with
       (bnd (outside (xp_start p (session_executor z) (taskIdentity z) (session_policy z))) (\<lambda>x.
        bnd (bindExecutorSession x) (\<lambda>_. bnd (move_to p DRunning) (\<lambda>_. bnd (persist p) (\<lambda>_. gets rn_runtime)))))
       (\<lambda>e. bnd (set_blocker (Some (''executor_start_failed: '' @ error_text e))) (\<lambda>_.
        bnd (move_to p DFailed) (\<lambda>_. bnd (persist p) (\<lambda>_. throw e)))))))))"

definition startFromHandoff_session :: "'s session_ports \<Rightarrow> runner_spec \<Rightarrow> checkpoint_ref \<Rightarrow> ('s runner, session_runtime) eff" where
  "startFromHandoff_session p z k =
     bnd (require_status [DReady, DBlocked, DFailed] (\<lambda>t. ''session cannot start from handoff while '' @ t)) (\<lambda>_.
     bnd (require_attempt z) (\<lambda>_.
     bnd (gets (\<lambda>c. sr_status (rn_runtime c))) (\<lambda>st.
     bnd (move_to p (if st = DReady then DStarting else DReady)) (\<lambda>_.
     bnd (gets (\<lambda>c. sr_status (rn_runtime c))) (\<lambda>st'.
     bnd (if st' = DReady then move_to p DStarting else ret ()) (\<lambda>_.
     bnd count_attempt (\<lambda>_. bnd (persist p) (\<lambda>_.
     bnd (outside (xp_startFromHandoff p (session_executor z) (taskIdentity z) (session_policy z) k)) (\<lambda>x.
     bnd (bindExecutorSession x) (\<lambda>_. bnd (move_to p DRunning) (\<lambda>_. bnd (set_blocker None) (\<lambda>_. bnd (persist p) (\<lambda>_.
     gets rn_runtime)))))))))))))"

definition resume_session :: "'s session_ports \<Rightarrow> runner_spec \<Rightarrow> session_ref \<Rightarrow> checkpoint_ref \<Rightarrow> ('s runner, session_runtime) eff" where
  "resume_session p z ref k =
     bnd (require_status [DReady, DBlocked, DFailed, DPaused] (\<lambda>t. ''session cannot resume while '' @ t)) (\<lambda>_.
     bnd (gets (\<lambda>c. sr_status (rn_runtime c))) (\<lambda>st.
     bnd (if st \<noteq> DReady then move_to p DReady else ret ()) (\<lambda>_.
     bnd (move_to p DStarting) (\<lambda>_. bnd (persist p) (\<lambda>_.
     bnd (outside (xp_resume p (session_executor z) (taskIdentity z) (session_policy z) ref k)) (\<lambda>x.
     bnd (bindExecutorSession x) (\<lambda>_. bnd (move_to p DRunning) (\<lambda>_. bnd (set_blocker None) (\<lambda>_. bnd (persist p) (\<lambda>_.
     gets rn_runtime))))))))))"

definition markOutcomeUnknown :: "'s session_ports \<Rightarrow> string \<Rightarrow> ('s runner, unit) eff" where
  "markOutcomeUnknown p reason =
     bnd (require_that (trim reason \<noteq> []) (session_error ''OutcomeUnknown reason is required'')) (\<lambda>_.
     bnd (gets (\<lambda>c. sr_status (rn_runtime c) = DOutcomeUnknown)) (\<lambda>already.
     if already then ret ()
     else bnd (move_to p DOutcomeUnknown) (\<lambda>_. bnd (set_blocker (Some (trim reason))) (\<lambda>_. persist p))))"

section \<open>Events\<close>

text \<open>The code of a failure event; the executor manager lets only failures with a known code through.\<close>

definition event_code :: "json \<Rightarrow> string option" where
  "event_code f = (case json_get ''code'' f of Some (JStr c) \<Rightarrow> Some c | _ \<Rightarrow> None)"

definition failure_status :: "string option \<Rightarrow> session_status" where
  "failure_status code =
     (if code \<in> {Some ''context_lost'', Some ''context_exhausted''} then DBlocked
      else if code \<in> {Some ''transport_lost'', Some ''process_crash''} then DOutcomeUnknown
      else if code \<in> {Some ''permission_denied'', Some ''policy_denied''} then DBlocked
      else DFailed)"

definition handle_session_event :: "'s session_ports \<Rightarrow> executor_event_body \<Rightarrow> ('s runner, unit) eff" where
  "handle_session_event p b = (case b of
     PermissionRequested _ _ _ \<Rightarrow> move_to p DWaitingInput
   | FailureEvent f \<Rightarrow> bnd (move_to p (failure_status (event_code f))) (\<lambda>_. set_blocker (event_code f))
   | CompletedEvent outcome \<Rightarrow> move_to p (if outcome = ''succeeded'' then DDelivering else if outcome = ''cancelled'' then DCancelled else DFailed)
   | OtherEvent _ _ \<Rightarrow> ret ())"

fun is_permission :: "executor_event_body \<Rightarrow> bool" where
  "is_permission (PermissionRequested _ _ _) = True"
| "is_permission _ = False"

definition applyExecutorEvent :: "'s session_ports \<Rightarrow> executor_event \<Rightarrow> ('s runner, unit) eff" where
  "applyExecutorEvent p e =
     bnd (require_that (safe_integer (xe_sequence e) \<and> \<not> xe_sequence e < 1) (session_error ''executor event sequence must be a positive safe integer'')) (\<lambda>_.
     bnd (update_runtime (\<lambda>r. r\<lparr>sr_lastEventSequence := sr_lastEventSequence r + 1\<rparr>)) (\<lambda>_.
     bnd (gets (\<lambda>c. sr_status (rn_runtime c))) (\<lambda>st.
     if st \<in> set [DBlocked, DFailed, DOutcomeUnknown, DCancelled] then persist p
     else bnd (if st = DWaitingInput \<and> \<not> is_permission (xe_body e) then move_to p DRunning else ret ()) (\<lambda>_.
       bnd (handle_session_event p (xe_body e)) (\<lambda>_. persist p)))))"

definition syncActiveExecutorAuthority :: "'s session_ports \<Rightarrow> runner_spec \<Rightarrow> ('s runner, unit) eff" where
  "syncActiveExecutorAuthority p z = bnd (gets (\<lambda>c. xp_active p (session_task z) (se_executionId (rz_session z)) (rn_env c))) (\<lambda>a. case a of
     None \<Rightarrow> ret ()
   | Some (k, x) \<Rightarrow>
       bnd (require_that (k = sn_executorId x) (session_error ''active executor authority snapshot is inconsistent'')) (\<lambda>_.
       bnd (require_that (safe_integer (sn_generation x) \<and> \<not> sn_generation x < 1)
         (session_error ''active executor generation must be a positive safe integer'')) (\<lambda>_.
       update_runtime (\<lambda>r. r\<lparr>sr_executorId := Some k, sr_executorSessionId := Some (sn_sessionId x),
         sr_executorGeneration := Some (sn_generation x), sr_writerGeneration := sn_generation x\<rparr>))))"

definition stream_event :: "'s session_ports \<Rightarrow> runner_spec \<Rightarrow> ('s \<Rightarrow> 's) \<times> executor_event \<Rightarrow> ('s runner, unit) eff" where
  "stream_event p z i = (case i of (before, e) \<Rightarrow>
     bnd (outside (modify before)) (\<lambda>_. bnd (syncActiveExecutorAuthority p z) (\<lambda>_. bnd (applyExecutorEvent p e) (\<lambda>_.
     bnd (gets rn_runtime) (\<lambda>r. outside (xp_sink p e r))))))"

definition sendInstruction :: "'s session_ports \<Rightarrow> runner_spec \<Rightarrow> string \<Rightarrow> string \<Rightarrow> ('s runner, session_runtime) eff" where
  "sendInstruction p z request text' =
     bnd (require_status [DRunning, DWaitingInput] (\<lambda>t. ''session cannot prompt while '' @ t)) (\<lambda>_.
     bnd (require_that (trim request \<noteq> [] \<and> trim text' \<noteq> []) (session_error ''instruction request id and text must be non-empty'')) (\<lambda>_.
     catch_with
       (bnd (outside (xp_prompt p (taskIdentity z) (trim request) text')) (\<lambda>(items, ending).
        bnd (for_each items (\<lambda>i _. stream_event p z i) ()) (\<lambda>_.
        case ending of Some e \<Rightarrow> throw e | None \<Rightarrow> gets rn_runtime)))
       (\<lambda>e. bnd (markOutcomeUnknown p (''executor_prompt_exception: '' @ error_text e)) (\<lambda>_. throw e))))"

definition sendInitialInstruction :: "'s session_ports \<Rightarrow> runner_spec \<Rightarrow> string \<Rightarrow> ('s runner, session_runtime) eff" where
  "sendInitialInstruction p z request =
     bnd (lift_res (buildDevelopmentSessionPrompt (rz_group z) (rz_session z) (rz_requirements z))) (\<lambda>t. sendInstruction p z request t)"

definition respondPermission_session :: "'s session_ports \<Rightarrow> runner_spec \<Rightarrow> permission_response \<Rightarrow> ('s runner, unit) eff" where
  "respondPermission_session p z response =
     bnd (require_status [DWaitingInput] (\<lambda>_. ''no permission/input wait is active'')) (\<lambda>_.
     bnd (outside (xp_respond p (session_task z) (se_executionId (rz_session z)) response)) (\<lambda>_.
     bnd (move_to p DRunning) (\<lambda>_. persist p)))"

definition cancel_session :: "'s session_ports \<Rightarrow> runner_spec \<Rightarrow> ('s runner, unit) eff" where
  "cancel_session p z = bnd (gets (\<lambda>c. sr_status (rn_runtime c))) (\<lambda>st.
     if st \<in> set [DVerified, DCancelled, DSuperseded] then ret ()
     else bnd (outside (xp_cancel p (session_task z) (se_executionId (rz_session z)))) (\<lambda>_.
       bnd (move_to p DCancelled) (\<lambda>_. persist p)))"

definition close_session :: "'s session_ports \<Rightarrow> runner_spec \<Rightarrow> ('s runner, unit) eff" where
  "close_session p z = outside (xp_close p (session_task z) (se_executionId (rz_session z)))"

end
