(* ===== verification/GroupSessionCorrectness.thy ===== *)
theory GroupSessionCorrectness
  imports GroupSession GroupCorrectness
begin

text \<open>
  The properties of the session runner: what every operation keeps of the runtime, where a prompt that throws leaves the
  session, and the quarantine of a session whose outcome is unknown.
\<close>

section \<open>What every operation keeps\<close>

definition same_session :: "session_runtime \<Rightarrow> session_runtime \<Rightarrow> bool" where
  "same_session r r' \<longleftrightarrow> sr_groupId r' = sr_groupId r \<and> sr_sessionId r' = sr_sessionId r \<and>
     sr_executionId r' = sr_executionId r \<and> sr_headSha r' = sr_headSha r"

definition session_advance :: "int \<Rightarrow> session_runtime \<Rightarrow> session_runtime \<Rightarrow> bool" where
  "session_advance budget r r' \<longleftrightarrow> same_session r r' \<and> isValidSessionTransition\<^sup>*\<^sup>* (sr_status r) (sr_status r') \<and>
     sr_attempt r \<le> sr_attempt r' \<and> sr_attempt r' \<le> max (sr_attempt r) budget \<and>
     sr_lastEventSequence r \<le> sr_lastEventSequence r'"

text \<open>\<open>reached k b r c\<close>: the runner got from \<open>r\<close> to the state of \<open>c\<close>, and \<open>k\<close> more attempts fit into the budget.\<close>

definition reached :: "int \<Rightarrow> int \<Rightarrow> session_runtime \<Rightarrow> 's runner \<Rightarrow> bool" where
  "reached k b r c \<longleftrightarrow> session_advance b r (rn_runtime c) \<and> (k = 0 \<or> sr_attempt (rn_runtime c) + k \<le> b)"

lemma reached_start: "reached 0 b (rn_runtime c) c"
  by (simp add: reached_def session_advance_def same_session_def)

lemma reached_weaken [intro]: "reached k b r c \<Longrightarrow> reached 0 b r c"
  by (simp add: reached_def)

lemma reached_env [simp]: "reached k b r (c\<lparr>rn_env := e\<rparr>) = reached k b r c"
  by (simp add: reached_def)

lemma triple_outside:
  assumes "\<And>c e. I c \<Longrightarrow> I (c\<lparr>rn_env := e\<rparr>)" "\<And>c. I c \<Longrightarrow> E c"
  shows "triple I (outside m) (\<lambda>_. I) E"
  using assms by (auto simp: triple_def outside_def split: prod.splits sum.splits)

lemma reached_outside: "triple (reached k b r) (outside m) (\<lambda>_. reached k b r) (reached 0 b r)"
  by (rule triple_outside) auto

lemma reached_persist: "triple (reached k b r) (persist p) (\<lambda>_. reached k b r) (reached 0 b r)"
  unfolding persist_def by (rule triple_bnd, rule triple_gets, assumption, rule reached_outside)

lemma reached_move: "triple (reached k b r) (move_to p s) (\<lambda>_. reached k b r) (reached 0 b r)"
proof -
  have "reached k b r (c\<lparr>rn_env := e, rn_runtime := (rn_runtime c)\<lparr>sr_status := s, sr_updatedAt := t\<rparr>\<rparr>)"
    if "reached k b r c" "validateSessionStateTransition (sr_status (rn_runtime c)) s = []" for c :: "'a runner" and e t
    using that by (auto simp: reached_def session_advance_def same_session_def validateSessionStateTransition_def)
  then show ?thesis
    by (auto simp: triple_def move_to_def bnd_def gets_def update_runtime_def modify_def runner_now_def outside_def throw_def
        split: list.splits prod.splits sum.splits)
qed

lemma reached_update:
  assumes "\<And>x. same_session x (f x) \<and> sr_status (f x) = sr_status x \<and> sr_attempt (f x) = sr_attempt x \<and>
    sr_lastEventSequence x \<le> sr_lastEventSequence (f x)"
  shows "triple (reached k b r) (update_runtime f) (\<lambda>_. reached k b r) (reached 0 b r)"
proof -
  have "reached k b r (c\<lparr>rn_runtime := f (rn_runtime c)\<rparr>)" if "reached k b r c" for c :: "'a runner"
    using that assms [of "rn_runtime c"] by (auto simp: reached_def session_advance_def same_session_def)
  then show ?thesis by (auto simp: update_runtime_def intro: triple_modify)
qed

lemma reached_blocker: "triple (reached k b r) (set_blocker v) (\<lambda>_. reached k b r) (reached 0 b r)"
  unfolding set_blocker_def by (rule reached_update) (simp add: same_session_def)

lemma reached_bind: "triple (reached k b r) (bindExecutorSession x) (\<lambda>_. reached k b r) (reached 0 b r)"
  unfolding bindExecutorSession_def by (rule reached_update) (simp add: same_session_def)

lemma reached_count: "triple (reached 1 b r) count_attempt (\<lambda>_. reached 0 b r) (reached 0 b r)"
  unfolding count_attempt_def update_runtime_def
  by (rule triple_modify) (auto simp: reached_def session_advance_def same_session_def)

lemma reached_status: "triple (reached k b r) (require_status ss m) (\<lambda>_. reached k b r) (reached 0 b r)"
  unfolding require_status_def by (rule triple_bnd, rule triple_gets, assumption, rule triple_require, assumption) auto

lemma reached_attempt:
  "triple (reached 0 (gp_maxSessionAttempts (gd_policy (rz_group z))) r) (require_attempt z)
     (\<lambda>_. reached 1 (gp_maxSessionAttempts (gd_policy (rz_group z))) r) (reached 0 (gp_maxSessionAttempts (gd_policy (rz_group z))) r)"
  by (auto simp: triple_def require_attempt_def bnd_def gets_def require_that_def lift_res_def guard_res_def reached_def)

lemma reached_gets: "triple (reached k b r) (gets f) (\<lambda>_. reached k b r) (reached 0 b r)"
  by (rule triple_gets)

lemma reached_require: "triple (reached k b r) (require_that ok e) (\<lambda>_. reached k b r) (reached 0 b r)"
  by (rule triple_require) auto

lemma reached_lift: "triple (reached k b r) (lift_res x) (\<lambda>_. reached k b r) (reached 0 b r)"
  by (rule triple_lift_res) auto

lemma reached_ret: "triple (reached k b r) (ret x) (\<lambda>_. reached k b r) (reached 0 b r)"
  by (rule triple_ret)

lemma reached_throw: "triple (reached k b r) (throw e) Q (reached 0 b r)"
  by (rule triple_throw) auto

lemma reached_each:
  assumes "\<And>x acc. triple (reached 0 b r) (body x acc) (\<lambda>_. reached 0 b r) (reached 0 b r)"
  shows "triple (reached 0 b r) (for_each xs body acc) (\<lambda>_. reached 0 b r) (reached 0 b r)"
  by (rule triple_for_each [where I = "\<lambda>_. reached 0 b r"]) (rule assms)

lemmas reached_rules = triple_bnd triple_if triple_option triple_catch reached_outside reached_persist reached_move reached_blocker
  reached_bind reached_count reached_status reached_attempt reached_gets reached_require reached_lift reached_ret reached_throw reached_each

lemma reached_unknown: "triple (reached 0 b r) (markOutcomeUnknown p m) (\<lambda>_. reached 0 b r) (reached 0 b r)"
  unfolding markOutcomeUnknown_def by (rule reached_rules)+

lemma reached_handle: "triple (reached 0 b r) (handle_session_event p e) (\<lambda>_. reached 0 b r) (reached 0 b r)"
  unfolding handle_session_event_def by (cases e; simp only: executor_event_body.case; (rule reached_rules)+)

lemma reached_apply: "triple (reached 0 b r) (applyExecutorEvent p e) (\<lambda>_. reached 0 b r) (reached 0 b r)"
  unfolding applyExecutorEvent_def
  by (rule reached_rules reached_handle reached_update conjI refl | simp add: same_session_def)+

lemma reached_sync: "triple (reached 0 b r) (syncActiveExecutorAuthority p z) (\<lambda>_. reached 0 b r) (reached 0 b r)"
  unfolding syncActiveExecutorAuthority_def
proof (rule triple_bnd [OF reached_gets])
  fix a :: "(string \<times> session_ref) option"
  show "triple (reached 0 b r) (case a of None \<Rightarrow> ret () | Some (k, x) \<Rightarrow>
       bnd (require_that (k = sn_executorId x) (session_error ''active executor authority snapshot is inconsistent'')) (\<lambda>_.
       bnd (require_that (safe_integer (sn_generation x) \<and> \<not> sn_generation x < 1)
         (session_error ''active executor generation must be a positive safe integer'')) (\<lambda>_.
       update_runtime (\<lambda>r. r\<lparr>sr_executorId := Some k, sr_executorSessionId := Some (sn_sessionId x),
         sr_executorGeneration := Some (sn_generation x), sr_writerGeneration := sn_generation x\<rparr>)))) (\<lambda>_. reached 0 b r) (reached 0 b r)"
    by (cases a; clarsimp?; (rule reached_rules reached_update | simp add: same_session_def)+)
qed

lemma reached_event: "triple (reached 0 b r) (stream_event p z i) (\<lambda>_. reached 0 b r) (reached 0 b r)"
  unfolding stream_event_def by (cases i; simp only: prod.case; (rule reached_rules reached_sync reached_apply)+)

section \<open>Every operation\<close>

datatype session_op =
    OpMarkReady | OpRetry | OpStart | OpHandoff checkpoint_ref | OpResume session_ref checkpoint_ref
  | OpInstruct string string | OpInitial string | OpRespond permission_response | OpCancel | OpClose | OpUnknown string

fun session_op_run :: "'s session_ports \<Rightarrow> runner_spec \<Rightarrow> session_op \<Rightarrow> ('s runner, unit) eff" where
  "session_op_run p z OpMarkReady = markReady p"
| "session_op_run p z OpRetry = bnd (prepareRetry p z) (\<lambda>_. ret ())"
| "session_op_run p z OpStart = bnd (start_session p z) (\<lambda>_. ret ())"
| "session_op_run p z (OpHandoff k) = bnd (startFromHandoff_session p z k) (\<lambda>_. ret ())"
| "session_op_run p z (OpResume x k) = bnd (resume_session p z x k) (\<lambda>_. ret ())"
| "session_op_run p z (OpInstruct i t) = bnd (sendInstruction p z i t) (\<lambda>_. ret ())"
| "session_op_run p z (OpInitial i) = bnd (sendInitialInstruction p z i) (\<lambda>_. ret ())"
| "session_op_run p z (OpRespond x) = respondPermission_session p z x"
| "session_op_run p z OpCancel = cancel_session p z"
| "session_op_run p z OpClose = close_session p z"
| "session_op_run p z (OpUnknown m) = markOutcomeUnknown p m"

lemma reached_instruction: "triple (reached 0 b r) (sendInstruction p z i t) (\<lambda>_. reached 0 b r) (reached 0 b r)"
  unfolding sendInstruction_def
  by (rule reached_rules reached_unknown reached_event | simp only: split_paired_all prod.case)+

lemma reached_op:
  assumes b: "b = gp_maxSessionAttempts (gd_policy (rz_group z))"
  shows "triple (reached 0 b r) (session_op_run p z x) (\<lambda>_. reached 0 b r) (reached 0 b r)"
  unfolding b
  by (cases x; simp only: session_op_run.simps bnd_assoc bnd_ret markReady_def prepareRetry_def start_session_def
      startFromHandoff_session_def resume_session_def sendInitialInstruction_def respondPermission_session_def cancel_session_def
      close_session_def; (rule reached_rules reached_unknown reached_instruction triple_pre [OF reached_ret reached_weaken])+)

text \<open>C15: every operation of a runner, returned or thrown, keeps the identity of the session, moves its status along the
  table of allowed transitions, never spends more attempts than the policy has and never lowers the number of events seen.\<close>

theorem session_operation_lawful:
  "session_advance (gp_maxSessionAttempts (gd_policy (rz_group z))) (rn_runtime c) (rn_runtime (snd (session_op_run p z x c)))"
  using tripleD_state [OF reached_op [OF refl, of z "rn_runtime c" p x] reached_start [of _ c]] by (simp add: reached_def)

section \<open>A prompt that throws\<close>

text \<open>The statuses a session can have while it is prompted, and those it settles in when the prompt throws.\<close>

definition prompting :: "'s runner \<Rightarrow> bool" where
  "prompting c \<longleftrightarrow> sr_status (rn_runtime c) \<in> {DRunning, DWaitingInput, DDelivering, DBlocked, DOutcomeUnknown, DFailed, DCancelled}"

definition settled :: "'s runner \<Rightarrow> bool" where
  "settled c \<longleftrightarrow> sr_status (rn_runtime c) \<in> {DBlocked, DOutcomeUnknown, DFailed, DCancelled}"

text \<open>Operations that keep a condition whatever happens.\<close>

lemma keep_outside: "(\<And>c e. I (c\<lparr>rn_env := e\<rparr>) = I c) \<Longrightarrow> triple I (outside m) (\<lambda>_. I) I"
  by (intro triple_outside) auto

lemma keep_gets: "triple I (gets f) (\<lambda>_. I) I"
  by (rule triple_gets)

lemma keep_require: "triple I (require_that ok e) (\<lambda>_. I) I"
  by (rule triple_require)

lemma keep_ret: "triple I (ret x) (\<lambda>_. I) I"
  by (rule triple_ret)

lemma keep_persist: "(\<And>c e. I (c\<lparr>rn_env := e\<rparr>) = I c) \<Longrightarrow> triple I (persist p) (\<lambda>_. I) I"
  unfolding persist_def by (rule triple_bnd [OF keep_gets keep_outside])

lemma prompting_env [simp]: "prompting (c\<lparr>rn_env := e\<rparr>) = prompting c"
  by (simp add: prompting_def)

lemma prompting_update: "(\<And>r. sr_status (f r) = sr_status r) \<Longrightarrow> triple prompting (update_runtime f) (\<lambda>_. prompting) prompting"
  unfolding update_runtime_def by (rule triple_modify) (simp add: prompting_def)

lemma prompting_move:
  assumes "s \<in> {DRunning, DWaitingInput, DDelivering, DBlocked, DOutcomeUnknown, DFailed, DCancelled}"
  shows "triple prompting (move_to p s) (\<lambda>_. prompting) prompting"
proof -
  have "prompting (c\<lparr>rn_env := e, rn_runtime := (rn_runtime c)\<lparr>sr_status := s, sr_updatedAt := t\<rparr>\<rparr>)" for c :: "'a runner" and e t
    using assms by (simp add: prompting_def)
  then show ?thesis
    by (auto simp: triple_def move_to_def bnd_def gets_def update_runtime_def modify_def runner_now_def outside_def throw_def
        split: list.splits prod.splits sum.splits)
qed

lemma failure_status_prompting: "failure_status k \<in> {DRunning, DWaitingInput, DDelivering, DBlocked, DOutcomeUnknown, DFailed, DCancelled}"
  by (simp add: failure_status_def)

lemmas prompting_rules = triple_bnd triple_if keep_outside [OF prompting_env] keep_persist [OF prompting_env] keep_gets keep_require keep_ret

lemma prompting_handle: "triple prompting (handle_session_event p e) (\<lambda>_. prompting) prompting"
proof (cases e)
  case (FailureEvent f)
  have "triple prompting (set_blocker v) (\<lambda>_. prompting) prompting" for v
    unfolding set_blocker_def by (rule prompting_update) simp
  from triple_bnd [OF prompting_move [OF failure_status_prompting] this] FailureEvent show ?thesis
    by (simp add: handle_session_event_def)
qed (simp_all add: handle_session_event_def prompting_move keep_ret)

lemma prompting_apply: "triple prompting (applyExecutorEvent p e) (\<lambda>_. prompting) prompting"
proof -
  have "triple prompting (update_runtime (\<lambda>r. r\<lparr>sr_lastEventSequence := sr_lastEventSequence r + 1\<rparr>)) (\<lambda>_. prompting) prompting"
    by (rule prompting_update) simp
  moreover have "triple prompting (move_to p DRunning) (\<lambda>_. prompting) prompting"
    by (rule prompting_move) simp
  ultimately show ?thesis
    unfolding applyExecutorEvent_def by - (rule prompting_rules prompting_handle | assumption)+
qed

lemma prompting_sync: "triple prompting (syncActiveExecutorAuthority p z) (\<lambda>_. prompting) prompting"
  by (auto simp: triple_def syncActiveExecutorAuthority_def eff_defs guard_res_def update_runtime_def prompting_def split: option.splits)

lemma prompting_event: "triple prompting (stream_event p z i) (\<lambda>_. prompting) prompting"
  unfolding stream_event_def by (cases i; simp only: prod.case; (rule prompting_rules prompting_sync prompting_apply)+)

lemma unknown_settles:
  assumes "trim m \<noteq> []"
  shows "triple prompting (markOutcomeUnknown p m) (\<lambda>_. settled) settled"
  using assms
  by (auto simp: triple_def markOutcomeUnknown_def move_to_def bnd_def gets_def update_runtime_def modify_def runner_now_def
      outside_def throw_def ret_def require_that_def lift_res_def guard_res_def set_blocker_def persist_def prompting_def settled_def
      validateSessionStateTransition_def issue_if_def isValidSessionTransition_def
      split: list.splits prod.splits sum.splits if_splits)

lemma trim_prefix:
  assumes "\<not> js_space x"
  shows "trim (x # xs) \<noteq> []"
  using assms by (simp add: trim_def dropWhile_append)

lemma triple_any: "triple P m (\<lambda>_ _. True) (\<lambda>_. True)"
  by (simp add: triple_def split: prod.splits sum.splits)

lemma instruction_body:
  "triple prompting (catch_with
       (bnd (outside (xp_prompt p i' r t)) (\<lambda>(items, ending).
        bnd (for_each items (\<lambda>i _. stream_event p z i) ()) (\<lambda>_. case ending of Some e \<Rightarrow> throw e | None \<Rightarrow> gets rn_runtime)))
       (\<lambda>e. bnd (markOutcomeUnknown p (''executor_prompt_exception: '' @ error_text e)) (\<lambda>_. throw e))) (\<lambda>_. prompting) settled"
proof (rule triple_catch)
  show "triple prompting (bnd (outside (xp_prompt p i' r t)) (\<lambda>(items, ending).
        bnd (for_each items (\<lambda>i _. stream_event p z i) ()) (\<lambda>_. case ending of Some e \<Rightarrow> throw e | None \<Rightarrow> gets rn_runtime)))
      (\<lambda>_. prompting) prompting"
    by (rule triple_bnd keep_outside [OF prompting_env] triple_for_each [where I = "\<lambda>_. prompting"] prompting_event triple_option
        triple_throw keep_gets | assumption | simp only: split_paired_all prod.case)+
  show "triple prompting (bnd (markOutcomeUnknown p (''executor_prompt_exception: '' @ error_text e)) (\<lambda>_. throw e))
      (\<lambda>_. prompting) settled" for e
    by (rule triple_bnd, rule unknown_settles) (auto intro!: trim_prefix triple_throw simp: js_space_def)
qed

text \<open>C19: a prompt that was let through and throws, in the executor, in an event or in writing, never leaves the session
  running, waiting or delivering: its outcome is unknown, or the events had settled it before.\<close>

theorem prompt_exception_settles:
  assumes "sr_status (rn_runtime c) \<in> {DRunning, DWaitingInput}" "trim i \<noteq> []" "trim t \<noteq> []"
    and "sendInstruction p z i t c = (Inl e, c')"
  shows "sr_status (rn_runtime c') \<in> {DBlocked, DOutcomeUnknown, DFailed, DCancelled}"
proof -
  have "prompting c" using assms(1) by (auto simp: prompting_def)
  moreover from assms have "catch_with
       (bnd (outside (xp_prompt p (taskIdentity z) (trim i) t)) (\<lambda>(items, ending).
        bnd (for_each items (\<lambda>i _. stream_event p z i) ()) (\<lambda>_. case ending of Some e \<Rightarrow> throw e | None \<Rightarrow> gets rn_runtime)))
       (\<lambda>e. bnd (markOutcomeUnknown p (''executor_prompt_exception: '' @ error_text e)) (\<lambda>_. throw e)) c = (Inl e, c')"
    by (auto simp: sendInstruction_def require_status_def bnd_run gets_def require_that_def lift_res_def)
  ultimately show ?thesis using tripleD_err [OF instruction_body] by (fastforce simp: settled_def)
qed

text \<open>A group with one session, ports whose executor asks a question and is lost, and a runner in a given status.\<close>

definition demo_runner_spec :: runner_spec where
  "demo_runner_spec = \<lparr>rz_group = \<lparr>gd_contract = ZERO3_DEVELOPMENT_GROUP_CONTRACT, gd_groupId = ''g'', gd_repository = ''/repo'',
     gd_masterGoal = ''goal'', gd_masterPrompt = ''prompt'', gd_developmentPlan = ''plan'', gd_planHash = ''hash'', gd_baselineSha = ''base'',
     gd_integrationRef = ''main'', gd_requirementIds = [], gd_waveIds = [''w1''], gd_sessionIds = [''s1''], gd_policy = demo_group_policy,
     gd_createdAt = ''t''\<rparr>, rz_session = demo_session_definition ''s1'' ''w1'' [], rz_requirements = []\<rparr>"

definition demo_bound :: executor_session where
  "demo_bound = \<lparr>sn_executorId = ''codex'', sn_sessionId = ''x1'', sn_generation = 1, sn_startedAt = ''t''\<rparr>"

definition demo_session_ports :: "nat session_ports" where
  "demo_session_ports = \<lparr>xp_start = (\<lambda>_ _ _. ret demo_bound), xp_startFromHandoff = (\<lambda>_ _ _ _. ret demo_bound),
     xp_resume = (\<lambda>_ _ _ _ _. ret demo_bound),
     xp_prompt = (\<lambda>_ _ _. ret ([(Suc, \<lparr>xe_sequence = 1, xe_at = ''t'', xe_body = PermissionRequested ''q'' ''write'' None\<rparr>)],
       Some (Error ''the process died''))),
     xp_respond = (\<lambda>_ _ _. ret ()), xp_cancel = (\<lambda>_ _. ret ()), xp_close = (\<lambda>_ _. ret ()), xp_active = (\<lambda>_ _ _. None),
     xp_save = (\<lambda>_. ret ()), xp_sink = (\<lambda>_ _. ret ()), xp_clock = (\<lambda>n. (''t'', Suc n))\<rparr>"

definition demo_runner :: "session_status \<Rightarrow> nat runner" where
  "demo_runner st = \<lparr>rn_runtime = demo_session_runtime ''s1'' st, rn_env = 0\<rparr>"

definition demo_lost_prompt :: "session_runtime res \<times> nat runner" where
  "demo_lost_prompt = sendInstruction demo_session_ports demo_runner_spec ''r1'' ''go'' (demo_runner DRunning)"

lemma demo_lost_prompt_throws: "\<exists>e. demo_lost_prompt = (Inl e, snd demo_lost_prompt)"
proof -
  have "case fst demo_lost_prompt of Inl e \<Rightarrow> True | Inr r \<Rightarrow> False" by code_simp
  then obtain e where "fst demo_lost_prompt = Inl e" by (cases "fst demo_lost_prompt") auto
  then show ?thesis by (metis prod.collapse)
qed

theorem prompt_exception_settles_witness:
  "sr_status (rn_runtime (snd demo_lost_prompt)) \<in> {DBlocked, DOutcomeUnknown, DFailed, DCancelled}"
proof -
  obtain e where e: "sendInstruction demo_session_ports demo_runner_spec ''r1'' ''go'' (demo_runner DRunning) = (Inl e, snd demo_lost_prompt)"
    using demo_lost_prompt_throws unfolding demo_lost_prompt_def by blast
  have "sr_status (rn_runtime (demo_runner DRunning)) \<in> {DRunning, DWaitingInput}" by code_simp
  moreover have "trim ''r1'' \<noteq> []" "trim ''go'' \<noteq> []" by code_simp+
  ultimately show ?thesis by (rule prompt_exception_settles [OF _ _ _ e])
qed

section \<open>Quarantine\<close>

text \<open>C21: a session whose outcome is unknown is quarantined: it is not made ready, retried, started, resumed, prompted or
  answered; each of these throws before it calls anything or changes anything.\<close>

theorem unknown_is_quarantined:
  assumes "sr_status (rn_runtime c) = DOutcomeUnknown" "x \<notin> {OpCancel, OpClose}" "\<And>m. x \<noteq> OpUnknown m"
  shows "\<exists>e. session_op_run p z x c = (Inl e, c)"
  using assms
  by (cases x) (auto simp: markReady_def prepareRetry_def start_session_def startFromHandoff_session_def resume_session_def
      sendInitialInstruction_def sendInstruction_def respondPermission_session_def require_status_def bnd_run gets_def require_that_def
      lift_res_def guard_res_def split: sum.splits)

theorem unknown_is_quarantined_witness:
  "\<exists>e. session_op_run demo_session_ports demo_runner_spec OpStart (demo_runner DOutcomeUnknown) = (Inl e, demo_runner DOutcomeUnknown)"
proof -
  have "sr_status (rn_runtime (demo_runner DOutcomeUnknown)) = DOutcomeUnknown" by code_simp
  then show ?thesis by (rule unknown_is_quarantined) simp_all
qed

end
