(* ===== verification/GroupLifecycle.thy ===== *)
theory GroupLifecycle
  imports GroupController
begin

text \<open>
  \<open>group-runtime/runtime/session-lifecycle.ts\<close>: how the durable state of a development session changes outside its runner,
  when a delivery is accepted, integrated or verified, or an interrupted prompt is found; and \<open>record-reader.ts\<close>, which
  reads everything a group has written.
\<close>

section \<open>Session lifecycle\<close>

definition transition_session :: "session_runtime \<Rightarrow> session_status \<Rightarrow> (session_runtime \<Rightarrow> session_runtime) \<Rightarrow> session_runtime group_eff" where
  "transition_session r st patch = (case validateSessionStateTransition (sr_status r) st of
     i # _ \<Rightarrow> throw (Error (is_message i))
   | [] \<Rightarrow> bnd group_now (\<lambda>t. ret ((patch r)\<lparr>sr_status := st, sr_updatedAt := t\<rparr>)))"

definition move_session :: "session_runtime \<Rightarrow> session_status \<Rightarrow> (session_runtime \<Rightarrow> session_runtime) \<Rightarrow> session_runtime group_eff" where
  "move_session r st patch = bnd (transition_session r st patch) (\<lambda>r'. bnd (writeSession r') (\<lambda>_. ret r'))"

definition with_blocker :: "string \<Rightarrow> session_runtime \<Rightarrow> session_runtime" where
  "with_blocker b r = r\<lparr>sr_blocker := Some b, sr_undefined := []\<rparr>"

text \<open>\<open>{ headSha, blocker: undefined }\<close>: the key is there and holds \<open>undefined\<close>.\<close>

definition with_head :: "string \<Rightarrow> session_runtime \<Rightarrow> session_runtime" where
  "with_head sha r = r\<lparr>sr_headSha := Some sha, sr_blocker := None, sr_undefined := [''blocker'']\<rparr>"

definition existingDelivery :: "string \<Rightarrow> string \<Rightarrow> delivery option group_eff" where
  "existingDelivery g s = catch_with (bnd (loadDelivery g s) (\<lambda>d. ret (Some d)))
     (\<lambda>e. if e = NoEntry then ret None else throw e)"

definition reconcileInterruptedExecutorRuntime :: "string \<Rightarrow> string \<Rightarrow> bool \<Rightarrow> session_runtime group_eff" where
  "reconcileInterruptedExecutorRuntime g s processOwnsPrompt = bnd (loadSession g s) (\<lambda>r.
     if processOwnsPrompt \<or> sr_status r \<notin> set [DStarting, DRunning, DWaitingInput] then ret r
     else move_session r DOutcomeUnknown (with_blocker ''runtime_restart_without_authoritative_executor_outcome''))"

datatype resolution = ResolveFailed | ResolveCancelled | ResolveSuperseded

fun resolution_status :: "resolution \<Rightarrow> session_status" where
  "resolution_status ResolveFailed = DFailed"
| "resolution_status ResolveCancelled = DCancelled"
| "resolution_status ResolveSuperseded = DSuperseded"

definition resolveSessionOutcomeUnknown :: "string \<Rightarrow> string \<Rightarrow> resolution \<Rightarrow> string \<Rightarrow> session_runtime group_eff" where
  "resolveSessionOutcomeUnknown g s res evidence =
     bnd (require_that (trim evidence \<noteq> []) (Error ''OutcomeUnknown recovery requires explicit evidence/reason'')) (\<lambda>_.
     bnd (loadSession g s) (\<lambda>r.
     bnd (require_that (sr_status r = DOutcomeUnknown)
       (Error (''Session '' @ s @ '' is not OutcomeUnknown; got '' @ session_status_text (sr_status r)))) (\<lambda>_.
     move_session r (resolution_status res)
       (with_blocker (''outcome_unknown_resolved:'' @ session_status_text (resolution_status res) @ '':'' @ trim evidence)))))"

definition markSessionBlocked :: "string \<Rightarrow> string \<Rightarrow> string \<Rightarrow> session_runtime group_eff" where
  "markSessionBlocked g s blocker = bnd (loadSession g s) (\<lambda>r.
     if sr_status r = DBlocked \<and> sr_blocker r = Some blocker then ret r else move_session r DBlocked (with_blocker blocker))"

fun delivery_next :: "delivery_status \<Rightarrow> session_status" where
  "delivery_next DeliveryCompleted = DDelivered"
| "delivery_next DeliveryBlocked = DBlocked"
| "delivery_next DeliveryFailed = DFailed"
| "delivery_next DeliveryCancelled = DCancelled"
| "delivery_next DeliveryOutcomeUnknown = DOutcomeUnknown"

fun delivery_status_text :: "delivery_status \<Rightarrow> string" where
  "delivery_status_text DeliveryCompleted = ''completed''"
| "delivery_status_text DeliveryBlocked = ''blocked''"
| "delivery_status_text DeliveryFailed = ''failed''"
| "delivery_status_text DeliveryCancelled = ''cancelled''"
| "delivery_status_text DeliveryOutcomeUnknown = ''outcome_unknown''"

definition accepted_patch :: "delivery \<Rightarrow> session_runtime \<Rightarrow> session_runtime" where
  "accepted_patch d = (if dl_status d = DeliveryCompleted then with_head (dl_headSha d)
     else with_blocker (''delivery_'' @ delivery_status_text (dl_status d)) \<circ> (\<lambda>r. r\<lparr>sr_headSha := Some (dl_headSha d)\<rparr>))"

text \<open>Accepting a delivery: the guards, then the two writes.\<close>

definition accept_guard :: "session_definition \<Rightarrow> delivery \<Rightarrow> gate_result \<Rightarrow> (delivery option \<times> session_runtime) group_eff" where
  "accept_guard s d gate =
     bnd (require_that (gr_accept gate) (Error (''Delivery rejected: '' @ js_join ''; '' (gr_reasons gate)))) (\<lambda>_.
     bnd (require_that (validateDevelopmentDelivery d s = [])
       (Error (''Delivery contract invalid: '' @ js_join ''; '' (map is_message (validateDevelopmentDelivery d s))))) (\<lambda>_.
     bnd (existingDelivery (dl_groupId d) (dl_sessionId d)) (\<lambda>prior.
     bnd (require_that (case prior of None \<Rightarrow> True | Some p \<Rightarrow> dl_deliveryHash p = dl_deliveryHash d)
       (Error ''a different Delivery is already durable for this Session'')) (\<lambda>_.
     bnd (loadSession (dl_groupId d) (dl_sessionId d)) (\<lambda>r. ret (prior, r))))))"

definition already_accepted :: "delivery option \<Rightarrow> session_runtime \<Rightarrow> bool" where
  "already_accepted prior r \<longleftrightarrow> prior \<noteq> None \<and> sr_status r \<in> {DDelivered, DIntegrating, DIntegrated, DVerified}"

definition acceptDevelopmentDelivery :: "session_definition \<Rightarrow> delivery \<Rightarrow> gate_result \<Rightarrow> session_runtime group_eff" where
  "acceptDevelopmentDelivery s d gate = bnd (accept_guard s d gate) (\<lambda>(prior, r).
     if already_accepted prior r then ret r
     else bnd (require_that (sr_status r = DDelivering)
         (Error (''Session must be delivering before Delivery acceptance; got '' @ session_status_text (sr_status r)))) (\<lambda>_.
       bnd (writeDelivery d) (\<lambda>_. move_session r (delivery_next (dl_status d)) (accepted_patch d))))"

definition reconcileAcceptedDelivery :: "session_definition \<Rightarrow> session_runtime group_eff" where
  "reconcileAcceptedDelivery s = bnd (loadSession (se_groupId s) (se_sessionId s)) (\<lambda>r.
     if sr_status r \<noteq> DDelivering then ret r
     else bnd (existingDelivery (se_groupId s) (se_sessionId s)) (\<lambda>prior. case prior of
       None \<Rightarrow> ret r
     | Some d \<Rightarrow> if validateDevelopmentDelivery d s \<noteq> [] \<or> dl_status d \<noteq> DeliveryCompleted then ret r
         else move_session r DDelivered (with_head (dl_headSha d))))"

definition markSessionIntegrating :: "string \<Rightarrow> string \<Rightarrow> session_runtime group_eff" where
  "markSessionIntegrating g s = bnd (loadSession g s) (\<lambda>r. if sr_status r = DIntegrating then ret r else move_session r DIntegrating id)"

fun milestone_status_text :: "milestone_status \<Rightarrow> string" where
  "milestone_status_text MilestonePending = ''pending''"
| "milestone_status_text MilestoneMerged = ''merged''"
| "milestone_status_text MilestoneConflict = ''conflict''"
| "milestone_status_text MilestoneFailed = ''failed''"

definition milestone_blocker :: "milestone \<Rightarrow> string" where
  "milestone_blocker m = (let c = js_join ''; '' (ml_conflicts m) in if c \<noteq> [] then c else ''integration_'' @ milestone_status_text (ml_status m))"

definition applyIntegrationMilestone :: "string \<Rightarrow> milestone \<Rightarrow> session_runtime group_eff" where
  "applyIntegrationMilestone s m = bnd (loadSession (ml_groupId m) s) (\<lambda>r.
     if ml_status m = MilestoneMerged
     then if sr_status r = DIntegrated \<and> sr_headSha r = Some (ml_headSha m) then ret r else move_session r DIntegrated (with_head (ml_headSha m))
     else move_session r DBlocked (with_blocker (milestone_blocker m)))"

definition markSessionVerified :: "string \<Rightarrow> string \<Rightarrow> verification_run \<Rightarrow> session_runtime group_eff" where
  "markSessionVerified g s run = bnd (loadSession g s) (\<lambda>r.
     if sr_status r = DVerified then ret r
     else bnd (require_that (sr_status r = DIntegrated)
         (Error (''Session must be integrated before verification; got '' @ session_status_text (sr_status r)))) (\<lambda>_.
       bnd (require_that (vn_status run = RunPassed) (Error ''Session cannot be marked verified from a non-passed Verification Run'')) (\<lambda>_.
       move_session r DVerified (with_head (vn_integrationSha run)))))"

section \<open>Reading the records\<close>

record group_records =
  rd_runtimes :: "session_runtime list"
  rd_deliveries :: "delivery list"
  rd_integrations :: "milestone list"
  rd_verifications :: "verification_run list"
  rd_failures :: "failure_record list"
  rd_repairs :: "repair_task list"

text \<open>The order of \<open>localeCompare\<close>, as the sorting of records by a list of texts; it is stable.\<close>

record record_order =
  ro_runtimes :: "session_runtime list \<Rightarrow> session_runtime list"
  ro_deliveries :: "delivery list \<Rightarrow> delivery list"
  ro_integrations :: "milestone list \<Rightarrow> milestone list"
  ro_verifications :: "verification_run list \<Rightarrow> verification_run list"
  ro_failures :: "failure_record list \<Rightarrow> failure_record list"
  ro_repairs :: "repair_task list \<Rightarrow> repair_task list"

text \<open>The files of a directory are read in the order of their names; the first that cannot be read ends the reading.\<close>

definition listJsonRecords :: "(group_platform \<Rightarrow> 'a \<Rightarrow> string) \<Rightarrow> string \<Rightarrow> string \<Rightarrow> string \<Rightarrow>
    (group_files \<Rightarrow> (string \<times> 'a durable_text) list) \<Rightarrow> 'a list group_eff" where
  "listJsonRecords cks dir folder start files =
     bnd (gets (\<lambda>w. sort_key (\<lambda>k. start @ k @ ''.json'') (map fst (files (group_at w dir))))) (\<lambda>names.
     for_each names (\<lambda>k acc. bnd (read_text cks dir (folder @ ''/'' @ start @ k @ ''.json'') (\<lambda>f. map_of (files f) k)) (\<lambda>x. ret (acc @ [x]))) [])"

definition loadDurableGroupRecords :: "record_order \<Rightarrow> planning_proposal \<Rightarrow> group_records group_eff" where
  "loadDurableGroupRecords o' plan = (let g = gd_groupId (pp_definition plan) in
     bnd (groupDir g) (\<lambda>dir.
     bnd (load_sessions g (pp_sessions plan)) (\<lambda>rts.
     bnd (listJsonRecords gq_deliverySum dir ''deliveries'' [] gf_deliveries) (\<lambda>ds.
     bnd (listJsonRecords gq_milestoneSum dir ''integration'' [] gf_integrations) (\<lambda>is.
     bnd (listJsonRecords gq_verificationSum dir ''verification'' [] gf_verifications) (\<lambda>vs.
     bnd (listJsonRecords gq_failureSum dir ''repair'' ''failure-'' gf_failures) (\<lambda>fs.
     bnd (listJsonRecords gq_repairSum dir ''repair'' [] gf_repairs) (\<lambda>rs.
     ret \<lparr>rd_runtimes = ro_runtimes o' rts, rd_deliveries = ro_deliveries o' ds, rd_integrations = ro_integrations o' is,
       rd_verifications = ro_verifications o' vs, rd_failures = ro_failures o' fs, rd_repairs = ro_repairs o' rs\<rparr>))))))))"

end
