(* ===== verification/GroupRunner.thy ===== *)
theory GroupRunner
  imports GroupSession GroupLifecycle
begin

text \<open>
  \<open>sessionRunner\<close> of \<open>group-runtime/controller/group-controller.ts\<close>: the runner of a session, on the durable store of the
  groups. The executor manager has a state of its own, \<open>'m\<close>, beside the store; what happens outside between two events of a
  prompt happens there.
\<close>

definition on_manager :: "('m, 'a) eff \<Rightarrow> ('m \<times> group_world, 'a) eff" where
  "on_manager m = (\<lambda>(a, w). case m a of (r, a') \<Rightarrow> (r, (a', w)))"

definition on_store :: "'a group_eff \<Rightarrow> ('m \<times> group_world, 'a) eff" where
  "on_store m = (\<lambda>(a, w). case m w of (r, w') \<Rightarrow> (r, (a, w')))"

definition beside_store :: "('m \<Rightarrow> 'm) \<times> executor_event \<Rightarrow> ('m \<times> group_world \<Rightarrow> 'm \<times> group_world) \<times> executor_event" where
  "beside_store i = (map_prod (fst i) id, snd i)"

definition store_ports :: "'m manager_ports \<Rightarrow> ('m \<times> group_world) session_ports" where
  "store_ports mp = \<lparr>xp_start = (\<lambda>k i pc. on_manager (xp_start mp k i pc)),
     xp_startFromHandoff = (\<lambda>k i pc c. on_manager (xp_startFromHandoff mp k i pc c)),
     xp_resume = (\<lambda>k i pc x c. on_manager (xp_resume mp k i pc x c)),
     xp_prompt = (\<lambda>i r t. bnd (on_manager (xp_prompt mp i r t)) (\<lambda>(items, ending). ret (map beside_store items, ending))),
     xp_respond = (\<lambda>t x d. on_manager (xp_respond mp t x d)),
     xp_cancel = (\<lambda>t x. on_manager (xp_cancel mp t x)),
     xp_close = (\<lambda>t x. on_manager (xp_close mp t x)),
     xp_active = (\<lambda>t x s. xp_active mp t x (fst s)),
     xp_save = (\<lambda>r. on_store (writeSession r)),
     xp_sink = (\<lambda>_ _. ret ()),
     xp_clock = (\<lambda>(a, w). (gq_clock (gx_platform w) (gx_ticks w), (a, w\<lparr>gx_ticks := Suc (gx_ticks w)\<rparr>)))\<rparr>"

definition sessionRunner :: "path_module \<Rightarrow> string \<Rightarrow> string \<Rightarrow> (runner_spec \<times> session_runtime) group_eff" where
  "sessionRunner pm g s = bnd (loadPlan g) (\<lambda>plan.
     case find_key se_sessionId s (pp_sessions plan) of
       None \<Rightarrow> throw (Error (''unknown Development Session '' @ s))
     | Some persisted \<Rightarrow> bnd (lift_res (resolveSessionWorktree pm (pp_definition plan) persisted)) (\<lambda>session.
         bnd (loadSession g s) (\<lambda>r.
         let z = \<lparr>rz_group = pp_definition plan, rz_session = session, rz_requirements = pp_requirements plan\<rparr> in
         bnd (lift_res (new_runner z r ())) (\<lambda>_. ret (z, r)))))"

text \<open>One operation of a runner made for it, as the desktop does for an answer or a cancellation.\<close>

definition on_runner :: "runner_spec \<times> session_runtime \<Rightarrow> ('s runner, 'a) eff \<Rightarrow> ('s, session_runtime \<times> 'a) eff" where
  "on_runner k m = (\<lambda>s. case m \<lparr>rn_runtime = snd k, rn_env = s\<rparr> of
     (Inl e, c) \<Rightarrow> (Inl e, rn_env c) | (Inr x, c) \<Rightarrow> (Inr (rn_runtime c, x), rn_env c))"

definition with_runner :: "path_module \<Rightarrow> 'm manager_ports \<Rightarrow> string \<Rightarrow> string \<Rightarrow>
    (('m \<times> group_world) session_ports \<Rightarrow> runner_spec \<Rightarrow> (('m \<times> group_world) runner, 'a) eff) \<Rightarrow> ('m \<times> group_world, session_runtime \<times> 'a) eff" where
  "with_runner pm mp g s m = bnd (on_store (sessionRunner pm g s)) (\<lambda>k. on_runner k (m (store_ports mp) (fst k)))"

end
