(* ===== verification/GroupLifecycleCorrectness.thy ===== *)
theory GroupLifecycleCorrectness
  imports GroupLifecycle GroupControllerCorrectness GroupWorkspaceCorrectness
begin

text \<open>
  The properties of the session lifecycle: accepting a delivery survives a crash between its two writes; every change of
  a durable session follows the table and touches that session alone; and a session written as delivered, integrated or
  verified has an undefined blocker and cannot be read afterwards.
\<close>

section \<open>The files of a session\<close>

definition put_session :: "string \<Rightarrow> string \<Rightarrow> session_runtime \<Rightarrow> group_world \<Rightarrow> group_world" where
  "put_session dir k r w = put_group dir ((group_at w dir)\<lparr>gf_sessions := put_record (gq_sessionSum (gx_platform w)) session_stored k r
     (gf_sessions (group_at w dir))\<rparr>) w"

definition put_delivery :: "string \<Rightarrow> string \<Rightarrow> delivery \<Rightarrow> group_world \<Rightarrow> group_world" where
  "put_delivery dir k d w = put_group dir ((group_at w dir)\<lparr>gf_deliveries := put_record (gq_deliverySum (gx_platform w)) id k d
     (gf_deliveries (group_at w dir))\<rparr>) w"

definition session_file :: "string \<Rightarrow> string \<Rightarrow> (string \<times> string) option" where
  "session_file g s = (case (assertSafeId g ''groupId'', assertSafeId s ''sessionId'') of (Inr dir, Inr k) \<Rightarrow> Some (dir, k) | _ \<Rightarrow> None)"

lemma put_group_simps [simp]: "gx_platform (put_group dir f w) = gx_platform w" "gx_ticks (put_group dir f w) = gx_ticks w"
  by (simp_all add: put_group_def)

lemma put_simps [simp]:
  "gx_platform (put_session dir k r w) = gx_platform w" "gx_platform (put_delivery dir k d w) = gx_platform w"
  "gx_ticks (put_session dir k r w) = gx_ticks w" "gx_ticks (put_delivery dir k d w) = gx_ticks w"
  by (simp_all add: put_session_def put_delivery_def)

lemma sessions_put [simp]:
  "gf_sessions (group_at (put_delivery dir k d w) e) = gf_sessions (group_at w e)"
  "map_of (gf_sessions (group_at (put_session dir k r w) e)) j =
     (if e = dir \<and> j = k then Some (written_text (gq_sessionSum (gx_platform w)) session_stored r) else map_of (gf_sessions (group_at w e)) j)"
  by (auto simp: put_session_def put_delivery_def group_at_put put_record_def update_conv')

lemma deliveries_put [simp]:
  "gf_deliveries (group_at (put_session dir k r w) e) = gf_deliveries (group_at w e)"
  "map_of (gf_deliveries (group_at (put_delivery dir k d w) e)) j =
     (if e = dir \<and> j = k then Some (durable_envelope (gq_deliverySum (gx_platform w)) d) else map_of (gf_deliveries (group_at w e)) j)"
  by (auto simp: put_session_def put_delivery_def group_at_put put_record_def update_conv' written_same)

lemma writeSession_run:
  "session_file (sr_groupId r) (sr_sessionId r) = Some (dir, k) \<Longrightarrow> writeSession r w = (Inr (), put_session dir k r w)"
  by (auto simp: writeSession_def groupDir_def session_file_def put_session_def in_group_def bnd_run eff_defs split: sum.splits)

lemma writeDelivery_run:
  "session_file (dl_groupId d) (dl_sessionId d) = Some (dir, k) \<Longrightarrow> writeDelivery d w = (Inr (), put_delivery dir k d w)"
  by (auto simp: writeDelivery_def groupDir_def session_file_def put_delivery_def in_group_def bnd_run eff_defs split: sum.splits)

lemma writeSession_unsafe: "session_file (sr_groupId r) (sr_sessionId r) = None \<Longrightarrow> \<exists>e. writeSession r w = (Inl e, w)"
  by (auto simp: writeSession_def groupDir_def session_file_def bnd_run eff_defs split: sum.splits)

lemma writeDelivery_unsafe: "session_file (dl_groupId d) (dl_sessionId d) = None \<Longrightarrow> \<exists>e. writeDelivery d w = (Inl e, w)"
  by (auto simp: writeDelivery_def groupDir_def session_file_def bnd_run eff_defs split: sum.splits)

text \<open>What is written there, if it can be read.\<close>

definition session_of :: "group_world \<Rightarrow> string \<Rightarrow> string \<Rightarrow> session_runtime option" where
  "session_of w g s = (case fst (loadSession g s w) of Inl e \<Rightarrow> None | Inr r \<Rightarrow> Some r)"

lemma loadSession_reads [simp]: "snd (loadSession g s w) = w"
  by (auto simp: loadSession_def groupDir_def read_text_def bnd_run eff_defs split: sum.splits option.splits)

lemma loadDelivery_reads [simp]: "snd (loadDelivery g s w) = w"
  by (auto simp: loadDelivery_def groupDir_def read_text_def bnd_run eff_defs split: sum.splits option.splits)

lemma loadSession_run: "loadSession g s w = (fst (loadSession g s w), w)"
  by (metis loadSession_reads prod.collapse)

lemma loadSession_Inr_iff:
  "loadSession g s w = (Inr r, w') \<longleftrightarrow> w' = w \<and> (\<exists>dir k. session_file g s = Some (dir, k) \<and>
     map_of (gf_sessions (group_at w dir)) k = Some (durable_envelope (gq_sessionSum (gx_platform w)) r))"
  by (auto simp: loadSession_def groupDir_def session_file_def read_text_def bnd_run eff_defs parse_envelope_Inr_iff
      split: sum.splits option.splits)

lemma loadDelivery_Inr_iff:
  "loadDelivery g s w = (Inr d, w') \<longleftrightarrow> w' = w \<and> (\<exists>dir k. session_file g s = Some (dir, k) \<and>
     map_of (gf_deliveries (group_at w dir)) k = Some (durable_envelope (gq_deliverySum (gx_platform w)) d))"
  by (auto simp: loadDelivery_def groupDir_def session_file_def read_text_def bnd_run eff_defs parse_envelope_Inr_iff
      split: sum.splits option.splits)

lemma session_of_Some_iff: "session_of w g s = Some r \<longleftrightarrow> loadSession g s w = (Inr r, w)"
  by (subst loadSession_run) (auto simp: session_of_def split: sum.splits)

lemma existingDelivery_reads [simp]: "snd (existingDelivery g s w) = w"
proof (cases "loadDelivery g s w")
  case (Pair r w2)
  with loadDelivery_reads [of g s w] have "w2 = w" by simp
  with Pair show ?thesis by (cases r) (auto simp: existingDelivery_def catch_with_def bnd_run eff_defs)
qed

lemma existingDelivery_Inr_iff:
  "existingDelivery g s w = (Inr p, w') \<longleftrightarrow> w' = w \<and> (case p of
     Some d \<Rightarrow> loadDelivery g s w = (Inr d, w) | None \<Rightarrow> fst (loadDelivery g s w) = Inl NoEntry)"
proof (cases "loadDelivery g s w")
  case (Pair r w2)
  with loadDelivery_reads [of g s w] have "w2 = w" by simp
  with Pair show ?thesis
    by (auto simp: existingDelivery_def catch_with_def bnd_run eff_defs split: sum.splits option.splits)
qed

lemma transition_run:
  "transition_session r st patch w = (if isValidSessionTransition (sr_status r) st
     then (Inr ((patch r)\<lparr>sr_status := st, sr_updatedAt := gq_clock (gx_platform w) (gx_ticks w)\<rparr>), ticked w)
     else (fst (transition_session r st patch w), w))"
  by (auto simp: transition_session_def validateSessionStateTransition_def issue_if_def group_now_def bnd_run eff_defs ticked_def)

lemma transition_invalid: "\<not> isValidSessionTransition (sr_status r) st \<Longrightarrow> \<exists>e. transition_session r st patch w = (Inl e, w)"
  by (auto simp: transition_session_def validateSessionStateTransition_def issue_if_def throw_def)

lemma move_session_run:
  assumes "isValidSessionTransition (sr_status r) st" "session_file (sr_groupId (patch r)) (sr_sessionId (patch r)) = Some (dir, k)"
    and "r' = (patch r)\<lparr>sr_status := st, sr_updatedAt := gq_clock (gx_platform w) (gx_ticks w)\<rparr>"
  shows "move_session r st patch w = (Inr r', put_session dir k r' (ticked w))"
  using assms by (simp add: move_session_def bnd_run transition_run writeSession_run ret_def)

lemma move_session_cases:
  obtains (invalid) e where "move_session r st patch w = (Inl e, w)"
  | (unsafe) e where "move_session r st patch w = (Inl e, ticked w)"
  | (moved) dir k r' where "isValidSessionTransition (sr_status r) st"
      "session_file (sr_groupId (patch r)) (sr_sessionId (patch r)) = Some (dir, k)"
      "r' = (patch r)\<lparr>sr_status := st, sr_updatedAt := gq_clock (gx_platform w) (gx_ticks w)\<rparr>"
      "move_session r st patch w = (Inr r', put_session dir k r' (ticked w))"
proof (cases "isValidSessionTransition (sr_status r) st")
  case False
  then obtain e where "transition_session r st patch w = (Inl e, w)" using transition_invalid by blast
  then show ?thesis by (intro invalid [of e]) (simp add: move_session_def bnd_run)
next
  case True
  show ?thesis
  proof (cases "session_file (sr_groupId (patch r)) (sr_sessionId (patch r))")
    case None
    let ?r = "(patch r)\<lparr>sr_status := st, sr_updatedAt := gq_clock (gx_platform w) (gx_ticks w)\<rparr>"
    obtain e where "writeSession ?r (ticked w) = (Inl e, ticked w)" using None writeSession_unsafe [of ?r "ticked w"] by auto
    with True have "\<exists>e. move_session r st patch w = (Inl e, ticked w)"
      by (simp add: move_session_def bnd_run transition_run)
    then show ?thesis by (auto intro: unsafe)
  next
    case (Some a)
    obtain dir k where a: "a = (dir, k)" by (cases a)
    from move_session_run [where r = r and patch = patch, OF True Some [unfolded a] refl] show ?thesis
      by (rule moved [OF True Some [unfolded a] refl])
  qed
qed

section \<open>Accepting a delivery\<close>

definition filed :: "string \<Rightarrow> string \<Rightarrow> session_runtime \<Rightarrow> bool" where
  "filed g s r \<longleftrightarrow> sr_groupId r = g \<and> sr_sessionId r = s"

lemma accept_guard_Inr_iff:
  "accept_guard s d gate w = (Inr (prior, r), w') \<longleftrightarrow> w' = w \<and> gr_accept gate \<and> validateDevelopmentDelivery d s = [] \<and>
     existingDelivery (dl_groupId d) (dl_sessionId d) w = (Inr prior, w) \<and>
     (case prior of None \<Rightarrow> True | Some p \<Rightarrow> dl_deliveryHash p = dl_deliveryHash d) \<and>
     loadSession (dl_groupId d) (dl_sessionId d) w = (Inr r, w)"
proof -
  obtain re wx where e: "existingDelivery (dl_groupId d) (dl_sessionId d) w = (re, wx)" by (cases "existingDelivery (dl_groupId d) (dl_sessionId d) w")
  show ?thesis
  proof (cases re)
    case (Inl err)
    with e show ?thesis by (auto simp: accept_guard_def bnd_run eff_defs guard_res_def)
  next
    case (Inr p)
    with e have e': "existingDelivery (dl_groupId d) (dl_sessionId d) w = (Inr p, w)" by (simp add: existingDelivery_Inr_iff)
    obtain rl where l: "loadSession (dl_groupId d) (dl_sessionId d) w = (rl, w)" using loadSession_run by blast
    show ?thesis unfolding accept_guard_def
      by (simp add: bnd_run e' l require_that_def lift_res_def guard_res_def ret_def split: sum.split) auto
  qed
qed

lemma put_group_last: "put_group dir f (put_group dir f' w) = put_group dir f w"
  by (simp add: put_group_def update_last)

lemma put_delivery_again: "put_delivery dir k d (put_delivery dir k d w) = put_delivery dir k d w"
  by (simp add: put_delivery_def put_group_last group_at_put put_record_def update_last)

lemma valid_delivery_identity:
  assumes "validateDevelopmentDelivery d s = []"
  shows "se_groupId s = dl_groupId d" "se_sessionId s = dl_sessionId d"
  using assms by (auto simp: validateDevelopmentDelivery_def)

lemma ticked_put [simp]: "gx_ticks (ticked w) = Suc (gx_ticks w)"
  by (simp add: ticked_def)

text \<open>Accepting for the first time: what is written.\<close>

lemma accept_first:
  assumes guard: "accept_guard s d gate w = (Inr (prior, r0), w)" and st: "sr_status r0 = DDelivering" and complete: "dl_status d = DeliveryCompleted"
    and filed: "filed (dl_groupId d) (dl_sessionId d) r0" and path: "session_file (dl_groupId d) (dl_sessionId d) = Some (dir, k)"
    and r: "r = (with_head (dl_headSha d) r0)\<lparr>sr_status := DDelivered, sr_updatedAt := gq_clock (gx_platform w) (gx_ticks w)\<rparr>"
  shows "acceptDevelopmentDelivery s d gate w = (Inr r, put_session dir k r (ticked (put_delivery dir k d w)))"
proof -
  have patch: "accepted_patch d r0 = with_head (dl_headSha d) r0" using complete by (simp add: accepted_patch_def with_head_def)
  have "move_session r0 (delivery_next (dl_status d)) (accepted_patch d) (put_delivery dir k d w) =
      (Inr r, put_session dir k r (ticked (put_delivery dir k d w)))"
    using st complete filed path
    by (intro move_session_run) (simp_all add: patch r isValidSessionTransition_def filed_def with_head_def)
  then show ?thesis
    using guard st path
    by (simp add: acceptDevelopmentDelivery_def bnd_run already_accepted_def writeDelivery_run require_that_def lift_res_def)
qed

lemma accept_cases:
  assumes run: "acceptDevelopmentDelivery s d gate w = (Inr r, w')" and complete: "dl_status d = DeliveryCompleted"
    and filed: "\<forall>r0. session_of w (dl_groupId d) (dl_sessionId d) = Some r0 \<longrightarrow> filed (dl_groupId d) (dl_sessionId d) r0"
  obtains (before) prior where "accept_guard s d gate w = (Inr (prior, r), w)" "already_accepted prior r" "w' = w"
  | (first) prior r1 dir k where "accept_guard s d gate w = (Inr (prior, r1), w)" "sr_status r1 = DDelivering"
      "filed (dl_groupId d) (dl_sessionId d) r1" "session_file (dl_groupId d) (dl_sessionId d) = Some (dir, k)"
      "r = (with_head (dl_headSha d) r1)\<lparr>sr_status := DDelivered, sr_updatedAt := gq_clock (gx_platform w) (gx_ticks w)\<rparr>"
      "w' = put_session dir k r (ticked (put_delivery dir k d w))"
proof -
  from run obtain prior r1 where guard: "accept_guard s d gate w = (Inr (prior, r1), w)"
    by (auto simp: acceptDevelopmentDelivery_def accept_guard_Inr_iff elim!: bnd_Inr_E)
  then have load: "loadSession (dl_groupId d) (dl_sessionId d) w = (Inr r1, w)" by (simp add: accept_guard_Inr_iff)
  then obtain dir k where path: "session_file (dl_groupId d) (dl_sessionId d) = Some (dir, k)" by (auto simp: loadSession_Inr_iff)
  from load filed have f1: "filed (dl_groupId d) (dl_sessionId d) r1" by (simp add: session_of_Some_iff)
  show ?thesis
  proof (cases "already_accepted prior r1")
    case True
    with run guard have "w' = w" "r = r1" by (auto simp: acceptDevelopmentDelivery_def bnd_run ret_def)
    with guard True before show ?thesis by simp
  next
    case False
    with run guard have st: "sr_status r1 = DDelivering"
      by (auto simp: acceptDevelopmentDelivery_def bnd_run require_that_def lift_res_def guard_res_def split: if_splits)
    from accept_first [OF guard st complete f1 path refl] run show ?thesis
      by (intro first [OF guard st f1 path]) auto
  qed
qed

text \<open>A crash after the first write.\<close>

lemma accepted_half:
  assumes guard: "accept_guard s d gate w = (Inr (prior, r1), w)" and st: "sr_status r1 = DDelivering" and complete: "dl_status d = DeliveryCompleted"
    and filed: "filed (dl_groupId d) (dl_sessionId d) r1" and path: "session_file (dl_groupId d) (dl_sessionId d) = Some (dir, k)"
    and r: "r = (with_head (dl_headSha d) r1)\<lparr>sr_status := DDelivered, sr_updatedAt := gq_clock (gx_platform w) (gx_ticks w)\<rparr>"
    and w': "w' = put_session dir k r (ticked (put_delivery dir k d w))"
  shows "acceptDevelopmentDelivery s d gate (snd (writeDelivery d w)) = (Inr r, w')"
    "reconcileAcceptedDelivery s (snd (writeDelivery d w)) = (Inr r, w')"
proof -
  let ?g = "dl_groupId d" and ?s = "dl_sessionId d" and ?w = "put_delivery dir k d w"
  note g = guard [unfolded accept_guard_Inr_iff]
  have ids: "se_groupId s = ?g" "se_sessionId s = ?s" using g valid_delivery_identity by blast+
  have wd: "snd (writeDelivery d w) = ?w" using path by (simp add: writeDelivery_run)
  have loads: "loadDelivery ?g ?s ?w = (Inr d, ?w)" "loadSession ?g ?s ?w = (Inr r1, ?w)"
    using path g by (auto simp: loadDelivery_Inr_iff loadSession_Inr_iff)
  then have ex: "existingDelivery ?g ?s ?w = (Inr (Some d), ?w)" by (simp add: existingDelivery_Inr_iff)
  with loads have "accept_guard s d gate ?w = (Inr (Some d, r1), ?w)"
    using g by (simp add: accept_guard_Inr_iff existingDelivery_Inr_iff)
  from accept_first [OF this st complete filed path, of r] show "acceptDevelopmentDelivery s d gate (snd (writeDelivery d w)) = (Inr r, w')"
    by (simp add: r w' wd put_delivery_again)
  have "move_session r1 DDelivered (with_head (dl_headSha d)) ?w = (Inr r, w')"
    using st filed path unfolding w'
    by (intro move_session_run) (simp_all add: r isValidSessionTransition_def filed_def with_head_def)
  then show "reconcileAcceptedDelivery s (snd (writeDelivery d w)) = (Inr r, w')"
    using loads st complete g by (simp add: reconcileAcceptedDelivery_def bnd_run ids ex wd)
qed

text \<open>What was written with an undefined blocker cannot be read.\<close>

lemma loadSession_mismatch:
  assumes "session_file g s = Some (dir, k)" "undefined_shows (gx_platform w)" "sr_undefined r \<noteq> []"
    and "map_of (gf_sessions (group_at w dir)) k = Some (written_text (gq_sessionSum (gx_platform w)) session_stored r)"
  shows "loadSession g s w = (Inl (DurableStoreCorruptionError (group_path (gx_platform w) dir (''sessions/'' @ k @ ''.json'') @ '' checksum mismatch'')), w)"
proof -
  have "gq_sessionSum (gx_platform w) (session_stored r) \<noteq> gq_sessionSum (gx_platform w) r" using assms(2,3) by (simp add: undefined_shows_def)
  with assms(1,4) show ?thesis
    by (auto simp: loadSession_def groupDir_def session_file_def read_text_def bnd_run eff_defs parse_written split: sum.splits)
qed

lemma accepted_unreadable:
  assumes law: "undefined_shows (gx_platform w)" and guard: "accept_guard s d gate w = (Inr (prior, r1), w)"
    and path: "session_file (dl_groupId d) (dl_sessionId d) = Some (dir, k)"
    and w': "w' = put_session dir k ((with_head h r1)\<lparr>sr_status := st, sr_updatedAt := t\<rparr>) (ticked (put_delivery dir k d w))"
  shows "\<exists>msg. acceptDevelopmentDelivery s d gate w' = (Inl (DurableStoreCorruptionError msg), w') \<and>
    reconcileAcceptedDelivery s w' = (Inl (DurableStoreCorruptionError msg), w')"
proof -
  let ?g = "dl_groupId d" and ?s = "dl_sessionId d"
  note g = guard [unfolded accept_guard_Inr_iff]
  have ids: "se_groupId s = ?g" "se_sessionId s = ?s" using g valid_delivery_identity by blast+
  have platform: "gx_platform w' = gx_platform w" by (simp add: w')
  have "loadSession ?g ?s w' = (Inl (DurableStoreCorruptionError (group_path (gx_platform w') dir (''sessions/'' @ k @ ''.json'') @ '' checksum mismatch'')), w')"
    using law platform path
    by (intro loadSession_mismatch [where r = "(with_head h r1)\<lparr>sr_status := st, sr_updatedAt := t\<rparr>"]) (simp_all add: w', simp add: with_head_def)
  then obtain msg where load: "loadSession ?g ?s w' = (Inl (DurableStoreCorruptionError msg), w')" by blast
  have "loadDelivery ?g ?s w' = (Inr d, w')" using path by (simp add: loadDelivery_Inr_iff w')
  then have "existingDelivery ?g ?s w' = (Inr (Some d), w')" by (simp add: existingDelivery_Inr_iff)
  with g load have "accept_guard s d gate w' = (Inl (DurableStoreCorruptionError msg), w')"
    by (simp add: accept_guard_def bnd_run)
  then have "acceptDevelopmentDelivery s d gate w' = (Inl (DurableStoreCorruptionError msg), w')" by (simp add: acceptDevelopmentDelivery_def bnd_run)
  moreover have "reconcileAcceptedDelivery s w' = (Inl (DurableStoreCorruptionError msg), w')"
    using load by (simp add: reconcileAcceptedDelivery_def bnd_run ids)
  ultimately show ?thesis by blast
qed

text \<open>C9: accepting a completed delivery survives a crash between its two writes: when only the delivery was written, accepting it
  again and reconciling the session both return what the acceptance would have returned and leave the same files. But it does
  not survive its own success: the session is written with an undefined blocker, so its file cannot be read afterwards, and
  accepting the delivery again or reconciling the session throws the checksum mismatch.\<close>

theorem acceptance_survives_crash:
  assumes run: "acceptDevelopmentDelivery s d gate w = (Inr r, w')" and complete: "dl_status d = DeliveryCompleted"
    and session: "session_of w (dl_groupId d) (dl_sessionId d) = Some r0" "filed (dl_groupId d) (dl_sessionId d) r0" "sr_status r0 = DDelivering"
  shows "acceptDevelopmentDelivery s d gate (snd (writeDelivery d w)) = (Inr r, w') \<and>
    reconcileAcceptedDelivery s (snd (writeDelivery d w)) = (Inr r, w') \<and>
    (undefined_shows (gx_platform w) \<longrightarrow>
       (\<exists>msg. acceptDevelopmentDelivery s d gate w' = (Inl (DurableStoreCorruptionError msg), w') \<and>
          reconcileAcceptedDelivery s w' = (Inl (DurableStoreCorruptionError msg), w')))"
proof -
  have "\<forall>q. session_of w (dl_groupId d) (dl_sessionId d) = Some q \<longrightarrow> filed (dl_groupId d) (dl_sessionId d) q" using session by simp
  with run complete show ?thesis
  proof (cases rule: accept_cases)
    case (before prior)
    then have "r0 = r" using session by (simp add: accept_guard_Inr_iff session_of_Some_iff)
    with before session show ?thesis by (simp add: already_accepted_def)
  next
    case (first prior r1 dir k)
    from accepted_half [OF first(1,2) complete first(3-6)] accepted_unreadable [OF _ first(1,4) first(6) [unfolded first(5)]]
    show ?thesis by blast
  qed
qed

section \<open>Every change of a durable session\<close>

text \<open>Each file holds the session it is named after.\<close>

definition well_filed :: "group_world \<Rightarrow> bool" where
  "well_filed w \<longleftrightarrow> (\<forall>g s r. session_of w g s = Some r \<longrightarrow> session_file (sr_groupId r) (sr_sessionId r) = session_file g s)"

definition lifecycle_advance :: "session_runtime \<Rightarrow> session_runtime \<Rightarrow> bool" where
  "lifecycle_advance r r' \<longleftrightarrow> (\<exists>st h b t u. isValidSessionTransition (sr_status r) st \<and>
     r' = r\<lparr>sr_status := st, sr_headSha := h, sr_blocker := b, sr_updatedAt := t, sr_undefined := u\<rparr>)"

text \<open>What stands in the file of a session, readable or not.\<close>

definition session_text :: "group_world \<Rightarrow> string \<Rightarrow> string \<Rightarrow> session_runtime durable_text option" where
  "session_text w g s = (case session_file g s of None \<Rightarrow> None | Some (dir, k) \<Rightarrow> map_of (gf_sessions (group_at w dir)) k)"

text \<open>The statuses the lifecycle writes together with an undefined blocker.\<close>

definition UNREADABLE :: "session_status set" where
  "UNREADABLE = {DDelivered, DIntegrated, DVerified}"

text \<open>A session that can be read is as it was, or it was written one step further; it has an undefined key that it had not before
  only in one of these statuses.\<close>

definition session_moved :: "session_runtime \<Rightarrow> session_runtime \<Rightarrow> bool" where
  "session_moved r r' \<longleftrightarrow> lifecycle_advance r r' \<and> (sr_undefined r' \<in> {[], sr_undefined r} \<or> sr_status r' \<in> UNREADABLE)"

definition store_advance :: "group_world \<Rightarrow> group_world \<Rightarrow> bool" where
  "store_advance w w' \<longleftrightarrow> well_filed w' \<and>
     (\<forall>g s r. session_of w g s = Some r \<longrightarrow> session_of w' g s = Some r \<or>
        (\<exists>r'. session_text w' g s = Some (written_text (gq_sessionSum (gx_platform w')) session_stored r') \<and> session_moved r r'))"

lemma store_advance_same: "well_filed w \<Longrightarrow> session_of w' = session_of w \<Longrightarrow> store_advance w w'"
  by (simp add: store_advance_def well_filed_def)

lemma session_of_iff:
  "session_of w g s = Some r \<longleftrightarrow> (\<exists>dir k. session_file g s = Some (dir, k) \<and>
     map_of (gf_sessions (group_at w dir)) k = Some (durable_envelope (gq_sessionSum (gx_platform w)) r))"
  by (simp add: session_of_Some_iff loadSession_Inr_iff)

lemma session_of_ext:
  assumes "gx_platform w' = gx_platform w" "\<And>dir. map_of (gf_sessions (group_at w' dir)) = map_of (gf_sessions (group_at w dir))"
  shows "session_of w' = session_of w"
proof (intro ext)
  show "session_of w' g s = session_of w g s" for g s
    by (rule option.expand, metis assms not_Some_eq session_of_iff, metis assms option.collapse option.inject session_of_iff)
qed

lemma session_of_ticked [simp]: "session_of (ticked w) = session_of w"
  by (rule session_of_ext) simp_all

lemma session_of_put_delivery [simp]: "session_of (put_delivery dir k d w) = session_of w"
  by (rule session_of_ext) simp_all

lemma durable_envelope_inject: "durable_envelope cks a = durable_envelope cks b \<Longrightarrow> a = b"
  by (metis parse_envelope_Inr_iff sum.inject(2))

text \<open>What is written is read back without its undefined keys, or not at all.\<close>

definition reads_back :: "group_platform \<Rightarrow> session_runtime \<Rightarrow> session_runtime option" where
  "reads_back p r = (if gq_sessionSum p (session_stored r) = gq_sessionSum p r then Some (session_stored r) else None)"

lemma session_stored_fields [simp]:
  "sr_groupId (session_stored r) = sr_groupId r" "sr_sessionId (session_stored r) = sr_sessionId r" "sr_status (session_stored r) = sr_status r"
  "sr_executionId (session_stored r) = sr_executionId r" "sr_undefined (session_stored r) = []"
  by (simp_all add: session_stored_def)

lemma session_stored_same [simp]: "sr_undefined r = [] \<Longrightarrow> session_stored r = r"
  by (simp add: session_stored_def)

lemma reads_back_same [simp]: "sr_undefined r = [] \<Longrightarrow> reads_back p r = Some r"
  by (simp add: reads_back_def)

lemma reads_back_Some: "reads_back p r = Some x \<Longrightarrow> x = session_stored r"
  by (simp add: reads_back_def split: if_splits)

lemma session_of_put_session:
  "session_of (put_session dir k r w) g s = (if session_file g s = Some (dir, k) then reads_back (gx_platform w) r else session_of w g s)"
proof (cases "session_file g s = Some (dir, k)")
  case True
  then have "session_of (put_session dir k r w) g s = Some x \<longleftrightarrow> reads_back (gx_platform w) r = Some x" for x
    by (auto simp: session_of_iff reads_back_def written_reads)
  then show ?thesis using True by (metis (no_types) not_Some_eq)
next
  case False
  have "session_of (put_session dir k r w) g s = Some x \<longleftrightarrow> session_of w g s = Some x" for x
    using False by (auto simp: session_of_iff)
  then show ?thesis using False by (metis (no_types) not_Some_eq)
qed

lemma advance_put:
  assumes "well_filed w" "session_of w g s = Some r" "session_moved r r'"
    and "session_file (sr_groupId r) (sr_sessionId r) = Some (dir, k)"
  shows "store_advance w (put_session dir k r' w)"
proof -
  have same: "session_file (sr_groupId r') (sr_sessionId r') = Some (dir, k)"
    using assms(3,4) by (auto simp: session_moved_def lifecycle_advance_def)
  have here: "session_file g s = Some (dir, k)" using assms by (simp add: well_filed_def)
  have "session_of w g' s' = session_of w g s" if "session_file g' s' = Some (dir, k)" for g' s'
  proof -
    have "session_of w g' s' = Some x \<longleftrightarrow> session_of w g s = Some x" for x using that here by (simp add: session_of_iff)
    then show ?thesis by (metis not_Some_eq)
  qed
  then have old: "x = r" if "session_file g' s' = Some (dir, k)" "session_of w g' s' = Some x" for g' s' x
    using that assms(2) by simp
  show ?thesis unfolding store_advance_def
  proof (intro conjI allI impI)
    show "well_filed (put_session dir k r' w)"
      using assms(1) same by (auto simp: well_filed_def session_of_put_session dest!: reads_back_Some split: if_splits)
    show "session_of (put_session dir k r' w) g' s' = Some x \<or>
        (\<exists>x'. session_text (put_session dir k r' w) g' s' = Some (written_text (gq_sessionSum (gx_platform (put_session dir k r' w))) session_stored x') \<and>
          session_moved x x')" if "session_of w g' s' = Some x" for g' s' x
    proof (cases "session_file g' s' = Some (dir, k)")
      case True
      with assms(3) old [OF True that] show ?thesis by (intro disjI2 exI [of _ r']) (simp add: session_text_def)
    qed (use that in \<open>simp add: session_of_put_session\<close>)
  qed
qed

text \<open>A change of the runtime that keeps everything but the head and the blocker.\<close>

definition modest :: "(session_runtime \<Rightarrow> session_runtime) \<Rightarrow> bool" where
  "modest patch \<longleftrightarrow> (\<forall>r. \<exists>h b u. patch r = r\<lparr>sr_headSha := h, sr_blocker := b, sr_undefined := u\<rparr>)"

lemma modest_patches: "modest id" "modest (with_blocker b)" "modest (with_head h)" "modest (accepted_patch d)"
proof -
  have b: "\<exists>h c u. with_blocker b r = r\<lparr>sr_headSha := h, sr_blocker := c, sr_undefined := u\<rparr>" for b r
    by (intro exI [of _ "sr_headSha r"] exI [of _ "Some b"] exI [of _ "[]"]) (simp add: with_blocker_def)
  moreover have h: "\<exists>h c u. with_head k r = r\<lparr>sr_headSha := h, sr_blocker := c, sr_undefined := u\<rparr>" for k r
    by (intro exI [of _ "Some k"] exI [of _ None] exI [of _ "[''blocker'']"]) (simp add: with_head_def)
  moreover have "\<exists>h c u. r = r\<lparr>sr_headSha := h, sr_blocker := c, sr_undefined := u\<rparr>" for r :: session_runtime
    by (intro exI [of _ "sr_headSha r"] exI [of _ "sr_blocker r"] exI [of _ "sr_undefined r"]) simp
  moreover have "\<exists>h c u. with_blocker b (r\<lparr>sr_headSha := k\<rparr>) = r\<lparr>sr_headSha := h, sr_blocker := c, sr_undefined := u\<rparr>" for b k r
    by (intro exI [of _ k] exI [of _ "Some b"] exI [of _ "[]"]) (simp add: with_blocker_def)
  ultimately show "modest id" "modest (with_blocker b)" "modest (with_head h)" "modest (accepted_patch d)"
    by (simp_all add: modest_def accepted_patch_def)
qed

text \<open>A change that leaves no key behind with the value \<open>undefined\<close>.\<close>

definition tidy :: "(session_runtime \<Rightarrow> session_runtime) \<Rightarrow> bool" where
  "tidy patch \<longleftrightarrow> (\<forall>r. sr_undefined (patch r) \<in> {[], sr_undefined r})"

lemma tidy_patches: "tidy id" "tidy (with_blocker b)" "dl_status d \<noteq> DeliveryCompleted \<Longrightarrow> tidy (accepted_patch d)"
  by (simp_all add: tidy_def with_blocker_def accepted_patch_def)

lemma advance_move:
  assumes "well_filed w" "session_of w g s = Some r" "modest patch" "st \<in> UNREADABLE \<or> tidy patch"
  shows "store_advance w (snd (move_session r st patch w))"
proof (cases rule: move_session_cases [of r st patch w])
  case (moved dir k r')
  from assms(3) obtain h b u where p: "patch r = r\<lparr>sr_headSha := h, sr_blocker := b, sr_undefined := u\<rparr>" unfolding modest_def by blast
  have "lifecycle_advance r r'"
    using moved(1) unfolding lifecycle_advance_def
    by - (rule exI [of _ st], rule exI [of _ h], rule exI [of _ b], rule exI [of _ "gq_clock (gx_platform w) (gx_ticks w)"], rule exI [of _ u],
      simp add: moved(3) p)
  then have "session_moved r r'" using assms(4) unfolding session_moved_def tidy_def by (auto simp: moved(3))
  moreover have "well_filed (ticked w)" using assms(1) by (simp add: well_filed_def)
  ultimately have "store_advance (ticked w) (put_session dir k r' (ticked w))"
    using assms(2) moved(2) p by (intro advance_put [where g = g and s = s and r = r]) simp_all
  with moved(4) show ?thesis by (simp add: store_advance_def)
qed (use assms(1) in \<open>auto intro: store_advance_same\<close>)

section \<open>What can be read is not delivered\<close>

text \<open>The statuses a delivery leads to.\<close>

definition DELIVERED :: "session_status set" where
  "DELIVERED = {DDelivered, DIntegrating, DIntegrated, DVerified}"

text \<open>The statuses of a session an executor works on. The lifecycle puts a session in none of them.\<close>

definition LIVE :: "session_status set" where
  "LIVE = {DStarting, DRunning, DWaitingInput}"

definition undelivered :: "group_world \<Rightarrow> bool" where
  "undelivered w \<longleftrightarrow> well_filed w \<and> undefined_shows (gx_platform w) \<and> (\<forall>g s r. session_of w g s = Some r \<longrightarrow> sr_status r \<notin> DELIVERED)"

lemma into_delivered: "isValidSessionTransition a b \<Longrightarrow> b \<in> DELIVERED \<Longrightarrow> b \<noteq> DDelivered \<Longrightarrow> a \<in> DELIVERED"
  by (cases a) (auto simp: isValidSessionTransition_def DELIVERED_def)

lemma undelivered_ext: "session_of w' = session_of w \<Longrightarrow> gx_platform w' = gx_platform w \<Longrightarrow> undelivered w \<Longrightarrow> undelivered w'"
  by (simp add: undelivered_def well_filed_def)

text \<open>Writing a session that has no such status, or one that cannot be read.\<close>

lemma undelivered_put:
  assumes ok: "undelivered w" and path: "session_file (sr_groupId r) (sr_sessionId r) = Some (dir, k)"
    and new: "sr_status r \<notin> DELIVERED \<or> sr_undefined r \<noteq> []"
  shows "undelivered (put_session dir k r w)"
proof -
  have "sr_status x \<notin> DELIVERED" if "session_of (put_session dir k r w) g s = Some x" for g s x
  proof (cases "session_file g s = Some (dir, k)")
    case True
    with that have read: "reads_back (gx_platform w) r = Some x" by (simp add: session_of_put_session)
    with ok have "sr_undefined r = []" by (auto simp: reads_back_def undelivered_def undefined_shows_def split: if_splits)
    with new reads_back_Some [OF read] show ?thesis by simp
  qed (use that ok in \<open>auto simp: session_of_put_session undelivered_def\<close>)
  moreover have "well_filed (put_session dir k r w)"
    using ok path by (auto simp: undelivered_def well_filed_def session_of_put_session dest!: reads_back_Some)
  ultimately show ?thesis using ok by (simp add: undelivered_def)
qed

lemma undelivered_move:
  assumes ok: "undelivered w" and r: "session_of w g s = Some r" "modest patch" and keys: "st \<in> UNREADABLE \<Longrightarrow> sr_undefined (patch r) \<noteq> []"
  shows "undelivered (snd (move_session r st patch w))"
proof (cases rule: move_session_cases [of r st patch w])
  case (moved dir k r')
  have "st = DDelivered" if "st \<in> DELIVERED" using that into_delivered [OF moved(1)] ok r(1) by (auto simp: undelivered_def)
  then have "sr_status r' \<notin> DELIVERED \<or> sr_undefined r' \<noteq> []" using keys by (auto simp: moved(3) UNREADABLE_def)
  moreover have "undelivered (ticked w)" using ok by (auto intro: undelivered_ext)
  moreover have "session_file (sr_groupId r') (sr_sessionId r') = Some (dir, k)" using moved(2) by (simp add: moved(3))
  ultimately show ?thesis unfolding moved(4) snd_conv by (intro undelivered_put)
qed (use ok in \<open>auto intro: undelivered_ext\<close>)

section \<open>Every operation of the lifecycle\<close>

text \<open>Every operation of the lifecycle, for the session \<open>s\<close>.\<close>

datatype lifecycle_op =
    LInterrupted bool | LResolve resolution string | LBlocked string | LAccept delivery gate_result | LReconcile
  | LIntegrating | LMilestone milestone | LVerified verification_run

fun lifecycle_run :: "session_definition \<Rightarrow> lifecycle_op \<Rightarrow> session_runtime group_eff" where
  "lifecycle_run s (LInterrupted b) = reconcileInterruptedExecutorRuntime (se_groupId s) (se_sessionId s) b"
| "lifecycle_run s (LResolve x evidence) = resolveSessionOutcomeUnknown (se_groupId s) (se_sessionId s) x evidence"
| "lifecycle_run s (LBlocked b) = markSessionBlocked (se_groupId s) (se_sessionId s) b"
| "lifecycle_run s (LAccept d gate) = acceptDevelopmentDelivery s d gate"
| "lifecycle_run s LReconcile = reconcileAcceptedDelivery s"
| "lifecycle_run s LIntegrating = markSessionIntegrating (se_groupId s) (se_sessionId s)"
| "lifecycle_run s (LMilestone m) = applyIntegrationMilestone (se_sessionId s) m"
| "lifecycle_run s (LVerified run) = markSessionVerified (se_groupId s) (se_sessionId s) run"

text \<open>What an operation does: nothing to the sessions, or it reads one and moves it.\<close>

definition moves_one :: "group_world \<Rightarrow> group_world \<Rightarrow> bool" where
  "moves_one w w' \<longleftrightarrow> w' = w \<or>
     (\<exists>w1 g s r st patch. session_of w1 = session_of w \<and> gx_platform w1 = gx_platform w \<and> session_of w g s = Some r \<and> modest patch \<and>
        (if st \<in> UNREADABLE then sr_undefined (patch r) \<noteq> [] else tidy patch) \<and> st \<notin> LIVE \<and> w' = snd (move_session r st patch w1))"

lemma moves_one_same: "moves_one w w"
  by (simp add: moves_one_def)

lemma moves_one_move:
  "session_of w1 = session_of w \<Longrightarrow> gx_platform w1 = gx_platform w \<Longrightarrow> session_of w g s = Some r \<Longrightarrow> modest patch \<Longrightarrow>
     (if st \<in> UNREADABLE then sr_undefined (patch r) \<noteq> [] else tidy patch) \<Longrightarrow> st \<notin> LIVE \<Longrightarrow> moves_one w (snd (move_session r st patch w1))"
  unfolding moves_one_def by blast

lemma store_advance_moves: "well_filed w \<Longrightarrow> moves_one w w' \<Longrightarrow> store_advance w w'"
proof (cases "w' = w")
  assume w: "well_filed w" and "moves_one w w'" "w' \<noteq> w"
  then obtain w1 g s r st patch where same: "session_of w1 = session_of w"
    and r: "session_of w g s = Some r" "modest patch" "if st \<in> UNREADABLE then sr_undefined (patch r) \<noteq> [] else tidy patch"
    and w': "w' = snd (move_session r st patch w1)" unfolding moves_one_def by blast
  from r(3) have "st \<in> UNREADABLE \<or> tidy patch" by (auto split: if_splits)
  with r(1,2) have r: "session_of w g s = Some r" "modest patch" "st \<in> UNREADABLE \<or> tidy patch" by simp_all
  have "store_advance w1 (snd (move_session r st patch w1))"
    using w r same by (intro advance_move [where g = g and s = s]) (simp_all add: well_filed_def)
  then show "store_advance w w'" using same by (simp add: w' store_advance_def)
qed (simp add: store_advance_same)

lemma undelivered_moves: "undelivered w \<Longrightarrow> moves_one w w' \<Longrightarrow> undelivered w'"
  unfolding moves_one_def by (elim disjE exE conjE) (auto intro!: undelivered_move intro: undelivered_ext split: if_splits)

text \<open>An operation that begins by loading a session.\<close>

lemma after_load:
  assumes "\<And>r. session_of w g s = Some r \<Longrightarrow> moves_one w (snd (f r w))"
  shows "moves_one w (snd (bnd (loadSession g s) f w))"
proof (cases "fst (loadSession g s w)")
  case (Inl e)
  then show ?thesis using loadSession_run [of g s w] by (simp add: bnd_run moves_one_same)
next
  case (Inr r)
  then show ?thesis using loadSession_run [of g s w] assms [of r] by (simp add: bnd_run session_of_def)
qed

lemma after_require: "moves_one w (snd (f () w)) \<Longrightarrow> moves_one w (snd (bnd (require_that ok e) f w))"
  by (cases ok) (simp_all add: bnd_run throw_def moves_one_same)

lemma moves_if: "moves_one w (snd (m w)) \<Longrightarrow> moves_one w (snd (n w)) \<Longrightarrow> moves_one w (snd ((if b then m else n) w))"
  by simp

lemma moves_ret: "moves_one w (snd (ret x w))"
  by (simp add: ret_def moves_one_same)

lemma moves_here:
  "session_of w g s = Some r \<Longrightarrow> modest patch \<Longrightarrow> tidy patch \<Longrightarrow> st \<notin> UNREADABLE \<union> LIVE \<Longrightarrow> moves_one w (snd (move_session r st patch w))"
  by (rule moves_one_move [OF refl refl]) auto

lemma moves_delivery: "session_of w g s = Some r \<Longrightarrow> st \<in> UNREADABLE \<Longrightarrow> moves_one w (snd (move_session r st (with_head h) w))"
  by (rule moves_one_move [OF refl refl]) (auto simp: UNREADABLE_def LIVE_def modest_patches, simp_all add: with_head_def)

lemma status_classes: "DOutcomeUnknown \<notin> UNREADABLE \<union> LIVE" "resolution_status x \<notin> UNREADABLE \<union> LIVE" "DBlocked \<notin> UNREADABLE \<union> LIVE"
    "DIntegrating \<notin> UNREADABLE \<union> LIVE" "DIntegrated \<in> UNREADABLE" "DVerified \<in> UNREADABLE" "DDelivered \<in> UNREADABLE"
  unfolding LIVE_def UNREADABLE_def by (cases x; simp)+

lemmas moves_rules = after_load after_require moves_if moves_ret moves_delivery moves_here modest_patches tidy_patches status_classes

lemma moves_accept: "moves_one w (snd (acceptDevelopmentDelivery s d gate w))"
proof (cases "fst (accept_guard s d gate w)")
  case (Inl e)
  obtain x where x: "existingDelivery (dl_groupId d) (dl_sessionId d) w = (x, w)"
    using existingDelivery_reads by (metis prod.collapse)
  have "snd (accept_guard s d gate w) = w"
    using loadSession_run [of "dl_groupId d" "dl_sessionId d" w]
    by (auto simp: accept_guard_def bnd_run x eff_defs split: sum.splits prod.splits)
  with Inl show ?thesis by (cases "accept_guard s d gate w") (simp add: acceptDevelopmentDelivery_def bnd_run moves_one_same)
next
  case (Inr a)
  obtain prior r where a: "a = (prior, r)" by (cases a)
  with Inr have guard: "accept_guard s d gate w = (Inr (prior, r), w)"
    by (cases "accept_guard s d gate w") (auto simp: accept_guard_Inr_iff)
  then have r: "session_of w (dl_groupId d) (dl_sessionId d) = Some r" by (simp add: accept_guard_Inr_iff session_of_Some_iff)
  then obtain dir k where path: "session_file (dl_groupId d) (dl_sessionId d) = Some (dir, k)" by (auto simp: session_of_iff)
  have move: "moves_one w (snd (move_session r (delivery_next (dl_status d)) (accepted_patch d) (put_delivery dir k d w)))"
    if st: "sr_status r = DDelivering"
  proof (rule moves_one_move [OF _ _ r])
    show "if delivery_next (dl_status d) \<in> UNREADABLE then sr_undefined (accepted_patch d r) \<noteq> [] else tidy (accepted_patch d)"
      using tidy_patches(3) [of d] by (cases "dl_status d") (auto simp: UNREADABLE_def accepted_patch_def with_head_def)
    show "delivery_next (dl_status d) \<notin> LIVE" by (cases "dl_status d") (simp_all add: LIVE_def)
  qed (simp_all add: modest_patches)
  show ?thesis using guard path move
    by (auto simp: acceptDevelopmentDelivery_def bnd_run writeDelivery_run require_that_def lift_res_def guard_res_def ret_def moves_one_same)
qed

lemma moves_reconcile: "moves_one w (snd (reconcileAcceptedDelivery s w))"
proof -
  have "moves_one w (snd (bnd (existingDelivery (se_groupId s) (se_sessionId s)) (\<lambda>prior. case prior of
       None \<Rightarrow> ret r
     | Some d \<Rightarrow> if validateDevelopmentDelivery d s \<noteq> [] \<or> dl_status d \<noteq> DeliveryCompleted then ret r
         else move_session r DDelivered (with_head (dl_headSha d))) w))" if "session_of w (se_groupId s) (se_sessionId s) = Some r" for r
  proof (cases "loadDelivery (se_groupId s) (se_sessionId s) w")
    case (Pair x w2)
    with loadDelivery_reads [of "se_groupId s" "se_sessionId s" w] have "w2 = w" by simp
    with Pair moves_delivery [OF that status_classes(7)] show ?thesis
      by (cases x) (auto simp: existingDelivery_def catch_with_def bnd_run eff_defs moves_one_same)
  qed
  then show ?thesis unfolding reconcileAcceptedDelivery_def by (intro moves_rules)
qed

lemma lifecycle_moves: "moves_one w (snd (lifecycle_run s x w))"
  by (cases x; simp only: lifecycle_run.simps moves_accept moves_reconcile reconcileInterruptedExecutorRuntime_def
      resolveSessionOutcomeUnknown_def markSessionBlocked_def markSessionIntegrating_def applyIntegrationMilestone_def
      markSessionVerified_def; (intro moves_rules; assumption)?)

text \<open>An operation on a session that cannot be read throws and writes nothing.\<close>

fun own_milestone :: "session_definition \<Rightarrow> lifecycle_op \<Rightarrow> bool" where
  "own_milestone s (LMilestone m) \<longleftrightarrow> ml_groupId m = se_groupId s"
| "own_milestone s _ \<longleftrightarrow> True"

lemma load_throws:
  assumes "session_of w g s = None"
  shows "\<exists>e. bnd (loadSession g s) f w = (Inl e, w)"
  using assms loadSession_run [of g s w] by (auto simp: session_of_def bnd_run split: sum.splits)

lemma accept_throws:
  assumes "session_of w (se_groupId s) (se_sessionId s) = None"
  shows "\<exists>e. acceptDevelopmentDelivery s d gate w = (Inl e, w)"
proof -
  obtain x where x: "existingDelivery (dl_groupId d) (dl_sessionId d) w = (x, w)"
    using existingDelivery_reads by (metis prod.collapse)
  have "\<exists>e. accept_guard s d gate w = (Inl e, w)"
  proof (cases "fst (accept_guard s d gate w)")
    case (Inr a)
    then have "accept_guard s d gate w = (Inr (fst a, snd a), snd (accept_guard s d gate w))" by (metis prod.collapse)
    from this [unfolded accept_guard_Inr_iff] have "session_of w (dl_groupId d) (dl_sessionId d) = Some (snd a)" "validateDevelopmentDelivery d s = []"
      by (simp_all add: session_of_Some_iff)
    with assms valid_delivery_identity [of d s] show ?thesis by simp
  next
    case (Inl e)
    have "snd (accept_guard s d gate w) = w"
      using loadSession_run [of "dl_groupId d" "dl_sessionId d" w]
      by (auto simp: accept_guard_def bnd_run x eff_defs split: sum.splits prod.splits)
    with Inl show ?thesis by (metis prod.collapse)
  qed
  then show ?thesis by (auto simp: acceptDevelopmentDelivery_def bnd_run)
qed

lemma unreadable_throws:
  assumes "session_of w (se_groupId s) (se_sessionId s) = None" "own_milestone s x"
  shows "\<exists>e. lifecycle_run s x w = (Inl e, w)"
proof (cases x)
  case (LResolve q evidence)
  show ?thesis
    using load_throws [OF assms(1)] by (cases "trim evidence \<noteq> []") (simp_all add: LResolve resolveSessionOutcomeUnknown_def bnd_run throw_def)
qed (use assms load_throws [OF assms(1)] accept_throws [OF assms(1)] in
    \<open>simp_all add: reconcileInterruptedExecutorRuntime_def markSessionBlocked_def reconcileAcceptedDelivery_def markSessionIntegrating_def
      applyIntegrationMilestone_def markSessionVerified_def\<close>)

text \<open>C14: whatever the lifecycle does to a session, returning or throwing, each durable session stays in its own file, and every
  one of them that can be read, the others included, is left as it is or written at most one step further along the table with
  all but its status, head and blocker kept. It is written with an undefined blocker, which makes its file unreadable, only as
  delivered, integrated or verified; and on a session whose file cannot be read every operation throws and writes nothing.\<close>

theorem lifecycle_lawful:
  assumes "well_filed w"
  shows "store_advance w (snd (lifecycle_run s x w)) \<and>
    (session_of w (se_groupId s) (se_sessionId s) = None \<and> own_milestone s x \<longrightarrow> (\<exists>e. lifecycle_run s x w = (Inl e, w)))"
  using store_advance_moves [OF assms lifecycle_moves] unreadable_throws by blast

section \<open>A session that delivers\<close>

definition demo_delivering :: group_world where
  "demo_delivering = put_session ''g'' ''s1'' (demo_session_runtime ''s1'' DDelivering)
     \<lparr>gx_platform = demo_group_platform, gx_groups = [], gx_ticks = 0\<rparr>"

definition demo_verdict :: gate_result where
  "demo_verdict = verifyDevelopmentDelivery demo_gate demo_git demo_owner demo_change None []"

definition demo_delivered :: "session_runtime res \<times> group_world" where
  "demo_delivered = acceptDevelopmentDelivery demo_owner demo_change demo_verdict demo_delivering"

lemma demo_files:
  "session_file ''g'' ''s1'' = Some (''g'', ''s1'')" "dl_groupId demo_change = ''g''" "dl_sessionId demo_change = ''s1''"
  "dl_status demo_change = DeliveryCompleted" "validateDevelopmentDelivery demo_change demo_owner = []"
  by code_simp+

lemma demo_session_undefined [simp]: "sr_undefined (demo_session_runtime k st) = []"
  by (simp add: demo_session_runtime_def)

lemma demo_sessions:
  "session_of demo_delivering g s = (if session_file g s = Some (''g'', ''s1'') then Some (demo_session_runtime ''s1'' DDelivering) else None)"
  by (auto simp: demo_delivering_def session_of_put_session session_of_iff group_at_def empty_group_def simp flip: not_Some_eq)

lemma demo_filed: "well_filed demo_delivering"
  using demo_files(1) by (auto simp: well_filed_def demo_sessions demo_session_runtime_def split: if_splits)

lemma demo_guard:
  "accept_guard demo_owner demo_change demo_verdict demo_delivering = (Inr (None, demo_session_runtime ''s1'' DDelivering), demo_delivering)"
proof -
  have "loadSession ''g'' ''s1'' demo_delivering = (Inr (demo_session_runtime ''s1'' DDelivering), demo_delivering)"
    using demo_sessions [of "''g''" "''s1''"] demo_files(1) by (simp add: session_of_Some_iff)
  moreover have "assertSafeId ''g'' ''groupId'' = Inr ''g''" "assertSafeId ''s1'' ''sessionId'' = Inr ''s1''" by code_simp+
  then have "fst (loadDelivery ''g'' ''s1'' demo_delivering) = Inl NoEntry"
    by (simp add: loadDelivery_def groupDir_def bnd_run read_text_def eff_defs demo_delivering_def group_at_def empty_group_def
        put_session_def put_group_def)
  ultimately show ?thesis
    using demo_change_accepted by (simp add: accept_guard_Inr_iff existingDelivery_Inr_iff demo_files demo_verdict_def)
qed

lemma demo_delivered_runs: "\<exists>r. demo_delivered = (Inr r, snd demo_delivered) \<and> sr_status r = DDelivered"
proof -
  let ?r = "(with_head (dl_headSha demo_change) (demo_session_runtime ''s1'' DDelivering))
    \<lparr>sr_status := DDelivered, sr_updatedAt := gq_clock (gx_platform demo_delivering) (gx_ticks demo_delivering)\<rparr>"
  have run: "demo_delivered = (Inr ?r, put_session ''g'' ''s1'' ?r (ticked (put_delivery ''g'' ''s1'' demo_change demo_delivering)))"
    unfolding demo_delivered_def
    by (rule accept_first [OF demo_guard]) (simp_all add: demo_files filed_def demo_session_runtime_def)
  show ?thesis by (rule exI [of _ ?r]) (simp add: run)
qed

theorem acceptance_survives_crash_witness:
  "\<exists>r msg. reconcileAcceptedDelivery demo_owner (snd (writeDelivery demo_change demo_delivering)) = (Inr r, snd demo_delivered) \<and>
     acceptDevelopmentDelivery demo_owner demo_change demo_verdict (snd demo_delivered) = (Inl (DurableStoreCorruptionError msg), snd demo_delivered)"
proof -
  obtain r where r: "demo_delivered = (Inr r, snd demo_delivered)" using demo_delivered_runs by blast
  have here: "session_of demo_delivering ''g'' ''s1'' = Some (demo_session_runtime ''s1'' DDelivering)" by (simp add: demo_sessions demo_files)
  have filed: "filed (dl_groupId demo_change) (dl_sessionId demo_change) (demo_session_runtime ''s1'' DDelivering)"
    "sr_status (demo_session_runtime ''s1'' DDelivering) = DDelivering"
    by (simp_all add: demo_files filed_def demo_session_runtime_def)
  have "undefined_shows (gx_platform demo_delivering)" using demo_platform_law by (simp add: demo_delivering_def)
  with acceptance_survives_crash [OF r [unfolded demo_delivered_def] demo_files(4) _ filed] here show ?thesis
    unfolding demo_files demo_delivered_def by blast
qed

theorem lifecycle_lawful_witness:
  "store_advance demo_delivering (snd (lifecycle_run demo_owner (LAccept demo_change demo_verdict) demo_delivering))"
  using lifecycle_lawful [OF demo_filed] by blast

end
