(* ===== verification/GroupRunnerCorrectness.thy ===== *)
theory GroupRunnerCorrectness
  imports GroupRunner GroupSessionCorrectness GroupLifecycleCorrectness
begin

text \<open>
  The runner and the store together. What the runner asks of the world it runs in is an interface, a locale; the store of the
  groups beside an executor manager provides it. With it, no session is ever read as delivered or beyond.
\<close>

section \<open>What a runner asks of its environment\<close>

text \<open>The runner moves a session to none of the statuses a delivery leads to.\<close>

definition runner_change :: "session_runtime \<Rightarrow> session_runtime \<Rightarrow> bool" where
  "runner_change r r' \<longleftrightarrow> same_session r r' \<and> (sr_status r' = sr_status r \<or> sr_status r' \<notin> DELIVERED)"

text \<open>The environment keeps \<open>I\<close> whatever it is asked, as long as only runtimes with \<open>ok\<close> are saved.\<close>

locale runner_environment =
  fixes p :: "'s session_ports"
    and I :: "'s \<Rightarrow> bool"
    and ok :: "session_runtime \<Rightarrow> bool"
  assumes asks: "triple I (xp_start p k i pc) (\<lambda>_. I) I" "triple I (xp_startFromHandoff p k i pc h) (\<lambda>_. I) I"
      "triple I (xp_resume p k i pc x h) (\<lambda>_. I) I" "triple I (xp_respond p t e d) (\<lambda>_. I) I" "triple I (xp_cancel p t e) (\<lambda>_. I) I"
      "triple I (xp_close p t e) (\<lambda>_. I) I" "triple I (xp_sink p ev r) (\<lambda>_. I) I"
    and prompts: "triple I (xp_prompt p i q text') (\<lambda>a s. I s \<and> (\<forall>b \<in> set (fst a). \<forall>s. I s \<longrightarrow> I (fst b s))) I"
    and clock: "I s \<Longrightarrow> I (snd (xp_clock p s))"
    and saves: "ok r \<Longrightarrow> triple I (xp_save p r) (\<lambda>_. I) I"
    and changes: "ok r \<Longrightarrow> runner_change r r' \<Longrightarrow> ok r'"
begin

definition inv :: "'s runner \<Rightarrow> bool" where
  "inv c \<longleftrightarrow> ok (rn_runtime c) \<and> I (rn_env c)"

lemma inv_outside:
  assumes "triple I m (\<lambda>_. I) I"
  shows "triple inv (outside m) (\<lambda>_. inv) inv"
  using assms by (fastforce simp: triple_def outside_def inv_def split: prod.splits sum.splits)

lemma inv_persist: "triple inv (persist p) (\<lambda>_. inv) inv"
proof -
  have "case outside (xp_save p (rn_runtime c)) c of (Inl e, t) \<Rightarrow> inv t | (Inr x, t) \<Rightarrow> inv t" if "inv c" for c
    using that inv_outside [OF saves, of "rn_runtime c"] by (auto simp: triple_def inv_def)
  then show ?thesis by (simp add: triple_def persist_def bnd_run gets_def)
qed

lemma inv_update:
  assumes "\<And>r. runner_change r (f r)"
  shows "triple inv (update_runtime f) (\<lambda>_. inv) inv"
  unfolding update_runtime_def using changes assms by (intro triple_modify) (auto simp: inv_def)

lemma inv_move: "s \<notin> DELIVERED \<Longrightarrow> triple inv (move_to p s) (\<lambda>_. inv) inv"
proof -
  assume s: "s \<notin> DELIVERED"
  have "inv (c\<lparr>rn_env := e, rn_runtime := (rn_runtime c)\<lparr>sr_status := s, sr_updatedAt := t\<rparr>\<rparr>)"
    if "inv c" "xp_clock p (rn_env c) = (t, e)" for c e t
  proof -
    have "runner_change (rn_runtime c) ((rn_runtime c)\<lparr>sr_status := s, sr_updatedAt := t\<rparr>)"
      using s by (simp add: runner_change_def same_session_def)
    with that clock [of "rn_env c"] changes show ?thesis by (auto simp: inv_def)
  qed
  then show ?thesis
    by (auto simp: triple_def move_to_def bnd_def gets_def update_runtime_def modify_def runner_now_def outside_def throw_def
        split: list.splits prod.splits sum.splits)
qed

lemma inv_throw: "triple inv (throw e) Q inv"
  by (rule triple_throw)

lemma inv_lift: "triple inv (lift_res x) (\<lambda>_. inv) inv"
  by (rule triple_lift_res)

lemma inv_status: "triple inv (require_status ss m) (\<lambda>_. inv) inv"
  unfolding require_status_def by (rule triple_bnd [OF keep_gets keep_require])

lemma inv_attempt: "triple inv (require_attempt z) (\<lambda>_. inv) inv"
  unfolding require_attempt_def by (rule triple_bnd [OF keep_gets keep_require])

lemma inv_small:
  "triple inv (set_blocker b) (\<lambda>_. inv) inv" "triple inv (bindExecutorSession x) (\<lambda>_. inv) inv" "triple inv count_attempt (\<lambda>_. inv) inv"
  "triple inv (update_runtime (\<lambda>r. r\<lparr>sr_lastEventSequence := sr_lastEventSequence r + 1\<rparr>)) (\<lambda>_. inv) inv"
  unfolding set_blocker_def bindExecutorSession_def count_attempt_def
  by (rule inv_update, simp add: runner_change_def same_session_def)+

lemma undelivered:
  "DReady \<notin> DELIVERED" "DStarting \<notin> DELIVERED" "DRunning \<notin> DELIVERED" "DFailed \<notin> DELIVERED" "DOutcomeUnknown \<notin> DELIVERED"
  "DWaitingInput \<notin> DELIVERED" "DCancelled \<notin> DELIVERED" "DDelivering \<notin> DELIVERED" "failure_status k \<notin> DELIVERED"
  "a \<notin> DELIVERED \<Longrightarrow> b \<notin> DELIVERED \<Longrightarrow> (if c then a else b) \<notin> DELIVERED"
  by (simp_all add: DELIVERED_def failure_status_def)

lemmas inv_rules = triple_bnd triple_if triple_catch keep_gets keep_require keep_ret inv_throw inv_lift inv_status inv_attempt inv_small
  inv_persist inv_move undelivered inv_outside asks

lemma inv_unknown: "triple inv (markOutcomeUnknown p m) (\<lambda>_. inv) inv"
  unfolding markOutcomeUnknown_def by (rule inv_rules)+

lemma inv_handle: "triple inv (handle_session_event p e) (\<lambda>_. inv) inv"
  unfolding handle_session_event_def
  by (cases e; simp only: executor_event_body.case; (rule inv_rules | simp add: undelivered)+)

lemma inv_apply: "triple inv (applyExecutorEvent p e) (\<lambda>_. inv) inv"
  unfolding applyExecutorEvent_def by (rule inv_rules inv_handle)+

lemma inv_sync: "triple inv (syncActiveExecutorAuthority p z) (\<lambda>_. inv) inv"
proof -
  have "runner_change r (r\<lparr>sr_executorId := Some k, sr_executorSessionId := Some a, sr_executorGeneration := Some n, sr_writerGeneration := n\<rparr>)"
    for r k a n by (simp add: runner_change_def same_session_def)
  with changes show ?thesis
    by (fastforce simp: triple_def syncActiveExecutorAuthority_def eff_defs guard_res_def update_runtime_def inv_def split: option.splits)
qed

lemma inv_event:
  assumes "\<And>s. I s \<Longrightarrow> I (fst i s)"
  shows "triple inv (stream_event p z i) (\<lambda>_. inv) inv"
proof -
  have "triple I (modify (fst i)) (\<lambda>_. I) I" using assms by (rule triple_modify)
  then have before: "triple inv (outside (modify (fst i))) (\<lambda>_. inv) inv" by (rule inv_outside)
  show ?thesis
    unfolding stream_event_def case_prod_beta by (rule before inv_rules inv_sync inv_apply)+
qed

lemma inv_instruction: "triple inv (sendInstruction p z i t) (\<lambda>_. inv) inv"
proof -
  let ?Q = "\<lambda>a c. inv c \<and> (\<forall>b \<in> set (fst a). \<forall>s. I s \<longrightarrow> I (fst b s))"
  have prompt: "triple inv (outside (xp_prompt p (taskIdentity z) (trim i) t)) ?Q inv"
    using prompts [of "taskIdentity z" "trim i" t] by (fastforce simp: triple_def outside_def inv_def split: prod.splits sum.splits)
  have stream: "triple (?Q a) (case a of (items, ending) \<Rightarrow> bnd (for_each items (\<lambda>i _. stream_event p z i) ())
      (\<lambda>_. case ending of Some e \<Rightarrow> throw e | None \<Rightarrow> gets rn_runtime)) (\<lambda>_. inv) inv" for a
  proof (cases "\<forall>b \<in> set (fst a). \<forall>s. I s \<longrightarrow> I (fst b s)")
    case True
    have "triple inv (for_each (fst a) (\<lambda>i _. stream_event p z i) ()) (\<lambda>_. inv) inv"
      by (rule triple_for_each [where I = "\<lambda>_. inv"]) (use True in \<open>auto intro: inv_event\<close>)
    then have "triple inv (bnd (for_each (fst a) (\<lambda>i _. stream_event p z i) ())
        (\<lambda>_. case snd a of Some e \<Rightarrow> throw e | None \<Rightarrow> gets rn_runtime)) (\<lambda>_. inv) inv"
      by (rule triple_bnd) (rule triple_option; rule inv_rules)
    with True show ?thesis by (cases a) simp
  next
    case False
    then show ?thesis by (auto simp: triple_def)
  qed
  show ?thesis unfolding sendInstruction_def by (rule triple_bnd prompt stream inv_rules inv_unknown)+
qed

text \<open>Every operation of the runner keeps the environment and saves only runtimes with \<open>ok\<close>.\<close>

lemma runner_keeps: "triple inv (session_op_run p z x) (\<lambda>_. inv) inv"
  by (cases x; simp only: session_op_run.simps bnd_assoc bnd_ret markReady_def prepareRetry_def start_session_def
      startFromHandoff_session_def resume_session_def sendInitialInstruction_def respondPermission_session_def cancel_session_def
      close_session_def; (rule inv_rules inv_unknown inv_instruction)+)

end

section \<open>The store as the environment of a runner\<close>

definition store_inv :: "'m \<times> group_world \<Rightarrow> bool" where
  "store_inv x \<longleftrightarrow> undelivered (snd x)"

definition undelivered_runtime :: "session_runtime \<Rightarrow> bool" where
  "undelivered_runtime r \<longleftrightarrow> sr_status r \<notin> DELIVERED"

lemma manager_keeps: "triple store_inv (on_manager m) (\<lambda>_. store_inv) store_inv"
  by (auto simp: triple_def on_manager_def store_inv_def split: prod.splits sum.splits)

lemma undelivered_write:
  assumes "undelivered w" "sr_status r \<notin> DELIVERED"
  shows "undelivered (snd (writeSession r w))"
proof (cases "session_file (sr_groupId r) (sr_sessionId r)")
  case None
  with writeSession_unsafe [OF None, of w] assms(1) show ?thesis by auto
next
  case (Some q)
  obtain dir k where "q = (dir, k)" by (cases q)
  with Some undelivered_put [OF assms(1), of r dir k] assms(2) show ?thesis by (simp add: writeSession_run)
qed

lemma write_keeps: "undelivered_runtime r \<Longrightarrow> triple store_inv (on_store (writeSession r)) (\<lambda>_. store_inv) store_inv"
  using undelivered_write by (fastforce simp: triple_def on_store_def store_inv_def undelivered_runtime_def split: prod.splits sum.splits)

interpretation durable: runner_environment "store_ports mp" store_inv undelivered_runtime
  for mp :: "'m manager_ports"
proof
  show "triple store_inv (xp_prompt (store_ports mp) i q t) (\<lambda>a x. store_inv x \<and>
      (\<forall>e \<in> set (fst a). \<forall>x. store_inv x \<longrightarrow> store_inv (fst e x))) store_inv" for i q t
  proof -
    have items: "triple store_inv (ret (map beside_store (fst a), snd a)) (\<lambda>a x. store_inv x \<and>
        (\<forall>e \<in> set (fst a). \<forall>x. store_inv x \<longrightarrow> store_inv (fst e x))) store_inv" for a :: "(('m \<Rightarrow> 'm) \<times> executor_event) list \<times> error option"
      by (rule triple_ret) (auto simp: beside_store_def store_inv_def)
    have prompt: "xp_prompt (store_ports mp) i q t = bnd (on_manager (xp_prompt mp i q t)) (\<lambda>a. ret (map beside_store (fst a), snd a))"
      by (simp add: store_ports_def case_prod_beta')
    show ?thesis unfolding prompt by (rule triple_bnd [OF manager_keeps items])
  qed
  show "store_inv (snd (xp_clock (store_ports mp) x))" if "store_inv x" for x
  proof -
    obtain a w where x: "x = (a, w)" by (cases x)
    have "undelivered (ticked w)" if "undelivered w" using that by (auto intro: undelivered_ext)
    with that show ?thesis by (simp add: store_ports_def store_inv_def x flip: ticked_def)
  qed
  show "undelivered_runtime r'" if "undelivered_runtime r" "runner_change r r'" for r r'
    using that by (auto simp: undelivered_runtime_def runner_change_def)
qed (simp_all add: store_ports_def manager_keeps write_keeps keep_ret)

section \<open>What the sessions tell\<close>

text \<open>A condition on the store that looks at its sessions alone is kept by everything that leaves them alone.\<close>

locale session_condition =
  fixes Q :: "group_world \<Rightarrow> bool"
  assumes ext: "session_of w' = session_of w \<Longrightarrow> gx_platform w' = gx_platform w \<Longrightarrow> Q w \<Longrightarrow> Q w'"
begin

lemma put_same:
  assumes "\<And>e. map_of (gf_sessions f) e = map_of (gf_sessions (group_at w dir)) e" "Q w"
  shows "Q (put_group dir f w)"
proof (rule ext [OF _ _ assms(2)])
  have "map_of (gf_sessions f) = map_of (gf_sessions (group_at w dir))"
    by (rule HOL.ext) (rule assms(1))
  then show "session_of (put_group dir f w) = session_of w" "gx_platform (put_group dir f w) = gx_platform w"
    by (auto intro!: session_of_ext)
qed

lemma other:
  assumes "\<And>q f. gf_sessions (h q f) = gf_sessions f"
  shows "triple Q (in_group dir h) (\<lambda>_. Q) Q"
  unfolding in_group_def by (rule triple_modify) (simp add: put_same assms)

lemma lift: "triple Q (lift_res r) (\<lambda>_. Q) Q"
  by (rule triple_lift_res)

lemma dir: "triple Q (groupDir g) (\<lambda>_. Q) Q"
  unfolding groupDir_def by (rule lift)

lemma tick: "triple Q group_now (\<lambda>_. Q) Q"
proof -
  have "Q w \<Longrightarrow> Q (w\<lparr>gx_ticks := Suc (gx_ticks w)\<rparr>)" for w
    by (rule ext) (simp_all flip: ticked_def)
  then have tick: "triple Q (modify (\<lambda>w. w\<lparr>gx_ticks := Suc (gx_ticks w)\<rparr>)) (\<lambda>_. Q) Q"
    by (rule triple_modify)
  show ?thesis
    unfolding group_now_def by (rule triple_bnd [OF keep_gets triple_bnd [OF tick keep_ret]])
qed

lemma text_read: "triple Q (read_text cks d name sel) (\<lambda>_. Q) Q"
  unfolding read_text_def by (rule triple_bnd [OF keep_gets lift])

lemma append_event: "triple Q (appendEvent_group e) (\<lambda>_. Q) Q"
  unfolding appendEvent_group_def
  by (rule triple_bnd [OF dir]) (auto simp: triple_def Let_def intro: put_same split: prod.splits sum.splits)

lemmas rules = triple_bnd lift dir tick text_read append_event keep_gets keep_require keep_ret triple_if other

lemma states: "triple Q (loadState g) (\<lambda>_. Q) Q" "triple Q (writeState st) (\<lambda>_. Q) Q"
  unfolding loadState_def writeState_def by ((rule rules | simp)+)

lemma recording: "triple Q (record_event g t s v d) (\<lambda>_. Q) Q"
  unfolding record_event_def record_append_def nextEventSequence_def Let_def
  by (rule rules states)+

lemma recovery:
  assumes "\<And>x f. gf_sessions (upd x f) = gf_sessions f"
  shows "triple Q (recover_group_file cks sel upd d name) (\<lambda>_. Q) Q"
  using assms
  by (auto simp: triple_def recover_group_file_def Let_def intro!: put_same split: prod.splits sum.splits)

lemma resuming: "triple Q (resumeGroup_controller g) (\<lambda>_. Q) Q"
  unfolding resumeGroup_controller_def reconcile_group_def loadDefinition_group_def loadRequirements_def readEvents_group_def Let_def
  by (rule rules states recovery refl | simp)+

end

interpretation undelivered: session_condition undelivered
  by unfold_locales (rule undelivered_ext)

interpretation sessions: session_condition "\<lambda>w. P (session_of w)" for P
  by unfold_locales simp

section \<open>The life of a store\<close>

lemma undelivered_writes: "sr_status r \<notin> DELIVERED \<Longrightarrow> triple undelivered (writeSession r) (\<lambda>_. undelivered) undelivered"
  using undelivered_write by (fastforce simp: triple_def split: prod.splits sum.splits)

lemma undelivered_create: "triple undelivered (createGroup pt q c i t) (\<lambda>_. undelivered) undelivered"
  unfolding createGroup_def initialize_group_def write_plan_def Let_def
  by (rule undelivered.rules undelivered.recording refl triple_for_each [where I = "\<lambda>_. undelivered"] undelivered_writes
      | simp add: initialSessionRuntime_def DELIVERED_def)+

text \<open>What may happen to a store in which no session counts as delivered, one without groups for instance: a group is created, an event is recorded, a group is resumed, the lifecycle handles a session,
  a runner made for it does an operation, or something happens in the executor manager.\<close>

inductive development :: "path_module \<Rightarrow> 'm manager_ports \<Rightarrow> 'm \<times> group_world \<Rightarrow> bool" for pm mp where
  begun: "well_filed w \<Longrightarrow> undefined_shows (gx_platform w) \<Longrightarrow> (\<And>g s r. session_of w g s = Some r \<Longrightarrow> sr_status r \<notin> DELIVERED) \<Longrightarrow>
     development pm mp (a, w)"
| created: "development pm mp (a, w) \<Longrightarrow> development pm mp (a, snd (createGroup pt q c i t w))"
| recorded: "development pm mp (a, w) \<Longrightarrow> development pm mp (a, snd (record_event g t s v d w))"
| resumed: "development pm mp (a, w) \<Longrightarrow> development pm mp (a, snd (resumeGroup_controller g w))"
| lifecycle: "development pm mp (a, w) \<Longrightarrow> development pm mp (a, snd (lifecycle_run s x w))"
| runner: "development pm mp st \<Longrightarrow> development pm mp (snd (with_runner pm mp g s (\<lambda>p z. session_op_run p z x) st))"
| elsewhere: "development pm mp (a, w) \<Longrightarrow> development pm mp (f a, w)"

lemma loadPlan_reads: "snd (loadPlan g w) = w"
  by (auto simp: loadPlan_def groupDir_def read_text_def bnd_run eff_defs guard_res_def split: sum.splits option.splits)

lemma sessionRunner_Inr:
  assumes "sessionRunner pm g s w = (Inr (z, r), w')"
  shows "w' = w \<and> session_of w g s = Some r"
proof -
  obtain q where plan: "loadPlan g w = (q, w)" using loadPlan_reads by (metis prod.collapse)
  obtain l where load: "loadSession g s w = (l, w)" using loadSession_run by blast
  from assms show ?thesis
    by (auto simp: sessionRunner_def bnd_run plan load eff_defs session_of_Some_iff Let_def split: sum.splits option.splits)
qed

lemma sessionRunner_reads: "snd (sessionRunner pm g s w) = w"
  using loadSession_run [of g s w] loadPlan_reads [of g w]
  by (cases "loadPlan g w") (auto simp: sessionRunner_def bnd_run eff_defs Let_def split: option.splits sum.splits prod.splits)

lemma undelivered_runner:
  assumes ok: "undelivered w"
  shows "undelivered (snd (snd (with_runner pm mp g s (\<lambda>p z. session_op_run p z x) (a, w))))"
proof (cases "fst (sessionRunner pm g s w)")
  case (Inl e)
  then show ?thesis using ok sessionRunner_reads [of pm g s w]
    by (cases "sessionRunner pm g s w") (simp add: with_runner_def bnd_run on_store_def)
next
  case (Inr k)
  obtain z r where k: "k = (z, r)" by (cases k)
  from Inr k sessionRunner_reads [of pm g s w] have run: "sessionRunner pm g s w = (Inr (z, r), w)"
    by (cases "sessionRunner pm g s w") simp
  from sessionRunner_Inr [OF run] have r: "session_of w g s = Some r" by simp
  let ?c = "\<lparr>rn_runtime = r, rn_env = (a, w)\<rparr>"
  have "durable.inv ?c" using ok r by (auto simp: durable.inv_def store_inv_def undelivered_runtime_def undelivered_def)
  then have "durable.inv (snd (session_op_run (store_ports mp) z x ?c))"
    by (rule tripleD_state [OF durable.runner_keeps])
  then have "undelivered (snd (rn_env (snd (session_op_run (store_ports mp) z x ?c))))" by (simp add: durable.inv_def store_inv_def)
  then show ?thesis
    by (auto simp: with_runner_def bnd_run on_store_def run on_runner_def split: prod.splits sum.splits)
qed

lemma development_undelivered: "development pm mp st \<Longrightarrow> undelivered (snd st)"
proof (induction rule: development.induct)
  case (begun w a)
  then show ?case by (auto simp: undelivered_def)
next
  case (created a w pt q c i t)
  then show ?case using tripleD_state [OF undelivered_create] by simp
next
  case (recorded a w g t s v d)
  then show ?case using tripleD_state [OF undelivered.recording] by simp
next
  case (resumed a w g)
  then show ?case using tripleD_state [OF undelivered.resuming] by simp
next
  case (lifecycle a w s x)
  then show ?case using undelivered_moves [OF _ lifecycle_moves] by simp
next
  case (runner st g s x)
  then show ?case using undelivered_runner [of "snd st" pm mp g s x "fst st"] by simp
qed simp

text \<open>C7: no session is ever read as delivered, integrating, integrated or verified. However groups are created and resumed, events
  recorded, sessions handled by the lifecycle or by a runner, and in whatever order, also where an operation throws half way:
  what can be read of a session is a status before its delivery or off that path. Delivering writes the session with an undefined
  blocker, and the file of that session cannot be read from then on; so the steps that follow a delivery (integrating,
  verifying, completing the group) never find a session to work on.\<close>

theorem delivered_is_never_read:
  assumes "development pm mp (a, w)" "loadSession g s w = (Inr r, w)"
  shows "sr_status r \<notin> {DDelivered, DIntegrating, DIntegrated, DVerified}"
  using development_undelivered [OF assms(1)] assms(2)
  by (auto simp: undelivered_def DELIVERED_def session_of_Some_iff)

text \<open>One session delivers, another runs. The delivery is accepted; the running session can still be read.\<close>

definition demo_two_sessions :: group_world where
  "demo_two_sessions = put_session ''g'' ''s2'' (demo_session_runtime ''s2'' DRunning) demo_delivering"

lemma demo_second_file: "session_file ''g'' ''s2'' = Some (''g'', ''s2'')" "''s2'' \<noteq> ''s1''"
  by code_simp+

lemma demo_two_sessions_of:
  "session_of demo_two_sessions g s = (if session_file g s = Some (''g'', ''s2'') then Some (demo_session_runtime ''s2'' DRunning)
     else if session_file g s = Some (''g'', ''s1'') then Some (demo_session_runtime ''s1'' DDelivering) else None)"
  by (simp add: demo_two_sessions_def session_of_put_session demo_sessions)

lemma demo_two_development: "development pm mp (a, demo_two_sessions)"
proof (rule development.begun)
  show "well_filed demo_two_sessions"
    using demo_files(1) demo_second_file by (auto simp: well_filed_def demo_two_sessions_of demo_session_runtime_def split: if_splits)
  show "undefined_shows (gx_platform demo_two_sessions)" using demo_platform_law by (simp add: demo_two_sessions_def demo_delivering_def)
qed (auto simp: demo_two_sessions_of demo_session_runtime_def DELIVERED_def split: if_splits)

lemma demo_two_accepted:
  "\<exists>r. snd (acceptDevelopmentDelivery demo_owner demo_change demo_verdict demo_two_sessions) =
     put_session ''g'' ''s1'' r (ticked (put_delivery ''g'' ''s1'' demo_change demo_two_sessions))"
proof -
  have "loadSession ''g'' ''s1'' demo_two_sessions = (Inr (demo_session_runtime ''s1'' DDelivering), demo_two_sessions)"
    using demo_two_sessions_of [of "''g''" "''s1''"] demo_files(1) demo_second_file by (simp add: session_of_Some_iff)
  moreover have "assertSafeId ''g'' ''groupId'' = Inr ''g''" "assertSafeId ''s1'' ''sessionId'' = Inr ''s1''" by code_simp+
  then have "fst (loadDelivery ''g'' ''s1'' demo_two_sessions) = Inl NoEntry"
    by (simp add: loadDelivery_def groupDir_def bnd_run read_text_def eff_defs demo_two_sessions_def demo_delivering_def group_at_def empty_group_def
        put_session_def put_group_def)
  ultimately have "accept_guard demo_owner demo_change demo_verdict demo_two_sessions = (Inr (None, demo_session_runtime ''s1'' DDelivering), demo_two_sessions)"
    using demo_change_accepted by (simp add: accept_guard_Inr_iff existingDelivery_Inr_iff demo_files demo_verdict_def)
  from accept_first [OF this _ demo_files(4) _ _ refl, of "''g''" "''s1''"] show ?thesis
    by (auto simp: demo_files filed_def demo_session_runtime_def)
qed

theorem delivered_is_never_read_witness:
  "\<exists>w r. w = snd (lifecycle_run demo_owner (LAccept demo_change demo_verdict) demo_two_sessions) \<and>
     loadSession ''g'' ''s2'' w = (Inr r, w) \<and> sr_status r \<notin> {DDelivered, DIntegrating, DIntegrated, DVerified}"
proof -
  let ?pm = "\<lparr>pm_resolve = concat, pm_isAbsolute = (\<lambda>_. True)\<rparr>" and ?mp = "manager_ports.truncate demo_session_ports"
  let ?w = "snd (lifecycle_run demo_owner (LAccept demo_change demo_verdict) demo_two_sessions)"
  have "session_of ?w ''g'' ''s2'' = Some (demo_session_runtime ''s2'' DRunning)"
    using demo_two_accepted demo_second_file by (auto simp: session_of_put_session demo_two_sessions_of)
  then have load: "loadSession ''g'' ''s2'' ?w = (Inr (demo_session_runtime ''s2'' DRunning), ?w)" by (simp only: session_of_Some_iff)
  have "development ?pm ?mp (0::nat, ?w)" by (rule development.lifecycle [OF demo_two_development])
  from delivered_is_never_read [OF this load] load show ?thesis by blast
qed

end
