(* ===== verification/GroupFacade.thy ===== *)
theory GroupFacade
  imports GroupRunner GroupIntegration
begin

text \<open>
  \<open>group-runtime/runtime\<close>: the facade of the development groups (\<open>runtime-facade.ts\<close>), the supervisor of their prompts
  (\<open>worker-supervisor.ts\<close>) and the explicit retry (\<open>retry-session.ts\<close>); what the desktop does with a runner or an unknown
  outcome (\<open>desktop/desktop-runtime.ts\<close>).

  Outside the store there are the executor manager, git, the delivery gate and the verification commands, on a state of a
  type of its own. A launched prompt runs beside the facade: launching returns a job, and running the job is an operation
  of its own.
\<close>

section \<open>The world of a facade\<close>

record 'm facade_options =
  fq_path :: path_module
  fq_order :: record_order
  fq_manager :: "'m manager_ports"
  fq_git :: "'m integration_port"
  fq_verify :: "session_definition \<Rightarrow> delivery \<Rightarrow> ('m, gate_result) eff"
  fq_materialize :: "group_definition \<Rightarrow> session_definition \<Rightarrow> session_runtime \<Rightarrow> ('m, delivery) eff"
  fq_commands :: "group_definition \<Rightarrow> ('m, verification_command list) eff"
  fq_executor :: "'m command_executor"
  fq_host :: host_platform
  fq_postMergeCheck :: "(string \<Rightarrow> ('m, integration_check) eff) option"
  fq_sha256 :: "string \<Rightarrow> string"

record 'm facade_world =
  fw_outside :: 'm
  fw_store :: group_world
  fw_active :: "string list"  \<comment> \<open>the sessions of the supervised prompts\<close>

type_synonym ('m, 'a) facade_eff = "('m facade_world, 'a) eff"

definition in_store :: "'a group_eff \<Rightarrow> ('m, 'a) facade_eff" where
  "in_store m = (\<lambda>c. case m (fw_store c) of (r, w) \<Rightarrow> (r, c\<lparr>fw_store := w\<rparr>))"

definition in_outside :: "('m, 'a) eff \<Rightarrow> ('m, 'a) facade_eff" where
  "in_outside m = (\<lambda>c. case m (fw_outside c) of (r, a) \<Rightarrow> (r, c\<lparr>fw_outside := a\<rparr>))"

definition in_both :: "('m \<times> group_world, 'a) eff \<Rightarrow> ('m, 'a) facade_eff" where
  "in_both m = (\<lambda>c. case m (fw_outside c, fw_store c) of (r, (a, w)) \<Rightarrow> (r, c\<lparr>fw_outside := a, fw_store := w\<rparr>))"

section \<open>Reading the state of a group\<close>

definition mergedSessionIds :: "group_records \<Rightarrow> string list" where
  "mergedSessionIds rd = first_occurrences (concat (map ml_mergedSessionIds (filter (\<lambda>r. ml_status r = MilestoneMerged) (rd_integrations rd))))"

text \<open>From the final head back over the merged records, like the walk of the completion proof; it ends because no head is
  passed twice.\<close>

function chain_walk :: "string list \<Rightarrow> (string \<Rightarrow> milestone option) \<Rightarrow> string list \<Rightarrow> string \<Rightarrow> milestone list res" where
  "chain_walk heads m visited cursor =
     (if cursor \<in> set visited then Inl (Error (''Integration ancestry cycle at '' @ cursor))
      else case (if cursor \<in> set heads then m cursor else None) of
        None \<Rightarrow> Inr []
      | Some r \<Rightarrow> (case chain_walk heads m (cursor # visited) (ml_baseSha r) of Inl e \<Rightarrow> Inl e | Inr rs \<Rightarrow> Inr (r # rs)))"
  by pat_completeness auto
termination
proof (relation "measure (\<lambda>(heads, m, visited, cursor). card (set heads - set visited))", goal_cases)
  case (2 heads m visited cursor r)
  then have "set heads - set (cursor # visited) \<subset> set heads - set visited" by (auto split: if_splits)
  then have "card (set heads - set (cursor # visited)) < card (set heads - set visited)" by (intro psubset_card_mono) auto
  then show ?case by simp
qed simp

declare chain_walk.simps [simp del]

definition finalIntegrationChain :: "group_records \<Rightarrow> string \<Rightarrow> milestone list res" where
  "finalIntegrationChain rd sha = (case merged_by_head (rd_integrations rd) (\<lambda>_. None) of Inl e \<Rightarrow> Inl e
     | Inr m \<Rightarrow> chain_walk (map ml_headSha (rd_integrations rd)) m [] sha)"

definition runtime_blocker :: "session_runtime \<Rightarrow> string" where
  "runtime_blocker r = (let b = (case sr_blocker r of None \<Rightarrow> [] | Some t \<Rightarrow> trim t) in
     if b \<noteq> [] then b else sr_sessionId r @ '':'' @ session_status_text (sr_status r))"

definition currentBlockers :: "group_records \<Rightarrow> string list" where
  "currentBlockers rd = sorted_unique (filter (\<lambda>v. v \<noteq> [])
     (map runtime_blocker (filter (\<lambda>r. sr_status r \<in> set [DBlocked, DWaitingInput, DOutcomeUnknown, DFailed]) (rd_runtimes rd)) @
      map fr_message (filter fr_unresolved (rd_failures rd)) @
      map (\<lambda>t. rt_repairTaskId t @ (if rt_status t = RepairFailed then '':failed'' else '':waiting_human''))
        (filter (\<lambda>t. rt_status t = RepairWaitingHuman \<or> rt_status t = RepairFailed) (rd_repairs rd))))"

definition unknown_count :: "group_records \<Rightarrow> int" where
  "unknown_count rd = int (length (filter (\<lambda>r. sr_status r = DOutcomeUnknown) (rd_runtimes rd)))"

definition normalizeRuntimeState :: "group_state \<Rightarrow> group_records \<Rightarrow> group_state" where
  "normalizeRuntimeState st rd = (let n = unknown_count rd; bs = currentBlockers rd; terminal = gs_status st \<in> set [GCompleted, GCancelled, GFailed] in
     st\<lparr>gs_status := (if n > 0 \<and> \<not> terminal then GOutcomeUnknown
          else if n = 0 \<and> gs_status st = GOutcomeUnknown then (if bs \<noteq> [] then GBlocked else GReady) else gs_status st),
        gs_unresolvedBlockers := bs, gs_outcomeUnknownCount := n\<rparr>)"

fun run_status_text :: "run_status \<Rightarrow> string" where
  "run_status_text RunPending = ''pending''"
| "run_status_text RunRunning = ''running''"
| "run_status_text RunPassed = ''passed''"
| "run_status_text RunFailed = ''failed''"
| "run_status_text RunOutcomeUnknown = ''outcome_unknown''"

record group_snapshot =
  gv_plan :: planning_proposal
  gv_state :: group_state
  gv_records :: group_records

definition settle_session :: "string \<Rightarrow> session_definition \<Rightarrow> ('m, unit) facade_eff" where
  "settle_session g s = bnd (gets (\<lambda>c. se_sessionId s \<in> set (fw_active c))) (\<lambda>owned.
     bnd (in_store (reconcileInterruptedExecutorRuntime g (se_sessionId s) owned)) (\<lambda>_.
     bnd (in_store (reconcileAcceptedDelivery s)) (\<lambda>_. ret ())))"

text \<open>\<open>Promise.all\<close> over the sessions: each of them is settled, whatever happens to the others; the first error is thrown. The
  sessions have files of their own, so the order in which the code interleaves them does not show.\<close>

definition settle_next :: "string \<Rightarrow> session_definition \<Rightarrow> error option \<Rightarrow> ('m, error option) facade_eff" where
  "settle_next g s acc = catch_with (bnd (settle_session g s) (\<lambda>_. ret acc))
     (\<lambda>e. ret (case acc of None \<Rightarrow> Some e | Some first \<Rightarrow> Some first))"

definition settle_all :: "string \<Rightarrow> session_definition list \<Rightarrow> ('m, unit) facade_eff" where
  "settle_all g ss = bnd (for_each ss (settle_next g) None) (\<lambda>failed. case failed of None \<Rightarrow> ret () | Some e \<Rightarrow> throw e)"

definition snapshot_group :: "'m facade_options \<Rightarrow> string \<Rightarrow> ('m, group_snapshot) facade_eff" where
  "snapshot_group o' g = bnd (in_store (loadPlan g)) (\<lambda>plan. bnd (in_store (resumeGroup_controller g)) (\<lambda>_.
     bnd (settle_all g (pp_sessions plan)) (\<lambda>_.
     bnd (in_store (loadState g)) (\<lambda>raw. bnd (in_store (loadDurableGroupRecords (fq_order o') plan)) (\<lambda>rd.
     let st = normalizeRuntimeState raw rd in
     bnd (if st \<noteq> raw then in_store (writeState st) else ret ()) (\<lambda>_.
     ret \<lparr>gv_plan = plan, gv_state = st, gv_records = rd\<rparr>))))))"

definition plan_session :: "group_snapshot \<Rightarrow> string \<Rightarrow> session_definition option" where
  "plan_session v s = find_key se_sessionId s (pp_sessions (gv_plan v))"

definition snapshot_delivery :: "group_snapshot \<Rightarrow> string \<Rightarrow> delivery option" where
  "snapshot_delivery v s = find_key dl_sessionId s (rd_deliveries (gv_records v))"

definition resolved :: "'m facade_options \<Rightarrow> group_definition \<Rightarrow> session_definition \<Rightarrow> ('m, session_definition) facade_eff" where
  "resolved o' d s = lift_res (resolveSessionWorktree (fq_path o') d s)"

definition no_unknown :: "group_snapshot \<Rightarrow> string \<Rightarrow> ('m, unit) facade_eff" where
  "no_unknown v what = require_that (\<not> gs_outcomeUnknownCount (gv_state v) > 0)
     (Error (''Development Group has unresolved OutcomeUnknown and cannot '' @ what))"

section \<open>Deliveries\<close>

definition submitDelivery :: "'m facade_options \<Rightarrow> delivery \<Rightarrow> ('m, session_runtime) facade_eff" where
  "submitDelivery o' d = bnd (in_store (loadPlan (dl_groupId d))) (\<lambda>plan.
     case find_key se_sessionId (dl_sessionId d) (pp_sessions plan) of
       None \<Rightarrow> throw (Error (''unknown Development Session '' @ dl_sessionId d))
     | Some persisted \<Rightarrow> bnd (resolved o' (pp_definition plan) persisted) (\<lambda>s.
         bnd (in_outside (fq_verify o' s d)) (\<lambda>gate.
         if \<not> gr_accept gate
         then bnd (in_store (record_event (dl_groupId d) DeliveryRejected (Some (dl_sessionId d)) (Some (se_waveId s))
                (Some (js_join ''; '' (gr_reasons gate))))) (\<lambda>_. throw (Error (''Delivery rejected: '' @ js_join ''; '' (gr_reasons gate))))
         else bnd (in_store (acceptDevelopmentDelivery s d gate)) (\<lambda>r.
              bnd (in_store (record_event (dl_groupId d) SessionDelivered (Some (dl_sessionId d)) (Some (se_waveId s))
                (Some (''delivery_hash='' @ dl_deliveryHash d)))) (\<lambda>_. ret r)))))"

section \<open>The supervisor\<close>

record launch =
  la_spec :: runner_spec
  la_runtime :: session_runtime
  la_request :: string

definition mayReleaseExecutorBinding :: "session_status \<Rightarrow> bool" where
  "mayReleaseExecutorBinding st \<longleftrightarrow> st \<noteq> DOutcomeUnknown \<and> st \<notin> set [DStarting, DRunning, DWaitingInput]"

definition launch_prompt :: "runner_spec \<times> session_runtime \<Rightarrow> string \<Rightarrow> ('m, launch) facade_eff" where
  "launch_prompt k request = (let s = se_sessionId (rz_session (fst k)) in
     bnd (gets (\<lambda>c. s \<in> set (fw_active c))) (\<lambda>active.
     bnd (require_that (\<not> active) (Error (''Development Session '' @ s @ '' already has an active supervised prompt''))) (\<lambda>_.
     bnd (require_that (sr_status (snd k) = DRunning)
       (Error (''supervised prompt requires running Session; got '' @ session_status_text (sr_status (snd k))))) (\<lambda>_.
     bnd (modify (\<lambda>c. c\<lparr>fw_active := fw_active c @ [s]\<rparr>)) (\<lambda>_.
     ret \<lparr>la_spec = fst k, la_runtime = snd k, la_request = request\<rparr>)))))"

text \<open>The prompt of a job: what it answers and where it leaves the runtime of its runner.\<close>

definition run_prompt :: "'m facade_options \<Rightarrow> launch \<Rightarrow> ('m, session_runtime res \<times> session_runtime) facade_eff" where
  "run_prompt o' j = in_both (\<lambda>s. case sendInitialInstruction (store_ports (fq_manager o')) (la_spec j) (la_request j)
       \<lparr>rn_runtime = la_runtime j, rn_env = s\<rparr> of (r, c) \<Rightarrow> (Inr (r, rn_runtime c), rn_env c))"

definition releaseSettledBinding :: "'m facade_options \<Rightarrow> launch \<Rightarrow> session_status \<Rightarrow> ('m, unit) facade_eff" where
  "releaseSettledBinding o' j st = (if \<not> mayReleaseExecutorBinding st then ret ()
     else catch_with (in_outside (xp_close (fq_manager o') (session_task (la_spec j)) (se_executionId (rz_session (la_spec j))))) (\<lambda>_. ret ()))"

definition afterSettled :: "'m facade_options \<Rightarrow> launch \<Rightarrow> session_runtime \<Rightarrow> ('m, unit) facade_eff" where
  "afterSettled o' j r = (let z = la_spec j; s = rz_session z; g = gd_groupId (rz_group z) in
     if sr_status r \<noteq> DDelivering then ret ()
     else catch_with (bnd (in_outside (fq_materialize o' (rz_group z) s r)) (\<lambda>d. bnd (submitDelivery o' d) (\<lambda>_. ret ())))
       (\<lambda>e. let blocker = ''delivery_materialization_failed: '' @ error_text e in
         bnd (in_store (markSessionBlocked g (se_sessionId s) blocker)) (\<lambda>_.
         bnd (in_store (record_event g SessionBlocked (Some (se_sessionId s)) (Some (se_waveId s)) (Some blocker))) (\<lambda>_. ret ()))))"

text \<open>A job never rejects: the supervisor forgets the session whatever happened.\<close>

definition run_job :: "'m facade_options \<Rightarrow> launch \<Rightarrow> ('m, unit) facade_eff" where
  "run_job o' j = bnd (catch_with (bnd (run_prompt o' j) (\<lambda>(r, last). case r of
       Inr fin \<Rightarrow> bnd (catch_with (afterSettled o' j fin) (\<lambda>e. bnd (releaseSettledBinding o' j (sr_status fin)) (\<lambda>_. throw e)))
         (\<lambda>_. releaseSettledBinding o' j (sr_status fin))
     | Inl e \<Rightarrow> bnd (if sr_status last \<in> set [DOutcomeUnknown, DFailed, DBlocked, DCancelled] then ret last
           else bnd (in_both (on_runner (la_spec j, last) (markOutcomeUnknown (store_ports (fq_manager o')) (''supervisor_prompt_exception: '' @ error_text e))))
             (\<lambda>x. ret (fst x)))
         (\<lambda>fin. releaseSettledBinding o' j (sr_status fin)))) (\<lambda>_. ret ()))
     (\<lambda>_. modify (\<lambda>c. c\<lparr>fw_active := filter (\<lambda>s. s \<noteq> se_sessionId (rz_session (la_spec j))) (fw_active c)\<rparr>))"

section \<open>Starting sessions\<close>

definition session_evidence :: "'m facade_options \<Rightarrow> group_snapshot \<Rightarrow> string \<Rightarrow> bool \<times> bool \<Rightarrow> ('m, bool \<times> bool) facade_eff" where
  "session_evidence o' v s acc = (case (plan_session v s, snapshot_delivery v s) of
     (Some persisted, Some d) \<Rightarrow> bnd (resolved o' (pp_definition (gv_plan v)) persisted) (\<lambda>session.
       bnd (in_outside (fq_verify o' session d)) (\<lambda>gate.
       ret (fst acc \<and> gr_accept gate, snd acc \<and> (case gr_ownership gate of None \<Rightarrow> True | Some a \<Rightarrow> oa_valid a))))
   | _ \<Rightarrow> ret (False, False))"

definition buildWaveEvidence :: "'m facade_options \<Rightarrow> group_snapshot \<Rightarrow> ('m, evidence_map) facade_eff" where
  "buildWaveEvidence o' v = (let merged = mergedSessionIds (gv_records v) in
     for_each (pp_waves (gv_plan v)) (\<lambda>wv ev.
       bnd (for_each (wa_requiredSessionIds wv) (session_evidence o' v) (True, True)) (\<lambda>(deliveries, ownership).
       ret (ev(wa_waveId wv \<mapsto> \<lparr>ge_waveId = wa_waveId wv,
         ge_integrationValid = list_all (\<lambda>s. s \<in> set merged) (wa_requiredSessionIds wv),
         ge_requiredDeliveriesValid = deliveries, ge_ownershipValid = ownership\<rparr>)))) (\<lambda>_. None))"

definition running_sessions :: "group_records \<Rightarrow> int" where
  "running_sessions rd = int (length (filter (\<lambda>r. sr_status r \<in> set [DStarting, DRunning, DWaitingInput]) (rd_runtimes rd)))"

text \<open>Starting a runner, made ready before if it waits for its dependencies; the event is recorded first.\<close>

definition start_runner :: "'m facade_options \<Rightarrow> runner_spec \<times> session_runtime \<Rightarrow> ('m, runner_spec \<times> session_runtime) facade_eff" where
  "start_runner o' k = bnd (in_both (on_runner k (start_session (store_ports (fq_manager o')) (fst k)))) (\<lambda>x. ret (fst k, fst x))"

definition start_one :: "'m facade_options \<Rightarrow> string \<Rightarrow> string \<Rightarrow> string \<Rightarrow> nat \<times> string \<Rightarrow> launch list \<Rightarrow> ('m, launch list) facade_eff" where
  "start_one o' g wave request e acc = (case e of (i, s) \<Rightarrow>
     bnd (in_store (sessionRunner (fq_path o') g s)) (\<lambda>k.
     bnd (if sr_status (snd k) = DWaitingDependencies
          then bnd (in_both (on_runner k (markReady (store_ports (fq_manager o'))))) (\<lambda>x. ret (fst k, fst x)) else ret k) (\<lambda>k.
     bnd (in_store (record_event g SessionStarted (Some s) (Some wave) None)) (\<lambda>_.
     bnd (start_runner o' k) (\<lambda>k.
     bnd (launch_prompt k (request @ '':'' @ int_text (int i + 1) @ '':'' @ s)) (\<lambda>j. ret (acc @ [j])))))))"

definition startWave :: "'m facade_options \<Rightarrow> string \<Rightarrow> string \<Rightarrow> string \<Rightarrow> ('m, launch list) facade_eff" where
  "startWave o' g wave request = bnd (snapshot_group o' g) (\<lambda>v.
     bnd (no_unknown v ''start more Sessions'') (\<lambda>_.
     bnd (require_that (find_key wa_waveId wave (pp_waves (gv_plan v)) \<noteq> None) (Error (''unknown Development Wave '' @ wave))) (\<lambda>_.
     bnd (buildWaveEvidence o' v) (\<lambda>ev.
     bnd (in_store (schedule_group g ev (running_sessions (gv_records v)))) (\<lambda>sh.
     let eligible = filter (\<lambda>s. map_option se_waveId (plan_session v s) = Some wave) (sh_readySessionIds sh) in
     bnd (require_that (eligible \<noteq> []) (Error (''Development Wave '' @ wave @ '' has no eligible Sessions''))) (\<lambda>_.
     bnd (in_store (record_event g WaveStarted None (Some wave) None)) (\<lambda>_.
     for_each (enumerate 0 eligible) (start_one o' g wave request) [])))))))"

text \<open>The explicit retry of a failed or blocked session.\<close>

definition retry_wave_check :: "'m facade_options \<Rightarrow> group_snapshot \<Rightarrow> string list \<Rightarrow> string \<Rightarrow> unit \<Rightarrow> ('m, unit) facade_eff" where
  "retry_wave_check o' v merged w _ = (case find_key wa_waveId w (pp_waves (gv_plan v)) of
     None \<Rightarrow> throw (Error (''missing dependency Wave '' @ w))
   | Some dep \<Rightarrow> for_each (wa_requiredSessionIds dep) (\<lambda>s _.
       bnd (require_that (s \<in> set merged) (Error (''dependency Wave '' @ w @ '' is not fully integrated''))) (\<lambda>_.
       case (plan_session v s, snapshot_delivery v s) of
         (Some persisted, Some d) \<Rightarrow> bnd (resolved o' (pp_definition (gv_plan v)) persisted) (\<lambda>session.
           bnd (in_outside (fq_verify o' session d)) (\<lambda>gate. require_that (gr_accept gate)
             (Error (''dependency Wave '' @ w @ '' no longer passes Delivery evidence: '' @ js_join ''; '' (gr_reasons gate)))))
       | _ \<Rightarrow> throw (Error (''dependency Wave '' @ w @ '' is missing durable Delivery evidence'')))) ())"

definition retryDevelopmentSession :: "'m facade_options \<Rightarrow> string \<Rightarrow> string \<Rightarrow> string \<Rightarrow> ('m, launch) facade_eff" where
  "retryDevelopmentSession o' g s request = bnd (snapshot_group o' g) (\<lambda>v.
     bnd (no_unknown v ''retry Sessions'') (\<lambda>_.
     bnd (gets (\<lambda>c. s \<in> set (fw_active c))) (\<lambda>active.
     bnd (require_that (\<not> active) (Error (''Development Session '' @ s @ '' still has an active supervised prompt''))) (\<lambda>_.
     case (plan_session v s, find_key sr_sessionId s (rd_runtimes (gv_records v))) of
       (Some persisted, Some r) \<Rightarrow> bnd (resolved o' (pp_definition (gv_plan v)) persisted) (\<lambda>session.
         bnd (require_that (sr_status r \<noteq> DOutcomeUnknown) (Error ''OutcomeUnknown cannot enter retry; resolve the uncertain execution first'')) (\<lambda>_.
         bnd (require_that (sr_status r \<in> {DFailed, DBlocked}) (Error (''only failed/blocked Sessions may retry; got '' @ session_status_text (sr_status r)))) (\<lambda>_.
         bnd (require_that (\<not> sr_attempt r \<ge> gp_maxSessionAttempts (gd_policy (pp_definition (gv_plan v)))) (Error ''session attempt budget exhausted'')) (\<lambda>_.
         let merged = mergedSessionIds (gv_records v) in
         bnd (for_each (se_dependencies session) (\<lambda>d _. require_that (d \<in> set merged)
           (Error (''retry dependency '' @ d @ '' is not durably integrated''))) ()) (\<lambda>_.
         case find_key wa_waveId (se_waveId session) (pp_waves (gv_plan v)) of
           None \<Rightarrow> throw (Error (''missing Development Wave '' @ se_waveId session))
         | Some wv \<Rightarrow> bnd (for_each (wa_dependsOnWaveIds wv) (retry_wave_check o' v merged) ()) (\<lambda>_.
             bnd (in_store (sessionRunner (fq_path o') g s)) (\<lambda>k.
             bnd (in_both (on_runner k (prepareRetry (store_ports (fq_manager o')) (fst k)))) (\<lambda>x.
             bnd (in_store (record_event g SessionStarted (Some s) (Some (se_waveId session))
               (Some (''explicit_retry_attempt='' @ int_text (sr_attempt r + 1))))) (\<lambda>_.
             bnd (start_runner o' (fst k, fst x)) (\<lambda>k. launch_prompt k request))))))))))
     | _ \<Rightarrow> throw (Error (''unknown Development Session '' @ s))))))"

section \<open>Integration, verification, completion\<close>

definition facade_git :: "'m facade_options \<Rightarrow> 'm facade_world integration_port" where
  "facade_git o' = (let p = fq_git o' in \<lparr>ip_currentBranch = in_outside (ip_currentBranch p), ip_currentHead = in_outside (ip_currentHead p),
     ip_branchHead = (\<lambda>b. in_outside (ip_branchHead p b)), ip_statusClean = in_outside (ip_statusClean p),
     ip_merge = (\<lambda>b. in_outside (ip_merge p b)), ip_resetTo = (\<lambda>h. in_outside (ip_resetTo p h))\<rparr>)"

definition facade_integration :: "'m facade_options \<Rightarrow> session_definition \<Rightarrow> delivery \<Rightarrow> 'm facade_world integration_options" where
  "facade_integration o' s d = \<lparr>io_port = facade_git o', io_integrationRef = se_integrationRef s,
     io_verify = (\<lambda>_. in_outside (fq_verify o' s d)),
     io_postMergeCheck = map_option (\<lambda>check head _. in_outside (check head)) (fq_postMergeCheck o'),
     io_write = (\<lambda>m. in_store (writeIntegration m)), io_sha256 = fq_sha256 o', io_now = in_store group_now\<rparr>"

definition in_integration :: "integration_queue \<Rightarrow> string list \<Rightarrow> ('m facade_world integration, 'a) eff \<Rightarrow> ('m, 'a) facade_eff" where
  "in_integration q merged m = (\<lambda>c. case m \<lparr>ic_queue = q, ic_integrated = merged, ic_written = [], ic_repo = c\<rparr> of (r, i) \<Rightarrow> (r, ic_repo i))"

definition record_integration :: "string \<Rightarrow> session_definition \<Rightarrow> milestone \<Rightarrow> ('m, unit) facade_eff" where
  "record_integration g s m = (let i = Some (se_sessionId s); wv = Some (se_waveId s) in
     if ml_status m = MilestoneMerged
     then bnd (in_store (record_event g IntegrationMerged i wv (Some (''integration_sha='' @ ml_headSha m)))) (\<lambda>st.
       in_store (writeState (st\<lparr>gs_integrationSha := Some (ml_headSha m)\<rparr>)))
     else bnd (in_store (record_event g SessionBlocked i wv (Some (milestone_blocker m)))) (\<lambda>_. ret ()))"

definition integrateDelivery :: "'m facade_options \<Rightarrow> string \<Rightarrow> string \<Rightarrow> ('m, milestone) facade_eff" where
  "integrateDelivery o' g sid = bnd (snapshot_group o' g) (\<lambda>v.
     bnd (no_unknown v ''integrate'') (\<lambda>_.
     case (plan_session v sid, snapshot_delivery v sid) of
       (Some persisted, Some d) \<Rightarrow> bnd (resolved o' (pp_definition (gv_plan v)) persisted) (\<lambda>s.
         case enqueue s d (pp_waves (gv_plan v)) empty_queue of
           (Inl e, _) \<Rightarrow> throw e
         | (Inr _, q) \<Rightarrow> let merged = mergedSessionIds (gv_records v) in
             bnd (require_that (ready_items merged q \<noteq> []) (Error (''Delivery '' @ dl_deliveryHash d @ '' is not dependency-ready for integration''))) (\<lambda>_.
             bnd (in_store (record_event g IntegrationStarted (Some sid) (Some (se_waveId s)) (Some (''delivery_hash='' @ dl_deliveryHash d)))) (\<lambda>_.
             bnd (in_store (markSessionIntegrating g sid)) (\<lambda>_.
             bnd (in_integration q merged (integrateNext (facade_integration o' s d))) (\<lambda>res. case res of
               None \<Rightarrow> throw (Error ''integration queue became blocked after readiness check'')
             | Some m \<Rightarrow> bnd (in_store (applyIntegrationMilestone sid m)) (\<lambda>_.
                 bnd (record_integration g s m) (\<lambda>_. ret m)))))))
     | _ \<Rightarrow> throw (Error (''missing Session or Delivery for '' @ sid))))"

definition final_sha :: "group_snapshot \<Rightarrow> string option" where
  "final_sha v = (case gs_integrationSha (gv_state v) of Some h \<Rightarrow> Some h | None \<Rightarrow>
     (case rev (filter (\<lambda>r. ml_status r = MilestoneMerged) (rd_integrations (gv_records v))) of [] \<Rightarrow> None | r # _ \<Rightarrow> Some (ml_headSha r)))"

definition require_sha :: "group_snapshot \<Rightarrow> string \<Rightarrow> ('m, string) facade_eff" where
  "require_sha v msg = (case final_sha v of Some (c # h) \<Rightarrow> ret (c # h) | _ \<Rightarrow> throw (Error msg))"

definition verification_request_of :: "'m facade_options \<Rightarrow> string \<Rightarrow> group_snapshot \<Rightarrow> string \<Rightarrow> verification_command list \<Rightarrow> string option \<Rightarrow>
    verification_request" where
  "verification_request_of o' g v sha cs runId = (let p = gd_policy (pp_definition (gv_plan v)) in
     \<lparr>vq_groupId = g, vq_integrationSha = sha, vq_policyRevision = gp_verificationPolicyRevision p, vq_commands = cs,
      vq_mandatoryCommandIds = gp_mandatoryTests p, vq_environment = [], vq_platform = fq_host o',
      vq_runId = (if runId = Some [] then None else runId), vq_startedAt = None\<rparr>)"

definition runVerification :: "'m facade_options \<Rightarrow> run_stamps \<Rightarrow> string \<Rightarrow> string option \<Rightarrow> ('m, verification_run) facade_eff" where
  "runVerification o' sp g runId = bnd (snapshot_group o' g) (\<lambda>v.
     bnd (no_unknown v ''verify'') (\<lambda>_.
     bnd (require_sha v ''verification requires a merged integration SHA'') (\<lambda>sha.
     bnd (in_outside (fq_commands o' (pp_definition (gv_plan v)))) (\<lambda>cs.
     bnd (in_store (record_event g VerificationStarted None None (Some (''integration_sha='' @ sha)))) (\<lambda>_.
     bnd (in_outside (executeVerification (fq_executor o') sp (verification_request_of o' g v sha cs runId))) (\<lambda>run.
     bnd (in_store (writeVerification run)) (\<lambda>_.
     if vn_status run \<noteq> RunPassed
     then bnd (in_store (record_event g VerificationFailedEvent None None
            (Some (''verification_run='' @ vn_runId run @ '';status='' @ run_status_text (vn_status run))))) (\<lambda>_. ret run)
     else bnd (snapshot_group o' g) (\<lambda>after.
          bnd (lift_res (finalIntegrationChain (gv_records after) sha)) (\<lambda>chain.
          bnd (for_each (first_occurrences (concat (map ml_mergedSessionIds chain))) (\<lambda>s _.
            bnd (in_store (markSessionVerified g s run)) (\<lambda>_. ret ())) ()) (\<lambda>_. ret run))))))))))"

definition valid_hashes :: "'m facade_options \<Rightarrow> group_snapshot \<Rightarrow> ('m, string list) facade_eff" where
  "valid_hashes o' v = for_each (rd_deliveries (gv_records v)) (\<lambda>d acc. case plan_session v (dl_sessionId d) of
     None \<Rightarrow> ret acc
   | Some persisted \<Rightarrow> bnd (resolved o' (pp_definition (gv_plan v)) persisted) (\<lambda>s.
       bnd (in_outside (fq_verify o' s d)) (\<lambda>gate.
       ret (if gr_accept gate \<and> dl_deliveryHash d \<notin> set acc then acc @ [dl_deliveryHash d] else acc)))) []"

definition completion_input_of :: "string \<Rightarrow> group_snapshot \<Rightarrow> string \<Rightarrow> string list \<Rightarrow> completion_input" where
  "completion_input_of g v sha hashes = (let plan = gv_plan v; rd = gv_records v in
     \<lparr>ci_groupId = g, ci_policy = gd_policy (pp_definition plan), ci_requirements = pp_requirements plan, ci_sessions = pp_sessions plan,
      ci_runtimes = rd_runtimes rd, ci_deliveries = rd_deliveries rd, ci_validDeliveryHashes = hashes, ci_integrations = rd_integrations rd,
      ci_verifications = rd_verifications rd, ci_finalIntegrationSha = sha, ci_unresolvedBlockers = gs_unresolvedBlockers (gv_state v),
      ci_waivers = (\<lambda>_. None), ci_generatedAt = None\<rparr>)"

definition completionProof :: "'m facade_options \<Rightarrow> string \<Rightarrow> ('m, completion_proof \<times> issue list) facade_eff" where
  "completionProof o' g = bnd (snapshot_group o' g) (\<lambda>v.
     bnd (require_sha v ''Completion Proof requires a final integration SHA'') (\<lambda>sha.
     bnd (valid_hashes o' v) (\<lambda>hashes. bnd (in_store group_now) (\<lambda>now.
     lift_res (buildCompletionProof now (completion_input_of g v sha hashes))))))"

definition completeGroup :: "'m facade_options \<Rightarrow> string \<Rightarrow> ('m, completion_proof) facade_eff" where
  "completeGroup o' g = bnd (completionProof o' g) (\<lambda>res. bnd (lift_res (assertGroupCompletable res)) (\<lambda>p.
     bnd (in_store (record_event g GroupCompleted None None (Some (''integration_sha='' @ cp_finalIntegrationSha p)))) (\<lambda>_. ret p)))"

section \<open>The desktop\<close>

definition desktop_respondPermission :: "'m facade_options \<Rightarrow> string \<Rightarrow> string \<Rightarrow> permission_response \<Rightarrow> ('m, unit) facade_eff" where
  "desktop_respondPermission o' g s x = bnd (in_both (with_runner (fq_path o') (fq_manager o') g s (\<lambda>p z. respondPermission_session p z x))) (\<lambda>_. ret ())"

definition desktop_cancelSession :: "'m facade_options \<Rightarrow> string \<Rightarrow> string \<Rightarrow> ('m, unit) facade_eff" where
  "desktop_cancelSession o' g s = bnd (in_both (with_runner (fq_path o') (fq_manager o') g s cancel_session)) (\<lambda>_. ret ())"

definition desktop_resolveOutcomeUnknown :: "'m facade_options \<Rightarrow> string \<Rightarrow> string \<Rightarrow> resolution \<Rightarrow> string \<Rightarrow> ('m, group_snapshot) facade_eff" where
  "desktop_resolveOutcomeUnknown o' g s x evidence = bnd (in_store (resolveSessionOutcomeUnknown g s x evidence)) (\<lambda>_.
     bnd (in_store (loadSession g s)) (\<lambda>r.
     bnd (catch_with (in_outside (xp_close (fq_manager o') (g @ '':'' @ s) (sr_executionId r))) (\<lambda>_. ret ())) (\<lambda>_.
     snapshot_group o' g)))"

end
