(* ===== verification/GroupFacadeCorrectness.thy ===== *)
theory GroupFacadeCorrectness
  imports GroupFacade GroupRunnerCorrectness GroupCompletionCorrectness
begin

text \<open>
  The properties of the facade of the development groups: its walk over the integrations agrees with the one of the completion
  proof, a snapshot settles the sessions nobody works on, and an unknown outcome stops the group.
\<close>

section \<open>Two walks over the integrations\<close>

lemma first_occurrences_snoc:
  "first_occurrences (xs @ [x]) = (if x \<in> set xs then first_occurrences xs else first_occurrences xs @ [x])"
  by (simp add: first_occurrences_def)

lemma walks_agree:
  "case chain_walk heads m visited cursor of
      Inr rs \<Rightarrow> integration_walk heads m visited cursor (first_occurrences ids) = Inr (first_occurrences (ids @ map ml_integrationRunId rs))
    | Inl e \<Rightarrow> \<exists>e'. integration_walk heads m visited cursor (first_occurrences ids) = Inl e'"
proof (induction heads m visited cursor arbitrary: ids rule: chain_walk.induct)
  case (1 heads m visited cursor)
  show ?case
  proof (cases "cursor \<notin> set visited \<and> cursor \<in> set heads \<and> m cursor \<noteq> None")
    case True
    then obtain r where r: "m cursor = Some r" by blast
    have step: "integration_walk heads m visited cursor (first_occurrences ids) =
        integration_walk heads m (cursor # visited) (ml_baseSha r) (first_occurrences (ids @ [ml_integrationRunId r]))"
      using True r by (subst integration_walk.simps) (simp add: first_occurrences_snoc)
    have walk: "chain_walk heads m visited cursor =
        (case chain_walk heads m (cursor # visited) (ml_baseSha r) of Inl e \<Rightarrow> Inl e | Inr rs \<Rightarrow> Inr (r # rs))"
      using True r by (subst chain_walk.simps) simp
    from True r 1 [of r "ids @ [ml_integrationRunId r]"] show ?thesis
      unfolding step walk by (auto split: sum.splits)
  next
    case False
    have "chain_walk heads m visited cursor =
        (if cursor \<in> set visited then Inl (Error (''Integration ancestry cycle at '' @ cursor)) else Inr [])"
      using False by (subst chain_walk.simps) auto
    moreover have "integration_walk heads m visited cursor (first_occurrences ids) =
        (if cursor \<in> set visited then Inl (Error (''IntegrationMilestone ancestry cycle at '' @ cursor)) else Inr (first_occurrences ids))"
      using False by (subst integration_walk.simps) auto
    ultimately show ?thesis by simp
  qed
qed

text \<open>C36: the facade, which marks the sessions of the final state as verified, and the completion proof, which counts their
  integrations, walk the same history: one fails exactly when the other does, and otherwise the completion proof counts the
  runs of the facade's milestones, each once.\<close>

theorem finalIntegrationChain_agrees:
  "(case finalIntegrationChain rd sha of
      Inr rs \<Rightarrow> finalIntegrationRunIds (rd_integrations rd) sha = Inr (first_occurrences (map ml_integrationRunId rs))
    | Inl e \<Rightarrow> \<exists>e'. finalIntegrationRunIds (rd_integrations rd) sha = Inl e')"
proof (cases "merged_by_head (rd_integrations rd) (\<lambda>_. None)")
  case (Inr m)
  then show ?thesis
    using walks_agree [of "map ml_headSha (rd_integrations rd)" m "[]" sha "[]"]
    by (auto simp: finalIntegrationChain_def finalIntegrationRunIds_def first_occurrences_def split: sum.splits)
qed (simp add: finalIntegrationChain_def finalIntegrationRunIds_def)

section \<open>Operations on a part of the world\<close>

text \<open>What holds of the store, with the world outside and the supervisor left as they are.\<close>

definition aside :: "'m \<Rightarrow> string list \<Rightarrow> (group_world \<Rightarrow> bool) \<Rightarrow> 'm facade_world \<Rightarrow> bool" where
  "aside a act P c \<longleftrightarrow> fw_outside c = a \<and> fw_active c = act \<and> P (fw_store c)"

lemma triple_in_store: "triple P m Q E \<Longrightarrow> triple (aside a act P) (in_store m) (\<lambda>x. aside a act (Q x)) (aside a act E)"
  by (fastforce simp: triple_def in_store_def aside_def split: prod.splits sum.splits)

section \<open>Settling the sessions\<close>

text \<open>No session of \<open>D\<close> is live unless a supervised prompt owns it; the outcome of \<open>x\<close> is unknown, or will be when it is settled.\<close>

definition calm :: "string list \<Rightarrow> string \<Rightarrow> string set \<Rightarrow> group_world \<Rightarrow> bool" where
  "calm act g D w \<longleftrightarrow> well_filed w \<and> (\<forall>s \<in> D. \<forall>r. session_of w g s = Some r \<and> sr_status r \<in> LIVE \<longrightarrow> s \<in> set act)"

definition uncertain :: "string list \<Rightarrow> string \<Rightarrow> string \<Rightarrow> group_world \<Rightarrow> bool" where
  "uncertain act g s w \<longleftrightarrow> (\<exists>r. session_of w g s = Some r \<and> (sr_status r = DOutcomeUnknown \<or> sr_status r \<in> LIVE \<and> s \<notin> set act))"

definition settling :: "string list \<Rightarrow> string \<Rightarrow> string set \<Rightarrow> string set \<Rightarrow> group_world \<Rightarrow> bool" where
  "settling act g X D w \<longleftrightarrow> calm act g D w \<and> (\<forall>s \<in> X. uncertain act g s w)"

interpretation settling: session_condition "settling act g X D" for act g X D
  by unfold_locales (simp add: settling_def calm_def uncertain_def well_filed_def)

lemma move_effect:
  assumes w: "well_filed w" "session_of w g s = Some r" and patch: "modest patch" and w': "w' = snd (move_session r st patch w)"
  shows "session_of w' h x = session_of w h x \<or>
    session_of w h x = Some r \<and> (if sr_undefined (patch r) = [] then \<exists>r'. session_of w' h x = Some r' \<and> sr_status r' = st
      else \<forall>r'. session_of w' h x = Some r' \<longrightarrow> sr_status r' = st)"
proof (cases rule: move_session_cases [of r st patch w])
  case (moved dir k r')
  from patch obtain a b u where p: "patch r = r\<lparr>sr_headSha := a, sr_blocker := b, sr_undefined := u\<rparr>" unfolding modest_def by blast
  with w moved(2) have path: "session_file g s = Some (dir, k)" by (simp add: well_filed_def)
  show ?thesis
  proof (cases "session_file h x = Some (dir, k)")
    case True
    with path w(2) have "session_of w h x = Some r" by (simp add: session_of_iff)
    moreover have "session_of w' h x = reads_back (gx_platform w) r'" "sr_status r' = st"
      using True by (simp_all add: w' moved(4) session_of_put_session, simp add: moved(3))
    moreover have "sr_undefined r' = sr_undefined (patch r)" by (simp add: moved(3))
    ultimately show ?thesis by (auto dest: reads_back_Some)
  qed (simp add: w' moved(4) session_of_put_session)
qed (simp_all add: w')

lemma move_returned:
  assumes "well_filed w" "session_of w g s = Some r" "modest patch" "move_session r st patch w = (Inr r', w')" "sr_undefined (patch r) = []"
  shows "session_of w' g s = Some r' \<and> sr_status r' = st"
proof (cases rule: move_session_cases [of r st patch w])
  case (moved dir k r'')
  from assms(3) obtain a b u where p: "patch r = r\<lparr>sr_headSha := a, sr_blocker := b, sr_undefined := u\<rparr>" unfolding modest_def by blast
  with assms(1,2) moved(2) have path: "session_file g s = Some (dir, k)" by (simp add: well_filed_def)
  from moved(4) assms(4) have "r'' = r'" "w' = put_session dir k r'' (ticked w)" by simp_all
  moreover have "sr_status r'' = st" "sr_undefined r'' = []" using assms(5) by (simp_all add: moved(3))
  ultimately show ?thesis using path by (simp add: session_of_put_session)
qed (use assms(4) in simp_all)

lemma settling_move:
  assumes "settling act g X D w" "session_of w h y = Some r" "modest patch"
    and "st \<notin> LIVE" "sr_status r \<noteq> DOutcomeUnknown" "sr_status r \<in> LIVE \<Longrightarrow> st = DOutcomeUnknown \<and> sr_undefined (patch r) = []"
    and kind: "st \<in> UNREADABLE \<or> tidy patch"
  shows "settling act g X D (snd (move_session r st patch w))"
proof -
  let ?w = "snd (move_session r st patch w)"
  from assms(1) have filed: "well_filed w" by (simp add: settling_def calm_def)
  then have "well_filed ?w" using advance_move [OF _ assms(2,3) kind] by (simp add: store_advance_def)
  moreover have effect: "session_of ?w g x = session_of w g x \<or>
      session_of w g x = Some r \<and> (if sr_undefined (patch r) = [] then \<exists>r'. session_of ?w g x = Some r' \<and> sr_status r' = st
        else \<forall>r'. session_of ?w g x = Some r' \<longrightarrow> sr_status r' = st)" for x
    using move_effect [OF filed assms(2,3) refl] .
  have "x \<in> set act" if "x \<in> D" "session_of ?w g x = Some q" "sr_status q \<in> LIVE" for x q
    using effect [of x] that assms(1,4) by (auto simp: settling_def calm_def split: if_splits)
  moreover have "uncertain act g x ?w" if "x \<in> X" for x
  proof -
    from assms(1) that have "uncertain act g x w" by (simp add: settling_def)
    with effect [of x] assms(5,6) show ?thesis by (auto simp: uncertain_def split: if_splits)
  qed
  ultimately show ?thesis by (auto simp: settling_def calm_def)
qed

lemma with_blocker_undefined: "sr_undefined (with_blocker b r) = []"
  by (simp add: with_blocker_def)

lemma settling_interrupted:
  "triple (settling act g X D) (reconcileInterruptedExecutorRuntime g s (s \<in> set act)) (\<lambda>_. settling act g X (insert s D)) (settling act g X D)"
proof -
  have "case reconcileInterruptedExecutorRuntime g s (s \<in> set act) w of (Inl e, w') \<Rightarrow> settling act g X D w'
    | (Inr r, w') \<Rightarrow> settling act g X (insert s D) w'" if w: "settling act g X D w" for w
  proof (cases "session_of w g s")
    case None
    then obtain e where "loadSession g s w = (Inl e, w)" using loadSession_run [of g s w] by (auto simp: session_of_def split: sum.splits)
    with w show ?thesis by (simp add: reconcileInterruptedExecutorRuntime_def bnd_run)
  next
    case (Some r)
    then have load: "loadSession g s w = (Inr r, w)" by (simp add: session_of_Some_iff)
    show ?thesis
    proof (cases "s \<in> set act \<or> sr_status r \<notin> LIVE")
      case True
      with w Some show ?thesis
        by (auto simp: reconcileInterruptedExecutorRuntime_def bnd_run load ret_def settling_def calm_def LIVE_def)
    next
      case False
      let ?m = "move_session r DOutcomeUnknown (with_blocker ''runtime_restart_without_authoritative_executor_outcome'') w"
      have kept: "settling act g X D (snd ?m)"
        using False by (intro settling_move [OF w Some modest_patches(2)]) (auto simp: LIVE_def with_blocker_def tidy_patches)
      have run: "reconcileInterruptedExecutorRuntime g s (s \<in> set act) w = ?m"
        using False by (auto simp: reconcileInterruptedExecutorRuntime_def bnd_run load LIVE_def)
      show ?thesis unfolding run
      proof (cases ?m)
        case (Pair x w')
        have "well_filed w" using w by (simp add: settling_def calm_def)
        from move_returned [OF this Some modest_patches(2)] Pair kept with_blocker_undefined show "case ?m of (Inl e, w') \<Rightarrow> settling act g X D w' | (Inr r, w') \<Rightarrow> settling act g X (insert s D) w'"
          by (cases x) (auto simp: settling_def calm_def LIVE_def)
      qed
    qed
  qed
  then show ?thesis by (auto simp: triple_def split: prod.splits sum.splits)
qed

lemma settling_accepted: "triple (settling act g X D) (reconcileAcceptedDelivery s) (\<lambda>_. settling act g X D) (settling act g X D)"
proof -
  have "settling act g X D (snd (reconcileAcceptedDelivery s w))" if w: "settling act g X D w" for w
  proof (cases "session_of w (se_groupId s) (se_sessionId s)")
    case None
    then obtain e where "loadSession (se_groupId s) (se_sessionId s) w = (Inl e, w)"
      using loadSession_run [of "se_groupId s" "se_sessionId s" w] by (auto simp: session_of_def split: sum.splits)
    with w show ?thesis by (simp add: reconcileAcceptedDelivery_def bnd_run)
  next
    case (Some r)
    then have load: "loadSession (se_groupId s) (se_sessionId s) w = (Inr r, w)" by (simp add: session_of_Some_iff)
    obtain p where prior: "existingDelivery (se_groupId s) (se_sessionId s) w = (p, w)"
      using existingDelivery_reads by (metis prod.collapse)
    have "settling act g X D (snd (move_session r DDelivered (with_head h) w))" if "sr_status r = DDelivering" for h
      using that by (intro settling_move [OF w Some modest_patches(3)]) (auto simp: LIVE_def UNREADABLE_def)
    with w show ?thesis
      by (cases p) (auto simp: reconcileAcceptedDelivery_def bnd_run load prior ret_def split: option.split)
  qed
  then show ?thesis by (auto simp: triple_def split: prod.splits sum.splits) (metis snd_conv)+
qed

lemma settling_session:
  "triple (aside a act (settling act g X D)) (settle_session g s) (\<lambda>_. aside a act (settling act g X (insert (se_sessionId s) D)))
    (aside a act (settling act g X D))"
proof -
  have weaken: "aside a act (settling act g X (insert x D)) c \<Longrightarrow> aside a act (settling act g X D) c" for x c
    by (auto simp: aside_def settling_def calm_def)
  note interrupted = triple_in_store [OF settling_interrupted, of a act act g X D "se_sessionId s"]
  note accepted = triple_conseq [OF triple_in_store [OF settling_accepted] _ _ weaken]
  have owned: "triple (aside a act (settling act g X D)) (gets (\<lambda>c. se_sessionId s \<in> set (fw_active c)))
      (\<lambda>b c. b = (se_sessionId s \<in> set act) \<and> aside a act (settling act g X D) c) (aside a act (settling act g X D))"
    by (rule triple_gets) (simp add: aside_def)
  show ?thesis unfolding settle_session_def
  proof (rule triple_bnd [OF owned])
    fix b
    show "triple (\<lambda>c. b = (se_sessionId s \<in> set act) \<and> aside a act (settling act g X D) c)
        (bnd (in_store (reconcileInterruptedExecutorRuntime g (se_sessionId s) b)) (\<lambda>_. bnd (in_store (reconcileAcceptedDelivery s)) (\<lambda>_. ret ())))
        (\<lambda>_. aside a act (settling act g X (insert (se_sessionId s) D))) (aside a act (settling act g X D))"
    proof (cases "b = (se_sessionId s \<in> set act)")
      case True
      show ?thesis unfolding True
        by (rule triple_pre [OF triple_bnd [OF interrupted triple_bnd [OF accepted triple_ret]]]) simp_all
    qed (simp add: triple_def)
  qed
qed

lemma settling_all:
  "triple (aside a act (settling act g X {})) (settle_all g ss) (\<lambda>_. aside a act (settling act g X (se_sessionId ` set ss)))
    (aside a act (settling act g X {}))"
proof -
  let ?J = "\<lambda>D (acc :: error option). aside a act (settling act g X (if acc = None then D else {}))"
  have weaken: "aside a act (settling act g X D) c \<Longrightarrow> aside a act (settling act g X {}) c" for D c
    by (auto simp: aside_def settling_def calm_def)
  have next': "triple (?J D acc) (settle_next g s acc) (?J (insert (se_sessionId s) D)) (aside a act (settling act g X {}))" for s acc D
    unfolding settle_next_def
    by (rule triple_catch [OF triple_bnd [OF settling_session triple_ret] triple_ret])
      (auto split: if_splits option.splits intro: weaken)
  have "triple (?J {} None) (for_each ss (settle_next g) None) (?J (se_sessionId ` set ss \<union> {})) (aside a act (settling act g X {}))"
    using triple_for_each_done [where I = ?J and k = se_sessionId and D = "{}" and acc = None and body = "settle_next g" and xs = ss, OF next'] .
  then have each: "triple (aside a act (settling act g X {})) (for_each ss (settle_next g) None) (?J (se_sessionId ` set ss))
      (aside a act (settling act g X {}))" by (simp only: Un_empty_right simp_thms if_True)
  have ends: "triple (?J D failed) (case failed of None \<Rightarrow> ret () | Some e \<Rightarrow> throw e) (\<lambda>_. aside a act (settling act g X D))
      (aside a act (settling act g X {}))" for D failed
    by (cases failed) (auto intro: triple_ret triple_throw)
  show ?thesis unfolding settle_all_def by (rule triple_bnd [OF each ends])
qed

section \<open>Reading a group\<close>

text \<open>Reading keeps whatever holds.\<close>

lemma keep_reads:
  "triple P (groupDir g) (\<lambda>_. P) P" "triple P (read_text cks d name sel) (\<lambda>_. P) P" "triple P (loadSession g s) (\<lambda>_. P) P"
  "triple P (loadState g) (\<lambda>_. P) P" "triple P (loadPlan g) (\<lambda>_. P) P"
  by (auto simp: triple_def groupDir_def read_text_def loadSession_def loadState_def loadPlan_def bnd_run eff_defs guard_res_def
      split: sum.splits option.splits)

lemma keep_list: "triple P (listJsonRecords cks dir folder start files) (\<lambda>_. P) P"
  unfolding listJsonRecords_def
  by (rule triple_bnd [OF keep_gets] triple_for_each [where I = "\<lambda>_. P"] triple_bnd [OF keep_reads(2)] keep_ret)+

text \<open>The sessions read are those of the store.\<close>

definition read_from :: "string \<Rightarrow> group_world \<Rightarrow> string set \<Rightarrow> session_runtime list \<Rightarrow> group_world \<Rightarrow> bool" where
  "read_from g w D rs w' \<longleftrightarrow> w' = w \<and> (\<forall>s \<in> D. \<exists>r \<in> set rs. session_of w g s = Some r)"

lemma load_sessions_reads:
  "triple (\<lambda>v. v = w) (load_sessions g ss) (read_from g w (se_sessionId ` set ss)) (\<lambda>v. v = w)"
proof -
  have "triple (read_from g w D acc) (bnd (loadSession g (se_sessionId s)) (\<lambda>r. ret (acc @ [r]))) (read_from g w (insert (se_sessionId s) D)) (\<lambda>v. v = w)"
    for s acc D
    by (auto simp: triple_def read_from_def bnd_run ret_def session_of_Some_iff split: prod.splits sum.splits)
       (metis loadSession_reads snd_conv session_of_Some_iff)+
  then have "triple (read_from g w {} []) (load_sessions g ss) (read_from g w (se_sessionId ` set ss \<union> {})) (\<lambda>v. v = w)"
    unfolding load_sessions_def by (intro triple_for_each_done)
  then show ?thesis by (rule triple_conseq) (simp_all add: read_from_def)
qed

text \<open>The records of a group: what is uncertain in the store is unknown there, once the sessions are settled.\<close>

definition shows_unknown :: "string set \<Rightarrow> group_records \<Rightarrow> bool" where
  "shows_unknown X rd \<longleftrightarrow> (X \<noteq> {} \<longrightarrow> unknown_count rd > 0)"

lemma shows_unknownI: "r \<in> set (rd_runtimes rd) \<Longrightarrow> sr_status r = DOutcomeUnknown \<Longrightarrow> shows_unknown X rd"
  by (auto simp: shows_unknown_def unknown_count_def filter_empty_conv)

lemma settling_unknown:
  "settling act g X D w \<Longrightarrow> s \<in> X \<Longrightarrow> s \<in> D \<Longrightarrow> session_of w g s = Some r \<Longrightarrow> sr_status r = DOutcomeUnknown"
  by (auto simp: settling_def calm_def uncertain_def)

lemma settling_records:
  assumes order: "\<And>rs. set (ro_runtimes o' rs) = set rs" and own: "gd_groupId (pp_definition plan) = g"
    and D: "D = se_sessionId ` set (pp_sessions plan)" "X \<subseteq> D"
  shows "triple (settling act g X D) (loadDurableGroupRecords o' plan) (\<lambda>rd w. shows_unknown X rd \<and> settling act g X D w) (settling act g X D)"
proof (rule triple_fixed)
  fix w
  assume w: "settling act g X D w"
  have finish: "triple (read_from g w D rts) (ret \<lparr>rd_runtimes = ro_runtimes o' rts, rd_deliveries = ds, rd_integrations = ms,
       rd_verifications = vs, rd_failures = fs, rd_repairs = rs\<rparr>) (\<lambda>rd v. shows_unknown X rd \<and> settling act g X D v) (settling act g X D)"
    for rts ds ms vs fs rs
  proof (rule triple_ret)
    fix v
    assume read: "read_from g w D rts v"
    have "shows_unknown X \<lparr>rd_runtimes = ro_runtimes o' rts, rd_deliveries = ds, rd_integrations = ms, rd_verifications = vs,
        rd_failures = fs, rd_repairs = rs\<rparr>"
    proof (cases "X = {}")
      case False
      then obtain s where s: "s \<in> X" "s \<in> D" using D(2) by blast
      with read obtain r where "r \<in> set rts" "session_of w g s = Some r" by (auto simp: read_from_def)
      with settling_unknown [OF w s] order show ?thesis by (intro shows_unknownI [of r]) simp_all
    qed (simp add: shows_unknown_def)
    with w read show "shows_unknown X \<lparr>rd_runtimes = ro_runtimes o' rts, rd_deliveries = ds, rd_integrations = ms, rd_verifications = vs,
        rd_failures = fs, rd_repairs = rs\<rparr> \<and> settling act g X D v" by (simp add: read_from_def)
  qed
  have weak: "settling act g X D v" if "read_from g w D rts v" for rts v using w that by (simp add: read_from_def)
  have listing: "triple (read_from g w D rts) (listJsonRecords cks dir folder start files) (\<lambda>_. read_from g w D rts) (settling act g X D)"
    for rts cks dir folder start and files :: "group_files \<Rightarrow> (string \<times> 'b durable_text) list"
    by (rule triple_conseq [OF keep_list [where P = "read_from g w D rts"]]) (auto intro: weak)
  have sessions: "triple (\<lambda>v. v = w) (load_sessions g (pp_sessions plan)) (read_from g w D) (settling act g X D)"
    by (rule triple_conseq [OF load_sessions_reads]) (use w D in auto)
  have dir: "triple (\<lambda>v. v = w) (groupDir g) (\<lambda>_ v. v = w) (settling act g X D)"
    by (rule triple_conseq [OF keep_reads(1) [where P = "\<lambda>v. v = w"]]) (use w in auto)
  show "triple (\<lambda>v. v = w) (loadDurableGroupRecords o' plan) (\<lambda>rd v. shows_unknown X rd \<and> settling act g X D v) (settling act g X D)"
    unfolding loadDurableGroupRecords_def Let_def own
    by (rule triple_bnd [OF dir] triple_bnd [OF sessions] triple_bnd [OF listing] finish)+
qed

section \<open>A snapshot\<close>

lemma loadPlan_own: "loadPlan g w = (Inr plan, w') \<Longrightarrow> w' = w \<and> gd_groupId (pp_definition plan) = g"
  by (auto simp: loadPlan_def groupDir_def read_text_def bnd_run eff_defs guard_res_def split: sum.splits option.splits if_splits)

lemma loadPlan_run: "loadPlan g w = (fst (loadPlan g w), w)"
  using loadPlan_reads [of g w] by (metis prod.collapse)

lemma normalized_count: "gs_outcomeUnknownCount (normalizeRuntimeState st rd) = unknown_count rd"
  by (simp add: normalizeRuntimeState_def Let_def)

lemma normalized_status:
  "gs_status (normalizeRuntimeState st rd) = GOutcomeUnknown \<longleftrightarrow>
     unknown_count rd > 0 \<and> gs_status (normalizeRuntimeState st rd) \<notin> {GCompleted, GCancelled, GFailed}"
proof -
  have "gs_status (normalizeRuntimeState st rd) = (if unknown_count rd > 0 \<and> gs_status st \<notin> {GCompleted, GCancelled, GFailed} then GOutcomeUnknown
      else if unknown_count rd = 0 \<and> gs_status st = GOutcomeUnknown then (if currentBlockers rd \<noteq> [] then GBlocked else GReady) else gs_status st)"
    by (simp add: normalizeRuntimeState_def Let_def)
  moreover have "unknown_count rd \<ge> 0" by (simp add: unknown_count_def)
  ultimately show ?thesis by (cases "gs_status st = GOutcomeUnknown") auto
qed

definition settled_snapshot :: "'m facade_options \<Rightarrow> string list \<Rightarrow> string \<Rightarrow> string set \<Rightarrow> planning_proposal \<Rightarrow> group_snapshot \<Rightarrow> group_world \<Rightarrow> bool" where
  "settled_snapshot o' act g X plan v w \<longleftrightarrow> gv_plan v = plan \<and> (\<exists>raw. gv_state v = normalizeRuntimeState raw (gv_records v)) \<and>
     shows_unknown X (gv_records v) \<and> settling act g X (se_sessionId ` set (pp_sessions plan)) w"

lemma snapshot_settles_plan:
  assumes order: "\<And>rs. set (ro_runtimes (fq_order o') rs) = set rs"
    and plan: "loadPlan g w = (Inr plan, w)" and X: "X \<subseteq> se_sessionId ` set (pp_sessions plan)" and w: "settling act g X {} w"
  shows "triple (aside a act (\<lambda>v. v = w)) (snapshot_group o' g) (\<lambda>v. aside a act (settled_snapshot o' act g X plan v)) (aside a act (\<lambda>_. True))"
proof -
  let ?D = "se_sessionId ` set (pp_sessions plan)" and ?E = "aside a act (\<lambda>_. True)"
  have weak: "aside a act P c \<Longrightarrow> ?E c" for P c by (simp add: aside_def)
  have own: "gd_groupId (pp_definition plan) = g" using loadPlan_own [OF plan] by simp
  note step = triple_conseq [OF triple_in_store _ _ weak]
  have load: "triple (aside a act (\<lambda>v. v = w)) (in_store (loadPlan g)) (\<lambda>p c. p = plan \<and> aside a act (settling act g X {}) c) ?E"
    using plan w by (auto simp: triple_def in_store_def aside_def)
  have resume: "triple (aside a act (settling act g X {})) (in_store (resumeGroup_controller g)) (\<lambda>_. aside a act (settling act g X {})) ?E"
    by (rule step [OF settling.resuming])
  have settle: "triple (aside a act (settling act g X {})) (settle_all g (pp_sessions plan)) (\<lambda>_. aside a act (settling act g X ?D)) ?E"
    by (rule triple_conseq [OF settling_all _ _ weak])
  have state: "triple (aside a act (settling act g X ?D)) (in_store (loadState g)) (\<lambda>_. aside a act (settling act g X ?D)) ?E"
    by (rule step [OF keep_reads(4)])
  have records: "triple (aside a act (settling act g X ?D)) (in_store (loadDurableGroupRecords (fq_order o') plan))
      (\<lambda>rd c. shows_unknown X rd \<and> aside a act (settling act g X ?D) c) ?E"
    by (rule step [OF settling_records [OF order own refl X, where act = act]]) (auto simp: aside_def)
  have finish: "triple (\<lambda>c. shows_unknown X rd \<and> aside a act (settling act g X ?D) c)
      (bnd (if normalizeRuntimeState raw rd \<noteq> raw then in_store (writeState (normalizeRuntimeState raw rd)) else ret ())
        (\<lambda>_. ret \<lparr>gv_plan = plan, gv_state = normalizeRuntimeState raw rd, gv_records = rd\<rparr>))
      (\<lambda>v. aside a act (settled_snapshot o' act g X plan v)) ?E" for raw rd
  proof (cases "shows_unknown X rd")
    case True
    have "triple (aside a act (settling act g X ?D)) (if normalizeRuntimeState raw rd \<noteq> raw then in_store (writeState (normalizeRuntimeState raw rd)) else ret ())
        (\<lambda>_. aside a act (settling act g X ?D)) ?E"
      by (rule triple_if [OF step [OF settling.states(2)] triple_ret]) simp_all
    moreover have "triple (aside a act (settling act g X ?D)) (ret \<lparr>gv_plan = plan, gv_state = normalizeRuntimeState raw rd, gv_records = rd\<rparr>)
        (\<lambda>v. aside a act (settled_snapshot o' act g X plan v)) ?E"
      using True by (intro triple_ret) (auto simp: aside_def settled_snapshot_def)
    ultimately show ?thesis using True by (simp only: simp_thms) (rule triple_bnd)
  qed (simp add: triple_def)
  show ?thesis unfolding snapshot_group_def Let_def
    by (rule triple_bnd_value [OF load] triple_bnd [OF resume] triple_bnd [OF settle] triple_bnd [OF state] triple_bnd [OF records] finish)+
qed

lemma settling_begin: "well_filed w \<Longrightarrow> (\<And>s. s \<in> X \<Longrightarrow> uncertain act g s w) \<Longrightarrow> settling act g X {} w"
  by (simp add: settling_def calm_def)

lemma snapshot_plan: "snapshot_group o' g c = (Inr v, c') \<Longrightarrow> loadPlan g (fw_store c) = (Inr (gv_plan v), fw_store c)"
  using loadPlan_run [of g "fw_store c"]
  by (auto simp: snapshot_group_def in_store_def ret_def Let_def elim!: bnd_Inr_E split: prod.splits)

text \<open>C18: a snapshot settles the group. It touches nothing outside the store and no supervised prompt; afterwards no session of
  the plan is starting, running or waiting for input unless a supervised prompt owns it, in the store too; and the state of
  the group counts the unknown outcomes among the sessions, and says so unless the group has ended.\<close>

theorem snapshot_settles_sessions:
  assumes "\<And>rs. set (ro_runtimes (fq_order o') rs) = set rs" "well_filed (fw_store c)" "snapshot_group o' g c = (Inr v, c')"
  shows "fw_outside c' = fw_outside c \<and> fw_active c' = fw_active c \<and>
    (\<forall>s \<in> set (pp_sessions (gv_plan v)). \<forall>r. session_of (fw_store c') g (se_sessionId s) = Some r \<longrightarrow>
       sr_status r \<in> {DStarting, DRunning, DWaitingInput} \<longrightarrow> se_sessionId s \<in> set (fw_active c)) \<and>
    gs_outcomeUnknownCount (gv_state v) = unknown_count (gv_records v) \<and>
    (gs_status (gv_state v) = GOutcomeUnknown \<longleftrightarrow> unknown_count (gv_records v) > 0 \<and> gs_status (gv_state v) \<notin> {GCompleted, GCancelled, GFailed})"
proof -
  have w: "settling (fw_active c) g {} {} (fw_store c)" using assms(2) by (simp add: settling_def calm_def)
  note triple = snapshot_settles_plan [OF assms(1) snapshot_plan [OF assms(3)] empty_subsetI w]
  have "aside (fw_outside c) (fw_active c) (\<lambda>v. v = fw_store c) c" by (simp add: aside_def)
  from tripleD_ok [OF triple this assms(3)]
  have "aside (fw_outside c) (fw_active c) (settled_snapshot o' (fw_active c) g {} (gv_plan v) v) c'" .
  then have out: "fw_outside c' = fw_outside c" "fw_active c' = fw_active c"
    and calm: "calm (fw_active c) g (se_sessionId ` set (pp_sessions (gv_plan v))) (fw_store c')"
    and state: "\<exists>raw. gv_state v = normalizeRuntimeState raw (gv_records v)"
    by (auto simp: aside_def settled_snapshot_def settling_def)
  from state have "gs_outcomeUnknownCount (gv_state v) = unknown_count (gv_records v)"
    "gs_status (gv_state v) = GOutcomeUnknown \<longleftrightarrow> unknown_count (gv_records v) > 0 \<and> gs_status (gv_state v) \<notin> {GCompleted, GCancelled, GFailed}"
    using normalized_count normalized_status by metis+
  with out calm show ?thesis by (auto simp: calm_def LIVE_def)
qed

section \<open>An unknown outcome stops the group\<close>

text \<open>Throwing, with nothing done outside the store.\<close>

definition refused :: "('m, 'a) facade_eff \<Rightarrow> 'm facade_world \<Rightarrow> bool" where
  "refused m c \<longleftrightarrow> (\<exists>e c'. m c = (Inl e, c') \<and> fw_outside c' = fw_outside c \<and> fw_active c' = fw_active c)"

lemma after_snapshot_refused:
  assumes "triple (\<lambda>d. d = c) (snapshot_group o' g) (\<lambda>v d. fw_outside d = fw_outside c \<and> fw_active d = fw_active c \<and> gs_outcomeUnknownCount (gv_state v) > 0)
    (\<lambda>d. fw_outside d = fw_outside c \<and> fw_active d = fw_active c)"
  shows "refused (bnd (snapshot_group o' g) (\<lambda>v. bnd (no_unknown v what) (f v))) c"
proof (cases "snapshot_group o' g c")
  case (Pair r d)
  with assms show ?thesis
    by (cases r) (auto simp: triple_def refused_def bnd_run no_unknown_def eff_defs)
qed

lemma unknown_snapshot:
  assumes "\<And>rs. set (ro_runtimes (fq_order o') rs) = set rs" "well_filed (fw_store c)"
    and "loadPlan g (fw_store c) = (Inr plan, fw_store c)" "s \<in> set (pp_sessions plan)" "uncertain (fw_active c) g (se_sessionId s) (fw_store c)"
  shows "triple (\<lambda>d. d = c) (snapshot_group o' g) (\<lambda>v d. fw_outside d = fw_outside c \<and> fw_active d = fw_active c \<and> gs_outcomeUnknownCount (gv_state v) > 0)
    (\<lambda>d. fw_outside d = fw_outside c \<and> fw_active d = fw_active c)"
proof -
  have w: "settling (fw_active c) g {se_sessionId s} {} (fw_store c)" using assms(2,5) by (intro settling_begin) auto
  have "{se_sessionId s} \<subseteq> se_sessionId ` set (pp_sessions plan)" using assms(4) by blast
  note triple = snapshot_settles_plan [OF assms(1,3) this w, where a = "fw_outside c"]
  show ?thesis
    by (rule triple_conseq [OF triple]) (auto simp: aside_def settled_snapshot_def shows_unknown_def normalized_count)
qed

text \<open>C8: one session with an unknown outcome, or one that was interrupted and that no supervised prompt owns, stops its whole
  group: no wave is started, no session retried, no delivery integrated and no verification run. Each of them throws, and
  nothing happens outside the store before it does: no executor is started, nothing is merged, no command is run.\<close>

theorem unknown_outcome_stops_group:
  assumes "\<And>rs. set (ro_runtimes (fq_order o') rs) = set rs" "well_filed (fw_store c)"
    and "loadPlan g (fw_store c) = (Inr plan, fw_store c)" "s \<in> set (pp_sessions plan)"
    and "session_of (fw_store c) g (se_sessionId s) = Some r"
    and "sr_status r = DOutcomeUnknown \<or> sr_status r \<in> {DStarting, DRunning, DWaitingInput} \<and> se_sessionId s \<notin> set (fw_active c)"
  shows "refused (startWave o' g wave request) c \<and> refused (retryDevelopmentSession o' g sid request) c \<and>
    refused (integrateDelivery o' g sid) c \<and> refused (runVerification o' sp g runId) c"
proof -
  have "uncertain (fw_active c) g (se_sessionId s) (fw_store c)" using assms(5,6) by (auto simp: uncertain_def LIVE_def)
  note refuses = after_snapshot_refused [OF unknown_snapshot [OF assms(1-4) this]]
  show ?thesis
    unfolding startWave_def retryDevelopmentSession_def integrateDelivery_def runVerification_def by (intro conjI refuses)
qed

subsection \<open>A group that was interrupted\<close>

text \<open>One session, running in the store, and no supervisor that knows of it.\<close>

definition demo_facade :: "nat facade_options" where
  "demo_facade = \<lparr>fq_path = \<lparr>pm_resolve = concat, pm_isAbsolute = (\<lambda>_. True)\<rparr>,
     fq_order = \<lparr>ro_runtimes = rev, ro_deliveries = rev, ro_integrations = rev, ro_verifications = rev, ro_failures = rev, ro_repairs = rev\<rparr>,
     fq_manager = manager_ports.truncate demo_session_ports,
     fq_git = \<lparr>ip_currentBranch = ret ''integration'', ip_currentHead = ret (demo_sha CHR ''a''), ip_branchHead = (\<lambda>_. ret (demo_sha CHR ''b'')),
       ip_statusClean = ret True, ip_merge = (\<lambda>_. throw (Error ''merge'')), ip_resetTo = (\<lambda>_. ret ())\<rparr>,
     fq_verify = (\<lambda>_ _. ret demo_verdict), fq_materialize = (\<lambda>_ _ _. ret demo_change), fq_commands = (\<lambda>_. ret []),
     fq_executor = (\<lambda>c n. (Inr (0, [vc_id c]), Suc n)), fq_host = OnLinux, fq_postMergeCheck = None, fq_sha256 = id\<rparr>"

definition demo_proposed :: planning_proposal where
  "demo_proposed = \<lparr>pp_definition = rz_group demo_runner_spec, pp_requirements = [], pp_sessions = [demo_session_definition ''s1'' ''w1'' []],
     pp_waves = [demo_wave ''w1'' 1 []], pp_redZonePaths = [], pp_notes = [], pp_source = FromController\<rparr>"

definition demo_files_of_group :: group_files where
  "demo_files_of_group = empty_group\<lparr>gf_definition := save_file (gq_definitionSum demo_group_platform) id (rz_group demo_runner_spec) absent_file,
     gf_state := save_file (gq_stateSum demo_group_platform) state_stored (initialState ''g'' ''t'') absent_file,
     gf_requirements := save_file (gq_requirementsSum demo_group_platform) (map requirement_stored) [] absent_file,
     gf_plan := Some (durable_envelope (gq_planSum demo_group_platform) \<lparr>gl_schema = ZERO3_GROUP_PLAN_RECORD, gl_proposal = demo_proposed\<rparr>)\<rparr>"

definition demo_interrupted :: group_world where
  "demo_interrupted = put_session ''g'' ''s1'' (demo_session_runtime ''s1'' DRunning)
     \<lparr>gx_platform = demo_group_platform, gx_groups = [(''g'', demo_files_of_group)], gx_ticks = 0\<rparr>"

definition demo_restarted :: "nat facade_world" where
  "demo_restarted = \<lparr>fw_outside = 0, fw_store = demo_interrupted, fw_active = []\<rparr>"

lemma demo_safe: "assertSafeId ''g'' ''groupId'' = Inr ''g''" "assertSafeId ''s1'' ''sessionId'' = Inr ''s1''"
  by code_simp+

lemma demo_interrupted_at:
  "group_at demo_interrupted ''g'' = demo_files_of_group\<lparr>gf_sessions := [(''s1'', durable_envelope (gq_sessionSum demo_group_platform) (demo_session_runtime ''s1'' DRunning))]\<rparr>"
  "gx_platform demo_interrupted = demo_group_platform" "map_of (gx_groups demo_interrupted) ''g'' \<noteq> None"
  by (simp_all add: demo_interrupted_def put_session_def group_at_put put_record_def demo_files_of_group_def empty_group_def group_at_def
      written_same)

lemma demo_interrupted_session:
  "session_of demo_interrupted g s = (if session_file g s = Some (''g'', ''s1'') then Some (demo_session_runtime ''s1'' DRunning) else None)"
  by (auto simp: demo_interrupted_def session_of_put_session session_of_iff group_at_def demo_files_of_group_def empty_group_def
      split: if_splits simp flip: not_Some_eq)

lemma demo_interrupted_filed: "well_filed demo_interrupted"
  using demo_files(1) by (auto simp: well_filed_def demo_interrupted_session demo_session_runtime_def split: if_splits)

lemma demo_group: "gd_groupId (rz_group demo_runner_spec) = ''g''" "pp_definition demo_proposed = rz_group demo_runner_spec"
  "pp_sessions demo_proposed = [demo_session_definition ''s1'' ''w1'' []]"
  by (simp_all add: demo_runner_spec_def demo_proposed_def)

lemma demo_interrupted_plan: "loadPlan ''g'' demo_interrupted = (Inr demo_proposed, demo_interrupted)"
  using demo_safe demo_interrupted_at
  by (simp add: loadPlan_def groupDir_run bnd_run ret_def read_text_run demo_files_of_group_def require_that_def lift_res_def demo_group)

lemma demo_restarted: "fw_store demo_restarted = demo_interrupted" "fw_active demo_restarted = []"
  "demo_restarted\<lparr>fw_store := demo_interrupted\<rparr> = demo_restarted"
  by (simp_all add: demo_restarted_def)

lemma demo_order: "set (ro_runtimes (fq_order demo_facade) rs) = set rs"
  by (simp add: demo_facade_def)

lemma unknown_outcome_stops_group_witness:
  "refused (startWave demo_facade ''g'' ''w1'' ''wave-1'') demo_restarted \<and>
   refused (retryDevelopmentSession demo_facade ''g'' ''s1'' ''wave-1'') demo_restarted"
proof -
  let ?s = "demo_session_definition ''s1'' ''w1'' []"
  have "session_of (fw_store demo_restarted) ''g'' (se_sessionId ?s) = Some (demo_session_runtime ''s1'' DRunning)"
    by (simp add: demo_restarted demo_interrupted_session demo_files demo_session_definition_def)
  moreover have "?s \<in> set (pp_sessions demo_proposed)" by (simp add: demo_group)
  moreover have "sr_status (demo_session_runtime ''s1'' DRunning) = DRunning" by (simp add: demo_session_runtime_def)
  ultimately show ?thesis
    using unknown_outcome_stops_group [of demo_facade demo_restarted "''g''" demo_proposed ?s "demo_session_runtime ''s1'' DRunning" "''w1''" "''wave-1''" "''s1''"]
      demo_order demo_interrupted_plan demo_interrupted_filed by (simp add: demo_restarted)
qed

text \<open>The snapshot of that group.\<close>

definition demo_lost :: session_runtime where
  "demo_lost = (demo_session_runtime ''s1'' DRunning)\<lparr>sr_status := DOutcomeUnknown,
     sr_blocker := Some ''runtime_restart_without_authoritative_executor_outcome'', sr_updatedAt := ''0''\<rparr>"

definition demo_settled :: group_world where
  "demo_settled = put_session ''g'' ''s1'' demo_lost (ticked demo_interrupted)"

lemma demo_settled_at:
  "group_at demo_settled ''g'' = demo_files_of_group\<lparr>gf_sessions := [(''s1'', durable_envelope (gq_sessionSum demo_group_platform) demo_lost)]\<rparr>"
  "gx_platform demo_settled = demo_group_platform"
  by (simp_all add: demo_settled_def put_session_def group_at_put put_record_def demo_interrupted_at written_same demo_lost_def)

lemma demo_resumes: "resumeGroup_controller ''g'' demo_interrupted = (Inr (initialState ''g'' ''t''), demo_interrupted)"
proof -
  have "files_ok demo_group_platform ''g'' [] (initialState ''g'' ''t'') (group_at demo_interrupted ''g'')"
    unfolding files_ok_def
    by (intro conjI exI [of _ "rz_group demo_runner_spec"] exI [of _ "[]"])
      (simp_all add: demo_interrupted_at intact_def ledger_ok_def save_file_def absent_file_def demo_files_of_group_def demo_group_platform_def
        demo_group initialState_def empty_group_def written_same state_stored_def)
  then have "group_ok ''g'' [] (initialState ''g'' ''t'') demo_interrupted"
    using demo_interrupted_at(2,3) demo_safe(1) by (simp add: group_ok_def)
  from resume_run [OF this demo_safe(1)] show ?thesis by (simp add: initialState_def)
qed

lemma demo_interrupted_moves: "reconcileInterruptedExecutorRuntime ''g'' ''s1'' False demo_interrupted = (Inr demo_lost, demo_settled)"
proof -
  have "loadSession ''g'' ''s1'' demo_interrupted = (Inr (demo_session_runtime ''s1'' DRunning), demo_interrupted)"
    using demo_interrupted_session [of "''g''" "''s1''"] by (simp add: session_of_Some_iff demo_files)
  moreover have "gq_clock demo_group_platform (gx_ticks demo_interrupted) = ''0''"
    by (simp add: demo_interrupted_def demo_group_platform_def, code_simp)
  then have "move_session (demo_session_runtime ''s1'' DRunning) DOutcomeUnknown
      (with_blocker ''runtime_restart_without_authoritative_executor_outcome'') demo_interrupted = (Inr demo_lost, demo_settled)"
    unfolding demo_settled_def
    by (intro move_session_run)
      (simp_all add: demo_session_runtime_def isValidSessionTransition_def with_blocker_def demo_files demo_lost_def demo_interrupted_at)
  ultimately show ?thesis
    by (simp add: reconcileInterruptedExecutorRuntime_def bnd_run demo_session_runtime_def)
qed

lemma demo_settled_loads: "loadSession ''g'' ''s1'' demo_settled = (Inr demo_lost, demo_settled)"
  by (simp add: loadSession_Inr_iff demo_files demo_settled_at demo_group_platform_def)

lemma demo_settles: "settle_all ''g'' [demo_session_definition ''s1'' ''w1'' []] demo_restarted = (Inr (), demo_restarted\<lparr>fw_store := demo_settled\<rparr>)"
proof -
  have "reconcileAcceptedDelivery (demo_session_definition ''s1'' ''w1'' []) demo_settled = (Inr demo_lost, demo_settled)"
    by (simp add: reconcileAcceptedDelivery_def bnd_run demo_session_definition_def demo_settled_loads, simp add: demo_lost_def ret_def)
  with demo_interrupted_moves show ?thesis
    by (simp add: settle_all_def settle_next_def settle_session_def bnd_run catch_with_def in_store_def gets_def ret_def demo_restarted
        demo_session_definition_def)
qed

lemma demo_records: "\<exists>rd. loadDurableGroupRecords (fq_order demo_facade) demo_proposed demo_settled = (Inr rd, demo_settled) \<and> unknown_count rd = 1"
proof -
  have "load_sessions ''g'' (pp_sessions demo_proposed) demo_settled = (Inr [demo_lost], demo_settled)"
    by (simp add: load_sessions_def demo_group bnd_run demo_session_definition_def demo_settled_loads ret_def)
  moreover have none: "gf_deliveries demo_files_of_group = []" "gf_integrations demo_files_of_group = []" "gf_verifications demo_files_of_group = []"
    "gf_failures demo_files_of_group = []" "gf_repairs demo_files_of_group = []"
    by (simp_all add: demo_files_of_group_def empty_group_def)
  ultimately show ?thesis
    by (simp add: loadDurableGroupRecords_def Let_def demo_group groupDir_run [OF demo_safe(1)] bnd_run ret_def listJsonRecords_def gets_def
        demo_settled_at demo_facade_def unknown_count_def demo_lost_def)
qed

lemma demo_snapshot: "\<exists>v c'. snapshot_group demo_facade ''g'' demo_restarted = (Inr v, c') \<and> gv_plan v = demo_proposed \<and> unknown_count (gv_records v) = 1"
proof -
  obtain rd where rd: "loadDurableGroupRecords (fq_order demo_facade) demo_proposed demo_settled = (Inr rd, demo_settled)" "unknown_count rd = 1"
    using demo_records by blast
  let ?raw = "initialState ''g'' ''t''"
  have "loadState ''g'' demo_settled = (Inr ?raw, demo_settled)"
    by (simp add: loadState_def groupDir_run [OF demo_safe(1)] ret_def bnd_run read_text_run demo_settled_at demo_files_of_group_def save_file_def
        written_same state_stored_def initialState_def)
  moreover have "\<exists>w. (if normalizeRuntimeState ?raw rd \<noteq> ?raw then in_store (writeState (normalizeRuntimeState ?raw rd)) else ret ())
      (demo_restarted\<lparr>fw_store := demo_settled\<rparr>) = (Inr (), w)"
    using writeState_run [of "normalizeRuntimeState ?raw rd" "''g''" demo_settled] demo_safe(1)
    by (simp add: in_store_def ret_def normalizeRuntimeState_def initialState_def Let_def)
  ultimately show ?thesis
    using demo_settles rd
    by (auto simp: snapshot_group_def in_store_def bnd_run demo_restarted demo_interrupted_plan demo_resumes demo_group Let_def ret_def)
qed

lemma snapshot_settles_sessions_witness:
  "\<exists>v c'. snapshot_group demo_facade ''g'' demo_restarted = (Inr v, c') \<and> gs_outcomeUnknownCount (gv_state v) = 1 \<and>
     gs_status (gv_state v) \<in> {GOutcomeUnknown, GCompleted, GCancelled, GFailed} \<and>
     (\<forall>r. session_of (fw_store c') ''g'' ''s1'' = Some r \<longrightarrow> sr_status r \<noteq> DRunning)"
proof -
  obtain v c' where v: "snapshot_group demo_facade ''g'' demo_restarted = (Inr v, c')" "gv_plan v = demo_proposed" "unknown_count (gv_records v) = 1"
    using demo_snapshot by blast
  have s: "demo_session_definition ''s1'' ''w1'' [] \<in> set (pp_sessions (gv_plan v))" "se_sessionId (demo_session_definition ''s1'' ''w1'' []) = ''s1''"
    by (simp_all add: v demo_group demo_session_definition_def)
  note settled = snapshot_settles_sessions [OF demo_order _ v(1), unfolded demo_restarted, OF demo_interrupted_filed]
  have "sr_status r \<noteq> DRunning" if "session_of (fw_store c') ''g'' ''s1'' = Some r" for r
    using settled s that by fastforce
  with settled v(1,3) show ?thesis by auto
qed

section \<open>Completing a group\<close>

text \<open>A group is completed only on a proof that its snapshot earned; so everything an accepted proof shows holds of that snapshot.\<close>

lemma completionProof_of_snapshot:
  assumes "completionProof o' g c = (Inr res, c')"
  obtains v c1 now sha hashes where "snapshot_group o' g c = (Inr v, c1)" "buildCompletionProof now (completion_input_of g v sha hashes) = Inr res"
  using assms by (auto simp: completionProof_def lift_res_def elim!: bnd_Inr_E)

lemma completed_group_is_complete:
  assumes "completeGroup o' g c = (Inr p, c')"
  obtains v c1 sha hashes i where "snapshot_group o' g c = (Inr v, c1)" "i = completion_input_of g v sha hashes"
    "\<forall>r \<in> set (pp_requirements (gv_plan v)). rq_mandatory r \<longrightarrow> closed_requirement i r"
    "\<forall>s \<in> set (pp_sessions (gv_plan v)). \<exists>d. delivered i s d" "unknown_count (gv_records v) = 0"
proof -
  from assms obtain res where "\<exists>c1. completionProof o' g c = (Inr res, c1)" "assertGroupCompletable res = Inr p"
    by (auto simp: completeGroup_def lift_res_def in_store_def ret_def elim!: bnd_Inr_E split: prod.splits)
  then obtain v c1 now sha hashes where v: "snapshot_group o' g c = (Inr v, c1)"
    and built: "buildCompletionProof now (completion_input_of g v sha hashes) = Inr res" "assertGroupCompletable res = Inr p"
    using completionProof_of_snapshot by blast
  let ?i = "completion_input_of g v sha hashes"
  have fields: "ci_requirements ?i = pp_requirements (gv_plan v)" "ci_sessions ?i = pp_sessions (gv_plan v)" "ci_runtimes ?i = rd_runtimes (gv_records v)"
    by (simp_all add: completion_input_of_def Let_def)
  note shown = accepted_proof_shows [OF built, unfolded fields]
  then have "unknown_count (gv_records v) = 0" by (auto simp: unknown_count_def filter_empty_conv)
  with shown show ?thesis by (intro that [OF v refl]) auto
qed

end
