(* ===== verification/GroupMonitor.thy ===== *)
theory GroupMonitor
  imports GroupController
begin

text \<open>
  \<open>group-runtime/controller/monitor.ts\<close>: the signals that the observation of a group gives, and the action the controller
  proposes on them. How a date is read, \<open>localeCompare\<close> and the sort of an array are the platform's.
\<close>

datatype signal_kind =
    UnknownOutcomeSignal | BlockedSession | AttemptBudgetExhausted | StalledSession | ScopeDrift | WaitingHuman | LedgerReplayRequired

datatype severity = Informative | Warning | Blocking

fun signal_kind_text :: "signal_kind \<Rightarrow> string" where
  "signal_kind_text UnknownOutcomeSignal = ''outcome_unknown''"
| "signal_kind_text BlockedSession = ''blocked_session''"
| "signal_kind_text AttemptBudgetExhausted = ''attempt_budget_exhausted''"
| "signal_kind_text StalledSession = ''stalled_session''"
| "signal_kind_text ScopeDrift = ''scope_drift''"
| "signal_kind_text WaitingHuman = ''waiting_human''"
| "signal_kind_text LedgerReplayRequired = ''ledger_replay_required''"

record controller_signal =
  cs_kind :: signal_kind
  cs_severity :: severity
  cs_sessionId :: "string option"
  cs_detail :: string
  cs_evidence :: "string list"

record session_observation =
  ob_runtime :: session_runtime
  ob_changedPaths :: "string list option"
  ob_ownershipValid :: "bool option"
  ob_lastProgressAt :: "string option"

record monitor_platform =
  mo_parseDate :: "string \<Rightarrow> int option"
  mo_locale :: "string \<Rightarrow> string \<Rightarrow> int"
  mo_sort :: "(controller_signal \<Rightarrow> controller_signal \<Rightarrow> int) \<Rightarrow> controller_signal list \<Rightarrow> controller_signal list"

record group_observation =
  gm_definition :: group_definition
  gm_state :: group_state
  gm_sessions :: "session_definition list"
  gm_observations :: "session_observation list"
  gm_events :: "group_event list"
  gm_nowMs :: int
  gm_stalledAfterMs :: "int option"

definition elapsedMs :: "monitor_platform \<Rightarrow> int \<Rightarrow> string \<Rightarrow> int option" where
  "elapsedMs pf now t = (if t = [] then None else map_option (\<lambda>parsed. max 0 (now - parsed)) (mo_parseDate pf t))"

definition stalled_after :: "group_observation \<Rightarrow> int" where
  "stalled_after i = (case gm_stalledAfterMs i of None \<Rightarrow> 30 * 60 * 1000 | Some n \<Rightarrow> n)"

definition signal_if :: "bool \<Rightarrow> signal_kind \<Rightarrow> severity \<Rightarrow> string option \<Rightarrow> string \<Rightarrow> string list \<Rightarrow> controller_signal list" where
  "signal_if b k v s d es = (if b then [\<lparr>cs_kind = k, cs_severity = v, cs_sessionId = s, cs_detail = d, cs_evidence = es\<rparr>] else [])"

definition blocker_or :: "session_runtime \<Rightarrow> string \<Rightarrow> string" where
  "blocker_or r text = (case sr_blocker r of None \<Rightarrow> text | Some b \<Rightarrow> b)"

definition stalled_signal :: "monitor_platform \<Rightarrow> group_observation \<Rightarrow> session_observation \<Rightarrow> controller_signal list" where
  "stalled_signal pf i b = (let r = ob_runtime b in
     case elapsedMs pf (gm_nowMs i) (case ob_lastProgressAt b of None \<Rightarrow> sr_updatedAt r | Some t \<Rightarrow> t) of
       None \<Rightarrow> []
     | Some ms \<Rightarrow> signal_if (sr_status r = DRunning \<and> ms \<ge> stalled_after i) StalledSession Warning (Some (sr_sessionId r))
         (''no durable progress for '' @ int_text ms @ ''ms'') [''threshold_ms='' @ int_text (stalled_after i)])"

definition observe_session :: "monitor_platform \<Rightarrow> group_observation \<Rightarrow> session_observation \<Rightarrow> controller_signal list" where
  "observe_session pf i b = (let r = ob_runtime b; sid = Some (sr_sessionId r);
       budget = gp_maxSessionAttempts (gd_policy (gm_definition i)); attempt = ''attempt='' @ int_text (sr_attempt r) in
     case by_key se_sessionId (gm_sessions i) (sr_sessionId r) of
       None \<Rightarrow> signal_if True ScopeDrift Blocking sid ''runtime references a Session outside the frozen plan'' [sr_executionId r]
     | Some s \<Rightarrow>
         signal_if (sr_status r = DOutcomeUnknown) UnknownOutcomeSignal Blocking sid (blocker_or r ''execution outcome is unknown'') [attempt] @
         signal_if (sr_status r = DBlocked) BlockedSession Warning sid (blocker_or r ''session is blocked'') (se_dependencies s) @
         signal_if (sr_status r = DWaitingInput) WaitingHuman Blocking sid (blocker_or r ''session is waiting for human input'') [] @
         signal_if (sr_status r = DFailed \<and> sr_attempt r \<ge> budget) AttemptBudgetExhausted Blocking sid
           (''attempt budget '' @ int_text budget @ '' exhausted'') [attempt] @
         stalled_signal pf i b @
         signal_if (ob_ownershipValid b = Some False) ScopeDrift Blocking sid ''changed paths failed ownership validation''
           (case ob_changedPaths b of None \<Rightarrow> [] | Some ps \<Rightarrow> ps))"

definition compare_signals :: "(string \<Rightarrow> string \<Rightarrow> int) \<Rightarrow> controller_signal \<Rightarrow> controller_signal \<Rightarrow> int" where
  "compare_signals locale l r = (let sid = (\<lambda>s. case cs_sessionId s of None \<Rightarrow> [] | Some i \<Rightarrow> i); bySession = locale (sid l) (sid r) in
     if bySession \<noteq> 0 then bySession else locale (signal_kind_text (cs_kind l)) (signal_kind_text (cs_kind r)))"

definition observeDevelopmentGroup :: "monitor_platform \<Rightarrow> group_observation \<Rightarrow> controller_signal list" where
  "observeDevelopmentGroup pf i = (let n = int (length (gm_events i)); last = gs_lastEventSequence (gm_state i) in
     mo_sort pf (compare_signals (mo_locale pf)) (signal_if (n > last) LedgerReplayRequired Blocking None
         (''ledger has '' @ int_text n @ '' events while state is reduced through '' @ int_text last)
         [''event_count='' @ int_text n, ''state_sequence='' @ int_text last] @
       concat (map (observe_session pf i) (gm_observations i))))"

section \<open>The proposal\<close>

datatype controller_action = NoChange | RetrySessions | RepairScope | WaitHuman

record replan_proposal =
  ra_action :: controller_action
  ra_sessionIds :: "string list"
  ra_reasons :: "string list"

definition signal_sessions :: "controller_signal list \<Rightarrow> string list" where
  "signal_sessions ss = sorted_unique (filter (\<lambda>s. s \<noteq> []) (concat (map (\<lambda>s. case cs_sessionId s of None \<Rightarrow> [] | Some i \<Rightarrow> [i]) ss)))"

definition propose :: "controller_action \<Rightarrow> controller_signal list \<Rightarrow> replan_proposal" where
  "propose a ss = \<lparr>ra_action = a, ra_sessionIds = signal_sessions ss, ra_reasons = map cs_detail ss\<rparr>"

definition proposeControllerAction :: "controller_signal list \<Rightarrow> replan_proposal" where
  "proposeControllerAction ss = (let blockers = filter (\<lambda>s. cs_severity s = Blocking) ss;
       drifts = filter (\<lambda>s. cs_kind s = ScopeDrift) blockers;
       retries = filter (\<lambda>s. cs_kind s = BlockedSession \<or> cs_kind s = StalledSession) ss in
     if list_ex (\<lambda>s. cs_kind s \<in> set [UnknownOutcomeSignal, WaitingHuman, LedgerReplayRequired]) blockers then propose WaitHuman blockers
     else if drifts \<noteq> [] then propose RepairScope drifts
     else if retries \<noteq> [] then propose RetrySessions retries
     else \<lparr>ra_action = NoChange, ra_sessionIds = [], ra_reasons = []\<rparr>)"

section \<open>What is proposed\<close>

lemma in_signal_if [simp]:
  "s \<in> set (signal_if b k v i d es) \<longleftrightarrow> b \<and> s = \<lparr>cs_kind = k, cs_severity = v, cs_sessionId = i, cs_detail = d, cs_evidence = es\<rparr>"
  by (auto simp: signal_if_def)

text \<open>While a session has an unknown outcome or waits for an answer, the proposal is to wait for a human and names that session;
  so no retry is proposed next to an unknown outcome.\<close>

lemma uncertain_waits:
  assumes order: "\<And>c xs. set (mo_sort pf c xs) = set xs"
    and b: "b \<in> set (gm_observations i)" "sr_status (ob_runtime b) = DOutcomeUnknown \<or> sr_status (ob_runtime b) = DWaitingInput"
    and plan: "by_key se_sessionId (gm_sessions i) (sr_sessionId (ob_runtime b)) = Some s" and named: "sr_sessionId (ob_runtime b) \<noteq> []"
  shows "ra_action (proposeControllerAction (observeDevelopmentGroup pf i)) = WaitHuman"
    "sr_sessionId (ob_runtime b) \<in> set (ra_sessionIds (proposeControllerAction (observeDevelopmentGroup pf i)))"
proof -
  let ?ss = "observeDevelopmentGroup pf i"
  have "\<exists>x \<in> set (observe_session pf i b). cs_kind x \<in> {UnknownOutcomeSignal, WaitingHuman} \<and> cs_severity x = Blocking \<and>
      cs_sessionId x = Some (sr_sessionId (ob_runtime b))"
    using b(2) plan by (elim disjE) (auto simp: observe_session_def Let_def bex_Un)
  then obtain x where x: "x \<in> set ?ss" "cs_kind x \<in> {UnknownOutcomeSignal, WaitingHuman}" "cs_severity x = Blocking"
      "cs_sessionId x = Some (sr_sessionId (ob_runtime b))"
    using b(1) order by (auto simp: observeDevelopmentGroup_def Let_def)
  then have "list_ex (\<lambda>s. cs_kind s \<in> set [UnknownOutcomeSignal, WaitingHuman, LedgerReplayRequired]) (filter (\<lambda>s. cs_severity s = Blocking) ?ss)"
    by (auto simp: list_ex_iff)
  then have run: "proposeControllerAction ?ss = propose WaitHuman (filter (\<lambda>s. cs_severity s = Blocking) ?ss)"
    by (simp add: proposeControllerAction_def Let_def)
  show "ra_action (proposeControllerAction ?ss) = WaitHuman" unfolding run by (simp add: propose_def)
  show "sr_sessionId (ob_runtime b) \<in> set (ra_sessionIds (proposeControllerAction ?ss))"
    unfolding run using x named by (force simp: propose_def signal_sessions_def)
qed

end
