(* ===== verification/RemoteOutbox.thy ===== *)
theory RemoteOutbox
  imports DurableJson "HOL-Library.AList"
begin

text \<open>
  \<open>host-runtime/remote-outbox.ts\<close>: the durable outbox of a remote host, with the numbering of the events of an execution;
  \<open>remote-outbox-drain.ts\<close>, and the publishing of \<open>remote-node.ts\<close> that uses it.

  A file of the outbox is written in one step. The random identifiers, the clock, the hash that names a cursor file, the size
  of an envelope, \<open>localeCompare\<close> and the sort of the platform are parameters.
\<close>

section \<open>Envelopes\<close>

datatype terminal_state = TSucceeded | TFailed | TCancelled | TBlocked | TOutcomeUnknown | TQuarantined

datatype envelope_body = EventBody int string json | TerminalBody terminal_state json

record outbox_envelope =
  ov_deliveryId :: string
  ov_taskId :: string
  ov_executionId :: string
  ov_leaseId :: string
  ov_fencingToken :: int
  ov_createdAt :: string
  ov_body :: envelope_body

text \<open>What a file may hold. A field of another JavaScript type is ill typed: in the fields that all envelopes have, or, those being
  valid, in the ones of its kind.\<close>

datatype envelope_part = CommonFields | EventFields | TerminalFields

datatype envelope_text = NotJson | NotObject | IllTyped envelope_part | EnvelopeText int outbox_envelope

record outbox_lease =
  le_leaseId :: string
  le_fencingToken :: int
  le_taskId :: string
  le_executionId :: string

definition MAX_OUTBOX_ENTRIES :: int where "MAX_OUTBOX_ENTRIES = 2048"

definition MAX_ENVELOPE_BYTES :: int where "MAX_ENVELOPE_BYTES = 2 * 1024 * 1024"

definition uuid_shaped :: "string \<Rightarrow> bool" where
  "uuid_shaped s \<longleftrightarrow> length s = 36 \<and> list_all (\<lambda>c. c \<in> set ''0123456789abcdefABCDEF-'') s"

definition pending_name :: "string \<Rightarrow> bool" where
  "pending_name f \<longleftrightarrow> length f = 41 \<and> uuid_shaped (take 36 f) \<and>
     list_all2 (\<lambda>c d. c = d \<or> c = CHR 0x4A \<and> d = CHR ''j'' \<or> c = CHR 0x53 \<and> d = CHR ''s'' \<or> c = CHR 0x4F \<and> d = CHR ''o'' \<or> c = CHR 0x4E \<and> d = CHR ''n'')
       (drop 36 f) ''.json''"

definition envelope_fields_valid :: "string \<Rightarrow> int \<Rightarrow> outbox_envelope \<Rightarrow> bool" where
  "envelope_fields_valid file version e \<longleftrightarrow> version = 1 \<and> uuid_shaped (ov_deliveryId e) \<and> file = ov_deliveryId e @ ''.json'' \<and>
     ov_taskId e \<noteq> [] \<and> ov_executionId e \<noteq> [] \<and> ov_leaseId e \<noteq> [] \<and> safe_integer (ov_fencingToken e) \<and> 0 \<le> ov_fencingToken e"

fun envelope_body_valid :: "envelope_body \<Rightarrow> bool" where
  "envelope_body_valid (EventBody n t p) \<longleftrightarrow> safe_integer n \<and> 1 \<le> n \<and> t \<noteq> []"
| "envelope_body_valid (TerminalBody s r) \<longleftrightarrow> True"

fun parseEnvelope :: "envelope_text \<Rightarrow> string \<Rightarrow> outbox_envelope res" where
  "parseEnvelope NotJson file = Inl (Error (''invalid Zero3 Remote Host outbox JSON: '' @ file))"
| "parseEnvelope NotObject file = Inl (Error (''invalid Zero3 Remote Host outbox envelope: '' @ file))"
| "parseEnvelope (IllTyped CommonFields) file = Inl (Error (''invalid Zero3 Remote Host outbox envelope fields: '' @ file))"
| "parseEnvelope (IllTyped EventFields) file = Inl (Error (''invalid Zero3 Remote Host event envelope: '' @ file))"
| "parseEnvelope (IllTyped TerminalFields) file = Inl (Error (''invalid Zero3 Remote Host terminal envelope: '' @ file))"
| "parseEnvelope (EnvelopeText version e) file =
     (if \<not> envelope_fields_valid file version e then Inl (Error (''invalid Zero3 Remote Host outbox envelope fields: '' @ file))
      else if \<not> envelope_body_valid (ov_body e) then Inl (Error (''invalid Zero3 Remote Host event envelope: '' @ file))
      else Inr e)"

text \<open>The comparison the list is sorted with.\<close>

fun compare_bodies :: "envelope_body \<Rightarrow> envelope_body \<Rightarrow> int option" where
  "compare_bodies (EventBody m s p) (EventBody n t q) = Some (m - n)"
| "compare_bodies (EventBody m s p) (TerminalBody t q) = Some (- 1)"
| "compare_bodies (TerminalBody s p) (EventBody n t q) = Some 1"
| "compare_bodies (TerminalBody s p) (TerminalBody t q) = None"

definition compareEnvelopes :: "(string \<Rightarrow> string \<Rightarrow> int) \<Rightarrow> outbox_envelope \<Rightarrow> outbox_envelope \<Rightarrow> int" where
  "compareEnvelopes locale l r = (let byTime = locale (ov_createdAt l) (ov_createdAt r); byId = locale (ov_deliveryId l) (ov_deliveryId r) in
     if byTime \<noteq> 0 then byTime
     else if ov_taskId l = ov_taskId r \<and> ov_executionId l = ov_executionId r
     then (case compare_bodies (ov_body l) (ov_body r) of None \<Rightarrow> byId | Some n \<Rightarrow> n) else byId)"

section \<open>The outbox\<close>

record outbox_platform =
  oq_uuid :: "nat \<Rightarrow> string"
  oq_clock :: "nat \<Rightarrow> string"
  oq_key :: "string \<Rightarrow> string \<Rightarrow> string"
  oq_bytes :: "outbox_envelope \<Rightarrow> int"
  oq_locale :: "string \<Rightarrow> string \<Rightarrow> int"
  oq_sort :: "(outbox_envelope \<Rightarrow> outbox_envelope \<Rightarrow> int) \<Rightarrow> outbox_envelope list \<Rightarrow> outbox_envelope list"

datatype cursor_text = CursorNotJson string | CursorIllTyped | CursorText int string string int

record outbox_world =
  ox_platform :: outbox_platform
  ox_pending :: "(string \<times> envelope_text) list"
  ox_cursors :: "(string \<times> cursor_text) list"
  ox_quarantine :: "(string \<times> envelope_text) list"
  ox_reasons :: "(string \<times> string \<times> string) list"
  ox_ticks :: nat

type_synonym 'a outbox_eff = "(outbox_world, 'a) eff"

definition pendingFiles :: "string list outbox_eff" where
  "pendingFiles = gets (\<lambda>w. filter pending_name (map fst (ox_pending w)))"

definition outbox_count :: "int outbox_eff" where
  "outbox_count = bnd pendingFiles (\<lambda>fs. ret (int (length fs)))"

definition read_envelope :: "string \<Rightarrow> outbox_envelope outbox_eff" where
  "read_envelope f = bnd (gets (\<lambda>w. map_of (ox_pending w) f)) (\<lambda>t. case t of None \<Rightarrow> throw NoEntry | Some x \<Rightarrow> lift_res (parseEnvelope x f))"

definition outbox_list :: "outbox_envelope list outbox_eff" where
  "outbox_list = bnd pendingFiles (\<lambda>fs. bnd (for_each fs (\<lambda>f acc. bnd (read_envelope f) (\<lambda>e. ret (acc @ [e]))) []) (\<lambda>es.
     gets (\<lambda>w. oq_sort (ox_platform w) (compareEnvelopes (oq_locale (ox_platform w))) es)))"

definition assertCapacity :: "unit outbox_eff" where
  "assertCapacity = bnd outbox_count (\<lambda>n. require_that (\<not> n \<ge> MAX_OUTBOX_ENTRIES)
     (Error (''Zero3 Remote Host outbox reached its '' @ int_text MAX_OUTBOX_ENTRIES @ ''-entry safety limit'')))"

fun event_sequence :: "envelope_body \<Rightarrow> int option" where
  "event_sequence (EventBody n t p) = Some n"
| "event_sequence (TerminalBody s r) = None"

definition pending_maximum :: "string \<Rightarrow> string \<Rightarrow> outbox_envelope list \<Rightarrow> int" where
  "pending_maximum t x es = fold (\<lambda>e m. if ov_taskId e = t \<and> ov_executionId e = x
     then (case event_sequence (ov_body e) of None \<Rightarrow> m | Some n \<Rightarrow> if n > m then n else m) else m) es 0"

definition readCursor :: "string \<Rightarrow> string \<Rightarrow> int outbox_eff" where
  "readCursor t x = bnd (gets (\<lambda>w. let file = oq_key (ox_platform w) t x @ ''.json'' in (file, map_of (ox_cursors w) file))) (\<lambda>(file, c).
     case c of
       None \<Rightarrow> ret 0
     | Some (CursorNotJson msg) \<Rightarrow> throw (Error msg)
     | Some CursorIllTyped \<Rightarrow> throw (Error (''invalid Zero3 Remote Host event cursor: '' @ file))
     | Some (CursorText version task execution n) \<Rightarrow>
         if version \<noteq> 1 \<or> task \<noteq> t \<or> execution \<noteq> x \<or> \<not> safe_integer n \<or> n < 0
         then throw (Error (''invalid Zero3 Remote Host event cursor: '' @ file)) else ret n)"

definition writeCursor :: "string \<Rightarrow> string \<Rightarrow> int \<Rightarrow> unit outbox_eff" where
  "writeCursor t x n = modify (\<lambda>w. w\<lparr>ox_cursors := AList.update (oq_key (ox_platform w) t x @ ''.json'') (CursorText 1 t x n) (ox_cursors w)\<rparr>)"

definition nextEventSequence_outbox :: "string \<Rightarrow> string \<Rightarrow> int outbox_eff" where
  "nextEventSequence_outbox t x = bnd (readCursor t x) (\<lambda>persisted. bnd outbox_list (\<lambda>es. ret (max persisted (pending_maximum t x es) + 1)))"

definition envelopeFile :: "string \<Rightarrow> string outbox_eff" where
  "envelopeFile d = bnd (require_that (uuid_shaped d) (Error ''invalid Zero3 Remote Host outbox delivery id'')) (\<lambda>_. ret (d @ ''.json''))"

definition persist_envelope :: "outbox_envelope \<Rightarrow> unit outbox_eff" where
  "persist_envelope e = bnd (envelopeFile (ov_deliveryId e)) (\<lambda>f. bnd (gets (\<lambda>w. oq_bytes (ox_platform w) e)) (\<lambda>n.
     bnd (require_that (\<not> n > MAX_ENVELOPE_BYTES) (Error ''Zero3 Remote Host outbox envelope exceeds the local size limit'')) (\<lambda>_.
     modify (\<lambda>w. w\<lparr>ox_pending := AList.update f (EnvelopeText 1 e) (ox_pending w)\<rparr>))))"

definition new_envelope :: "outbox_lease \<Rightarrow> envelope_body \<Rightarrow> outbox_envelope outbox_eff" where
  "new_envelope l body = bnd (gets (\<lambda>w. \<lparr>ov_deliveryId = oq_uuid (ox_platform w) (ox_ticks w), ov_taskId = le_taskId l,
       ov_executionId = le_executionId l, ov_leaseId = le_leaseId l, ov_fencingToken = le_fencingToken l,
       ov_createdAt = oq_clock (ox_platform w) (ox_ticks w), ov_body = body\<rparr>)) (\<lambda>e.
     bnd (modify (\<lambda>w. w\<lparr>ox_ticks := Suc (ox_ticks w)\<rparr>)) (\<lambda>_. ret e))"

text \<open>The first of the two writes of an event, then both.\<close>

definition persist_event :: "outbox_lease \<Rightarrow> string \<Rightarrow> json \<Rightarrow> (outbox_envelope \<times> int) outbox_eff" where
  "persist_event l eventType payload = bnd assertCapacity (\<lambda>_. bnd (nextEventSequence_outbox (le_taskId l) (le_executionId l)) (\<lambda>n.
     bnd (new_envelope l (EventBody n eventType payload)) (\<lambda>e. bnd (persist_envelope e) (\<lambda>_. ret (e, n)))))"

definition enqueueEvent :: "outbox_lease \<Rightarrow> string \<Rightarrow> json \<Rightarrow> outbox_envelope outbox_eff" where
  "enqueueEvent l eventType payload = bnd (persist_event l eventType payload) (\<lambda>(e, n).
     bnd (writeCursor (le_taskId l) (le_executionId l) n) (\<lambda>_. ret e))"

definition enqueueTerminal :: "outbox_lease \<Rightarrow> terminal_state \<Rightarrow> json \<Rightarrow> outbox_envelope outbox_eff" where
  "enqueueTerminal l st result = bnd assertCapacity (\<lambda>_. bnd (new_envelope l (TerminalBody st result)) (\<lambda>e.
     bnd (persist_envelope e) (\<lambda>_. ret e)))"

definition ack :: "string \<Rightarrow> unit outbox_eff" where
  "ack d = bnd (envelopeFile d) (\<lambda>f. modify (\<lambda>w. w\<lparr>ox_pending := AList.delete f (ox_pending w)\<rparr>))"

definition quarantine_envelope :: "outbox_envelope \<Rightarrow> string \<Rightarrow> unit outbox_eff" where
  "quarantine_envelope e reason = bnd (envelopeFile (ov_deliveryId e)) (\<lambda>f. bnd (gets (\<lambda>w. map_of (ox_pending w) f)) (\<lambda>t.
     case t of
       None \<Rightarrow> ret ()
     | Some x \<Rightarrow> modify (\<lambda>w. w\<lparr>ox_pending := AList.delete f (ox_pending w), ox_quarantine := AList.update f x (ox_quarantine w),
         ox_reasons := AList.update (ov_deliveryId e @ ''.reason.json'') (oq_clock (ox_platform w) (ox_ticks w), reason) (ox_reasons w),
         ox_ticks := Suc (ox_ticks w)\<rparr>)))"

section \<open>Draining\<close>

datatype publish_result = Published | Quarantined

fun drainZero3RemoteOutboxInOrder :: "outbox_envelope list \<Rightarrow> (outbox_envelope \<Rightarrow> ('s, publish_result) eff) \<Rightarrow> string option \<Rightarrow>
    (outbox_envelope \<Rightarrow> 's \<Rightarrow> bool) \<Rightarrow> ('s, publish_result option) eff" where
  "drainZero3RemoteOutboxInOrder [] publish target canPublish = ret None"
| "drainZero3RemoteOutboxInOrder (e # es) publish target canPublish = bnd (gets (canPublish e)) (\<lambda>may.
     if \<not> may then ret None
     else bnd (publish e) (\<lambda>r. if target = Some (ov_deliveryId e) then ret (Some r)
       else drainZero3RemoteOutboxInOrder es publish target canPublish))"

record 'm remote_node =
  nd_remote :: 'm
  nd_outbox :: outbox_world
  nd_activeTaskId :: "string option"
  nd_leaseInvalid :: bool
  nd_stopped :: bool
  nd_pendingDeliveries :: int
  nd_lastError :: "string option"

record 'm remote_client =
  rc_publish :: "outbox_envelope \<Rightarrow> ('m, unit) eff"
  rc_stale :: "error \<Rightarrow> bool"

definition in_outbox :: "'a outbox_eff \<Rightarrow> ('m remote_node, 'a) eff" where
  "in_outbox m = (\<lambda>c. case m (nd_outbox c) of (r, w) \<Rightarrow> (r, c\<lparr>nd_outbox := w\<rparr>))"

definition on_remote :: "('m, 'a) eff \<Rightarrow> ('m remote_node, 'a) eff" where
  "on_remote m = (\<lambda>c. case m (nd_remote c) of (r, a) \<Rightarrow> (r, c\<lparr>nd_remote := a\<rparr>))"

definition refreshPendingDeliveries :: "('m remote_node, unit) eff" where
  "refreshPendingDeliveries = bnd (in_outbox outbox_count) (\<lambda>n. modify (\<lambda>c. c\<lparr>nd_pendingDeliveries := n\<rparr>))"

definition publishEnvelope :: "'m remote_client \<Rightarrow> outbox_envelope \<Rightarrow> ('m remote_node, publish_result) eff" where
  "publishEnvelope cl e = catch_with
     (bnd (on_remote (rc_publish cl e)) (\<lambda>_. bnd (in_outbox (ack (ov_deliveryId e))) (\<lambda>_. bnd refreshPendingDeliveries (\<lambda>_. ret Published))))
     (\<lambda>err. if rc_stale cl err
       then bnd (in_outbox (quarantine_envelope e (error_message err))) (\<lambda>_.
         bnd (modify (\<lambda>c. if nd_activeTaskId c = Some (ov_taskId e) then c\<lparr>nd_leaseInvalid := True\<rparr> else c)) (\<lambda>_.
         bnd refreshPendingDeliveries (\<lambda>_.
         bnd (modify (\<lambda>c. c\<lparr>nd_lastError := Some (''remote outbox envelope quarantined after stale lease/fencing rejection: '' @ error_message err)\<rparr>)) (\<lambda>_.
         ret Quarantined))))
       else bnd refreshPendingDeliveries (\<lambda>_. throw err))"

definition flushOutbox :: "'m remote_client \<Rightarrow> string option \<Rightarrow> ('m remote_node, publish_result option) eff" where
  "flushOutbox cl target = bnd (in_outbox outbox_list) (\<lambda>es. drainZero3RemoteOutboxInOrder es (publishEnvelope cl) target
     (\<lambda>e c. \<not> nd_stopped c \<and> \<not> (nd_leaseInvalid c \<and> nd_activeTaskId c = Some (ov_taskId e))))"

end
