(* ===== verification/RemoteNode.thy ===== *)
theory RemoteNode
  imports RemoteOutbox
begin

text \<open>
  \<open>host-runtime/remote-node.ts\<close>: how a remote host serves a lease. Events and results go through the durable outbox; the runner of a task
  is a port, which is given a callback for its evidence and may do anything to the node in between. The loop that asks for leases serves
  them one at a time; its timers (heartbeat, renewal) and its waiting are not modelled, but what a failed renewal does is an operation.
\<close>

record 'm remote_runner =
  rn_run :: "outbox_lease \<Rightarrow> (string \<Rightarrow> json \<Rightarrow> ('m remote_node, unit) eff) \<Rightarrow> ('m remote_node, terminal_state \<times> json) eff"

definition set_last_error :: "string option \<Rightarrow> ('m remote_node, unit) eff" where
  "set_last_error m = modify (\<lambda>c. c\<lparr>nd_lastError := m\<rparr>)"

definition is_delivery_pending :: "error \<Rightarrow> bool" where
  "is_delivery_pending e = (case e of RemoteDeliveryPendingError m \<Rightarrow> True | _ \<Rightarrow> False)"

section \<open>Events and results\<close>

definition require_published :: "publish_result option \<Rightarrow> bool \<Rightarrow> unit res" where
  "require_published r needed =
     (if r = Some Quarantined \<and> needed then Inl (RemoteDeliveryPendingError ''required remote event was rejected as stale; local Codex execution was not started'')
      else if r = None \<and> needed then Inl (RemoteDeliveryPendingError ''required remote event was not published in durable outbox order'')
      else Inr ())"

definition durableEvent :: "'m remote_client \<Rightarrow> outbox_lease \<Rightarrow> string \<Rightarrow> json \<Rightarrow> bool \<Rightarrow> ('m remote_node, unit) eff" where
  "durableEvent cl l eventType payload needed = bnd (in_outbox (enqueueEvent l eventType payload)) (\<lambda>e. bnd refreshPendingDeliveries (\<lambda>_.
     bnd (gets nd_leaseInvalid) (\<lambda>invalid.
     if invalid then require_that (\<not> needed) (RemoteDeliveryPendingError ''required remote event cannot be published because the active lease is invalid'')
     else catch_with (bnd (flushOutbox cl (Some (ov_deliveryId e))) (\<lambda>r. lift_res (require_published r needed)))
       (\<lambda>err. if is_delivery_pending err then throw err
         else if needed then throw (RemoteDeliveryPendingError (''required remote event is durably pending: '' @ error_message err))
         else set_last_error (Some (''remote evidence is durably pending: '' @ error_message err))))))"

definition durableTerminal :: "'m remote_client \<Rightarrow> outbox_lease \<Rightarrow> terminal_state \<Rightarrow> json \<Rightarrow> ('m remote_node, unit) eff" where
  "durableTerminal cl l st result = bnd (in_outbox (enqueueTerminal l st result)) (\<lambda>e. bnd refreshPendingDeliveries (\<lambda>_.
     bnd (gets nd_leaseInvalid) (\<lambda>invalid.
     if invalid then ret ()
     else catch_with (bnd (flushOutbox cl (Some (ov_deliveryId e))) (\<lambda>r.
         require_that (r \<noteq> None) (RemoteDeliveryPendingError ''terminal result is durable but waiting behind an earlier pending envelope'')))
       (\<lambda>err. if is_delivery_pending err then throw err
         else throw (RemoteDeliveryPendingError (''terminal result is durably pending: '' @ error_message err))))))"

text \<open>A renewal that fails.\<close>

definition renewal_failed :: "'m remote_client \<Rightarrow> error \<Rightarrow> ('m remote_node, unit) eff" where
  "renewal_failed cl err = bnd (modify (\<lambda>c. if rc_stale cl err then c\<lparr>nd_leaseInvalid := True\<rparr> else c)) (\<lambda>_.
     set_last_error (Some (''remote task lease renewal failed: '' @ error_message err)))"

section \<open>A lease\<close>

definition reason_of :: "string \<Rightarrow> json" where
  "reason_of m = JObj [(''reason'', JStr m)]"

fun terminal_of :: "error \<Rightarrow> terminal_state" where
  "terminal_of (RemoteTaskBlockedError m) = TBlocked"
| "terminal_of (RemoteTaskOutcomeUnknownError m) = TOutcomeUnknown"
| "terminal_of _ = TFailed"

text \<open>Up to the durable result.\<close>

definition run_task :: "'m remote_client \<Rightarrow> 'm remote_runner \<Rightarrow> string \<Rightarrow> outbox_lease \<Rightarrow> ('m remote_node, outbox_envelope) eff" where
  "run_task cl rn node l = bnd (durableEvent cl l ''host.accepted'' (JObj [(''node_id'', JStr node)]) True) (\<lambda>_.
     bnd (rn_run rn l (\<lambda>method payload. durableEvent cl l (''codex.'' @ method) payload False)) (\<lambda>(st, result).
     in_outbox (enqueueTerminal l st result)))"

definition publish_terminal :: "'m remote_client \<Rightarrow> outbox_envelope \<Rightarrow> ('m remote_node, unit) eff" where
  "publish_terminal cl e = bnd refreshPendingDeliveries (\<lambda>_. bnd (gets nd_leaseInvalid) (\<lambda>invalid.
     if invalid then ret () else bnd (flushOutbox cl (Some (ov_deliveryId e))) (\<lambda>_. ret ())))"

definition task_failed :: "'m remote_client \<Rightarrow> outbox_lease \<Rightarrow> bool \<Rightarrow> error \<Rightarrow> ('m remote_node, unit) eff" where
  "task_failed cl l durable err = bnd (gets nd_stopped) (\<lambda>stopped.
     bnd (if \<not> durable \<and> \<not> stopped \<and> \<not> is_delivery_pending err
       then catch_with (bnd (in_outbox (enqueueTerminal l (terminal_of err) (reason_of (error_message err)))) (publish_terminal cl))
         (\<lambda>err'. set_last_error (Some (''remote terminal persistence/publication failed: '' @ error_message err')))
       else ret ()) (\<lambda>_. set_last_error (Some (error_message err))))"

definition attempt :: "('s, 'a) eff \<Rightarrow> ('s, error + 'a) eff" where
  "attempt m = (\<lambda>s. case m s of (r, t) \<Rightarrow> (Inr r, t))"

definition serve_task :: "'m remote_client \<Rightarrow> 'm remote_runner \<Rightarrow> string \<Rightarrow> outbox_lease \<Rightarrow> ('m remote_node, unit) eff" where
  "serve_task cl rn node l = bnd (attempt (run_task cl rn node l)) (\<lambda>r. case r of
     Inl err \<Rightarrow> task_failed cl l False err
   | Inr e \<Rightarrow> catch_with (publish_terminal cl e) (task_failed cl l True))"

definition with_cleanup :: "('s, 'a) eff \<Rightarrow> ('s \<Rightarrow> 's) \<Rightarrow> ('s, 'a) eff" where
  "with_cleanup m f = (\<lambda>s. case m s of (r, t) \<Rightarrow> (r, f t))"

definition serve_lease :: "'m remote_client \<Rightarrow> 'm remote_runner \<Rightarrow> string \<Rightarrow> outbox_lease \<Rightarrow> ('m remote_node, unit) eff" where
  "serve_lease cl rn node l = bnd (require_that (le_taskId l \<noteq> []) (Error ''leased remote task is missing task_id'')) (\<lambda>_.
     bnd (gets nd_activeTaskId) (\<lambda>active.
     if active \<noteq> None \<and> active \<noteq> Some []
     then durableTerminal cl l TBlocked (reason_of ''local Zero3 Remote Host already has an active remote task'')
     else bnd (modify (\<lambda>c. c\<lparr>nd_activeTaskId := Some (le_taskId l), nd_leaseInvalid := False\<rparr>)) (\<lambda>_.
       with_cleanup (serve_task cl rn node l) (\<lambda>c. c\<lparr>nd_leaseInvalid := False, nd_activeTaskId := None\<rparr>))))"

end
