(* ===== verification/RemoteOutboxCorrectness.thy ===== *)
theory RemoteOutboxCorrectness
  imports RemoteOutbox OperationRules
begin

text \<open>
  The properties of the outbox of a remote host: the events of an execution get increasing numbers, draining keeps their order,
  and what happens when the process stops between the two writes of an event.
\<close>

section \<open>The cursors\<close>

text \<open>Everything but the second write of an event leaves the cursors alone.\<close>

definition cursors_are :: "outbox_platform \<Rightarrow> (string \<times> cursor_text) list \<Rightarrow> outbox_world \<Rightarrow> bool" where
  "cursors_are pf cs w \<longleftrightarrow> ox_platform w = pf \<and> ox_cursors w = cs"

lemma cursors_kept: "(\<And>w. ox_platform (f w) = ox_platform w \<and> ox_cursors (f w) = ox_cursors w) \<Longrightarrow>
    triple (cursors_are pf cs) (modify f) (\<lambda>_. cursors_are pf cs) (cursors_are pf cs)"
  by (rule triple_modify) (simp add: cursors_are_def)

lemma cursors_pure:
  "triple (cursors_are pf cs) (ret x) (\<lambda>_. cursors_are pf cs) (cursors_are pf cs)"
  "triple (cursors_are pf cs) (throw e) (\<lambda>_. cursors_are pf cs) (cursors_are pf cs)"
  "triple (cursors_are pf cs) (gets g) (\<lambda>_. cursors_are pf cs) (cursors_are pf cs)"
  "triple (cursors_are pf cs) (lift_res r) (\<lambda>_. cursors_are pf cs) (cursors_are pf cs)"
  "triple (cursors_are pf cs) (require_that b e) (\<lambda>_. cursors_are pf cs) (cursors_are pf cs)"
  by (rule triple_ret triple_throw triple_gets triple_lift_res triple_require; assumption)+

lemmas cursors_rules = triple_bnd cursors_pure cursors_kept triple_if triple_option triple_for_each [where I = "\<lambda>_. cursors_are pf cs" for pf cs]

lemma cursors_list: "triple (cursors_are pf cs) outbox_list (\<lambda>_. cursors_are pf cs) (cursors_are pf cs)"
  unfolding outbox_list_def pendingFiles_def read_envelope_def by (rule cursors_rules)+

lemma cursors_capacity: "triple (cursors_are pf cs) assertCapacity (\<lambda>_. cursors_are pf cs) (cursors_are pf cs)"
  unfolding assertCapacity_def outbox_count_def pendingFiles_def by (rule cursors_rules)+

lemma cursors_persist: "triple (cursors_are pf cs) (persist_envelope e) (\<lambda>_. cursors_are pf cs) (cursors_are pf cs)"
  unfolding persist_envelope_def envelopeFile_def by (rule cursors_rules | simp)+

lemma cursors_new: "triple (cursors_are pf cs) (new_envelope l b) (\<lambda>e w. (ov_taskId e = le_taskId l \<and> ov_executionId e = le_executionId l \<and>
    ov_body e = b) \<and> cursors_are pf cs w) (cursors_are pf cs)"
  by (auto simp: triple_def new_envelope_def bnd_run eff_defs cursors_are_def)

lemma cursors_others:
  "triple (cursors_are pf cs) (enqueueTerminal l st r) (\<lambda>_. cursors_are pf cs) (cursors_are pf cs)"
  "triple (cursors_are pf cs) (ack d) (\<lambda>_. cursors_are pf cs) (cursors_are pf cs)"
  "triple (cursors_are pf cs) (quarantine_envelope e reason) (\<lambda>_. cursors_are pf cs) (cursors_are pf cs)"
proof -
  have new: "triple (cursors_are pf cs) (new_envelope l b) (\<lambda>_. cursors_are pf cs) (cursors_are pf cs)" for b
    by (rule triple_conseq [OF cursors_new]) auto
  show "triple (cursors_are pf cs) (enqueueTerminal l st r) (\<lambda>_. cursors_are pf cs) (cursors_are pf cs)"
    unfolding enqueueTerminal_def by (rule triple_bnd cursors_capacity new cursors_persist cursors_pure)+
qed (unfold ack_def quarantine_envelope_def envelopeFile_def, (rule cursors_rules | simp)+)

lemma cursor_read:
  assumes "ox_platform w = pf" "ox_cursors w = cs" "readCursor t x w = (Inr m, w')"
  shows "w' = w \<and> (map_of cs (oq_key pf t x @ ''.json'') = None \<and> m = 0 \<or> map_of cs (oq_key pf t x @ ''.json'') = Some (CursorText 1 t x m))"
  using assms by (auto simp: readCursor_def bnd_run eff_defs Let_def split: option.splits cursor_text.splits if_splits)

lemma cursor_read_state: "snd (readCursor t x w) = w"
  by (auto simp: readCursor_def bnd_run eff_defs Let_def split: option.splits cursor_text.splits)

text \<open>The number of a new event is above the cursor of its execution.\<close>

lemma persist_event_numbers:
  "triple (cursors_are pf cs) (persist_event l ty p)
     (\<lambda>(e, n) w. (ov_taskId e = le_taskId l \<and> ov_executionId e = le_executionId l \<and> ov_body e = EventBody n ty p \<and>
        (\<exists>m < n. map_of cs (oq_key pf (le_taskId l) (le_executionId l) @ ''.json'') = None \<and> m = 0 \<or>
           map_of cs (oq_key pf (le_taskId l) (le_executionId l) @ ''.json'') = Some (CursorText 1 (le_taskId l) (le_executionId l) m))) \<and>
        cursors_are pf cs w) (cursors_are pf cs)"
proof -
  let ?found = "\<lambda>m. map_of cs (oq_key pf (le_taskId l) (le_executionId l) @ ''.json'') = None \<and> m = 0 \<or>
    map_of cs (oq_key pf (le_taskId l) (le_executionId l) @ ''.json'') = Some (CursorText 1 (le_taskId l) (le_executionId l) m)"
  have read: "triple (cursors_are pf cs) (readCursor (le_taskId l) (le_executionId l)) (\<lambda>m w. ?found m \<and> cursors_are pf cs w) (cursors_are pf cs)"
    using cursor_read cursor_read_state
    by (auto simp: triple_def cursors_are_def split: prod.splits sum.splits) (metis snd_conv)+
  have pure: "triple (\<lambda>w. A \<and> cursors_are pf cs w) m Q E" if "A \<Longrightarrow> triple (cursors_are pf cs) m Q E" for A and m :: "(outbox_world, 'b) eff" and Q E
    using that by (cases A) (simp_all add: triple_def)
  have number: "triple (cursors_are pf cs) (nextEventSequence_outbox (le_taskId l) (le_executionId l))
      (\<lambda>n w. (\<exists>m < n. ?found m) \<and> cursors_are pf cs w) (cursors_are pf cs)"
    unfolding nextEventSequence_outbox_def
    by (rule triple_bnd [OF read] triple_bnd [OF cursors_list] pure triple_ret)+ force
  show ?thesis
    unfolding persist_event_def
    by (rule triple_bnd [OF cursors_capacity] triple_bnd [OF number] pure triple_bnd [OF cursors_new] triple_bnd [OF cursors_persist] triple_ret)+ auto
qed

section \<open>The numbers of an execution\<close>

text \<open>Whatever is done with the outbox, with the number of each event that was enqueued, in order. Events that were refused have none.\<close>

inductive outbox_history :: "outbox_world \<Rightarrow> (string \<times> string \<times> int) list \<Rightarrow> bool" where
  begun: "outbox_history w []"
| event: "outbox_history w ns \<Longrightarrow> enqueueEvent l ty p w = (Inr e, w') \<Longrightarrow> ov_body e = EventBody n ty p \<Longrightarrow>
    outbox_history w' (ns @ [(ov_taskId e, ov_executionId e, n)])"
| refused: "outbox_history w ns \<Longrightarrow> enqueueEvent l ty p w = (Inl err, w') \<Longrightarrow> outbox_history w' ns"
| terminal: "outbox_history w ns \<Longrightarrow> outbox_history (snd (enqueueTerminal l st r w)) ns"
| acked: "outbox_history w ns \<Longrightarrow> outbox_history (snd (ack d w)) ns"
| quarantined: "outbox_history w ns \<Longrightarrow> outbox_history (snd (quarantine_envelope e reason w)) ns"

definition numbers_of :: "string \<Rightarrow> string \<Rightarrow> (string \<times> string \<times> int) list \<Rightarrow> int list" where
  "numbers_of t x ns = map (snd \<circ> snd) (filter (\<lambda>(t', x', n). t' = t \<and> x' = x) ns)"

definition covered_by :: "outbox_platform \<Rightarrow> (string \<times> cursor_text) list \<Rightarrow> (string \<times> string \<times> int) list \<Rightarrow> bool" where
  "covered_by pf cs ns \<longleftrightarrow> (\<forall>(t, x, n) \<in> set ns. \<exists>m \<ge> n. map_of cs (oq_key pf t x @ ''.json'') = Some (CursorText 1 t x m))"

lemma enqueue_event_cursors:
  assumes "enqueueEvent l ty p w = (r, w')" "covered_by (ox_platform w) (ox_cursors w) ns"
  shows "ox_platform w' = ox_platform w \<and> (case r of
      Inl err \<Rightarrow> ox_cursors w' = ox_cursors w
    | Inr e \<Rightarrow> \<exists>n. ov_body e = EventBody n ty p \<and> covered_by (ox_platform w') (ox_cursors w') (ns @ [(ov_taskId e, ov_executionId e, n)]) \<and>
        (\<forall>k \<in> set (numbers_of (ov_taskId e) (ov_executionId e) ns). k < n))"
proof (cases "persist_event l ty p w")
  case (Pair q v)
  have start: "cursors_are (ox_platform w) (ox_cursors w) w" by (simp add: cursors_are_def)
  let ?t = "le_taskId l" and ?x = "le_executionId l" and ?key = "oq_key (ox_platform w) (le_taskId l) (le_executionId l) @ ''.json''"
  show ?thesis
  proof (cases q)
    case (Inl err)
    with tripleD_err [OF persist_event_numbers start] Pair have "cursors_are (ox_platform w) (ox_cursors w) v" by blast
    moreover from assms(1) Pair Inl have "r = Inl err" "w' = v" by (auto simp: enqueueEvent_def bnd_run)
    ultimately show ?thesis by (simp add: cursors_are_def)
  next
    case (Inr en)
    obtain e n where en: "en = (e, n)" by (cases en)
    from tripleD_ok [OF persist_event_numbers start] Pair Inr en
    have e: "ov_taskId e = ?t" "ov_executionId e = ?x" "ov_body e = EventBody n ty p" and v: "cursors_are (ox_platform w) (ox_cursors w) v"
      and cursor: "\<exists>m < n. map_of (ox_cursors w) ?key = None \<and> m = 0 \<or> map_of (ox_cursors w) ?key = Some (CursorText 1 ?t ?x m)" by force+
    from assms(1) Pair Inr en v have r: "r = Inr e" and w': "ox_platform w' = ox_platform w"
      "ox_cursors w' = AList.update ?key (CursorText 1 ?t ?x n) (ox_cursors w)"
      by (auto simp: enqueueEvent_def bnd_run writeCursor_def eff_defs cursors_are_def)
    from cursor obtain m where m: "m < n" "map_of (ox_cursors w) ?key = None \<or> map_of (ox_cursors w) ?key = Some (CursorText 1 ?t ?x m)" by blast
    have below: "t = ?t \<and> x = ?x \<and> k \<le> m" if "(t, x, k) \<in> set ns" "oq_key (ox_platform w) t x @ ''.json'' = ?key" for t x k
      using assms(2) that m(2) unfolding covered_by_def by fastforce
    have "covered_by (ox_platform w') (ox_cursors w') (ns @ [(?t, ?x, n)])"
      unfolding covered_by_def w' update_conv'
    proof (intro ballI, clarify)
      fix t x k
      assume "(t, x, k) \<in> set (ns @ [(?t, ?x, n)])"
      then consider (last) "t = ?t" "x = ?x" "k = n" | (old) "(t, x, k) \<in> set ns" by auto
      then show "\<exists>m' \<ge> k. ((map_of (ox_cursors w))(?key \<mapsto> CursorText 1 ?t ?x n)) (oq_key (ox_platform w) t x @ ''.json'') = Some (CursorText 1 t x m')"
      proof cases
        case old
        then show ?thesis
          using below [OF old] m(1) assms(2) unfolding covered_by_def
          by (cases "oq_key (ox_platform w) t x @ ''.json'' = ?key") fastforce+
      qed simp
    qed
    moreover have "\<forall>k \<in> set (numbers_of ?t ?x ns). k < n"
      using below m(1) by (fastforce simp: numbers_of_def)
    ultimately show ?thesis by (simp add: r e w'(1))
  qed
qed

lemma history_covered: "outbox_history w ns \<Longrightarrow> covered_by (ox_platform w) (ox_cursors w) ns \<and> sorted_wrt (<) (numbers_of t x ns)"
proof (induction rule: outbox_history.induct)
  case (event w ns l ty p e w' n)
  from enqueue_event_cursors [OF event.hyps(2)] event.IH event.hyps(3)
  have "covered_by (ox_platform w') (ox_cursors w') (ns @ [(ov_taskId e, ov_executionId e, n)])"
    "\<forall>k \<in> set (numbers_of (ov_taskId e) (ov_executionId e) ns). k < n" by auto
  with event.IH show ?case by (auto simp: numbers_of_def sorted_wrt_append)
next
  case (refused w ns l ty p err w')
  with enqueue_event_cursors [OF refused.hyps(2)] show ?case by auto
next
  case (terminal w ns l st r)
  have "cursors_are (ox_platform w) (ox_cursors w) (snd (enqueueTerminal l st r w))"
    by (rule tripleD_state [OF cursors_others(1)]) (simp add: cursors_are_def)
  with terminal show ?case by (simp add: cursors_are_def)
next
  case (acked w ns d)
  have "cursors_are (ox_platform w) (ox_cursors w) (snd (ack d w))"
    by (rule tripleD_state [OF cursors_others(2)]) (simp add: cursors_are_def)
  with acked show ?case by (simp add: cursors_are_def)
next
  case (quarantined w ns e reason)
  have "cursors_are (ox_platform w) (ox_cursors w) (snd (quarantine_envelope e reason w))"
    by (rule tripleD_state [OF cursors_others(3)]) (simp add: cursors_are_def)
  with quarantined show ?case by (simp add: cursors_are_def)
qed (simp add: covered_by_def numbers_of_def)

text \<open>C20: the events of an execution are numbered in increasing order, without repetition, whatever is delivered, quarantined
  or refused in between and whatever other executions use the outbox, even if two of them hash to one cursor file.\<close>

theorem event_sequences_increase:
  assumes "outbox_history w ns"
  shows "sorted_wrt (<) (numbers_of task execution ns)"
  using history_covered [OF assms] by blast

text \<open>A platform, and an outbox to which two events are added, the first being delivered before the second.\<close>

definition demo_outbox :: outbox_world where
  "demo_outbox = \<lparr>ox_platform = \<lparr>oq_uuid = (\<lambda>n. replicate 35 CHR ''a'' @ [digit (n mod 10)]), oq_clock = nat_text, oq_key = (\<lambda>t x. t @ ''-'' @ x),
     oq_bytes = (\<lambda>_. 100), oq_locale = (\<lambda>a b. if a = b then 0 else if a < b then - 1 else 1), oq_sort = (\<lambda>_ es. es)\<rparr>,
     ox_pending = [], ox_cursors = [], ox_quarantine = [], ox_reasons = [], ox_ticks = 0\<rparr>"

definition demo_remote_lease :: outbox_lease where
  "demo_remote_lease = \<lparr>le_leaseId = ''l'', le_fencingToken = 1, le_taskId = ''t'', le_executionId = ''x''\<rparr>"

definition demo_first :: "outbox_envelope res \<times> outbox_world" where
  "demo_first = enqueueEvent demo_remote_lease ''started'' (JStr ''p'') demo_outbox"

definition demo_acked :: outbox_world where
  "demo_acked = snd (ack (replicate 35 CHR ''a'' @ ''0'') (snd demo_first))"

definition demo_second :: "outbox_envelope res \<times> outbox_world" where
  "demo_second = enqueueEvent demo_remote_lease ''progress'' (JStr ''q'') demo_acked"

definition issued :: "outbox_envelope res \<times> outbox_world \<Rightarrow> string \<Rightarrow> string \<Rightarrow> envelope_body \<Rightarrow> bool" where
  "issued r t x b \<longleftrightarrow> (case fst r of Inl _ \<Rightarrow> False | Inr e \<Rightarrow> ov_taskId e = t \<and> ov_executionId e = x \<and> ov_body e = b)"

lemma issued_envelope: "issued r t x b \<Longrightarrow> \<exists>e. r = (Inr e, snd r) \<and> ov_taskId e = t \<and> ov_executionId e = x \<and> ov_body e = b"
  by (cases r) (auto simp: issued_def split: sum.splits)

lemma demo_issued: "issued demo_first ''t'' ''x'' (EventBody 1 ''started'' (JStr ''p''))" "ox_pending demo_acked = []"
    "issued demo_second ''t'' ''x'' (EventBody 2 ''progress'' (JStr ''q''))"
  by code_simp+

lemma event_sequences_increase_witness:
  "\<exists>w ns. outbox_history w ns \<and> numbers_of ''t'' ''x'' ns = [1, 2] \<and> sorted_wrt (<) (numbers_of ''t'' ''x'' ns)"
proof -
  obtain e1 e2 where e1: "demo_first = (Inr e1, snd demo_first)" "ov_taskId e1 = ''t''" "ov_executionId e1 = ''x''" "ov_body e1 = EventBody 1 ''started'' (JStr ''p'')"
    and e2: "demo_second = (Inr e2, snd demo_second)" "ov_taskId e2 = ''t''" "ov_executionId e2 = ''x''" "ov_body e2 = EventBody 2 ''progress'' (JStr ''q'')"
    using issued_envelope [OF demo_issued(1)] issued_envelope [OF demo_issued(3)] by blast
  have "outbox_history (snd demo_first) [(''t'', ''x'', 1)]"
    using outbox_history.event [OF outbox_history.begun e1(1) [unfolded demo_first_def] e1(4)] e1 by (simp add: demo_first_def)
  from outbox_history.acked [OF this] have "outbox_history demo_acked [(''t'', ''x'', 1)]" by (simp add: demo_acked_def)
  from outbox_history.event [OF this e2(1) [unfolded demo_second_def] e2(4)] e2
  have run: "outbox_history (snd demo_second) [(''t'', ''x'', 1), (''t'', ''x'', 2)]" by (simp add: demo_second_def)
  have "numbers_of ''t'' ''x'' [(''t'', ''x'', 1), (''t'', ''x'', 2)] = [1, 2]" by (simp add: numbers_of_def)
  with run event_sequences_increase [OF run, of "''t''" "''x''"] show ?thesis by blast
qed

section \<open>Two defects\<close>

text \<open>If the process stops between the two writes of an event and the event is delivered before the next one is enqueued, its number
  is given out again.\<close>

lemma lost_cursor_reuses_number:
  "(case persist_event demo_remote_lease ''started'' (JStr ''p'') demo_outbox of (Inl _, _) \<Rightarrow> False
    | (Inr (e, n), w) \<Rightarrow> (case enqueueEvent demo_remote_lease ''progress'' (JStr ''q'') (snd (ack (ov_deliveryId e) w)) of (Inl _, _) \<Rightarrow> False
      | (Inr e', _) \<Rightarrow> event_sequence (ov_body e) = Some 1 \<and> event_sequence (ov_body e') = Some 1))"
  by code_simp

text \<open>The comparison the list is sorted with is not transitive for envelopes of one instant, so events of one execution can be
  listed out of order.\<close>

lemma comparison_is_cyclic:
  fixes l :: "string \<Rightarrow> string \<Rightarrow> int"
  assumes "\<And>a. l a a = 0" "l ''a'' ''b'' < 0" "l ''b'' ''c'' < 0"
  defines "e \<equiv> \<lambda>i t n. \<lparr>ov_deliveryId = i, ov_taskId = t, ov_executionId = ''x'', ov_leaseId = ''l'', ov_fencingToken = 0, ov_createdAt = ''now'',
    ov_body = EventBody n ''progress'' (JStr ''p'')\<rparr>"
  shows "compareEnvelopes l (e ''a'' ''t'' 2) (e ''b'' ''u'' 1) < 0" "compareEnvelopes l (e ''b'' ''u'' 1) (e ''c'' ''t'' 1) < 0"
    "compareEnvelopes l (e ''c'' ''t'' 1) (e ''a'' ''t'' 2) < 0"
  using assms(1-3) by (simp_all add: e_def compareEnvelopes_def)

section \<open>Draining\<close>

text \<open>Draining answers for the envelope it was asked for, and for no other.\<close>

lemma drain_answers_target:
  "drainZero3RemoteOutboxInOrder es publish target may s = (Inr (Some r), s') \<Longrightarrow> \<exists>e \<in> set es. target = Some (ov_deliveryId e)"
  by (induction es arbitrary: s) (auto simp: bnd_run eff_defs split: if_splits prod.splits sum.splits)

end
