(* ===== verification/RemoteNodeCorrectness.thy ===== *)
theory RemoteNodeCorrectness
  imports RemoteNode RemoteOutboxCorrectness
begin

text \<open>
  The property of a remote host that serves leases: a task is not started unless the control plane has taken its acceptance.
\<close>

section \<open>What a flush has published\<close>

lemma drain_published:
  "drainZero3RemoteOutboxInOrder es publish target may s = (Inr (Some r), s') \<Longrightarrow>
     \<exists>e \<in> set es. \<exists>t t'. target = Some (ov_deliveryId e) \<and> publish e t = (Inr r, t')"
proof (induction es arbitrary: s)
  case (Cons e es)
  show ?case
  proof (cases "may e s")
    case False
    then show ?thesis using Cons.prems by (simp add: bnd_run gets_def ret_def)
  next
    case True
    obtain q t where p: "publish e s = (q, t)" by fastforce
    show ?thesis
    proof (cases "\<exists>x. q = Inr x \<and> target \<noteq> Some (ov_deliveryId e)")
      case True
      then have "drainZero3RemoteOutboxInOrder es publish target may t = (Inr (Some r), s')"
        using Cons.prems \<open>may e s\<close> p by (auto simp: bnd_run gets_def)
      from Cons.IH [OF this] show ?thesis by auto
    next
      case False
      then show ?thesis using Cons.prems \<open>may e s\<close> p by (cases q) (auto simp: bnd_run gets_def ret_def)
    qed
  qed
qed (simp add: ret_def)

lemma published_accepted:
  assumes "publishEnvelope cl e c = (Inr Published, c')"
  shows "\<exists>m m'. rc_publish cl e m = (Inr (), m')"
proof (cases "rc_publish cl e (nd_remote c)")
  case (Pair q m)
  show ?thesis
  proof (cases q)
    case (Inr u)
    then show ?thesis using Pair by auto
  next
    case (Inl err)
    then show ?thesis using assms Pair
      by (auto simp: publishEnvelope_def catch_with_def bnd_run on_remote_def throw_def ret_def split: if_splits prod.splits sum.splits)
  qed
qed

lemma read_envelope_named:
  assumes "read_envelope f w = (Inr e, w')"
  shows "w' = w \<and> f = ov_deliveryId e @ ''.json'' \<and> map_of (ox_pending w) f = Some (EnvelopeText 1 e)"
proof (cases "map_of (ox_pending w) f")
  case None
  then show ?thesis using assms by (simp add: read_envelope_def bnd_run gets_def throw_def)
next
  case (Some x)
  then have "parseEnvelope x f = Inr e \<and> w' = w" using assms by (auto simp: read_envelope_def bnd_run gets_def lift_res_def)
  then show ?thesis using Some
    by (cases "(x, f)" rule: parseEnvelope.cases) (auto simp: envelope_fields_valid_def split: if_splits)
qed

lemma listed_envelopes:
  assumes "outbox_list w = (Inr es, w')" and sort: "\<And>c xs. set (oq_sort (ox_platform w) c xs) = set xs"
  shows "\<forall>e \<in> set es. map_of (ox_pending w) (ov_deliveryId e @ ''.json'') = Some (EnvelopeText 1 e)"
proof -
  have read: "for_each fs (\<lambda>f acc. bnd (read_envelope f) (\<lambda>e. ret (acc @ [e]))) acc w = (Inr xs, u) \<Longrightarrow>
      u = w \<and> (\<forall>e \<in> set xs. e \<in> set acc \<or> map_of (ox_pending w) (ov_deliveryId e @ ''.json'') = Some (EnvelopeText 1 e))" for fs acc xs u
  proof (induction fs arbitrary: acc)
    case (Cons f fs)
    obtain q v where q: "read_envelope f w = (q, v)" by fastforce
    with Cons.prems obtain e where e: "q = Inr e" by (cases q) (auto simp: bnd_run)
    note named = read_envelope_named [OF q [unfolded e]]
    then have "for_each fs (\<lambda>f acc. bnd (read_envelope f) (\<lambda>e. ret (acc @ [e]))) (acc @ [e]) w = (Inr xs, u)"
      using Cons.prems q e by (simp add: bnd_def ret_def)
    from Cons.IH [OF this] named show ?case by auto
  qed (simp add: ret_def)
  from assms(1) obtain xs u where run: "for_each (filter pending_name (map fst (ox_pending w))) (\<lambda>f acc. bnd (read_envelope f) (\<lambda>e. ret (acc @ [e]))) [] w = (Inr xs, u)"
      and es: "es = oq_sort (ox_platform u) (compareEnvelopes (oq_locale (ox_platform u))) xs"
    by (auto simp: outbox_list_def pendingFiles_def bnd_run gets_def split: sum.splits prod.splits)
  from read [OF run] es sort show ?thesis by auto
qed


section \<open>The acceptance of a task\<close>

definition envelope_event_type :: "envelope_body \<Rightarrow> string option" where
  "envelope_event_type b = (case b of EventBody n t p \<Rightarrow> Some t | TerminalBody s r \<Rightarrow> None)"

definition on_platform :: "outbox_platform \<Rightarrow> outbox_world \<Rightarrow> bool" where
  "on_platform pf w \<longleftrightarrow> ox_platform w = pf"

lemma platform_kept:
  assumes "\<And>cs. triple (cursors_are pf cs) m (\<lambda>_. cursors_are pf cs) (cursors_are pf cs)"
  shows "triple (on_platform pf) m (\<lambda>_. on_platform pf) (on_platform pf)"
proof (rule triple_fixed)
  fix w
  assume "on_platform pf w"
  then show "triple (\<lambda>v. v = w) m (\<lambda>_. on_platform pf) (on_platform pf)"
    by (intro triple_conseq [OF assms [of "ox_cursors w"]]) (auto simp: on_platform_def cursors_are_def)
qed

lemma number_kept: "triple (cursors_are pf cs) (nextEventSequence_outbox t x) (\<lambda>_. cursors_are pf cs) (cursors_are pf cs)"
proof -
  have read: "triple (cursors_are pf cs) (readCursor t x) (\<lambda>_. cursors_are pf cs) (cursors_are pf cs)"
    using cursor_read_state [of t x] by (auto simp: triple_def split: prod.splits sum.splits) (metis snd_conv)+
  show ?thesis unfolding nextEventSequence_outbox_def by (rule triple_bnd [OF read] triple_bnd [OF cursors_list] cursors_pure)+
qed

definition accepted_shape :: "outbox_lease \<Rightarrow> string \<Rightarrow> outbox_envelope \<Rightarrow> bool" where
  "accepted_shape l t e \<longleftrightarrow> ov_taskId e = le_taskId l \<and> ov_executionId e = le_executionId l \<and> ov_leaseId e = le_leaseId l \<and> envelope_event_type (ov_body e) = Some t"

lemma persisted_event:
  "triple (on_platform pf) (persist_event l t p)
     (\<lambda>en w. accepted_shape l t (fst en) \<and> map_of (ox_pending w) (ov_deliveryId (fst en) @ ''.json'') = Some (EnvelopeText 1 (fst en)) \<and> on_platform pf w)
     (on_platform pf)"
proof -
  have pure: "triple (\<lambda>w. A \<and> on_platform pf w) m Q E" if "A \<Longrightarrow> triple (on_platform pf) m Q E" for A and m :: "(outbox_world, 'b) eff" and Q E
    using that by (cases A) (simp_all add: triple_def)
  have new: "triple (on_platform pf) (new_envelope l (EventBody n t p)) (\<lambda>e w. accepted_shape l t e \<and> on_platform pf w) (on_platform pf)" for n
    by (auto simp: triple_def new_envelope_def bnd_run eff_defs on_platform_def accepted_shape_def envelope_event_type_def)
  have written: "triple (on_platform pf) (persist_envelope e)
      (\<lambda>_ w. map_of (ox_pending w) (ov_deliveryId e @ ''.json'') = Some (EnvelopeText 1 e) \<and> on_platform pf w) (on_platform pf)" for e
    by (auto simp: triple_def persist_envelope_def envelopeFile_def bnd_run eff_defs on_platform_def require_that_def lift_res_def guard_res_def update_conv')
  show ?thesis
    unfolding persist_event_def
    by (rule triple_bnd [OF platform_kept [OF cursors_capacity]] triple_bnd [OF platform_kept [OF number_kept]] triple_bnd [OF new]
        pure triple_bnd [OF written] triple_ret)+ auto
qed

lemma enqueued_event:
  assumes "enqueueEvent l t p w = (Inr e, w')"
  shows "map_of (ox_pending w') (ov_deliveryId e @ ''.json'') = Some (EnvelopeText 1 e) \<and> ox_platform w' = ox_platform w \<and> accepted_shape l t e"
proof -
  obtain n u where u: "persist_event l t p w = (Inr (e, n), u)" and w': "w' = snd (writeCursor (le_taskId l) (le_executionId l) n u)"
    using assms by (auto simp: enqueueEvent_def bnd_run writeCursor_def modify_def ret_def split: sum.splits prod.splits)
  from tripleD_ok [OF persisted_event _ u] show ?thesis
    by (auto simp: w' writeCursor_def modify_def on_platform_def)
qed


text \<open>An event that must be published has been taken by the control plane when its operation returns.\<close>

lemma needed_event_accepted:
  assumes sort: "\<And>c xs. set (oq_sort (ox_platform (nd_outbox c0)) c xs) = set xs"
    and run: "durableEvent cl l t p True c0 = (Inr (), c')"
  shows "\<exists>e m m'. accepted_shape l t e \<and> rc_publish cl e m = (Inr (), m')"
proof -
  obtain e w where e: "enqueueEvent l t p (nd_outbox c0) = (Inr e, w)"
    using run by (cases "enqueueEvent l t p (nd_outbox c0)") (auto simp: durableEvent_def bnd_run in_outbox_def split: sum.splits)
  note filed = enqueued_event [OF e]
  let ?c1 = "c0\<lparr>nd_outbox := w\<rparr>"
  obtain n where refresh: "refreshPendingDeliveries ?c1 = (Inr (), ?c1\<lparr>nd_pendingDeliveries := n\<rparr>)"
    by (simp add: refreshPendingDeliveries_def bnd_run in_outbox_def outbox_count_def pendingFiles_def eff_defs)
  let ?c2 = "?c1\<lparr>nd_pendingDeliveries := n\<rparr>"
  have "\<not> nd_leaseInvalid ?c2"
    using run by (auto simp: durableEvent_def bnd_run in_outbox_def e refresh gets_def require_that_def lift_res_def guard_res_def)
  then have caught: "catch_with (bnd (flushOutbox cl (Some (ov_deliveryId e))) (\<lambda>r. lift_res (require_published r True)))
       (\<lambda>err. if is_delivery_pending err then throw err
         else if True then throw (RemoteDeliveryPendingError (''required remote event is durably pending: '' @ error_message err))
         else set_last_error (Some (''remote evidence is durably pending: '' @ error_message err))) ?c2 = (Inr (), c')"
    using run by (simp add: durableEvent_def bnd_run in_outbox_def e refresh gets_def)
  obtain q c3 where flush: "flushOutbox cl (Some (ov_deliveryId e)) ?c2 = (q, c3)" by fastforce
  from caught have "q = Inr (Some Published)"
    by (cases q) (auto simp: catch_with_def bnd_run flush throw_def lift_res_def require_published_def split: if_splits option.splits, metis publish_result.exhaust)
  with flush obtain es w2 c4 where list: "outbox_list w = (Inr es, w2)"
      and drain: "drainZero3RemoteOutboxInOrder es (publishEnvelope cl) (Some (ov_deliveryId e))
        (\<lambda>e c. \<not> nd_stopped c \<and> \<not> (nd_leaseInvalid c \<and> nd_activeTaskId c = Some (ov_taskId e))) c4 = (Inr (Some Published), c3)"
    by (auto simp: flushOutbox_def bnd_run in_outbox_def split: sum.splits prod.splits)
  from drain_published [OF drain] obtain x t1 t2 where x: "x \<in> set es" "ov_deliveryId x = ov_deliveryId e" "publishEnvelope cl x t1 = (Inr Published, t2)"
    by auto
  have "\<forall>y \<in> set es. map_of (ox_pending w) (ov_deliveryId y @ ''.json'') = Some (EnvelopeText 1 y)"
    using listed_envelopes [OF list] sort filed by simp
  with x filed have "x = e" by fastforce
  with published_accepted [OF x(3)] filed show ?thesis by blast
qed

text \<open>C10: The runner of a task, and with it every effect of the agent, is not started unless the control plane has taken the acceptance of
  the lease: if it takes no \<open>host.accepted\<close> event of the lease, serving the lease comes out the same whatever the runner is.\<close>

theorem runner_needs_acceptance:
  assumes "\<And>c xs. set (oq_sort (ox_platform (nd_outbox c0)) c xs) = set xs"
    and "\<And>e m. accepted_shape l ''host.accepted'' e \<Longrightarrow> fst (rc_publish cl e m) \<noteq> Inr ()"
  shows "serve_lease cl rn node l c0 = serve_lease cl rn' node l c0"
proof -
  let ?c = "c0\<lparr>nd_activeTaskId := Some (le_taskId l), nd_leaseInvalid := False\<rparr>"
  have sort: "set (oq_sort (ox_platform (nd_outbox ?c)) k xs) = set xs" for k xs using assms(1) by simp
  have "durableEvent cl l ''host.accepted'' p True ?c \<noteq> (Inr (), c')" for p c'
    using needed_event_accepted [OF sort] assms(2) by (metis fst_conv)
  then have "run_task cl rn node l ?c = run_task cl rn' node l ?c"
    by (auto simp: run_task_def bnd_run split: prod.split sum.split)
  then show ?thesis
    by (simp add: serve_lease_def serve_task_def with_cleanup_def attempt_def bnd_run modify_def gets_def require_that_def lift_res_def guard_res_def)
qed

text \<open>A control plane that takes nothing, one that takes everything, a runner that leaves a trace, and one that does not.\<close>

definition demo_node :: "bool remote_node" where
  "demo_node = \<lparr>nd_remote = False, nd_outbox = demo_outbox, nd_activeTaskId = None, nd_leaseInvalid = False, nd_stopped = False,
     nd_pendingDeliveries = 0, nd_lastError = None\<rparr>"

definition demo_refusing :: "bool remote_client" where
  "demo_refusing = \<lparr>rc_publish = (\<lambda>e. throw (Error ''offline'')), rc_stale = (\<lambda>e. False)\<rparr>"

definition demo_accepting :: "bool remote_client" where
  "demo_accepting = \<lparr>rc_publish = (\<lambda>e. ret ()), rc_stale = (\<lambda>e. False)\<rparr>"

definition demo_tracing :: "bool remote_runner" where
  "demo_tracing = \<lparr>rn_run = (\<lambda>l evidence. bnd (modify (\<lambda>c. c\<lparr>nd_remote := True\<rparr>)) (\<lambda>_. ret (TSucceeded, JStr ''ok'')))\<rparr>"

definition demo_idle :: "bool remote_runner" where
  "demo_idle = \<lparr>rn_run = (\<lambda>l evidence. throw (RemoteTaskBlockedError ''idle''))\<rparr>"

lemma demo_served:
  "nd_remote (snd (serve_lease demo_refusing demo_idle ''n'' demo_remote_lease demo_node)) = False"
  "nd_remote (snd (serve_lease demo_accepting demo_tracing ''n'' demo_remote_lease demo_node)) = True"
  by code_simp+

theorem runner_needs_acceptance_witness:
  "serve_lease demo_refusing demo_tracing ''n'' demo_remote_lease demo_node = serve_lease demo_refusing demo_idle ''n'' demo_remote_lease demo_node \<and>
   \<not> nd_remote (snd (serve_lease demo_refusing demo_tracing ''n'' demo_remote_lease demo_node)) \<and>
   nd_remote (snd (serve_lease demo_accepting demo_tracing ''n'' demo_remote_lease demo_node))"
proof -
  have sort: "set (oq_sort (ox_platform (nd_outbox demo_node)) c xs) = set xs" for c xs by (simp add: demo_node_def demo_outbox_def)
  have "fst (rc_publish demo_refusing e m) \<noteq> Inr ()" for e m by (simp add: demo_refusing_def throw_def)
  from runner_needs_acceptance [OF sort this, where l = demo_remote_lease and rn = demo_tracing and node = "''n''" and rn' = demo_idle] demo_served show ?thesis by simp
qed

text \<open>Whatever happens while a lease is served, the node is free for the next one.\<close>

lemma node_free_again:
  assumes "le_taskId l \<noteq> []" "nd_activeTaskId c = None"
  shows "nd_activeTaskId (snd (serve_lease cl rn node l c)) = None" "\<not> nd_leaseInvalid (snd (serve_lease cl rn node l c))"
  using assms by (simp_all add: serve_lease_def with_cleanup_def bnd_run modify_def gets_def require_that_def lift_res_def guard_res_def split: prod.split)

end
