(* ===== verification/CapabilityOperations.thy ===== *)
theory CapabilityOperations
  imports DurableJson "HOL-Library.AList"
begin

text \<open>
  \<open>capability-runtime\<close>: the registry of capabilities (\<open>registry.ts\<close>), the store of operations (\<open>operation-store.ts\<close>), the
  runtime that invokes, cancels and restarts them (\<open>operation-runtime.ts\<close>), and the policy read from the environment
  (\<open>policy-port.ts\<close>).

  An invocation waits for the policy, and its handler runs beside the runtime: the two halves of an invocation and the end of a
  handler are operations of their own. Writing a file is one step and does not fail.
\<close>

section \<open>Contracts\<close>

datatype capability_status = Available | Unavailable | Degraded

fun capability_status_text :: "capability_status \<Rightarrow> string" where
  "capability_status_text Available = ''available''"
| "capability_status_text Unavailable = ''unavailable''"
| "capability_status_text Degraded = ''degraded''"

text \<open>The other fields of a capability are only passed on.\<close>

record capability_definition =
  cd_id :: string
  cd_category :: string
  cd_status :: capability_status

datatype operation_status = OQueued | ORunning | OWaitingApproval | OBlocked | OCompleted | OFailed | OCancelled | OTimedOut

record capability_context =
  cc_projectId :: "string option"
  cc_taskId :: "string option"
  cc_sessionId :: "string option"

record operation_record =
  op_operationId :: string
  op_capability :: string
  op_nodeId :: string
  op_status :: operation_status
  op_input :: json
  op_context :: "capability_context option"
  op_idempotencyKey :: string
  op_inputFingerprint :: string
  op_createdAt :: string
  op_startedAt :: "string option"
  op_completedAt :: "string option"
  op_progress :: rat
  op_result :: "json option"
  op_error :: "(string \<times> string) option"

record invoke_request =
  iq_capability :: string
  iq_input :: "json option"
  iq_context :: "capability_context option"
  iq_idempotencyKey :: string

datatype policy_decision = Allow | Deny string | RequireConfirmation

definition TERMINAL :: "operation_status list" where
  "TERMINAL = [OBlocked, OCompleted, OFailed, OCancelled, OTimedOut]"

section \<open>The world of the operations\<close>

record operations_platform =
  of_uuid :: "nat \<Rightarrow> string"
  of_clock :: "nat \<Rightarrow> string"
  of_fingerprint :: "json \<Rightarrow> capability_context option \<Rightarrow> string"  \<comment> \<open>SHA-256 of the canonical text of input and context\<close>
  of_nodeId :: string

text \<open>A file of the store: no JSON, a record without an identity, or a record.\<close>

datatype operation_file = BadOperationJson string | NoIdentity | OperationFile operation_record

text \<open>\<open>ow_jobs\<close> are the handlers that run, with the abort flag of the controller each was given; \<open>ow_active\<close> are the controllers the
  runtime still knows.\<close>

record operations_world =
  ow_platform :: operations_platform
  ow_entries :: "capability_definition list"
  ow_records :: "(string \<times> operation_record) list"
  ow_idempotency :: "((string \<times> string) \<times> string) list"
  ow_files :: "(string \<times> operation_file) list"
  ow_jobs :: "(string \<times> bool) list"
  ow_active :: "string list"
  ow_ticks :: nat

type_synonym 'a operations_eff = "(operations_world, 'a) eff"

definition operations_now :: "string operations_eff" where
  "operations_now = bnd (gets (\<lambda>w. of_clock (ow_platform w) (ow_ticks w))) (\<lambda>t.
     bnd (modify (\<lambda>w. w\<lparr>ow_ticks := Suc (ow_ticks w)\<rparr>)) (\<lambda>_. ret t))"

section \<open>The registry\<close>

definition validateCapabilityId :: "string \<Rightarrow> unit res" where
  "validateCapabilityId v = guard_res (1 \<le> length v \<and> length v \<le> 128 \<and> hd v \<in> set ''abcdefghijklmnopqrstuvwxyz0123456789'' \<and>
     list_all (\<lambda>c. c \<in> set ''abcdefghijklmnopqrstuvwxyz0123456789._-'') v) (Error (''invalid Zero3 capability id: '' @ v))"

definition register_capability :: "capability_definition \<Rightarrow> unit operations_eff" where
  "register_capability d = bnd (lift_res (validateCapabilityId (cd_id d))) (\<lambda>_.
     bnd (gets (\<lambda>w. find_key cd_id (cd_id d) (ow_entries w))) (\<lambda>known.
     bnd (require_that (known = None) (Error (''Zero3 capability is already registered: '' @ cd_id d))) (\<lambda>_.
     modify (\<lambda>w. w\<lparr>ow_entries := ow_entries w @ [d]\<rparr>))))"

definition describe_registered :: "string \<Rightarrow> capability_definition option operations_eff" where
  "describe_registered i = bnd (lift_res (validateCapabilityId i)) (\<lambda>_. gets (\<lambda>w. find_key cd_id i (ow_entries w)))"

section \<open>The store\<close>

definition persist_operation :: "operation_record \<Rightarrow> unit operations_eff" where
  "persist_operation r = modify (\<lambda>w. w\<lparr>ow_files := AList.update (op_operationId r @ ''.json'') (OperationFile r) (ow_files w)\<rparr>)"

definition create_operation :: "operation_record \<Rightarrow> operation_record operations_eff" where
  "create_operation r = (let key = (op_capability r, op_idempotencyKey r) in
     bnd (gets ow_records) (\<lambda>rs.
     bnd (require_that (map_of rs (op_operationId r) = None) (Error (''operation already exists: '' @ op_operationId r))) (\<lambda>_.
     bnd (gets ow_idempotency) (\<lambda>ks.
     bnd (require_that (map_of ks key = None) (Error ''operation idempotency key already exists'')) (\<lambda>_.
     bnd (modify (\<lambda>w. w\<lparr>ow_records := AList.update (op_operationId r) r (ow_records w),
       ow_idempotency := AList.update key (op_operationId r) (ow_idempotency w)\<rparr>)) (\<lambda>_.
     bnd (persist_operation r) (\<lambda>_. ret r)))))))"

definition get_record :: "string \<Rightarrow> operation_record option operations_eff" where
  "get_record i = gets (\<lambda>w. map_of (ow_records w) i)"

definition findByIdempotency :: "string \<Rightarrow> string \<Rightarrow> operation_record option operations_eff" where
  "findByIdempotency c k = gets (\<lambda>w. case map_of (ow_idempotency w) (c, k) of None \<Rightarrow> None
     | Some i \<Rightarrow> if i = [] then None else map_of (ow_records w) i)"

text \<open>An update of some fields, the identity excepted.\<close>

definition update_operation :: "string \<Rightarrow> (operation_record \<Rightarrow> operation_record) \<Rightarrow> operation_record operations_eff" where
  "update_operation i patch = bnd (get_record i) (\<lambda>current. case current of
     None \<Rightarrow> throw (Error (''operation not found: '' @ i))
   | Some r \<Rightarrow> let r' = (patch r)\<lparr>op_operationId := op_operationId r\<rparr> in
       bnd (modify (\<lambda>w. w\<lparr>ow_records := AList.update i r' (ow_records w)\<rparr>)) (\<lambda>_. bnd (persist_operation r') (\<lambda>_. ret r')))"

text \<open>A new process loads the files in the order of their names; what had not ended has failed.\<close>

definition restarted_record :: "string \<Rightarrow> operation_record \<Rightarrow> operation_record" where
  "restarted_record now r = r\<lparr>op_status := OFailed, op_completedAt := Some now,
     op_error := Some (''RUNTIME_RESTARTED'', ''Local Zero3 restarted before this operation completed.''), op_progress := 1\<rparr>"

definition index_record :: "operation_record \<Rightarrow> unit operations_eff" where
  "index_record r = modify (\<lambda>w. w\<lparr>ow_records := AList.update (op_operationId r) r (ow_records w),
     ow_idempotency := AList.update (op_capability r, op_idempotencyKey r) (op_operationId r) (ow_idempotency w)\<rparr>)"

definition load_file :: "string \<Rightarrow> unit operations_eff" where
  "load_file name = bnd (gets (\<lambda>w. map_of (ow_files w) name)) (\<lambda>t. case t of
     None \<Rightarrow> throw NoEntry
   | Some (BadOperationJson msg) \<Rightarrow> throw (Error msg)
   | Some NoIdentity \<Rightarrow> ret ()
   | Some (OperationFile r) \<Rightarrow> if op_operationId r = [] \<or> op_capability r = [] \<or> op_idempotencyKey r = [] then ret ()
       else if op_status r \<in> set TERMINAL then index_record r
       else bnd operations_now (\<lambda>now. let r' = restarted_record now r in
         bnd (modify (\<lambda>w. w\<lparr>ow_files := AList.update name (OperationFile r') (ow_files w)\<rparr>)) (\<lambda>_. index_record r')))"

definition json_name :: "string \<Rightarrow> bool" where
  "json_name f \<longleftrightarrow> length f \<ge> 5 \<and> drop (length f - 5) f = ''.json''"

definition restart :: "unit operations_eff" where
  "restart = bnd (modify (\<lambda>w. w\<lparr>ow_records := [], ow_idempotency := [], ow_jobs := [], ow_active := []\<rparr>)) (\<lambda>_.
     bnd (gets (\<lambda>w. sort (filter json_name (map fst (ow_files w))))) (\<lambda>names. for_each names (\<lambda>f _. load_file f) ()))"

section \<open>The runtime\<close>

definition idempotencyKey :: "string \<Rightarrow> string res" where
  "idempotencyKey v = (let k = trim v in
     if 1 \<le> length k \<and> length k \<le> 256 \<and>
       list_all (\<lambda>c. c \<in> set ''ABCDEFGHIJKLMNOPQRSTUVWXYZabcdefghijklmnopqrstuvwxyz0123456789._:-'') k then Inr k
     else Inl (Error ''idempotencyKey is required and must be a safe 1..256 character id''))"

definition find_capability :: "string \<Rightarrow> capability_definition operations_eff" where
  "find_capability c = bnd (if c = [] then ret None else describe_registered c) (\<lambda>d. case d of
     None \<Rightarrow> throw (Error (''Zero3 capability not found: '' @ (if c = [] then ''<empty>'' else c)))
   | Some x \<Rightarrow> ret x)"

record pending_invocation =
  pi_definition :: capability_definition
  pi_input :: json
  pi_context :: "capability_context option"
  pi_key :: string
  pi_fingerprint :: string

fun object_input :: "json option \<Rightarrow> json" where
  "object_input (Some (JObj fs)) = JObj fs"
| "object_input _ = JObj []"

text \<open>Up to the question to the policy: the operation that answers already, or what the policy is asked about.\<close>

definition invoke_begin :: "invoke_request \<Rightarrow> (operation_record + pending_invocation) operations_eff" where
  "invoke_begin q = (let c = trim (iq_capability q) in
     bnd (find_capability c) (\<lambda>d.
     bnd (require_that (cd_status d = Available) (Error (''Zero3 capability is '' @ capability_status_text (cd_status d) @ '': '' @ c))) (\<lambda>_.
     bnd (lift_res (idempotencyKey (iq_idempotencyKey q))) (\<lambda>k.
     bnd (gets (\<lambda>w. of_fingerprint (ow_platform w) (object_input (iq_input q)) (iq_context q))) (\<lambda>fp.
     bnd (findByIdempotency c k) (\<lambda>replay. case replay of
       Some r \<Rightarrow> bnd (require_that (op_inputFingerprint r = fp) (Error ''idempotencyKey was reused with different capability input'')) (\<lambda>_. ret (Inl r))
     | None \<Rightarrow> ret (Inr \<lparr>pi_definition = d, pi_input = object_input (iq_input q), pi_context = iq_context q, pi_key = k, pi_fingerprint = fp\<rparr>)))))))"

fun decided_status :: "policy_decision \<Rightarrow> operation_status" where
  "decided_status Allow = OQueued"
| "decided_status RequireConfirmation = OWaitingApproval"
| "decided_status (Deny reason) = OBlocked"

fun denial :: "policy_decision \<Rightarrow> (string \<times> string) option" where
  "denial (Deny reason) = Some (''POLICY_DENIED'', reason)"
| "denial _ = None"

definition new_operation :: "pending_invocation \<Rightarrow> policy_decision \<Rightarrow> operation_record operations_eff" where
  "new_operation p d = bnd operations_now (\<lambda>now. gets (\<lambda>w.
     \<lparr>op_operationId = ''op-'' @ of_uuid (ow_platform w) (ow_ticks w), op_capability = cd_id (pi_definition p), op_nodeId = of_nodeId (ow_platform w),
      op_status = decided_status d, op_input = pi_input p, op_context = pi_context p, op_idempotencyKey = pi_key p,
      op_inputFingerprint = pi_fingerprint p, op_createdAt = now, op_startedAt = None,
      op_completedAt = (if denial d = None then None else Some now), op_progress = (if denial d = None then 0 else 1), op_result = None,
      op_error = denial d\<rparr>))"

text \<open>After the decision: the operation is made and, if it may run, its handler is started.\<close>

definition invoke_finish :: "pending_invocation \<Rightarrow> policy_decision \<Rightarrow> operation_record operations_eff" where
  "invoke_finish p d = bnd (new_operation p d) (\<lambda>base. bnd (create_operation base) (\<lambda>created.
     if d \<noteq> Allow then ret created
     else bnd (modify (\<lambda>w. w\<lparr>ow_active := op_operationId created # removeAll (op_operationId created) (ow_active w)\<rparr>)) (\<lambda>_.
       bnd operations_now (\<lambda>now.
       bnd (update_operation (op_operationId created) (\<lambda>r. r\<lparr>op_status := ORunning, op_startedAt := Some now, op_progress := 0\<rparr>)) (\<lambda>running.
       bnd (modify (\<lambda>w. w\<lparr>ow_jobs := AList.update (op_operationId created) False (ow_jobs w)\<rparr>)) (\<lambda>_. ret running))))))"

datatype handler_outcome = HandlerReturned json | HandlerThrew string bool bool  \<comment> \<open>message, an abort, a timeout\<close>

text \<open>The end of a handler.\<close>

definition ended_record :: "bool \<Rightarrow> handler_outcome \<Rightarrow> string \<Rightarrow> operation_record \<Rightarrow> operation_record" where
  "ended_record aborted out now r = (case out of
     HandlerReturned v \<Rightarrow> r\<lparr>op_status := OCompleted, op_completedAt := Some now, op_progress := 1, op_result := Some v, op_error := None\<rparr>
   | HandlerThrew msg abort timedOut \<Rightarrow> let stop = aborted \<or> abort in
       r\<lparr>op_status := (if stop then OCancelled else if timedOut then OTimedOut else OFailed), op_completedAt := Some now, op_progress := 1,
         op_error := Some (if stop then ''CANCELLED'' else if timedOut then ''TIMEOUT'' else ''EXECUTION_FAILED'', msg)\<rparr>)"

definition handler_end :: "string \<Rightarrow> handler_outcome \<Rightarrow> unit operations_eff" where
  "handler_end i out = bnd (gets (\<lambda>w. map_of (ow_jobs w) i)) (\<lambda>job. case job of
     None \<Rightarrow> ret ()
   | Some aborted \<Rightarrow> bnd (get_record i) (\<lambda>current.
       bnd (case current of None \<Rightarrow> ret ()
         | Some r \<Rightarrow> if op_status r = OCancelled then ret ()
             else bnd operations_now (\<lambda>now. bnd (update_operation i (ended_record aborted out now)) (\<lambda>_. ret ()))) (\<lambda>_.
       modify (\<lambda>w. w\<lparr>ow_active := removeAll i (ow_active w), ow_jobs := AList.delete i (ow_jobs w)\<rparr>))))"

definition getOperation :: "string \<Rightarrow> operation_record operations_eff" where
  "getOperation v = (let i = trim v in bnd (if i = [] then ret None else get_record i) (\<lambda>r. case r of
     None \<Rightarrow> throw (Error (''Zero3 operation not found: '' @ (if i = [] then ''<empty>'' else i))) | Some x \<Rightarrow> ret x))"

definition abort_job :: "string \<Rightarrow> (string \<times> bool) list \<Rightarrow> (string \<times> bool) list" where
  "abort_job i = map (\<lambda>(j, aborted). (j, aborted \<or> j = i))"

definition cancelOperation :: "string \<Rightarrow> operation_record operations_eff" where
  "cancelOperation v = bnd (getOperation v) (\<lambda>r.
     if op_status r \<in> set TERMINAL then ret r
     else bnd (modify (\<lambda>w. if op_operationId r \<in> set (ow_active w) then w\<lparr>ow_jobs := abort_job (op_operationId r) (ow_jobs w)\<rparr> else w)) (\<lambda>_.
       bnd operations_now (\<lambda>now. update_operation (op_operationId r) (\<lambda>x. x\<lparr>op_status := OCancelled, op_completedAt := Some now, op_progress := 1,
         op_error := Some (''CANCELLED'', ''Operation cancelled by Zero3 remote caller.'')\<rparr>))))"

definition close_operations :: "unit operations_eff" where
  "close_operations = modify (\<lambda>w. w\<lparr>ow_jobs := map (\<lambda>(j, aborted). (j, aborted \<or> j \<in> set (ow_active w))) (ow_jobs w), ow_active := []\<rparr>)"

section \<open>The policy of the environment\<close>

record path_platform =
  pp_resolvePath :: "string \<Rightarrow> string"
  pp_relative :: "string \<Rightarrow> string \<Rightarrow> string"
  pp_absolute :: "string \<Rightarrow> bool"
  pp_rootKey :: "string \<Rightarrow> string"  \<comment> \<open>lower case on Windows\<close>

text \<open>The roots are read from three variables of the environment; of two that are one directory, the first has the place and the last the text.\<close>

fun set_root :: "string \<Rightarrow> string \<Rightarrow> (string \<times> string) list \<Rightarrow> (string \<times> string) list" where
  "set_root k v [] = [(k, v)]"
| "set_root k v ((k', v') # rs) = (if k' = k then (k, v) # rs else (k', v') # set_root k v rs)"

definition parseRoots :: "path_platform \<Rightarrow> string option list \<Rightarrow> string list" where
  "parseRoots pf vars = (let raw = js_join '';'' (concat (map (\<lambda>v. case v of None \<Rightarrow> [] | Some s \<Rightarrow> if s = [] then [] else [s]) vars));
     items = filter (\<lambda>s. s \<noteq> []) (map trim (split_on CHR '';'' raw)) in
     map snd (fold (\<lambda>i rs. let r = pp_resolvePath pf i in set_root (pp_rootKey pf r) r rs) items []))"

definition inside :: "path_platform \<Rightarrow> string \<Rightarrow> string \<Rightarrow> bool" where
  "inside pf base candidate = (let r = pp_relative pf base candidate in r = [] \<or> (take 2 r \<noteq> ''..'' \<and> \<not> pp_absolute pf r))"

text \<open>\<open>cwd\<close> is the text of the input, if it is one; \<open>fallback\<close> is the resolved working directory of the process.\<close>

definition authorize :: "path_platform \<Rightarrow> string \<Rightarrow> string list \<Rightarrow> string \<Rightarrow> string \<Rightarrow> string option \<Rightarrow> policy_decision" where
  "authorize pf mode allowedRoots fallback capability cwd =
     (if capability = ''system.status'' then Allow
      else if mode = ''disabled'' \<or> mode = ''read_only'' then Deny (''capability policy mode '' @ mode @ '' does not permit execution'')
      else if mode = ''full_control'' then Allow
      else if capability = ''shell.powershell.execute''
      then (let requested = (case cwd of None \<Rightarrow> fallback | Some d \<Rightarrow> if trim d = [] then fallback else pp_resolvePath pf (trim d)) in
        if \<not> list_ex (\<lambda>base. inside pf base requested) allowedRoots then Deny ''cwd is outside locally allow-listed Zero3 roots''
        else RequireConfirmation)
      else Deny (''capability '' @ capability @ '' has no local policy rule''))"

end
