(* ===== verification/CapabilityOperationsCorrectness.thy ===== *)
theory CapabilityOperationsCorrectness
  imports CapabilityOperations OperationRules
begin

text \<open>
  The properties of the operations of the capability runtime: an operation that has ended never changes again, no two operations
  share an idempotency key, and the policy of the environment.
\<close>

section \<open>The invariant\<close>

definition operation_filed :: "operations_world \<Rightarrow> string \<Rightarrow> operation_record \<Rightarrow> bool" where
  "operation_filed w i r \<longleftrightarrow> op_operationId r = i \<and> i \<noteq> [] \<and> op_capability r \<noteq> [] \<and> op_idempotencyKey r \<noteq> [] \<and>
     map_of (ow_files w) (i @ ''.json'') = Some (OperationFile r) \<and> map_of (ow_idempotency w) (op_capability r, op_idempotencyKey r) = Some i"

definition operations_ok :: "operations_world \<Rightarrow> bool" where
  "operations_ok w \<longleftrightarrow> (\<forall>i r. map_of (ow_records w) i = Some r \<longrightarrow> operation_filed w i r) \<and>
     (\<forall>f t. map_of (ow_files w) f = Some t \<longrightarrow> (\<exists>i r. f = i @ ''.json'' \<and> map_of (ow_records w) i = Some r)) \<and>
     (\<forall>i a. map_of (ow_jobs w) i = Some a \<longrightarrow> (\<exists>r. map_of (ow_records w) i = Some r \<and> op_status r \<in> {ORunning, OCancelled})) \<and>
     (\<forall>k i. map_of (ow_idempotency w) k = Some i \<longrightarrow> (\<exists>r. map_of (ow_records w) i = Some r \<and> k = (op_capability r, op_idempotencyKey r)))"

text \<open>An operation that has ended stays what it is.\<close>

definition ended_stay :: "operations_world \<Rightarrow> operations_world \<Rightarrow> bool" where
  "ended_stay w w' \<longleftrightarrow> (\<forall>i r. map_of (ow_records w) i = Some r \<and> op_status r \<in> set TERMINAL \<longrightarrow> map_of (ow_records w') i = Some r)"

definition lawful_step :: "operations_world \<Rightarrow> operations_world \<Rightarrow> bool" where
  "lawful_step w w' \<longleftrightarrow> operations_ok w' \<and> ended_stay w w'"

lemma same_operations:
  assumes ok: "operations_ok w" and same: "ow_records w' = ow_records w" "ow_files w' = ow_files w" "ow_idempotency w' = ow_idempotency w"
    and jobs: "\<And>i a. map_of (ow_jobs w') i = Some a \<Longrightarrow> \<exists>b. map_of (ow_jobs w) i = Some b"
  shows "lawful_step w w'"
proof -
  have "\<exists>r. map_of (ow_records w) i = Some r \<and> op_status r \<in> {ORunning, OCancelled}" if job: "map_of (ow_jobs w') i = Some a" for i a
  proof -
    obtain b where "map_of (ow_jobs w) i = Some b" using jobs [OF job] by blast
    then show ?thesis using ok unfolding operations_ok_def by blast
  qed
  then have "operations_ok w'" using ok unfolding operations_ok_def operation_filed_def same by blast
  then show ?thesis by (simp add: lawful_step_def ended_stay_def same)
qed

text \<open>A patch that keeps what an operation is filed under.\<close>

definition keeps_identity :: "(operation_record \<Rightarrow> operation_record) \<Rightarrow> bool" where
  "keeps_identity patch \<longleftrightarrow> (\<forall>r. op_operationId (patch r) = op_operationId r \<and> op_capability (patch r) = op_capability r \<and>
     op_idempotencyKey (patch r) = op_idempotencyKey r)"

definition put_operation :: "operation_record \<Rightarrow> operations_world \<Rightarrow> operations_world" where
  "put_operation r w = w\<lparr>ow_records := AList.update (op_operationId r) r (ow_records w),
     ow_files := AList.update (op_operationId r @ ''.json'') (OperationFile r) (ow_files w)\<rparr>"

lemma put_operation_simps [simp]:
  "map_of (ow_records (put_operation r w)) = (map_of (ow_records w))(op_operationId r \<mapsto> r)"
  "map_of (ow_files (put_operation r w)) = (map_of (ow_files w))(op_operationId r @ ''.json'' \<mapsto> OperationFile r)"
  "ow_idempotency (put_operation r w) = ow_idempotency w" "ow_jobs (put_operation r w) = ow_jobs w"
  "ow_platform (put_operation r w) = ow_platform w" "ow_ticks (put_operation r w) = ow_ticks w"
  by (simp_all add: put_operation_def update_conv')

lemma update_operation_run:
  assumes "operations_ok w" "map_of (ow_records w) i = Some r" "keeps_identity patch"
  shows "update_operation i patch w = (Inr (patch r), put_operation (patch r) w)"
proof -
  have i: "op_operationId r = i" "op_operationId (patch r) = i"
    using assms by (auto simp: operations_ok_def operation_filed_def keeps_identity_def)
  then have same: "(patch r)\<lparr>op_operationId := i\<rparr> = patch r" by (cases "patch r") simp
  show ?thesis using assms(2) by (simp add: update_operation_def bnd_run get_record_def eff_defs Let_def persist_operation_def put_operation_def i same)
qed

lemma put_ok:
  assumes ok: "operations_ok w" and r: "map_of (ow_records w) i = Some r" "op_status r \<notin> set TERMINAL" and patch: "keeps_identity patch"
    and job: "map_of (ow_jobs w) i = None \<or> op_status (patch r) \<in> {ORunning, OCancelled}"
  shows "lawful_step w (put_operation (patch r) w)"
proof -
  have i: "op_operationId r = i" and filed: "operation_filed w i r" using ok r(1) by (auto simp: operations_ok_def operation_filed_def)
  have id: "op_operationId (patch r) = i" "op_capability (patch r) = op_capability r" "op_idempotencyKey (patch r) = op_idempotencyKey r"
    using patch i by (simp_all add: keeps_identity_def)
  have "operations_ok (put_operation (patch r) w)" unfolding operations_ok_def
  proof (intro conjI allI impI)
    show "operation_filed (put_operation (patch r) w) j q" if "map_of (ow_records (put_operation (patch r) w)) j = Some q" for j q
      using that ok filed by (auto simp: operations_ok_def operation_filed_def id split: if_splits)
    show "\<exists>j q. f = j @ ''.json'' \<and> map_of (ow_records (put_operation (patch r) w)) j = Some q"
      if "map_of (ow_files (put_operation (patch r) w)) f = Some t" for f t
    proof (cases "f = i @ ''.json''")
      case False
      with that id have "map_of (ow_files w) f = Some t" by simp
      with ok obtain j q where "f = j @ ''.json''" "map_of (ow_records w) j = Some q" unfolding operations_ok_def by blast
      then show ?thesis using id by (cases "j = i") auto
    qed (use id in auto)
    show "\<exists>q. map_of (ow_records (put_operation (patch r) w)) j = Some q \<and> op_status q \<in> {ORunning, OCancelled}"
      if "map_of (ow_jobs (put_operation (patch r) w)) j = Some a" for j a
      using that job ok id by (cases "j = i") (auto simp: operations_ok_def)
    show "\<exists>q. map_of (ow_records (put_operation (patch r) w)) j = Some q \<and> k = (op_capability q, op_idempotencyKey q)"
      if "map_of (ow_idempotency (put_operation (patch r) w)) k = Some j" for k j
    proof -
      have "map_of (ow_idempotency w) k = Some j" using that by simp
      with ok obtain q where "map_of (ow_records w) j = Some q" "k = (op_capability q, op_idempotencyKey q)" unfolding operations_ok_def by blast
      then show ?thesis using r(1) id by (cases "j = i") auto
    qed
  qed
  moreover have "ended_stay w (put_operation (patch r) w)" using r id by (auto simp: ended_stay_def)
  ultimately show ?thesis by (simp add: lawful_step_def)
qed


section \<open>The operations\<close>

lemma lawful_trans: "lawful_step u v \<Longrightarrow> lawful_step v w \<Longrightarrow> lawful_step u w"
  by (simp add: lawful_step_def ended_stay_def)

lemma lawful_ok: "lawful_step v w \<Longrightarrow> operations_ok w"
  by (simp add: lawful_step_def)

lemma operations_now_run: "operations_now w = (Inr (of_clock (ow_platform w) (ow_ticks w)), w\<lparr>ow_ticks := Suc (ow_ticks w)\<rparr>)"
  by (simp add: operations_now_def bnd_run eff_defs)

lemma create_ok:
  assumes ok: "operations_ok w" and r: "op_operationId r \<noteq> []" "op_capability r \<noteq> []" "op_idempotencyKey r \<noteq> []"
    and run: "create_operation r w = (Inr r', w')"
  shows "lawful_step w w'" "r' = r" "map_of (ow_records w') (op_operationId r) = Some r"
    "map_of (ow_records w) (op_operationId r) = None" "ow_jobs w' = ow_jobs w"
proof -
  have new: "map_of (ow_records w) (op_operationId r) = None" "map_of (ow_idempotency w) (op_capability r, op_idempotencyKey r) = None"
    and w': "w' = (put_operation r w)\<lparr>ow_idempotency := AList.update (op_capability r, op_idempotencyKey r) (op_operationId r) (ow_idempotency w)\<rparr>"
    and r': "r' = r"
    using run by (auto simp: create_operation_def Let_def bnd_run eff_defs require_that_def lift_res_def guard_res_def persist_operation_def
        put_operation_def split: if_splits)
  have "operations_ok w'" unfolding operations_ok_def
  proof (intro conjI allI impI)
    show "operation_filed w' j q" if q: "map_of (ow_records w') j = Some q" for j q
    proof (cases "j = op_operationId r")
      case True
      with q r show ?thesis by (simp add: w' operation_filed_def update_conv')
    next
      case False
      with q ok have "operation_filed w j q" by (simp add: w' operations_ok_def)
      with False new show ?thesis by (auto simp: w' operation_filed_def update_conv')
    qed
    show "\<exists>j q. f = j @ ''.json'' \<and> map_of (ow_records w') j = Some q" if f: "map_of (ow_files w') f = Some t" for f t
    proof (cases "f = op_operationId r @ ''.json''")
      case True
      then show ?thesis by (auto simp: w')
    next
      case False
      with f have "map_of (ow_files w) f = Some t" by (simp add: w')
      with ok obtain j q where "f = j @ ''.json''" "map_of (ow_records w) j = Some q" unfolding operations_ok_def by blast
      then show ?thesis by (cases "j = op_operationId r") (auto simp: w')
    qed
    show "\<exists>q. map_of (ow_records w') j = Some q \<and> op_status q \<in> {ORunning, OCancelled}" if "map_of (ow_jobs w') j = Some a" for j a
    proof -
      have "map_of (ow_jobs w) j = Some a" using that by (simp add: w')
      with ok obtain q where "map_of (ow_records w) j = Some q" "op_status q \<in> {ORunning, OCancelled}" unfolding operations_ok_def by blast
      then show ?thesis using new by (cases "j = op_operationId r") (auto simp: w')
    qed
    show "\<exists>q. map_of (ow_records w') j = Some q \<and> k = (op_capability q, op_idempotencyKey q)" if k: "map_of (ow_idempotency w') k = Some j" for k j
    proof (cases "k = (op_capability r, op_idempotencyKey r)")
      case True
      then show ?thesis using k by (auto simp: w' update_conv')
    next
      case False
      with k have "map_of (ow_idempotency w) k = Some j" by (simp add: w' update_conv')
      with ok obtain q where "map_of (ow_records w) j = Some q" "k = (op_capability q, op_idempotencyKey q)" unfolding operations_ok_def by blast
      then show ?thesis using new by (cases "j = op_operationId r") (auto simp: w')
    qed
  qed
  moreover have "ended_stay w w'" using new by (auto simp: ended_stay_def w')
  ultimately show "lawful_step w w'" "r' = r" "map_of (ow_records w') (op_operationId r) = Some r"
    "map_of (ow_records w) (op_operationId r) = None" "ow_jobs w' = ow_jobs w"
    using new r' by (simp_all add: lawful_step_def w')
qed

lemma create_fails: "create_operation r w = (Inl e, w') \<Longrightarrow> w' = w"
  by (auto simp: create_operation_def Let_def bnd_run eff_defs require_that_def lift_res_def guard_res_def persist_operation_def split: if_splits)


text \<open>An invocation that may be finished is one some caller has begun.\<close>

definition begun :: "pending_invocation \<Rightarrow> bool" where
  "begun p \<longleftrightarrow> (\<exists>q w w'. invoke_begin q w = (Inr (Inr p), w'))"

lemma find_capability_named: "find_capability c w = (Inr d, w') \<Longrightarrow> w' = w \<and> c \<noteq> [] \<and> cd_id d = c"
  by (auto simp: find_capability_def describe_registered_def bnd_run eff_defs lift_res_def find_key_def find_Some_iff
      split: if_splits option.splits sum.splits)

lemma idempotencyKey_named: "idempotencyKey v = Inr k \<Longrightarrow> k \<noteq> []"
  by (auto simp: idempotencyKey_def Let_def split: if_splits)

lemma begun_named:
  assumes "begun p"
  shows "cd_id (pi_definition p) \<noteq> [] \<and> pi_key p \<noteq> []"
proof -
  obtain q w w' where run: "invoke_begin q w = (Inr (Inr p), w')" using assms by (auto simp: begun_def)
  then obtain d v where d: "find_capability (trim (iq_capability q)) w = (Inr d, v)"
    by (auto simp: invoke_begin_def Let_def bnd_run split: sum.splits prod.splits)
  with run obtain k where "idempotencyKey (iq_idempotencyKey q) = Inr k" "pi_definition p = d" "pi_key p = k"
    by (auto simp: invoke_begin_def Let_def bnd_run eff_defs lift_res_def require_that_def guard_res_def findByIdempotency_def
        split: sum.splits if_splits option.splits)
  then show ?thesis using find_capability_named [OF d] idempotencyKey_named by auto
qed

lemma put_adds_job:
  assumes "operations_ok w" "map_of (ow_records w) i = Some r" "op_status r \<in> {ORunning, OCancelled}"
  shows "lawful_step w (w\<lparr>ow_jobs := AList.update i a (ow_jobs w)\<rparr>)"
  using assms unfolding lawful_step_def ended_stay_def operations_ok_def operation_filed_def
  by (auto simp: update_conv')

lemma invocation_finish_ok:
  assumes ok: "operations_ok w" and p: "begun p"
  shows "lawful_step w (snd (invoke_finish p d w))"
proof -
  obtain b v where base: "new_operation p d w = (Inr b, v)" and v: "lawful_step w v" and b: "op_operationId b \<noteq> []" "op_capability b \<noteq> []"
    "op_idempotencyKey b \<noteq> []" "d = Allow \<Longrightarrow> op_status b = OQueued"
    using begun_named [OF p] same_operations [OF ok, of "w\<lparr>ow_ticks := Suc (ow_ticks w)\<rparr>"]
    by (auto simp: new_operation_def bnd_run operations_now_run eff_defs)
  show ?thesis
  proof (cases "create_operation b v")
    case (Pair res u)
    show ?thesis
    proof (cases res)
      case (Inl e)
      then show ?thesis using create_fails [of b v e u] Pair v by (simp add: invoke_finish_def bnd_run base)
    next
      case (Inr c)
      note made = create_ok [OF lawful_ok [OF v] b(1-3) Pair [unfolded Inr]]
      show ?thesis
      proof (cases "d = Allow")
        case True
        let ?x = "u\<lparr>ow_active := op_operationId b # removeAll (op_operationId b) (ow_active u), ow_ticks := Suc (ow_ticks u)\<rparr>"
        let ?run = "\<lambda>r. r\<lparr>op_status := ORunning, op_startedAt := Some (of_clock (ow_platform u) (ow_ticks u)), op_progress := 0\<rparr>"
        have x: "lawful_step u ?x" by (rule same_operations [OF lawful_ok [OF made(1)]]) simp_all
        have rec: "map_of (ow_records ?x) (op_operationId b) = Some b" using made(3) by simp
        have keeps: "keeps_identity ?run" by (simp add: keeps_identity_def)
        have put: "lawful_step ?x (put_operation (?run b) ?x)"
          by (rule put_ok [OF lawful_ok [OF x] rec _ keeps]) (simp_all add: b(4) [OF True] TERMINAL_def)
        have job: "lawful_step (put_operation (?run b) ?x)
            ((put_operation (?run b) ?x)\<lparr>ow_jobs := AList.update (op_operationId b) False (ow_jobs (put_operation (?run b) ?x))\<rparr>)"
          by (rule put_adds_job [OF lawful_ok [OF put], where r = "?run b"]) simp_all
        have "snd (invoke_finish p d w) = (put_operation (?run b) ?x)\<lparr>ow_jobs := AList.update (op_operationId b) False (ow_jobs (put_operation (?run b) ?x))\<rparr>"
          using update_operation_run [OF lawful_ok [OF x] rec keeps] made(2)
          by (simp add: invoke_finish_def bnd_run base [unfolded True] True Pair Inr eff_defs operations_now_run)
        then show ?thesis using lawful_trans [OF v lawful_trans [OF made(1) lawful_trans [OF x lawful_trans [OF put job]]]] by simp
      next
        case False
        then show ?thesis using lawful_trans [OF v made(1)] by (simp add: invoke_finish_def bnd_run base Pair Inr eff_defs)
      qed
    qed
  qed
qed

text \<open>A handler of an operation that is being cancelled changes nothing; any other ends its operation.\<close>

lemma handler_end_ok:
  assumes ok: "operations_ok w"
  shows "lawful_step w (snd (handler_end i out w))"
proof (cases "map_of (ow_jobs w) i")
  case None
  then show ?thesis using same_operations [OF ok, of w] by (simp add: handler_end_def bnd_run eff_defs)
next
  case (Some a)
  then obtain r where r: "map_of (ow_records w) i = Some r" "op_status r \<in> {ORunning, OCancelled}" using ok unfolding operations_ok_def by blast
  let ?v = "w\<lparr>ow_active := removeAll i (ow_active w), ow_jobs := AList.delete i (ow_jobs w)\<rparr>"
  have v: "lawful_step w ?v" by (rule same_operations [OF ok]) (auto simp: delete_conv' split: if_splits)
  show ?thesis
  proof (cases "op_status r = OCancelled")
    case True
    then show ?thesis using v Some r by (simp add: handler_end_def bnd_run eff_defs get_record_def)
  next
    case False
    let ?x = "?v\<lparr>ow_ticks := Suc (ow_ticks w)\<rparr>" and ?ended = "ended_record a out (of_clock (ow_platform w) (ow_ticks w))"
    have x: "lawful_step w ?x" by (rule same_operations [OF ok]) (auto simp: delete_conv' split: if_splits)
    have tick: "operations_ok (w\<lparr>ow_ticks := Suc (ow_ticks w)\<rparr>)" by (rule lawful_ok [OF same_operations [OF ok]]) simp_all
    have keeps: "keeps_identity ?ended" by (auto simp: keeps_identity_def ended_record_def Let_def split: handler_outcome.splits)
    have put: "lawful_step ?x (put_operation (?ended r) ?x)"
      by (rule put_ok [OF lawful_ok [OF x] _ _ keeps, where i = i]) (use r False in \<open>auto simp: TERMINAL_def delete_conv'\<close>)
    have rec: "map_of (ow_records (w\<lparr>ow_ticks := Suc (ow_ticks w)\<rparr>)) i = Some r" using r by simp
    have "snd (handler_end i out w) = put_operation (?ended r) ?x"
      using update_operation_run [OF tick rec keeps] Some r False
      by (simp add: handler_end_def bnd_run eff_defs get_record_def operations_now_run put_operation_def)
    then show ?thesis using lawful_trans [OF x put] by simp
  qed
qed

lemma abort_job_known: "map_of (map (\<lambda>(j, a). (j, f j a)) js) i = map_option (f i) (map_of js i)"
  by (induction js) auto

lemma cancel_ok:
  assumes ok: "operations_ok w"
  shows "lawful_step w (snd (cancelOperation v w))"
proof (cases "getOperation v w")
  case (Pair res u)
  have u: "u = w" and found: "res = Inr r \<Longrightarrow> map_of (ow_records w) (trim v) = Some r" for r
    using Pair by (auto simp: getOperation_def Let_def bnd_run eff_defs get_record_def split: if_splits option.splits)
  note same = same_operations [OF ok, of w]
  show ?thesis
  proof (cases res)
    case (Inl e)
    then show ?thesis using same Pair u by (simp add: cancelOperation_def bnd_run)
  next
    case (Inr r)
    then have r: "map_of (ow_records w) (trim v) = Some r" by (rule found)
    then have i: "op_operationId r = trim v" using ok by (auto simp: operations_ok_def operation_filed_def)
    show ?thesis
    proof (cases "op_status r \<in> set TERMINAL")
      case True
      then show ?thesis using same Pair Inr u by (simp add: cancelOperation_def bnd_run eff_defs)
    next
      case False
      let ?jobs = "if trim v \<in> set (ow_active w) then abort_job (trim v) (ow_jobs w) else ow_jobs w"
      let ?x = "w\<lparr>ow_jobs := ?jobs, ow_ticks := Suc (ow_ticks w)\<rparr>"
      let ?cancel = "\<lambda>x. x\<lparr>op_status := OCancelled, op_completedAt := Some (of_clock (ow_platform w) (ow_ticks w)), op_progress := 1,
        op_error := Some (''CANCELLED'', ''Operation cancelled by Zero3 remote caller.'')\<rparr>"
      have x: "lawful_step w ?x"
        by (rule same_operations [OF ok]) (auto simp: abort_job_def abort_job_known split: if_splits)
      have rec: "map_of (ow_records ?x) (trim v) = Some r" using r by simp
      have keeps: "keeps_identity ?cancel" by (simp add: keeps_identity_def)
      have put: "lawful_step ?x (put_operation (?cancel r) ?x)" by (rule put_ok [OF lawful_ok [OF x] rec False keeps]) simp
      have "snd (cancelOperation v w) = put_operation (?cancel r) ?x"
        using update_operation_run [OF lawful_ok [OF x] rec keeps] Pair Inr u False i
        by (auto simp: cancelOperation_def bnd_run eff_defs operations_now_run)
      then show ?thesis using lawful_trans [OF x put] by simp
    qed
  qed
qed

lemma close_ok: "operations_ok w \<Longrightarrow> lawful_step w (snd (close_operations w))"
  unfolding close_operations_def by (rule same_operations) (auto simp: eff_defs abort_job_known)

lemma register_ok:
  assumes "operations_ok w"
  shows "lawful_step w (snd (register_capability d w))"
proof -
  have "ow_records (snd (register_capability d w)) = ow_records w \<and> ow_files (snd (register_capability d w)) = ow_files w \<and>
    ow_idempotency (snd (register_capability d w)) = ow_idempotency w \<and> ow_jobs (snd (register_capability d w)) = ow_jobs w"
    by (auto simp: register_capability_def bnd_run lift_res_def eff_defs require_that_def guard_res_def split: sum.splits)
  then show ?thesis by (intro same_operations [OF assms]) auto
qed


section \<open>The restart\<close>

text \<open>Loading one by one, from the state \<open>w0\<close> of the old process: \<open>D\<close> are the files that have been read.\<close>

definition reloaded :: "operation_record \<Rightarrow> operation_record \<Rightarrow> bool" where
  "reloaded r r' \<longleftrightarrow> op_operationId r' = op_operationId r \<and> op_capability r' = op_capability r \<and> op_idempotencyKey r' = op_idempotencyKey r \<and>
     (op_status r \<in> set TERMINAL \<longrightarrow> r' = r)"

definition restored :: "operations_world \<Rightarrow> string set \<Rightarrow> operations_world \<Rightarrow> bool" where
  "restored w0 D w \<longleftrightarrow> ow_jobs w = [] \<and> dom (map_of (ow_files w)) = dom (map_of (ow_files w0)) \<and>
     (\<forall>i r. map_of (ow_records w0) i = Some r \<longrightarrow> (\<exists>r'. map_of (ow_files w) (i @ ''.json'') = Some (OperationFile r') \<and> reloaded r r' \<and>
        map_of (ow_records w) i \<in> {None, Some r'} \<and> (i @ ''.json'' \<in> D \<longrightarrow> map_of (ow_records w) i = Some r'))) \<and>
     (\<forall>i. map_of (ow_records w0) i = None \<longrightarrow> map_of (ow_records w) i = None) \<and>
     (\<forall>k i. map_of (ow_idempotency w) k = Some i \<longleftrightarrow> (\<exists>r. map_of (ow_records w) i = Some r \<and> k = (op_capability r, op_idempotencyKey r)))"

definition read_file :: "string \<Rightarrow> operation_record \<Rightarrow> operations_world \<Rightarrow> operations_world" where
  "read_file f r w = w\<lparr>ow_files := AList.update f (OperationFile r) (ow_files w), ow_records := AList.update (op_operationId r) r (ow_records w),
     ow_idempotency := AList.update (op_capability r, op_idempotencyKey r) (op_operationId r) (ow_idempotency w)\<rparr>"

lemma load_file_run:
  assumes "map_of (ow_files w) f = Some (OperationFile r)" "op_operationId r \<noteq> []" "op_capability r \<noteq> []" "op_idempotencyKey r \<noteq> []"
  obtains r' v where "load_file f w = (Inr (), v)" "reloaded r r'"
    "map_of (ow_files v) = (map_of (ow_files w))(f \<mapsto> OperationFile r')" "ow_jobs v = ow_jobs w"
    "map_of (ow_records v) = (map_of (ow_records w))(op_operationId r \<mapsto> r')"
    "map_of (ow_idempotency v) = (map_of (ow_idempotency w))((op_capability r, op_idempotencyKey r) \<mapsto> op_operationId r)"
proof (cases "op_status r \<in> set TERMINAL")
  case True
  show ?thesis
    by (rule that [of "snd (index_record r w)" r])
      (use assms True in \<open>auto simp: load_file_def bnd_run eff_defs index_record_def reloaded_def update_conv'\<close>)
next
  case False
  let ?r = "restarted_record (of_clock (ow_platform w) (ow_ticks w)) r"
  show ?thesis
    by (rule that [of "snd (load_file f w)" ?r])
      (use assms False in \<open>simp_all add: load_file_def bnd_run eff_defs index_record_def reloaded_def update_conv' operations_now_run
         restarted_record_def Let_def\<close>)
qed

lemma restored_step:
  assumes ok: "operations_ok w0" and w: "restored w0 D w" and r0: "map_of (ow_records w0) i = Some r0"
  shows "\<exists>v. load_file (i @ ''.json'') w = (Inr (), v) \<and> restored w0 (insert (i @ ''.json'') D) v"
proof -
  have filed0: "operation_filed w0 j r" if "map_of (ow_records w0) j = Some r" for j r using ok that unfolding operations_ok_def by blast
  obtain r where r: "map_of (ow_files w) (i @ ''.json'') = Some (OperationFile r)" "reloaded r0 r" "map_of (ow_records w) i \<in> {None, Some r}"
    using w r0 unfolding restored_def by blast
  have named: "op_operationId r = i" "op_operationId r \<noteq> []" "op_capability r \<noteq> []" "op_idempotencyKey r \<noteq> []"
    using filed0 [OF r0] r(2) by (auto simp: operation_filed_def reloaded_def)
  obtain r' v where v: "load_file (i @ ''.json'') w = (Inr (), v)" "reloaded r r'"
    "map_of (ow_files v) = (map_of (ow_files w))(i @ ''.json'' \<mapsto> OperationFile r')" "ow_jobs v = ow_jobs w"
    "map_of (ow_records v) = (map_of (ow_records w))(op_operationId r \<mapsto> r')"
    "map_of (ow_idempotency v) = (map_of (ow_idempotency w))((op_capability r, op_idempotencyKey r) \<mapsto> op_operationId r)"
    using load_file_run [OF r(1) named(2-4)] by blast
  have kept: "reloaded r0 r'" using r(2) v(2) by (auto simp: reloaded_def)
  have key: "op_capability r' = op_capability r" "op_idempotencyKey r' = op_idempotencyKey r" "op_capability r = op_capability r0"
      "op_idempotencyKey r = op_idempotencyKey r0" using v(2) r(2) by (auto simp: reloaded_def)
  have same_key: "j = i" if j: "map_of (ow_records w) j = Some q" "op_capability q = op_capability r" "op_idempotencyKey q = op_idempotencyKey r" for j q
  proof -
    obtain q0 where q0: "map_of (ow_records w0) j = Some q0" using w j(1) unfolding restored_def by (metis option.exhaust option.distinct(1))
    then have "reloaded q0 q" using w j(1) unfolding restored_def by fastforce
    then have "op_capability q0 = op_capability r0" "op_idempotencyKey q0 = op_idempotencyKey r0" using j key by (auto simp: reloaded_def)
    then show ?thesis using filed0 [OF q0] filed0 [OF r0] by (simp add: operation_filed_def)
  qed
  have "restored w0 (insert (i @ ''.json'') D) v" unfolding restored_def
  proof (intro conjI allI impI)
    show "ow_jobs v = []" using w v(4) by (simp add: restored_def)
    show "dom (map_of (ow_files v)) = dom (map_of (ow_files w0))" using w r(1) v(3) by (auto simp: restored_def)
    show "\<exists>q'. map_of (ow_files v) (j @ ''.json'') = Some (OperationFile q') \<and> reloaded q q' \<and> map_of (ow_records v) j \<in> {None, Some q'} \<and>
        (j @ ''.json'' \<in> insert (i @ ''.json'') D \<longrightarrow> map_of (ow_records v) j = Some q')" if q: "map_of (ow_records w0) j = Some q" for j q
    proof (cases "j = i")
      case True
      then show ?thesis using kept q r0 v named by simp
    next
      case False
      obtain q' where "map_of (ow_files w) (j @ ''.json'') = Some (OperationFile q')" "reloaded q q'" "map_of (ow_records w) j \<in> {None, Some q'}"
        "j @ ''.json'' \<in> D \<longrightarrow> map_of (ow_records w) j = Some q'" using w q unfolding restored_def by blast
      then show ?thesis using False v named by simp
    qed
    show "map_of (ow_records v) j = None" if "map_of (ow_records w0) j = None" for j
    proof -
      have "map_of (ow_records w) j = None" using w that unfolding restored_def by blast
      then show ?thesis using that v(5) named(1) r0 by auto
    qed
    show "(map_of (ow_idempotency v) k = Some j) = (\<exists>q. map_of (ow_records v) j = Some q \<and> k = (op_capability q, op_idempotencyKey q))" for k j
    proof -
      have old: "(map_of (ow_idempotency w) k = Some j) = (\<exists>q. map_of (ow_records w) j = Some q \<and> k = (op_capability q, op_idempotencyKey q))"
        using w unfolding restored_def by blast
      show ?thesis
      proof (cases "k = (op_capability r, op_idempotencyKey r)")
        case True
        then show ?thesis using old same_key v(5,6) named(1) key by auto
      next
        case False
        moreover have "op_capability q = op_capability r \<and> op_idempotencyKey q = op_idempotencyKey r" if "map_of (ow_records w) i = Some q" for q
          using r(3) that by auto
        ultimately show ?thesis using old v(5,6) named(1) key by auto
      qed
    qed
  qed
  with v(1) show ?thesis by blast
qed

lemma restored_all:
  assumes ok: "operations_ok w0" and "restored w0 D w" "set names \<subseteq> dom (map_of (ow_files w0))"
  shows "\<exists>v. for_each names (\<lambda>f _. load_file f) () w = (Inr (), v) \<and> restored w0 (set names \<union> D) v"
  using assms(2,3)
proof (induction names arbitrary: D w)
  case (Cons f names)
  then obtain t where "map_of (ow_files w0) f = Some t" by auto
  with ok obtain i r where f: "f = i @ ''.json''" "map_of (ow_records w0) i = Some r" unfolding operations_ok_def by blast
  from restored_step [OF ok Cons.prems(1) f(2)] obtain v where v: "load_file f w = (Inr (), v)" "restored w0 (insert f D) v" using f(1) by blast
  from Cons.IH [OF v(2)] Cons.prems(2) v(1) show ?case by (simp add: bnd_run)
qed (simp add: ret_def)

lemma restart_ok:
  assumes ok: "operations_ok w"
  shows "fst (restart w) = Inr ()" "lawful_step w (snd (restart w))"
proof -
  let ?w = "w\<lparr>ow_records := [], ow_idempotency := [], ow_jobs := [], ow_active := []\<rparr>"
  let ?names = "sort (filter json_name (map fst (ow_files w)))"
  have filed: "operation_filed w i r" if "map_of (ow_records w) i = Some r" for i r using ok that unfolding operations_ok_def by blast
  have "restored w {} ?w" unfolding restored_def using filed by (auto simp: operation_filed_def reloaded_def)
  moreover have "set ?names \<subseteq> dom (map_of (ow_files w))" by (auto simp: dom_map_of_conv_image_fst)
  ultimately obtain v where run: "for_each ?names (\<lambda>f _. load_file f) () ?w = (Inr (), v)" and v: "restored w (set ?names) v"
    using restored_all [OF ok] by (metis Un_empty_right)
  have there: "\<exists>r'. map_of (ow_files v) (i @ ''.json'') = Some (OperationFile r') \<and> reloaded r r' \<and> map_of (ow_records v) i = Some r'"
    if r: "map_of (ow_records w) i = Some r" for i r
  proof -
    have "i @ ''.json'' \<in> set ?names"
      using filed [OF r] by (force simp: operation_filed_def json_name_def dest: map_of_SomeD)
    then show ?thesis using v r unfolding restored_def by blast
  qed
  have origin: "\<exists>r0. map_of (ow_records w) i = Some r0" if "map_of (ow_records v) i = Some r" for i r
    using v that unfolding restored_def by (metis option.exhaust option.distinct(1))
  have "operations_ok v" unfolding operations_ok_def
  proof (intro conjI allI impI)
    show "operation_filed v i r" if r: "map_of (ow_records v) i = Some r" for i r
    proof -
      obtain r0 where r0: "map_of (ow_records w) i = Some r0" using origin [OF r] by blast
      have "map_of (ow_idempotency v) (op_capability r, op_idempotencyKey r) = Some i" using v r unfolding restored_def by blast
      then show ?thesis using there [OF r0] filed [OF r0] r by (auto simp: operation_filed_def reloaded_def)
    qed
    show "\<exists>i r. f = i @ ''.json'' \<and> map_of (ow_records v) i = Some r" if f: "map_of (ow_files v) f = Some t" for f t
    proof -
      have "f \<in> dom (map_of (ow_files w))" using v f unfolding restored_def by blast
      with ok obtain i r where "f = i @ ''.json''" "map_of (ow_records w) i = Some r" unfolding operations_ok_def by blast
      then show ?thesis using there by blast
    qed
    show "\<exists>r. map_of (ow_records v) i = Some r \<and> op_status r \<in> {ORunning, OCancelled}" if "map_of (ow_jobs v) i = Some a" for i a
      using v that by (simp add: restored_def)
    show "\<exists>r. map_of (ow_records v) i = Some r \<and> k = (op_capability r, op_idempotencyKey r)" if "map_of (ow_idempotency v) k = Some i" for k i
      using v that unfolding restored_def by blast
  qed
  moreover have "ended_stay w v" using there unfolding ended_stay_def reloaded_def by fastforce
  ultimately show "fst (restart w) = Inr ()" "lawful_step w (snd (restart w))"
    using run by (simp_all add: restart_def bnd_run eff_defs lawful_step_def)
qed


section \<open>Runs\<close>

text \<open>What can happen to the operations. An invocation is finished some time after it was begun, with whatever the policy decided; the
  process can stop and be started again at any time.\<close>

inductive operation_step :: "operations_world \<Rightarrow> operations_world \<Rightarrow> bool" where
  registered: "operation_step w (snd (register_capability d w))"
| invoked: "begun p \<Longrightarrow> operation_step w (snd (invoke_finish p d w))"
| handled: "operation_step w (snd (handler_end i out w))"
| cancelled: "operation_step w (snd (cancelOperation v w))"
| closed: "operation_step w (snd (close_operations w))"
| restarted: "operation_step w (snd (restart w))"

inductive_cases operation_stepE: "operation_step w w'"

definition operations_new :: "operations_world \<Rightarrow> bool" where
  "operations_new w \<longleftrightarrow> ow_records w = [] \<and> ow_idempotency w = [] \<and> ow_files w = [] \<and> ow_jobs w = []"

lemma step_lawful: "operation_step w w' \<Longrightarrow> operations_ok w \<Longrightarrow> lawful_step w w'"
  by (induction rule: operation_step.induct) (simp_all add: register_ok invocation_finish_ok handler_end_ok cancel_ok close_ok restart_ok)

lemma run_lawful: "operation_step\<^sup>*\<^sup>* w w' \<Longrightarrow> operations_ok w \<Longrightarrow> lawful_step w w'"
proof (induction rule: rtranclp_induct)
  case base
  then show ?case by (simp add: lawful_step_def ended_stay_def)
next
  case (step v w')
  then show ?case using step_lawful lawful_trans lawful_ok by blast
qed

lemma new_ok: "operations_new w \<Longrightarrow> operations_ok w"
  by (simp add: operations_new_def operations_ok_def)

lemma reached_ok: "operations_new w0 \<Longrightarrow> operation_step\<^sup>*\<^sup>* w0 w \<Longrightarrow> operations_ok w"
  using run_lawful new_ok lawful_ok by blast

text \<open>No two operations have the same capability and idempotency key.\<close>

lemma one_operation_per_key:
  assumes "operations_new w0" "operation_step\<^sup>*\<^sup>* w0 w" "map_of (ow_records w) i = Some r" "map_of (ow_records w) j = Some s"
    "op_capability r = op_capability s" "op_idempotencyKey r = op_idempotencyKey s"
  shows "i = j"
proof -
  have "operation_filed w i r" "operation_filed w j s" using reached_ok [OF assms(1,2)] assms(3,4) unfolding operations_ok_def by blast+
  then show ?thesis using assms(5,6) by (simp add: operation_filed_def)
qed

text \<open>An invocation that is repeated with the same input is answered by the operation it made, and one with another input is refused;
  nothing is changed.\<close>

lemma repeated_invocation:
  assumes w: "operations_new w0" "operation_step\<^sup>*\<^sup>* w0 w" "map_of (ow_records w) i = Some r"
    and d: "find_capability (trim (iq_capability q)) w = (Inr d, w)" "cd_status d = Available"
    and q: "trim (iq_capability q) = op_capability r" "idempotencyKey (iq_idempotencyKey q) = Inr (op_idempotencyKey r)"
  shows "invoke_begin q w = (if op_inputFingerprint r = of_fingerprint (ow_platform w) (object_input (iq_input q)) (iq_context q) then Inr (Inl r)
    else Inl (Error ''idempotencyKey was reused with different capability input''), w)"
proof -
  have "operation_filed w i r" using reached_ok [OF w(1,2)] w(3) unfolding operations_ok_def by blast
  then have found: "findByIdempotency (op_capability r) (op_idempotencyKey r) w = (Inr (Some r), w)"
    using w(3) by (simp add: findByIdempotency_def eff_defs operation_filed_def)
  show ?thesis
    unfolding invoke_begin_def Let_def q(1) bnd_run d(1) [unfolded q(1)]
    by (simp add: d(2) q(2) found bnd_run lift_res_def require_that_def guard_res_def gets_def ret_def throw_def)
qed

text \<open>C17: An operation that has ended (completed, failed, cancelled, timed out, or blocked by the policy) is never changed again: not by
  the handler that still runs, not by a cancellation, not by other operations and not by a restart of the process, which loads it as it was
  recorded.\<close>

theorem operation_settles_once:
  assumes "operations_new w0" "operation_step\<^sup>*\<^sup>* w0 w" "operation_step\<^sup>*\<^sup>* w w'"
    and "map_of (ow_records w) i = Some r" "op_status r \<in> set TERMINAL"
  shows "map_of (ow_records w') i = Some r"
  using run_lawful [OF assms(3) reached_ok [OF assms(1,2)]] assms(4,5) by (simp add: lawful_step_def ended_stay_def)

definition demo_operations :: operations_world where
  "demo_operations = \<lparr>ow_platform = \<lparr>of_uuid = nat_text, of_clock = (\<lambda>n. ''now'' @ nat_text n), of_fingerprint = (\<lambda>x c. ''f''), of_nodeId = ''n''\<rparr>,
     ow_entries = [\<lparr>cd_id = ''shell'', cd_category = ''os'', cd_status = Available\<rparr>], ow_records = [], ow_idempotency = [], ow_files = [],
     ow_jobs = [], ow_active = [], ow_ticks = 0\<rparr>"

definition demo_pending :: pending_invocation where
  "demo_pending = \<lparr>pi_definition = \<lparr>cd_id = ''shell'', cd_category = ''os'', cd_status = Available\<rparr>, pi_input = JObj [], pi_context = None,
     pi_key = ''k'', pi_fingerprint = ''f''\<rparr>"

definition demo_running :: operations_world where
  "demo_running = snd (invoke_finish demo_pending Allow demo_operations)"

definition demo_cancelled :: operations_world where
  "demo_cancelled = snd (cancelOperation '' op-1 '' demo_running)"

definition demo_ended :: operations_world where
  "demo_ended = snd (restart (snd (handler_end ''op-1'' (HandlerReturned (JStr ''ok'')) demo_cancelled)))"

definition status_of :: "string \<Rightarrow> operations_world \<Rightarrow> operation_status option" where
  "status_of i w = map_option op_status (map_of (ow_records w) i)"

lemma demo_statuses: "status_of ''op-1'' demo_running = Some ORunning" "status_of ''op-1'' demo_cancelled = Some OCancelled"
    "map_of (ow_jobs demo_cancelled) ''op-1'' = Some True" "ow_jobs demo_ended = []"
  by code_simp+

lemma demo_begun: "begun demo_pending"
proof -
  have "fst (invoke_begin \<lparr>iq_capability = ''shell'', iq_input = None, iq_context = None, iq_idempotencyKey = ''k''\<rparr> demo_operations)
      = Inr (Inr demo_pending)"
    by code_simp
  then show ?thesis unfolding begun_def by (metis prod.collapse)
qed

theorem operation_settles_once_witness:
  "\<exists>r. operations_new demo_operations \<and> operation_step\<^sup>*\<^sup>* demo_operations demo_cancelled \<and> operation_step\<^sup>*\<^sup>* demo_cancelled demo_ended \<and>
     map_of (ow_records demo_cancelled) ''op-1'' = Some r \<and> op_status r = OCancelled \<and> map_of (ow_records demo_ended) ''op-1'' = Some r"
proof -
  obtain r where r: "map_of (ow_records demo_cancelled) ''op-1'' = Some r" "op_status r = OCancelled"
    using demo_statuses(2) by (auto simp: status_of_def)
  have new: "operations_new demo_operations" by (simp add: operations_new_def demo_operations_def)
  have "operation_step demo_operations demo_running" unfolding demo_running_def by (rule invoked [OF demo_begun])
  moreover have "operation_step demo_running demo_cancelled" unfolding demo_cancelled_def by (rule cancelled)
  ultimately have before: "operation_step\<^sup>*\<^sup>* demo_operations demo_cancelled" by simp
  have "operation_step demo_cancelled (snd (handler_end ''op-1'' (HandlerReturned (JStr ''ok'')) demo_cancelled))" by (rule handled)
  moreover have "operation_step (snd (handler_end ''op-1'' (HandlerReturned (JStr ''ok'')) demo_cancelled)) demo_ended"
    unfolding demo_ended_def by (rule restarted)
  ultimately have after: "operation_step\<^sup>*\<^sup>* demo_cancelled demo_ended" by simp
  show ?thesis using operation_settles_once [OF new before after r(1)] new before after r by (auto simp: TERMINAL_def)
qed

section \<open>The policy\<close>

text \<open>Unless the operator chose full control, the only capability that runs without being asked for is the status of the system.\<close>

lemma only_status_is_free:
  "mode \<noteq> ''full_control'' \<Longrightarrow> authorize pf mode roots fallback capability cwd = Allow \<longleftrightarrow> capability = ''system.status''"
  by (simp add: authorize_def Let_def)

text \<open>A command is only put to the operator in a directory inside a root that is allowed.\<close>

lemma asked_inside_roots:
  assumes "authorize pf mode roots fallback capability cwd = RequireConfirmation"
  shows "\<exists>r \<in> set roots. inside pf r (case cwd of None \<Rightarrow> fallback | Some d \<Rightarrow> if trim d = [] then fallback else pp_resolvePath pf (trim d))"
  using assms by (auto simp: authorize_def Let_def list_ex_iff split: if_splits)

end
