(* ===== verification/AgentContracts.thy ===== *)
theory AgentContracts
  imports DurableJson "HOL-Library.AList"
begin

text \<open>
  \<open>agent-routing-runtime/agent-contracts.ts\<close>: tasks handed to an agent, their results, the review of a result, and the identifiers
  the two stores of that runtime accept. Fields that are only passed on are one JSON value.
\<close>

datatype agent_provider = ProviderCodex | ProviderGemini | ProviderClaude | ProviderApi

datatype review_verdict = ReviewApproved | ChangesRequested | ReviewBlocked | EscalateHuman

datatype review_state = ReviewDraft | ReviewDispatched | ReviewRunning | ResultReady | ReviewPending | Reviewing | FixDispatched
  | ReviewComplete | ReviewStateBlocked | ReviewStateEscalated

datatype agent_result_status = ResultComplete | ResultPartial | ResultBlocked | ResultStatusFailed | ResultOutcomeUnknown

datatype recommended_action = GptReview | HumanReview | CodexImplement | RetryTask

record agent_task_spec =
  tk_taskId :: string
  tk_executionId :: string
  tk_projectId :: string
  tk_goal :: string
  tk_contextVersion :: int
  tk_importance :: "string option"
  tk_baseSha :: "string option"
  tk_worktreePath :: "string option"
  tk_requirements :: "string list"
  tk_constraints :: "string list"
  tk_reviewRequired :: bool
  tk_maxCycles :: "int option"
  tk_rest :: json

record result_git =
  rg_baseSha :: "string option"
  rg_headSha :: "string option"

record agent_result =
  ag_taskId :: string
  ag_executionId :: string
  ag_projectId :: string
  ag_provider :: agent_provider
  ag_status :: agent_result_status
  ag_contextVersion :: int
  ag_conversationId :: "string option"
  ag_summary :: string
  ag_changedFiles :: "string list"
  ag_artifacts :: "json list"
  ag_git :: "result_git option"
  ag_verification :: "json list"
  ag_knownIssues :: "string list"
  ag_blockers :: "string list"
  ag_recommendedAction :: recommended_action
  ag_completedAt :: string
  ag_rest :: json

record review_packet =
  rk_reviewId :: string
  rk_taskId :: string
  rk_executionId :: string
  rk_cycle :: int
  rk_originalGoal :: string
  rk_requirements :: "string list"
  rk_constraints :: "string list"
  rk_provider :: agent_provider
  rk_resultSummary :: string
  rk_baseSha :: "string option"
  rk_headSha :: "string option"
  rk_changedFiles :: "string list"
  rk_artifacts :: "json list"
  rk_verification :: "json list"
  rk_knownIssues :: "string list"
  rk_blockers :: "string list"
  rk_createdAt :: string

record review_decision =
  dn_protocol :: string
  dn_reviewId :: string
  dn_taskId :: string
  dn_cycle :: int
  dn_decision :: review_verdict
  dn_findings :: "json list"
  dn_requiredFixes :: "string list"
  dn_optionalSuggestions :: "string list"
  dn_reviewerSessionId :: string
  dn_createdAt :: string

record fix_request =
  fx_taskId :: string
  fx_reviewId :: string
  fx_cycle :: int
  fx_target :: agent_provider
  fx_logicalSessionId :: string
  fx_runtimeConversationId :: "string option"
  fx_requiredFixes :: "string list"
  fx_contextVersion :: int
  fx_createdAt :: string

text \<open>The fields that may be left out of a binding are left out (\<open>None\<close>), null (\<open>Some None\<close>) or a text.\<close>

record agent_binding =
  ab_projectId :: string
  ab_taskId :: string
  ab_originSessionId :: string
  ab_targetLogicalSessionId :: string
  ab_reviewSessionId :: "string option option"
  ab_runtimeConversationId :: "string option option"
  ab_createdAt :: string
  ab_updatedAt :: string

text \<open>\<open>?? null\<close> of a field that may be left out.\<close>

definition or_null :: "'a option option \<Rightarrow> 'a option" where
  "or_null x = (case x of None \<Rightarrow> None | Some y \<Rightarrow> y)"

definition id_chars :: string where
  "id_chars = ''ABCDEFGHIJKLMNOPQRSTUVWXYZabcdefghijklmnopqrstuvwxyz0123456789._:-''"

definition valid_id :: "string \<Rightarrow> string \<Rightarrow> string res" where
  "valid_id label v = (let t = trim v in
     if t = [] \<or> length t > 256 \<or> \<not> list_all (\<lambda>c. c \<in> set id_chars) t then Inl (Error (label @ '' is invalid'')) else Inr t)"

lemma valid_id_trims: "valid_id l v = Inr t \<Longrightarrow> t = trim v \<and> t \<noteq> []"
  by (auto simp: valid_id_def Let_def split: if_splits)

lemma valid_id_again: "valid_id l v = Inr t \<Longrightarrow> valid_id k t = Inr t"
  by (auto simp: valid_id_def Let_def split: if_splits)

end
