(* ===== verification/AgentTasks.thy ===== *)
theory AgentTasks
  imports AgentContracts
begin

text \<open>
  \<open>agent-routing-runtime/agent-task-store.ts\<close>: the durable record of a task given to an agent; and \<open>agent-recovery-controller.ts\<close>: how
  a task whose outcome is unknown is inspected and classified. The operations that change a record are queued behind one another, so each
  is one step, and a file is written in one step.
\<close>

section \<open>The record of a task\<close>

datatype agent_task_state = InReview review_state | TaskOutcomeUnknown | TaskFailed

datatype attempt_status = AttemptRunning | AttemptSucceeded | AttemptFailed | AttemptBlocked | AttemptOutcomeUnknown

record task_attempt =
  tt_attemptId :: string
  tt_attempt :: int
  tt_executor :: string
  tt_provider :: agent_provider
  tt_status :: attempt_status
  tt_startedAt :: string
  tt_finishedAt :: "string option"
  tt_rest :: json

text \<open>A list that an old record does not have is read as the empty one.\<close>

record agent_task =
  gt_task :: agent_task_spec
  gt_resolvedTarget :: agent_provider
  gt_state :: agent_task_state
  gt_binding :: "agent_binding option"
  gt_result :: "agent_result option"
  gt_skillsUsed :: "json list"
  gt_remoteTaskId :: "string option"
  gt_remoteExecutionId :: "string option"
  gt_createdAt :: string
  gt_updatedAt :: string
  gt_importance :: "string option"
  gt_verificationProfile :: "string option"
  gt_routingDecisions :: "json list"
  gt_attempts :: "task_attempt list"
  gt_telemetry :: "json option"

record task_platform =
  tp_clock :: "nat \<Rightarrow> string"
  tp_storageName :: "string \<Rightarrow> string"
  tp_bytes :: "agent_task \<Rightarrow> int"

datatype task_file = TaskFile int "string + agent_task"

record tasks_world =
  tw_platform :: task_platform
  tw_files :: "(string \<times> task_file) list"
  tw_ticks :: nat

type_synonym 'a tasks_eff = "(tasks_world, 'a) eff"

definition TASK_MAX_FILE_BYTES :: int where "TASK_MAX_FILE_BYTES = 8 * 1024 * 1024"

definition MAX_ROUTING_DECISIONS :: nat where "MAX_ROUTING_DECISIONS = 20"

definition MAX_ATTEMPTS :: nat where "MAX_ATTEMPTS = 50"

definition tasks_now :: "string tasks_eff" where
  "tasks_now = bnd (gets (\<lambda>w. tp_clock (tw_platform w) (tw_ticks w))) (\<lambda>t. bnd (modify (\<lambda>w. w\<lparr>tw_ticks := Suc (tw_ticks w)\<rparr>)) (\<lambda>_. ret t))"

definition task_file_name :: "string \<Rightarrow> tasks_world \<Rightarrow> string" where
  "task_file_name t w = tp_storageName (tw_platform w) t @ ''.json''"

fun parse_task :: "string \<Rightarrow> task_file option \<Rightarrow> agent_task option res" where
  "parse_task t None = Inr None"
| "parse_task t (Some (TaskFile n c)) =
     (if n > TASK_MAX_FILE_BYTES then Inl (Error ''agent task record exceeds size limit'')
      else case c of Inl msg \<Rightarrow> Inl (Error msg)
        | Inr r \<Rightarrow> if tk_taskId (gt_task r) \<noteq> t then Inl (Error ''agent task record identity mismatch'') else Inr (Some r))"

definition get_task :: "string \<Rightarrow> agent_task option tasks_eff" where
  "get_task v = bnd (lift_res (valid_id ''taskId'' v)) (\<lambda>t. bnd (gets (\<lambda>w. map_of (tw_files w) (task_file_name t w))) (\<lambda>x. lift_res (parse_task t x)))"

definition write_task :: "agent_task \<Rightarrow> unit tasks_eff" where
  "write_task r = bnd (lift_res (valid_id ''taskId'' (tk_taskId (gt_task r)))) (\<lambda>t. bnd (gets (\<lambda>w. tp_bytes (tw_platform w) r)) (\<lambda>n.
     bnd (require_that (\<not> n > TASK_MAX_FILE_BYTES) (Error ''agent task record exceeds size limit'')) (\<lambda>_.
     modify (\<lambda>w. w\<lparr>tw_files := AList.update (task_file_name t w) (TaskFile n (Inr r)) (tw_files w)\<rparr>))))"

definition new_task :: "agent_task_spec \<Rightarrow> agent_provider \<Rightarrow> string \<Rightarrow> agent_task" where
  "new_task t target now = \<lparr>gt_task = t, gt_resolvedTarget = target, gt_state = InReview ReviewDraft, gt_binding = None, gt_result = None,
     gt_skillsUsed = [], gt_remoteTaskId = None, gt_remoteExecutionId = None, gt_createdAt = now, gt_updatedAt = now,
     gt_importance = Some (case tk_importance t of None \<Rightarrow> ''normal'' | Some i \<Rightarrow> i), gt_verificationProfile = Some ''standard'',
     gt_routingDecisions = [], gt_attempts = [], gt_telemetry = None\<rparr>"

definition create_task :: "agent_task_spec \<Rightarrow> agent_provider \<Rightarrow> agent_task tasks_eff" where
  "create_task t target = bnd (get_task (tk_taskId t)) (\<lambda>existing. case existing of
     Some r \<Rightarrow> if tk_executionId (gt_task r) = tk_executionId t \<and> gt_task r = t then ret r
       else throw (Error ''taskId is already bound to a different task/execution'')
   | None \<Rightarrow> bnd tasks_now (\<lambda>now. let r = new_task t target now in bnd (write_task r) (\<lambda>_. ret r)))"

definition update_task :: "string \<Rightarrow> (agent_task \<Rightarrow> agent_task res) \<Rightarrow> agent_task tasks_eff" where
  "update_task v updater = bnd (lift_res (valid_id ''taskId'' v)) (\<lambda>t. bnd (get_task t) (\<lambda>current. case current of
     None \<Rightarrow> throw (Error ''agent task record not found'')
   | Some r \<Rightarrow> bnd (lift_res (updater r)) (\<lambda>candidate.
       bnd (require_that (\<not> (tk_taskId (gt_task candidate) \<noteq> t \<or> tk_executionId (gt_task candidate) \<noteq> tk_executionId (gt_task r)))
         (Error ''agent task identity is immutable'')) (\<lambda>_.
       bnd tasks_now (\<lambda>now. let r' = candidate\<lparr>gt_updatedAt := now\<rparr> in bnd (write_task r') (\<lambda>_. ret r'))))))"

definition setState :: "string \<Rightarrow> agent_task_state \<Rightarrow> agent_task tasks_eff" where
  "setState t s = update_task t (\<lambda>r. Inr (r\<lparr>gt_state := s\<rparr>))"

definition setBinding :: "string \<Rightarrow> agent_binding \<Rightarrow> agent_task tasks_eff" where
  "setBinding t b = update_task t (\<lambda>r. Inr (r\<lparr>gt_binding := Some b\<rparr>))"

definition setSkills :: "string \<Rightarrow> json list \<Rightarrow> agent_task tasks_eff" where
  "setSkills t ss = update_task t (\<lambda>r. Inr (r\<lparr>gt_skillsUsed := ss\<rparr>))"

definition setResult :: "string \<Rightarrow> agent_result \<Rightarrow> agent_task_state \<Rightarrow> agent_task tasks_eff" where
  "setResult t x s = update_task t (\<lambda>r. if ag_taskId x \<noteq> tk_taskId (gt_task r) \<or> ag_executionId x \<noteq> tk_executionId (gt_task r)
     then Inl (Error ''execution result identity mismatch'') else Inr (r\<lparr>gt_result := Some x, gt_state := s\<rparr>))"

definition setRemoteMapping :: "string \<Rightarrow> string \<Rightarrow> string \<Rightarrow> agent_task tasks_eff" where
  "setRemoteMapping t i x = update_task t (\<lambda>r. case valid_id ''remoteTaskId'' i of Inl e \<Rightarrow> Inl e
     | Inr i' \<Rightarrow> (case valid_id ''remoteExecutionId'' x of Inl e \<Rightarrow> Inl e
       | Inr x' \<Rightarrow> Inr (r\<lparr>gt_remoteTaskId := Some i', gt_remoteExecutionId := Some x'\<rparr>)))"

definition setRoutingMeta :: "string \<Rightarrow> string \<Rightarrow> string \<Rightarrow> agent_task tasks_eff" where
  "setRoutingMeta t importance profile = update_task t (\<lambda>r. Inr (r\<lparr>gt_importance := Some importance, gt_verificationProfile := Some profile\<rparr>))"

text \<open>\<open>slice(-n)\<close>\<close>

definition last_of :: "nat \<Rightarrow> 'a list \<Rightarrow> 'a list" where
  "last_of n xs = drop (length xs - n) xs"

definition appendRoutingDecision :: "string \<Rightarrow> json \<Rightarrow> agent_task tasks_eff" where
  "appendRoutingDecision t d = update_task t (\<lambda>r. Inr (r\<lparr>gt_routingDecisions := last_of MAX_ROUTING_DECISIONS (gt_routingDecisions r @ [d])\<rparr>))"

definition appendAttempt :: "string \<Rightarrow> task_attempt \<Rightarrow> agent_task tasks_eff" where
  "appendAttempt t a = update_task t (\<lambda>r. Inr (r\<lparr>gt_attempts := last_of MAX_ATTEMPTS (gt_attempts r @ [a])\<rparr>))"

text \<open>The first attempt of the name is changed; a patch does not have the fields that name it.\<close>

fun patch_attempt :: "string \<Rightarrow> (task_attempt \<Rightarrow> task_attempt) \<Rightarrow> task_attempt list \<Rightarrow> task_attempt list option" where
  "patch_attempt i f [] = None"
| "patch_attempt i f (a # as) = (if tt_attemptId a = i then Some ((f a)\<lparr>tt_attemptId := tt_attemptId a, tt_attempt := tt_attempt a\<rparr> # as)
     else map_option ((#) a) (patch_attempt i f as))"

definition updateAttempt :: "string \<Rightarrow> string \<Rightarrow> (task_attempt \<Rightarrow> task_attempt) \<Rightarrow> agent_task tasks_eff" where
  "updateAttempt t i f = update_task t (\<lambda>r. case patch_attempt i f (gt_attempts r) of
     None \<Rightarrow> Inl (Error (''attempt '' @ i @ '' not found for task '' @ t))
   | Some as \<Rightarrow> Inr (r\<lparr>gt_attempts := as\<rparr>))"

definition setFastPathTelemetry :: "string \<Rightarrow> json \<Rightarrow> agent_task tasks_eff" where
  "setFastPathTelemetry t x = update_task t (\<lambda>r. Inr (r\<lparr>gt_telemetry := Some x\<rparr>))"

definition setResolvedTarget :: "string \<Rightarrow> agent_provider \<Rightarrow> agent_task tasks_eff" where
  "setResolvedTarget t p = update_task t (\<lambda>r. Inr (r\<lparr>gt_resolvedTarget := p\<rparr>))"

end
