(* ===== verification/AgentRecovery.thy ===== *)
theory AgentRecovery
  imports AgentTasks
begin

text \<open>
  \<open>agent-routing-runtime/agent-recovery-controller.ts\<close>: how a task whose outcome is unknown is inspected and explicitly classified. The
  agent runtime, git, the artifacts, the reconciliation of the evidence and the audit are ports over a state of their own.
\<close>

datatype recovery_resolution = KeepUnknown | AcceptPartial | MarkFailed

datatype reconciled_state = RecRunning | RecPartial | RecFailed | RecResultReady | RecOutcomeUnknown

fun reconciled_text :: "reconciled_state \<Rightarrow> string" where
  "reconciled_text RecRunning = ''RUNNING''"
| "reconciled_text RecPartial = ''PARTIAL''"
| "reconciled_text RecFailed = ''FAILED''"
| "reconciled_text RecResultReady = ''RESULT_READY''"
| "reconciled_text RecOutcomeUnknown = ''OUTCOME_UNKNOWN''"

datatype runtime_binding_state = RuntimeStopped | RuntimeStarting | RuntimeReady | RuntimeRunning | RuntimeOutcomeUnknown | RuntimeError

record git_evidence =
  ge_headSha :: string
  ge_baseSha :: "string option"
  ge_clean :: bool
  ge_rest :: json

record outcome_reconciliation =
  oc_state :: reconciled_state
  oc_reasons :: "string list"

record reconcile_input =
  ri_processAlive :: "bool option"
  ri_terminalResultSeen :: bool
  ri_worktreeChanged :: "bool option"
  ri_artifactsPresent :: "bool option"
  ri_latestResultStatus :: "agent_result_status option"

record recovery_snapshot =
  rsn_taskId :: string
  rsn_executionId :: string
  rsn_logicalSessionId :: "string option"
  rsn_runtimeConversationId :: "string option"
  rsn_runtimeAlive :: "bool option"
  rsn_artifactsPresent :: "bool option"
  rsn_git :: "git_evidence option"
  rsn_reconciliation :: outcome_reconciliation
  rsn_inspectedAt :: string

datatype audit_detail = Inspected recovery_snapshot | Resolved recovery_resolution string recovery_snapshot

text \<open>\<open>rx_dash\<close> is the text between status and reason, with the character U+2014.\<close>

record 'e recovery_ports =
  rx_activeSessions :: "'e \<Rightarrow> string list"
  rx_binding :: "string \<Rightarrow> ('e, runtime_binding_state option) eff"
  rx_collectGitEvidence :: "string \<Rightarrow> string option \<Rightarrow> ('e, git_evidence) eff"
  rx_artifactsPresent :: "string \<Rightarrow> ('e, bool) eff"
  rx_reconcileOutcome :: "reconcile_input \<Rightarrow> outcome_reconciliation"
  rx_audit :: "(string \<Rightarrow> string \<Rightarrow> string \<Rightarrow> string \<Rightarrow> audit_detail \<Rightarrow> ('e, unit) eff) option"
  rx_dash :: string

record 'e recovery_world =
  rcw_tasks :: tasks_world
  rcw_outside :: 'e

definition in_tasks :: "'a tasks_eff \<Rightarrow> ('e recovery_world, 'a) eff" where
  "in_tasks m = (\<lambda>c. case m (rcw_tasks c) of (r, w) \<Rightarrow> (r, c\<lparr>rcw_tasks := w\<rparr>))"

definition beside :: "('e, 'a) eff \<Rightarrow> ('e recovery_world, 'a) eff" where
  "beside m = (\<lambda>c. case m (rcw_outside c) of (r, e) \<Rightarrow> (r, c\<lparr>rcw_outside := e\<rparr>))"

definition rationale :: "string \<Rightarrow> string res" where
  "rationale v = (let t = trim v in
     if t = [] \<or> length t > 8000 then Inl (Error ''recovery rationale is required and must be <= 8000 characters'') else Inr t)"

definition is_unknown :: "agent_task \<Rightarrow> bool" where
  "is_unknown r \<longleftrightarrow> gt_state r = TaskOutcomeUnknown \<and> map_option ag_status (gt_result r) = Some ResultOutcomeUnknown"

definition requireUnknown :: "string \<Rightarrow> ('e recovery_world, agent_task) eff" where
  "requireUnknown t = bnd (in_tasks (get_task t)) (\<lambda>x. case x of
     None \<Rightarrow> throw (Error ''agent task record not found'')
   | Some r \<Rightarrow> if \<not> is_unknown r then throw (Error ''recovery controller requires state and ExecutionResultV2 to both be OutcomeUnknown'') else ret r)"

text \<open>The result of a classification.\<close>

definition recoveredResult :: "string \<Rightarrow> agent_task \<Rightarrow> agent_result_status \<Rightarrow> string \<Rightarrow> agent_result tasks_eff" where
  "recoveredResult dash before status reason = (case gt_result before of
     None \<Rightarrow> throw (Error ''OutcomeUnknown task has no durable ExecutionResultV2 to classify'')
   | Some x \<Rightarrow> if ag_status x \<noteq> ResultOutcomeUnknown then throw (Error ''recovery result is no longer OutcomeUnknown'')
     else bnd tasks_now (\<lambda>now. ret (x\<lparr>ag_status := status, ag_summary := ag_summary x @ [CHR 0x0A, CHR 0x0A] @ ''Recovery classification: '' @ reason,
       ag_blockers := first_occurrences (ag_blockers x @ [''Explicit recovery classification: '' @
         (if status = ResultPartial then ''PARTIAL'' else ''FAILED'') @ dash @ reason]),
       ag_recommendedAction := (if status = ResultPartial then GptReview else HumanReview), ag_completedAt := now\<rparr>)))"

definition audit :: "'e recovery_ports \<Rightarrow> string \<Rightarrow> agent_task \<Rightarrow> audit_detail \<Rightarrow> ('e recovery_world, unit) eff" where
  "audit p action r d = (case rx_audit p of None \<Rightarrow> ret ()
   | Some f \<Rightarrow> bnd (in_tasks tasks_now) (\<lambda>now. beside (f action (tk_taskId (gt_task r)) (tk_executionId (gt_task r)) now d)))"

section \<open>Inspection\<close>

definition runtime_alive :: "'e recovery_ports \<Rightarrow> agent_task \<Rightarrow> string option \<Rightarrow> ('e recovery_world, bool option) eff" where
  "runtime_alive p r session = (case session of None \<Rightarrow> ret None
   | Some s \<Rightarrow> if gt_resolvedTarget r \<noteq> ProviderGemini \<or> s = [] then ret None
     else bnd (gets (\<lambda>c. s \<in> set (rx_activeSessions p (rcw_outside c)))) (\<lambda>active. bnd (beside (rx_binding p s)) (\<lambda>b. ret (Some (
       if b = Some RuntimeRunning then True
       else if b = Some RuntimeOutcomeUnknown \<or> b = Some RuntimeStopped \<or> b = Some RuntimeError then False else active)))))"

definition git_of_task :: "'e recovery_ports \<Rightarrow> agent_task \<Rightarrow> ('e recovery_world, git_evidence option) eff" where
  "git_of_task p r = (case tk_worktreePath (gt_task r) of None \<Rightarrow> ret None
   | Some d \<Rightarrow> if trim d = [] then ret None
     else catch_with (bnd (beside (rx_collectGitEvidence p d (tk_baseSha (gt_task r)))) (\<lambda>g. ret (Some g))) (\<lambda>_. ret None))"

definition worktree_changed :: "git_evidence option \<Rightarrow> bool option" where
  "worktree_changed g = map_option (\<lambda>x. \<not> ge_clean x \<or> ge_headSha x \<noteq> (case ge_baseSha x of None \<Rightarrow> ge_headSha x | Some b \<Rightarrow> b)) g"

definition inspect :: "'e recovery_ports \<Rightarrow> string \<Rightarrow> ('e recovery_world, recovery_snapshot) eff" where
  "inspect p t = bnd (requireUnknown t) (\<lambda>r. let session = map_option ab_targetLogicalSessionId (gt_binding r);
       conversation = (case Option.bind (gt_binding r) (\<lambda>b. or_null (ab_runtimeConversationId b)) of
         None \<Rightarrow> Option.bind (gt_result r) ag_conversationId | Some c \<Rightarrow> Some c) in
     bnd (runtime_alive p r session) (\<lambda>alive. bnd (git_of_task p r) (\<lambda>g.
     bnd (catch_with (bnd (beside (rx_artifactsPresent p (tk_taskId (gt_task r)))) (\<lambda>b. ret (Some b))) (\<lambda>_. ret None)) (\<lambda>artifacts.
     bnd (in_tasks tasks_now) (\<lambda>now.
     let snapshot = \<lparr>rsn_taskId = tk_taskId (gt_task r), rsn_executionId = tk_executionId (gt_task r), rsn_logicalSessionId = session,
       rsn_runtimeConversationId = conversation, rsn_runtimeAlive = alive, rsn_artifactsPresent = artifacts, rsn_git = g,
       rsn_reconciliation = rx_reconcileOutcome p \<lparr>ri_processAlive = alive,
         ri_terminalResultSeen = (case gt_result r of None \<Rightarrow> False | Some x \<Rightarrow> ag_status x \<noteq> ResultOutcomeUnknown),
         ri_worktreeChanged = worktree_changed g, ri_artifactsPresent = artifacts, ri_latestResultStatus = map_option ag_status (gt_result r)\<rparr>,
       rsn_inspectedAt = now\<rparr> in
     bnd (audit p ''inspect'' r (Inspected snapshot)) (\<lambda>_. ret snapshot))))))"

section \<open>Classification\<close>

definition classify :: "'e recovery_ports \<Rightarrow> string \<Rightarrow> recovery_resolution \<Rightarrow> string \<Rightarrow> agent_task \<Rightarrow> recovery_snapshot \<Rightarrow> ('e recovery_world, agent_task) eff" where
  "classify p t resolution reason before snapshot = (case resolution of
     AcceptPartial \<Rightarrow>
       bnd (require_that (oc_state (rsn_reconciliation snapshot) \<in> set [RecPartial, RecResultReady])
         (Error (''authoritative evidence does not support partial recovery; reconciliation='' @ reconciled_text (oc_state (rsn_reconciliation snapshot))))) (\<lambda>_.
       bnd (in_tasks (recoveredResult (rx_dash p) before ResultPartial reason)) (\<lambda>x.
       in_tasks (setResult t x (InReview (if tk_reviewRequired (gt_task before) then ReviewPending else ResultReady)))))
   | MarkFailed \<Rightarrow>
       bnd (require_that (rsn_runtimeAlive snapshot \<noteq> Some True) (Error ''cannot mark failed while the bound runtime is still active'')) (\<lambda>_.
       bnd (in_tasks (recoveredResult (rx_dash p) before ResultStatusFailed reason)) (\<lambda>x. in_tasks (setResult t x TaskFailed)))
   | KeepUnknown \<Rightarrow> in_tasks (setState t TaskOutcomeUnknown))"

definition applyResolution :: "'e recovery_ports \<Rightarrow> string \<Rightarrow> recovery_resolution \<Rightarrow> string \<Rightarrow> ('e recovery_world, agent_task) eff" where
  "applyResolution p t resolution v = bnd (lift_res (rationale v)) (\<lambda>reason. bnd (requireUnknown t) (\<lambda>before. bnd (inspect p t) (\<lambda>snapshot.
     bnd (classify p t resolution reason before snapshot) (\<lambda>r. bnd (audit p ''resolve'' r (Resolved resolution reason snapshot)) (\<lambda>_. ret r)))))"

definition assertRetryAllowed :: "string \<Rightarrow> ('e recovery_world, unit) eff" where
  "assertRetryAllowed t = bnd (in_tasks (get_task t)) (\<lambda>x. case x of
     None \<Rightarrow> throw (Error ''agent task record not found'')
   | Some r \<Rightarrow> require_that (\<not> (gt_state r = TaskOutcomeUnknown \<or> map_option ag_status (gt_result r) = Some ResultOutcomeUnknown))
       (Error (''automatic retry is forbidden while OutcomeUnknown is unresolved; '' @ ''inspect and explicitly classify authoritative evidence first'')))"

end
