(* ===== verification/ReviewLoop.thy ===== *)
theory ReviewLoop
  imports AgentContracts
begin

text \<open>
  \<open>agent-routing-runtime/review-loop-store.ts\<close>: the durable record of the review of a task, one cycle after another. The operations
  that change it are queued behind one another, so each is one step. A file is written in one step; its size, the hash that names it,
  the clock and the UUIDs are the platform's.
\<close>

record review_cycle =
  ry_cycle :: int
  ry_packet :: review_packet
  ry_decision :: "review_decision option"
  ry_fixRequest :: "fix_request option"

record review_record =
  rvw_taskId :: string
  rvw_executionId :: string
  rvw_state :: review_state
  rvw_binding :: agent_binding
  rvw_cycles :: "review_cycle list"
  rvw_createdAt :: string
  rvw_updatedAt :: string

record review_platform =
  rv_uuid :: "nat \<Rightarrow> string"
  rv_clock :: "nat \<Rightarrow> string"
  rv_storageName :: "string \<Rightarrow> string"
  rv_bytes :: "review_record \<Rightarrow> int"

text \<open>A file: its size, and its record if the text is JSON.\<close>

datatype review_file = ReviewFile int "string + review_record"

record review_world =
  rw_platform :: review_platform
  rw_files :: "(string \<times> review_file) list"
  rw_ticks :: nat

type_synonym 'a review_eff = "(review_world, 'a) eff"

definition REVIEW_MAX_FILE_BYTES :: int where "REVIEW_MAX_FILE_BYTES = 4 * 1024 * 1024"

definition review_now :: "string review_eff" where
  "review_now = bnd (gets (\<lambda>w. rv_clock (rw_platform w) (rw_ticks w))) (\<lambda>t. bnd (modify (\<lambda>w. w\<lparr>rw_ticks := Suc (rw_ticks w)\<rparr>)) (\<lambda>_. ret t))"

definition review_file_name :: "string \<Rightarrow> string review_eff" where
  "review_file_name t = bnd (lift_res (valid_id ''taskId'' t)) (\<lambda>i. gets (\<lambda>w. rv_storageName (rw_platform w) i @ ''.json''))"

fun parse_review :: "string \<Rightarrow> review_file option \<Rightarrow> review_record option res" where
  "parse_review t None = Inr None"
| "parse_review t (Some (ReviewFile n c)) =
     (if n > REVIEW_MAX_FILE_BYTES then Inl (Error ''review record exceeds size limit'')
      else case c of Inl msg \<Rightarrow> Inl (Error msg)
        | Inr r \<Rightarrow> if rvw_taskId r \<noteq> t then Inl (Error ''review record identity mismatch'') else Inr (Some r))"

definition get_review :: "string \<Rightarrow> review_record option review_eff" where
  "get_review v = bnd (lift_res (valid_id ''taskId'' v)) (\<lambda>t. bnd (review_file_name t) (\<lambda>f.
     bnd (gets (\<lambda>w. map_of (rw_files w) f)) (\<lambda>x. lift_res (parse_review t x))))"

definition write_review :: "review_record \<Rightarrow> unit review_eff" where
  "write_review r = bnd (lift_res (valid_id ''taskId'' (rvw_taskId r))) (\<lambda>t. bnd (gets (\<lambda>w. rv_bytes (rw_platform w) r)) (\<lambda>n.
     bnd (require_that (\<not> n > REVIEW_MAX_FILE_BYTES) (Error ''review record exceeds size limit'')) (\<lambda>_.
     bnd (review_file_name t) (\<lambda>f. modify (\<lambda>w. w\<lparr>rw_files := AList.update f (ReviewFile n (Inr r)) (rw_files w)\<rparr>)))))"

section \<open>A new cycle\<close>

definition check_review_request :: "agent_task_spec \<Rightarrow> agent_result \<Rightarrow> agent_binding \<Rightarrow> unit res" where
  "check_review_request t r b =
     (if tk_taskId t \<noteq> ag_taskId r \<or> tk_executionId t \<noteq> ag_executionId r then Inl (Error ''task/result identity mismatch'')
      else if tk_projectId t \<noteq> ag_projectId r then Inl (Error ''task/result project mismatch'')
      else if tk_contextVersion t \<noteq> ag_contextVersion r then Inl (Error ''result contextVersion does not match TaskSpec'')
      else if ab_taskId b \<noteq> tk_taskId t \<or> ab_projectId b \<noteq> tk_projectId t then Inl (Error ''cross-agent binding does not match task'')
      else Inr ())"

definition last_cycle :: "review_record option \<Rightarrow> int" where
  "last_cycle x = (case x of None \<Rightarrow> 0 | Some r \<Rightarrow> if rvw_cycles r = [] then 0 else ry_cycle (last (rvw_cycles r)))"

definition review_packet_of :: "agent_task_spec \<Rightarrow> agent_result \<Rightarrow> int \<Rightarrow> string \<Rightarrow> string \<Rightarrow> review_packet" where
  "review_packet_of t r n i now = \<lparr>rk_reviewId = ''review-'' @ i, rk_taskId = tk_taskId t, rk_executionId = tk_executionId t, rk_cycle = n,
     rk_originalGoal = tk_goal t, rk_requirements = tk_requirements t, rk_constraints = tk_constraints t, rk_provider = ag_provider r,
     rk_resultSummary = ag_summary r,
     rk_baseSha = (case Option.bind (ag_git r) rg_baseSha of None \<Rightarrow> tk_baseSha t | Some s \<Rightarrow> Some s),
     rk_headSha = Option.bind (ag_git r) rg_headSha, rk_changedFiles = ag_changedFiles r, rk_artifacts = ag_artifacts r,
     rk_verification = ag_verification r, rk_knownIssues = ag_knownIssues r, rk_blockers = ag_blockers r, rk_createdAt = now\<rparr>"

text \<open>\<open>{ ...old, ...new, updatedAt }\<close>: a field the new binding leaves out keeps its value.\<close>

definition merge_binding :: "agent_binding \<Rightarrow> agent_binding \<Rightarrow> string \<Rightarrow> agent_binding" where
  "merge_binding a b now = b\<lparr>ab_reviewSessionId := (if ab_reviewSessionId b = None then ab_reviewSessionId a else ab_reviewSessionId b),
     ab_runtimeConversationId := (if ab_runtimeConversationId b = None then ab_runtimeConversationId a else ab_runtimeConversationId b),
     ab_updatedAt := now\<rparr>"

definition new_review :: "agent_task_spec \<Rightarrow> agent_binding \<Rightarrow> string \<Rightarrow> review_record" where
  "new_review t b now = \<lparr>rvw_taskId = tk_taskId t, rvw_executionId = tk_executionId t, rvw_state = ReviewDraft, rvw_binding = b, rvw_cycles = [],
     rvw_createdAt = now, rvw_updatedAt = now\<rparr>"

definition add_cycle :: "review_packet \<Rightarrow> agent_binding \<Rightarrow> string \<Rightarrow> review_record \<Rightarrow> review_record" where
  "add_cycle p b now r = r\<lparr>rvw_state := ReviewPending, rvw_binding := merge_binding (rvw_binding r) b now,
     rvw_cycles := rvw_cycles r @ [\<lparr>ry_cycle = rk_cycle p, ry_packet = p, ry_decision = None, ry_fixRequest = None\<rparr>], rvw_updatedAt := now\<rparr>"

definition max_cycles :: "agent_task_spec \<Rightarrow> int" where
  "max_cycles t = (case tk_maxCycles t of None \<Rightarrow> 20 | Some n \<Rightarrow> n)"

definition createReview :: "agent_task_spec \<Rightarrow> agent_result \<Rightarrow> agent_binding \<Rightarrow> review_record review_eff" where
  "createReview t r b = bnd (lift_res (check_review_request t r b)) (\<lambda>_. bnd (get_review (tk_taskId t)) (\<lambda>existing.
     bnd (require_that (\<not> (case existing of None \<Rightarrow> False | Some x \<Rightarrow> rvw_executionId x \<noteq> tk_executionId t))
       (Error ''task review record is bound to another execution'')) (\<lambda>_. let n = last_cycle existing + 1 in
     bnd (require_that (\<not> n > max_cycles t) (Error (''review cycle limit reached ('' @ int_text (max_cycles t) @ '')''))) (\<lambda>_.
     bnd (gets (\<lambda>w. rv_uuid (rw_platform w) (rw_ticks w))) (\<lambda>i. bnd review_now (\<lambda>created. bnd review_now (\<lambda>now.
     let x = add_cycle (review_packet_of t r n i created) b now (case existing of None \<Rightarrow> new_review t b now | Some x \<Rightarrow> x) in
     bnd (write_review x) (\<lambda>_. ret x))))))))"

section \<open>A decision\<close>

definition REVIEW_DECISION_V1 :: string where "REVIEW_DECISION_V1 = ''zero3.pilot.review-decision.v1''"

fun decided_state :: "review_verdict \<Rightarrow> review_state" where
  "decided_state ReviewApproved = ReviewComplete"
| "decided_state ReviewBlocked = ReviewStateBlocked"
| "decided_state EscalateHuman = ReviewStateEscalated"
| "decided_state ChangesRequested = FixDispatched"

definition fix_request_of :: "string \<Rightarrow> review_decision \<Rightarrow> int \<Rightarrow> string \<Rightarrow> review_record \<Rightarrow> review_cycle \<Rightarrow> fix_request" where
  "fix_request_of t d v now r c = \<lparr>fx_taskId = t, fx_reviewId = dn_reviewId d, fx_cycle = dn_cycle d + 1, fx_target = rk_provider (ry_packet c),
     fx_logicalSessionId = ab_targetLogicalSessionId (rvw_binding r), fx_runtimeConversationId = or_null (ab_runtimeConversationId (rvw_binding r)),
     fx_requiredFixes = dn_requiredFixes d, fx_contextVersion = v, fx_createdAt = now\<rparr>"

definition decide_cycle :: "string \<Rightarrow> review_decision \<Rightarrow> int \<Rightarrow> string \<Rightarrow> review_record \<Rightarrow> review_record" where
  "decide_cycle t d v now r = (let c = last (rvw_cycles r);
       c' = c\<lparr>ry_decision := Some d,
         ry_fixRequest := (if dn_decision d = ChangesRequested then Some (fix_request_of t d v now r c) else ry_fixRequest c)\<rparr> in
     r\<lparr>rvw_cycles := butlast (rvw_cycles r) @ [c'], rvw_state := decided_state (dn_decision d), rvw_updatedAt := now\<rparr>)"

definition submitDecision :: "string \<Rightarrow> review_decision \<Rightarrow> int \<Rightarrow> review_record review_eff" where
  "submitDecision task d v = bnd (lift_res (valid_id ''taskId'' task)) (\<lambda>t.
     bnd (require_that (\<not> (dn_protocol d \<noteq> REVIEW_DECISION_V1 \<or> dn_taskId d \<noteq> t)) (Error ''invalid ReviewDecision identity'')) (\<lambda>_.
     bnd (get_review t) (\<lambda>existing. case existing of
       None \<Rightarrow> throw (Error ''review record not found'')
     | Some r \<Rightarrow>
         if rvw_cycles r = [] \<or> ry_cycle (last (rvw_cycles r)) \<noteq> dn_cycle d \<or> rk_reviewId (ry_packet (last (rvw_cycles r))) \<noteq> dn_reviewId d
         then throw (Error ''ReviewDecision must target the current review cycle'')
         else case ry_decision (last (rvw_cycles r)) of
           Some d' \<Rightarrow> if d' = d then ret r else throw (Error ''current review cycle already has an immutable decision'')
         | None \<Rightarrow> bnd review_now (\<lambda>now.
             bnd (require_that (\<not> (dn_decision d = ChangesRequested \<and> dn_requiredFixes d = [])) (Error ''CHANGES_REQUESTED requires at least one requiredFix'')) (\<lambda>_.
             let r' = decide_cycle t d v now r in bnd (write_review r') (\<lambda>_. ret r'))))))"

definition latestFixRequest :: "string \<Rightarrow> fix_request option review_eff" where
  "latestFixRequest t = bnd (get_review t) (\<lambda>x. ret (case x of None \<Rightarrow> None
     | Some r \<Rightarrow> if rvw_cycles r = [] then None else ry_fixRequest (last (rvw_cycles r))))"

end
