(* ===== verification/ReviewLoopCorrectness.thy ===== *)
theory ReviewLoopCorrectness
  imports ReviewLoop OperationRules
begin

text \<open>
  The properties of the review store: the cycles of a review are numbered in order, its state is the one of the last decision, and
  what has been decided is never changed.
\<close>

section \<open>A review\<close>

definition cycle_ok :: "review_cycle \<Rightarrow> bool" where
  "cycle_ok c \<longleftrightarrow> rk_cycle (ry_packet c) = ry_cycle c \<and> (case ry_decision c of
     None \<Rightarrow> ry_fixRequest c = None
   | Some d \<Rightarrow> dn_cycle d = ry_cycle c \<and> dn_reviewId d = rk_reviewId (ry_packet c) \<and>
       (case ry_fixRequest c of None \<Rightarrow> dn_decision d \<noteq> ChangesRequested
        | Some x \<Rightarrow> dn_decision d = ChangesRequested \<and> fx_cycle x = ry_cycle c + 1 \<and> fx_requiredFixes x \<noteq> []))"

definition review_ok :: "review_record \<Rightarrow> bool" where
  "review_ok r \<longleftrightarrow> rvw_cycles r \<noteq> [] \<and> (\<forall>i < length (rvw_cycles r). ry_cycle (rvw_cycles r ! i) = int i + 1 \<and> cycle_ok (rvw_cycles r ! i)) \<and>
     rvw_state r = (case ry_decision (last (rvw_cycles r)) of None \<Rightarrow> ReviewPending | Some d \<Rightarrow> decided_state (dn_decision d))"

text \<open>A later record of a review has all the cycles of the earlier one, with their packets, and the decided ones as they were.\<close>

definition history_kept :: "review_record \<Rightarrow> review_record \<Rightarrow> bool" where
  "history_kept r r' \<longleftrightarrow> rvw_taskId r' = rvw_taskId r \<and> rvw_executionId r' = rvw_executionId r \<and> length (rvw_cycles r) \<le> length (rvw_cycles r') \<and>
     (\<forall>i < length (rvw_cycles r). ry_packet (rvw_cycles r' ! i) = ry_packet (rvw_cycles r ! i) \<and>
        (ry_decision (rvw_cycles r ! i) \<noteq> None \<longrightarrow> rvw_cycles r' ! i = rvw_cycles r ! i))"

lemma history_refl: "history_kept r r"
  by (simp add: history_kept_def)

lemma history_trans: "history_kept a b \<Longrightarrow> history_kept b c \<Longrightarrow> history_kept a c"
  unfolding history_kept_def by (auto simp: less_le_trans)

lemma last_cycle_number: "review_ok r \<Longrightarrow> last_cycle (Some r) = int (length (rvw_cycles r))"
proof -
  assume ok: "review_ok r"
  let ?n = "length (rvw_cycles r)"
  have n: "rvw_cycles r \<noteq> []" "?n - 1 < ?n" "int (?n - 1) + 1 = int ?n" using ok by (auto simp: review_ok_def neq_Nil_conv)
  then have "ry_cycle (rvw_cycles r ! (?n - 1)) = int (?n - 1) + 1" using ok unfolding review_ok_def by blast
  then show ?thesis using n by (simp add: last_cycle_def last_conv_nth)
qed

lemma cycle_added:
  assumes "review_ok r \<or> rvw_cycles r = []" "rk_cycle p = int (length (rvw_cycles r)) + 1"
  shows "review_ok (add_cycle p b tm r)" "history_kept r (add_cycle p b tm r)"
  using assms by (auto simp: review_ok_def history_kept_def add_cycle_def nth_append cycle_ok_def less_Suc_eq)

lemma cycle_decided:
  assumes ok: "review_ok r" and d: "ry_decision (last (rvw_cycles r)) = None" "ry_cycle (last (rvw_cycles r)) = dn_cycle d"
      "rk_reviewId (ry_packet (last (rvw_cycles r))) = dn_reviewId d" "dn_decision d = ChangesRequested \<Longrightarrow> dn_requiredFixes d \<noteq> []"
  shows "review_ok (decide_cycle t d v tm r)" "history_kept r (decide_cycle t d v tm r)"
proof -
  obtain cs c where cs: "rvw_cycles r = cs @ [c]" using ok by (metis review_ok_def rev_exhaust)
  have each: "ry_cycle ((cs @ [c]) ! i) = int i + 1 \<and> cycle_ok ((cs @ [c]) ! i)" if "i < Suc (length cs)" for i
    using ok that by (auto simp: review_ok_def cs)
  have old: "ry_cycle (cs ! i) = int i + 1 \<and> cycle_ok (cs ! i)" if "i < length cs" for i using each [of i] that by (simp add: nth_append)
  have new: "ry_cycle c = int (length cs) + 1" "cycle_ok c" using each [of "length cs"] by simp_all
  show "review_ok (decide_cycle t d v tm r)" unfolding review_ok_def
    using old new d by (auto simp: decide_cycle_def cs Let_def nth_append less_Suc_eq cycle_ok_def fix_request_of_def)
  show "history_kept r (decide_cycle t d v tm r)"
    using d(1) by (auto simp: history_kept_def decide_cycle_def cs Let_def nth_append less_Suc_eq)
qed

section \<open>The store\<close>

definition filed_review :: "review_world \<Rightarrow> string \<Rightarrow> review_record \<Rightarrow> bool" where
  "filed_review w f r \<longleftrightarrow> (\<exists>n. map_of (rw_files w) f = Some (ReviewFile n (Inr r)))"

definition reviews_ok :: "review_world \<Rightarrow> bool" where
  "reviews_ok w \<longleftrightarrow> (\<forall>f r. filed_review w f r \<longrightarrow> review_ok r)"

text \<open>What an operation does: nothing, or one record replaced by a later one.\<close>

definition review_change :: "review_world \<Rightarrow> review_world \<Rightarrow> bool" where
  "review_change w w' \<longleftrightarrow> rw_files w' = rw_files w \<or> (\<exists>f n r. rw_files w' = AList.update f (ReviewFile n (Inr r)) (rw_files w) \<and> review_ok r \<and>
     (\<forall>q. filed_review w f q \<longrightarrow> history_kept q r))"

lemma unchanged: "review_change w w"
  by (simp add: review_change_def)

lemma file_name_run:
  "review_file_name t w = (case valid_id ''taskId'' t of Inl e \<Rightarrow> (Inl e, w) | Inr i \<Rightarrow> (Inr (rv_storageName (rw_platform w) i @ ''.json''), w))"
  by (simp add: review_file_name_def bnd_run lift_res_def gets_def split: sum.splits)

lemma get_review_state: "snd (get_review v w) = w"
  by (simp add: get_review_def bnd_run lift_res_def gets_def file_name_run split: sum.splits)

lemma get_review_found:
  assumes "get_review v w = (Inr x, w')"
  obtains t where "valid_id ''taskId'' v = Inr t"
    "case x of None \<Rightarrow> map_of (rw_files w) (rv_storageName (rw_platform w) t @ ''.json'') = None
     | Some r \<Rightarrow> rvw_taskId r = t \<and> filed_review w (rv_storageName (rw_platform w) t @ ''.json'') r"
proof -
  obtain t where t: "valid_id ''taskId'' v = Inr t" using assms by (auto simp: get_review_def bnd_run lift_res_def split: sum.splits)
  let ?f = "rv_storageName (rw_platform w) t @ ''.json''"
  have "parse_review t (map_of (rw_files w) ?f) = Inr x"
    using assms t valid_id_again [OF t] by (auto simp: get_review_def bnd_run lift_res_def gets_def file_name_run)
  then show ?thesis using that [OF t]
    by (cases "(t, map_of (rw_files w) ?f)" rule: parse_review.cases) (auto simp: filed_review_def split: if_splits sum.splits)
qed

lemma write_review_run:
  assumes "valid_id ''taskId'' (rvw_taskId r) = Inr t"
  shows "\<exists>n. rw_files (snd (write_review r w)) \<in> {rw_files w, AList.update (rv_storageName (rw_platform w) t @ ''.json'') (ReviewFile n (Inr r)) (rw_files w)}"
  using assms valid_id_again [OF assms]
  by (auto simp: write_review_def bnd_run lift_res_def gets_def file_name_run require_that_def guard_res_def modify_def)

lemma review_now_run: "review_now w = (Inr (rv_clock (rw_platform w) (rw_ticks w)), w\<lparr>rw_ticks := Suc (rw_ticks w)\<rparr>)"
  by (simp add: review_now_def bnd_run eff_defs)

lemma written_change:
  assumes r: "valid_id ''taskId'' (rvw_taskId r) = Inr t" "review_ok r"
    and v: "rw_files v = rw_files w" "rw_platform v = rw_platform w"
    and old: "\<And>q. filed_review w (rv_storageName (rw_platform w) t @ ''.json'') q \<Longrightarrow> history_kept q r"
  shows "review_change w (snd (bnd (write_review r) (\<lambda>_. ret r) v))"
proof -
  have "snd (bnd (write_review r) (\<lambda>_. ret r) v) = snd (write_review r v)" by (simp add: bnd_run ret_def split: sum.splits prod.splits)
  then show ?thesis using write_review_run [OF r(1), of v] r(2) old v unfolding review_change_def by auto
qed

lemma filed_once: "filed_review w f r \<Longrightarrow> filed_review w f q \<Longrightarrow> q = r"
  by (auto simp: filed_review_def)

definition review_base :: "agent_task_spec \<Rightarrow> agent_binding \<Rightarrow> string \<Rightarrow> review_record option \<Rightarrow> review_record" where
  "review_base t b tm e = (case e of None \<Rightarrow> new_review t b tm | Some x \<Rightarrow> x)"

lemma base_filed:
  assumes ok: "reviews_ok w" and got: "get_review (tk_taskId t) w = (Inr e, w')"
  obtains i where "\<And>tm. valid_id ''taskId'' (rvw_taskId (review_base t b tm e)) = Inr i"
    "\<And>tm. last_cycle e = int (length (rvw_cycles (review_base t b tm e)))"
    "\<And>tm. review_ok (review_base t b tm e) \<or> rvw_cycles (review_base t b tm e) = []"
    "\<And>tm q. filed_review w (rv_storageName (rw_platform w) i @ ''.json'') q \<Longrightarrow> q = review_base t b tm e"
proof -
  obtain i where i: "valid_id ''taskId'' (tk_taskId t) = Inr i" "case e of None \<Rightarrow> map_of (rw_files w) (rv_storageName (rw_platform w) i @ ''.json'') = None
      | Some q \<Rightarrow> rvw_taskId q = i \<and> filed_review w (rv_storageName (rw_platform w) i @ ''.json'') q"
    using get_review_found [OF got] by blast
  show ?thesis
  proof (cases e)
    case None
    show ?thesis by (rule that [of i]) (use i None in \<open>simp_all add: review_base_def new_review_def last_cycle_def filed_review_def\<close>)
  next
    case (Some x)
    then have x: "rvw_taskId x = i" "filed_review w (rv_storageName (rw_platform w) i @ ''.json'') x" using i(2) by simp_all
    then have "review_ok x" using ok unfolding reviews_ok_def by blast
    moreover have "valid_id ''taskId'' i = Inr i" by (rule valid_id_again [OF i(1)])
    moreover have "review_base t b tm e = x" for tm by (simp add: review_base_def Some)
    ultimately show ?thesis using that [of i] x last_cycle_number filed_once Some by metis
  qed
qed

lemma create_result:
  "createReview t r b w = (case check_review_request t r b of Inl e \<Rightarrow> (Inl e, w) | Inr _ \<Rightarrow> (case fst (get_review (tk_taskId t) w) of Inl e \<Rightarrow> (Inl e, w)
    | Inr e \<Rightarrow> let n = last_cycle e + 1; pf = rw_platform w; k = rw_ticks w;
        x = add_cycle (review_packet_of t r n (rv_uuid pf k) (rv_clock pf k)) b (rv_clock pf (Suc k)) (review_base t b (rv_clock pf (Suc k)) e) in
      if (case e of None \<Rightarrow> False | Some x \<Rightarrow> rvw_executionId x \<noteq> tk_executionId t) then (Inl (Error ''task review record is bound to another execution''), w)
      else if n > max_cycles t then (Inl (Error (''review cycle limit reached ('' @ int_text (max_cycles t) @ '')'')), w)
      else bnd (write_review x) (\<lambda>_. ret x) (w\<lparr>rw_ticks := Suc (Suc k)\<rparr>)))"
proof (cases "get_review (tk_taskId t) w")
  case (Pair x v)
  have v: "v = w" using get_review_state [of "tk_taskId t" w] Pair by simp
  show ?thesis
  proof (cases "check_review_request t r b")
    case (Inl m)
    then show ?thesis by (simp add: createReview_def bnd_def lift_res_def)
  next
    case (Inr u)
    show ?thesis
    proof (cases x)
      case (Inl m)
      then show ?thesis by (simp add: createReview_def bnd_def lift_res_def Inr Pair v)
    next
      case e: (Inr e)
      show ?thesis unfolding createReview_def review_base_def [symmetric] bnd_run Inr Pair v e lift_res_def sum.case prod.case fst_conv
          require_that_def guard_res_def gets_def review_now_run Let_def
        by (simp split: prod.split sum.split)
    qed
  qed
qed

lemma create_change:
  assumes ok: "reviews_ok w"
  shows "review_change w (snd (createReview t r b w))"
proof (cases "\<exists>e. fst (get_review (tk_taskId t) w) = Inr e")
  case True
  then obtain e where e: "get_review (tk_taskId t) w = (Inr e, w)" using get_review_state by (metis prod.collapse)
  obtain i where base: "\<And>tm. valid_id ''taskId'' (rvw_taskId (review_base t b tm e)) = Inr i"
      "\<And>tm. last_cycle e = int (length (rvw_cycles (review_base t b tm e)))"
      "\<And>tm. review_ok (review_base t b tm e) \<or> rvw_cycles (review_base t b tm e) = []"
      "\<And>tm q. filed_review w (rv_storageName (rw_platform w) i @ ''.json'') q \<Longrightarrow> q = review_base t b tm e"
    using base_filed [OF ok e, of b] by blast
  have written: "review_change w (snd (bnd (write_review (add_cycle p b tm (review_base t b tm e))) (\<lambda>_. ret (add_cycle p b tm (review_base t b tm e))) u))"
    if p: "rk_cycle p = last_cycle e + 1" and u: "rw_files u = rw_files w" "rw_platform u = rw_platform w" for p tm u
  proof (rule written_change)
    note added = cycle_added [OF base(3) p [unfolded base(2) [of tm]]]
    show "valid_id ''taskId'' (rvw_taskId (add_cycle p b tm (review_base t b tm e))) = Inr i" using base(1) [of tm] by (simp add: add_cycle_def)
    show "review_ok (add_cycle p b tm (review_base t b tm e))" by (rule added(1))
    show "history_kept q (add_cycle p b tm (review_base t b tm e))" if "filed_review w (rv_storageName (rw_platform w) i @ ''.json'') q" for q
      using base(4) [OF that, of tm] added(2) by simp
  qed (use u in simp_all)
  have change: "review_change w (snd (if g then (Inl m, w) else if h then (Inl m', w) else bnd (write_review (add_cycle (review_packet_of t r (last_cycle e + 1) i c) b tm
      (review_base t b tm e))) (\<lambda>_. ret (add_cycle (review_packet_of t r (last_cycle e + 1) i c) b tm (review_base t b tm e))) (w\<lparr>rw_ticks := n\<rparr>)))"
    for g h m m' i c tm n
    using unchanged written by (auto simp: review_packet_of_def simp del: bnd_run)
  show ?thesis
  proof (cases "check_review_request t r b")
    case (Inl m)
    then show ?thesis by (simp add: create_result unchanged)
  next
    case (Inr u)
    show ?thesis unfolding create_result e Inr fst_conv sum.case Let_def by (rule change)
  qed
next
  case False
  then obtain m where "fst (get_review (tk_taskId t) w) = Inl m" by (cases "fst (get_review (tk_taskId t) w)") auto
  then show ?thesis by (simp add: create_result unchanged split: sum.split)
qed

lemma decision_change:
  assumes ok: "reviews_ok w"
  shows "review_change w (snd (submitDecision task d v w))"
proof (cases "valid_id ''taskId'' task")
  case (Inl e)
  then show ?thesis by (simp add: submitDecision_def bnd_run lift_res_def unchanged)
next
  case (Inr t)
  show ?thesis
  proof (cases "get_review t w")
    case got: (Pair x u)
    have u: "u = w" using get_review_state [of t w] got by simp
    note run = submitDecision_def bnd_run Inr got u lift_res_def require_that_def guard_res_def throw_def ret_def unchanged
    consider (identity) "dn_protocol d \<noteq> REVIEW_DECISION_V1 \<or> dn_taskId d \<noteq> t" | (refused) "x = Inr None \<or> (\<exists>e. x = Inl e)"
      | (found) r where "x = Inr (Some r)" "dn_protocol d = REVIEW_DECISION_V1" "dn_taskId d = t"
      by (metis not_None_eq sum.exhaust)
    then show ?thesis
    proof cases
      case identity
      then show ?thesis by (auto simp: run)
    next
      case refused
      then show ?thesis by (auto simp: run)
    next
      case (found r)
      have t: "valid_id ''taskId'' t = Inr t" by (rule valid_id_again [OF Inr])
      have filed: "rvw_taskId r = t" "filed_review w (rv_storageName (rw_platform w) t @ ''.json'') r"
        by (rule get_review_found [OF got [unfolded found(1)]], use t in simp)+
      let ?tm = "rv_clock (rw_platform w) (rw_ticks w)"
      let ?r = "decide_cycle t d v ?tm r"
      have tick: "review_change w (w\<lparr>rw_ticks := Suc (rw_ticks w)\<rparr>)" by (simp add: review_change_def)
      show ?thesis
      proof (cases "rvw_cycles r = [] \<or> ry_cycle (last (rvw_cycles r)) \<noteq> dn_cycle d \<or> rk_reviewId (ry_packet (last (rvw_cycles r))) \<noteq> dn_reviewId d
          \<or> ry_decision (last (rvw_cycles r)) \<noteq> None")
        case True
        then show ?thesis using found by (auto simp: run split: option.split)
      next
        case False
        show ?thesis
        proof (cases "dn_decision d = ChangesRequested \<and> dn_requiredFixes d = []")
          case True
          then show ?thesis using False found tick by (simp add: run review_now_run)
        next
          case changes: False
          have "review_ok r" using ok filed(2) unfolding reviews_ok_def by blast
          then have decided: "review_ok ?r" "history_kept r ?r" using cycle_decided [of r d t v ?tm] False changes by blast+
          have "review_change w (snd (bnd (write_review ?r) (\<lambda>_. ret ?r) (w\<lparr>rw_ticks := Suc (rw_ticks w)\<rparr>)))"
          proof (rule written_change)
            show "valid_id ''taskId'' (rvw_taskId ?r) = Inr t" using t filed(1) by (simp add: decide_cycle_def Let_def)
            show "history_kept q ?r" if "filed_review w (rv_storageName (rw_platform w) t @ ''.json'') q" for q
              using decided(2) filed_once [OF filed(2) that] by simp
          qed (use decided in simp_all)
          moreover have "submitDecision task d v w = bnd (write_review ?r) (\<lambda>_. ret ?r) (w\<lparr>rw_ticks := Suc (rw_ticks w)\<rparr>)"
            using False changes found by (auto simp: submitDecision_def bnd_run Inr got u lift_res_def require_that_def guard_res_def review_now_run Let_def)
          ultimately show ?thesis by simp
        qed
      qed
    qed
  qed
qed

section \<open>Runs\<close>

inductive review_step :: "review_world \<Rightarrow> review_world \<Rightarrow> bool" where
  requested: "review_step w (snd (createReview t r b w))"
| submitted: "review_step w (snd (submitDecision task d v w))"

lemma step_change: "review_step w w' \<Longrightarrow> reviews_ok w \<Longrightarrow> review_change w w'"
  by (induction rule: review_step.induct) (simp_all add: create_change decision_change)

lemma change_ok: "review_change w w' \<Longrightarrow> reviews_ok w \<Longrightarrow> reviews_ok w'"
proof -
  assume change: "review_change w w'" and ok: "reviews_ok w"
  have "review_ok r" if r: "filed_review w' f r" for f r
  proof (cases "filed_review w f r")
    case True
    then show ?thesis using ok unfolding reviews_ok_def by blast
  next
    case False
    then show ?thesis using change r unfolding review_change_def filed_review_def by (auto simp: update_conv' split: if_splits)
  qed
  then show ?thesis unfolding reviews_ok_def by blast
qed

lemma change_history:
  assumes "review_change w w'" "filed_review w f r"
  shows "\<exists>r'. filed_review w' f r' \<and> history_kept r r'"
proof (cases "rw_files w' = rw_files w")
  case True
  then show ?thesis using assms(2) history_refl by (auto simp: filed_review_def)
next
  case False
  then obtain g n q where "rw_files w' = AList.update g (ReviewFile n (Inr q)) (rw_files w)" "\<forall>p. filed_review w g p \<longrightarrow> history_kept p q"
    using assms(1) unfolding review_change_def by blast
  then show ?thesis using assms(2) history_refl by (cases "f = g") (auto simp: filed_review_def update_conv')
qed

lemma run_reviews_ok: "review_step\<^sup>*\<^sup>* w w' \<Longrightarrow> reviews_ok w \<Longrightarrow> reviews_ok w'"
  by (induction rule: rtranclp_induct) (auto intro: change_ok step_change)

lemma run_history:
  "review_step\<^sup>*\<^sup>* w w' \<Longrightarrow> reviews_ok w \<Longrightarrow> filed_review w f r \<Longrightarrow> \<exists>r'. filed_review w' f r' \<and> history_kept r r'"
proof (induction rule: rtranclp_induct)
  case base
  then show ?case using history_refl by blast
next
  case (step u v)
  then obtain r1 where "filed_review u f r1" "history_kept r r1" by blast
  moreover have "review_change u v" using step_change [OF step(2)] run_reviews_ok [OF step(1)] step.prems by blast
  ultimately show ?case using change_history history_trans by blast
qed

text \<open>A cycle is only added within the budget of its task.\<close>

lemma cycle_within_budget:
  assumes "createReview t r b w = (Inr x, w')"
  shows "ry_cycle (last (rvw_cycles x)) \<le> max_cycles t"
  using assms unfolding create_result
  by (auto simp: Let_def bnd_run ret_def add_cycle_def review_packet_of_def split: sum.splits if_splits prod.splits)

text \<open>C16: In a store that was empty at first, the record of a review is never lost, and whatever has been decided about a cycle stays: a
  later record has all the cycles of the earlier one in order, with their packets, and every decided cycle as it was. Its cycles are
  numbered from one, each fix request belongs to a decision that asks for changes, and its state is the one of the last cycle.\<close>

theorem review_history_kept:
  assumes "rw_files w0 = []" "review_step\<^sup>*\<^sup>* w0 w" "review_step\<^sup>*\<^sup>* w w'" "filed_review w f r"
  shows "\<exists>r'. filed_review w' f r' \<and> history_kept r r' \<and> review_ok r'"
proof -
  have "reviews_ok w0" using assms(1) by (simp add: reviews_ok_def filed_review_def)
  then have ok: "reviews_ok w" "reviews_ok w'" using run_reviews_ok assms(2,3) by blast+
  then show ?thesis using run_history [OF assms(3) _ assms(4)] unfolding reviews_ok_def by blast
qed

definition demo_reviews :: review_world where
  "demo_reviews = \<lparr>rw_platform = \<lparr>rv_uuid = nat_text, rv_clock = (\<lambda>n. ''now'' @ nat_text n), rv_storageName = (\<lambda>t. t), rv_bytes = (\<lambda>r. 100)\<rparr>,
     rw_files = [], rw_ticks = 0\<rparr>"

definition demo_spec :: agent_task_spec where
  "demo_spec = \<lparr>tk_taskId = ''t'', tk_executionId = ''x'', tk_projectId = ''p'', tk_goal = ''g'', tk_contextVersion = 1, tk_importance = None,
     tk_baseSha = None, tk_worktreePath = None, tk_requirements = [], tk_constraints = [], tk_reviewRequired = True, tk_maxCycles = Some 2,
     tk_rest = JObj []\<rparr>"

definition demo_agent_result :: agent_result where
  "demo_agent_result = \<lparr>ag_taskId = ''t'', ag_executionId = ''x'', ag_projectId = ''p'', ag_provider = ProviderCodex, ag_status = ResultComplete,
     ag_contextVersion = 1, ag_conversationId = None, ag_summary = ''s'', ag_changedFiles = [], ag_artifacts = [], ag_git = None,
     ag_verification = [], ag_knownIssues = [], ag_blockers = [], ag_recommendedAction = GptReview, ag_completedAt = ''now'', ag_rest = JObj []\<rparr>"

definition demo_agent_binding :: agent_binding where
  "demo_agent_binding = \<lparr>ab_projectId = ''p'', ab_taskId = ''t'', ab_originSessionId = ''o'', ab_targetLogicalSessionId = ''l'', ab_reviewSessionId = None,
     ab_runtimeConversationId = None, ab_createdAt = ''now'', ab_updatedAt = ''now''\<rparr>"

definition demo_verdict :: review_decision where
  "demo_verdict = \<lparr>dn_protocol = REVIEW_DECISION_V1, dn_reviewId = ''review-0'', dn_taskId = ''t'', dn_cycle = 1, dn_decision = ChangesRequested,
     dn_findings = [], dn_requiredFixes = [''fix''], dn_optionalSuggestions = [], dn_reviewerSessionId = ''r'', dn_createdAt = ''now''\<rparr>"

definition demo_requested :: review_world where
  "demo_requested = snd (createReview demo_spec demo_agent_result demo_agent_binding demo_reviews)"

definition demo_decided :: review_world where
  "demo_decided = snd (submitDecision ''t'' demo_verdict 1 demo_requested)"

definition demo_second_cycle :: review_world where
  "demo_second_cycle = snd (createReview demo_spec demo_agent_result demo_agent_binding demo_decided)"

definition review_at :: "string \<Rightarrow> review_world \<Rightarrow> review_record option" where
  "review_at f w = (case map_of (rw_files w) f of Some (ReviewFile n (Inr r)) \<Rightarrow> Some r | _ \<Rightarrow> None)"

lemma review_at_filed: "review_at f w = Some r \<Longrightarrow> filed_review w f r"
  by (auto simp: review_at_def filed_review_def split: option.splits review_file.splits sum.splits)

lemma demo_review_states:
  "map_option (\<lambda>r. map ry_decision (rvw_cycles r)) (review_at ''t.json'' demo_decided) = Some [Some demo_verdict]"
  "map_option rvw_state (review_at ''t.json'' demo_decided) = Some FixDispatched"
  "map_option (\<lambda>r. map ry_decision (rvw_cycles r)) (review_at ''t.json'' demo_second_cycle) = Some [Some demo_verdict, None]"
  by code_simp+

theorem review_history_kept_witness:
  "\<exists>r r'. filed_review demo_decided ''t.json'' r \<and> map ry_decision (rvw_cycles r) = [Some demo_verdict] \<and>
     filed_review demo_second_cycle ''t.json'' r' \<and> history_kept r r' \<and> review_ok r'"
proof -
  obtain r where at: "review_at ''t.json'' demo_decided = Some r" and decisions: "map ry_decision (rvw_cycles r) = [Some demo_verdict]"
    using demo_review_states(1) by (cases "review_at ''t.json'' demo_decided") simp_all
  note r = review_at_filed [OF at] decisions
  have "review_step demo_reviews demo_requested" "review_step demo_requested demo_decided" "review_step demo_decided demo_second_cycle"
    unfolding demo_requested_def demo_decided_def demo_second_cycle_def by (rule requested submitted)+
  then have "review_step\<^sup>*\<^sup>* demo_reviews demo_decided" "review_step\<^sup>*\<^sup>* demo_decided demo_second_cycle" by auto
  moreover have "rw_files demo_reviews = []" by (simp add: demo_reviews_def)
  ultimately obtain r' where "filed_review demo_second_cycle ''t.json'' r'" "history_kept r r'" "review_ok r'"
    using review_history_kept [of demo_reviews demo_decided demo_second_cycle, OF _ _ _ r(1)] by auto
  with r show ?thesis by (intro exI conjI)
qed

end
