(* ===== verification/AgentRecoveryCorrectness.thy ===== *)
theory AgentRecoveryCorrectness
  imports AgentRecovery ReviewLoopCorrectness
begin

text \<open>
  The properties of the records of agent tasks and of their recovery: the specification of a task is fixed and its histories are
  bounded; an unknown outcome bars a retry until it is classified, with the evidence the classification needs.
\<close>

section \<open>The store\<close>

definition task_ok :: "agent_task \<Rightarrow> bool" where
  "task_ok r \<longleftrightarrow> length (gt_attempts r) \<le> MAX_ATTEMPTS \<and> length (gt_routingDecisions r) \<le> MAX_ROUTING_DECISIONS"

definition filed_task :: "tasks_world \<Rightarrow> string \<Rightarrow> agent_task \<Rightarrow> bool" where
  "filed_task w f r \<longleftrightarrow> (\<exists>n. map_of (tw_files w) f = Some (TaskFile n (Inr r)))"

definition tasks_ok :: "tasks_world \<Rightarrow> bool" where
  "tasks_ok w \<longleftrightarrow> (\<forall>f r. filed_task w f r \<longrightarrow> task_ok r)"

text \<open>What an operation does: nothing, or one record replaced by one of the same task.\<close>

definition task_change :: "tasks_world \<Rightarrow> tasks_world \<Rightarrow> bool" where
  "task_change w w' \<longleftrightarrow> tw_files w' = tw_files w \<or> (\<exists>f n r. tw_files w' = AList.update f (TaskFile n (Inr r)) (tw_files w) \<and> task_ok r \<and>
     (\<forall>q. filed_task w f q \<longrightarrow> gt_task r = gt_task q))"

lemma same_change: "tw_files w' = tw_files w \<Longrightarrow> task_change w w'"
  by (simp add: task_change_def)

lemma task_file_name_tick [simp]: "task_file_name t (w\<lparr>tw_ticks := k\<rparr>) = task_file_name t w"
  by (simp add: task_file_name_def)

lemma get_task_run:
  "get_task v w = (case valid_id ''taskId'' v of Inl e \<Rightarrow> (Inl e, w) | Inr t \<Rightarrow> (parse_task t (map_of (tw_files w) (task_file_name t w)), w))"
  by (simp add: get_task_def bnd_run lift_res_def gets_def split: sum.splits)

lemma parse_found: "parse_task t x = Inr (Some r) \<Longrightarrow> tk_taskId (gt_task r) = t \<and> (\<exists>n. x = Some (TaskFile n (Inr r)) \<and> n \<le> TASK_MAX_FILE_BYTES)"
  by (induction t x rule: parse_task.induct) (auto split: if_splits sum.splits)

lemma parse_absent: "parse_task t x = Inr None \<Longrightarrow> x = None"
  by (induction t x rule: parse_task.induct) (auto split: if_splits sum.splits)

lemma tasks_now_run: "tasks_now w = (Inr (tp_clock (tw_platform w) (tw_ticks w)), w\<lparr>tw_ticks := Suc (tw_ticks w)\<rparr>)"
  by (simp add: tasks_now_def bnd_run eff_defs)

lemma write_task_run:
  assumes "valid_id ''taskId'' (tk_taskId (gt_task r)) = Inr t"
  shows "write_task r w = (if tp_bytes (tw_platform w) r > TASK_MAX_FILE_BYTES then (Inl (Error ''agent task record exceeds size limit''), w)
    else (Inr (), w\<lparr>tw_files := AList.update (task_file_name t w) (TaskFile (tp_bytes (tw_platform w) r) (Inr r)) (tw_files w)\<rparr>))"
  using assms by (simp add: write_task_def bnd_run lift_res_def gets_def require_that_def guard_res_def modify_def)

text \<open>An update finds a record, or nothing is changed.\<close>

lemma update_task_run:
  assumes "update_task v f w = (res, w')"
  shows "tw_files w' = tw_files w \<and> (\<exists>e. res = Inl e) \<or> (\<exists>t r c now n. valid_id ''taskId'' v = Inr t \<and> get_task v w = (Inr (Some r), w) \<and> f r = Inr c \<and>
    tk_taskId (gt_task c) = t \<and> res = Inr (c\<lparr>gt_updatedAt := now\<rparr>) \<and> tw_platform w' = tw_platform w \<and> n \<le> TASK_MAX_FILE_BYTES \<and>
    tw_files w' = AList.update (task_file_name t w) (TaskFile n (Inr (c\<lparr>gt_updatedAt := now\<rparr>))) (tw_files w))"
proof (cases "valid_id ''taskId'' v")
  case (Inl e)
  then show ?thesis using assms by (auto simp: update_task_def bnd_run lift_res_def)
next
  case (Inr t)
  have t: "valid_id ''taskId'' t = Inr t" by (rule valid_id_again [OF Inr])
  note run = update_task_def bnd_run lift_res_def Inr get_task_run t throw_def require_that_def guard_res_def
  show ?thesis
  proof (cases "parse_task t (map_of (tw_files w) (task_file_name t w))")
    case (Inl e)
    then show ?thesis using assms by (auto simp: run)
  next
    case got: (Inr x)
    show ?thesis
    proof (cases x)
      case None
      then show ?thesis using assms got by (auto simp: run)
    next
      case (Some r)
      show ?thesis
      proof (cases "f r")
        case e: (Inl e)
        show ?thesis using assms by (auto simp: run got Some e)
      next
        case c: (Inr c)
        show ?thesis
        proof (cases "tk_taskId (gt_task c) = t \<and> tk_executionId (gt_task c) = tk_executionId (gt_task r)")
          case False
          then show ?thesis using assms got Some c by (auto simp: run)
        next
          case True
          let ?c = "c\<lparr>gt_updatedAt := tp_clock (tw_platform w) (tw_ticks w)\<rparr>"
          have "valid_id ''taskId'' (tk_taskId (gt_task ?c)) = Inr t" using True t by simp
          note saved = write_task_run [OF this, of "w\<lparr>tw_ticks := Suc (tw_ticks w)\<rparr>"]
          show ?thesis
          proof (cases "tp_bytes (tw_platform w) ?c > TASK_MAX_FILE_BYTES")
            case large: True
            have "res = Inl (Error ''agent task record exceeds size limit'')" "tw_files w' = tw_files w"
              using assms True by (auto simp: run got Some c tasks_now_run Let_def saved large)
            then show ?thesis by simp
          next
            case small: False
            have "res = Inr ?c" "tw_platform w' = tw_platform w"
              "tw_files w' = AList.update (task_file_name t w) (TaskFile (tp_bytes (tw_platform w) ?c) (Inr ?c)) (tw_files w)"
              using assms True by (auto simp: run got Some c tasks_now_run Let_def saved small ret_def)
            then show ?thesis using small got Some c Inr True
              by (intro disjI2 exI [of _ t] exI [of _ r] exI [of _ c] exI [of _ "tp_clock (tw_platform w) (tw_ticks w)"]
                  exI [of _ "tp_bytes (tw_platform w) ?c"]) (simp add: get_task_run)
          qed
        qed
      qed
    qed
  qed
qed

definition keeps_task :: "(agent_task \<Rightarrow> agent_task res) \<Rightarrow> bool" where
  "keeps_task f \<longleftrightarrow> (\<forall>r c. f r = Inr c \<longrightarrow> gt_task c = gt_task r \<and> (task_ok r \<longrightarrow> task_ok c))"

lemma update_change:
  assumes ok: "tasks_ok w" and f: "keeps_task f"
  shows "task_change w (snd (update_task v f w))"
proof (cases "update_task v f w")
  case (Pair res w')
  from update_task_run [OF this] show ?thesis
  proof (elim disjE conjE exE)
    assume "tw_files w' = tw_files w"
    then show ?thesis using Pair by (simp add: same_change)
  next
    fix t r c now n
    assume *: "valid_id ''taskId'' v = Inr t" "get_task v w = (Inr (Some r), w)" "f r = Inr c"
      "tw_files w' = AList.update (task_file_name t w) (TaskFile n (Inr (c\<lparr>gt_updatedAt := now\<rparr>))) (tw_files w)"
    have r: "filed_task w (task_file_name t w) r"
      using *(1,2) by (auto simp: get_task_run filed_task_def dest: parse_found)
    then have "task_ok r" using ok unfolding tasks_ok_def by blast
    then have "gt_task c = gt_task r" "task_ok c" using f *(3) unfolding keeps_task_def by blast+
    then show ?thesis using Pair *(4) r unfolding task_change_def filed_task_def by (auto simp: task_ok_def intro!: exI)
  qed
qed

lemma create_task_change:
  assumes ok: "tasks_ok w"
  shows "task_change w (snd (create_task t p w))"
proof (cases "valid_id ''taskId'' (tk_taskId t)")
  case (Inl e)
  then show ?thesis by (simp add: create_task_def bnd_run get_task_run same_change)
next
  case (Inr i)
  show ?thesis
  proof (cases "parse_task i (map_of (tw_files w) (task_file_name i w))")
    case (Inl e)
    then show ?thesis by (simp add: create_task_def bnd_run get_task_run Inr same_change)
  next
    case got: (Inr x)
    show ?thesis
    proof (cases x)
      case (Some r)
      then show ?thesis by (simp add: create_task_def bnd_run get_task_run Inr got same_change ret_def throw_def)
    next
      case None
      let ?r = "new_task t p (tp_clock (tw_platform w) (tw_ticks w))"
      have "valid_id ''taskId'' (tk_taskId (gt_task ?r)) = Inr i" using Inr by (simp add: new_task_def)
      note written = write_task_run [OF this, of "w\<lparr>tw_ticks := Suc (tw_ticks w)\<rparr>"]
      have "map_of (tw_files w) (task_file_name i w) = None" using got None by (simp add: parse_absent)
      then show ?thesis
        by (auto simp: create_task_def bnd_run get_task_run Inr got None tasks_now_run Let_def written ret_def same_change)
          (auto simp: task_change_def filed_task_def task_ok_def new_task_def task_file_name_def intro!: exI)
    qed
  qed
qed


section \<open>Runs of the store\<close>

inductive task_step :: "tasks_world \<Rightarrow> tasks_world \<Rightarrow> bool" where
  created: "task_step w (snd (create_task spec p w))"
| state_set: "task_step w (snd (setState t s w))"
| binding_set: "task_step w (snd (setBinding t b w))"
| skills_set: "task_step w (snd (setSkills t ss w))"
| result_set: "task_step w (snd (setResult t x s w))"
| mapping_set: "task_step w (snd (setRemoteMapping t i x w))"
| meta_set: "task_step w (snd (setRoutingMeta t m f w))"
| decision_appended: "task_step w (snd (appendRoutingDecision t d w))"
| attempt_appended: "task_step w (snd (appendAttempt t a w))"
| attempt_updated: "task_step w (snd (updateAttempt t i patch w))"
| telemetry_set: "task_step w (snd (setFastPathTelemetry t y w))"
| target_set: "task_step w (snd (setResolvedTarget t q w))"

lemma patch_attempt_length: "patch_attempt i f as = Some bs \<Longrightarrow> length bs = length as"
  by (induction as arbitrary: bs) (auto split: if_splits)

lemma length_last_of [simp]: "length (last_of n xs) = min n (length xs)"
  by (simp add: last_of_def)

lemma step_task_change: "task_step w w' \<Longrightarrow> tasks_ok w \<Longrightarrow> task_change w w'"
proof (induction rule: task_step.induct)
  case (created w spec p)
  then show ?case by (rule create_task_change)
qed (auto simp: setState_def setBinding_def setSkills_def setResult_def setRemoteMapping_def setRoutingMeta_def appendRoutingDecision_def
    appendAttempt_def updateAttempt_def setFastPathTelemetry_def setResolvedTarget_def keeps_task_def task_ok_def patch_attempt_length
    split: sum.splits option.splits if_splits intro!: update_change)

lemma task_change_kept:
  assumes change: "task_change w w'" and r: "filed_task w f r"
  shows "\<exists>r'. filed_task w' f r' \<and> gt_task r' = gt_task r"
proof (cases "tw_files w' = tw_files w")
  case True
  then show ?thesis using r by (auto simp: filed_task_def)
next
  case False
  then obtain g n q where "tw_files w' = AList.update g (TaskFile n (Inr q)) (tw_files w)" "\<forall>p. filed_task w g p \<longrightarrow> gt_task q = gt_task p"
    using change unfolding task_change_def by blast
  then show ?thesis using r by (cases "f = g") (auto simp: filed_task_def update_conv')
qed

lemma task_change_ok:
  assumes change: "task_change w w'" and ok: "tasks_ok w"
  shows "tasks_ok w'"
proof -
  have "task_ok r" if r: "filed_task w' f r" for f r
  proof (cases "filed_task w f r")
    case True
    then show ?thesis using ok unfolding tasks_ok_def by blast
  next
    case False
    then show ?thesis using change r unfolding task_change_def filed_task_def by (auto simp: update_conv' split: if_splits)
  qed
  then show ?thesis unfolding tasks_ok_def by blast
qed

lemma run_tasks_ok: "task_step\<^sup>*\<^sup>* w w' \<Longrightarrow> tasks_ok w \<Longrightarrow> tasks_ok w'"
  by (induction rule: rtranclp_induct) (auto intro: task_change_ok step_task_change)

text \<open>The specification of a task is never changed, and the attempts and routing decisions of its record stay within their bounds.\<close>

lemma task_spec_fixed:
  "task_step\<^sup>*\<^sup>* w w' \<Longrightarrow> tasks_ok w \<Longrightarrow> filed_task w f r \<Longrightarrow> \<exists>r'. filed_task w' f r' \<and> gt_task r' = gt_task r \<and> task_ok r'"
proof (induction rule: rtranclp_induct)
  case base
  then show ?case unfolding tasks_ok_def by blast
next
  case (step u v)
  then obtain r1 where r1: "filed_task u f r1" "gt_task r1 = gt_task r" by blast
  have ok: "tasks_ok u" using run_tasks_ok [OF step(1)] step.prems by blast
  have change: "task_change u v" using step_task_change [OF step(2) ok] .
  from task_change_kept [OF change r1(1)] obtain r2 where "filed_task v f r2" "gt_task r2 = gt_task r1" by blast
  moreover have "task_ok r2" using task_change_ok [OF change ok] calculation(1) unfolding tasks_ok_def by blast
  ultimately show ?case using r1(2) by auto
qed

section \<open>Recovery\<close>

text \<open>The task is unknown to the recovery controller.\<close>

definition unknown_in :: "string \<Rightarrow> 'e recovery_world \<Rightarrow> bool" where
  "unknown_in t c \<longleftrightarrow> (\<exists>r. fst (get_task t (rcw_tasks c)) = Inr (Some r) \<and> is_unknown r)"

definition same_tasks :: "task_platform \<Rightarrow> (string \<times> task_file) list \<Rightarrow> 'e recovery_world \<Rightarrow> bool" where
  "same_tasks pf fs c \<longleftrightarrow> tw_platform (rcw_tasks c) = pf \<and> tw_files (rcw_tasks c) = fs"

abbreviation keeps_tasks :: "task_platform \<Rightarrow> (string \<times> task_file) list \<Rightarrow> ('e recovery_world, 'a) eff \<Rightarrow> bool" where
  "keeps_tasks pf fs m \<equiv> triple (same_tasks pf fs) m (\<lambda>_. same_tasks pf fs) (same_tasks pf fs)"

lemma keeps_beside: "keeps_tasks pf fs (beside m)"
  by (auto simp: triple_def beside_def same_tasks_def split: prod.splits sum.splits)

lemma keeps_reading: "keeps_tasks pf fs (in_tasks tasks_now)" "keeps_tasks pf fs (in_tasks (get_task t))"
    "keeps_tasks pf fs (in_tasks (recoveredResult d r s y))"
  by (auto simp: triple_def in_tasks_def same_tasks_def tasks_now_run get_task_run recoveredResult_def bnd_run throw_def ret_def
      split: prod.splits sum.splits option.splits if_splits)

lemma keeps_tasks_pure: "keeps_tasks pf fs (ret x)" "keeps_tasks pf fs (throw e)" "keeps_tasks pf fs (gets g)" "keeps_tasks pf fs (lift_res y)"
    "keeps_tasks pf fs (require_that b e)"
  by (rule triple_ret triple_throw triple_gets triple_lift_res triple_require; assumption)+

lemmas keeps_rules = triple_bnd triple_catch triple_if triple_option keeps_tasks_pure keeps_beside keeps_reading

lemma keeps_unknown: "keeps_tasks pf fs (requireUnknown t)"
  unfolding requireUnknown_def by (rule keeps_rules)+

lemma keeps_audit: "keeps_tasks pf fs (audit p a r d)"
  unfolding audit_def by (rule keeps_rules)+

lemma keeps_inspect: "keeps_tasks pf fs (inspect p t)"
  unfolding inspect_def Let_def runtime_alive_def git_of_task_def by (rule keeps_rules keeps_unknown keeps_audit)+

lemma same_unknown:
  assumes "same_tasks pf fs c" "same_tasks pf fs c'"
  shows "unknown_in t c = unknown_in t c'"
  using assms by (simp add: unknown_in_def same_tasks_def get_task_run task_file_name_def split: sum.splits)

lemma kept_unknown: "keeps_tasks (tw_platform (rcw_tasks c)) (tw_files (rcw_tasks c)) m \<Longrightarrow> unknown_in t (snd (m c)) = unknown_in t c"
proof -
  assume keeps: "keeps_tasks (tw_platform (rcw_tasks c)) (tw_files (rcw_tasks c)) m"
  have here: "same_tasks (tw_platform (rcw_tasks c)) (tw_files (rcw_tasks c)) c" by (simp add: same_tasks_def)
  show ?thesis by (rule same_unknown [OF tripleD_state [OF keeps here] here])
qed

lemma require_unknown_run: "snd (requireUnknown t c) = c"
  by (simp add: requireUnknown_def bnd_run in_tasks_def get_task_run throw_def ret_def split: sum.splits option.splits)

text \<open>Keeping an outcome unknown keeps it unknown.\<close>

lemma update_platform: "tw_platform (snd (update_task t f w)) = tw_platform w"
  by (auto simp: update_task_def bnd_run lift_res_def get_task_run throw_def require_that_def guard_res_def tasks_now_run write_task_def
      gets_def modify_def ret_def Let_def split: sum.splits option.splits)

lemma keep_stays_unknown:
  assumes "unknown_in t c"
  shows "unknown_in t (snd (in_tasks (setState t TaskOutcomeUnknown) c))"
proof (cases "setState t TaskOutcomeUnknown (rcw_tasks c)")
  case (Pair res w')
  have snd: "snd (in_tasks (setState t TaskOutcomeUnknown) c) = c\<lparr>rcw_tasks := w'\<rparr>" by (simp add: in_tasks_def Pair)
  obtain r where r: "fst (get_task t (rcw_tasks c)) = Inr (Some r)" "is_unknown r" using assms by (auto simp: unknown_in_def)
  from update_task_run [OF Pair [unfolded setState_def]] show ?thesis
  proof (elim disjE conjE exE)
    assume "tw_files w' = tw_files (rcw_tasks c)"
    moreover have "tw_platform w' = tw_platform (rcw_tasks c)" using update_platform [of t _ "rcw_tasks c"] Pair unfolding setState_def by (metis snd_conv)
    ultimately show ?thesis using assms snd same_unknown [of "tw_platform w'" "tw_files w'" "c\<lparr>rcw_tasks := w'\<rparr>" c]
      by (simp add: same_tasks_def)
  next
    fix i q d now n
    assume *: "valid_id ''taskId'' t = Inr i" "get_task t (rcw_tasks c) = (Inr (Some q), rcw_tasks c)" "Inr (q\<lparr>gt_state := TaskOutcomeUnknown\<rparr>) = Inr d"
      "tk_taskId (gt_task d) = i" "tw_platform w' = tw_platform (rcw_tasks c)" "n \<le> TASK_MAX_FILE_BYTES"
      "tw_files w' = AList.update (task_file_name i (rcw_tasks c)) (TaskFile n (Inr (d\<lparr>gt_updatedAt := now\<rparr>))) (tw_files (rcw_tasks c))"
    have "q = r" using *(2) r(1) by simp
    have "fst (get_task t w') = Inr (Some (d\<lparr>gt_updatedAt := now\<rparr>))"
      using *(1,4,5,6,7) by (simp add: get_task_run task_file_name_def update_conv')
    moreover have "is_unknown (d\<lparr>gt_updatedAt := now\<rparr>)" using *(3) r(2) \<open>q = r\<close> by (auto simp: is_unknown_def)
    ultimately show ?thesis by (auto simp: snd unknown_in_def)
  qed
qed

text \<open>A retry is refused as long as the outcome is unknown.\<close>

lemma retry_refused:
  assumes "unknown_in t c"
  shows "\<exists>e. fst (assertRetryAllowed t c) = Inl e"
proof -
  obtain r where "get_task t (rcw_tasks c) = (Inr (Some r), rcw_tasks c)" "is_unknown r"
    using assms by (auto simp: unknown_in_def get_task_run split: sum.splits)
  then show ?thesis by (simp add: assertRetryAllowed_def bnd_run in_tasks_def require_that_def lift_res_def guard_res_def is_unknown_def)
qed

lemma classify_without_evidence:
  assumes unknown: "unknown_in t c"
    and evidence: "\<not> (resolution = AcceptPartial \<and> oc_state (rsn_reconciliation s) \<in> {RecPartial, RecResultReady} \<or>
      resolution = MarkFailed \<and> rsn_runtimeAlive s \<noteq> Some True)"
  shows "unknown_in t (snd (classify p t resolution reason before s c))"
proof (cases resolution)
  case KeepUnknown
  then show ?thesis using keep_stays_unknown [OF unknown] by (simp add: classify_def)
qed (use unknown evidence in \<open>simp_all add: classify_def bnd_run require_that_def lift_res_def guard_res_def\<close>)

text \<open>C13: A task whose outcome is unknown stays unknown through inspection and resolution, and a retry of it stays refused, except that it is
  accepted as partial when the reconciliation of the inspected evidence says partial or ready, or marked failed when the inspection does
  not find its runtime alive; whatever the agent runtime, git and the other ports do.\<close>

theorem unknown_until_classified:
  assumes "unknown_in t c"
  shows "(\<exists>e. fst (assertRetryAllowed t c) = Inl e) \<and> unknown_in t (snd (inspect p t c)) \<and>
    (unknown_in t (snd (applyResolution p t resolution why c)) \<or>
     (\<exists>s c1. inspect p t c = (Inr s, c1) \<and> (resolution = AcceptPartial \<and> oc_state (rsn_reconciliation s) \<in> {RecPartial, RecResultReady} \<or>
        resolution = MarkFailed \<and> rsn_runtimeAlive s \<noteq> Some True)))"
proof (intro conjI)
  show "\<exists>e. fst (assertRetryAllowed t c) = Inl e" using retry_refused [OF assms] .
  show inspected: "unknown_in t (snd (inspect p t c))" using kept_unknown [OF keeps_inspect] assms by blast
  show "unknown_in t (snd (applyResolution p t resolution why c)) \<or>
     (\<exists>s c1. inspect p t c = (Inr s, c1) \<and> (resolution = AcceptPartial \<and> oc_state (rsn_reconciliation s) \<in> {RecPartial, RecResultReady} \<or>
        resolution = MarkFailed \<and> rsn_runtimeAlive s \<noteq> Some True))"
  proof (cases "\<exists>reason r s. rationale why = Inr reason \<and> fst (requireUnknown t c) = Inr r \<and> fst (inspect p t c) = Inr s")
    case False
    then have "snd (applyResolution p t resolution why c) \<in> {c, snd (inspect p t c)}"
      using require_unknown_run [of t c]
      by (auto simp: applyResolution_def bnd_run lift_res_def split: sum.splits prod.splits)
    then show ?thesis using assms inspected by auto
  next
    case True
    then obtain reason r s c1 where run: "rationale why = Inr reason" "requireUnknown t c = (Inr r, c)" "inspect p t c = (Inr s, c1)"
      using require_unknown_run by (metis prod.collapse)
    let ?done = "classify p t resolution reason r s c1"
    have "unknown_in t (snd (applyResolution p t resolution why c)) = unknown_in t (snd ?done)"
    proof (cases ?done)
      case (Pair res c2)
      show ?thesis
      proof (cases res)
        case (Inl e)
        then show ?thesis using run Pair by (simp add: applyResolution_def bnd_run lift_res_def)
      next
        case (Inr x)
        let ?audit = "bnd (audit p ''resolve'' x (Resolved resolution reason s)) (\<lambda>_. ret x)"
        have "keeps_tasks pf fs ?audit" for pf fs by (rule keeps_rules keeps_audit)+
        then have "unknown_in t (snd (?audit c2)) = unknown_in t c2" by (rule kept_unknown)
        moreover have "applyResolution p t resolution why c = ?audit c2"
          unfolding applyResolution_def bnd_run lift_res_def run Pair Inr sum.case prod.case by (rule refl)
        ultimately show ?thesis by (simp add: Pair)
      qed
    qed
    moreover have "unknown_in t c1" using inspected run(3) by simp
    ultimately show ?thesis using classify_without_evidence [of t c1 resolution s p reason r] run(3) by blast
  qed
qed

text \<open>A task whose outcome is unknown, with evidence of a failure and no runtime alive.\<close>

definition demo_unknown_task :: agent_task where
  "demo_unknown_task = (new_task demo_spec ProviderCodex ''now'')\<lparr>gt_state := TaskOutcomeUnknown,
     gt_result := Some (demo_agent_result\<lparr>ag_status := ResultOutcomeUnknown\<rparr>)\<rparr>"

definition demo_unknown :: "unit recovery_world" where
  "demo_unknown = \<lparr>rcw_tasks = \<lparr>tw_platform = \<lparr>tp_clock = (\<lambda>n. ''now''), tp_storageName = (\<lambda>t. t), tp_bytes = (\<lambda>r. 100)\<rparr>,
     tw_files = [(''t.json'', TaskFile 100 (Inr demo_unknown_task))], tw_ticks = 0\<rparr>, rcw_outside = ()\<rparr>"

definition demo_recovery_ports :: "unit recovery_ports" where
  "demo_recovery_ports = \<lparr>rx_activeSessions = (\<lambda>e. []), rx_binding = (\<lambda>s. ret None), rx_collectGitEvidence = (\<lambda>d b. throw NoEntry),
     rx_artifactsPresent = (\<lambda>t. ret False), rx_reconcileOutcome = (\<lambda>i. \<lparr>oc_state = RecFailed, oc_reasons = []\<rparr>), rx_audit = None, rx_dash = '' - ''\<rparr>"

definition outcome_of :: "'e recovery_world \<Rightarrow> (agent_task_state \<times> agent_result_status option) option" where
  "outcome_of c = (case fst (get_task ''t'' (rcw_tasks c)) of Inr (Some r) \<Rightarrow> Some (gt_state r, map_option ag_status (gt_result r)) | _ \<Rightarrow> None)"

lemma outcome_unknown: "unknown_in ''t'' c \<longleftrightarrow> outcome_of c = Some (TaskOutcomeUnknown, Some ResultOutcomeUnknown)"
  by (auto simp: unknown_in_def outcome_of_def is_unknown_def split: sum.splits option.splits)

lemma demo_outcomes:
  "outcome_of demo_unknown = Some (TaskOutcomeUnknown, Some ResultOutcomeUnknown)"
  "case fst (inspect demo_recovery_ports ''t'' demo_unknown) of Inl e \<Rightarrow> False | Inr s \<Rightarrow> oc_state (rsn_reconciliation s) = RecFailed"
  "outcome_of (snd (applyResolution demo_recovery_ports ''t'' MarkFailed ''lost'' demo_unknown)) = Some (TaskFailed, Some ResultStatusFailed)"
  by code_simp+

theorem unknown_until_classified_witness:
  "(\<exists>e. fst (assertRetryAllowed ''t'' demo_unknown) = Inl e) \<and>
   unknown_in ''t'' (snd (applyResolution demo_recovery_ports ''t'' AcceptPartial ''seen'' demo_unknown)) \<and>
   \<not> unknown_in ''t'' (snd (applyResolution demo_recovery_ports ''t'' MarkFailed ''lost'' demo_unknown))"
proof -
  have "unknown_in ''t'' demo_unknown" using demo_outcomes(1) by (simp add: outcome_unknown)
  from unknown_until_classified [OF this, of demo_recovery_ports AcceptPartial "''seen''"] demo_outcomes(2)
  have "(\<exists>e. fst (assertRetryAllowed ''t'' demo_unknown) = Inl e) \<and>
      unknown_in ''t'' (snd (applyResolution demo_recovery_ports ''t'' AcceptPartial ''seen'' demo_unknown))"
    by auto
  then show ?thesis using demo_outcomes(3) by (simp add: outcome_unknown)
qed

end
