(* ===== verification/Spec2Isabelle.thy ===== *)
theory Spec2Isabelle
  imports ComponentCorrectness FailoverCorrectness ExecutorManagerCorrectness HandoffCorrectness FailoverRuntimeCorrectness
    GroupIntegrationCorrectness GroupVerificationCorrectness GroupPlanningCorrectness GroupWorkspaceCorrectness
    GroupControllerCorrectness GroupSessionCorrectness GroupRunnerCorrectness GroupFacadeCorrectness GroupMonitor
    RemoteNodeCorrectness CapabilityOperationsCorrectness AgentRecoveryCorrectness
begin

text \<open>
  The task runtimes of the Zero3 desktop application (TypeScript, \<open>src/apps/zero3-desktop\<close>): a model of the code and the theorems that
  make it correct.

  \<^bold>\<open>The program.\<close> Zero3 lets several coding agents work on one repository. A development group is planned (\<open>group-runtime/planning\<close>),
  its sessions are scheduled in waves (\<open>scheduler\<close>), each is run by an executor through prompts (\<open>session\<close>, \<open>controller\<close>), what a
  session delivers is audited (\<open>workspace\<close>), merged (\<open>integration\<close>), verified (\<open>verification\<close>), and the group is completed only with
  evidence for every requirement (\<open>completion\<close>). \<open>runtime\<close> and \<open>desktop\<close> are the facade the interface calls. The executors are reached
  through \<open>executor-runtime\<close>: a registry and a router, a manager of the bindings between tasks and executor sessions, and the failover
  between executors with its writer lease and handoff checkpoints. \<open>execution-runtime\<close> is the durable engine of workflow tasks (steps,
  assignments, gates, recovery). All of them keep their state in checksummed JSON files and append-only ledgers. Beside them stand a
  host for remote tasks (\<open>host-runtime\<close>) with a durable outbox, the operations of the local capabilities (\<open>capability-runtime\<close>), and
  the tasks given to a single agent with their reviews and the recovery of unknown outcomes (\<open>agent-routing-runtime\<close>).

  \<^bold>\<open>Theories and sources.\<close>
  \<^item> \<open>Prelude\<close>: errors, JavaScript strings and collections, the type \<open>eff\<close> of operations that change a state and may throw (the state
    survives a throw, as files do), its triples, the interface \<open>transition_table\<close>.
  \<^item> \<open>DurableJson\<close>, \<open>AppendLog\<close>: JSON values, \<open>stableJson\<close>, the envelope of durable files, and ledgers (interface \<open>append_log\<close>).
  \<^item> \<open>ExecutionStates\<close>, \<open>ExecutionContracts\<close>, \<open>ExecutionScheduler\<close>, \<open>ExecutionValidators\<close>, \<open>EventLedger\<close>, \<open>ExecutionStore\<close>,
    \<open>ExecutionRuntime\<close>: the files of \<open>execution-runtime\<close> by the same names. \<open>ExecutionMachine\<close> is the abstract specification of the
    engine, \<open>StoreInvariant\<close> and \<open>OperationRules\<close> what its operations keep, \<open>ExecutionRefinement\<close> the simulation,
    \<open>ExecutionDemo\<close> two runs, \<open>ExecutionCorrectness\<close> and \<open>ComponentCorrectness\<close> the properties.
  \<^item> \<open>ExecutorTypes\<close> (types, failures, registry, router; interface \<open>executor_directory\<close>), \<open>ExecutorManager\<close>, \<open>FailoverController\<close>,
    \<open>Handoff\<close> (checkpoints, their store, the writer lease) and \<open>FailoverRuntime\<close>: \<open>executor-runtime\<close>. The theories \<open>ExecutorManagerSafety\<close>,
    \<open>ExecutorManagerCorrectness\<close>, \<open>FailoverSafety\<close> (interface \<open>once_per_event\<close>), \<open>FailoverCorrectness\<close>, \<open>HandoffCorrectness\<close> and
    \<open>FailoverRuntimeCorrectness\<close> hold their properties.
  \<^item> \<open>GroupContracts\<close>, \<open>GroupValidators\<close> (\<open>contracts\<close>), \<open>GroupScheduler\<close>, \<open>GroupPlanning\<close>, \<open>GroupWorkspace\<close>, \<open>GroupIntegration\<close>,
    \<open>GroupVerification\<close>, \<open>GroupCompletion\<close>, \<open>GroupStore\<close> (\<open>store\<close>), \<open>GroupController\<close> and \<open>GroupMonitor\<close> (\<open>controller\<close>), \<open>GroupSession\<close>
    (\<open>session\<close>), \<open>GroupRunner\<close> (the runner on the store), \<open>GroupLifecycle\<close> (\<open>runtime/session-lifecycle.ts\<close> and the records of runs)
    and \<open>GroupFacade\<close> (\<open>runtime\<close>, \<open>desktop\<close>): \<open>group-runtime\<close>. Their properties are in the theories named \<open>Group...Correctness\<close>.
  \<^item> \<open>RemoteOutbox\<close>: \<open>host-runtime/remote-outbox.ts\<close>, \<open>remote-outbox-drain.ts\<close> and the publishing of \<open>remote-node.ts\<close>;
    \<open>RemoteNode\<close>: how \<open>remote-node.ts\<close> serves a lease; \<open>CapabilityOperations\<close>: \<open>capability-runtime\<close> without the capabilities
    themselves; \<open>AgentContracts\<close>, \<open>ReviewLoop\<close>, \<open>AgentTasks\<close> and \<open>AgentRecovery\<close>: the stores of tasks and reviews of
    \<open>agent-routing-runtime\<close> and its recovery controller. Their properties are in the theories named \<open>...Correctness\<close>.

  A class is a record of its fields and of the files it owns, a method a definition of type \<open>eff\<close> over it, an \<open>await\<close> on code outside
  the model either a parameter (a field of a record of ports) or the border between two definitions, \<open>..._begin\<close> and \<open>..._finish\<close>,
  between which anything else may happen. Definitions have the names of the source, with a suffix where two classes share one.

  \<^bold>\<open>What is shown.\<close>
  \<^item> The engine: every operation is a move of the abstract machine (\<open>operation_refines\<close>), so work follows the dependencies, a completed
    step has its outputs, attempts stay in their budget, capacity is respected until a progress report resumes a step, and reconciling
    after a crash always succeeds.
  \<^item> Failover: only a verified switch moves authority and generation; the lease, the controller and the manager agree after it; nobody but
    the controller's executor ever holds an active lease; a replayed failure can split them (a defect, proved as such).
  \<^item> Groups: the state of a group is the reduction of its ledger; sessions follow their table; a delivery is accepted exactly under the
    conditions of the gate; the integrations form one history, but for empty merges; an unknown outcome is quarantined and stops the
    group; a completed group has evidence for every requirement. The planner's waves, the cycle searches and the walk over integrations
    agree with reference definitions. Planned ownership is exclusive as far as the texts of the paths go; patterns can overlap.
  \<^item> The store of the groups: a crash between the two writes of a recording or of an acceptance is repaired (\<open>crash_recovers\<close>,
    \<open>group_always_resumes\<close>, \<open>acceptance_survives_crash\<close>), as long as what was written can be read. It often cannot: see the next
    paragraph. An event that names no session, wave or detail blocks its group for good (\<open>incomplete_event_blocks_group\<close>), so creating
    a group always throws (\<open>createGroup_never_returns\<close>), and no delivered session is ever read (\<open>delivered_is_never_read\<close>).
  \<^item> The remote host: events are numbered in increasing order, and a task is started only after the control plane has taken its
    acceptance. The capabilities: an operation that has ended stays as it is, through restarts; no two operations share an idempotency key.
  \<^item> Agent tasks: a decided review cycle stays, and an unknown outcome bars a retry until it is classified with evidence.
  \<^item> Round trips of snapshots and canonical paths; bounds of budgets; liveness of a compiled plan.

  \<^bold>\<open>Undefined keys.\<close> A checksum is taken of \<open>stableJson\<close>, which prints an own key of an object also when its value is \<open>undefined\<close>;
  \<open>JSON.stringify\<close>, which writes the object, drops the key. A record that the code builds with such keys (an event of a group, a
  session, the state of a group, a requirement, a failure) lists them in a field \<open>..._undefined\<close>; \<open>written_text\<close> and
  \<open>group_record_for\<close> put the record with them into the checksum and the record without them (\<open>event_stored\<close>, \<open>session_stored\<close> and the
  like) into the file. That SHA-256 tells the two apart is the hypothesis \<open>undefined_shows\<close>. The theorems of the lifecycle, of the
  controller and of the runner hold with it; those of the operations of a session in memory and of the facade do not depend on it.
  What is given to \<open>execution-runtime\<close> is taken to have no undefined keys; its own writes leave absent fields out.

  The interfaces are the locales \<open>transition_table\<close> (interpreted for the five tables), \<open>append_log\<close> (two ledgers), \<open>executor_directory\<close>,
  \<open>once_per_event\<close> (three operations of the failover controller), \<open>runner_environment\<close> (what a session runner asks of its world; provided by
  the store) and \<open>session_condition\<close> (a condition every operation of the runner keeps; for the durable store and for the facade).

  \<^bold>\<open>Bounds and termination.\<close> Loops over lists are structural. The walks over integrations and the searches for cycles end by the number of
  nodes not visited yet, given as a measure; there is no fuel. Numbers that the code requires to be safe integers are \<open>int\<close> with the
  check \<open>safe_integer\<close>; a ratio is \<open>rat\<close>. Strings are lists of 8-bit characters.

  \<^bold>\<open>Not modelled.\<close> Text beyond 8-bit characters and the rounding of floating point numbers. SHA-256, \<open>localeCompare\<close>, path resolution, the
  clock (one reading per event), UUIDs, git, processes and the drivers of the executors are parameters; hypotheses on them say what their
  documentation says. An atomic replacement of a file is one step, and where the code can stop between two writes the definition is split
  there; a torn line of a ledger and a temporary file left by an append are not modelled. An operation on the writer lease, a read, a
  check and a write, is one step, although two processes could interleave in it. Writing never fails where an operation changes
  memory first (the operations of the capabilities, the cursor of the outbox). Several checks awaited together fail with the first
  in the order of the code, not in time. The abstract machine lets a task be deleted in any state; the guard of the operation is in
  its definition. The limits of the failover configuration are natural numbers. An error that merely looks like an executor failure
  is normalized as an internal one. A prompt that a facade launches without waiting is a job that runs as a step of its own; between
  its events only the manager changes. The drivers of the executors, the
  desktop interface and its wiring, the scripts, the remote task runner, the routing among models, and the worker, workflow, memory and web runtimes
  are left out: they are protocol adapters, pages, text or floating point scores.
\<close>

end
